(* ===== verification/Prelude.thy ===== *)
theory Prelude
  imports Main "HOL-Library.Word" "HOL-Library.Sublist"
begin

text \<open>
  Shared ground of the development: the result type of a Go call that returns an error, the
  string helpers of the Go standard library that the services use (strings are byte lists, as
  Go's are), the decimal rendering of integers, and the generic lemmas on lists and options
  the component theories share.

  A Go function that returns \<open>(T, error)\<close> is a HOL function into \<open>'e + 'a\<close>: \<open>Inl\<close> is the
  error, \<open>Inr\<close> the value.  A Go function that only returns \<open>error\<close> is a function into
  \<open>'e option\<close>: \<open>None\<close> is Go's \<open>nil\<close>.
\<close>

named_theorems go_simps \<open>unfolding rules of the small operations of the model\<close>
named_theorems inv_intros \<open>preservation of the component invariants\<close>

subsection \<open>Time\<close>

text \<open>
  Instants and durations are integers of nanoseconds.  Where the code multiplies durations
  (the retry back-off) the 64-bit wrap-around of Go's \<open>time.Duration\<close> is written out.
\<close>

type_synonym instant = int
type_synonym duration = int

definition Millisecond :: duration where "Millisecond = 1000000"
definition Second :: duration where "Second = 1000 * Millisecond"
definition Minute :: duration where "Minute = 60 * Second"
definition Hour :: duration where "Hour = 60 * Minute"

lemmas time_units [go_simps] = Millisecond_def Second_def Minute_def Hour_def

text \<open>The instant a Go \<open>time.Time{}\<close> stands for: the first of January of year 1.\<close>

definition zero_time :: instant where
  "zero_time = - 62135596800 * Second"

definition wrap64 :: "int \<Rightarrow> int" where
  "wrap64 x = (x + 2 ^ 63) mod 2 ^ 64 - 2 ^ 63"

lemma wrap64_id: "- (2 ^ 63) \<le> x \<Longrightarrow> x < 2 ^ 63 \<Longrightarrow> wrap64 x = x"
  by (simp add: wrap64_def)

lemma wrap64_range: "- (2 ^ 63) \<le> wrap64 x \<and> wrap64 x < 2 ^ 63"
  by (simp add: wrap64_def pos_mod_bound)

subsection \<open>Go strings\<close>

definition has_prefix :: "string \<Rightarrow> string \<Rightarrow> bool" where
  "has_prefix s p \<longleftrightarrow> length p \<le> length s \<and> take (length p) s = p"

definition has_suffix :: "string \<Rightarrow> string \<Rightarrow> bool" where
  "has_suffix s p \<longleftrightarrow> length p \<le> length s \<and> drop (length s - length p) s = p"

definition trim_suffix :: "string \<Rightarrow> string \<Rightarrow> string" where
  "trim_suffix s p = (if has_suffix s p then take (length s - length p) s else s)"

definition trim_prefix :: "string \<Rightarrow> string \<Rightarrow> string" where
  "trim_prefix s p = (if has_prefix s p then drop (length p) s else s)"

lemma has_prefix_iff: "has_prefix s p \<longleftrightarrow> (\<exists>r. s = p @ r)"
proof
  assume "has_prefix s p"
  then have "s = p @ drop (length p) s"
    by (metis append_take_drop_id has_prefix_def)
  then show "\<exists>r. s = p @ r" ..
qed (auto simp: has_prefix_def)

lemma has_suffix_iff: "has_suffix s p \<longleftrightarrow> (\<exists>r. s = r @ p)"
proof
  assume "has_suffix s p"
  then have "s = take (length s - length p) s @ p"
    by (metis append_take_drop_id has_suffix_def)
  then show "\<exists>r. s = r @ p" ..
qed (auto simp: has_suffix_def)

lemma trim_suffix_append [simp]: "trim_suffix (r @ p) p = r"
  by (simp add: trim_suffix_def has_suffix_def)

subsection \<open>Decimal rendering, as \<open>%d\<close> prints it\<close>

definition digit_char :: "nat \<Rightarrow> char" where
  "digit_char d = char_of (48 + d)"

fun nat_str :: "nat \<Rightarrow> string" where
  "nat_str n = (if n < 10 then [digit_char n] else nat_str (n div 10) @ [digit_char (n mod 10)])"

declare nat_str.simps [simp del]

definition int_str :: "int \<Rightarrow> string" where
  "int_str i = (if i < 0 then CHR ''-'' # nat_str (nat (- i)) else nat_str (nat i))"

lemma digit_char_inj: "a < 10 \<Longrightarrow> b < 10 \<Longrightarrow> digit_char a = digit_char b \<Longrightarrow> a = b"
proof -
  assume a: "a < 10" "b < 10" and "digit_char a = digit_char b"
  then have "(of_char (digit_char a) :: nat) = of_char (digit_char b)" by simp
  with a show "a = b" by (simp add: digit_char_def)
qed

lemma nat_str_ne [simp]: "nat_str n \<noteq> []"
  by (subst nat_str.simps) simp

lemma nat_str_ne' [simp]: "[] \<noteq> nat_str n"
  using nat_str_ne [of n] by (simp add: eq_commute)

lemma nat_str_small: "n < 10 \<Longrightarrow> nat_str n = [digit_char n]"
  by (subst nat_str.simps) simp

lemma nat_str_big: "10 \<le> n \<Longrightarrow> nat_str n = nat_str (n div 10) @ [digit_char (n mod 10)]"
  by (subst nat_str.simps) simp

lemma nat_str_inj: "nat_str n = nat_str m \<Longrightarrow> n = m"
proof (induction n arbitrary: m rule: less_induct)
  case (less n)
  show ?case
  proof (cases "n < 10")
    case n: True
    show ?thesis
    proof (cases "m < 10")
      case True
      with n less.prems show ?thesis by (auto simp: nat_str_small intro: digit_char_inj)
    next
      case False
      with n less.prems have "[digit_char n] = nat_str (m div 10) @ [digit_char (m mod 10)]"
        by (simp add: nat_str_small nat_str_big)
      then show ?thesis by simp
    qed
  next
    case n: False
    show ?thesis
    proof (cases "m < 10")
      case True
      with n less.prems have "nat_str (n div 10) @ [digit_char (n mod 10)] = [digit_char m]"
        by (simp add: nat_str_small nat_str_big)
      then show ?thesis by simp
    next
      case False
      with n less.prems have "nat_str (n div 10) = nat_str (m div 10)"
        and "digit_char (n mod 10) = digit_char (m mod 10)"
        by (auto simp: nat_str_big)
      then have "n div 10 = m div 10" "n mod 10 = m mod 10"
        using less.IH [of "n div 10" "m div 10"] n by (auto intro: digit_char_inj)
      then show ?thesis by (metis mod_mult_div_eq)
    qed
  qed
qed

lemma digit_char_not: "d < 10 \<Longrightarrow> digit_char d \<noteq> CHR '':'' \<and> digit_char d \<noteq> CHR ''-''"
proof -
  assume d: "d < 10"
  then have "(of_char (digit_char d) :: nat) = 48 + d" by (simp add: digit_char_def)
  moreover have "(of_char (CHR '':'') :: nat) = 58" "(of_char (CHR ''-'') :: nat) = 45" by simp_all
  ultimately show ?thesis using d by fastforce
qed

lemma nat_str_no_sep: "CHR '':'' \<notin> set (nat_str n) \<and> CHR ''-'' \<notin> set (nat_str n)"
proof (induction n rule: less_induct)
  case (less n)
  show ?case
  proof (cases "n < 10")
    case True
    then show ?thesis using digit_char_not [of n] by (auto simp: nat_str_small)
  next
    case False
    then have "set (nat_str n) = set (nat_str (n div 10)) \<union> {digit_char (n mod 10)}"
      by (simp add: nat_str_big [of n])
    moreover have "CHR '':'' \<notin> set (nat_str (n div 10)) \<and> CHR ''-'' \<notin> set (nat_str (n div 10))"
      using False by (intro less.IH) simp
    moreover have "digit_char (n mod 10) \<noteq> CHR '':'' \<and> digit_char (n mod 10) \<noteq> CHR ''-''"
      by (rule digit_char_not) simp
    ultimately show ?thesis by (metis Un_iff empty_iff insert_iff)
  qed
qed

lemma int_str_inj: "int_str i = int_str j \<Longrightarrow> i = j"
proof -
  assume eq: "int_str i = int_str j"
  have no: "CHR ''-'' # xs \<noteq> nat_str n" for xs n
    using nat_str_no_sep [of n] by (metis list.set_intros(1))
  show ?thesis
    using eq no no [symmetric] by (auto simp: int_str_def dest!: nat_str_inj split: if_splits)
qed

lemma sep_split:
  "c \<notin> set a \<Longrightarrow> c \<notin> set b \<Longrightarrow> a @ c # r = b @ c # s \<longleftrightarrow> a = b \<and> r = s"
proof (induction a arbitrary: b)
  case Nil
  then show ?case by (cases b) auto
next
  case (Cons x a)
  then show ?case by (cases b) auto
qed

subsection \<open>Lists and options\<close>

lemma filter_length_split:
  "length (filter P xs) + length (filter (\<lambda>x. \<not> P x) xs) = length xs"
  by (induction xs) auto

lemma shuffles_append_left: "h \<in> shuffles xs ys \<Longrightarrow> h @ zs \<in> shuffles (xs @ zs) ys"
proof (induction h arbitrary: xs ys)
  case Nil
  then show ?case by (auto simp: Nil_in_shuffles)
next
  case (Cons c h)
  then show ?case by (fastforce simp: Cons_in_shuffles_iff neq_Nil_conv)
qed

lemma shuffles_append_right: "h \<in> shuffles xs ys \<Longrightarrow> h @ zs \<in> shuffles xs (ys @ zs)"
  using shuffles_append_left [of h ys xs zs] by (simp add: shuffles_commutes)

end
