(* ===== verification/Go_Float.thy ===== *)
theory Go_Float
  imports Complex_Main Prelude "HOL-Library.Log_Nat"
begin

text \<open>
  Go's \<open>float64\<close>, the IEEE 754 binary64 format, as an executable datatype: a NaN, the two
  infinities, and the finite values as a sign and a rational magnitude (so that the negative
  zero is kept apart).  Every arithmetic operation computes the exact rational result and
  rounds it to the nearest double, ties to even, with gradual underflow and overflow to
  infinity, as the hardware does.  Lua's numbers in Redis scripts are the same format.
\<close>

datatype f64 = NaN | Inf bool | Fin bool rat

fun f_val :: "f64 \<Rightarrow> rat" where
  "f_val (Fin s m) = (if s then - m else m)"
| "f_val _ = 0"

fun f_finite :: "f64 \<Rightarrow> bool" where
  "f_finite (Fin _ _) = True"
| "f_finite _ = False"

subsection \<open>Rounding\<close>

text \<open>Round half to even.\<close>

definition rne :: "rat \<Rightarrow> int" where
  "rne y = (let f = \<lfloor>y\<rfloor>; d = y - of_int f in
     if d < 1/2 then f else if 1/2 < d then f + 1 else if even f then f else f + 1)"

text \<open>The exponent of the binade of a positive rational.\<close>

definition ilog2 :: "rat \<Rightarrow> int" where
  "ilog2 x = (let (p, q) = quotient_of x;
                  k = int (floorlog 2 (nat p)) - int (floorlog 2 (nat q))
              in if 2 powi k \<le> x then k else k - 1)"

text \<open>The unit in the last place: 52 fraction bits, never below the least subnormal.\<close>

definition ulp :: "rat \<Rightarrow> rat" where
  "ulp x = 2 powi (max (ilog2 x - 52) (- 1074))"

definition rnd :: "rat \<Rightarrow> rat" where
  "rnd m = (if m = 0 then 0 else of_int (rne (m / ulp m)) * ulp m)"

text \<open>The overflow threshold, the least normal magnitude and the unit roundoff of binary64.\<close>

definition f_limit :: rat where "f_limit = 2 ^ 1024"
definition min_normal :: rat where "min_normal = 2 powi (- 1022)"
definition unit_roundoff :: rat where "unit_roundoff = 2 powi (- 53)"

definition mk_f64 :: "bool \<Rightarrow> rat \<Rightarrow> f64" where
  "mk_f64 s m = (let r = rnd m in if f_limit \<le> r then Inf s else Fin s r)"

definition f_of_rat :: "rat \<Rightarrow> f64" where
  "f_of_rat x = mk_f64 (x < 0) \<bar>x\<bar>"

definition f_of_int :: "int \<Rightarrow> f64" where
  "f_of_int n = f_of_rat (of_int n)"

subsection \<open>Operations\<close>

fun f_neg :: "f64 \<Rightarrow> f64" where
  "f_neg NaN = NaN"
| "f_neg (Inf s) = Inf (\<not> s)"
| "f_neg (Fin s m) = Fin (\<not> s) m"

fun f_abs :: "f64 \<Rightarrow> f64" where
  "f_abs NaN = NaN"
| "f_abs (Inf s) = Inf False"
| "f_abs (Fin s m) = Fin False m"

fun f_add :: "f64 \<Rightarrow> f64 \<Rightarrow> f64" where
  "f_add NaN _ = NaN"
| "f_add _ NaN = NaN"
| "f_add (Inf s) (Inf t) = (if s = t then Inf s else NaN)"
| "f_add (Inf s) (Fin _ _) = Inf s"
| "f_add (Fin _ _) (Inf t) = Inf t"
| "f_add (Fin s m) (Fin t n) =
     (let x = f_val (Fin s m) + f_val (Fin t n) in
      if x = 0 then Fin (s \<and> t) 0 else f_of_rat x)"

definition f_sub :: "f64 \<Rightarrow> f64 \<Rightarrow> f64" where
  "f_sub a b = f_add a (f_neg b)"

fun f_mul :: "f64 \<Rightarrow> f64 \<Rightarrow> f64" where
  "f_mul NaN _ = NaN"
| "f_mul _ NaN = NaN"
| "f_mul (Inf s) (Inf t) = Inf (s \<noteq> t)"
| "f_mul (Inf s) (Fin t n) = (if n = 0 then NaN else Inf (s \<noteq> t))"
| "f_mul (Fin s m) (Inf t) = (if m = 0 then NaN else Inf (s \<noteq> t))"
| "f_mul (Fin s m) (Fin t n) = mk_f64 (s \<noteq> t) (m * n)"

fun f_div :: "f64 \<Rightarrow> f64 \<Rightarrow> f64" where
  "f_div NaN _ = NaN"
| "f_div _ NaN = NaN"
| "f_div (Inf s) (Inf t) = NaN"
| "f_div (Inf s) (Fin t n) = Inf (s \<noteq> t)"
| "f_div (Fin s m) (Inf t) = Fin (s \<noteq> t) 0"
| "f_div (Fin s m) (Fin t n) =
     (if n = 0 then (if m = 0 then NaN else Inf (s \<noteq> t)) else mk_f64 (s \<noteq> t) (m / n))"

fun f_lt :: "f64 \<Rightarrow> f64 \<Rightarrow> bool" where
  "f_lt NaN _ = False"
| "f_lt _ NaN = False"
| "f_lt (Inf s) (Inf t) = (s \<and> \<not> t)"
| "f_lt (Inf s) (Fin _ _) = s"
| "f_lt (Fin _ _) (Inf t) = (\<not> t)"
| "f_lt (Fin s m) (Fin t n) = (f_val (Fin s m) < f_val (Fin t n))"

fun f_le :: "f64 \<Rightarrow> f64 \<Rightarrow> bool" where
  "f_le NaN _ = False"
| "f_le _ NaN = False"
| "f_le (Inf s) (Inf t) = (s \<or> \<not> t)"
| "f_le (Inf s) (Fin _ _) = s"
| "f_le (Fin _ _) (Inf t) = (\<not> t)"
| "f_le (Fin s m) (Fin t n) = (f_val (Fin s m) \<le> f_val (Fin t n))"

abbreviation f_gt :: "f64 \<Rightarrow> f64 \<Rightarrow> bool" where "f_gt a b \<equiv> f_lt b a"
abbreviation f_ge :: "f64 \<Rightarrow> f64 \<Rightarrow> bool" where "f_ge a b \<equiv> f_le b a"

text \<open>\<open>math.floor\<close>: exact on doubles, the sign of a zero is kept.\<close>

fun f_floor :: "f64 \<Rightarrow> f64" where
  "f_floor (Fin s m) = (if s then Fin True (of_int \<lceil>m\<rceil>) else Fin False (of_int \<lfloor>m\<rfloor>))"
| "f_floor x = x"

text \<open>\<open>math.min\<close> of Lua: the second argument only when it is strictly less.\<close>

definition f_min :: "f64 \<Rightarrow> f64 \<Rightarrow> f64" where
  "f_min a b = (if f_lt b a then b else a)"

text \<open>A double: a finite value is a rounding fixed point below \<open>2 ^ 1024\<close>.\<close>

fun f_wf :: "f64 \<Rightarrow> bool" where
  "f_wf (Fin s m) = (0 \<le> m \<and> rnd m = m \<and> m < f_limit)"
| "f_wf _ = True"

subsection \<open>Printing\<close>

text \<open>
  \<open>fmt.Sprintf("%.2f", x)\<close> and \<open>"%.0f"\<close>: the decimal expansion of the exact value, rounded half
  to even at the last printed digit.
\<close>

fun fmt_2f :: "f64 \<Rightarrow> string" where
  "fmt_2f NaN = ''NaN''"
| "fmt_2f (Inf s) = (if s then ''-Inf'' else ''+Inf'')"
| "fmt_2f (Fin s m) =
     (let n = nat (rne (m * 100)) in
      (if s then ''-'' else []) @ nat_str (n div 100) @ ''.'' @
      [digit_char (n div 10 mod 10), digit_char (n mod 10)])"

fun fmt_0f :: "f64 \<Rightarrow> string" where
  "fmt_0f NaN = ''NaN''"
| "fmt_0f (Inf s) = (if s then ''-Inf'' else ''+Inf'')"
| "fmt_0f (Fin s m) = (if s then ''-'' else []) @ nat_str (nat (rne m))"

subsection \<open>Rounding: error bounds, monotonicity, fixed points\<close>

lemma rne_bounds: "\<bar>of_int (rne y) - y\<bar> \<le> 1 / 2"
proof -
  have "of_int \<lfloor>y\<rfloor> \<le> y" "y < of_int \<lfloor>y\<rfloor> + 1" by linarith+
  then show ?thesis by (auto simp: rne_def Let_def)
qed

lemma rne_of_int [simp]: "rne (of_int n) = n"
  by (simp add: rne_def)

lemma rne_le_of_int: "y \<le> of_int n \<Longrightarrow> rne y \<le> n"
proof -
  assume a: "y \<le> of_int n"
  show "rne y \<le> n"
  proof (cases "y = of_int n")
    case False
    with a have "\<lfloor>y\<rfloor> < n" by (simp add: floor_less_iff)
    then show ?thesis by (auto simp: rne_def Let_def)
  qed simp
qed

lemma rne_ge_of_int: "of_int n \<le> y \<Longrightarrow> n \<le> rne y"
proof -
  assume "of_int n \<le> y"
  then have "n \<le> \<lfloor>y\<rfloor>" by (simp add: le_floor_iff)
  then show ?thesis by (auto simp: rne_def Let_def)
qed

lemma rne_mono: "x \<le> y \<Longrightarrow> rne x \<le> rne y"
proof -
  assume le: "x \<le> y"
  show ?thesis
  proof (cases "\<lfloor>x\<rfloor> = \<lfloor>y\<rfloor>")
    case True
    with le show ?thesis by (auto simp: rne_def Let_def)
  next
    case False
    with le have "\<lfloor>x\<rfloor> + 1 \<le> \<lfloor>y\<rfloor>" using floor_mono [of x y] by linarith
    moreover have "rne x \<le> \<lfloor>x\<rfloor> + 1" by (auto simp: rne_def Let_def)
    moreover have "\<lfloor>y\<rfloor> \<le> rne y" by (auto simp: rne_def Let_def)
    ultimately show ?thesis by linarith
  qed
qed

lemma two_powi_pos [simp]: "0 < (2::rat) powi k"
  by simp

lemma two_powi_add: "(2::rat) powi (a + b) = 2 powi a * 2 powi b"
  by (simp add: power_int_add)

lemma two_powi_mono: "a \<le> b \<Longrightarrow> (2::rat) powi a \<le> 2 powi b"
  by (simp add: power_int_increasing)

lemma two_powi_strict: "a < b \<Longrightarrow> (2::rat) powi a < 2 powi b"
  by (simp add: power_int_strict_increasing)

lemma nat_bits_rat:
  assumes "0 < p" "2 ^ (a - 1) \<le> nat p" "nat p < 2 ^ a" "0 < a"
  shows "2 powi (int a - 1) \<le> (of_int p :: rat)" and "(of_int p :: rat) < 2 powi (int a)"
proof -
  have c: "(of_int p :: rat) = of_nat (nat p)" using assms(1) by simp
  have "(of_nat (2 ^ (a - 1)) :: rat) \<le> of_nat (nat p)" using assms(2) by (simp only: of_nat_le_iff)
  moreover have "(2::rat) powi (int a - 1) = 2 ^ (a - 1)"
    using assms(4) by (simp add: power_int_def nat_diff_distrib)
  ultimately show "2 powi (int a - 1) \<le> (of_int p :: rat)" by (simp add: c)
  have "(of_nat (nat p) :: rat) < of_nat (2 ^ a)" using assms(3) by (simp only: of_nat_less_iff)
  then show "(of_int p :: rat) < 2 powi (int a)" by (simp add: c)
qed

lemma two_powi_diff_int: "b \<le> a \<Longrightarrow> (2::rat) powi a / 2 powi b = of_int (2 ^ nat (a - b))"
proof -
  assume "b \<le> a"
  then have "(2::rat) powi a = 2 powi (a - b) * 2 powi b"
    by (metis diff_add_cancel two_powi_add)
  then show ?thesis using \<open>b \<le> a\<close> by (simp add: power_int_def)
qed

lemma ilog2_bounds:
  assumes "0 < x"
  shows "2 powi (ilog2 x) \<le> x" and "x < 2 powi (ilog2 x + 1)"
proof -
  obtain p q where pq: "quotient_of x = (p, q)" by (cases "quotient_of x")
  then have q: "0 < q" and x: "x = of_int p / of_int q"
    using quotient_of_denom_pos quotient_of_div by blast+
  with assms have p: "0 < p" by (simp add: zero_less_divide_iff)
  define a where "a = floorlog 2 (nat p)"
  define b where "b = floorlog 2 (nat q)"
  have a1: "2 ^ (a - 1) \<le> nat p" and a2: "nat p < 2 ^ a"
    using p floorlog_bounds [of "nat p" 2] by (auto simp: a_def)
  have b1: "2 ^ (b - 1) \<le> nat q" and b2: "nat q < 2 ^ b"
    using q floorlog_bounds [of "nat q" 2] by (auto simp: b_def)
  have ab: "0 < a" "0 < b" using p q by (auto simp: a_def b_def floorlog_def)
  note pr = nat_bits_rat [OF p a1 a2 ab(1)] and qr = nat_bits_rat [OF q b1 b2 ab(2)]
  have q0: "(0::rat) < of_int q" using q by simp
  define k where "k = int a - int b"
  have lo: "2 powi (k - 1) < x"
  proof -
    have "2 powi (k - 1) * of_int q < 2 powi (k - 1) * (2::rat) powi (int b)"
      using qr(2) by simp
    also have "\<dots> = 2 powi (int a - 1)"
      unfolding two_powi_add [symmetric] by (simp add: k_def)
    also have "\<dots> \<le> of_int p" by (rule pr(1))
    finally show ?thesis using q0 by (simp add: x pos_less_divide_eq)
  qed
  have hi: "x < 2 powi (k + 1)"
  proof -
    have "(of_int p :: rat) < 2 powi (int a)" by (rule pr(2))
    also have "\<dots> = 2 powi (k + 1) * (2::rat) powi (int b - 1)"
      unfolding two_powi_add [symmetric] by (simp add: k_def)
    also have "\<dots> \<le> 2 powi (k + 1) * of_int q"
      using qr(1) by simp
    finally show ?thesis using q0 by (simp add: x pos_divide_less_eq)
  qed
  have e: "ilog2 x = (if 2 powi k \<le> x then k else k - 1)"
    by (simp add: ilog2_def pq k_def a_def b_def)
  show "2 powi (ilog2 x) \<le> x" using lo by (auto simp: e)
  show "x < 2 powi (ilog2 x + 1)" using hi by (auto simp: e not_le)
qed

lemma ilog2_unique: "2 powi e \<le> x \<Longrightarrow> x < 2 powi (e + 1) \<Longrightarrow> ilog2 x = e"
proof -
  assume a: "2 powi e \<le> x" and b: "x < 2 powi (e + 1)"
  have x: "0 < x" using a two_powi_pos [of e] by linarith
  note i = ilog2_bounds [OF x]
  have "\<not> ilog2 x < e"
    using two_powi_mono [of "ilog2 x + 1" e] i(2) a by linarith
  moreover have "\<not> e < ilog2 x"
    using two_powi_mono [of "e + 1" "ilog2 x"] i(1) b by linarith
  ultimately show ?thesis by simp
qed

lemma ilog2_mono: "0 < x \<Longrightarrow> x \<le> y \<Longrightarrow> ilog2 x \<le> ilog2 y"
proof (rule ccontr)
  assume x: "0 < x" and le: "x \<le> y" and "\<not> ilog2 x \<le> ilog2 y"
  then have "ilog2 y + 1 \<le> ilog2 x" by simp
  then have "(2::rat) powi (ilog2 y + 1) \<le> 2 powi (ilog2 x)" by (rule two_powi_mono)
  with ilog2_bounds [of x] ilog2_bounds [of y] x le show False by auto
qed

lemma ulp_pos [simp]: "0 < ulp x"
  by (simp add: ulp_def)

lemma ulp_nonzero [simp]: "ulp x \<noteq> 0"
  using ulp_pos [of x] by (metis less_irrefl)

lemma ulp_nonneg [simp]: "0 \<le> ulp x"
  using ulp_pos [of x] by (rule less_imp_le)

lemma rnd_0 [simp]: "rnd 0 = 0"
  by (simp add: rnd_def)

lemma rnd_nonneg: "0 \<le> x \<Longrightarrow> 0 \<le> rnd x"
  using rne_ge_of_int [of 0 "x / ulp x"] by (auto simp: rnd_def)

text \<open>The rounding error is at most half a unit in the last place.\<close>

lemma rnd_error: "\<bar>rnd x - x\<bar> \<le> ulp x / 2"
proof (cases "x = 0")
  case False
  have "rnd x - x = (of_int (rne (x / ulp x)) - x / ulp x) * ulp x"
    using False ulp_pos [of x] by (simp add: rnd_def left_diff_distrib)
  then have "\<bar>rnd x - x\<bar> = \<bar>of_int (rne (x / ulp x)) - x / ulp x\<bar> * ulp x"
    by (simp add: abs_mult)
  also have "\<dots> \<le> 1 / 2 * ulp x"
    using rne_bounds ulp_pos [of x] by (intro mult_right_mono) auto
  finally show ?thesis by simp
qed simp

lemma ulp_le: "0 < x \<Longrightarrow> 2 powi (- 1022) \<le> x \<Longrightarrow> ulp x \<le> x * 2 powi (- 52)"
proof -
  assume x: "0 < x" and n: "2 powi (- 1022) \<le> x"
  have "- 1022 \<le> ilog2 x"
  proof (rule ccontr)
    assume "\<not> - 1022 \<le> ilog2 x"
    then have "(2::rat) powi (ilog2 x + 1) \<le> 2 powi (- 1022)" by (intro two_powi_mono) simp
    with ilog2_bounds(2) [OF x] n show False by simp
  qed
  then have "ulp x = 2 powi (ilog2 x) * 2 powi (- 52)"
    unfolding two_powi_add [symmetric] by (simp add: ulp_def)
  also have "\<dots> \<le> x * 2 powi (- 52)"
    using ilog2_bounds(1) [OF x] by (intro mult_right_mono) auto
  finally show ?thesis .
qed

text \<open>A multiple of the unit of a binade inside the binade (or its upper end) is a double.\<close>

lemma rnd_fix_of_mult:
  assumes "0 \<le> m" "m = of_int k * ulp m \<or> m = 0"
  shows "rnd m = m"
proof (cases "m = 0")
  case False
  with assms have "m / ulp m = of_int k"
    using ulp_pos [of m] by (metis less_irrefl nonzero_mult_div_cancel_right)
  with False assms show ?thesis by (auto simp: rnd_def)
qed simp

lemma rnd_le_bound:
  assumes "0 < x" "x \<le> b" "b = of_int n * ulp x"
  shows "rnd x \<le> b"
proof -
  have "x / ulp x \<le> of_int n"
    using assms ulp_pos [of x] by (simp add: pos_divide_le_eq)
  then have "rne (x / ulp x) \<le> n" by (rule rne_le_of_int)
  then have "(of_int (rne (x / ulp x)) :: rat) * ulp x \<le> of_int n * ulp x"
    using ulp_pos [of x] by (intro mult_right_mono) auto
  then show ?thesis using assms by (simp add: rnd_def)
qed

lemma rnd_ge_bound:
  assumes "0 < x" "b \<le> x" "b = of_int n * ulp x"
  shows "b \<le> rnd x"
proof -
  have "of_int n \<le> x / ulp x"
    using assms ulp_pos [of x] by (simp add: pos_le_divide_eq)
  then have "n \<le> rne (x / ulp x)" by (rule rne_ge_of_int)
  then have "of_int n * ulp x \<le> (of_int (rne (x / ulp x)) :: rat) * ulp x"
    using ulp_pos [of x] by (intro mult_right_mono) auto
  then show ?thesis using assms by (simp add: rnd_def)
qed

lemma powi_mult_ulp:
  "max (ilog2 x - 52) (- 1074) \<le> e \<Longrightarrow> \<exists>n. (2::rat) powi e = of_int n * ulp x"
  using two_powi_diff_int [of "max (ilog2 x - 52) (- 1074)" e] ulp_pos [of x]
  unfolding ulp_def [symmetric]
  by (metis less_irrefl nonzero_eq_divide_eq)

text \<open>Rounding is monotone.\<close>

lemma rnd_mono:
  assumes "0 \<le> x" "x \<le> y"
  shows "rnd x \<le> rnd y"
proof (cases "x = 0")
  case True
  with assms show ?thesis by (simp add: rnd_nonneg)
next
  case False
  with assms have x: "0 < x" and y: "0 < y" by auto
  have il: "ilog2 x \<le> ilog2 y" using x assms(2) by (rule ilog2_mono)
  show ?thesis
  proof (cases "ulp x = ulp y")
    case True
    have "x / ulp x \<le> y / ulp y"
      using assms True ulp_pos [of y] by (simp add: divide_right_mono)
    then have "rne (x / ulp x) \<le> rne (y / ulp y)" by (rule rne_mono)
    then have "(of_int (rne (x / ulp x)) :: rat) * ulp x \<le> of_int (rne (y / ulp y)) * ulp y"
      using ulp_pos [of y] unfolding True by (intro mult_right_mono) auto
    then show ?thesis using x y by (simp add: rnd_def)
  next
    case False
    then have "ilog2 x \<noteq> ilog2 y" by (auto simp: ulp_def)
    with False il have lt: "ilog2 x < ilog2 y" "- 1074 < ilog2 y - 52"
      by (auto simp: ulp_def max_def split: if_splits)
    have "x \<le> 2 powi (ilog2 y)"
      using ilog2_bounds(2) [OF x] two_powi_mono [of "ilog2 x + 1" "ilog2 y"] lt by linarith
    moreover obtain n where "(2::rat) powi (ilog2 y) = of_int n * ulp x"
      using powi_mult_ulp [of x "ilog2 y"] lt by auto
    ultimately have "rnd x \<le> 2 powi (ilog2 y)" using x by (rule_tac rnd_le_bound) auto
    moreover obtain n where "(2::rat) powi (ilog2 y) = of_int n * ulp y"
      using powi_mult_ulp [of y "ilog2 y"] lt by auto
    then have "2 powi (ilog2 y) \<le> rnd y"
      using ilog2_bounds(1) [OF y] y by (rule_tac rnd_ge_bound) auto
    ultimately show ?thesis by linarith
  qed
qed


text \<open>
  The doubles: a multiple of \<open>2 powi g\<close> that fits 53 bits is kept by the rounding.
\<close>

lemma rnd_fixI:
  assumes m: "m = of_int k * 2 powi g" and g: "- 1074 \<le> g" and b: "m \<le> 2 powi (g + 53)"
    and nn: "0 \<le> m"
  shows "rnd m = m"
proof (cases "m = 0 \<or> m = 2 powi (g + 53)")
  case True
  then show ?thesis
  proof
    assume e: "m = 2 powi (g + 53)"
    then have il: "ilog2 m = g + 53" by (intro ilog2_unique) (auto simp: two_powi_strict)
    from g obtain n where "(2::rat) powi (g + 53) = of_int n * ulp m"
      using powi_mult_ulp [of m "g + 53"] il by auto
    with e have "m = of_int n * ulp m" by simp
    with nn show ?thesis by (blast intro: rnd_fix_of_mult)
  qed simp
next
  case False
  with nn b have pos: "0 < m" and lt: "m < 2 powi (g + 53)" by auto
  have "ilog2 m < g + 53"
  proof (rule ccontr)
    assume "\<not> ilog2 m < g + 53"
    then have "(2::rat) powi (g + 53) \<le> 2 powi (ilog2 m)" by (intro two_powi_mono) simp
    with ilog2_bounds(1) [OF pos] lt show False by linarith
  qed
  then have "max (ilog2 m - 52) (- 1074) \<le> g" using g by simp
  then obtain n where "(2::rat) powi g = of_int n * ulp m" using powi_mult_ulp by blast
  then have "m = of_int (k * n) * ulp m" using m by (simp add: mult.assoc)
  then show ?thesis using nn by (blast intro: rnd_fix_of_mult)
qed

lemma rnd_of_int [simp]:
  "0 \<le> n \<Longrightarrow> n \<le> 2 ^ 53 \<Longrightarrow> rnd (of_int n) = of_int n"
proof (rule rnd_fixI [where k = n and g = 0])
  assume "n \<le> 2 ^ 53"
  then have "(of_int n :: rat) \<le> of_int (2 ^ 53)" by (simp only: of_int_le_iff)
  then show "of_int n \<le> (2::rat) powi (0 + 53)" by simp
qed auto

lemma rnd_rnd [simp]:
  assumes "0 \<le> x"
  shows "rnd (rnd x) = rnd x"
proof (cases "x = 0")
  case False
  with assms have x: "0 < x" by simp
  define g where "g = max (ilog2 x - 52) (- 1074)"
  have u: "ulp x = 2 powi g" by (simp add: ulp_def g_def)
  have "x \<le> 2 powi (g + 53)"
  proof -
    have "ilog2 x + 1 \<le> g + 53" by (simp add: g_def)
    then have "(2::rat) powi (ilog2 x + 1) \<le> 2 powi (g + 53)" by (rule two_powi_mono)
    with ilog2_bounds(2) [OF x] show ?thesis by linarith
  qed
  moreover obtain n where "(2::rat) powi (g + 53) = of_int n * ulp x"
    using powi_mult_ulp [of x "g + 53"] by (auto simp: g_def)
  ultimately have b: "rnd x \<le> 2 powi (g + 53)" using x by (rule_tac rnd_le_bound)
  have r: "rnd x = of_int (rne (x / ulp x)) * 2 powi g" using x by (simp add: rnd_def u)
  show ?thesis
    using rnd_fixI [OF r _ b rnd_nonneg [OF assms]] by (simp add: g_def)
qed simp

text \<open>Two-sided relative error of a normal result.\<close>

lemma min_normal_pos [simp]: "0 < min_normal" "0 \<le> min_normal" "min_normal \<le> 1"
  by (simp_all add: min_normal_def two_powi_mono [of "- 1022" 0, simplified])

lemma unit_roundoff_bounds [simp]: "0 < unit_roundoff" "0 \<le> unit_roundoff" "unit_roundoff < 1"
  "unit_roundoff \<le> 1"
  by (simp_all add: unit_roundoff_def)

lemma rnd_rel_error:
  assumes "min_normal \<le> x"
  shows "\<bar>rnd x - x\<bar> \<le> x * unit_roundoff"
proof -
  have x: "0 < x" using assms min_normal_pos(1) by linarith
  have "\<bar>rnd x - x\<bar> \<le> ulp x / 2" by (rule rnd_error)
  also have "\<dots> \<le> x * 2 powi (- 52) / 2" using ulp_le [OF x] assms by (simp add: min_normal_def)
  also have "\<dots> = x * unit_roundoff"
    using two_powi_add [of "- 53" 1] by (simp add: unit_roundoff_def)
  finally show ?thesis .
qed

lemma rnd_rel_upper: "min_normal \<le> x \<Longrightarrow> rnd x \<le> x * (1 + unit_roundoff)"
  using rnd_rel_error [of x] by (simp add: algebra_simps)

lemma rnd_rel_lower: "min_normal \<le> x \<Longrightarrow> x * (1 - unit_roundoff) \<le> rnd x"
  using rnd_rel_error [of x] by (simp add: algebra_simps)

text \<open>What a comparison of a rounded result with a bound says of the exact result.\<close>

lemma rnd_le_exact:
  assumes "0 \<le> m" "rnd m \<le> M" "min_normal \<le> M"
  shows "m * (1 - unit_roundoff) \<le> M"
proof (cases "min_normal \<le> m")
  case True
  then have "m - rnd m \<le> m * unit_roundoff" using rnd_rel_error [of m] by linarith
  with assms(2) show ?thesis by (simp add: right_diff_distrib)
next
  case False
  have "m * (1 - unit_roundoff) \<le> m * 1"
    using assms(1) by (intro mult_left_mono) auto
  with False assms(3) show ?thesis by simp
qed

lemma rnd_ge_of_fix: "rnd b = b \<Longrightarrow> 0 \<le> b \<Longrightarrow> b \<le> x \<Longrightarrow> b \<le> rnd x"
  using rnd_mono [of b x] by simp

lemma rnd_le_of_fix: "rnd b = b \<Longrightarrow> 0 \<le> x \<Longrightarrow> x \<le> b \<Longrightarrow> rnd x \<le> b"
  using rnd_mono [of x b] by simp

subsection \<open>Well-formedness of the operations\<close>

lemma wf_mk_f64: "0 \<le> m \<Longrightarrow> f_wf (mk_f64 s m)"
  by (auto simp: mk_f64_def Let_def rnd_nonneg)

lemma wf_f_of_rat [simp]: "f_wf (f_of_rat x)"
  by (simp add: f_of_rat_def wf_mk_f64)

lemma wf_f_of_int [simp]: "f_wf (f_of_int n)"
  by (simp add: f_of_int_def)

lemma wf_f_neg [simp]: "f_wf (f_neg a) = f_wf a"
  by (cases a) auto

lemma wf_f_add [simp]: "f_wf a \<Longrightarrow> f_wf b \<Longrightarrow> f_wf (f_add a b)"
  by (cases a; cases b) (auto simp: Let_def)

lemma wf_f_mul [simp]: "f_wf a \<Longrightarrow> f_wf b \<Longrightarrow> f_wf (f_mul a b)"
  by (cases a; cases b) (auto simp: wf_mk_f64)

lemma wf_f_div [simp]: "f_wf a \<Longrightarrow> f_wf b \<Longrightarrow> f_wf (f_div a b)"
  by (cases a; cases b) (auto simp: wf_mk_f64)

subsection \<open>Small integers are exact\<close>

lemma f_of_int_exact:
  assumes "\<bar>n\<bar> \<le> 2 ^ 53"
  shows "f_of_int n = Fin (n < 0) (of_int \<bar>n\<bar>)"
proof -
  have r: "rnd (of_int \<bar>n\<bar>) = of_int \<bar>n\<bar>" using assms by (intro rnd_of_int) auto
  have "(of_int \<bar>n\<bar> :: rat) \<le> of_int (2 ^ 53)" using assms by (simp only: of_int_le_iff)
  also have "\<dots> < f_limit" by (simp add: f_limit_def)
  finally have "\<not> f_limit \<le> (of_int \<bar>n\<bar> :: rat)" by simp
  with r show ?thesis
    by (simp add: f_of_int_def f_of_rat_def mk_f64_def Let_def)
qed

subsection \<open>Comparisons\<close>

lemma f_lt_irrefl [simp]: "\<not> f_lt a a"
  by (cases a) auto

lemma f_lt_NaN [simp]: "\<not> f_lt a NaN"
  by (cases a) auto

lemma f_le_NaN [simp]: "\<not> f_le a NaN"
  by (cases a) auto

lemma f_lt_trans: "f_lt a b \<Longrightarrow> f_lt b c \<Longrightarrow> f_lt a c"
  by (cases a; cases b; cases c) (auto split: if_splits)

lemma f_not_lt_iff_le: "a \<noteq> NaN \<Longrightarrow> b \<noteq> NaN \<Longrightarrow> \<not> f_lt a b \<longleftrightarrow> f_le b a"
  by (cases a; cases b) auto


text \<open>The price arithmetic of the services: non-negative differences and guarded comparisons.\<close>

lemma f_abs_sub:
  assumes "f_wf (Fin False p)" "f_wf (Fin False v)"
  shows "f_abs (f_sub (Fin False p) (Fin False v)) = Fin False (rnd \<bar>p - v\<bar>)"
proof -
  have m: "rnd (max p v) = max p v" "max p v < f_limit" using assms by (auto simp: max_def)
  have "\<bar>p - v\<bar> \<le> max p v" using assms by auto
  then have "rnd \<bar>p - v\<bar> \<le> rnd (max p v)" by (intro rnd_mono) auto
  then have "rnd \<bar>p - v\<bar> < f_limit" unfolding m(1) using m(2) by (rule le_less_trans)
  then show ?thesis
    by (auto simp: f_sub_def f_of_rat_def mk_f64_def Let_def)
qed

lemma f_gt_mk:
  "M < f_limit \<Longrightarrow> f_gt (mk_f64 False m) (Fin False M) \<longleftrightarrow> M < rnd m"
  by (auto simp: mk_f64_def Let_def)

lemma mk_f64_int:
  "0 \<le> n \<Longrightarrow> n \<le> 2 ^ 53 \<Longrightarrow> mk_f64 s (of_int n) = Fin s (of_int n)"
  using f_of_int_exact [of n] by (cases s) (auto simp: f_of_int_def f_of_rat_def mk_f64_def Let_def split: if_splits)

lemma f_wf_int: "0 \<le> n \<Longrightarrow> n \<le> 2 ^ 53 \<Longrightarrow> f_wf (Fin s (of_int n))"
  using wf_mk_f64 [of "of_int n" s] by (simp add: mk_f64_int)

end
