(* ===== verification/Redis_Api.thy ===== *)
theory Redis_Api
  imports Go_Float
begin

text \<open>
  The boundary to Redis.  Redis and its Go client are not part of the repository, so the
  model takes them as one parameter: a function from a command and the world to a reply and
  the next world.  The commands are the ones the sources send, with the arguments they send;
  nothing is assumed about the replies except where a property names a hypothesis.
\<close>

datatype redis_cmd =
    GET string
  | SETEX string string duration
  | SETNX string string duration
  | EXISTS string
  | INCR string
  | EXPIRE string duration
  | PEXPIRE string int
  | TTL string
  | DEL string
  | HMGET_BUCKET string
  | HMSET_BUCKET string f64 f64
  | SISMEMBER string string
  | SADD string string
  | SREM string string
  | SMEMBERS string
  | ZREMRANGEBYSCORE string string string
  | ZCARD string
  | ZADD string f64 string

datatype redis_reply =
    RErr string
  | RNil
  | RStatus
  | RInt int
  | RStr string
  | RStrs "string list"
  | RBucket "f64 option" "f64 option"

type_synonym 'w redis = "redis_cmd \<Rightarrow> 'w \<Rightarrow> redis_reply \<times> 'w"

text \<open>
  How the Go client hands a reply to the caller: \<open>Result()\<close> of a string command is the string,
  the sentinel \<open>redis.Nil\<close> or another error; \<open>Result()\<close> of an integer command is the integer
  or an error.
\<close>

datatype 'a redis_result = ROk 'a | RedisNil | RFail

fun string_result :: "redis_reply \<Rightarrow> string redis_result" where
  "string_result (RStr s) = ROk s"
| "string_result RNil = RedisNil"
| "string_result _ = RFail"

fun int_result :: "redis_reply \<Rightarrow> int redis_result" where
  "int_result (RInt n) = ROk n"
| "int_result _ = RFail"

fun reply_ok :: "redis_reply \<Rightarrow> bool" where
  "reply_ok (RErr _) = False"
| "reply_ok _ = True"

text \<open>
  An in-memory store with expiry, used where a property needs one concrete Redis: the world is
  the clock and the store, a key is gone once the clock reaches its expiry.  It is not part of
  the model of the program.
\<close>

record mem_world =
  mw_now :: instant
  mw_store :: "string \<Rightarrow> (string \<times> instant) option"

definition mem_live :: "mem_world \<Rightarrow> string \<Rightarrow> string option" where
  "mem_live w k = (case mw_store w k of
     Some (v, t) \<Rightarrow> if mw_now w < t then Some v else None | None \<Rightarrow> None)"

fun mem_redis :: "mem_world redis" where
  "mem_redis (GET k) w = (case mem_live w k of Some v \<Rightarrow> RStr v | None \<Rightarrow> RNil, w)"
| "mem_redis (EXISTS k) w = (RInt (case mem_live w k of Some v \<Rightarrow> 1 | None \<Rightarrow> 0), w)"
| "mem_redis (SETEX k v d) w = (RStatus, w\<lparr>mw_store := (mw_store w)(k \<mapsto> (v, mw_now w + d))\<rparr>)"
| "mem_redis (SETNX k v d) w = (case mem_live w k of
     Some _ \<Rightarrow> (RInt 0, w)
   | None \<Rightarrow> (RInt 1, w\<lparr>mw_store := (mw_store w)(k \<mapsto> (v, mw_now w + d))\<rparr>))"
| "mem_redis (DEL k) w = (RInt (case mem_live w k of Some v \<Rightarrow> 1 | None \<Rightarrow> 0),
     w\<lparr>mw_store := (mw_store w)(k := None)\<rparr>)"
| "mem_redis _ w = (RErr ''unsupported'', w)"

end
