(* ===== verification/Orders.thy ===== *)
theory Orders
  imports Redis_Api
begin

text \<open>
  The domain types of the order management service
  (\<open>internal/repository/order_repo.go\<close>): sides, order types, the order life cycle and the
  order itself.  Go writes the enumerations as named strings; the table's CHECK constraints and
  the conversions at the gRPC boundary admit only the listed values, so they are datatypes here.
  A \<open>*T\<close> field is an option.
\<close>

datatype order_side = OrderSideBuy | OrderSideSell

datatype order_type = OrderTypeLimit | OrderTypeMarket

datatype order_status =
    OrderStatusPending | OrderStatusSent | OrderStatusFilled
  | OrderStatusRejected | OrderStatusCancelled

fun side_str :: "order_side \<Rightarrow> string" where
  "side_str OrderSideBuy = ''BUY''"
| "side_str OrderSideSell = ''SELL''"

fun type_str :: "order_type \<Rightarrow> string" where
  "type_str OrderTypeLimit = ''LIMIT''"
| "type_str OrderTypeMarket = ''MARKET''"

fun status_str :: "order_status \<Rightarrow> string" where
  "status_str OrderStatusPending = ''PENDING''"
| "status_str OrderStatusSent = ''SENT''"
| "status_str OrderStatusFilled = ''FILLED''"
| "status_str OrderStatusRejected = ''REJECTED''"
| "status_str OrderStatusCancelled = ''CANCELLED''"

lemma side_str_inj [simp]: "side_str a = side_str b \<longleftrightarrow> a = b"
  by (cases a; cases b) auto

lemma type_str_inj [simp]: "type_str a = type_str b \<longleftrightarrow> a = b"
  by (cases a; cases b) auto

lemma status_str_inj [simp]: "status_str a = status_str b \<longleftrightarrow> a = b"
  by (cases a; cases b) auto

record order =
  o_id :: string
  o_user :: string
  o_strategy :: "string option"
  o_symbol :: string
  o_side :: order_side
  o_type :: order_type
  o_price :: "f64 option"
  o_quantity :: int
  o_status :: order_status
  o_broker_id :: "string option"
  o_filled_price :: "f64 option"
  o_filled_quantity :: "int option"
  o_reject_reason :: "string option"
  o_created_at :: instant
  o_updated_at :: instant

text \<open>An order that is filled, rejected or cancelled has left the market.\<close>

fun terminal :: "order_status \<Rightarrow> bool" where
  "terminal OrderStatusFilled = True"
| "terminal OrderStatusRejected = True"
| "terminal OrderStatusCancelled = True"
| "terminal _ = False"

end
