(* ===== verification/Risk_Rules.thy ===== *)
theory Risk_Rules
  imports Orders
begin

text \<open>
  The pre-trade risk rules of \<open>order-management-service/internal/risk/rules.go\<close>.  A Go value of
  the interface \<open>RiskRule\<close> is a record of its three methods; \<open>Validate\<close> threads the world
  because two of the rules write to Redis.  What the rules call outside the repository is the
  record \<open>risk_env\<close>: the Redis client, \<open>strconv.ParseFloat\<close> (the value and whether it returned an
  error), today's date as the rule formats it, and \<open>hex(sha256(_))\<close>.
\<close>

record 'w risk_env =
  env_redis :: "'w redis"
  env_parse_float :: "string \<Rightarrow> f64 \<times> bool"
  env_today :: "'w \<Rightarrow> string"
  env_sha256_hex :: "string \<Rightarrow> string"

datatype risk_err =
    PriceRequired
  | OrderValueExceeded f64 f64
  | MarketPriceFailed
  | MarketPriceInvalid
  | PriceDeviationExceeded f64 f64 f64 f64
  | DailyLossExceeded f64 f64
  | DuplicateCheckFailed
  | DuplicateDetected int
  | SymbolNotAllowed string
  | CustomRuleError string

record 'w risk_rule =
  rr_name :: string
  rr_enabled :: bool
  rr_validate :: "order \<Rightarrow> 'w \<Rightarrow> risk_err option \<times> 'w"

subsection \<open>MaxOrderValueRule\<close>

definition max_order_value_validate :: "f64 \<Rightarrow> order \<Rightarrow> risk_err option" where
  "max_order_value_validate maxValue ord =
     (if o_type ord = OrderTypeMarket then None
      else case o_price ord of
        None \<Rightarrow> Some PriceRequired
      | Some p \<Rightarrow>
          let orderValue = f_mul p (f_of_int (o_quantity ord)) in
          if f_gt orderValue maxValue then Some (OrderValueExceeded orderValue maxValue)
          else None)"

definition NewMaxOrderValueRule :: "f64 \<Rightarrow> bool \<Rightarrow> 'w risk_rule" where
  "NewMaxOrderValueRule maxValue en =
     \<lparr>rr_name = ''MaxOrderValue'', rr_enabled = en,
      rr_validate = (\<lambda>ord w. (max_order_value_validate maxValue ord, w))\<rparr>"

subsection \<open>PriceDeviationRule\<close>

definition market_price_key :: "order \<Rightarrow> string" where
  "market_price_key ord = ''market_price:'' @ o_symbol ord"

definition price_deviation_validate ::
  "'w risk_env \<Rightarrow> f64 \<Rightarrow> order \<Rightarrow> 'w \<Rightarrow> risk_err option \<times> 'w" where
  "price_deviation_validate env maxRatio ord w =
     (if o_type ord = OrderTypeMarket then (None, w)
      else case o_price ord of
        None \<Rightarrow> (Some PriceRequired, w)
      | Some p \<Rightarrow>
          let (reply, w1) = env_redis env (GET (market_price_key ord)) w in
          case string_result reply of
            RedisNil \<Rightarrow> (None, w1)
          | RFail \<Rightarrow> (Some MarketPriceFailed, w1)
          | ROk str \<Rightarrow>
              let (marketPrice, err) = env_parse_float env str in
              if err then (Some MarketPriceInvalid, w1)
              else
                let deviation = f_div (f_abs (f_sub p marketPrice)) marketPrice in
                if f_gt deviation maxRatio
                then (Some (PriceDeviationExceeded (f_mul deviation (f_of_int 100))
                        (f_mul maxRatio (f_of_int 100)) p marketPrice), w1)
                else (None, w1))"

definition NewPriceDeviationRule :: "'w risk_env \<Rightarrow> f64 \<Rightarrow> bool \<Rightarrow> 'w risk_rule" where
  "NewPriceDeviationRule env maxRatio en =
     \<lparr>rr_name = ''PriceDeviation'', rr_enabled = en,
      rr_validate = price_deviation_validate env maxRatio\<rparr>"

subsection \<open>DailyLossLimitRule\<close>

text \<open>The source computes no profit and loss yet: it returns 0 and no error.\<close>

definition calculate_daily_pnl :: "string \<Rightarrow> unit + f64" where
  "calculate_daily_pnl userID = Inr (f_of_int 0)"

definition daily_pnl_key :: "'w risk_env \<Rightarrow> order \<Rightarrow> 'w \<Rightarrow> string" where
  "daily_pnl_key env ord w = ''daily_pnl:'' @ o_user ord @ '':'' @ env_today env w"

definition daily_loss_check :: "f64 \<Rightarrow> f64 \<Rightarrow> risk_err option" where
  "daily_loss_check lossLimit todayPnL =
     (if f_lt todayPnL (f_neg lossLimit) then Some (DailyLossExceeded todayPnL lossLimit) else None)"

definition daily_loss_validate ::
  "'w risk_env \<Rightarrow> f64 \<Rightarrow> order \<Rightarrow> 'w \<Rightarrow> risk_err option \<times> 'w" where
  "daily_loss_validate env lossLimit ord w =
     (let cacheKey = daily_pnl_key env ord w;
          (reply, w1) = env_redis env (GET cacheKey) w in
      case string_result reply of
        RedisNil \<Rightarrow>
          (case calculate_daily_pnl (o_user ord) of
             Inl _ \<Rightarrow> (None, w1)
           | Inr todayPnL \<Rightarrow>
               let (_, w2) = env_redis env (SETEX cacheKey (fmt_2f todayPnL) (5 * Minute)) w1 in
               (daily_loss_check lossLimit todayPnL, w2))
      | RFail \<Rightarrow> (None, w1)
      | ROk str \<Rightarrow> (daily_loss_check lossLimit (fst (env_parse_float env str)), w1))"

definition NewDailyLossLimitRule :: "'w risk_env \<Rightarrow> f64 \<Rightarrow> bool \<Rightarrow> 'w risk_rule" where
  "NewDailyLossLimitRule env lossLimit en =
     \<lparr>rr_name = ''DailyLossLimit'', rr_enabled = en,
      rr_validate = daily_loss_validate env lossLimit\<rparr>"

subsection \<open>DuplicateOrderRule\<close>

definition fingerprint_data :: "order \<Rightarrow> string" where
  "fingerprint_data ord =
     o_user ord @ '':'' @ o_symbol ord @ '':'' @ side_str (o_side ord) @ '':'' @
     (case o_price ord of Some p \<Rightarrow> fmt_2f p | None \<Rightarrow> ''market'') @ '':'' @
     int_str (o_quantity ord)"

definition generate_fingerprint :: "'w risk_env \<Rightarrow> order \<Rightarrow> string" where
  "generate_fingerprint env ord = env_sha256_hex env (fingerprint_data ord)"

definition fingerprint_key :: "'w risk_env \<Rightarrow> order \<Rightarrow> string" where
  "fingerprint_key env ord = ''order_fingerprint:'' @ generate_fingerprint env ord"

definition duplicate_order_validate ::
  "'w risk_env \<Rightarrow> int \<Rightarrow> order \<Rightarrow> 'w \<Rightarrow> risk_err option \<times> 'w" where
  "duplicate_order_validate env duplicateWindow ord w =
     (let key = fingerprint_key env ord;
          (reply, w1) = env_redis env (EXISTS key) w in
      case int_result reply of
        ROk n \<Rightarrow>
          if 0 < n then (Some (DuplicateDetected duplicateWindow), w1)
          else
            let (_, w2) = env_redis env (SETEX key (o_id ord) (wrap64 (duplicateWindow * Second))) w1
            in (None, w2)
      | _ \<Rightarrow> (Some DuplicateCheckFailed, w1))"

definition NewDuplicateOrderRule :: "'w risk_env \<Rightarrow> int \<Rightarrow> bool \<Rightarrow> 'w risk_rule" where
  "NewDuplicateOrderRule env duplicateWindow en =
     \<lparr>rr_name = ''DuplicateOrder'', rr_enabled = en,
      rr_validate = duplicate_order_validate env duplicateWindow\<rparr>"

subsection \<open>AllowedSymbolRule\<close>

definition match_symbol :: "string \<Rightarrow> string \<Rightarrow> bool" where
  "match_symbol symbol pattern =
     (if symbol = pattern then True
      else if has_suffix pattern ''*'' then has_prefix symbol (trim_suffix pattern ''*'')
      else False)"

definition allowed_symbol_validate :: "string list \<Rightarrow> order \<Rightarrow> risk_err option" where
  "allowed_symbol_validate allowedSymbols ord =
     (if length allowedSymbols = 0 then None
      else if \<exists>a \<in> set allowedSymbols. match_symbol (o_symbol ord) a then None
      else Some (SymbolNotAllowed (o_symbol ord)))"

definition NewAllowedSymbolRule :: "string list \<Rightarrow> bool \<Rightarrow> 'w risk_rule" where
  "NewAllowedSymbolRule allowedSymbols en =
     \<lparr>rr_name = ''AllowedSymbol'', rr_enabled = en,
      rr_validate = (\<lambda>ord w. (allowed_symbol_validate allowedSymbols ord, w))\<rparr>"

subsection \<open>Properties\<close>

text \<open>
  The order value rule against the exact value of the order.  For a limit order with a finite
  price and a quantity up to \<open>2 ^ 53\<close>, an order the rule lets through is worth at most the
  configured maximum up to one unit of rounding (a factor \<open>1 - 2 powi (-53)\<close>), and every order
  whose exact value is within the maximum is let through: the float product never rejects a
  legal order.
\<close>

theorem max_order_value_exact:
  assumes "o_type ord = OrderTypeLimit" "o_price ord = Some (Fin False p)"
    and "f_wf (Fin False p)" "f_wf (Fin False M)" "min_normal \<le> M"
    and "0 \<le> o_quantity ord" "o_quantity ord \<le> 2 ^ 53"
  shows "(max_order_value_validate (Fin False M) ord = None \<longrightarrow>
            p * of_int (o_quantity ord) * (1 - unit_roundoff) \<le> M) \<and>
         (p * of_int (o_quantity ord) \<le> M \<longrightarrow>
            max_order_value_validate (Fin False M) ord = None)"
proof -
  define m where "m = p * of_int (o_quantity ord)"
  have q: "f_of_int (o_quantity ord) = Fin False (of_int (o_quantity ord))"
    using assms by (subst f_of_int_exact) auto
  have m0: "0 \<le> m" using assms by (auto simp: m_def)
  have "max_order_value_validate (Fin False M) ord = None \<longleftrightarrow> rnd m \<le> M"
    using assms(1,2,4) f_gt_mk [of M m]
    by (simp add: max_order_value_validate_def q Let_def m_def not_less del: f_lt.simps)
  moreover have "m \<le> M \<Longrightarrow> rnd m \<le> M"
    using assms m0 by (intro rnd_le_of_fix) auto
  ultimately show ?thesis
    using rnd_le_exact [OF m0 _ assms(5)] unfolding m_def [symmetric] by blast
qed

text \<open>
  The price deviation rule against exact arithmetic.  When the market price in Redis parses to a
  finite price \<open>v\<close> of at least 1, an order the rule accepts satisfies
  \<open>|p - v| / v \<le> maxRatio\<close> up to the two roundings of the float expression.
\<close>

theorem price_deviation_bound:
  assumes "o_type ord = OrderTypeLimit" "o_price ord = Some (Fin False p)"
    and "fst (env_redis env (GET (market_price_key ord)) w) = RStr s"
    and "env_parse_float env s = (Fin False v, False)"
    and "f_wf (Fin False p)" "f_wf (Fin False v)" "1 \<le> v"
    and "f_wf (Fin False R)" "min_normal \<le> R"
    and "fst (price_deviation_validate env (Fin False R) ord w) = None"
  shows "\<bar>p - v\<bar> * (1 - unit_roundoff) ^ 2 \<le> R * v"
proof -
  define d where "d = rnd \<bar>p - v\<bar>"
  have d0: "0 \<le> d" by (simp add: d_def rnd_nonneg)
  have "\<not> f_gt (mk_f64 False (d / v)) (Fin False R)"
    using assms by (auto simp: price_deviation_validate_def f_abs_sub [OF assms(5,6)] d_def Let_def
        split: prod.splits if_splits)
  then have "rnd (d / v) \<le> R" using assms(8) by (simp add: f_gt_mk not_less)
  then have "d / v * (1 - unit_roundoff) \<le> R"
    using d0 assms by (intro rnd_le_exact) auto
  then have dv: "d * (1 - unit_roundoff) \<le> R * v"
    using assms(7) by (simp add: pos_divide_le_eq)
  have "\<bar>p - v\<bar> * (1 - unit_roundoff) \<le> max d (min_normal)"
    by (intro rnd_le_exact) (auto simp: d_def)
  then have "\<bar>p - v\<bar> * (1 - unit_roundoff) * (1 - unit_roundoff) \<le> max d (min_normal) * (1 - unit_roundoff)"
    by (intro mult_right_mono) auto
  also have "\<dots> \<le> R * v"
  proof (cases "d \<le> min_normal")
    case True
    have "min_normal * (1 - unit_roundoff) \<le> min_normal * 1"
      by (intro mult_left_mono) auto
    also have "\<dots> \<le> R * v" using assms(7-9) mult_mono [of "min_normal" R 1 v] by simp
    finally show ?thesis using True by (simp add: max_def)
  qed (use dv in \<open>simp add: max_def\<close>)
  finally show ?thesis by (simp add: power2_eq_square mult.assoc)
qed


text \<open>
  The wildcard match of the symbol allow-list: a symbol matches a pattern exactly when they are
  equal or the pattern is a prefix of the symbol followed by one star.
\<close>

theorem match_symbol_spec:
  "match_symbol symbol pattern \<longleftrightarrow>
     symbol = pattern \<or> (\<exists>pre rest. pattern = pre @ ''*'' \<and> symbol = pre @ rest)"
  by (auto simp: match_symbol_def has_suffix_iff has_prefix_iff)

text \<open>
  The price deviation rule is switched off by a market price that is not a number or is
  infinite: \<open>strconv.ParseFloat\<close> accepts the texts \<open>NaN\<close> and \<open>Inf\<close>, every comparison with the
  resulting NaN deviation is false, and a limit order at any finite price passes.
\<close>

theorem price_deviation_nan_passes:
  assumes "o_price ord = Some (Fin s p)"
    and "fst (env_redis env (GET (market_price_key ord)) w) = RStr str"
    and "env_parse_float env str = (v, False)" "v = NaN \<or> v = Inf neg"
  shows "fst (price_deviation_validate env maxRatio ord w) = None"
  using assms
  by (auto simp: price_deviation_validate_def Let_def case_prod_beta f_sub_def)

text \<open>The printed fields carry no separator.\<close>

lemma fmt_2f_no_sep: "CHR '':'' \<notin> set (fmt_2f x)"
proof (cases x)
  case (Fin s m)
  have "d < 10 \<Longrightarrow> CHR '':'' \<noteq> digit_char d" for d using digit_char_not [of d] by metis
  then show ?thesis using nat_str_no_sep by (simp add: Fin Let_def)
qed auto

lemma side_str_no_sep: "CHR '':'' \<notin> set (side_str s)"
  by (cases s) auto

lemma price_field_no_sep:
  "CHR '':'' \<notin> set (case p of Some p \<Rightarrow> fmt_2f p | None \<Rightarrow> ''market'')"
  by (cases p) (auto simp: fmt_2f_no_sep)

text \<open>
  Two orders share a fingerprint text only when they agree on user, symbol, side, quantity and
  the price as printed with two decimals (or are both market orders), as long as user and symbol
  contain no colon: the duplicate rule does not confuse different orders.
\<close>

theorem fingerprint_data_injective:
  assumes "CHR '':'' \<notin> set (o_user a)" "CHR '':'' \<notin> set (o_symbol a)"
    and "CHR '':'' \<notin> set (o_user b)" "CHR '':'' \<notin> set (o_symbol b)"
    and "fingerprint_data a = fingerprint_data b"
  shows "o_user a = o_user b \<and> o_symbol a = o_symbol b \<and> o_side a = o_side b \<and>
         map_option fmt_2f (o_price a) = map_option fmt_2f (o_price b) \<and>
         o_quantity a = o_quantity b"
proof -
  let ?p = "\<lambda>x. case o_price x of Some p \<Rightarrow> fmt_2f p | None \<Rightarrow> ''market''"
  have p: "?p a = ?p b" and rest: "o_user a = o_user b" "o_symbol a = o_symbol b"
      "side_str (o_side a) = side_str (o_side b)" "int_str (o_quantity a) = int_str (o_quantity b)"
    using assms price_field_no_sep [of "o_price a"] price_field_no_sep [of "o_price b"]
      side_str_no_sep [of "o_side a"] side_str_no_sep [of "o_side b"]
    by (simp_all add: fingerprint_data_def sep_split)
  have m: "fmt_2f x \<noteq> ''market''" for x
  proof (cases x)
    case (Fin s m)
    have "length (fmt_2f x) \<ge> 3 \<and> fmt_2f x ! (length (fmt_2f x) - 3) = CHR ''.''"
      by (simp add: Fin Let_def nth_append)
    then show ?thesis by (auto simp: numeral_eq_Suc)
  qed auto
  have "map_option fmt_2f (o_price a) = map_option fmt_2f (o_price b)"
    using p m m [symmetric] by (auto split: option.splits)
  with rest show ?thesis by (auto dest: int_str_inj)
qed

text \<open>
  What the duplicate rule relies on in Redis: \<open>dl w k\<close> is the expiry instant of key \<open>k\<close> and
  \<open>now w\<close> the server's clock; \<open>EXISTS\<close> counts a live key, \<open>SET\<close> with a positive expiration stores
  the new deadline, and neither touches the other keys.
\<close>

definition expiring_store :: "'w redis \<Rightarrow> ('w \<Rightarrow> instant) \<Rightarrow> ('w \<Rightarrow> string \<Rightarrow> instant option) \<Rightarrow> bool" where
  "expiring_store redis now dl \<longleftrightarrow>
     (\<forall>w k. fst (redis (EXISTS k) w) =
        RInt (case dl w k of Some t \<Rightarrow> if now w < t then 1 else 0 | None \<Rightarrow> 0)) \<and>
     (\<forall>w k. dl (snd (redis (EXISTS k) w)) = dl w \<and> now (snd (redis (EXISTS k) w)) = now w) \<and>
     (\<forall>w k v d. 0 < d \<longrightarrow>
        dl (snd (redis (SETEX k v d) w)) = (dl w)(k := Some (now w + d)) \<and>
        now (snd (redis (SETEX k v d) w)) = now w)"

lemma expiring_storeD:
  assumes "expiring_store redis now dl"
  shows "fst (redis (EXISTS k) w) =
      RInt (case dl w k of Some t \<Rightarrow> if now w < t then 1 else 0 | None \<Rightarrow> 0)"
    and "dl (snd (redis (EXISTS k) w)) = dl w" and "now (snd (redis (EXISTS k) w)) = now w"
    and "0 < d \<Longrightarrow> dl (snd (redis (SETEX k v d) w)) = (dl w)(k := Some (now w + d))"
    and "0 < d \<Longrightarrow> now (snd (redis (SETEX k v d) w)) = now w"
  using assms by (simp_all add: expiring_store_def)

lemma mem_redis_expiring:
  "expiring_store mem_redis mw_now (\<lambda>w k. map_option snd (mw_store w k))"
  by (auto simp: expiring_store_def mem_live_def fun_eq_iff split: option.splits)

text \<open>
  C13. The duplicate rule on a store that honours expiry: once an order was let through at time
  \<open>now w\<close>, an order with the same fingerprint text is rejected exactly while
  \<open>now w2 < now w + window\<close>, whatever else changed in the store meanwhile.
\<close>

theorem duplicate_rejected_exactly_in_window:
  assumes "expiring_store (env_redis env) now dl"
    and "0 < window" "window * Second < 2 ^ 63"
    and "duplicate_order_validate env window a w = (None, w1)"
    and "fingerprint_data b = fingerprint_data a"
    and "dl w2 (fingerprint_key env a) = dl w1 (fingerprint_key env a)"
  shows "fst (duplicate_order_validate env window b w2) =
         (if now w2 < now w + window * Second then Some (DuplicateDetected window) else None)"
proof -
  have k: "fingerprint_key env b = fingerprint_key env a"
    using assms(5) by (simp add: fingerprint_key_def generate_fingerprint_def)
  have d: "wrap64 (window * Second) = window * Second" "0 < window * Second"
    using assms(2,3) by (auto simp: wrap64_def go_simps)
  note E = expiring_storeD [OF assms(1)]
  have "dl w1 (fingerprint_key env a) = Some (now w + window * Second)"
    using assms(4) d
    by (auto simp: duplicate_order_validate_def Let_def case_prod_beta E split: if_splits)
  with assms(6) k show ?thesis
    by (auto simp: duplicate_order_validate_def Let_def case_prod_beta E)
qed


subsection \<open>Instances\<close>

text \<open>A concrete order and environment on which the properties of this theory are applied.\<close>

definition sample_order :: order where
  "sample_order = \<lparr>o_id = ''o-1'', o_user = ''u-1'', o_strategy = None, o_symbol = ''005930'',
     o_side = OrderSideBuy, o_type = OrderTypeLimit, o_price = Some (Fin False 70000),
     o_quantity = 10, o_status = OrderStatusPending, o_broker_id = None, o_filled_price = None,
     o_filled_quantity = None, o_reject_reason = None, o_created_at = 0, o_updated_at = 0\<rparr>"

definition sample_env :: "f64 \<Rightarrow> mem_world risk_env" where
  "sample_env v = \<lparr>env_redis = mem_redis, env_parse_float = (\<lambda>s. (v, False)),
     env_today = (\<lambda>w. ''2025-11-19''), env_sha256_hex = (\<lambda>s. s)\<rparr>"

definition sample_world :: mem_world where
  "sample_world = \<lparr>mw_now = 1, mw_store = (\<lambda>k.
     if k = ''market_price:005930'' then Some (''68000'', 100) else None)\<rparr>"

lemma sample_price:
  "fst (env_redis (sample_env v) (GET (market_price_key sample_order)) sample_world) = RStr ''68000''"
  by (simp add: sample_env_def market_price_key_def sample_order_def sample_world_def mem_live_def)

lemma f_wf_numeral: "numeral n \<le> (2 ^ 53 :: int) \<Longrightarrow> f_wf (Fin s (numeral n))"
  using f_wf_int [of "numeral n" s] by simp

theorem max_order_value_exact_witness:
  "(70000 :: rat) * 10 * (1 - unit_roundoff) \<le> 1000000 \<and>
   max_order_value_validate (Fin False 1000000) sample_order = None"
proof -
  have n: "min_normal \<le> 1000000" using min_normal_pos(3) by linarith
  note r = max_order_value_exact [of sample_order 70000 1000000, OF _ _ _ _ n]
  have "f_wf (Fin False 70000)" "f_wf (Fin False 1000000)" by (rule f_wf_numeral, simp)+
  with r show ?thesis by (simp add: sample_order_def del: f_wf.simps)
qed

theorem price_deviation_bound_witness:
  "\<bar>70000 - 68000 :: rat\<bar> * (1 - unit_roundoff) ^ 2 \<le> 1 * 68000"
proof (rule price_deviation_bound [where env = "sample_env (Fin False 68000)" and ord = sample_order
      and w = sample_world and s = "''68000''"])
  show wf: "f_wf (Fin False 70000)" "f_wf (Fin False 68000)"
    by (rule f_wf_numeral, simp)+
  show "f_wf (Fin False 1)" using f_wf_int [of 1 False] by simp
  have "rnd 1 = 1" using rnd_of_int [of 1] by simp
  then have r: "rnd (2000 / 68000) \<le> 1" "rnd 2000 = 2000"
    using rnd_mono [of "2000 / 68000" 1] rnd_of_int [of 2000] by simp_all
  have l: "(1::rat) < f_limit" by (simp add: f_limit_def)
  have a: "f_abs (f_sub (Fin False 70000) (Fin False 68000)) = Fin False 2000"
    using f_abs_sub [OF wf(1,2)] r(2) by simp
  show "fst (price_deviation_validate (sample_env (Fin False 68000)) (Fin False 1) sample_order
      sample_world) = None"
    using sample_price [of "Fin False 68000"] f_gt_mk [OF l, of "2000 / 68000"] r(1) a
    by (simp add: price_deviation_validate_def Let_def case_prod_beta sample_env_def sample_order_def
        del: f_lt.simps f_abs.simps)
qed (simp_all add: sample_price, simp_all add: sample_order_def sample_env_def)

theorem price_deviation_nan_passes_witness:
  "fst (price_deviation_validate (sample_env NaN) (Fin False 1) sample_order sample_world) = None"
  by (rule price_deviation_nan_passes [OF _ sample_price, where v = NaN and s = False and p = 70000])
    (simp_all add: sample_order_def sample_env_def)

theorem fingerprint_data_injective_witness:
  "o_quantity (sample_order\<lparr>o_id := ''o-2''\<rparr>) = o_quantity sample_order"
  using fingerprint_data_injective [of "sample_order\<lparr>o_id := ''o-2''\<rparr>" sample_order]
  by (simp add: sample_order_def fingerprint_data_def)

theorem duplicate_rejected_exactly_in_window_witness:
  "fst (duplicate_order_validate (sample_env NaN) 10 (sample_order\<lparr>o_id := ''o-2''\<rparr>)
       (snd (duplicate_order_validate (sample_env NaN) 10 sample_order sample_world)))
     = Some (DuplicateDetected 10)"
proof -
  let ?r = "duplicate_order_validate (sample_env NaN) 10 sample_order sample_world"
  have e: "expiring_store (env_redis (sample_env NaN)) mw_now (\<lambda>w k. map_option snd (mw_store w k))"
    using mem_redis_expiring by (simp add: sample_env_def)
  have r: "?r = (None, snd ?r)" and n: "mw_now (snd ?r) = 1"
    by (simp_all add: duplicate_order_validate_def fingerprint_key_def generate_fingerprint_def
        sample_env_def sample_world_def mem_live_def Let_def)
  have f: "fingerprint_data (sample_order\<lparr>o_id := ''o-2''\<rparr>) = fingerprint_data sample_order"
    by (simp add: fingerprint_data_def)
  from duplicate_rejected_exactly_in_window [OF e _ _ r f refl] n show ?thesis
    by (simp add: go_simps sample_world_def)
qed

end
