(* ===== verification/Risk_Engine.thy ===== *)
theory Risk_Engine
  imports Risk_Rules
begin

text \<open>
  The risk engine of \<open>order-management-service/internal/risk/engine.go\<close>: the rules it registers
  from its configuration, the validation loop over the enabled rules, and the operations that
  change the rule list.  Mutexes make each of these operations atomic; the one place where the
  code reads the rule list after it has released the lock (\<open>Validate\<close> iterates over a slice
  whose array \<open>RemoveRule\<close> shifts in place) is modelled with the array written out.
\<close>

record risk_config =
  MaxOrderValue :: f64
  PriceDeviation :: f64
  DailyLossLimit :: f64
  AllowedSymbols :: "string list"
  DuplicateWindow :: int
  EnableRiskChecks :: bool

record 'w risk_deps =
  dep_repository :: bool
  dep_redis :: "'w redis option"
  dep_env :: "'w risk_env"

record 'w engine =
  eng_rules :: "'w risk_rule list"
  eng_config :: risk_config
  eng_enabled :: bool

record risk_error =
  re_rule :: string
  re_message :: risk_err
  re_order :: order

datatype engine_error = ConfigNil | NilDereference

text \<open>
  The rules registered, in the order of registration.  A nil Redis client leaves out the rules
  that need it, a nil repository the loss limit.
\<close>

definition register_rules :: "risk_config \<Rightarrow> 'w risk_deps \<Rightarrow> 'w risk_rule list" where
  "register_rules cfg deps =
     [NewMaxOrderValueRule (MaxOrderValue cfg) True] @
     (case dep_redis deps of None \<Rightarrow> []
      | Some r \<Rightarrow> [NewPriceDeviationRule ((dep_env deps)\<lparr>env_redis := r\<rparr>) (PriceDeviation cfg) True]) @
     (case dep_redis deps of None \<Rightarrow> []
      | Some r \<Rightarrow> if dep_repository deps
          then [NewDailyLossLimitRule ((dep_env deps)\<lparr>env_redis := r\<rparr>) (DailyLossLimit cfg) True]
          else []) @
     (case dep_redis deps of None \<Rightarrow> []
      | Some r \<Rightarrow> [NewDuplicateOrderRule ((dep_env deps)\<lparr>env_redis := r\<rparr>) (DuplicateWindow cfg) True]) @
     [NewAllowedSymbolRule (AllowedSymbols cfg) True]"

definition NewEngine ::
  "risk_config option \<Rightarrow> 'w risk_deps option \<Rightarrow> engine_error + 'w engine" where
  "NewEngine config deps =
     (case config of
        None \<Rightarrow> Inl ConfigNil
      | Some cfg \<Rightarrow>
          (case deps of
             None \<Rightarrow> Inl NilDereference
           | Some d \<Rightarrow> Inr \<lparr>eng_rules = register_rules cfg d, eng_config = cfg,
               eng_enabled = EnableRiskChecks cfg\<rparr>))"

subsection \<open>Validation\<close>

fun run_rules :: "'w risk_rule list \<Rightarrow> order \<Rightarrow> 'w \<Rightarrow> risk_error option \<times> 'w" where
  "run_rules [] ord w = (None, w)"
| "run_rules (r # rs) ord w =
     (if \<not> rr_enabled r then run_rules rs ord w
      else case rr_validate r ord w of
        (Some err, w') \<Rightarrow> (Some \<lparr>re_rule = rr_name r, re_message = err, re_order = ord\<rparr>, w')
      | (None, w') \<Rightarrow> run_rules rs ord w')"

definition engine_validate :: "'w engine \<Rightarrow> order \<Rightarrow> 'w \<Rightarrow> risk_error option \<times> 'w" where
  "engine_validate eng ord w =
     (if \<not> eng_enabled eng then (None, w) else run_rules (eng_rules eng) ord w)"

subsection \<open>Rule management\<close>

definition add_rule :: "'w risk_rule \<Rightarrow> 'w engine \<Rightarrow> 'w engine" where
  "add_rule r eng = eng\<lparr>eng_rules := eng_rules eng @ [r]\<rparr>"

fun remove_first :: "string \<Rightarrow> 'w risk_rule list \<Rightarrow> 'w risk_rule list" where
  "remove_first name [] = []"
| "remove_first name (r # rs) = (if rr_name r = name then rs else r # remove_first name rs)"

definition remove_rule :: "string \<Rightarrow> 'w engine \<Rightarrow> 'w engine" where
  "remove_rule name eng = eng\<lparr>eng_rules := remove_first name (eng_rules eng)\<rparr>"

definition get_rules :: "'w engine \<Rightarrow> 'w risk_rule list" where
  "get_rules eng = eng_rules eng"

definition enable_engine :: "'w engine \<Rightarrow> 'w engine" where
  "enable_engine eng = eng\<lparr>eng_enabled := True\<rparr>"

definition disable_engine :: "'w engine \<Rightarrow> 'w engine" where
  "disable_engine eng = eng\<lparr>eng_enabled := False\<rparr>"

definition engine_is_enabled :: "'w engine \<Rightarrow> bool" where
  "engine_is_enabled eng = eng_enabled eng"

subsection \<open>The shared array\<close>

text \<open>
  \<open>append(e.rules[:i], e.rules[i+1:]...)\<close> moves the rules after position \<open>i\<close> one place to the
  left in the array the slice points to; the array keeps its length and its last used slot
  keeps its old value.  \<open>arr\<close> is the array, \<open>n\<close> the length of the slice.
\<close>

fun index_of :: "string \<Rightarrow> 'w risk_rule list \<Rightarrow> nat option" where
  "index_of name [] = None"
| "index_of name (r # rs) = (if rr_name r = name then Some 0 else map_option Suc (index_of name rs))"

definition shift_left :: "'w risk_rule list \<Rightarrow> nat \<Rightarrow> nat \<Rightarrow> 'w risk_rule list" where
  "shift_left arr n i = take i arr @ drop (Suc i) (take n arr) @ drop (n - 1) arr"

text \<open>The slice header \<open>RemoveRule\<close> leaves: the shifted array and the new length.\<close>

definition remove_in_place ::
  "string \<Rightarrow> 'w risk_rule list \<Rightarrow> nat \<Rightarrow> 'w risk_rule list \<times> nat" where
  "remove_in_place name arr n =
     (case index_of name (take n arr) of
        None \<Rightarrow> (arr, n)
      | Some i \<Rightarrow> (shift_left arr n i, n - 1))"

text \<open>
  A \<open>Validate\<close> that has loaded the slice \<open>(arr, n)\<close>, has run its first \<open>k\<close> rules, and whose
  remaining iterations read the array as another goroutine's \<open>RemoveRule name\<close> left it.
\<close>

definition validate_across_remove ::
  "'w risk_rule list \<Rightarrow> nat \<Rightarrow> nat \<Rightarrow> string \<Rightarrow> order \<Rightarrow> 'w \<Rightarrow> risk_error option \<times> 'w" where
  "validate_across_remove arr n k name ord w =
     (case run_rules (take k (take n arr)) ord w of
        (Some e, w') \<Rightarrow> (Some e, w')
      | (None, w') \<Rightarrow> run_rules (drop k (take n (fst (remove_in_place name arr n)))) ord w')"

subsection \<open>What an accepting run has checked\<close>

lemma run_rules_append:
  "run_rules (rs @ ts) ord w =
     (case run_rules rs ord w of (Some e, w') \<Rightarrow> (Some e, w') | (None, w') \<Rightarrow> run_rules ts ord w')"
  by (induction rs ord w rule: run_rules.induct) (auto split: prod.splits option.splits)

lemma run_rules_filter: "run_rules (filter rr_enabled rs) ord w = run_rules rs ord w"
  by (induction rs ord w rule: run_rules.induct) (auto split: prod.splits option.splits)

lemma accepted_in_some_world:
  "run_rules rs ord w = (None, w') \<Longrightarrow> r \<in> set rs \<Longrightarrow> rr_enabled r \<Longrightarrow>
   \<exists>v. fst (rr_validate r ord v) = None"
  by (induction rs ord w rule: run_rules.induct)
    (auto split: prod.splits option.splits if_splits, metis fst_conv)

text \<open>
  The contract of a rule that reads and writes nothing outside the order: its verdict is the
  same in every world, so an accepting run of the engine settles it once and for all.
\<close>

locale stateless_rule =
  fixes rule :: "'w risk_rule"
  assumes world_kept: "snd (rr_validate rule ord w) = w"
    and world_blind: "fst (rr_validate rule ord w) = fst (rr_validate rule ord v)"
begin

lemma accepted_everywhere:
  "run_rules rs ord w = (None, w') \<Longrightarrow> rule \<in> set rs \<Longrightarrow> rr_enabled rule \<Longrightarrow>
   fst (rr_validate rule ord v) = None"
  by (drule (2) accepted_in_some_world) (metis world_blind)

lemma moves_to_front:
  "rr_enabled rule \<Longrightarrow> fst (run_rules (rs @ [rule]) ord w) = None \<Longrightarrow>
   run_rules (rule # rs) ord w = run_rules (rs @ [rule]) ord w"
  by (auto simp: run_rules_append split: prod.splits option.splits)
    (metis fst_conv option.distinct(1) snd_conv world_blind world_kept)+

end

interpretation max_order_value_rule: stateless_rule "NewMaxOrderValueRule m en" for m en
  by unfold_locales (auto simp: NewMaxOrderValueRule_def)

interpretation allowed_symbol_rule: stateless_rule "NewAllowedSymbolRule syms en" for syms en
  by unfold_locales (auto simp: NewAllowedSymbolRule_def)

lemma remove_first_index:
  "remove_first name rs = (case index_of name rs of
     None \<Rightarrow> rs | Some i \<Rightarrow> take i rs @ drop (Suc i) rs)"
  by (induction rs) (auto split: option.splits)

lemma index_of_less: "index_of name rs = Some i \<Longrightarrow> i < length rs"
  by (induction rs arbitrary: i) (auto split: if_splits)

subsection \<open>Properties\<close>


text \<open>
  A rejection names the rule at fault.  A rejection comes from an enabled rule of the list, with
  that rule's own error; the enabled rules before it have accepted, and the rules behind it have
  not run: the final world is the one that rule left.
\<close>

theorem engine_rejection_blames_rule:
  "engine_validate eng ord w = (Some e, w') \<longleftrightarrow>
     eng_enabled eng \<and>
     (\<exists>pre r post v. eng_rules eng = pre @ r # post \<and> rr_enabled r \<and>
        run_rules pre ord w = (None, v) \<and>
        rr_validate r ord v = (Some (re_message e), w') \<and>
        re_rule e = rr_name r \<and> re_order e = ord)"
proof -
  have "run_rules rs ord w = (Some e, w') \<Longrightarrow>
      \<exists>pre r post v. rs = pre @ r # post \<and> rr_enabled r \<and> run_rules pre ord w = (None, v) \<and>
        rr_validate r ord v = (Some (re_message e), w') \<and> re_rule e = rr_name r \<and> re_order e = ord"
    for rs
  proof (induction rs ord w rule: run_rules.induct)
    case (2 r rs ord w)
    show ?case
    proof (cases "rr_enabled r \<and> fst (rr_validate r ord w) \<noteq> None")
      case True
      with 2(3) show ?thesis
        by (intro exI [of _ "[]"] exI [of _ r] exI [of _ rs] exI [of _ w])
          (auto split: prod.splits)
    next
      case False
      define v where "v = (if rr_enabled r then snd (rr_validate r ord w) else w)"
      have "run_rules (r # ts) ord w = run_rules ts ord v" for ts
        using False by (auto simp: v_def split: prod.splits)
      moreover from this have "\<exists>pre r' post u. rs = pre @ r' # post \<and> rr_enabled r' \<and>
          run_rules pre ord v = (None, u) \<and> rr_validate r' ord u = (Some (re_message e), w') \<and>
          re_rule e = rr_name r' \<and> re_order e = ord"
        using 2 False by (cases "rr_enabled r"; cases "rr_validate r ord w") (simp_all add: v_def)
      ultimately show ?thesis by (metis append_Cons)
    qed
  qed simp
  moreover have "run_rules (pre @ r # post) ord w = (Some e, w')"
    if "rr_enabled r" "run_rules pre ord w = (None, v)"
      "rr_validate r ord v = (Some (re_message e), w')" "re_rule e = rr_name r" "re_order e = ord"
    for pre r post v
    using that by (simp add: run_rules_append)
  ultimately show ?thesis
    by (auto simp: engine_validate_def)
qed

text \<open>
  The in-place removal refines the removal of the first rule of that name: read through the new
  slice header, the shifted array is the rule list without it, for every array the slice lies in.
\<close>

theorem remove_in_place_refines:
  assumes "n \<le> length arr" "remove_in_place name arr n = (arr', n')"
  shows "take n' arr' = remove_first name (take n arr) \<and> length arr' = length arr"
proof (cases "index_of name (take n arr)")
  case None
  with assms show ?thesis by (simp add: remove_in_place_def remove_first_index)
next
  case (Some i)
  then have i: "i < n" using index_of_less [OF Some] assms(1) by simp
  have a: "arr' = take i arr @ drop (Suc i) (take n arr) @ drop (n - 1) arr" and n: "n' = n - 1"
    using assms(2) Some by (auto simp: remove_in_place_def shift_left_def)
  show ?thesis using i assms(1) Some
    by (simp add: remove_first_index a n)
qed

text \<open>
  The race between validation and removal.  \<open>Validate\<close> releases the lock before it iterates, so
  a \<open>RemoveRule\<close> of a rule that has already run shifts the array under it: the rule after the
  removed one is skipped.  With three enabled rules \<open>a, b, c\<close>, when \<open>a\<close> has accepted and is
  removed, the rest of the run is \<open>c, c\<close>, and an order that \<open>b\<close> alone would reject is accepted.
\<close>

theorem remove_race_skips_rule:
  assumes "rr_name a = name" "rr_enabled a" "rr_validate a ord w = (None, v)"
  shows "validate_across_remove [a, b, c] 3 1 name ord w = run_rules [c, c] ord v"
  using assms by (simp add: validate_across_remove_def remove_in_place_def shift_left_def)

text \<open>
  A rejected order still occupies its duplicate window: the symbol rule runs after the duplicate
  rule, so an order for a symbol that is not allowed leaves the world in which its fingerprint
  has been written, and sending a corrected request with the same fields meets it.
\<close>

theorem disallowed_symbol_leaves_fingerprint:
  assumes "NewEngine (Some cfg) (Some deps) = Inr eng" "EnableRiskChecks cfg"
    and "dep_redis deps = Some r" "\<not> dep_repository deps"
    and "allowed_symbol_validate (AllowedSymbols cfg) ord = Some err"
    and "max_order_value_validate (MaxOrderValue cfg) ord = None"
    and "price_deviation_validate ((dep_env deps)\<lparr>env_redis := r\<rparr>) (PriceDeviation cfg) ord w = (None, v)"
    and "duplicate_order_validate ((dep_env deps)\<lparr>env_redis := r\<rparr>) (DuplicateWindow cfg) ord v = (None, u)"
  shows "engine_validate eng ord w =
      (Some \<lparr>re_rule = ''AllowedSymbol'', re_message = err, re_order = ord\<rparr>, u)"
  using assms
  by (auto simp: NewEngine_def engine_validate_def register_rules_def NewMaxOrderValueRule_def
      NewPriceDeviationRule_def NewDuplicateOrderRule_def NewAllowedSymbolRule_def)

subsection \<open>Concrete runs\<close>

definition sample_config :: risk_config where
  "sample_config = \<lparr>MaxOrderValue = Fin False 1000000, PriceDeviation = Fin False 1,
     DailyLossLimit = Fin False 1000, AllowedSymbols = [''00*''], DuplicateWindow = 10,
     EnableRiskChecks = True\<rparr>"

definition sample_deps :: "bool \<Rightarrow> mem_world risk_deps" where
  "sample_deps repo = \<lparr>dep_repository = repo, dep_redis = Some mem_redis, dep_env = sample_env NaN\<rparr>"

definition market_order :: order where
  "market_order = sample_order\<lparr>o_type := OrderTypeMarket, o_price := None\<rparr>"

lemmas sample_defs = sample_config_def sample_deps_def sample_env_def sample_order_def
  market_order_def sample_world_def

lemmas rule_defs = NewMaxOrderValueRule_def NewPriceDeviationRule_def NewDailyLossLimitRule_def
  NewDuplicateOrderRule_def NewAllowedSymbolRule_def max_order_value_validate_def
  price_deviation_validate_def daily_loss_validate_def duplicate_order_validate_def
  allowed_symbol_validate_def

definition sample_engine :: "bool \<Rightarrow> mem_world engine" where
  "sample_engine repo = \<lparr>eng_rules = register_rules sample_config (sample_deps repo),
     eng_config = sample_config, eng_enabled = True\<rparr>"

lemma sample_engine_new:
  "NewEngine (Some sample_config) (Some (sample_deps repo)) = Inr (sample_engine repo)"
  by (simp add: NewEngine_def sample_engine_def sample_config_def)

lemma sample_loss_ok: "daily_loss_check (Fin False 1000) (f_of_int 0) = None"
  using f_of_int_exact [of 0] by (simp add: daily_loss_check_def)


theorem remove_in_place_refines_witness:
  "take 1 (fst (remove_in_place ''A'' (map (\<lambda>n. \<lparr>rr_name = n, rr_enabled = True,
        rr_validate = (\<lambda>ord w. (None, w :: nat))\<rparr>) [''A'', ''B'']) 2))
     = [\<lparr>rr_name = ''B'', rr_enabled = True, rr_validate = (\<lambda>ord w. (None, w))\<rparr>]"
  using remove_in_place_refines [of 2 "map (\<lambda>n. \<lparr>rr_name = n, rr_enabled = True,
        rr_validate = (\<lambda>ord w. (None, w :: nat))\<rparr>) [''A'', ''B'']" "''A''" _ 1]
  by (auto simp: remove_in_place_def)

theorem remove_race_skips_rule_witness:
  "fst (validate_across_remove
     [\<lparr>rr_name = ''A'', rr_enabled = True, rr_validate = (\<lambda>ord w. (None, w :: nat))\<rparr>,
      \<lparr>rr_name = ''B'', rr_enabled = True, rr_validate = (\<lambda>ord w. (Some PriceRequired, w))\<rparr>,
      \<lparr>rr_name = ''C'', rr_enabled = True, rr_validate = (\<lambda>ord w. (None, w))\<rparr>]
     3 1 ''A'' sample_order 0) = None"
  by (subst remove_race_skips_rule) simp_all

theorem disallowed_symbol_leaves_fingerprint_witness:
  "fst (engine_validate (sample_engine False) (market_order\<lparr>o_symbol := ''TSLA''\<rparr>) sample_world) =
     Some \<lparr>re_rule = ''AllowedSymbol'', re_message = SymbolNotAllowed ''TSLA'',
       re_order = market_order\<lparr>o_symbol := ''TSLA''\<rparr>\<rparr>"
proof -
  let ?ord = "market_order\<lparr>o_symbol := ''TSLA''\<rparr>"
  have e: "dep_env (sample_deps False)\<lparr>env_redis := mem_redis\<rparr> = sample_env NaN"
    by (simp add: sample_env_def sample_deps_def)
  have live: "mem_live sample_world (''order_fingerprint:'' @ x) = None" for x
    by (simp add: mem_live_def sample_world_def)
  have d: "duplicate_order_validate (sample_env NaN) 10 ?ord sample_world
      = (None, snd (duplicate_order_validate (sample_env NaN) 10 ?ord sample_world))"
    using live
    by (simp add: duplicate_order_validate_def fingerprint_key_def sample_env_def Let_def)
  show ?thesis
    by (rule arg_cong [where f = fst, OF disallowed_symbol_leaves_fingerprint [OF sample_engine_new,
          of False mem_redis _ "SymbolNotAllowed ''TSLA''", unfolded e], simplified])
      (use d in \<open>auto simp: sample_config_def sample_deps_def rule_defs market_order_def
        match_symbol_def has_suffix_def has_prefix_def trim_suffix_def sample_order_def\<close>)
qed

end
