(* ===== verification/Rate_Limiter.thy ===== *)
theory Rate_Limiter
  imports Redis_Api
begin

text \<open>
  The order rate limiter of \<open>order-management-service/internal/ratelimit/limiter.go\<close>: a token
  bucket kept in a Redis hash.  Its arithmetic is a Lua script in the source, so the script is
  modelled: Lua numbers are doubles, \<open>redis.call\<close> is a command of the Redis parameter, and
  the whole script is one atomic step.  An instant is \<open>time.Now().UnixNano()\<close>.
\<close>

record limiter_config =
  lc_rate :: int
  lc_burst :: int

record limiter =
  lim_rate :: int
  lim_burst :: int

datatype limiter_error =
    RedisClientNil | LimiterConfigNil | RateNotPositive | NNotPositive
  | ExceedsBurst int int | ScriptFailed | TypeAssertionPanic

text \<open>\<open>NewLimiter\<close> writes the default burst back into the caller's configuration.\<close>

definition NewLimiter ::
  "bool \<Rightarrow> limiter_config option \<Rightarrow> limiter_error + (limiter \<times> limiter_config)" where
  "NewLimiter has_redis config =
     (if \<not> has_redis then Inl RedisClientNil
      else case config of
        None \<Rightarrow> Inl LimiterConfigNil
      | Some cfg \<Rightarrow>
          if lc_rate cfg \<le> 0 then Inl RateNotPositive
          else
            let cfg' = (if lc_burst cfg \<le> 0 then cfg\<lparr>lc_burst := lc_rate cfg\<rparr> else cfg) in
            Inr (\<lparr>lim_rate = lc_rate cfg', lim_burst = lc_burst cfg'\<rparr>, cfg'))"

definition rate_limit_key :: "string \<Rightarrow> string" where
  "rate_limit_key key = ''rate_limit:'' @ key"

text \<open>The refill of the bucket, as both scripts compute it.\<close>

definition lua_refill :: "f64 \<Rightarrow> f64 \<Rightarrow> f64 \<Rightarrow> f64 \<Rightarrow> f64 \<Rightarrow> f64" where
  "lua_refill rate burst now tokens last_update =
     (let elapsed = f_div (f_sub now last_update) (f_of_int 1000000000);
          tokens_to_add = f_floor (f_mul elapsed rate)
      in f_min (f_add tokens tokens_to_add) burst)"

text \<open>
  The script of \<open>tokenBucket\<close>.  A hash with tokens but without \<open>last_update\<close> makes the arithmetic
  fail, and a failing \<open>redis.call\<close> raises.
\<close>

definition token_script ::
  "'w redis \<Rightarrow> string \<Rightarrow> f64 \<Rightarrow> f64 \<Rightarrow> f64 \<Rightarrow> f64 \<Rightarrow> 'w \<Rightarrow> redis_reply \<times> 'w" where
  "token_script redis key rate burst now requested w =
     (let (bucket, w1) = redis (HMGET_BUCKET key) w in
      case bucket of
        RBucket t u \<Rightarrow>
          (let start = (case t of
                 None \<Rightarrow> Some (burst, now)
               | Some tokens \<Rightarrow> map_option (\<lambda>last_update. (tokens, last_update)) u) in
           case start of
             None \<Rightarrow> (RErr ''arithmetic on a nil value'', w1)
           | Some (tokens0, last_update) \<Rightarrow>
               let tokens = lua_refill rate burst now tokens0 last_update;
                   left = (if f_ge tokens requested then f_sub tokens requested else tokens);
                   (set_reply, w2) = redis (HMSET_BUCKET key left now) w1 in
               if \<not> reply_ok set_reply then (set_reply, w2)
               else
                 let (exp_reply, w3) = redis (EXPIRE key (60 * Second)) w2 in
                 if \<not> reply_ok exp_reply then (exp_reply, w3)
                 else (RInt (if f_ge tokens requested then 1 else 0), w3))
      | RErr e \<Rightarrow> (RErr e, w1)
      | _ \<Rightarrow> (RErr ''unexpected reply'', w1))"

definition tokenBucket ::
  "limiter \<Rightarrow> 'w redis \<Rightarrow> string \<Rightarrow> int \<Rightarrow> instant \<Rightarrow> 'w \<Rightarrow> (limiter_error + bool) \<times> 'w" where
  "tokenBucket l redis key tokens now w =
     (let (reply, w') = token_script redis (rate_limit_key key) (f_of_int (lim_rate l))
            (f_of_int (lim_burst l)) (f_of_int now) (f_of_int tokens) w in
      (case reply of
         RErr _ \<Rightarrow> Inl ScriptFailed
       | RNil \<Rightarrow> Inl ScriptFailed
       | RInt n \<Rightarrow> Inr (n = 1)
       | _ \<Rightarrow> Inl TypeAssertionPanic, w'))"

definition AllowN ::
  "limiter \<Rightarrow> 'w redis \<Rightarrow> string \<Rightarrow> int \<Rightarrow> instant \<Rightarrow> 'w \<Rightarrow> (limiter_error + bool) \<times> 'w" where
  "AllowN l redis key n now w =
     (if n \<le> 0 then (Inl NNotPositive, w)
      else if lim_burst l < n then (Inl (ExceedsBurst n (lim_burst l)), w)
      else tokenBucket l redis key n now w)"

definition Allow ::
  "limiter \<Rightarrow> 'w redis \<Rightarrow> string \<Rightarrow> instant \<Rightarrow> 'w \<Rightarrow> (limiter_error + bool) \<times> 'w" where
  "Allow l redis key now w = AllowN l redis key 1 now w"

definition limiter_reset :: "limiter \<Rightarrow> 'w redis \<Rightarrow> string \<Rightarrow> 'w \<Rightarrow> bool \<times> 'w" where
  "limiter_reset l redis key w =
     (let (reply, w') = redis (DEL (rate_limit_key key)) w in (reply_ok reply, w'))"

text \<open>
  Redis turns a Lua number into an integer reply by truncation; outside the range of the
  conversion the hardware's answer is the least 64-bit integer.
\<close>

fun lua_to_int :: "f64 \<Rightarrow> int" where
  "lua_to_int (Fin s m) =
     (let n = (if s then - \<lfloor>m\<rfloor> else \<lfloor>m\<rfloor>) in
      if - (2 ^ 63) \<le> n \<and> n < 2 ^ 63 then n else - (2 ^ 63))"
| "lua_to_int _ = - (2 ^ 63)"

definition remaining_script ::
  "'w redis \<Rightarrow> string \<Rightarrow> f64 \<Rightarrow> f64 \<Rightarrow> f64 \<Rightarrow> 'w \<Rightarrow> redis_reply \<times> 'w" where
  "remaining_script redis key rate burst now w =
     (let (bucket, w1) = redis (HMGET_BUCKET key) w in
      case bucket of
        RBucket None _ \<Rightarrow> (RInt (lua_to_int burst), w1)
      | RBucket (Some tokens) None \<Rightarrow> (RErr ''arithmetic on a nil value'', w1)
      | RBucket (Some tokens) (Some last_update) \<Rightarrow>
          (RInt (lua_to_int (lua_refill rate burst now tokens last_update)), w1)
      | RErr e \<Rightarrow> (RErr e, w1)
      | _ \<Rightarrow> (RErr ''unexpected reply'', w1))"

definition GetRemaining ::
  "limiter \<Rightarrow> 'w redis \<Rightarrow> string \<Rightarrow> instant \<Rightarrow> 'w \<Rightarrow> (limiter_error + int) \<times> 'w" where
  "GetRemaining l redis key now w =
     (let (reply, w') = remaining_script redis (rate_limit_key key) (f_of_int (lim_rate l))
            (f_of_int (lim_burst l)) (f_of_int now) w in
      (case reply of
         RErr _ \<Rightarrow> Inl ScriptFailed
       | RNil \<Rightarrow> Inl ScriptFailed
       | RInt n \<Rightarrow> Inr n
       | _ \<Rightarrow> Inl TypeAssertionPanic, w'))"

definition PriorityAllow :: "limiter \<Rightarrow> string \<Rightarrow> limiter_error + bool" where
  "PriorityAllow l key = Inr True"

subsection \<open>The arithmetic of the bucket\<close>

lemma f_add_nonneg: "0 \<le> a \<Longrightarrow> 0 \<le> b \<Longrightarrow> f_add (Fin False a) (Fin False b) = mk_f64 False (a + b)"
  by (auto simp: f_of_rat_def mk_f64_def f_limit_def Let_def)

lemma f_sub_nonneg: "b \<le> a \<Longrightarrow> f_sub (Fin False a) (Fin False b) = mk_f64 False (a - b)"
  by (auto simp: f_sub_def f_of_rat_def mk_f64_def f_limit_def Let_def)

lemma big_lt_limit: "(2::rat) ^ 200 < f_limit"
  by (simp add: f_limit_def)

lemma rnd_pow2: "rnd (2 ^ n) = 2 ^ n"
  by (rule rnd_fixI [where k = 1 and g = "int n"]) (auto simp: two_powi_add)

lemma rnd_le_pow2: "0 \<le> x \<Longrightarrow> x \<le> 2 ^ n \<Longrightarrow> rnd x \<le> 2 ^ n"
  by (rule rnd_le_of_fix) (simp_all add: rnd_pow2)

lemma mk_f64_fin: "0 \<le> x \<Longrightarrow> x \<le> 2 ^ 200 \<Longrightarrow> mk_f64 s x = Fin s (rnd x)"
  using rnd_le_pow2 [of x 200] big_lt_limit by (simp add: mk_f64_def Let_def)

lemma rnd_int_Ints: "0 \<le> n \<Longrightarrow> rnd (of_int n) \<in> \<int>"
proof (cases "n \<le> 2 ^ 53")
  case False
  then have "(of_int (2 ^ 53) :: rat) \<le> of_int n" by (simp only: of_int_le_iff)
  then have "ilog2 (2 powi 53) \<le> ilog2 (of_int n)" by (intro ilog2_mono) auto
  moreover have "ilog2 (2 powi 53) = 53" by (rule ilog2_unique) (auto simp: two_powi_strict)
  ultimately have "ulp (of_int n) = of_int (2 ^ nat (max (ilog2 (of_int n) - 52) (- 1074)))"
    by (simp add: ulp_def power_int_def)
  then have "rnd (of_int n) = of_int (rne (of_int n / ulp (of_int n)) *
      2 ^ nat (max (ilog2 (of_int n) - 52) (- 1074)))"
    using False by (simp add: rnd_def)
  then show ?thesis by (metis Ints_of_int)
qed simp

text \<open>The clock reading the script sees, and the tokens it adds after \<open>d\<close> nanoseconds.\<close>

definition lua_clock :: "instant \<Rightarrow> rat" where
  "lua_clock t = rnd (of_int t)"

definition tokens_gain :: "int \<Rightarrow> rat \<Rightarrow> int" where
  "tokens_gain rate d = \<lfloor>rnd (rnd (rnd d / 1000000000) * of_int rate)\<rfloor>"

definition clock_ok :: "instant \<Rightarrow> bool" where
  "clock_ok t \<longleftrightarrow> 0 \<le> t \<and> t < 2 ^ 63"

lemma lua_clock_bounds: "clock_ok t \<Longrightarrow> 0 \<le> lua_clock t \<and> lua_clock t \<le> 2 ^ 63"
proof -
  assume a: "clock_ok t"
  then have "(of_int t :: rat) \<le> of_int (2 ^ 63)" unfolding of_int_le_iff by (simp add: clock_ok_def)
  then show ?thesis using a rnd_le_pow2 [of "of_int t" 63] rnd_nonneg [of "of_int t"]
    by (simp add: lua_clock_def clock_ok_def)
qed

lemma lua_clock_mono: "0 \<le> t \<Longrightarrow> t \<le> u \<Longrightarrow> lua_clock t \<le> lua_clock u"
  by (simp add: lua_clock_def rnd_mono)

lemma f_of_clock: "clock_ok t \<Longrightarrow> f_of_int t = Fin False (lua_clock t)"
proof -
  assume a: "clock_ok t"
  then have "(of_int t :: rat) \<le> of_int (2 ^ 63)" unfolding of_int_le_iff by (simp add: clock_ok_def)
  then have "(of_int t :: rat) \<le> 2 ^ 200" by simp
  then show ?thesis using a mk_f64_fin [of "of_int t" False]
    by (simp add: f_of_int_def f_of_rat_def lua_clock_def clock_ok_def)
qed

lemma tokens_gain_nonneg: "0 \<le> d \<Longrightarrow> 0 \<le> rate \<Longrightarrow> 0 \<le> tokens_gain rate d"
  by (simp add: tokens_gain_def rnd_nonneg)

lemma tokens_gain_0 [simp]: "tokens_gain rate 0 = 0"
  by (simp add: tokens_gain_def)

lemma rnd_rel_upper_small: "1 / 1000000000 \<le> x \<Longrightarrow> rnd x \<le> x * (1 + unit_roundoff)"
proof (rule rnd_rel_upper)
  assume "1 / 1000000000 \<le> x"
  moreover have "min_normal \<le> 2 powi (- 30)" unfolding min_normal_def by (rule two_powi_mono) simp
  moreover have "2 powi (- 30) \<le> (1 / 1000000000 :: rat)" by simp
  ultimately show "min_normal \<le> x" by linarith
qed

lemma tokens_gain_upper:
  assumes "d \<in> \<int>" "0 \<le> d" "1 \<le> rate"
  shows "of_int (tokens_gain rate d) \<le> d * of_int rate / 1000000000 * (1 + unit_roundoff) ^ 3"
proof (cases "d = 0")
  case False
  then have d: "1 \<le> d" using assms by (auto elim!: Ints_cases)
  let ?u = "1 + unit_roundoff" and ?r = "of_int rate :: rat"
  have r: "1 \<le> ?r" using assms by simp
  have d1: "rnd d \<le> d * ?u" "1 \<le> rnd d"
    using d rnd_rel_upper_small [of d] rnd_ge_of_fix [of 1 d] rnd_of_int [of 1] by auto
  have e0: "1 / 1000000000 \<le> rnd d / 1000000000" using d1 by simp
  have e1: "rnd (rnd d / 1000000000) \<le> rnd d / 1000000000 * ?u"
    by (rule rnd_rel_upper_small [OF e0])
  have "rnd (1 / 2 ^ 30) = 1 / (2 ^ 30 :: rat)"
    by (rule rnd_fixI [where k = 1 and g = "- 30"]) (auto simp: two_powi_add)
  then have e2: "1 / 2 ^ 30 \<le> rnd (rnd d / 1000000000)"
    using e0 by (intro rnd_ge_of_fix) auto
  define x where "x = rnd (rnd d / 1000000000) * ?r"
  have "1 / 2 ^ 30 * 1 \<le> x" unfolding x_def using e2 r by (intro mult_mono) auto
  moreover have "min_normal \<le> 2 powi (- 30)" unfolding min_normal_def by (rule two_powi_mono) simp
  ultimately have "rnd x \<le> x * ?u" by (intro rnd_rel_upper) simp
  also have "x \<le> d * ?u / 1000000000 * ?u * ?r"
    unfolding x_def using e1 d1 r by (intro mult_right_mono order_trans [OF e1]) auto
  then have "x * ?u \<le> d * ?u / 1000000000 * ?u * ?r * ?u"
    by (intro mult_right_mono) (auto intro: order_trans [OF unit_roundoff_bounds(2)])
  also have "\<dots> = d * ?r / 1000000000 * ?u ^ 3" by (simp add: power3_eq_cube)
  finally show ?thesis
    unfolding tokens_gain_def x_def [symmetric] by linarith
qed simp

lemma lua_refill_exact:
  assumes "0 \<le> k" "k \<le> burst" "burst \<le> 2 ^ 53" "1 \<le> rate" "rate \<le> 2 ^ 53"
    and "T \<le> R" "R \<le> 2 ^ 63" "0 \<le> T"
  shows "lua_refill (f_of_int rate) (f_of_int burst) (Fin False R) (Fin False (of_int k)) (Fin False T)
     = Fin False (of_int (min (k + tokens_gain rate (R - T)) burst))"
proof -
  define g where "g = tokens_gain rate (R - T)"
  have d: "0 \<le> R - T" "R - T \<le> 2 ^ 63" using assms by auto
  have r: "(of_int rate :: rat) \<le> of_int (2 ^ 53)" using assms unfolding of_int_le_iff by simp
  define e where "e = rnd (rnd (R - T) / 1000000000)"
  have d1: "0 \<le> rnd (R - T)" "rnd (R - T) \<le> 2 ^ 63" using d rnd_le_pow2 [of "R - T" 63] by (simp_all add: rnd_nonneg)
  then have e: "0 \<le> e" "e \<le> 2 ^ 63" unfolding e_def using d1 rnd_le_pow2 [of "rnd (R - T) / 1000000000" 63]
    by (simp_all add: rnd_nonneg)
  then have er: "0 \<le> e * of_int rate" "e * of_int rate \<le> 2 ^ 63 * 2 ^ 53"
    using assms r e mult_mono [of e "2 ^ 63" "of_int rate" "2 ^ 53"] by auto
  have "f_div (f_sub (Fin False R) (Fin False T)) (f_of_int 1000000000) = Fin False e"
    using d d1 assms by (simp add: f_sub_nonneg mk_f64_fin f_of_int_exact e_def)
  then have "f_floor (f_mul (f_div (f_sub (Fin False R) (Fin False T)) (f_of_int 1000000000)) (f_of_int rate))
      = Fin False (of_int g)"
    using er assms by (simp add: f_of_int_exact mk_f64_fin g_def tokens_gain_def e_def)
  moreover have g: "0 \<le> g" using d assms by (simp add: g_def tokens_gain_nonneg)
  moreover have "f_min (mk_f64 False (of_int k + of_int g)) (Fin False (of_int burst))
      = Fin False (of_int (min (k + g) burst))"
  proof (cases "k + g \<le> burst")
    case True
    then show ?thesis using assms g mk_f64_int [of "k + g" False] by (simp add: f_min_def)
  next
    case False
    then have "of_int burst \<le> rnd (of_int (k + g))"
      using assms by (intro rnd_ge_of_fix) auto
    then show ?thesis using False by (auto simp: f_min_def mk_f64_def Let_def min_def)
  qed
  ultimately show ?thesis
    using assms by (simp add: lua_refill_def Let_def f_add_nonneg g_def [symmetric] f_of_int_exact
        del: f_add.simps f_floor.simps f_mul.simps f_div.simps)
qed


subsection \<open>The abstract bucket\<close>

text \<open>
  The specification the two scripts implement: a level in \<open>[0, burst]\<close> and the instant it was
  last settled; a key not yet used has a full bucket.
\<close>

type_synonym bucket = "(int \<times> instant) option"

definition bucket_level :: "int \<Rightarrow> int \<Rightarrow> instant \<Rightarrow> bucket \<Rightarrow> int" where
  "bucket_level rate burst now b = (case b of
     None \<Rightarrow> burst
   | Some (k, t) \<Rightarrow> min (k + tokens_gain rate (lua_clock now - lua_clock t)) burst)"

definition bucket_take :: "int \<Rightarrow> int \<Rightarrow> int \<Rightarrow> instant \<Rightarrow> bucket \<Rightarrow> bool \<times> bucket" where
  "bucket_take rate burst n now b =
     (let k = bucket_level rate burst now b in
      if n \<le> k then (True, Some (k - n, now)) else (False, Some (k, now)))"

fun bucket_rep :: "bucket \<Rightarrow> (f64 \<times> f64) option" where
  "bucket_rep None = None"
| "bucket_rep (Some (k, t)) = Some (Fin False (of_int k), Fin False (lua_clock t))"

fun bucket_inv :: "int \<Rightarrow> instant \<Rightarrow> bucket \<Rightarrow> bool" where
  "bucket_inv burst now None = True"
| "bucket_inv burst now (Some (k, t)) = (0 \<le> k \<and> k \<le> burst \<and> clock_ok t \<and> t \<le> now)"

definition limiter_ok :: "limiter \<Rightarrow> bool" where
  "limiter_ok l \<longleftrightarrow> 1 \<le> lim_rate l \<and> lim_rate l \<le> 2 ^ 53 \<and> 1 \<le> lim_burst l \<and> lim_burst l \<le> 2 ^ 53"

text \<open>
  What the scripts rely on in Redis: a hash read back is the one last written, and the answers
  of \<open>HMSET\<close> and \<open>EXPIRE\<close> are no errors.  \<open>bk w\<close> is the content of the hashes.
\<close>

definition bucket_store ::
  "'w redis \<Rightarrow> ('w \<Rightarrow> string \<Rightarrow> (f64 \<times> f64) option) \<Rightarrow> bool" where
  "bucket_store redis bk \<longleftrightarrow>
     (\<forall>w k. fst (redis (HMGET_BUCKET k) w) =
        RBucket (map_option fst (bk w k)) (map_option snd (bk w k))) \<and>
     (\<forall>w k. bk (snd (redis (HMGET_BUCKET k) w)) = bk w) \<and>
     (\<forall>w k t u. reply_ok (fst (redis (HMSET_BUCKET k t u) w)) \<and>
        bk (snd (redis (HMSET_BUCKET k t u) w)) = (bk w)(k \<mapsto> (t, u))) \<and>
     (\<forall>w k d. reply_ok (fst (redis (EXPIRE k d) w)) \<and> bk (snd (redis (EXPIRE k d) w)) = bk w)"

lemma bucket_storeD:
  assumes "bucket_store redis bk"
  shows "fst (redis (HMGET_BUCKET k) w) = RBucket (map_option fst (bk w k)) (map_option snd (bk w k))"
    and "bk (snd (redis (HMGET_BUCKET k) w)) = bk w"
    and "reply_ok (fst (redis (HMSET_BUCKET k t u) w))"
    and "bk (snd (redis (HMSET_BUCKET k t u) w)) = (bk w)(k \<mapsto> (t, u))"
    and "reply_ok (fst (redis (EXPIRE k d) w))" and "bk (snd (redis (EXPIRE k d) w)) = bk w"
  using assms by (simp_all add: bucket_store_def)

lemma bucket_level_bounds:
  "limiter_ok l \<Longrightarrow> bucket_inv (lim_burst l) now b \<Longrightarrow> clock_ok now \<Longrightarrow>
   0 \<le> bucket_level (lim_rate l) (lim_burst l) now b \<and>
   bucket_level (lim_rate l) (lim_burst l) now b \<le> lim_burst l"
  by (cases "(lim_burst l, now, b)" rule: bucket_inv.cases)
    (auto simp: bucket_level_def limiter_ok_def clock_ok_def
      intro!: add_nonneg_nonneg tokens_gain_nonneg lua_clock_mono)

lemma bucket_take_inv [inv_intros]:
  assumes "limiter_ok l" "bucket_inv (lim_burst l) now b" "clock_ok now" "0 \<le> n"
  shows "bucket_inv (lim_burst l) now (snd (bucket_take (lim_rate l) (lim_burst l) n now b))"
  using bucket_level_bounds [OF assms(1-3)] assms by (auto simp: bucket_take_def Let_def)

lemma lua_refill_level:
  assumes "limiter_ok l" "bucket_inv (lim_burst l) now (Some (k, t))" "clock_ok now"
  shows "lua_refill (f_of_int (lim_rate l)) (f_of_int (lim_burst l)) (f_of_int now)
      (Fin False (of_int k)) (Fin False (lua_clock t))
     = Fin False (of_int (bucket_level (lim_rate l) (lim_burst l) now (Some (k, t))))"
  using assms lua_clock_bounds [of t] lua_clock_bounds [of now]
  unfolding f_of_clock [OF assms(3)]
  by (subst lua_refill_exact)
    (auto simp: bucket_level_def limiter_ok_def lua_clock_mono clock_ok_def)

lemma lua_refill_full:
  assumes "limiter_ok l" "clock_ok now"
  shows "lua_refill (f_of_int (lim_rate l)) (f_of_int (lim_burst l)) (f_of_int now)
      (f_of_int (lim_burst l)) (f_of_int now) = Fin False (of_int (lim_burst l))"
  using assms lua_clock_bounds [of now]
    lua_refill_exact [of "lim_burst l" "lim_burst l" "lim_rate l" "lua_clock now" "lua_clock now"]
  unfolding f_of_clock [OF assms(2)]
  by (simp add: limiter_ok_def f_of_int_exact)

lemma AllowN_step:
  assumes "bucket_store redis bk" "limiter_ok l" "clock_ok now" "1 \<le> n" "n \<le> lim_burst l"
    and "bk w (rate_limit_key key) = bucket_rep b" "bucket_inv (lim_burst l) now b"
    and kdef: "k = bucket_level (lim_rate l) (lim_burst l) now b"
  shows "fst (AllowN l redis key n now w) = Inr (n \<le> k) \<and>
     bk (snd (AllowN l redis key n now w)) =
       (bk w)(rate_limit_key key := bucket_rep (Some (if n \<le> k then k - n else k, now)))"
proof -
  have k: "0 \<le> k" "k \<le> lim_burst l" unfolding kdef using bucket_level_bounds assms by blast+
  have n53: "k \<le> 2 ^ 53" "n \<le> 2 ^ 53" using assms k by (auto simp: limiter_ok_def)
  have ge: "f_ge (Fin False (of_int k)) (f_of_int n) \<longleftrightarrow> n \<le> k"
    using n53 assms by (simp add: f_of_int_exact)
  have sub: "n \<le> k \<Longrightarrow> f_sub (Fin False (of_int k)) (f_of_int n) = Fin False (of_int (k - n))"
    using n53 assms k mk_f64_int [of "k - n" False] by (simp add: f_of_int_exact f_sub_nonneg)
  note B = bucket_storeD [OF assms(1)]
  have refill: "case b of
      None \<Rightarrow> lua_refill (f_of_int (lim_rate l)) (f_of_int (lim_burst l)) (f_of_int now)
        (f_of_int (lim_burst l)) (f_of_int now) = Fin False (of_int k)
    | Some (j, t) \<Rightarrow> lua_refill (f_of_int (lim_rate l)) (f_of_int (lim_burst l)) (f_of_int now)
        (Fin False (of_int j)) (Fin False (lua_clock t)) = Fin False (of_int k)"
    using assms lua_refill_level [of l now] lua_refill_full [of l now]
    by (auto simp: kdef bucket_level_def split: option.splits prod.splits)
  show ?thesis
    using assms(1-7) refill
    by (cases b)
      (auto simp: AllowN_def tokenBucket_def token_script_def Let_def case_prod_beta B ge sub
        f_of_clock [OF assms(3), symmetric] simp del: f_le.simps)
qed

text \<open>
  C2. The limiter implements the abstract bucket: on a store that keeps its hashes, \<open>AllowN\<close> of a
  legal amount answers exactly what the bucket answers, leaves that bucket behind under its own
  key and touches no other key.  In spite of the doubles of the script, the level is an exact
  integer.
\<close>

theorem AllowN_refines_bucket:
  assumes "bucket_store redis bk" "limiter_ok l" "clock_ok now" "1 \<le> n" "n \<le> lim_burst l"
    and "bk w (rate_limit_key key) = bucket_rep b" "bucket_inv (lim_burst l) now b"
    and "bucket_take (lim_rate l) (lim_burst l) n now b = (ok, b')"
  shows "fst (AllowN l redis key n now w) = Inr ok \<and>
         bk (snd (AllowN l redis key n now w)) = (bk w)(rate_limit_key key := bucket_rep b')"
  using AllowN_step [OF assms(1-7) refl] assms(8) by (auto simp: bucket_take_def Let_def split: if_splits)


text \<open>
  \<open>GetRemaining\<close> reports the level \<open>AllowN\<close> would see: on the same store and at the same instant
  the answer is the abstract level, the hashes are left alone, and a request of \<open>n\<close> tokens at
  that instant is granted exactly when \<open>n\<close> is at most the reported number.
\<close>

theorem GetRemaining_agrees_with_AllowN:
  assumes "bucket_store redis bk" "limiter_ok l" "clock_ok now" "1 \<le> n" "n \<le> lim_burst l"
    and "bk w (rate_limit_key key) = bucket_rep b" "bucket_inv (lim_burst l) now b"
  shows "\<exists>k. fst (GetRemaining l redis key now w) = Inr k \<and> 0 \<le> k \<and> k \<le> lim_burst l \<and>
     bk (snd (GetRemaining l redis key now w)) = bk w \<and>
     (n \<le> k \<longleftrightarrow> fst (AllowN l redis key n now w) = Inr True)"
proof -
  define k where "k = bucket_level (lim_rate l) (lim_burst l) now b"
  have k: "0 \<le> k" "k \<le> lim_burst l" unfolding k_def using bucket_level_bounds assms by blast+
  have k53: "k \<le> 2 ^ 53" using assms k by (auto simp: limiter_ok_def)
  note B = bucket_storeD [OF assms(1)]
  have "fst (GetRemaining l redis key now w) = Inr k \<and> bk (snd (GetRemaining l redis key now w)) = bk w"
  proof (cases b)
    case None
    with assms k k53 show ?thesis
      by (auto simp: GetRemaining_def remaining_script_def Let_def case_prod_beta B k_def
          bucket_level_def f_of_int_exact limiter_ok_def)
  next
    case (Some x)
    obtain j t where x: "x = (j, t)" by (cases x)
    with Some assms lua_refill_level [of l now j t] k k53 show ?thesis
      by (auto simp: GetRemaining_def remaining_script_def Let_def case_prod_beta B k_def)
  qed
  moreover have "n \<le> k \<longleftrightarrow> fst (AllowN l redis key n now w) = Inr True"
    using AllowN_step [OF assms k_def] by simp
  ultimately show ?thesis using k by blast
qed

subsection \<open>Sequences of requests\<close>

text \<open>Requests \<open>(key, n, now)\<close> served one after the other, with their answers.\<close>

fun serve :: "limiter \<Rightarrow> 'w redis \<Rightarrow> (string \<times> int \<times> instant) list \<Rightarrow> 'w \<Rightarrow>
    (limiter_error + bool) list \<times> 'w" where
  "serve l redis [] w = ([], w)"
| "serve l redis ((key, n, now) # cs) w =
     (let (r, w') = AllowN l redis key n now w; (rs, w'') = serve l redis cs w' in (r # rs, w''))"

text \<open>The tokens granted to a key.\<close>

fun granted :: "string \<Rightarrow> (string \<times> int \<times> instant) list \<Rightarrow> (limiter_error + bool) list \<Rightarrow> int" where
  "granted key ((k, n, now) # cs) (r # rs) =
     (if k = key \<and> r = Inr True then n else 0) + granted key cs rs"
| "granted key _ _ = 0"

fun times_ok :: "instant \<Rightarrow> (string \<times> int \<times> instant) list \<Rightarrow> bool" where
  "times_ok t [] = True"
| "times_ok t ((k, n, now) # cs) = (t \<le> now \<and> clock_ok now \<and> times_ok now cs)"

lemma AllowN_bad: "\<not> (1 \<le> n \<and> n \<le> lim_burst l) \<Longrightarrow>
   snd (AllowN l redis key n now w) = w \<and> fst (AllowN l redis key n now w) \<noteq> Inr ok"
  by (auto simp: AllowN_def)


lemma AllowN_other_key:
  assumes "bucket_store redis bk" "k \<noteq> key"
  shows "bk (snd (AllowN l redis k n now w)) (rate_limit_key key) = bk w (rate_limit_key key)"
proof -
  have "rate_limit_key k \<noteq> rate_limit_key key" using assms(2) by (simp add: rate_limit_key_def)
  then show ?thesis
    by (auto simp: AllowN_def tokenBucket_def token_script_def Let_def case_prod_beta
        bucket_storeD [OF assms(1)] split: option.splits redis_reply.splits)
qed

lemma lua_clock_Ints: "clock_ok t \<Longrightarrow> lua_clock t \<in> \<int>"
  by (simp add: lua_clock_def clock_ok_def rnd_int_Ints)

lemma lua_clock_error: "clock_ok t \<Longrightarrow> \<bar>lua_clock t - of_int t\<bar> \<le> 1024"
proof (cases "t = 0")
  case False
  assume a: "clock_ok t"
  with False have t: "1 \<le> t" "t \<le> 2 ^ 63" by (auto simp: clock_ok_def)
  have "(1::rat) \<le> of_int t" using t by simp
  then have m: "2 powi (- 1022) \<le> (of_int t :: rat)" and p: "(0::rat) < of_int t"
    using min_normal_pos(3) unfolding min_normal_def by linarith+
  have "\<bar>rnd (of_int t) - of_int t\<bar> \<le> ulp (of_int t) / 2" by (rule rnd_error)
  also have "ulp (of_int t) \<le> of_int t * 2 powi (- 52)" by (rule ulp_le [OF p m])
  also have "(of_int t :: rat) \<le> of_int (2 ^ 63)" using t(2) by (simp only: of_int_le_iff)
  then have "(of_int t :: rat) * 2 powi (- 52) / 2 \<le> of_int (2 ^ 63) * 2 powi (- 52) / 2"
    by (intro divide_right_mono mult_right_mono) auto
  also have "\<dots> = 1024" by simp
  finally show ?thesis by (simp add: lua_clock_def)
qed (simp add: lua_clock_def)

text \<open>The most the bucket can give out in \<open>d\<close> nanoseconds, the roundings included.\<close>

definition rate_cap :: "int \<Rightarrow> rat \<Rightarrow> rat" where
  "rate_cap rate d = d * of_int rate / 1000000000 * (1 + unit_roundoff) ^ 3"

lemma rate_cap_add: "rate_cap rate d + rate_cap rate e = rate_cap rate (d + e)"
  by (simp add: rate_cap_def field_simps)

lemma rate_cap_mono: "d \<le> e \<Longrightarrow> 1 \<le> rate \<Longrightarrow> rate_cap rate d \<le> rate_cap rate e"
  unfolding rate_cap_def by (intro mult_right_mono divide_right_mono) (auto intro: add_nonneg_nonneg)

definition bucket_credit :: "limiter \<Rightarrow> instant \<Rightarrow> instant \<Rightarrow> bucket \<Rightarrow> rat" where
  "bucket_credit l t final b = (case b of
     None \<Rightarrow> of_int (lim_burst l) + rate_cap (lim_rate l) (lua_clock final - lua_clock t)
   | Some (k, t0) \<Rightarrow> of_int k + rate_cap (lim_rate l) (lua_clock final - lua_clock t0))"

lemma bucket_level_credit:
  assumes "limiter_ok l" "bucket_inv (lim_burst l) now b" "clock_ok now" "clock_ok t" "t \<le> now" "now \<le> final"
  shows "of_int (bucket_level (lim_rate l) (lim_burst l) now b) +
      rate_cap (lim_rate l) (lua_clock final - lua_clock now) \<le> bucket_credit l t final b"
proof (cases b)
  case None
  have "lua_clock t \<le> lua_clock now" using assms by (intro lua_clock_mono) (auto simp: clock_ok_def)
  then show ?thesis using assms rate_cap_mono None
    by (simp add: bucket_level_def bucket_credit_def limiter_ok_def)
next
  case (Some x)
  obtain k t0 where x: "x = (k, t0)" by (cases x)
  with Some assms have t0: "clock_ok t0" "t0 \<le> now" by auto
  define d where "d = lua_clock now - lua_clock t0"
  have d: "d \<in> \<int>" "0 \<le> d"
    using t0 assms lua_clock_Ints lua_clock_mono [of t0 now] by (auto simp: d_def clock_ok_def)
  have "of_int (tokens_gain (lim_rate l) d) \<le> rate_cap (lim_rate l) d"
    using tokens_gain_upper [OF d, of "lim_rate l"] assms(1) by (simp add: rate_cap_def limiter_ok_def)
  moreover have "rate_cap (lim_rate l) d + rate_cap (lim_rate l) (lua_clock final - lua_clock now)
      = rate_cap (lim_rate l) (lua_clock final - lua_clock t0)"
    by (simp add: rate_cap_add d_def)
  moreover have "bucket_level (lim_rate l) (lim_burst l) now b \<le> k + tokens_gain (lim_rate l) d"
    by (simp add: Some x bucket_level_def d_def)
  then have "(of_int (bucket_level (lim_rate l) (lim_burst l) now b) :: rat)
      \<le> of_int k + of_int (tokens_gain (lim_rate l) d)"
    unfolding of_int_add [symmetric] of_int_le_iff .
  ultimately show ?thesis by (simp add: bucket_credit_def Some x)
qed

lemma bucket_inv_later: "bucket_inv m t b \<Longrightarrow> t \<le> u \<Longrightarrow> bucket_inv m u b"
  by (cases "(m, t, b)" rule: bucket_inv.cases) auto

lemma granted_credit:
  assumes "bucket_store redis bk" "limiter_ok l"
  shows "times_ok t cs \<Longrightarrow> \<forall>(k, n, now) \<in> set cs. now \<le> final \<Longrightarrow> clock_ok t \<Longrightarrow> t \<le> final \<Longrightarrow>
     bucket_inv (lim_burst l) t b \<Longrightarrow> bk w (rate_limit_key key) = bucket_rep b \<Longrightarrow>
     of_int (granted key cs (fst (serve l redis cs w))) \<le> bucket_credit l t final b"
proof (induction cs arbitrary: w b t)
  case Nil
  have "0 \<le> bucket_level (lim_rate l) (lim_burst l) t b"
    using bucket_level_bounds [OF assms(2)] Nil by blast
  moreover have "lua_clock t \<le> lua_clock final" using Nil by (intro lua_clock_mono) (auto simp: clock_ok_def)
  then have "0 \<le> rate_cap (lim_rate l) (lua_clock final - lua_clock t)"
    using rate_cap_mono [of 0 "lua_clock final - lua_clock t" "lim_rate l"] assms(2)
    by (simp add: limiter_ok_def rate_cap_def)
  ultimately show ?case
    using bucket_level_credit [OF assms(2) Nil(5) Nil(3) Nil(3) order_refl Nil(4)] by simp
next
  case (Cons c cs)
  obtain k n now where c: "c = (k, n, now)" by (cases c)
  let ?r = "AllowN l redis k n now w"
  have now: "t \<le> now" "clock_ok now" "times_ok now cs" "now \<le> final"
    "\<forall>(k, n, now) \<in> set cs. now \<le> final" using Cons.prems c by auto
  have inv: "bucket_inv (lim_burst l) now b" using Cons.prems(5) now(1) by (rule bucket_inv_later)
  note IH = Cons.IH [OF now(3,5,2,4)]
  have credit: "bucket_credit l now final b \<le> bucket_credit l t final b"
    using rate_cap_mono [of "lua_clock final - lua_clock now" "lua_clock final - lua_clock t" "lim_rate l"]
      now Cons.prems(3) assms(2) lua_clock_mono [of t now]
    by (auto simp: bucket_credit_def limiter_ok_def clock_ok_def split: option.splits)
  show ?case
  proof (cases "k = key \<and> 1 \<le> n \<and> n \<le> lim_burst l")
    case True
    let ?k = "bucket_level (lim_rate l) (lim_burst l) now b"
    define b' where "b' = Some (if n \<le> ?k then ?k - n else ?k, now)"
    have s: "fst ?r = Inr (n \<le> ?k)" "bk (snd ?r) (rate_limit_key key) = bucket_rep b'"
      using AllowN_step [OF assms now(2) _ _ _ inv refl] True Cons.prems by (auto simp: b'_def)
    have inv': "bucket_inv (lim_burst l) now b'"
      using bucket_level_bounds [OF assms(2) inv now(2)] now True by (auto simp: b'_def)
    have "of_int (granted key cs (fst (serve l redis cs (snd ?r)))) \<le> bucket_credit l now final b'"
      by (rule IH [OF inv' s(2)])
    also have "\<dots> = of_int ?k - (if n \<le> ?k then of_int n else 0) +
        rate_cap (lim_rate l) (lua_clock final - lua_clock now)"
      by (simp add: bucket_credit_def b'_def)
    finally have "of_int ((if n \<le> ?k then n else 0) + granted key cs (fst (serve l redis cs (snd ?r))))
        \<le> of_int ?k + rate_cap (lim_rate l) (lua_clock final - lua_clock now)"
      by (auto split: if_splits)
    also have "\<dots> \<le> bucket_credit l t final b"
      by (rule bucket_level_credit [OF assms(2) inv now(2) Cons.prems(3) now(1,4)])
    finally show ?thesis using True s(1) by (simp add: c case_prod_beta Let_def)
  next
    case False
    then have "bk (snd ?r) (rate_limit_key key) = bucket_rep b"
      and "(if k = key \<and> fst ?r = Inr True then n else 0) = 0"
      using AllowN_other_key [OF assms(1), of k key l n now w] Cons.prems(6)
        AllowN_bad [of n l redis k now w True] by (cases "k = key"; simp)+
    with IH [OF inv this(1)] credit show ?thesis by (simp add: c case_prod_beta Let_def)
  qed
qed


subsection \<open>Starvation\<close>

fun polls_within :: "int \<Rightarrow> instant \<Rightarrow> (string \<times> int \<times> instant) list \<Rightarrow> bool" where
  "polls_within d t [] = True"
| "polls_within d t ((k, n, now) # cs) = (t \<le> now \<and> now \<le> t + d \<and> clock_ok now \<and> polls_within d now cs)"

lemma tokens_gain_zero:
  assumes "clock_ok t" "clock_ok now" "t \<le> now" "now \<le> t + d" "1 \<le> rate"
    and "2 * (d + 2048) * rate < 1000000000"
  shows "tokens_gain rate (lua_clock now - lua_clock t) = 0"
proof -
  define e where "e = lua_clock now - lua_clock t"
  have e: "e \<in> \<int>" "0 \<le> e" "e \<le> of_int (d + 2048)"
    using assms lua_clock_Ints lua_clock_mono [of t now] lua_clock_error [of t] lua_clock_error [of now]
    by (auto simp: e_def clock_ok_def)
  have u: "(1 + unit_roundoff) ^ 3 \<le> 2" by (simp add: unit_roundoff_def power3_eq_cube)
  have "of_int (tokens_gain rate e) \<le> e * of_int rate / 1000000000 * (1 + unit_roundoff) ^ 3"
    by (rule tokens_gain_upper [OF e(1,2) assms(5)])
  also have "\<dots> \<le> of_int (d + 2048) * of_int rate / 1000000000 * 2"
    using e assms(5) u by (intro mult_mono divide_right_mono) auto
  also have "\<dots> = of_int (2 * (d + 2048) * rate) / 1000000000" by simp
  also have "\<dots> < 1" using assms(6) by (simp only: pos_divide_less_eq zero_less_numeral)
  finally have "tokens_gain rate e < 1" by simp
  with tokens_gain_nonneg [of e rate] e assms(5) show ?thesis by (simp add: e_def)
qed

text \<open>
  C12. Starvation.  A denied request also resets \<open>last_update\<close>, and the refill is rounded down, so a
  client that keeps asking at short intervals never gets a token: once the bucket is below the
  requested amount and every poll comes within \<open>d\<close> of the one before, with \<open>d\<close> below about half
  the time one token takes, every request is denied, however long the sequence.
\<close>

theorem frequent_polls_starve:
  assumes "bucket_store redis bk" "limiter_ok l" "2 * (d + 2048) * lim_rate l < 1000000000"
    and "bk w (rate_limit_key key) = bucket_rep (Some (k, t))" "bucket_inv (lim_burst l) t (Some (k, t))"
    and "polls_within d t cs" "\<forall>(key', n, now) \<in> set cs. key' = key \<and> k < n \<and> n \<le> lim_burst l"
  shows "fst (serve l redis cs w) = replicate (length cs) (Inr False)"
  using assms(4-7)
proof (induction cs arbitrary: w t)
  case (Cons c cs)
  obtain key' n now where c: "c = (key', n, now)" by (cases c)
  have lv: "bucket_level (lim_rate l) (lim_burst l) now (Some (k, t)) = k"
    using tokens_gain_zero [of t now d "lim_rate l"] Cons.prems assms(2,3) c
    by (auto simp: bucket_level_def limiter_ok_def)
  have inv: "bucket_inv (lim_burst l) now (Some (k, t))" using Cons.prems c by auto
  have s: "fst (AllowN l redis key n now w) = Inr False"
      "bk (snd (AllowN l redis key n now w)) (rate_limit_key key) = bucket_rep (Some (k, now))"
    using AllowN_step [OF assms(1,2) _ _ _ Cons.prems(1) inv refl, of n] Cons.prems c lv by auto
  show ?case using Cons.IH [OF s(2)] Cons.prems c s(1)
    by (auto simp: case_prod_beta Let_def)
qed simp


text \<open>
  A new limiter has usable parameters: a configuration is accepted exactly when a client is there
  and the rate is positive, and then rate and burst are positive; a burst that is not positive
  becomes the rate, in the limiter and in the caller's configuration.
\<close>

theorem NewLimiter_spec:
  "NewLimiter has_redis config = Inr (l, cfg') \<longleftrightarrow>
     has_redis \<and> (\<exists>cfg. config = Some cfg \<and> 0 < lc_rate cfg \<and>
       lim_rate l = lc_rate cfg \<and> lim_burst l = (if lc_burst cfg \<le> 0 then lc_rate cfg else lc_burst cfg) \<and>
       0 < lim_burst l \<and> cfg' = cfg\<lparr>lc_burst := lim_burst l\<rparr>)"
  by (cases config) (auto simp: NewLimiter_def Let_def)

subsection \<open>Concrete runs\<close>

text \<open>A Redis that holds only the hashes, for the applications below.\<close>

type_synonym hashes = "string \<Rightarrow> (f64 \<times> f64) option"

fun hash_redis :: "hashes redis" where
  "hash_redis (HMGET_BUCKET k) w = (RBucket (map_option fst (w k)) (map_option snd (w k)), w)"
| "hash_redis (HMSET_BUCKET k t u) w = (RStatus, w(k \<mapsto> (t, u)))"
| "hash_redis (EXPIRE k d) w = (RInt 1, w)"
| "hash_redis (DEL k) w = (RInt 1, w(k := None))"
| "hash_redis _ w = (RErr ''unsupported'', w)"

lemma hash_redis_store: "bucket_store hash_redis (\<lambda>w. w)"
  by (simp add: bucket_store_def)

definition sample_limiter :: limiter where
  "sample_limiter = \<lparr>lim_rate = 5, lim_burst = 10\<rparr>"

lemma sample_limiter_ok: "limiter_ok sample_limiter"
  by (simp add: limiter_ok_def sample_limiter_def)

theorem AllowN_refines_bucket_witness:
  "fst (AllowN sample_limiter hash_redis ''u'' 4 1000 Map.empty) = Inr True"
  using AllowN_refines_bucket [OF hash_redis_store sample_limiter_ok, of 1000 4 Map.empty "''u''" None
      True "Some (6, 1000)"]
  by (simp add: sample_limiter_def clock_ok_def bucket_take_def bucket_level_def)

theorem GetRemaining_agrees_with_AllowN_witness:
  "\<exists>k. fst (GetRemaining sample_limiter hash_redis ''u'' 1000 Map.empty) = Inr k \<and>
     (4 \<le> k \<longleftrightarrow> fst (AllowN sample_limiter hash_redis ''u'' 4 1000 Map.empty) = Inr True)"
  using GetRemaining_agrees_with_AllowN [OF hash_redis_store sample_limiter_ok, of 1000 4 Map.empty
      "''u''" None]
  by (auto simp: sample_limiter_def clock_ok_def)


theorem frequent_polls_starve_witness:
  "fst (serve sample_limiter hash_redis
      [(''u'', 1, 80000000), (''u'', 1, 160000000), (''u'', 1, 240000000), (''u'', 1, 320000000)]
      [rate_limit_key ''u'' \<mapsto> (Fin False 0, Fin False (lua_clock 0))])
   = [Inr False, Inr False, Inr False, Inr False]"
  using frequent_polls_starve [OF hash_redis_store sample_limiter_ok, of 80000000
      "[rate_limit_key ''u'' \<mapsto> (Fin False 0, Fin False (lua_clock 0))]" "''u''" 0 0
      "[(''u'', 1, 80000000), (''u'', 1, 160000000), (''u'', 1, 240000000), (''u'', 1, 320000000)]"]
  by (simp add: sample_limiter_def clock_ok_def numeral_eq_Suc del: serve.simps)

end
