(* ===== verification/Order_Repo.thy ===== *)
theory Order_Repo
  imports Orders
begin

text \<open>
  The order repository: the interface \<open>OrderRepository\<close> and its PostgreSQL implementation
  (\<open>order-management-service/internal/repository/order_repo.go\<close>) on the schema of
  \<open>migrations/001_orders.sql\<close>.  The statements and the schema are source text, so the tables are
  the state: \<open>orders\<close> with its CHECK constraints and its two triggers, and
  \<open>order_audit_log\<close>.  A statement is atomic: it fails and changes nothing, or applies with its
  triggers.  What PostgreSQL and the network decide is the record \<open>pg_env\<close>, indexed by the number
  of the statement.
\<close>

subsection \<open>The tables\<close>

record audit_row =
  al_id :: string
  al_order :: string
  al_status :: order_status
  al_reason :: "string option"
  al_created_at :: instant

record pg =
  pg_tick :: nat
  pg_orders :: "order list"
  pg_audit :: "audit_row list"

text \<open>
  Whether the statement fails (connection, context), whether reading its rows fails, \<open>NOW()\<close>,
  \<open>gen_random_uuid()\<close> for the row and for its audit entry, the canonical form of a text as a
  UUID, the value a \<open>NUMERIC(15, 2)\<close> column keeps of a double, and whether a text fits
  \<open>VARCHAR(n)\<close> or \<open>TEXT\<close>.
\<close>

record pg_env =
  pe_fail :: "nat \<Rightarrow> bool"
  pe_rows_fail :: "nat \<Rightarrow> bool"
  pe_now :: "nat \<Rightarrow> instant"
  pe_uuid :: "nat \<Rightarrow> string"
  pe_audit_uuid :: "nat \<Rightarrow> string"
  pe_uuid_of :: "string \<Rightarrow> string option"
  pe_numeric :: "f64 \<Rightarrow> f64 option"
  pe_varchar :: "nat \<Rightarrow> string \<Rightarrow> bool"
  pe_text :: "string \<Rightarrow> bool"

datatype repo_error = RepoFailed string | ErrOrderNotFound

definition int4 :: "int \<Rightarrow> bool" where
  "int4 n \<longleftrightarrow> - (2 ^ 31) \<le> n \<and> n < 2 ^ 31"

text \<open>The CHECK constraints on numbers; those on the enumerations are the datatypes.\<close>

definition row_checks :: "order \<Rightarrow> bool" where
  "row_checks ord \<longleftrightarrow> 0 < o_quantity ord \<and> int4 (o_quantity ord) \<and>
     (case o_filled_quantity ord of None \<Rightarrow> True | Some q \<Rightarrow> int4 q \<and> 0 \<le> q \<and> q \<le> o_quantity ord)"

definition next_statement :: "pg \<Rightarrow> pg" where
  "next_statement s = s\<lparr>pg_tick := Suc (pg_tick s)\<rparr>"

text \<open>A nullable column keeps a null; a value may be refused.\<close>

fun null_or :: "('a \<Rightarrow> 'b option) \<Rightarrow> 'a option \<Rightarrow> 'b option option" where
  "null_or f None = Some None"
| "null_or f (Some x) = map_option Some (f x)"

text \<open>The trigger \<open>create_order_audit_log\<close>, after a row has been updated.\<close>

definition create_order_audit_log :: "pg_env \<Rightarrow> nat \<Rightarrow> order \<Rightarrow> order \<Rightarrow> audit_row list" where
  "create_order_audit_log env n old new =
     (if o_status old \<noteq> o_status new
      then [\<lparr>al_id = pe_audit_uuid env n, al_order = o_id new, al_status = o_status new,
             al_reason = o_reject_reason new, al_created_at = pe_now env n\<rparr>]
      else [])"

text \<open>
  \<open>UPDATE orders SET ... WHERE id = $n\<close>: the arguments must be encodable (\<open>args_ok\<close>), then the row
  of that key with the assignments (which may fail), the trigger \<open>update_updated_at_column\<close> before and the audit trigger after it.  The answer
  is the number of affected rows.
\<close>

definition update_order ::
  "pg_env \<Rightarrow> bool \<Rightarrow> string \<Rightarrow> (order \<Rightarrow> order option) \<Rightarrow> pg \<Rightarrow> nat option \<times> pg" where
  "update_order env args_ok ident assign s =
     (let n = pg_tick s; s' = next_statement s in
      if pe_fail env n \<or> \<not> args_ok then (None, s')
      else case pe_uuid_of env ident of
        None \<Rightarrow> (None, s')
      | Some key \<Rightarrow>
          (case find (\<lambda>ord. o_id ord = key) (pg_orders s) of
             None \<Rightarrow> (Some 0, s')
           | Some old \<Rightarrow>
               (case assign old of
                  None \<Rightarrow> (None, s')
                | Some assigned \<Rightarrow>
                    let new = assigned\<lparr>o_updated_at := pe_now env n\<rparr> in
                    if \<not> row_checks new then (None, s')
                    else (Some 1, s'\<lparr>
                      pg_orders := map (\<lambda>ord. if o_id ord = key then new else ord) (pg_orders s),
                      pg_audit := pg_audit s @ create_order_audit_log env n old new\<rparr>))))"

subsection \<open>The operations\<close>

text \<open>The assignment each of the two update operations makes.\<close>

definition set_status :: "order_status \<Rightarrow> string \<Rightarrow> order \<Rightarrow> order" where
  "set_status status reason ord = ord\<lparr>o_status := status,
     o_reject_reason := (if reason \<noteq> [] then Some reason else None)\<rparr>"

definition set_execution :: "string \<Rightarrow> f64 \<Rightarrow> int \<Rightarrow> order \<Rightarrow> order" where
  "set_execution broker price quantity ord = ord\<lparr>o_broker_id := Some broker,
     o_filled_price := Some price, o_filled_quantity := Some quantity,
     o_status := (if o_quantity ord \<le> quantity then OrderStatusFilled else o_status ord)\<rparr>"

definition inserted_row :: "pg_env \<Rightarrow> nat \<Rightarrow> order \<Rightarrow> string \<Rightarrow> f64 option \<Rightarrow> order" where
  "inserted_row env n ord user price =
     \<lparr>o_id = pe_uuid env n, o_user = user, o_strategy = o_strategy ord,
      o_symbol = o_symbol ord, o_side = o_side ord, o_type = o_type ord, o_price = price,
      o_quantity = o_quantity ord, o_status = o_status ord, o_broker_id = None,
      o_filled_price = None, o_filled_quantity = None, o_reject_reason = None,
      o_created_at = pe_now env n, o_updated_at = pe_now env n\<rparr>"

definition create_order :: "pg_env \<Rightarrow> order \<Rightarrow> pg \<Rightarrow> (repo_error + order) \<times> pg" where
  "create_order env ord s =
     (let n = pg_tick s; s' = next_statement s; failed = (Inl (RepoFailed ''failed to create order''), s') in
      if pe_fail env n then failed
      else case (pe_uuid_of env (o_user ord), null_or (pe_numeric env) (o_price ord)) of
        (Some user, Some price) \<Rightarrow>
          let row = inserted_row env n ord user price in
          if row_checks row \<and> pe_varchar env 20 (o_symbol ord) \<and>
             (case o_strategy ord of None \<Rightarrow> True | Some str \<Rightarrow> pe_varchar env 50 str) \<and>
             o_id row \<notin> set (map o_id (pg_orders s))
          then (Inr (ord\<lparr>o_id := o_id row, o_created_at := o_created_at row,
                  o_updated_at := o_updated_at row\<rparr>),
                s'\<lparr>pg_orders := pg_orders s @ [row]\<rparr>)
          else failed
      | _ \<Rightarrow> failed)"

definition get_order :: "pg_env \<Rightarrow> string \<Rightarrow> pg \<Rightarrow> (repo_error + order) \<times> pg" where
  "get_order env ident s =
     (let n = pg_tick s; s' = next_statement s; failed = (Inl (RepoFailed ''failed to get order''), s') in
      if pe_fail env n then failed
      else case pe_uuid_of env ident of
        None \<Rightarrow> failed
      | Some key \<Rightarrow>
          (case find (\<lambda>ord. o_id ord = key) (pg_orders s) of
             None \<Rightarrow> (Inl ErrOrderNotFound, s')
           | Some ord \<Rightarrow> (Inr ord, s')))"

definition scan_orders :: "pg_env \<Rightarrow> nat \<Rightarrow> order list \<Rightarrow> repo_error + order list" where
  "scan_orders env n rows =
     (if pe_rows_fail env n then Inl (RepoFailed ''error iterating order rows'') else Inr rows)"

text \<open>
  \<open>ORDER BY created_at DESC LIMIT n\<close>.  Rows with equal instants keep the order of the table here,
  PostgreSQL leaves it open.
\<close>

definition newest_first :: "order list \<Rightarrow> order list" where
  "newest_first rows = sort_key (\<lambda>ord. - o_created_at ord) rows"

definition query_orders ::
  "pg_env \<Rightarrow> string \<Rightarrow> bool \<Rightarrow> (order \<Rightarrow> bool) \<Rightarrow> int option \<Rightarrow> pg \<Rightarrow>
     (repo_error + order list) \<times> pg" where
  "query_orders env msg args_ok wh lmt s =
     (let n = pg_tick s; s' = next_statement s;
          rows = newest_first (filter wh (pg_orders s)) in
      if pe_fail env n \<or> \<not> args_ok \<or> (case lmt of None \<Rightarrow> False | Some l \<Rightarrow> l < 0)
      then (Inl (RepoFailed msg), s')
      else (scan_orders env n (case lmt of None \<Rightarrow> rows | Some l \<Rightarrow> take (nat l) rows), s'))"

definition get_user_orders ::
  "pg_env \<Rightarrow> string \<Rightarrow> int \<Rightarrow> pg \<Rightarrow> (repo_error + order list) \<times> pg" where
  "get_user_orders env user lmt s =
     query_orders env ''failed to query user orders'' (pe_uuid_of env user \<noteq> None)
       (\<lambda>ord. pe_uuid_of env user = Some (o_user ord)) (Some lmt) s"

definition get_orders_by_status ::
  "pg_env \<Rightarrow> order_status \<Rightarrow> int \<Rightarrow> pg \<Rightarrow> (repo_error + order list) \<times> pg" where
  "get_orders_by_status env status lmt s =
     query_orders env ''failed to query orders by status'' True
       (\<lambda>ord. o_status ord = status) (Some lmt) s"

definition get_pending_orders_for_user ::
  "pg_env \<Rightarrow> string \<Rightarrow> pg \<Rightarrow> (repo_error + order list) \<times> pg" where
  "get_pending_orders_for_user env user s =
     query_orders env ''failed to query pending orders'' (pe_uuid_of env user \<noteq> None)
       (\<lambda>ord. pe_uuid_of env user = Some (o_user ord) \<and>
          o_status ord \<in> {OrderStatusPending, OrderStatusSent}) None s"

definition update_order_status ::
  "pg_env \<Rightarrow> string \<Rightarrow> order_status \<Rightarrow> string \<Rightarrow> pg \<Rightarrow> repo_error option \<times> pg" where
  "update_order_status env ident status reason s =
     (let (res, s') = update_order env (pe_text env reason) ident
            (\<lambda>ord. Some (set_status status reason ord)) s in
      (case res of
         None \<Rightarrow> Some (RepoFailed ''failed to update order status'')
       | Some rows \<Rightarrow> if rows = 0 then Some ErrOrderNotFound else None, s'))"

definition update_order_execution ::
  "pg_env \<Rightarrow> string \<Rightarrow> string \<Rightarrow> f64 \<Rightarrow> int \<Rightarrow> pg \<Rightarrow> repo_error option \<times> pg" where
  "update_order_execution env ident broker price quantity s =
     (let (res, s') = update_order env (pe_text env broker \<and> int4 quantity) ident (\<lambda>ord.
            case pe_numeric env price of
              None \<Rightarrow> None
            | Some filled \<Rightarrow>
                if pe_varchar env 50 broker then Some (set_execution broker filled quantity ord)
                else None) s in
      (case res of
         None \<Rightarrow> Some (RepoFailed ''failed to update order execution'')
       | Some rows \<Rightarrow> if rows = 0 then Some ErrOrderNotFound else None, s'))"

definition cancel_order ::
  "pg_env \<Rightarrow> string \<Rightarrow> string \<Rightarrow> pg \<Rightarrow> repo_error option \<times> pg" where
  "cancel_order env ident reason s = update_order_status env ident OrderStatusCancelled reason s"

definition get_order_audit_log ::
  "pg_env \<Rightarrow> string \<Rightarrow> pg \<Rightarrow> (repo_error + audit_row list) \<times> pg" where
  "get_order_audit_log env ident s =
     (let n = pg_tick s; s' = next_statement s in
      if pe_fail env n then (Inl (RepoFailed ''failed to query audit log''), s')
      else case pe_uuid_of env ident of
        None \<Rightarrow> (Inl (RepoFailed ''failed to query audit log''), s')
      | Some key \<Rightarrow>
          (if pe_rows_fail env n then Inl (RepoFailed ''error iterating audit log rows'')
           else Inr (sort_key al_created_at (filter (\<lambda>a. al_order a = key) (pg_audit s))), s'))"

subsection \<open>The interface\<close>

text \<open>The Go interface \<open>OrderRepository\<close>, a record of its methods over the repository's state.\<close>

record 's order_repository =
  rp_create :: "order \<Rightarrow> 's \<Rightarrow> (repo_error + order) \<times> 's"
  rp_get :: "string \<Rightarrow> 's \<Rightarrow> (repo_error + order) \<times> 's"
  rp_user_orders :: "string \<Rightarrow> int \<Rightarrow> 's \<Rightarrow> (repo_error + order list) \<times> 's"
  rp_update_status :: "string \<Rightarrow> order_status \<Rightarrow> string \<Rightarrow> 's \<Rightarrow> repo_error option \<times> 's"
  rp_update_execution :: "string \<Rightarrow> string \<Rightarrow> f64 \<Rightarrow> int \<Rightarrow> 's \<Rightarrow> repo_error option \<times> 's"
  rp_by_status :: "order_status \<Rightarrow> int \<Rightarrow> 's \<Rightarrow> (repo_error + order list) \<times> 's"
  rp_audit :: "string \<Rightarrow> 's \<Rightarrow> (repo_error + audit_row list) \<times> 's"
  rp_cancel :: "string \<Rightarrow> string \<Rightarrow> 's \<Rightarrow> repo_error option \<times> 's"
  rp_pending :: "string \<Rightarrow> 's \<Rightarrow> (repo_error + order list) \<times> 's"

definition NewPostgresOrderRepository :: "pg_env \<Rightarrow> pg order_repository" where
  "NewPostgresOrderRepository env =
     \<lparr>rp_create = create_order env, rp_get = get_order env, rp_user_orders = get_user_orders env,
      rp_update_status = update_order_status env, rp_update_execution = update_order_execution env,
      rp_by_status = get_orders_by_status env, rp_audit = get_order_audit_log env,
      rp_cancel = cancel_order env, rp_pending = get_pending_orders_for_user env\<rparr>"

subsection \<open>The invariant of the tables\<close>

text \<open>
  Keys are unique and every row satisfies its checks; the audit entries of an order are its
  status changes: each differs from the one before it and the last one is the current status.
\<close>

definition audit_of :: "string \<Rightarrow> pg \<Rightarrow> order_status list" where
  "audit_of key s = map al_status (filter (\<lambda>a. al_order a = key) (pg_audit s))"

definition audit_inv :: "order \<Rightarrow> order_status list \<Rightarrow> bool" where
  "audit_inv ord ss \<longleftrightarrow> successively (\<noteq>) ss \<and> (ss \<noteq> [] \<longrightarrow> List.last ss = o_status ord)"

definition pg_inv :: "pg \<Rightarrow> bool" where
  "pg_inv s \<longleftrightarrow> distinct (map o_id (pg_orders s)) \<and>
     (\<forall>ord \<in> set (pg_orders s). row_checks ord \<and> audit_inv ord (audit_of (o_id ord) s)) \<and>
     (\<forall>a \<in> set (pg_audit s). al_order a \<in> o_id ` set (pg_orders s))"

definition row_of :: "pg \<Rightarrow> string \<Rightarrow> order option" where
  "row_of s key = find (\<lambda>ord. o_id ord = key) (pg_orders s)"


lemma find_key:
  "distinct (map f xs) \<Longrightarrow> find (\<lambda>x. f x = k) xs = Some y \<longleftrightarrow> y \<in> set xs \<and> f y = k"
  by (induction xs) auto

lemma find_append: "find P (xs @ ys) = (case find P xs of None \<Rightarrow> find P ys | Some x \<Rightarrow> Some x)"
  by (induction xs) auto

lemma find_key_None: "find (\<lambda>x. f x = k) xs = None \<longleftrightarrow> k \<notin> f ` set xs"
  by (induction xs) auto

lemma find_key_replace:
  assumes new: "f new = k" and k: "k \<in> f ` set xs"
  shows "find (\<lambda>x. f x = i) (map (\<lambda>x. if f x = k then new else x) xs) =
     (if i = k then Some new else find (\<lambda>x. f x = i) xs)"
proof (cases "i = k")
  case True
  from k show ?thesis unfolding True by (induction xs) (simp_all add: new, metis)
next
  case False
  have "find (\<lambda>x. f x = i) (map (\<lambda>x. if f x = k then new else x) xs) = find (\<lambda>x. f x = i) xs"
    using False new by (induction xs) simp_all
  with False show ?thesis by simp
qed

lemma audit_of_append:
  "audit_of key (s\<lparr>pg_orders := r, pg_audit := pg_audit s @ l\<rparr>) =
     audit_of key s @ map al_status (filter (\<lambda>a. al_order a = key) l)"
  by (simp add: audit_of_def)

lemma pg_inv_next [simp]: "pg_inv (next_statement s) = pg_inv s"
  by (simp add: pg_inv_def next_statement_def audit_of_def)

lemma row_of_next [simp]: "row_of (next_statement s) = row_of s"
  by (simp add: row_of_def next_statement_def fun_eq_iff)

lemma successively_snoc:
  "successively P (xs @ [y]) \<longleftrightarrow> successively P xs \<and> (xs \<noteq> [] \<longrightarrow> P (List.last xs) y)"
  by (induction xs rule: induct_list012) auto

text \<open>An update either leaves the rows alone or replaces the one row of its key.\<close>

lemma update_order_cases:
  assumes "pg_inv s" "\<And>x y. assign x = Some y \<Longrightarrow> o_id y = o_id x"
    and "update_order env ok ident assign s = (r, s')"
  shows "pg_inv s' \<and>
    ((r = None \<or> r = Some 0) \<and> row_of s' = row_of s \<or>
     (\<exists>key old new. r = Some 1 \<and> pe_uuid_of env ident = Some key \<and> row_of s key = Some old \<and>
        assign old = Some new \<and>
        row_of s' = (row_of s)(key \<mapsto> new\<lparr>o_updated_at := pe_now env (pg_tick s)\<rparr>) \<and>
        pg_audit s' = pg_audit s @ create_order_audit_log env (pg_tick s) old
          (new\<lparr>o_updated_at := pe_now env (pg_tick s)\<rparr>)))"
proof (cases "\<exists>key old new. \<not> pe_fail env (pg_tick s) \<and> ok \<and> pe_uuid_of env ident = Some key \<and>
    row_of s key = Some old \<and> assign old = Some new \<and> row_checks (new\<lparr>o_updated_at := pe_now env (pg_tick s)\<rparr>)")
  case False
  define new' where "new' = (\<lambda>x. x\<lparr>o_updated_at := pe_now env (pg_tick s)\<rparr>)"
  note upd = assms(3) [unfolded update_order_def Let_def row_of_def [symmetric] new'_def [symmetric]]
  have "s' = next_statement s \<and> (r = None \<or> r = Some 0)"
  proof (cases "pe_fail env (pg_tick s) \<or> \<not> ok \<or> pe_uuid_of env ident = None")
    case live: False
    then obtain key where key: "pe_uuid_of env ident = Some key" by auto
    show ?thesis
    proof (cases "row_of s key")
      case None
      with upd live key show ?thesis by simp
    next
      case (Some old)
      with upd live key False show ?thesis
        by (cases "assign old") (auto simp: new'_def)
    qed
  next
    case True
    with upd show ?thesis by (cases "pe_uuid_of env ident") (simp_all split: if_splits)
  qed
  then show ?thesis using assms(1) by auto
next
  case True
  then obtain key old new where h: "\<not> pe_fail env (pg_tick s)" "ok" "pe_uuid_of env ident = Some key"
    "row_of s key = Some old" "assign old = Some new"
    "row_checks (new\<lparr>o_updated_at := pe_now env (pg_tick s)\<rparr>)" by blast
  define new' where "new' = new\<lparr>o_updated_at := pe_now env (pg_tick s)\<rparr>"
  define log where "log = create_order_audit_log env (pg_tick s) old new'"
  have s': "r = Some 1" "s' = (next_statement s)\<lparr>pg_orders :=
      map (\<lambda>ord. if o_id ord = key then new' else ord) (pg_orders s), pg_audit := pg_audit s @ log\<rparr>"
    using h assms(3) unfolding update_order_def Let_def row_of_def [symmetric]
    by (auto simp: new'_def log_def)
  have dist: "distinct (map o_id (pg_orders s))" using assms(1) by (simp add: pg_inv_def)
  have old: "old \<in> set (pg_orders s)" "o_id old = key"
    using h(4) find_key [OF dist] by (auto simp: row_of_def)
  have new: "o_id new' = key" using assms(2) [OF h(5)] old by (simp add: new'_def)
  have key: "key \<in> o_id ` set (pg_orders s)" using old by blast
  have row: "row_of s' = (row_of s)(key \<mapsto> new')"
    by (rule ext) (simp add: row_of_def s' find_key_replace [of o_id, OF new key])
  have keys: "map o_id (pg_orders s') = map o_id (pg_orders s)"
    using new by (simp add: s')
  have aud: "audit_of i s' = audit_of i s @ map al_status (filter (\<lambda>a. al_order a = i) log)" for i
    by (simp add: audit_of_def s' next_statement_def)
  have log: "log = (if o_status old \<noteq> o_status new' then [\<lparr>al_id = pe_audit_uuid env (pg_tick s),
      al_order = key, al_status = o_status new', al_reason = o_reject_reason new',
      al_created_at = pe_now env (pg_tick s)\<rparr>] else [])"
    using new by (simp add: log_def create_order_audit_log_def)
  have "pg_inv s'"
    unfolding pg_inv_def
  proof (intro conjI ballI)
    show "distinct (map o_id (pg_orders s'))" using dist keys by simp
  next
    fix ord assume ord: "ord \<in> set (pg_orders s')"
    then have c: "ord = new' \<or> ord \<in> set (pg_orders s) \<and> o_id ord \<noteq> key" using new by (auto simp: s')
    then show "row_checks ord" using h(6) assms(1) by (auto simp: pg_inv_def new'_def)
    have "audit_inv old (audit_of key s)" using assms(1) old by (auto simp: pg_inv_def)
    with c show "audit_inv ord (audit_of (o_id ord) s')"
      using assms(1) new by (auto simp: pg_inv_def audit_inv_def aud log successively_snoc)
  next
    fix a assume "a \<in> set (pg_audit s')"
    then have "a \<in> set (pg_audit s) \<or> al_order a = key" by (auto simp: s' log split: if_splits)
    moreover have "o_id ` set (pg_orders s') = o_id ` set (pg_orders s)"
      using keys by (metis list.set_map)
    ultimately show "al_order a \<in> o_id ` set (pg_orders s')"
      using assms(1) old by (auto simp: pg_inv_def)
  qed
  moreover have "pg_audit s' = pg_audit s @ log" by (simp add: s')
  ultimately show ?thesis using s'(1) h row by (auto simp: new'_def log_def)
qed

lemma create_order_cases:
  assumes "pg_inv s" "create_order env ord s = (r, s')"
  shows "pg_inv s' \<and>
    (case r of
       Inl _ \<Rightarrow> row_of s' = row_of s
     | Inr ord' \<Rightarrow> row_of s (o_id ord') = None \<and>
         (\<exists>i t. ord' = ord\<lparr>o_id := i, o_created_at := t, o_updated_at := t\<rparr>) \<and>
         (\<exists>stored. row_of s' = (row_of s)(o_id ord' \<mapsto> stored) \<and> o_id stored = o_id ord' \<and>
            o_status stored = o_status ord \<and> o_quantity stored = o_quantity ord \<and> 0 < o_quantity stored \<and>
            o_broker_id stored = None \<and> o_reject_reason stored = None))"
proof (cases r)
  case (Inl e)
  then have "s' = next_statement s"
    using assms(2) by (auto simp: create_order_def Let_def split: if_splits option.splits)
  then show ?thesis using Inl assms(1) by simp
next
  case (Inr ord')
  then obtain user price where up: "s' = (next_statement s)\<lparr>pg_orders := pg_orders s @
        [inserted_row env (pg_tick s) ord user price]\<rparr>"
      "row_checks (inserted_row env (pg_tick s) ord user price)"
      "o_id (inserted_row env (pg_tick s) ord user price) \<notin> set (map o_id (pg_orders s))"
      "ord' = ord\<lparr>o_id := o_id (inserted_row env (pg_tick s) ord user price),
        o_created_at := o_created_at (inserted_row env (pg_tick s) ord user price),
        o_updated_at := o_updated_at (inserted_row env (pg_tick s) ord user price)\<rparr>"
    using assms(2)
    by (cases "pe_uuid_of env (o_user ord)"; cases "null_or (pe_numeric env) (o_price ord)")
      (auto simp: create_order_def Let_def split: if_splits)
  define row where "row = inserted_row env (pg_tick s) ord user price"
  note row = up [folded row_def]
  have f: "o_status row = o_status ord" "o_quantity row = o_quantity ord" "o_broker_id row = None"
      "o_reject_reason row = None" "o_updated_at row = o_created_at row"
    by (simp_all add: row_def inserted_row_def)
  have q: "0 < o_quantity row" using row(2) by (simp add: row_checks_def)
  have id': "o_id ord' = o_id row" by (simp add: row(4))
  have none: "row_of s (o_id row) = None" using row(3) by (simp add: row_of_def find_key_None)
  have rows: "row_of s' = (row_of s)(o_id row \<mapsto> row)"
  proof
    fix i
    show "row_of s' i = ((row_of s)(o_id row \<mapsto> row)) i"
      using none by (cases "find (\<lambda>ord. o_id ord = i) (pg_orders s)")
        (auto simp: row_of_def row(1) find_append)
  qed
  have "al_order a \<noteq> o_id row" if "a \<in> set (pg_audit s)" for a
    using that assms(1) row(3) unfolding pg_inv_def by (metis list.set_map)
  then have noaudit: "audit_of (o_id row) s = []" by (simp add: audit_of_def filter_empty_conv)
  have aud: "audit_of i s' = audit_of i s" for i by (simp add: audit_of_def row(1) next_statement_def)
  have "pg_inv s'"
    using assms(1) row(2,3) noaudit unfolding pg_inv_def aud
    by (auto simp: row(1) next_statement_def audit_inv_def)
  then show ?thesis unfolding Inr sum.case using rows none row(4) f q id' by (intro conjI exI) simp_all
qed


lemma update_order_status_cases:
  assumes "pg_inv s" "update_order_status env ident status reason s = (e, s')"
  shows "pg_inv s' \<and>
    (case e of
       Some _ \<Rightarrow> row_of s' = row_of s
     | None \<Rightarrow> \<exists>key old. pe_uuid_of env ident = Some key \<and> row_of s key = Some old \<and>
         row_of s' = (row_of s)(key \<mapsto> (set_status status reason old)\<lparr>o_updated_at := pe_now env (pg_tick s)\<rparr>) \<and>
         pg_audit s' = pg_audit s @ create_order_audit_log env (pg_tick s) old
           ((set_status status reason old)\<lparr>o_updated_at := pe_now env (pg_tick s)\<rparr>))"
proof -
  obtain r where u: "update_order env (pe_text env reason) ident (\<lambda>ord. Some (set_status status reason ord)) s
      = (r, s')" and e: "e = (case r of None \<Rightarrow> Some (RepoFailed ''failed to update order status'')
        | Some rows \<Rightarrow> if rows = 0 then Some ErrOrderNotFound else None)"
    using assms(2) by (auto simp: update_order_status_def Let_def split: prod.splits)
  have "o_id y = o_id x" if "Some (set_status status reason x) = Some y" for x y
    using that by (auto simp: set_status_def)
  from update_order_cases [OF assms(1) this u] show ?thesis
    by (auto simp: e)
qed

lemma update_order_execution_cases:
  assumes "pg_inv s" "update_order_execution env ident broker price quantity s = (e, s')"
  shows "pg_inv s' \<and>
    (case e of
       Some _ \<Rightarrow> row_of s' = row_of s
     | None \<Rightarrow> \<exists>key old filled. pe_uuid_of env ident = Some key \<and> row_of s key = Some old \<and>
         pe_numeric env price = Some filled \<and>
         row_of s' = (row_of s)(key \<mapsto> (set_execution broker filled quantity old)
           \<lparr>o_updated_at := pe_now env (pg_tick s)\<rparr>))"
proof -
  let ?f = "\<lambda>ord. case pe_numeric env price of None \<Rightarrow> None | Some filled \<Rightarrow>
      if pe_varchar env 50 broker then Some (set_execution broker filled quantity ord) else None"
  obtain r where u: "update_order env (pe_text env broker \<and> int4 quantity) ident ?f s = (r, s')"
    and e: "e = (case r of None \<Rightarrow> Some (RepoFailed ''failed to update order execution'')
        | Some rows \<Rightarrow> if rows = 0 then Some ErrOrderNotFound else None)"
    using assms(2)
    by (auto simp: update_order_execution_def Let_def split: prod.splits)
  have "o_id y = o_id x" if "?f x = Some y" for x y
    using that by (auto simp: set_execution_def split: option.splits if_splits)
  from update_order_cases [OF assms(1) this u] show ?thesis
    by (auto simp: e split: option.splits if_splits)
qed

lemma get_order_cases:
  assumes "get_order env ident s = (r, s')"
  shows "s' = next_statement s \<and>
    (case r of Inl _ \<Rightarrow> True
     | Inr ord \<Rightarrow> \<exists>key. pe_uuid_of env ident = Some key \<and> row_of s key = Some ord)"
  using assms
  by (auto simp: get_order_def row_of_def Let_def split: if_splits option.splits)

subsection \<open>The contract of a repository\<close>

text \<open>
  What the executor relies on, for any implementation of the interface: \<open>rows\<close> are the stored
  orders by canonical key, \<open>canon\<close> the canonical form of a key text, \<open>ok\<close> the invariant.  A
  failing operation leaves the rows alone, a successful one changes exactly one row.
\<close>

locale order_store =
  fixes repo :: "'s order_repository"
    and rows :: "'s \<Rightarrow> string \<Rightarrow> order option"
    and canon :: "string \<Rightarrow> string option"
    and ok :: "'s \<Rightarrow> bool"
  assumes create_law: "ok s \<Longrightarrow> rp_create repo ord s = (r, s') \<Longrightarrow> ok s' \<and>
      (case r of Inl _ \<Rightarrow> rows s' = rows s
       | Inr ord' \<Rightarrow> rows s (o_id ord') = None \<and>
           (\<exists>i t. ord' = ord\<lparr>o_id := i, o_created_at := t, o_updated_at := t\<rparr>) \<and>
           (\<exists>stored. rows s' = (rows s)(o_id ord' \<mapsto> stored) \<and> o_id stored = o_id ord' \<and>
              o_status stored = o_status ord \<and> o_quantity stored = o_quantity ord \<and> 0 < o_quantity stored \<and>
              o_broker_id stored = None \<and> o_reject_reason stored = None))"
    and get_law: "ok s \<Longrightarrow> rp_get repo ident s = (r, s') \<Longrightarrow> ok s' \<and> rows s' = rows s \<and>
      (case r of Inl _ \<Rightarrow> True
       | Inr ord \<Rightarrow> \<exists>key. canon ident = Some key \<and> rows s key = Some ord)"
    and status_law: "ok s \<Longrightarrow> rp_update_status repo ident status reason s = (e, s') \<Longrightarrow> ok s' \<and>
      (case e of Some _ \<Rightarrow> rows s' = rows s
       | None \<Rightarrow> \<exists>key old t. canon ident = Some key \<and> rows s key = Some old \<and>
           rows s' = (rows s)(key \<mapsto> (set_status status reason old)\<lparr>o_updated_at := t\<rparr>))"
    and execution_law: "ok s \<Longrightarrow> rp_update_execution repo ident broker price quantity s = (e, s') \<Longrightarrow>
      ok s' \<and>
      (case e of Some _ \<Rightarrow> rows s' = rows s
       | None \<Rightarrow> \<exists>key old filled t. canon ident = Some key \<and> rows s key = Some old \<and>
           rows s' = (rows s)(key \<mapsto> (set_execution broker filled quantity old)\<lparr>o_updated_at := t\<rparr>))"
    and cancel_law: "rp_cancel repo ident reason = rp_update_status repo ident OrderStatusCancelled reason"
begin

lemma keeps_other_rows:
  "ok s \<Longrightarrow> rp_update_status repo ident status reason s = (e, s') \<Longrightarrow> canon ident \<noteq> Some key \<Longrightarrow>
   rows s' key = rows s key"
  using status_law [of s ident status reason e s'] by (cases e) auto

lemma keeps_rows_dom:
  "ok s \<Longrightarrow> rp_update_status repo ident status reason s = (e, s') \<Longrightarrow> dom (rows s') = dom (rows s)"
  using status_law [of s ident status reason e s']
  by (cases e) (auto simp: dom_def split: if_splits)

end

interpretation postgres: order_store "NewPostgresOrderRepository env" row_of "pe_uuid_of env" pg_inv
  for env
proof unfold_locales
  fix s ord r s'
  assume "pg_inv s" "rp_create (NewPostgresOrderRepository env) ord s = (r, s')"
  then show "pg_inv s' \<and> (case r of Inl _ \<Rightarrow> row_of s' = row_of s
       | Inr ord' \<Rightarrow> row_of s (o_id ord') = None \<and>
           (\<exists>i t. ord' = ord\<lparr>o_id := i, o_created_at := t, o_updated_at := t\<rparr>) \<and>
           (\<exists>stored. row_of s' = (row_of s)(o_id ord' \<mapsto> stored) \<and> o_id stored = o_id ord' \<and>
              o_status stored = o_status ord \<and> o_quantity stored = o_quantity ord \<and> 0 < o_quantity stored \<and>
              o_broker_id stored = None \<and> o_reject_reason stored = None))"
    using create_order_cases [of s env ord r s'] by (simp add: NewPostgresOrderRepository_def)
next
  fix s ident r s'
  assume "pg_inv s" "rp_get (NewPostgresOrderRepository env) ident s = (r, s')"
  then show "pg_inv s' \<and> row_of s' = row_of s \<and>
      (case r of Inl _ \<Rightarrow> True
       | Inr ord \<Rightarrow> \<exists>key. pe_uuid_of env ident = Some key \<and> row_of s key = Some ord)"
    using get_order_cases [of env ident s r s'] by (simp add: NewPostgresOrderRepository_def)
next
  fix s ident status reason e s'
  assume "pg_inv s" "rp_update_status (NewPostgresOrderRepository env) ident status reason s = (e, s')"
  then show "pg_inv s' \<and> (case e of Some _ \<Rightarrow> row_of s' = row_of s
       | None \<Rightarrow> \<exists>key old t. pe_uuid_of env ident = Some key \<and> row_of s key = Some old \<and>
           row_of s' = (row_of s)(key \<mapsto> (set_status status reason old)\<lparr>o_updated_at := t\<rparr>))"
    using update_order_status_cases [of s env ident status reason e s']
    by (auto simp: NewPostgresOrderRepository_def split: option.splits)
next
  fix s ident broker price quantity e s'
  assume "pg_inv s"
    "rp_update_execution (NewPostgresOrderRepository env) ident broker price quantity s = (e, s')"
  then show "pg_inv s' \<and> (case e of Some _ \<Rightarrow> row_of s' = row_of s
       | None \<Rightarrow> \<exists>key old filled t. pe_uuid_of env ident = Some key \<and> row_of s key = Some old \<and>
           row_of s' = (row_of s)(key \<mapsto> (set_execution broker filled quantity old)\<lparr>o_updated_at := t\<rparr>))"
    using update_order_execution_cases [of s env ident broker price quantity e s']
    by (auto simp: NewPostgresOrderRepository_def split: option.splits)
next
  fix ident reason
  show "rp_cancel (NewPostgresOrderRepository env) ident reason =
      rp_update_status (NewPostgresOrderRepository env) ident OrderStatusCancelled reason"
    by (simp add: NewPostgresOrderRepository_def cancel_order_def fun_eq_iff)
qed

subsection \<open>Properties\<close>

text \<open>The histories of the database: any sequence of repository operations from empty tables.\<close>

inductive db_reachable :: "pg_env \<Rightarrow> pg \<Rightarrow> bool" for env where
  reach_empty: "db_reachable env \<lparr>pg_tick = n, pg_orders = [], pg_audit = []\<rparr>"
| reach_create: "db_reachable env s \<Longrightarrow> db_reachable env (snd (create_order env ord s))"
| reach_status: "db_reachable env s \<Longrightarrow> db_reachable env (snd (update_order_status env i st why s))"
| reach_execution: "db_reachable env s \<Longrightarrow> db_reachable env (snd (update_order_execution env i b p q s))"
| reach_read: "db_reachable env s \<Longrightarrow> db_reachable env (next_statement s)"

lemma pg_inv_reachable: "db_reachable env s \<Longrightarrow> pg_inv s"
proof (induction rule: db_reachable.induct)
  case (reach_create s ord)
  then show ?case
    using create_order_cases [of s env ord "fst (create_order env ord s)" "snd (create_order env ord s)"] by simp
next
  case (reach_status s i st why)
  then show ?case using update_order_status_cases [of s env i st why] by (metis prod.collapse)
next
  case (reach_execution s i b p q)
  then show ?case using update_order_execution_cases [of s env i b p q] by (metis prod.collapse)
next
  case reach_empty
  then show ?case by (simp add: pg_inv_def)
qed simp


text \<open>
  The repository enforces no life cycle: with a working database an existing order goes from any
  status to any other, a filled or cancelled order included; the change is logged exactly when
  the status differs.  (\<open>ErrInvalidOrderStatus\<close> is declared and never returned.)
\<close>

theorem update_status_unguarded:
  assumes "db_reachable env s" "row_of s key = Some ord" "pe_uuid_of env ident = Some key"
    and "\<not> pe_fail env (pg_tick s)" "pe_text env reason"
  shows "fst (update_order_status env ident status reason s) = None \<and>
     map_option o_status (row_of (snd (update_order_status env ident status reason s)) key) = Some status \<and>
     audit_of key (snd (update_order_status env ident status reason s)) =
       audit_of key s @ (if o_status ord \<noteq> status then [status] else [])"
proof -
  have inv: "pg_inv s" by (rule pg_inv_reachable [OF assms(1)])
  then have ord: "ord \<in> set (pg_orders s)" "o_id ord = key"
    using assms(2) find_key [of o_id "pg_orders s" key ord] by (auto simp: row_of_def pg_inv_def)
  have checks: "row_checks ((set_status status reason ord)\<lparr>o_updated_at := pe_now env (pg_tick s)\<rparr>)"
    using inv ord by (auto simp: pg_inv_def row_checks_def set_status_def split: option.splits)
  have e: "fst (update_order_status env ident status reason s) = None"
    using assms(2-5) checks
    by (simp add: update_order_status_def update_order_def row_of_def Let_def)
  obtain s' where u: "update_order_status env ident status reason s = (None, s')"
    using e by (metis prod.collapse)
  from update_order_status_cases [OF inv u] assms(2,3) ord
  show ?thesis
    by (auto simp: u audit_of_def create_order_audit_log_def set_status_def)
qed


subsection \<open>Concrete runs\<close>

definition sample_pg_env :: pg_env where
  "sample_pg_env = \<lparr>pe_fail = (\<lambda>n. False), pe_rows_fail = (\<lambda>n. False), pe_now = int,
     pe_uuid = (\<lambda>n. nat_str n), pe_audit_uuid = (\<lambda>n. nat_str n), pe_uuid_of = Some,
     pe_numeric = Some, pe_varchar = (\<lambda>n s. length s \<le> n), pe_text = (\<lambda>s. True)\<rparr>"

definition sample_row :: order where
  "sample_row = \<lparr>o_id = ''k'', o_user = ''u-1'', o_strategy = None, o_symbol = ''005930'',
     o_side = OrderSideBuy, o_type = OrderTypeMarket, o_price = None,
     o_quantity = 10, o_status = OrderStatusPending, o_broker_id = None, o_filled_price = None,
     o_filled_quantity = None, o_reject_reason = None, o_created_at = 0, o_updated_at = 0\<rparr>"

definition sample_pg :: pg where
  "sample_pg = snd (create_order (sample_pg_env\<lparr>pe_uuid := \<lambda>n. ''k''\<rparr>) sample_row
     \<lparr>pg_tick = 0, pg_orders = [], pg_audit = []\<rparr>)"

lemma sample_pg_rows: "sample_pg = \<lparr>pg_tick = 1, pg_orders = [sample_row], pg_audit = []\<rparr>"
  by (simp add: sample_pg_def create_order_def sample_pg_env_def sample_row_def inserted_row_def
      row_checks_def int4_def next_statement_def Let_def)

lemma sample_pg_reachable: "db_reachable (sample_pg_env\<lparr>pe_uuid := \<lambda>n. ''k''\<rparr>) sample_pg"
  unfolding sample_pg_def by (rule reach_create [OF reach_empty])


theorem update_status_unguarded_witness:
  "fst (update_order_status (sample_pg_env\<lparr>pe_uuid := \<lambda>n. ''k''\<rparr>) ''k'' OrderStatusFilled [] sample_pg) = None"
  using update_status_unguarded [OF sample_pg_reachable, of "''k''" sample_row "''k''" "[]" OrderStatusFilled]
  by (simp add: sample_pg_rows row_of_def sample_row_def sample_pg_env_def)

end
