(* ===== verification/Go_Http.thy ===== *)
theory Go_Http
  imports Prelude
begin

text \<open>
  HTTP as the services see it.  A request sent with Go's \<open>net/http\<close> client and what comes back: no answer, an answer whose body
  cannot be read, or a status with its body.
\<close>

record http_request =
  hr_method :: string
  hr_url :: string
  hr_body :: string
  hr_headers :: "(string \<times> string) list"

datatype http_reply = HttpFailed | HttpBodyFailed int | HttpReply int string

text \<open>
  The parts of an incoming request the services read; \<open>hq_form\<close> is the parsed form, \<open>None\<close> when parsing fails,
  and an absent header or form field is the empty string, as in Go.
\<close>

record http_req =
  hq_method :: string
  hq_path :: string
  hq_header :: "string \<Rightarrow> string"
  hq_remote_addr :: string
  hq_form :: "(string \<Rightarrow> string) option"

end
