(* ===== verification/Kis_Client.thy ===== *)
theory Kis_Client
  imports Go_Float Go_Http
begin

text \<open>
  The broker client of \<open>order-management-service/internal/broker/kis_client.go\<close>: one order request
  over HTTP, the retry loop with its back-off around a circuit breaker, and cancellation.  The
  outside world of a call has type \<open>'e\<close>; HTTP, the circuit breaker of \<open>gobreaker\<close>, the JSON
  codec, the clock and HMAC are the record \<open>kis_env\<close>.
\<close>

record kis_config =
  kcf_base_url :: string
  kcf_app_key :: string
  kcf_app_secret :: string
  kcf_account_no :: string
  kcf_timeout :: duration
  kcf_max_retries :: int
  kcf_retry_delay :: duration

record kis_client =
  kc_base_url :: string
  kc_app_key :: string
  kc_app_secret :: string
  kc_account_no :: string
  kc_timeout :: duration
  kc_max_retries :: int
  kc_retry_delay :: duration

record kis_request =
  kr_symbol :: string
  kr_side :: string
  kr_type :: string
  kr_price :: f64
  kr_quantity :: int

record kis_response =
  ks_order_id :: string
  ks_status :: string
  ks_filled_price :: f64
  ks_filled_quantity :: int
  ks_message :: string
  ks_timestamp :: instant

text \<open>The parsed body of an answer: \<open>rt_cd\<close>, \<open>msg_cd\<close>, \<open>msg1\<close> and \<open>output.ODNO\<close>.\<close>

record kis_body =
  kb_ret_code :: string
  kb_msg_code :: string
  kb_msg1 :: string
  kb_order_no :: string

datatype kis_error =
    KisConfigNil
  | KisUnsupportedType string
  | KisMarshalFailed
  | KisRequestFailed
  | KisExecuteFailed
  | KisReadFailed
  | KisStatus int string
  | KisParseFailed
  | KisCode string string
  | KisBreaker string
  | KisExhausted int "kis_error option"

text \<open>A call returns a response or an error, or panics.\<close>

datatype kis_outcome = KOk kis_response | KErr kis_error | KPanic

record 'e kis_env =
  ke_marshal :: "(string \<times> string) list \<Rightarrow> string option"
  ke_request_ok :: "string \<Rightarrow> bool"
  ke_http :: "http_request \<Rightarrow> 'e \<Rightarrow> http_reply \<times> 'e"
  ke_sleep :: "duration \<Rightarrow> 'e \<Rightarrow> 'e"
  ke_breaker :: "('e \<Rightarrow> kis_outcome \<times> 'e) \<Rightarrow> 'e \<Rightarrow> kis_outcome \<times> 'e"
  ke_parse :: "string \<Rightarrow> kis_body option"
  ke_now :: "'e \<Rightarrow> instant"
  ke_hmac :: "string \<Rightarrow> string \<Rightarrow> string"

subsection \<open>Construction and the breaker's trip condition\<close>

definition NewKISClient :: "kis_config option \<Rightarrow> kis_error + kis_client" where
  "NewKISClient config = (case config of
     None \<Rightarrow> Inl KisConfigNil
   | Some cfg \<Rightarrow> Inr \<lparr>kc_base_url = kcf_base_url cfg, kc_app_key = kcf_app_key cfg,
       kc_app_secret = kcf_app_secret cfg, kc_account_no = kcf_account_no cfg,
       kc_timeout = kcf_timeout cfg, kc_max_retries = kcf_max_retries cfg,
       kc_retry_delay = kcf_retry_delay cfg\<rparr>)"

text \<open>\<open>ReadyToTrip\<close> on the counters \<open>Requests\<close> and \<open>TotalFailures\<close>, both \<open>uint32\<close>.\<close>

definition ready_to_trip :: "32 word \<Rightarrow> 32 word \<Rightarrow> bool" where
  "ready_to_trip requests failures =
     (let failureRatio = f_div (f_of_int (uint failures)) (f_of_int (uint requests)) in
      3 \<le> requests \<and> f_ge failureRatio (f_of_rat (6 / 10)))"

subsection \<open>One request\<close>

definition convertOrderType :: "string \<Rightarrow> string" where
  "convertOrderType t =
     (if t = ''MARKET'' then ''01'' else if t = ''LIMIT'' then ''00'' else [])"

definition addHeaders :: "kis_client \<Rightarrow> string \<Rightarrow> (string \<times> string) list" where
  "addHeaders c side =
     [(''Content-Type'', ''application/json''), (''appkey'', kc_app_key c),
      (''appsecret'', kc_app_secret c),
      (''tr_id'', if side = ''BUY'' then ''TTTC0802U'' else if side = ''SELL'' then ''TTTC0801U''
         else if side = ''CANCEL'' then ''TTTC0803U'' else ''TTTC0802U'')]"

definition signRequest :: "kis_client \<Rightarrow> 'e kis_env \<Rightarrow> string \<Rightarrow> 'e \<Rightarrow> (string \<times> string) list" where
  "signRequest c env body e =
     (let timestamp = int_str (ke_now env e div Second) in
      [(''X-Signature'', ke_hmac env (kc_app_secret c) (timestamp @ body)),
       (''X-Timestamp'', timestamp)])"

definition kis_post ::
  "kis_client \<Rightarrow> 'e kis_env \<Rightarrow> string \<Rightarrow> string \<Rightarrow> string \<Rightarrow> 'e \<Rightarrow> (kis_error + string) \<times> 'e" where
  "kis_post c env url side body e =
     (if \<not> ke_request_ok env url then (Inl KisRequestFailed, e)
      else
        let req = \<lparr>hr_method = ''POST'', hr_url = url, hr_body = body,
              hr_headers = addHeaders c side @ signRequest c env body e\<rparr>;
            (reply, e') = ke_http env req e in
        (case reply of
           HttpFailed \<Rightarrow> Inl KisExecuteFailed
         | HttpBodyFailed _ \<Rightarrow> Inl KisReadFailed
         | HttpReply status text \<Rightarrow> if status \<noteq> 200 then Inl (KisStatus status text) else Inr text, e'))"

definition order_payload :: "kis_client \<Rightarrow> kis_request \<Rightarrow> (string \<times> string) list" where
  "order_payload c req =
     [(''CANO'', take 8 (kc_account_no c)), (''ACNT_PRDT_CD'', drop 8 (kc_account_no c)),
      (''PDNO'', kr_symbol req), (''ORD_DVSN'', convertOrderType (kr_type req)),
      (''ORD_QTY'', int_str (kr_quantity req)), (''ORD_UNPR'', fmt_0f (kr_price req))]"

definition order_url :: "kis_client \<Rightarrow> kis_request \<Rightarrow> string" where
  "order_url c req = kc_base_url c @
     (if kr_side req = ''SELL'' then ''/uapi/domestic-stock/v1/trading/order-cash''
      else ''/uapi/domestic-stock/v1/trading/order-cash'')"

text \<open>An account number of fewer than eight bytes makes \<open>accountNo[:8]\<close> panic.\<close>

definition submitOrderInternal ::
  "kis_client \<Rightarrow> 'e kis_env \<Rightarrow> kis_request \<Rightarrow> 'e \<Rightarrow> kis_outcome \<times> 'e" where
  "submitOrderInternal c env req e =
     (if convertOrderType (kr_type req) = [] then (KErr (KisUnsupportedType (kr_type req)), e)
      else if length (kc_account_no c) < 8 then (KPanic, e)
      else case ke_marshal env (order_payload c req) of
        None \<Rightarrow> (KErr KisMarshalFailed, e)
      | Some body \<Rightarrow>
          let (r, e') = kis_post c env (order_url c req) (kr_side req) body e in
          (case r of
             Inl err \<Rightarrow> KErr err
           | Inr text \<Rightarrow>
               (case ke_parse env text of
                  None \<Rightarrow> KErr KisParseFailed
                | Some b \<Rightarrow>
                    if kb_ret_code b \<noteq> ''0'' then KErr (KisCode (kb_msg_code b) (kb_msg1 b))
                    else KOk \<lparr>ks_order_id = kb_order_no b, ks_status = ''SENT'',
                      ks_filled_price = f_of_int 0, ks_filled_quantity = 0,
                      ks_message = kb_msg1 b, ks_timestamp = ke_now env e'\<rparr>), e'))"

subsection \<open>The retry loop\<close>

text \<open>
  The delay before attempt \<open>n\<close>: \<open>retryDelay * time.Duration(1 << uint(n - 1))\<close>, both the shift and
  the product in 64 bits.
\<close>

definition retry_backoff :: "kis_client \<Rightarrow> nat \<Rightarrow> duration" where
  "retry_backoff c attempt = wrap64 (kc_retry_delay c * wrap64 (2 ^ (attempt - 1)))"

text \<open>The loop from \<open>attempt\<close> on, with \<open>left\<close> attempts to go; a panic leaves it.\<close>

fun submit_attempts ::
  "kis_client \<Rightarrow> 'e kis_env \<Rightarrow> kis_request \<Rightarrow> nat \<Rightarrow> nat \<Rightarrow> kis_error option \<Rightarrow> 'e \<Rightarrow>
     kis_outcome \<times> 'e" where
  "submit_attempts c env req attempt 0 lastErr e =
     (KErr (KisExhausted (kc_max_retries c) lastErr), e)"
| "submit_attempts c env req attempt (Suc left) lastErr e =
     (let e1 = (if 0 < attempt then ke_sleep env (retry_backoff c attempt) e else e);
          (res, e2) = ke_breaker env (submitOrderInternal c env req) e1 in
      case res of
        KOk r \<Rightarrow> (KOk r, e2)
      | KPanic \<Rightarrow> (KPanic, e2)
      | KErr err \<Rightarrow> submit_attempts c env req (Suc attempt) left (Some err) e2)"

definition SubmitOrder ::
  "kis_client \<Rightarrow> 'e kis_env \<Rightarrow> kis_request \<Rightarrow> 'e \<Rightarrow> kis_outcome \<times> 'e" where
  "SubmitOrder c env req e = submit_attempts c env req 0 (nat (kc_max_retries c + 1)) None e"

subsection \<open>Cancellation and status\<close>

definition cancel_payload :: "kis_client \<Rightarrow> string \<Rightarrow> (string \<times> string) list" where
  "cancel_payload c orderID =
     [(''CANO'', take 8 (kc_account_no c)), (''ACNT_PRDT_CD'', drop 8 (kc_account_no c)),
      (''ORGN_ODNO'', orderID), (''RVSE_CNCL_DVSN_CD'', ''02''), (''ORD_QTY'', ''0'')]"

definition kis_CancelOrder :: "kis_client \<Rightarrow> 'e kis_env \<Rightarrow> string \<Rightarrow> 'e \<Rightarrow> kis_outcome \<times> 'e" where
  "kis_CancelOrder c env orderID e =
     (if length (kc_account_no c) < 8 then (KPanic, e)
      else case ke_marshal env (cancel_payload c orderID) of
        None \<Rightarrow> (KErr KisMarshalFailed, e)
      | Some body \<Rightarrow>
          let (r, e') = kis_post c env
                (kc_base_url c @ ''/uapi/domestic-stock/v1/trading/order-rvsecncl'') ''CANCEL'' body e in
          (case r of
             Inl err \<Rightarrow> KErr err
           | Inr text \<Rightarrow> KOk \<lparr>ks_order_id = orderID, ks_status = ''CANCELLED'',
               ks_filled_price = f_of_int 0, ks_filled_quantity = 0, ks_message = [],
               ks_timestamp = ke_now env e'\<rparr>, e'))"

text \<open>The stub of the source: every order is reported filled.\<close>

definition GetOrderStatus :: "'e kis_env \<Rightarrow> string \<Rightarrow> 'e \<Rightarrow> kis_response" where
  "GetOrderStatus env orderID e = \<lparr>ks_order_id = orderID, ks_status = ''FILLED'',
     ks_filled_price = f_of_int 0, ks_filled_quantity = 0, ks_message = [],
     ks_timestamp = ke_now env e\<rparr>"

subsection \<open>What a retried submission sends\<close>

text \<open>
  The documented behaviour the bound needs: the HTTP client sends the request it is given, once;
  sleeping sends nothing; the breaker either refuses at once or runs its function exactly once
  and hands back the outcome.  \<open>sent\<close> is the list of requests that have left the process.
\<close>

definition kis_world_laws :: "'e kis_env \<Rightarrow> ('e \<Rightarrow> http_request list) \<Rightarrow> bool" where
  "kis_world_laws env sent \<longleftrightarrow>
     (\<forall>req e. sent (snd (ke_http env req e)) = sent e @ [req]) \<and>
     (\<forall>d e. sent (ke_sleep env d e) = sent e) \<and>
     (\<forall>f e. (\<exists>msg e'. ke_breaker env f e = (KErr (KisBreaker msg), e') \<and> sent e' = sent e) \<or>
        (\<exists>e0 e'. sent e0 = sent e \<and> ke_breaker env f e = (fst (f e0), e') \<and> sent e' = sent (snd (f e0))))"

definition order_request :: "kis_client \<Rightarrow> 'e kis_env \<Rightarrow> kis_request \<Rightarrow> http_request \<Rightarrow> bool" where
  "order_request c env req h \<longleftrightarrow> hr_method h = ''POST'' \<and> hr_url h = order_url c req \<and>
     ke_marshal env (order_payload c req) = Some (hr_body h)"

lemma kis_post_sends:
  assumes "kis_world_laws env sent" "kis_post c env url side body e = (r, e')"
  shows "sent e' = sent e \<and> r = Inl KisRequestFailed \<or>
     (\<exists>h. sent e' = sent e @ [h] \<and> hr_method h = ''POST'' \<and> hr_url h = url \<and> hr_body h = body)"
proof (cases "ke_request_ok env url")
  case True
  let ?h = "\<lparr>hr_method = ''POST'', hr_url = url, hr_body = body,
      hr_headers = addHeaders c side @ signRequest c env body e\<rparr>"
  have "e' = snd (ke_http env ?h e)" using assms(2) True
    by (simp add: kis_post_def Let_def case_prod_beta)
  then have "sent e' = sent e @ [?h]" using assms(1) by (simp add: kis_world_laws_def)
  then show ?thesis by (intro disjI2 exI [of _ ?h]) simp
qed (use assms in \<open>simp add: kis_post_def\<close>)

lemma submitOrderInternal_sends:
  assumes "kis_world_laws env sent" "submitOrderInternal c env req e = (r, e')"
  shows "\<exists>hs. sent e' = sent e @ hs \<and> length hs \<le> 1 \<and> (\<forall>h \<in> set hs. order_request c env req h) \<and>
     ((\<exists>resp. r = KOk resp) \<longrightarrow> hs \<noteq> [])"
proof (cases "convertOrderType (kr_type req) = [] \<or> length (kc_account_no c) < 8 \<or>
    ke_marshal env (order_payload c req) = None")
  case True
  then have "e' = e \<and> (\<forall>resp. r \<noteq> KOk resp)"
    using assms(2) by (auto simp: submitOrderInternal_def split: if_splits)
  then show ?thesis by simp
next
  case False
  then obtain body where body: "ke_marshal env (order_payload c req) = Some body" by auto
  obtain q e1 where q: "kis_post c env (order_url c req) (kr_side req) body e = (q, e1)" by fastforce
  have "e' = e1" "\<And>err. q = Inl err \<Longrightarrow> r = KErr err"
    using assms(2) False body q by (auto simp: submitOrderInternal_def)
  with kis_post_sends [OF assms(1) q] body show ?thesis
    by (auto simp: order_request_def)
qed

lemma submit_attempts_sends:
  assumes "kis_world_laws env sent" "submit_attempts c env req n left le e = (r, e')"
  shows "\<exists>hs. sent e' = sent e @ hs \<and> length hs \<le> left \<and> (\<forall>h \<in> set hs. order_request c env req h) \<and>
     ((\<exists>resp. r = KOk resp) \<longrightarrow> hs \<noteq> [])"
  using assms(2)
proof (induction left arbitrary: n le e)
  case (Suc left)
  let ?e1 = "if 0 < n then ke_sleep env (retry_backoff c n) e else e"
  obtain res e2 where b: "ke_breaker env (submitOrderInternal c env req) ?e1 = (res, e2)" by fastforce
  have s1: "sent ?e1 = sent e" using assms(1) by (simp add: kis_world_laws_def)
  have "\<exists>hs. sent e2 = sent e @ hs \<and> length hs \<le> 1 \<and> (\<forall>h \<in> set hs. order_request c env req h) \<and>
      ((\<exists>resp. res = KOk resp) \<longrightarrow> hs \<noteq> [])"
  proof -
    from assms(1) have "(\<exists>msg. res = KErr (KisBreaker msg) \<and> sent e2 = sent ?e1) \<or>
        (\<exists>e0. sent e0 = sent ?e1 \<and> res = fst (submitOrderInternal c env req e0) \<and>
          sent e2 = sent (snd (submitOrderInternal c env req e0)))"
      unfolding kis_world_laws_def using b by (metis fst_conv snd_conv)
    then show ?thesis
    proof
      assume "\<exists>e0. sent e0 = sent ?e1 \<and> res = fst (submitOrderInternal c env req e0) \<and>
          sent e2 = sent (snd (submitOrderInternal c env req e0))"
      then obtain e0 where e0: "sent e0 = sent e" "submitOrderInternal c env req e0 = (res, snd (submitOrderInternal c env req e0))"
        "sent e2 = sent (snd (submitOrderInternal c env req e0))" using s1 by auto
      from submitOrderInternal_sends [OF assms(1) e0(2)] e0 show ?thesis by auto
    qed (use s1 in auto)
  qed
  then obtain hs where hs: "sent e2 = sent e @ hs" "length hs \<le> 1"
    "\<forall>h \<in> set hs. order_request c env req h" "(\<exists>resp. res = KOk resp) \<longrightarrow> hs \<noteq> []" by blast
  show ?case
  proof (cases res)
    case (KErr err)
    then have "submit_attempts c env req (Suc n) left (Some err) e2 = (r, e')"
      using Suc.prems b by simp
    from Suc.IH [OF this] obtain hs' where "sent e' = sent e2 @ hs'" "length hs' \<le> left"
      "\<forall>h \<in> set hs'. order_request c env req h" "(\<exists>resp. r = KOk resp) \<longrightarrow> hs' \<noteq> []" by blast
    with hs show ?thesis by (intro exI [of _ "hs @ hs'"]) auto
  qed (use Suc.prems b hs in \<open>auto intro!: exI [of _ hs]\<close>)
qed auto



lemma min_half: "min_normal \<le> 1 / 2"
  unfolding min_normal_def using two_powi_mono [of "- 1022" "- 1"] by simp

text \<open>
  The breaker opens exactly at three or more requests of which at least three fifths failed:
  the comparison of the rounded ratio with the double nearest to 0.6 decides the exact ratio for
  all 32-bit counters.
\<close>

theorem ready_to_trip_exact:
  "ready_to_trip requests failures \<longleftrightarrow> 3 \<le> uint requests \<and> 3 * uint requests \<le> 5 * uint failures"
proof (cases "3 \<le> uint requests")
  case False
  then show ?thesis by (auto simp: ready_to_trip_def Let_def word_le_def)
next
  case True
  define r where "r = uint requests"
  define f where "f = uint failures"
  have r: "3 \<le> r" "r < 2 ^ 32" and f: "0 \<le> f" "f < 2 ^ 32"
    using True uint_lt2p [of requests] uint_lt2p [of failures] by (simp_all add: r_def f_def)
  define x where "x = (of_int f / of_int r :: rat)"
  have r3: "(3::rat) \<le> of_int r" and r32: "(of_int r :: rat) \<le> of_int (2 ^ 32)"
    and f32: "(of_int f :: rat) \<le> of_int (2 ^ 32)"
    using r f by (simp, simp only: of_int_le_iff, simp only: of_int_le_iff)
  have x0: "0 \<le> x" "x \<le> 2 ^ 32"
    using f f32 r3 by (auto simp: x_def pos_divide_le_eq intro: order_trans [OF f32])
  have lim: "(2::rat) ^ 33 < f_limit" by (simp add: f_limit_def)
  have pow: "rnd (2 ^ 33) = 2 ^ 33" using rnd_of_int [of "2 ^ 33"] by simp
  have lt: "rnd y < f_limit" if "0 \<le> y" "y \<le> 2 ^ 33" for y
    using rnd_le_of_fix [OF pow that] lim by linarith
  have fr: "f_div (f_of_int f) (f_of_int r) = Fin False (rnd x)"
    using r f x0 lt [of x] by (simp add: f_of_int_exact mk_f64_def Let_def x_def)
  have six: "f_of_rat (3 / 5) = Fin False (rnd (3 / 5))"
    using lt [of "3 / 5"] by (simp add: f_of_rat_def mk_f64_def Let_def)
  have trip: "ready_to_trip requests failures \<longleftrightarrow> rnd (3 / 5) \<le> rnd x"
    using True by (simp add: ready_to_trip_def Let_def fr [unfolded f_def r_def] six word_le_def
        del: f_div.simps)
  show ?thesis
  proof (cases "3 * r \<le> 5 * f")
    case True
    then have "(of_int (3 * r) :: rat) \<le> of_int (5 * f)" by (simp only: of_int_le_iff)
    then have "3 / 5 \<le> x" using r3 by (simp add: x_def pos_le_divide_eq)
    then have "rnd (3 / 5) \<le> rnd x" by (intro rnd_mono) auto
    with True \<open>3 \<le> uint requests\<close> trip show ?thesis by (simp add: r_def f_def)
  next
    case False
    then have "5 * f + 1 \<le> 3 * r" by simp
    then have "(of_int (5 * f + 1) :: rat) \<le> of_int (3 * r)" by (simp only: of_int_le_iff)
    then have "x \<le> 3 / 5 - 1 / (5 * of_int r)"
      using r3 by (simp add: x_def field_simps)
    also have "\<dots> \<le> 3 / 5 - 1 / (5 * 2 ^ 32)"
      using r3 r32 by (simp add: divide_le_cancel frac_le)
    finally have "rnd x \<le> rnd (3 / 5 - 1 / (5 * 2 ^ 32))" using x0 by (intro rnd_mono)
    also have "\<dots> \<le> (3 / 5 - 1 / (5 * 2 ^ 32)) * (1 + unit_roundoff)"
      by (rule rnd_rel_upper) (use min_half in simp)
    also have "\<dots> < 3 / 5 * (1 - unit_roundoff)" by (simp add: unit_roundoff_def)
    also have "\<dots> \<le> rnd (3 / 5)"
      by (rule rnd_rel_lower) (use min_half in simp)
    finally show ?thesis using False trip by (simp add: r_def f_def)
  qed
qed

text \<open>
  Cancellation trusts the HTTP status alone: any answer with status 200 makes \<open>CancelOrder\<close>
  report the order cancelled, whatever return code its body carries, while \<open>SubmitOrder\<close>'s request
  treats the same body as an error.
\<close>

theorem CancelOrder_ignores_return_code:
  assumes "8 \<le> length (kc_account_no c)" "ke_request_ok env url"
    and "url = kc_base_url c @ ''/uapi/domestic-stock/v1/trading/order-rvsecncl''"
    and "ke_marshal env (cancel_payload c orderID) = Some body"
    and "\<And>h. fst (ke_http env h e) = HttpReply 200 text"
  shows "\<exists>resp. fst (kis_CancelOrder c env orderID e) = KOk resp \<and> ks_status resp = ''CANCELLED''"
  using assms by (auto simp: kis_CancelOrder_def kis_post_def Let_def case_prod_beta)

subsection \<open>Concrete runs\<close>

text \<open>
  A broker reached through a transparent breaker; the world is the list of requests it has got.
  It accepts every order, but the answer to the first request is lost.
\<close>

definition lossy_kis :: "http_request list kis_env" where
  "lossy_kis = \<lparr>ke_marshal = (\<lambda>fs. Some (concat (map snd fs))), ke_request_ok = (\<lambda>u. True),
     ke_http = (\<lambda>h sent. (if sent = [] then HttpFailed else HttpReply 200 ''ok'', sent @ [h])),
     ke_sleep = (\<lambda>d e. e), ke_breaker = (\<lambda>f e. f e),
     ke_parse = (\<lambda>t. Some \<lparr>kb_ret_code = ''0'', kb_msg_code = [], kb_msg1 = [], kb_order_no = ''42''\<rparr>),
     ke_now = (\<lambda>e. 0), ke_hmac = (\<lambda>k m. m)\<rparr>"

definition sample_kis :: kis_client where
  "sample_kis = \<lparr>kc_base_url = ''https://kis'', kc_app_key = ''k'', kc_app_secret = ''s'',
     kc_account_no = ''1234567801'', kc_timeout = 5 * Second, kc_max_retries = 3,
     kc_retry_delay = Second\<rparr>"

definition sample_kis_request :: kis_request where
  "sample_kis_request = \<lparr>kr_symbol = ''005930'', kr_side = ''BUY'', kr_type = ''MARKET'',
     kr_price = Fin False 0, kr_quantity = 10\<rparr>"

lemma lossy_kis_laws: "kis_world_laws lossy_kis (\<lambda>e. e)"
  by (auto simp: kis_world_laws_def lossy_kis_def)


text \<open>The order is placed twice: the broker has got two requests with the same body.\<close>

lemma lost_reply_orders_twice:
  "map hr_body (snd (SubmitOrder sample_kis lossy_kis sample_kis_request [])) =
     [concat (map snd (order_payload sample_kis sample_kis_request)),
      concat (map snd (order_payload sample_kis sample_kis_request))]"
  by (simp add: SubmitOrder_def numeral_eq_Suc submitOrderInternal_def kis_post_def Let_def
      lossy_kis_def sample_kis_def sample_kis_request_def convertOrderType_def)

theorem CancelOrder_ignores_return_code_witness:
  "\<exists>resp. fst (kis_CancelOrder sample_kis (lossy_kis\<lparr>ke_parse := \<lambda>t. None\<rparr>) ''42''
       [\<lparr>hr_method = [], hr_url = [], hr_body = [], hr_headers = []\<rparr>]) = KOk resp \<and>
     ks_status resp = ''CANCELLED''"
  by (rule CancelOrder_ignores_return_code [OF _ _ refl])
    (simp_all add: sample_kis_def lossy_kis_def)

end
