(* ===== verification/Order_Executor.thy ===== *)
theory Order_Executor
  imports Order_Repo Kis_Client
begin

text \<open>
  The executor of \<open>order-management-service/internal/broker/order_executor.go\<close>: the life of an
  order from the database through the broker to the event on Kafka, and cancellation.  It is
  written against the repository interface, so its state is a pair: the repository's \<open>'s\<close> and
  the world \<open>'e\<close> of the broker and of Kafka.  The order is a pointer in Go; the order as the
  call leaves it is part of the result.
\<close>

record order_event =
  oe_order_id :: string
  oe_user_id :: string
  oe_symbol :: string
  oe_side :: string
  oe_type :: string
  oe_price :: f64
  oe_quantity :: int
  oe_status :: string
  oe_timestamp :: int
  oe_broker_id :: string
  oe_message :: string

record 'e exec_env =
  ex_kis :: "'e kis_env"
  ex_kafka :: "string \<Rightarrow> string \<Rightarrow> order_event \<Rightarrow> 'e \<Rightarrow> bool \<times> 'e"
  ex_err_text :: "kis_error \<Rightarrow> string"

record 's executor =
  ex_client :: kis_client
  ex_repo :: "'s order_repository"
  ex_topic :: string

datatype exec_error =
    ExecCreateFailed repo_error
  | ExecBrokerFailed kis_error
  | ExecPanic
  | CancelGetFailed repo_error
  | CannotCancelFilled
  | AlreadyCancelled
  | CannotCancelRejected
  | CancelUpdateFailed repo_error

definition NewOrderExecutor :: "kis_client \<Rightarrow> 's order_repository \<Rightarrow> string \<Rightarrow> 's executor" where
  "NewOrderExecutor client repo topic = \<lparr>ex_client = client, ex_repo = repo, ex_topic = topic\<rparr>"

definition order_event_of :: "order \<Rightarrow> order_status \<Rightarrow> string \<Rightarrow> order_event" where
  "order_event_of ord status message =
     \<lparr>oe_order_id = o_id ord, oe_user_id = o_user ord, oe_symbol = o_symbol ord,
      oe_side = side_str (o_side ord), oe_type = type_str (o_type ord),
      oe_price = (case o_price ord of None \<Rightarrow> f_of_int 0 | Some p \<Rightarrow> p),
      oe_quantity = o_quantity ord, oe_status = status_str status,
      oe_timestamp = o_created_at ord div Second,
      oe_broker_id = (case o_broker_id ord of None \<Rightarrow> [] | Some b \<Rightarrow> b), oe_message = message\<rparr>"

text \<open>JSON has no form for NaN and the infinities, so \<open>json.Marshal\<close> fails on such a price.\<close>

definition publish_order_event ::
  "'s executor \<Rightarrow> 'e exec_env \<Rightarrow> order \<Rightarrow> order_status \<Rightarrow> string \<Rightarrow> 'e \<Rightarrow> 'e" where
  "publish_order_event ex env ord status message e =
     (let event = order_event_of ord status message in
      if \<not> f_finite (oe_price event) then e
      else snd (ex_kafka env (ex_topic ex) (o_id ord) event e))"

definition kis_request_of :: "order \<Rightarrow> kis_request" where
  "kis_request_of ord =
     \<lparr>kr_symbol = o_symbol ord, kr_side = side_str (o_side ord), kr_type = type_str (o_type ord),
      kr_price = (case o_price ord of None \<Rightarrow> f_of_int 0 | Some p \<Rightarrow> p),
      kr_quantity = o_quantity ord\<rparr>"

definition broker_failed_reason :: "'e exec_env \<Rightarrow> kis_error \<Rightarrow> string" where
  "broker_failed_reason env err = ''Failed to submit to broker: '' @ ex_err_text env err"

definition Execute ::
  "'s executor \<Rightarrow> 'e exec_env \<Rightarrow> order \<Rightarrow> 's \<Rightarrow> 'e \<Rightarrow> exec_error option \<times> order \<times> 's \<times> 'e" where
  "Execute ex env ord s e =
     (case rp_create (ex_repo ex) ord s of
        (Inl err, s1) \<Rightarrow> (Some (ExecCreateFailed err), ord, s1, e)
      | (Inr ord', s1) \<Rightarrow>
          (case SubmitOrder (ex_client ex) (ex_kis env) (kis_request_of ord') e of
             (KPanic, e1) \<Rightarrow> (Some ExecPanic, ord', s1, e1)
           | (KErr err, e1) \<Rightarrow>
               let reason = broker_failed_reason env err;
                   (_, s2) = rp_update_status (ex_repo ex) (o_id ord') OrderStatusRejected reason s1
               in (Some (ExecBrokerFailed err), ord', s2,
                   publish_order_event ex env ord' OrderStatusRejected reason e1)
           | (KOk resp, e1) \<Rightarrow>
               let (_, s2) = rp_update_execution (ex_repo ex) (o_id ord') (ks_order_id resp)
                     (ks_filled_price resp) (ks_filled_quantity resp) s1;
                   (_, s3) = rp_update_status (ex_repo ex) (o_id ord') OrderStatusSent
                     ''Order sent to broker'' s2
               in (None, ord', s3,
                   publish_order_event ex env ord' OrderStatusSent ''Order submitted successfully'' e1)))"

definition Cancel ::
  "'s executor \<Rightarrow> 'e exec_env \<Rightarrow> string \<Rightarrow> string \<Rightarrow> 's \<Rightarrow> 'e \<Rightarrow> exec_error option \<times> 's \<times> 'e" where
  "Cancel ex env orderID reason s e =
     (case rp_get (ex_repo ex) orderID s of
        (Inl err, s1) \<Rightarrow> (Some (CancelGetFailed err), s1, e)
      | (Inr ord, s1) \<Rightarrow>
          if o_status ord = OrderStatusFilled then (Some CannotCancelFilled, s1, e)
          else if o_status ord = OrderStatusCancelled then (Some AlreadyCancelled, s1, e)
          else if o_status ord = OrderStatusRejected then (Some CannotCancelRejected, s1, e)
          else
            let (out, e1) = (case o_broker_id ord of
                  None \<Rightarrow> (None, e)
                | Some b \<Rightarrow> (let (r, e') = kis_CancelOrder (ex_client ex) (ex_kis env) b e in (Some r, e')))
            in
            if out = Some KPanic then (Some ExecPanic, s1, e1)
            else
              (case rp_cancel (ex_repo ex) orderID reason s1 of
                 (Some err, s2) \<Rightarrow> (Some (CancelUpdateFailed err), s2, e1)
               | (None, s2) \<Rightarrow> (None, s2, publish_order_event ex env ord OrderStatusCancelled reason e1)))"

subsection \<open>What an accepted submission says\<close>

lemma submitOrderInternal_unfilled:
  "fst (submitOrderInternal c env req e) = KOk resp \<Longrightarrow> ks_filled_quantity resp = 0"
  by (auto simp: submitOrderInternal_def Let_def case_prod_beta
      split: if_splits option.splits sum.splits)

lemma submit_attempts_unfilled:
  assumes "kis_world_laws env sent"
  shows "submit_attempts c env req n left le e = (KOk resp, e') \<Longrightarrow> ks_filled_quantity resp = 0"
proof (induction left arbitrary: n le e)
  case (Suc left)
  let ?e1 = "if 0 < n then ke_sleep env (retry_backoff c n) e else e"
  obtain res e2 where b: "ke_breaker env (submitOrderInternal c env req) ?e1 = (res, e2)" by fastforce
  have "(\<exists>msg. res = KErr (KisBreaker msg)) \<or> (\<exists>e0. res = fst (submitOrderInternal c env req e0))"
    using assms unfolding kis_world_laws_def by (metis b fst_conv)
  then have "ks_filled_quantity x = 0" if "res = KOk x" for x
    using that by (auto intro: submitOrderInternal_unfilled [OF sym])
  then show ?case
    using Suc b by (cases res) (auto simp: Let_def)
qed simp

lemma SubmitOrder_unfilled:
  "kis_world_laws env sent \<Longrightarrow> SubmitOrder c env req e = (KOk resp, e') \<Longrightarrow> ks_filled_quantity resp = 0"
  unfolding SubmitOrder_def by (rule submit_attempts_unfilled)

subsection \<open>The executor over any repository\<close>

context order_store begin

text \<open>Keys that the repository hands out are in canonical form.\<close>

lemma status_at:
  assumes "ok s" "rp_update_status repo key st why s = (e, s')" "canon key = Some key"
    and "rows s key = Some old"
  shows "ok s'" "\<And>k. k \<noteq> key \<Longrightarrow> rows s' k = rows s k"
    and "\<exists>new. rows s' key = Some new \<and>
      (new = old \<or> (\<exists>t. new = (set_status st why old)\<lparr>o_updated_at := t\<rparr>))"
  using status_law [OF assms(1,2)] assms(3,4) by (cases e; auto)+

lemma execution_at:
  assumes "ok s" "rp_update_execution repo key b p q s = (e, s')" "canon key = Some key"
    and "rows s key = Some old"
  shows "ok s'" "\<And>k. k \<noteq> key \<Longrightarrow> rows s' k = rows s k"
    and "\<exists>new. rows s' key = Some new \<and>
      (new = old \<or> (\<exists>f t. new = (set_execution b f q old)\<lparr>o_updated_at := t\<rparr>))"
  using execution_law [OF assms(1,2)] assms(3,4) by (cases e; auto)+

lemma execute_effect:
  assumes "ok s" "Execute \<lparr>ex_client = c, ex_repo = repo, ex_topic = topic\<rparr> env ord s e = (res, ord', s', e')"
    and keys: "\<forall>s ord r s'. rp_create repo ord s = (Inr r, s') \<longrightarrow> canon (o_id r) = Some (o_id r)"
    and laws: "kis_world_laws (ex_kis env) sent"
  shows "ok s' \<and>
    (if \<exists>err. res = Some (ExecCreateFailed err) then rows s' = rows s \<and> e' = e \<and> ord' = ord
     else rows s (o_id ord') = None \<and> (\<forall>k. k \<noteq> o_id ord' \<longrightarrow> rows s' k = rows s k) \<and>
       (\<exists>row. rows s' (o_id ord') = Some row \<and> 
          (case res of
             None \<Rightarrow> o_status row = o_status ord \<or>
               o_status row = OrderStatusSent \<and> o_reject_reason row = Some ''Order sent to broker''
           | Some (ExecBrokerFailed err) \<Rightarrow> o_status row = o_status ord \<or> o_status row = OrderStatusRejected
           | Some ExecPanic \<Rightarrow> o_status row = o_status ord
           | Some _ \<Rightarrow> False)))"
proof -
  let ?ex = "\<lparr>ex_client = c, ex_repo = repo, ex_topic = topic\<rparr>"
  obtain r s1 where c1: "rp_create repo ord s = (r, s1)" by fastforce
  show ?thesis
  proof (cases r)
    case (Inl err)
    with create_law [OF assms(1) c1] assms(2) c1 show ?thesis by (auto simp: Execute_def)
  next
    case (Inr o1)
    let ?key = "o_id o1"
    have key: "canon ?key = Some ?key" using keys c1 Inr by blast
    obtain stored where ok1: "ok s1" and n: "rows s ?key = None"
      and rows1: "rows s1 = (rows s)(?key \<mapsto> stored)" and st: "o_status stored = o_status ord"
      and q: "0 < o_quantity stored"
      using create_law [OF assms(1) c1] Inr by auto
    have r1: "rows s1 ?key = Some stored" and o1: "\<And>k. k \<noteq> ?key \<Longrightarrow> rows s1 k = rows s k"
      by (simp_all add: rows1)
    obtain out e1 where b: "SubmitOrder c (ex_kis env) (kis_request_of o1) e = (out, e1)" by fastforce
    show ?thesis
    proof (cases out)
      case KPanic
      with assms(2) c1 Inr b ok1 n r1 o1 st show ?thesis by (auto simp: Execute_def)
    next
      case (KErr err)
      obtain x s2 where u: "rp_update_status repo ?key OrderStatusRejected
          (broker_failed_reason env err) s1 = (x, s2)" by fastforce
      from assms(2) have "res = Some (ExecBrokerFailed err)" "ord' = o1" "s' = s2"
        by (simp_all add: Execute_def c1 Inr b KErr Let_def u)
      with status_at [OF ok1 u key r1] n o1 st show ?thesis
        by (auto simp: set_status_def)
    next
      case (KOk resp)
      have q0: "ks_filled_quantity resp = 0" using SubmitOrder_unfilled [OF laws] b KOk by blast
      obtain x s2 where u: "rp_update_execution repo ?key (ks_order_id resp) (ks_filled_price resp)
          (ks_filled_quantity resp) s1 = (x, s2)" by fastforce
      obtain y s3 where v: "rp_update_status repo ?key OrderStatusSent ''Order sent to broker'' s2 = (y, s3)"
        by fastforce
      from assms(2) have res: "res = None" "ord' = o1" "s' = s3"
        by (simp_all add: Execute_def c1 Inr b KOk Let_def u v)
      note e = execution_at [OF ok1 u key r1]
      obtain mid where mid: "rows s2 ?key = Some mid" "o_status mid = o_status ord"
        using e(3) st q q0 by (auto simp: set_execution_def)
      from status_at [OF e(1) v key mid(1)] res n o1 e(2) mid(2) show ?thesis
        by (auto simp: set_status_def)
    qed
  qed
qed

lemma cancel_effect:
  assumes "ok s" "Cancel \<lparr>ex_client = c, ex_repo = repo, ex_topic = topic\<rparr> env ident why s e = (res, s', e')"
  shows "ok s' \<and>
    (if res = None
     then \<exists>key old t. canon ident = Some key \<and> rows s key = Some old \<and> \<not> terminal (o_status old) \<and>
       rows s' = (rows s)(key \<mapsto> (set_status OrderStatusCancelled why old)\<lparr>o_updated_at := t\<rparr>)
     else rows s' = rows s \<and>
       (res \<in> {Some CannotCancelFilled, Some AlreadyCancelled, Some CannotCancelRejected} \<longrightarrow> e' = e))"
proof -
  obtain r s1 where g: "rp_get repo ident s = (r, s1)" by fastforce
  note G = get_law [OF assms(1) g]
  show ?thesis
  proof (cases r)
    case (Inl err)
    with G g assms(2) show ?thesis by (auto simp: Cancel_def)
  next
    case (Inr ord)
    then obtain key where key: "canon ident = Some key" "rows s key = Some ord" using G by auto
    show ?thesis
    proof (cases "terminal (o_status ord)")
      case True
      with G g Inr assms(2) show ?thesis by (cases "o_status ord") (auto simp: Cancel_def)
    next
      case False
      define be where "be = (case o_broker_id ord of None \<Rightarrow> (None, e)
          | Some b \<Rightarrow> (let (r, e') = kis_CancelOrder c (ex_kis env) b e in (Some r, e')))"
      obtain x s2 where u: "rp_cancel repo ident why s1 = (x, s2)" by fastforce
      have c: "(res, s', e') = (if fst be = Some KPanic then (Some ExecPanic, s1, snd be)
          else (case x of Some err \<Rightarrow> (Some (CancelUpdateFailed err), s2, snd be)
            | None \<Rightarrow> (None, s2, publish_order_event \<lparr>ex_client = c, ex_repo = repo, ex_topic = topic\<rparr>
                env ord OrderStatusCancelled why (snd be))))"
        using assms(2) False g Inr u
        by (cases "o_status ord") (auto simp: Cancel_def case_prod_beta be_def Let_def split: option.splits)
      have "ok s1" "rows s1 = rows s" using G by auto
      from status_law [OF this(1), of ident OrderStatusCancelled why x s2] u this c key False
      show ?thesis by (cases x) (auto simp: cancel_law split: if_splits)
    qed
  qed
qed

end


subsection \<open>Properties on the PostgreSQL repository\<close>

definition postgres_executor :: "kis_client \<Rightarrow> pg_env \<Rightarrow> string \<Rightarrow> pg executor" where
  "postgres_executor c env topic =
     \<lparr>ex_client = c, ex_repo = NewPostgresOrderRepository env, ex_topic = topic\<rparr>"

text \<open>\<open>gen_random_uuid()\<close> returns keys in canonical form.\<close>

definition uuids_canonical :: "pg_env \<Rightarrow> bool" where
  "uuids_canonical env \<longleftrightarrow> (\<forall>n. pe_uuid_of env (pe_uuid env n) = Some (pe_uuid env n))"

lemma created_key_canonical:
  assumes "uuids_canonical env" "rp_create (NewPostgresOrderRepository env) ord s = (Inr r, s')"
  shows "pe_uuid_of env (o_id r) = Some (o_id r)"
proof -
  have "o_id r = pe_uuid env (pg_tick s)"
    using assms(2)
    by (cases "pe_uuid_of env (o_user ord)"; cases "null_or (pe_numeric env) (o_price ord)")
      (auto simp: NewPostgresOrderRepository_def create_order_def Let_def inserted_row_def split: if_splits)
  with assms(1) show ?thesis by (simp add: uuids_canonical_def)
qed



text \<open>
  A refused cancellation is recorded as a cancellation: when the broker call for a sent order
  returns an error, the order is still alive at the broker, and \<open>Cancel\<close> nevertheless succeeds and
  stores CANCELLED, given a database that works.
\<close>

theorem Cancel_despite_broker_error:
  assumes "get_order env ident s = (Inr ord, s1)" "\<not> terminal (o_status ord)" "o_broker_id ord = Some b"
    and "kis_CancelOrder c (ex_kis xenv) b e = (KErr err, e1)"
    and "update_order_status env ident OrderStatusCancelled why s1 = (None, s2)"
  shows "\<exists>e2. Cancel (postgres_executor c env topic) xenv ident why s e = (None, s2, e2)"
  using assms
  by (cases "o_status ord")
    (auto simp: Cancel_def postgres_executor_def NewPostgresOrderRepository_def cancel_order_def)

text \<open>
  The event of a sent order has no broker id: \<open>Execute\<close> stores the broker's order number in the
  database only and publishes the order as it was created, so consumers of the topic get the
  SENT event with the broker id the caller put in, which is none for a new order.
\<close>

theorem Execute_event_lacks_broker_id:
  assumes "Execute ex xenv ord s e = (None, ord', s', e')" "ex_repo ex = NewPostgresOrderRepository env"
    and "pg_inv s" "o_broker_id ord = None"
  shows "\<exists>e1. e' = publish_order_event ex xenv ord' OrderStatusSent ''Order submitted successfully'' e1 \<and>
     oe_broker_id (order_event_of ord' OrderStatusSent ''Order submitted successfully'') = [] \<and>
     (\<exists>resp. fst (SubmitOrder (ex_client ex) (ex_kis xenv) (kis_request_of ord') e) = KOk resp)"
proof -
  obtain r s1 where c: "rp_create (ex_repo ex) ord s = (r, s1)" by fastforce
  then obtain o1 where r: "r = Inr o1" and o1: "o1 = ord'"
    using assms(1) by (cases r) (auto simp: Execute_def Let_def case_prod_beta
        split: prod.splits kis_outcome.splits)
  have "o_broker_id ord' = None"
    using postgres.create_law [OF assms(3) c [unfolded assms(2)]] r o1 assms(4) by auto
  then show ?thesis
    using assms(1) c r o1
    by (auto simp: Execute_def order_event_of_def Let_def case_prod_beta
        split: kis_outcome.splits)
qed

subsection \<open>Concrete runs\<close>

definition sample_exec_env :: "http_request list exec_env" where
  "sample_exec_env = \<lparr>ex_kis = lossy_kis, ex_kafka = (\<lambda>topic key ev e. (True, e)),
     ex_err_text = (\<lambda>err. ''error'')\<rparr>"

definition empty_pg :: pg where
  "empty_pg = \<lparr>pg_tick = 0, pg_orders = [], pg_audit = []\<rparr>"

lemma empty_pg_inv: "pg_inv empty_pg"
  by (simp add: pg_inv_def empty_pg_def)

lemma sample_uuids: "uuids_canonical sample_pg_env"
  by (simp add: uuids_canonical_def sample_pg_env_def)

lemma sample_execute_ok:
  "fst (Execute (postgres_executor sample_kis sample_pg_env ''orders'') sample_exec_env sample_row empty_pg []) = None"
  by (simp add: Execute_def postgres_executor_def NewPostgresOrderRepository_def create_order_def
      sample_pg_env_def sample_row_def empty_pg_def inserted_row_def row_checks_def int4_def
      next_statement_def Let_def SubmitOrder_def numeral_eq_Suc submitOrderInternal_def kis_post_def
      lossy_kis_def sample_kis_def kis_request_of_def convertOrderType_def sample_exec_env_def case_prod_beta)


theorem Execute_event_lacks_broker_id_witness:
  "\<exists>ord' resp. fst (SubmitOrder sample_kis lossy_kis (kis_request_of ord') []) = KOk resp \<and>
     oe_broker_id (order_event_of ord' OrderStatusSent ''Order submitted successfully'') = []"
proof -
  obtain ord' s' e' where x: "Execute (postgres_executor sample_kis sample_pg_env ''orders'')
      sample_exec_env sample_row empty_pg [] = (None, ord', s', e')"
    using sample_execute_ok by (metis prod.collapse)
  have "o_broker_id sample_row = None" by (simp add: sample_row_def)
  from Execute_event_lacks_broker_id [OF x _ empty_pg_inv this, of sample_pg_env]
  show ?thesis by (auto simp: postgres_executor_def sample_exec_env_def)
qed

definition live_pg :: pg where
  "live_pg = \<lparr>pg_tick = 5, pg_orders = [sample_row\<lparr>o_status := OrderStatusSent, o_broker_id := Some ''42''\<rparr>],
     pg_audit = []\<rparr>"

lemma live_pg_inv: "pg_inv live_pg"
  by (simp add: pg_inv_def live_pg_def sample_row_def row_checks_def int4_def audit_inv_def audit_of_def)

lemma live_pg_cancel:
  "update_order_status sample_pg_env ''k'' OrderStatusCancelled ''why'' (next_statement live_pg) =
     (None, snd (update_order_status sample_pg_env ''k'' OrderStatusCancelled ''why'' (next_statement live_pg)))"
  by (simp add: update_order_status_def update_order_def live_pg_def sample_row_def sample_pg_env_def
      set_status_def row_checks_def int4_def next_statement_def Let_def)


theorem Cancel_despite_broker_error_witness:
  "fst (Cancel (postgres_executor sample_kis sample_pg_env ''orders'') sample_exec_env
     ''k'' ''why'' live_pg []) = None"
proof -
  have g: "get_order sample_pg_env ''k'' live_pg
      = (Inr (sample_row\<lparr>o_status := OrderStatusSent, o_broker_id := Some ''42''\<rparr>), next_statement live_pg)"
    by (simp add: get_order_def live_pg_def sample_row_def sample_pg_env_def Let_def)
  obtain e1 where "kis_CancelOrder sample_kis (ex_kis sample_exec_env) ''42'' [] = (KErr KisExecuteFailed, e1)"
    by (simp add: kis_CancelOrder_def kis_post_def lossy_kis_def sample_kis_def sample_exec_env_def Let_def)
  from Cancel_despite_broker_error [where topic = "''orders''", OF g _ _ this live_pg_cancel]
  show ?thesis by auto
qed

end
