(* ===== verification/Order_Handler.thy ===== *)
theory Order_Handler
  imports Risk_Engine Rate_Limiter Order_Executor "HOL-Library.Multiset"
begin

text \<open>
  The gRPC front of the order management service: the handler of
  \<open>internal/grpc/handler.go\<close> (validation, rate limit, risk check, execution, one response) and
  the interceptors of \<open>internal/grpc/interceptors.go\<close> that decide the user id.  The world of the
  handler is a triple: Redis and the clock, the repository, and the broker with Kafka.  Orders of
  a stream run in goroutines of their own, so besides the sequential handler there is a step
  relation over their phases.
\<close>

subsection \<open>Messages\<close>

text \<open>Enumerations of \<open>order.proto\<close> are open: any 32-bit number can arrive.\<close>

definition Side_BUY :: int where "Side_BUY = 0"
definition Side_SELL :: int where "Side_SELL = 1"
definition OrderType_LIMIT :: int where "OrderType_LIMIT = 0"
definition OrderType_MARKET :: int where "OrderType_MARKET = 1"

datatype pb_status =
    PB_PENDING | PB_ACCEPTED | PB_REJECTED | PB_PARTIALLY_FILLED | PB_FILLED | PB_CANCELLED

record order_msg =
  rq_id :: string
  rq_symbol :: string
  rq_side :: int
  rq_type :: int
  rq_price :: f64
  rq_quantity :: int
  rq_strategy_id :: string
  rq_timestamp :: int

record order_reply =
  rs_order_id :: string
  rs_request_id :: string
  rs_status :: pb_status
  rs_filled_price :: f64
  rs_filled_quantity :: int
  rs_message :: string
  rs_timestamp :: int

subsection \<open>The handler\<close>

record ('w, 's, 'e) handler =
  h_engine :: "'w engine"
  h_limiter :: limiter
  h_redis :: "'w redis"
  h_now :: "'w \<Rightarrow> instant"
  h_executor :: "'s executor"
  h_env :: "'e exec_env"
  h_risk_text :: "risk_error \<Rightarrow> string"
  h_exec_text :: "exec_error \<Rightarrow> string"

type_synonym ('w, 's, 'e) oms_world = "'w \<times> 's \<times> 'e"

datatype handler_error =
    HandlerConfigNil | RiskEngineNil | RateLimiterNil | OrderExecutorNil | RepositoryNil

definition NewOrderServiceHandler ::
  "('a option \<times> 'b option \<times> 'c option \<times> 'd option) option \<Rightarrow> handler_error + 'a \<times> 'b \<times> 'c \<times> 'd" where
  "NewOrderServiceHandler config = (case config of
     None \<Rightarrow> Inl HandlerConfigNil
   | Some (None, _, _, _) \<Rightarrow> Inl RiskEngineNil
   | Some (Some eng, None, _, _) \<Rightarrow> Inl RateLimiterNil
   | Some (Some eng, Some lmt, None, _) \<Rightarrow> Inl OrderExecutorNil
   | Some (Some eng, Some lmt, Some ex, None) \<Rightarrow> Inl RepositoryNil
   | Some (Some eng, Some lmt, Some ex, Some repo) \<Rightarrow> Inr (eng, lmt, ex, repo))"

definition validateRequest :: "order_msg \<Rightarrow> string option" where
  "validateRequest req =
     (if rq_id req = [] then Some ''order ID is required''
      else if rq_symbol req = [] then Some ''symbol is required''
      else if rq_quantity req \<le> 0 then Some ''quantity must be positive''
      else if rq_type req = OrderType_LIMIT \<and> f_le (rq_price req) (f_of_int 0)
      then Some ''price is required for limit orders''
      else None)"

definition convertSide :: "int \<Rightarrow> order_side" where
  "convertSide side = (if side = Side_BUY then OrderSideBuy
     else if side = Side_SELL then OrderSideSell else OrderSideBuy)"

definition convert_order_type :: "int \<Rightarrow> order_type" where
  "convert_order_type t = (if t = OrderType_LIMIT then OrderTypeLimit
     else if t = OrderType_MARKET then OrderTypeMarket else OrderTypeLimit)"

fun convertStatus :: "order_status \<Rightarrow> pb_status" where
  "convertStatus OrderStatusPending = PB_PENDING"
| "convertStatus OrderStatusSent = PB_ACCEPTED"
| "convertStatus OrderStatusFilled = PB_FILLED"
| "convertStatus OrderStatusRejected = PB_REJECTED"
| "convertStatus OrderStatusCancelled = PB_CANCELLED"

definition protoToOrder :: "order_msg \<Rightarrow> string \<Rightarrow> order" where
  "protoToOrder req userID =
     \<lparr>o_id = rq_id req, o_user = userID,
      o_strategy = (if rq_strategy_id req \<noteq> [] then Some (rq_strategy_id req) else None),
      o_symbol = rq_symbol req, o_side = convertSide (rq_side req),
      o_type = convert_order_type (rq_type req),
      o_price = (if rq_type req = OrderType_LIMIT then Some (rq_price req) else None),
      o_quantity = rq_quantity req, o_status = OrderStatusPending, o_broker_id = None,
      o_filled_price = None, o_filled_quantity = None, o_reject_reason = None,
      o_created_at = zero_time, o_updated_at = zero_time\<rparr>"

definition orderToProto :: "instant \<Rightarrow> order \<Rightarrow> order_reply" where
  "orderToProto now ord =
     \<lparr>rs_order_id = o_id ord, rs_request_id = o_id ord, rs_status = convertStatus (o_status ord),
      rs_filled_price = (case o_filled_price ord of None \<Rightarrow> f_of_int 0 | Some p \<Rightarrow> p),
      rs_filled_quantity = (case o_filled_quantity ord of None \<Rightarrow> 0 | Some q \<Rightarrow> q),
      rs_message = (case o_reject_reason ord of None \<Rightarrow> [] | Some r \<Rightarrow> r),
      rs_timestamp = now div Second\<rparr>"

definition sendResponse :: "instant \<Rightarrow> string \<Rightarrow> pb_status \<Rightarrow> string \<Rightarrow> order_reply" where
  "sendResponse now orderID status message =
     \<lparr>rs_order_id = orderID, rs_request_id = orderID, rs_status = status,
      rs_filled_price = f_of_int 0, rs_filled_quantity = 0, rs_message = message,
      rs_timestamp = now div Second\<rparr>"

text \<open>
  \<open>processOrder\<close>: the replies it sends and the world it leaves; \<open>True\<close> when it panics.
\<close>

definition processOrder ::
  "('w, 's, 'e) handler \<Rightarrow> order_msg \<Rightarrow> string \<Rightarrow> ('w, 's, 'e) oms_world \<Rightarrow>
     (order_reply list \<times> bool) \<times> ('w, 's, 'e) oms_world" where
  "processOrder h req userID world =
     (case world of (w, s, e) \<Rightarrow>
        (case validateRequest req of
           Some msg \<Rightarrow> (([sendResponse (h_now h w) (rq_id req) PB_REJECTED msg], False), (w, s, e))
         | None \<Rightarrow>
             (case Allow (h_limiter h) (h_redis h) userID (h_now h w) w of
                (Inl err, w1) \<Rightarrow>
                  (([sendResponse (h_now h w1) (rq_id req) PB_REJECTED ''rate limit check failed''], False),
                   (w1, s, e))
              | (Inr False, w1) \<Rightarrow>
                  (([sendResponse (h_now h w1) (rq_id req) PB_REJECTED ''rate limit exceeded''], False),
                   (w1, s, e))
              | (Inr True, w1) \<Rightarrow>
                  (case engine_validate (h_engine h) (protoToOrder req userID) w1 of
                     (Some err, w2) \<Rightarrow>
                       (([sendResponse (h_now h w2) (rq_id req) PB_REJECTED
                           (''risk check failed: '' @ h_risk_text h err)], False), (w2, s, e))
                   | (None, w2) \<Rightarrow>
                       (case Execute (h_executor h) (h_env h) (protoToOrder req userID) s e of
                          (Some ExecPanic, _, s1, e1) \<Rightarrow> (([], True), (w2, s1, e1))
                        | (Some err, _, s1, e1) \<Rightarrow>
                            (([sendResponse (h_now h w2) (rq_id req) PB_REJECTED
                                (''execution failed: '' @ h_exec_text h err)], False), (w2, s1, e1))
                        | (None, _, s1, e1) \<Rightarrow>
                            (([sendResponse (h_now h w2) (rq_id req) PB_ACCEPTED
                                ''order submitted successfully''], False), (w2, s1, e1)))))))"

subsection \<open>Orders in goroutines\<close>

text \<open>The calls of \<open>processOrder\<close> as the points where other goroutines can run in between.\<close>

datatype phase = PValidate | PRateLimit | PRisk | PExecute | PDone pb_status | PCrashed

definition advance ::
  "('w, 's, 'e) handler \<Rightarrow> order_msg \<Rightarrow> string \<Rightarrow> phase \<Rightarrow> ('w, 's, 'e) oms_world \<Rightarrow>
     phase \<times> order_reply list \<times> ('w, 's, 'e) oms_world" where
  "advance h req userID ph world =
     (case world of (w, s, e) \<Rightarrow>
        (case ph of
           PValidate \<Rightarrow>
             (case validateRequest req of
                Some msg \<Rightarrow> (PDone PB_REJECTED,
                  [sendResponse (h_now h w) (rq_id req) PB_REJECTED msg], (w, s, e))
              | None \<Rightarrow> (PRateLimit, [], (w, s, e)))
         | PRateLimit \<Rightarrow>
             (case Allow (h_limiter h) (h_redis h) userID (h_now h w) w of
                (Inl err, w1) \<Rightarrow> (PDone PB_REJECTED,
                  [sendResponse (h_now h w1) (rq_id req) PB_REJECTED ''rate limit check failed''], (w1, s, e))
              | (Inr False, w1) \<Rightarrow> (PDone PB_REJECTED,
                  [sendResponse (h_now h w1) (rq_id req) PB_REJECTED ''rate limit exceeded''], (w1, s, e))
              | (Inr True, w1) \<Rightarrow> (PRisk, [], (w1, s, e)))
         | PRisk \<Rightarrow>
             (case engine_validate (h_engine h) (protoToOrder req userID) w of
                (Some err, w2) \<Rightarrow> (PDone PB_REJECTED,
                  [sendResponse (h_now h w2) (rq_id req) PB_REJECTED
                     (''risk check failed: '' @ h_risk_text h err)], (w2, s, e))
              | (None, w2) \<Rightarrow> (PExecute, [], (w2, s, e)))
         | PExecute \<Rightarrow>
             (case Execute (h_executor h) (h_env h) (protoToOrder req userID) s e of
                (Some ExecPanic, _, s1, e1) \<Rightarrow> (PCrashed, [], (w, s1, e1))
              | (Some err, _, s1, e1) \<Rightarrow> (PDone PB_REJECTED,
                  [sendResponse (h_now h w) (rq_id req) PB_REJECTED
                     (''execution failed: '' @ h_exec_text h err)], (w, s1, e1))
              | (None, _, s1, e1) \<Rightarrow> (PDone PB_ACCEPTED,
                  [sendResponse (h_now h w) (rq_id req) PB_ACCEPTED ''order submitted successfully''],
                  (w, s1, e1)))
         | PDone st \<Rightarrow> (PDone st, [], (w, s, e))
         | PCrashed \<Rightarrow> (PCrashed, [], (w, s, e))))"

fun advance_n ::
  "nat \<Rightarrow> ('w, 's, 'e) handler \<Rightarrow> order_msg \<Rightarrow> string \<Rightarrow> phase \<Rightarrow> ('w, 's, 'e) oms_world \<Rightarrow>
     phase \<times> order_reply list \<times> ('w, 's, 'e) oms_world" where
  "advance_n 0 h req userID ph world = (ph, [], world)"
| "advance_n (Suc n) h req userID ph world =
     (let (ph1, out1, world1) = advance h req userID ph world;
          (ph2, out2, world2) = advance_n n h req userID ph1 world1
      in (ph2, out1 @ out2, world2))"

text \<open>
  A stream: the goroutines it has started with their phases, the replies sent so far, and the
  world they share.  A step receives an order or runs one goroutine to its next point; other
  clients may change the world at any time.
\<close>

record ('w, 's, 'e) stream_state =
  st_tasks :: "(order_msg \<times> phase) list"
  st_out :: "order_reply list"
  st_world :: "('w, 's, 'e) oms_world"

inductive stream_step ::
  "('w, 's, 'e) handler \<Rightarrow> string \<Rightarrow> ('w, 's, 'e) stream_state \<Rightarrow> ('w, 's, 'e) stream_state \<Rightarrow> bool"
  for h userID where
  step_recv: "stream_step h userID st (st\<lparr>st_tasks := st_tasks st @ [(req, PValidate)]\<rparr>)"
| step_run: "i < length (st_tasks st) \<Longrightarrow> st_tasks st ! i = (req, ph) \<Longrightarrow>
    advance h req userID ph (st_world st) = (ph', out, world') \<Longrightarrow>
    stream_step h userID st (st\<lparr>st_tasks := (st_tasks st)[i := (req, ph')],
      st_out := st_out st @ out, st_world := world'\<rparr>)"
| step_other: "stream_step h userID st (st\<lparr>st_world := world'\<rparr>)"

inductive stream_reach ::
  "('w, 's, 'e) handler \<Rightarrow> string \<Rightarrow> ('w, 's, 'e) oms_world \<Rightarrow> ('w, 's, 'e) stream_state \<Rightarrow> bool"
  for h userID world where
  reach_init: "stream_reach h userID world \<lparr>st_tasks = [], st_out = [], st_world = world\<rparr>"
| reach_step: "stream_reach h userID world st \<Longrightarrow> stream_step h userID st st' \<Longrightarrow>
    stream_reach h userID world st'"

inductive_cases stream_stepE: "stream_step h userID st st'"

subsection \<open>The receiving loop and the table of streams\<close>

datatype recv = RecvOrder order_msg | RecvEOF | RecvError | CtxDone

datatype stream_end = StreamOK | StreamInternal

text \<open>The orders \<open>StreamOrders\<close> hands to goroutines, and how it ends (\<open>None\<close> while it still runs).\<close>

fun StreamOrders :: "recv list \<Rightarrow> order_msg list \<times> stream_end option" where
  "StreamOrders [] = ([], None)"
| "StreamOrders (CtxDone # rs) = ([], Some StreamOK)"
| "StreamOrders (RecvEOF # rs) = ([], Some StreamOK)"
| "StreamOrders (RecvError # rs) = ([], Some StreamInternal)"
| "StreamOrders (RecvOrder req # rs) = (let (qs, r) = StreamOrders rs in (req # qs, r))"

definition stream_connect :: "string \<Rightarrow> 'c \<Rightarrow> (string \<Rightarrow> 'c option) \<Rightarrow> (string \<Rightarrow> 'c option)" where
  "stream_connect userID stream m = m(userID \<mapsto> stream)"

definition stream_disconnect :: "string \<Rightarrow> (string \<Rightarrow> 'c option) \<Rightarrow> (string \<Rightarrow> 'c option)" where
  "stream_disconnect userID m = m(userID := None)"

subsection \<open>The interceptors\<close>

text \<open>Request metadata, and the context values the interceptors write.\<close>

type_synonym metadata = "string \<Rightarrow> string list"

record grpc_ctx =
  cx_metadata :: "metadata option"
  cx_request_id :: "string option"
  cx_user_id :: "string option"

datatype grpc_error = Unauthenticated string | GrpcInternal string

definition GetUserID :: "grpc_ctx \<Rightarrow> string" where
  "GetUserID ctx = (case cx_user_id ctx of Some u \<Rightarrow> u | None \<Rightarrow> [])"

definition GetRequestID :: "grpc_ctx \<Rightarrow> string" where
  "GetRequestID ctx = (case cx_request_id ctx of Some u \<Rightarrow> u | None \<Rightarrow> [])"

definition LoggingInterceptor ::
  "string \<Rightarrow> (grpc_ctx \<Rightarrow> grpc_error option) \<Rightarrow> grpc_ctx \<Rightarrow> grpc_error option" where
  "LoggingInterceptor request_id handler ctx =
     (let userID = (case cx_metadata ctx of
            None \<Rightarrow> []
          | Some md \<Rightarrow> (case md ''user-id'' of [] \<Rightarrow> [] | u # _ \<Rightarrow> u))
      in handler (ctx\<lparr>cx_request_id := Some request_id, cx_user_id := Some userID\<rparr>))"

definition stub_validateToken :: "string \<Rightarrow> unit + string" where
  "stub_validateToken token = (if token = [] then Inl () else Inr ''user-123'')"

definition AuthenticationInterceptor ::
  "(grpc_ctx \<Rightarrow> grpc_error option) \<Rightarrow> grpc_ctx \<Rightarrow> grpc_error option" where
  "AuthenticationInterceptor handler ctx =
     (case cx_metadata ctx of
        None \<Rightarrow> Some (Unauthenticated ''metadata not found'')
      | Some md \<Rightarrow>
          (case md ''authorization'' of
             [] \<Rightarrow> handler ctx
           | token # _ \<Rightarrow>
               (case stub_validateToken token of
                  Inl _ \<Rightarrow> Some (Unauthenticated ''invalid token'')
                | Inr userID \<Rightarrow> handler (ctx\<lparr>cx_user_id := Some userID\<rparr>))))"

definition MetricsInterceptor ::
  "(grpc_ctx \<Rightarrow> grpc_error option) \<Rightarrow> grpc_ctx \<Rightarrow> grpc_error option" where
  "MetricsInterceptor handler ctx = handler ctx"

text \<open>A handler that may panic; the recovery interceptor turns a panic into an error.\<close>

definition RecoveryInterceptor ::
  "(grpc_ctx \<Rightarrow> grpc_error option option) \<Rightarrow> grpc_ctx \<Rightarrow> grpc_error option" where
  "RecoveryInterceptor handler ctx =
     (case handler ctx of None \<Rightarrow> Some (GrpcInternal ''internal server error'') | Some r \<Rightarrow> r)"

text \<open>The chain of \<open>NewServer\<close>, the first interceptor outermost.\<close>

definition interceptor_chain ::
  "string \<Rightarrow> (grpc_ctx \<Rightarrow> grpc_error option) \<Rightarrow> grpc_ctx \<Rightarrow> grpc_error option" where
  "interceptor_chain request_id handler =
     RecoveryInterceptor (\<lambda>ctx. Some (LoggingInterceptor request_id
       (AuthenticationInterceptor (MetricsInterceptor handler)) ctx))"

subsection \<open>Properties\<close>

text \<open>
  C1. One answer per order, and what an acceptance means.  Unless it panics, \<open>processOrder\<close> sends
  exactly one reply, which carries the client's order id and is either a rejection or an
  acceptance; it is an acceptance exactly when the request is well formed, the limiter grants
  the user one token, every risk rule passes and the execution succeeds.
\<close>

theorem processOrder_answers:
  assumes "processOrder h req userID (w, s, e) = ((out, panicked), world')"
  shows "(panicked \<longrightarrow> out = []) \<and>
    (\<not> panicked \<longrightarrow> (\<exists>r. out = [r] \<and> rs_order_id r = rq_id req \<and>
       rs_status r \<in> {PB_ACCEPTED, PB_REJECTED} \<and>
       (rs_status r = PB_ACCEPTED \<longleftrightarrow>
          validateRequest req = None \<and>
          (\<exists>w1 w2. Allow (h_limiter h) (h_redis h) userID (h_now h w) w = (Inr True, w1) \<and>
             engine_validate (h_engine h) (protoToOrder req userID) w1 = (None, w2) \<and>
             fst (Execute (h_executor h) (h_env h) (protoToOrder req userID) s e) = None))))"
  using assms
  by (auto simp: processOrder_def sendResponse_def
      split: option.splits prod.splits sum.splits bool.splits exec_error.splits)

text \<open>
  Rejections before execution cost nothing downstream: an order that fails the request check,
  the rate limit or a risk rule changes neither the database nor the broker's world, and a
  malformed one does not even consume a token.
\<close>

theorem early_rejection_has_no_effect:
  assumes "processOrder h req userID (w, s, e) = ((out, False), (w', s', e'))"
    and "validateRequest req \<noteq> None \<or>
      fst (Allow (h_limiter h) (h_redis h) userID (h_now h w) w) \<noteq> Inr True \<or>
      fst (engine_validate (h_engine h) (protoToOrder req userID)
        (snd (Allow (h_limiter h) (h_redis h) userID (h_now h w) w))) \<noteq> None"
  shows "s' = s \<and> e' = e \<and> (validateRequest req \<noteq> None \<longrightarrow> w' = w)"
  using assms
  by (auto simp: processOrder_def split: option.splits prod.splits sum.splits bool.splits)


text \<open>
  The goroutine's phases are the handler: four steps without interference compute exactly what
  \<open>processOrder\<close> computes.
\<close>

theorem processOrder_is_its_phases:
  "advance_n 4 h req userID PValidate world =
     (case processOrder h req userID world of
        ((out, panicked), world') \<Rightarrow>
          (if panicked then PCrashed
           else PDone (if \<exists>r \<in> set out. rs_status r = PB_ACCEPTED then PB_ACCEPTED else PB_REJECTED),
           out, world'))"
proof -
  obtain w s e where w: "world = (w, s, e)" by (cases world)
  have four: "advance_n 4 h req userID PValidate world =
      advance_n (Suc (Suc (Suc (Suc 0)))) h req userID PValidate world"
    by (simp add: numeral_eq_Suc)
  obtain r w1 where a: "Allow (h_limiter h) (h_redis h) userID (h_now h w) w = (r, w1)" by fastforce
  obtain v w2 where v: "engine_validate (h_engine h) (protoToOrder req userID) w1 = (v, w2)" by fastforce
  obtain x o1 s1 e1 where x: "Execute (h_executor h) (h_env h) (protoToOrder req userID) s e = (x, o1, s1, e1)"
    by (metis prod_cases4)
  note defs = advance_def processOrder_def sendResponse_def w a v x
  show ?thesis
  proof (cases "validateRequest req = None \<and> r = Inr True \<and> v = None")
    case True
    show ?thesis
    proof (cases x)
      case None
      with True show ?thesis unfolding four by (simp add: defs)
    next
      case (Some err)
      with True show ?thesis unfolding four by (cases err) (simp_all add: defs)
    qed
  next
    case False
    show ?thesis
    proof (cases "validateRequest req")
      case valid: None
      show ?thesis
      proof (cases r)
        case (Inr b)
        with valid False show ?thesis unfolding four by (cases b; cases v) (simp_all add: defs)
      qed (unfold four, use valid in \<open>simp add: defs\<close>)
    qed (unfold four, simp add: defs)
  qed
qed

lemma advance_reply:
  "advance h req userID ph world = (ph', out, world') \<Longrightarrow>
   (out = [] \<and> ((\<exists>st. ph' = PDone st) \<longrightarrow> ph' = ph) \<and> ((\<exists>st. ph = PDone st) \<longrightarrow> ph' = ph)) \<or>
   ((\<exists>r st. out = [r] \<and> ph' = PDone st \<and> rs_order_id r = rq_id req \<and> rs_status r = st \<and>
      (\<forall>st'. ph \<noteq> PDone st')))"
  by (cases world; cases ph)
    (auto simp: advance_def sendResponse_def
      split: option.splits prod.splits sum.splits bool.splits exec_error.splits)

definition answered :: "(order_msg \<times> phase) list \<Rightarrow> (string \<times> pb_status) multiset" where
  "answered ts = mset (concat (map (\<lambda>(req, ph).
     case ph of PDone st \<Rightarrow> [(rq_id req, st)] | _ \<Rightarrow> []) ts))"

lemma answered_append: "answered (ts @ us) = answered ts + answered us"
  by (simp add: answered_def)

lemma answered_Cons: "answered (t # ts) = answered [t] + answered ts"
  using answered_append [of "[t]" ts] by simp

lemma answered_update:
  assumes "i < length ts"
  shows "answered (ts[i := t]) + answered [ts ! i] = answered ts + answered [t]"
proof -
  have "ts = take i ts @ ts ! i # drop (Suc i) ts" using assms by (rule id_take_nth_drop)
  then have ts: "answered ts = answered (take i ts) + (answered [ts ! i] + answered (drop (Suc i) ts))"
    by (metis answered_append answered_Cons)
  have "ts[i := t] = take i ts @ t # drop (Suc i) ts" using assms by (rule upd_conv_take_nth_drop)
  then have "answered (ts[i := t]) = answered (take i ts) + (answered [t] + answered (drop (Suc i) ts))"
    by (metis answered_append answered_Cons)
  with ts show ?thesis by simp
qed



text \<open>
  Who a stream belongs to.  Behind the interceptors of the server, a request with an
  authorization token runs as \<open>user-123\<close> whatever the token says, and a request without one runs
  as the user named in its own metadata: any client can act as any user.
\<close>

theorem interceptors_trust_the_client:
  assumes "cx_metadata ctx = Some md" "md ''user-id'' = [victim]" "md ''authorization'' = auth"
    and "auth = [] \<or> (\<exists>token rest. auth = token # rest \<and> token \<noteq> [])"
  shows "\<exists>ctx'. interceptor_chain rid handler ctx = handler ctx' \<and>
     GetUserID ctx' = (if auth = [] then victim else ''user-123'')"
  using assms
  by (auto simp: interceptor_chain_def RecoveryInterceptor_def LoggingInterceptor_def
      AuthenticationInterceptor_def MetricsInterceptor_def stub_validateToken_def GetUserID_def Let_def
      intro!: exI)

text \<open>
  A user's newer stream is dropped from the table by the end of the older one: after two
  connections of one user and the disconnection of the first, the user has no entry although the
  second stream is open.
\<close>

theorem second_stream_forgotten:
  "stream_disconnect userID (stream_connect userID s2 (stream_connect userID s1 m)) userID = None"
  by (simp add: stream_disconnect_def stream_connect_def)

subsection \<open>Concrete runs\<close>

definition sample_handler :: "(hashes, pg, http_request list) handler" where
  "sample_handler = \<lparr>h_engine = \<lparr>eng_rules = [], eng_config = sample_config, eng_enabled = False\<rparr>,
     h_limiter = sample_limiter, h_redis = hash_redis, h_now = (\<lambda>w. 0),
     h_executor = postgres_executor sample_kis sample_pg_env ''orders'', h_env = sample_exec_env,
     h_risk_text = (\<lambda>e. []), h_exec_text = (\<lambda>e. [])\<rparr>"

definition sample_msg :: order_msg where
  "sample_msg = \<lparr>rq_id = ''r-1'', rq_symbol = ''005930'', rq_side = 0, rq_type = 0, rq_price = NaN,
     rq_quantity = 10, rq_strategy_id = [], rq_timestamp = 0\<rparr>"

theorem processOrder_answers_witness:
  "\<exists>r. fst (processOrder sample_handler (sample_msg\<lparr>rq_quantity := 0\<rparr>) ''u'' (Map.empty, empty_pg, []))
       = ([r], False) \<and> rs_status r \<noteq> PB_ACCEPTED"
proof -
  obtain r world' where p: "processOrder sample_handler (sample_msg\<lparr>rq_quantity := 0\<rparr>) ''u''
      (Map.empty, empty_pg, []) = (([r], False), world')"
    by (simp add: processOrder_def validateRequest_def sample_msg_def)
  from processOrder_answers [OF p] p show ?thesis
    by (auto simp: validateRequest_def sample_msg_def)
qed

theorem early_rejection_has_no_effect_witness:
  "snd (processOrder sample_handler (sample_msg\<lparr>rq_quantity := 0\<rparr>) ''u'' (Map.empty, empty_pg, []))
     = (Map.empty, empty_pg, [])"
proof -
  obtain r w' s' e' where p: "processOrder sample_handler (sample_msg\<lparr>rq_quantity := 0\<rparr>) ''u''
      (Map.empty, empty_pg, []) = ((r, False), (w', s', e'))"
    by (simp add: processOrder_def validateRequest_def sample_msg_def)
  from early_rejection_has_no_effect [OF p] p show ?thesis
    by (auto simp: validateRequest_def sample_msg_def)
qed



theorem interceptors_trust_the_client_witness:
  "interceptor_chain ''rid'' (\<lambda>ctx. Some (GrpcInternal (GetUserID ctx)))
     \<lparr>cx_metadata = Some ((\<lambda>k. [])(''user-id'' := [''victim''])), cx_request_id = None, cx_user_id = None\<rparr>
   = Some (GrpcInternal ''victim'')"
  using interceptors_trust_the_client [of "\<lparr>cx_metadata = Some ((\<lambda>k. [])(''user-id'' := [''victim''])),
      cx_request_id = None, cx_user_id = None\<rparr>" _ "''victim''" "[]" "''rid''"
      "\<lambda>ctx. Some (GrpcInternal (GetUserID ctx))"]
  by auto

end
