(* ===== verification/Jwt_Interceptor.thy ===== *)
theory Jwt_Interceptor
  imports Redis_Api Go_Strings
begin

text \<open>
  The JWT interceptor of \<open>order-management-service/internal/grpc/interceptors/auth.go\<close>: the checks a
  token has to pass, and the revocation list in Redis with its clean-up.  The JWT library is a
  parameter: what a token text says before verification, and whether its signature and the
  registered claims verify under a key.
\<close>

datatype json = JNull | JBool bool | JNum f64 | JStr string | JArr "json list"

type_synonym claims = "string \<Rightarrow> json option"

record unverified_token =
  ut_hmac :: bool
  ut_alg :: string
  ut_claims :: claims

record ('w) jwt_env =
  jw_decode :: "string \<Rightarrow> unverified_token option"
  jw_verify :: "string \<Rightarrow> string \<Rightarrow> 'w \<Rightarrow> bool"
  jw_now :: "'w \<Rightarrow> instant"

record 'w auth_interceptor =
  ai_secret :: string
  ai_issuer :: string
  ai_audience :: string
  ai_redis :: "'w redis option"

datatype auth_error =
    MissingMetadata | MissingHeader | InvalidFormat | InvalidToken | MissingExp | TokenExpired
  | TokenNotYetValid | IssuedInFuture | InvalidIssuer | InvalidAudience | MissingSubject
  | TokenRevoked | UserBlocked

definition NewAuthInterceptor ::
  "string \<Rightarrow> string \<Rightarrow> string \<Rightarrow> 'w redis option \<Rightarrow> 'w auth_interceptor" where
  "NewAuthInterceptor secret issuer audience redis =
     \<lparr>ai_secret = secret, ai_issuer = issuer, ai_audience = audience, ai_redis = redis\<rparr>"

definition publicMethods :: "string \<Rightarrow> bool" where
  "publicMethods m \<longleftrightarrow> m \<in> {''/grpc.health.v1.Health/Check'', ''/grpc.health.v1.Health/Watch'',
     ''/grpc.reflection.v1alpha.ServerReflection/ServerReflectionInfo''}"

subsection \<open>Go's standard library\<close>

text \<open>
  \<open>int64(x)\<close> of a \<open>float64\<close> truncates; out of range it is the least integer, as amd64 computes it.
\<close>

fun f_to_int64 :: "f64 \<Rightarrow> int" where
  "f_to_int64 (Fin s m) =
     (let n = (if s then - \<lfloor>m\<rfloor> else \<lfloor>m\<rfloor>) in
      if - (2 ^ 63) \<le> n \<and> n < 2 ^ 63 then n else - (2 ^ 63))"
| "f_to_int64 _ = - (2 ^ 63)"

text \<open>\<open>time.Unix(sec, 0)\<close> counts from the year 1 in 64 bits, so the last seconds of the range wrap.\<close>

definition unix_time :: "int \<Rightarrow> instant" where
  "unix_time sec = (wrap64 (sec + 62135596800) - 62135596800) * Second"

subsection \<open>Parsing\<close>

text \<open>The key function handed to the library: only HMAC, and of it only HS256.\<close>

definition jwt_keyfunc :: "'w auth_interceptor \<Rightarrow> unverified_token \<Rightarrow> auth_error + string" where
  "jwt_keyfunc i t =
     (if \<not> ut_hmac t then Inl InvalidToken
      else if ut_alg t \<noteq> ''HS256'' then Inl InvalidToken
      else Inr (ai_secret i))"

text \<open>\<open>jwt.Parse\<close> with \<open>WithValidMethods(["HS256"])\<close>.\<close>

definition jwt_parse ::
  "'w jwt_env \<Rightarrow> 'w auth_interceptor \<Rightarrow> string \<Rightarrow> 'w \<Rightarrow> claims option" where
  "jwt_parse env i text w =
     (case jw_decode env text of
        None \<Rightarrow> None
      | Some t \<Rightarrow>
          if ut_alg t \<notin> {''HS256''} then None
          else (case jwt_keyfunc i t of
             Inl _ \<Rightarrow> None
           | Inr key \<Rightarrow> if jw_verify env text key w then Some (ut_claims t) else None))"

subsection \<open>Revocation and blocking\<close>

definition isTokenRevoked :: "'w auth_interceptor \<Rightarrow> string \<Rightarrow> 'w \<Rightarrow> bool redis_result \<times> 'w" where
  "isTokenRevoked i jti w =
     (case ai_redis i of
        None \<Rightarrow> (ROk False, w)
      | Some redis \<Rightarrow>
          (let (reply, w') = redis (SISMEMBER ''revoked_tokens'' jti) w in
           (case int_result reply of ROk n \<Rightarrow> ROk (n \<noteq> 0) | _ \<Rightarrow> RFail, w')))"

definition isUserBlocked :: "'w auth_interceptor \<Rightarrow> string \<Rightarrow> 'w \<Rightarrow> bool redis_result \<times> 'w" where
  "isUserBlocked i userID w =
     (case ai_redis i of
        None \<Rightarrow> (ROk False, w)
      | Some redis \<Rightarrow>
          (let (reply, w') = redis (SISMEMBER ''blocked_users'' userID) w in
           (case int_result reply of ROk n \<Rightarrow> ROk (n \<noteq> 0) | _ \<Rightarrow> RFail, w')))"

definition revoked_key :: "string \<Rightarrow> string" where
  "revoked_key jti = ''revoked_token:'' @ jti"

text \<open>\<open>RevokeToken\<close> in its two calls; on success it starts the clean-up in the background.\<close>

definition revoke_add :: "'w auth_interceptor \<Rightarrow> string \<Rightarrow> 'w \<Rightarrow> bool \<times> 'w" where
  "revoke_add i jti w = (case ai_redis i of
     None \<Rightarrow> (True, w)
   | Some redis \<Rightarrow> (let (reply, w') = redis (SADD ''revoked_tokens'' jti) w in (reply_ok reply, w')))"

definition revoke_set :: "'w auth_interceptor \<Rightarrow> string \<Rightarrow> duration \<Rightarrow> 'w \<Rightarrow> bool \<times> 'w" where
  "revoke_set i jti d w = (case ai_redis i of
     None \<Rightarrow> (True, w)
   | Some redis \<Rightarrow> (let (reply, w') = redis (SETEX (revoked_key jti) ''1'' d) w in (reply_ok reply, w')))"

definition RevokeToken :: "'w auth_interceptor \<Rightarrow> string \<Rightarrow> duration \<Rightarrow> 'w \<Rightarrow> bool \<times> 'w" where
  "RevokeToken i jti d w =
     (let (added, w1) = revoke_add i jti w in
      if \<not> added then (False, w1) else revoke_set i jti d w1)"

fun cleanup_loop :: "'w redis \<Rightarrow> string list \<Rightarrow> 'w \<Rightarrow> 'w" where
  "cleanup_loop redis [] w = w"
| "cleanup_loop redis (jti # jtis) w =
     (let (reply, w1) = redis (EXISTS (revoked_key jti)) w in
      cleanup_loop redis jtis
        (case int_result reply of
           ROk n \<Rightarrow> if n = 0 then snd (redis (SREM ''revoked_tokens'' jti) w1) else w1
         | _ \<Rightarrow> w1))"

definition cleanupExpiredTokens :: "'w auth_interceptor \<Rightarrow> 'w \<Rightarrow> 'w" where
  "cleanupExpiredTokens i w = (case ai_redis i of
     None \<Rightarrow> w
   | Some redis \<Rightarrow> (case redis (SMEMBERS ''revoked_tokens'') w of
       (RStrs jtis, w1) \<Rightarrow> cleanup_loop redis jtis w1
     | (_, w1) \<Rightarrow> w1))"

subsection \<open>Validation\<close>

text \<open>The checks on the claims, in the order of the code; the answer is the subject.\<close>

definition validate_claims :: "'w auth_interceptor \<Rightarrow> instant \<Rightarrow> claims \<Rightarrow> auth_error + string" where
  "validate_claims i now cl =
     (case cl ''exp'' of
        Some (JNum x) \<Rightarrow>
          if unix_time (f_to_int64 x) < now then Inl TokenExpired
          else if (case cl ''nbf'' of Some (JNum b) \<Rightarrow> now < unix_time (f_to_int64 b) | _ \<Rightarrow> False)
          then Inl TokenNotYetValid
          else if (case cl ''iat'' of Some (JNum t) \<Rightarrow> now + 5 * Minute < unix_time (f_to_int64 t) | _ \<Rightarrow> False)
          then Inl IssuedInFuture
          else if cl ''iss'' \<noteq> Some (JStr (ai_issuer i)) then Inl InvalidIssuer
          else if cl ''aud'' \<noteq> Some (JStr (ai_audience i)) then Inl InvalidAudience
          else (case cl ''sub'' of
             Some (JStr userID) \<Rightarrow> if userID = [] then Inl MissingSubject else Inr userID
           | _ \<Rightarrow> Inl MissingSubject)
      | _ \<Rightarrow> Inl MissingExp)"

definition check_revoked :: "'w auth_interceptor \<Rightarrow> claims \<Rightarrow> 'w \<Rightarrow> bool \<times> 'w" where
  "check_revoked i cl w =
     (case cl ''jti'' of
        Some (JStr jti) \<Rightarrow>
          if jti = [] then (False, w)
          else (let (r, w') = isTokenRevoked i jti w in (r = ROk True, w'))
      | _ \<Rightarrow> (False, w))"

definition validateToken ::
  "'w jwt_env \<Rightarrow> 'w auth_interceptor \<Rightarrow> (string \<Rightarrow> string list) option \<Rightarrow> 'w \<Rightarrow>
     (auth_error + string) \<times> 'w" where
  "validateToken env i md w =
     (case md of
        None \<Rightarrow> (Inl MissingMetadata, w)
      | Some headers \<Rightarrow>
          (case headers ''authorization'' of
             [] \<Rightarrow> (Inl MissingHeader, w)
           | h # _ \<Rightarrow>
               (case split_space h of
                  (scheme, Some text) \<Rightarrow>
                    if \<not> equal_fold scheme ''bearer'' then (Inl InvalidFormat, w)
                    else (case jwt_parse env i text w of
                       None \<Rightarrow> (Inl InvalidToken, w)
                     | Some cl \<Rightarrow>
                         (case validate_claims i (jw_now env w) cl of
                            Inl err \<Rightarrow> (Inl err, w)
                          | Inr userID \<Rightarrow>
                              (let (revoked, w1) = check_revoked i cl w in
                               if revoked then (Inl TokenRevoked, w1)
                               else
                                 let (b, w2) = isUserBlocked i userID w1 in
                                 if b = ROk True then (Inl UserBlocked, w2) else (Inr userID, w2))))
                | (_, None) \<Rightarrow> (Inl InvalidFormat, w))))"

text \<open>
  \<open>Unary\<close> and \<open>Stream\<close>: a public method goes straight to the handler, any other one gets the
  validated user id.
\<close>

definition auth_intercept ::
  "'w jwt_env \<Rightarrow> 'w auth_interceptor \<Rightarrow> string \<Rightarrow> (string \<Rightarrow> string list) option \<Rightarrow>
     (string option \<Rightarrow> 'w \<Rightarrow> (auth_error + 'r) \<times> 'w) \<Rightarrow> 'w \<Rightarrow> (auth_error + 'r) \<times> 'w" where
  "auth_intercept env i fullMethod md handler w =
     (if publicMethods fullMethod then handler None w
      else case validateToken env i md w of
        (Inl err, w') \<Rightarrow> (Inl err, w')
      | (Inr userID, w') \<Rightarrow> handler (Some userID) w')"

subsection \<open>Properties\<close>

lemma jwt_parse_Some:
  "jwt_parse env i text w = Some cl \<longleftrightarrow>
     (\<exists>t. jw_decode env text = Some t \<and> ut_hmac t \<and> ut_alg t = ''HS256'' \<and>
        jw_verify env text (ai_secret i) w \<and> cl = ut_claims t)"
  by (auto simp: jwt_parse_def jwt_keyfunc_def split: option.splits)

lemma validate_claims_Inr:
  "validate_claims i now cl = Inr userID \<Longrightarrow>
     (\<exists>x. cl ''exp'' = Some (JNum x) \<and> now \<le> unix_time (f_to_int64 x)) \<and>
     cl ''iss'' = Some (JStr (ai_issuer i)) \<and> cl ''aud'' = Some (JStr (ai_audience i)) \<and>
     cl ''sub'' = Some (JStr userID) \<and> userID \<noteq> []"
  by (cases "cl ''exp''"; cases "cl ''sub''")
    (auto simp: validate_claims_def split: json.splits if_splits)


text \<open>
  Authentication fails open: while Redis answers the membership queries with errors, a revoked
  token and a blocked user are accepted like any other.
\<close>

theorem validateToken_fails_open:
  assumes "md ''authorization'' = (''Bearer '' @ text) # rest"
    and "jwt_parse env i text w = Some cl" "validate_claims i (jw_now env w) cl = Inr userID"
    and "ai_redis i = Some redis" "\<And>s x v. \<exists>e. redis (SISMEMBER s x) v = (RErr e, v)"
  shows "validateToken env i (Some md) w = (Inr userID, w)"
proof -
  have e: "int_result (fst (redis (SISMEMBER s x) v)) = RFail" "snd (redis (SISMEMBER s x) v) = v" for s x v
    using assms(5) [of s x v] by auto
  have "split_space (''Bearer '' @ text) = (''Bearer'', Some text)" by simp
  moreover have "equal_fold ''Bearer'' ''bearer''" by code_simp
  moreover have "check_revoked i cl w = (False, w)"
    by (auto simp: check_revoked_def isTokenRevoked_def assms(4) Let_def case_prod_beta e
        split: option.splits json.splits)
  moreover have "isUserBlocked i userID w = (RFail, w)"
    by (simp add: isUserBlocked_def assms(4) Let_def case_prod_beta e)
  ultimately show ?thesis using assms(1-3) by (simp add: validateToken_def)
qed

text \<open>What the revocation list needs of Redis: \<open>members w\<close> is the set, \<open>live w\<close> the keys that exist.\<close>

definition revocation_store ::
  "'w redis \<Rightarrow> ('w \<Rightarrow> string set) \<Rightarrow> ('w \<Rightarrow> string set) \<Rightarrow> bool" where
  "revocation_store redis members live \<longleftrightarrow>
     (\<forall>w j. fst (redis (SISMEMBER ''revoked_tokens'' j) w) = RInt (if j \<in> members w then 1 else 0)) \<and>
     (\<forall>w j. reply_ok (fst (redis (SADD ''revoked_tokens'' j) w)) \<and>
        members (snd (redis (SADD ''revoked_tokens'' j) w)) = insert j (members w) \<and>
        live (snd (redis (SADD ''revoked_tokens'' j) w)) = live w) \<and>
     (\<forall>w j. members (snd (redis (SREM ''revoked_tokens'' j) w)) = members w - {j} \<and>
        live (snd (redis (SREM ''revoked_tokens'' j) w)) = live w) \<and>
     (\<forall>w. \<exists>js w'. redis (SMEMBERS ''revoked_tokens'') w = (RStrs js, w') \<and> set js = members w \<and>
        members w' = members w \<and> live w' = live w) \<and>
     (\<forall>w k. fst (redis (EXISTS k) w) = RInt (if k \<in> live w then 1 else 0) \<and>
        members (snd (redis (EXISTS k) w)) = members w \<and> live (snd (redis (EXISTS k) w)) = live w) \<and>
     (\<forall>w k v d. 0 < d \<longrightarrow> members (snd (redis (SETEX k v d) w)) = members w \<and>
        live (snd (redis (SETEX k v d) w)) = insert k (live w))"

lemma cleanup_loop_removes:
  assumes "revocation_store redis members live"
  shows "members (cleanup_loop redis js w) = members w - {j \<in> set js. revoked_key j \<notin> live w} \<and>
    live (cleanup_loop redis js w) = live w"
proof (induction js arbitrary: w)
  case (Cons j js)
  let ?w1 = "snd (redis (EXISTS (revoked_key j)) w)"
  have e: "int_result (fst (redis (EXISTS (revoked_key j)) w)) = ROk (if revoked_key j \<in> live w then 1 else 0)"
    "members ?w1 = members w" "live ?w1 = live w"
    using assms by (simp_all add: revocation_store_def)
  have r: "members (snd (redis (SREM ''revoked_tokens'' j) ?w1)) = members w - {j}"
    "live (snd (redis (SREM ''revoked_tokens'' j) ?w1)) = live w"
    using assms e by (simp_all add: revocation_store_def)
  show ?case
    using Cons.IH [of "if revoked_key j \<in> live w then ?w1 else snd (redis (SREM ''revoked_tokens'' j) ?w1)"] e r
    by (auto simp: Let_def case_prod_beta)
qed simp

text \<open>
  Revocation and its race.  \<open>RevokeToken\<close> run without interference revokes the token.  But it adds
  the token to the set before it writes the key the clean-up looks for, so a clean-up of another
  revocation that runs between the two calls removes the new entry, and the token stays valid
  although both calls succeeded.
\<close>

theorem revocation_race:
  assumes "revocation_store redis members live" "ai_redis i = Some redis" "0 < d"
    and "revoked_key jti \<notin> live w"
  shows "fst (isTokenRevoked i jti (snd (RevokeToken i jti d w))) = ROk True \<and>
     fst (isTokenRevoked i jti (snd (revoke_set i jti d
        (cleanupExpiredTokens i (snd (revoke_add i jti w)))))) = ROk False"
proof
  let ?w1 = "snd (redis (SADD ''revoked_tokens'' jti) w)"
  have a: "reply_ok (fst (redis (SADD ''revoked_tokens'' jti) w))" "members ?w1 = insert jti (members w)"
    "live ?w1 = live w"
    using assms(1) by (simp_all add: revocation_store_def)
  have s: "members (snd (redis (SETEX (revoked_key jti) ''1'' d) v)) = members v" for v
    using assms(1,3) by (simp add: revocation_store_def)
  have m: "fst (redis (SISMEMBER ''revoked_tokens'' j) v) = RInt (if j \<in> members v then 1 else 0)" for j v
    using assms(1) by (simp add: revocation_store_def)
  show "fst (isTokenRevoked i jti (snd (RevokeToken i jti d w))) = ROk True"
    using a by (simp add: isTokenRevoked_def RevokeToken_def revoke_add_def revoke_set_def assms(2)
        Let_def case_prod_beta m s)
  obtain js w2 where js: "redis (SMEMBERS ''revoked_tokens'') ?w1 = (RStrs js, w2)"
    "set js = members ?w1" "members w2 = members ?w1" "live w2 = live ?w1"
    using assms(1) unfolding revocation_store_def by meson
  have "jti \<notin> members (cleanup_loop redis js w2)"
    using cleanup_loop_removes [OF assms(1), of js w2] js a assms(4) by auto
  then show "fst (isTokenRevoked i jti (snd (revoke_set i jti d
      (cleanupExpiredTokens i (snd (revoke_add i jti w)))))) = ROk False"
    by (simp add: isTokenRevoked_def revoke_add_def revoke_set_def cleanupExpiredTokens_def assms(2)
        js(1) Let_def case_prod_beta m s)
qed


subsection \<open>Concrete runs\<close>

text \<open>A Redis with one set and a list of live keys; the world is the pair of them.\<close>

fun set_redis :: "(string list \<times> string list) redis" where
  "set_redis (SISMEMBER s j) (m, l) = (RInt (if s = ''revoked_tokens'' \<and> j \<in> set m then 1 else 0), (m, l))"
| "set_redis (SADD s j) (m, l) = (RInt 1, (j # m, l))"
| "set_redis (SREM s j) (m, l) = (RInt 1, (removeAll j m, l))"
| "set_redis (SMEMBERS s) (m, l) = (RStrs m, (m, l))"
| "set_redis (EXISTS k) (m, l) = (RInt (if k \<in> set l then 1 else 0), (m, l))"
| "set_redis (SETEX k v d) (m, l) = (RStatus, (m, k # l))"
| "set_redis _ w = (RErr ''unsupported'', w)"

lemma set_redis_store: "revocation_store set_redis (\<lambda>w. set (fst w)) (\<lambda>w. set (snd w))"
  by (auto simp: revocation_store_def)

definition sample_claims :: claims where
  "sample_claims = [''exp'' \<mapsto> JNum (Fin False 2000), ''iss'' \<mapsto> JStr ''aipx'', ''aud'' \<mapsto> JStr ''oms'',
     ''sub'' \<mapsto> JStr ''u-1'', ''jti'' \<mapsto> JStr ''t-1'']"

definition sample_jwt_env :: "'w jwt_env" where
  "sample_jwt_env = \<lparr>jw_decode = (\<lambda>t. Some \<lparr>ut_hmac = True, ut_alg = ''HS256'', ut_claims = sample_claims\<rparr>),
     jw_verify = (\<lambda>t k w. True), jw_now = (\<lambda>w. 1000 * Second)\<rparr>"

definition sample_interceptor :: "'w redis \<Rightarrow> 'w auth_interceptor" where
  "sample_interceptor redis = NewAuthInterceptor ''secret'' ''aipx'' ''oms'' (Some redis)"

lemmas jwt_sample_defs = sample_claims_def sample_jwt_env_def sample_interceptor_def NewAuthInterceptor_def

lemma sample_parse: "jwt_parse sample_jwt_env (sample_interceptor redis) t w = Some sample_claims"
  by (simp add: jwt_parse_def jwt_keyfunc_def sample_jwt_env_def)

lemma sample_claims_valid:
  "validate_claims (sample_interceptor (redis :: 'w redis)) (jw_now sample_jwt_env (w :: 'w)) sample_claims = Inr ''u-1''"
  by (simp add: validate_claims_def jwt_sample_defs unix_time_def wrap64_def go_simps)

lemma sample_redis: "ai_redis (sample_interceptor redis) = Some redis"
  by (simp add: sample_interceptor_def NewAuthInterceptor_def)

lemma sample_checks:
  "check_revoked (sample_interceptor set_redis) sample_claims ([], []) = (False, ([], []))"
  "isUserBlocked (sample_interceptor set_redis) ''u-1'' ([], []) = (ROk False, ([], []))"
  by (simp_all add: check_revoked_def isTokenRevoked_def isUserBlocked_def sample_redis sample_claims_def)


theorem validateToken_fails_open_witness:
  "fst (validateToken sample_jwt_env (sample_interceptor (\<lambda>c w. (RErr ''down'', w)))
      (Some (\<lambda>k. [''Bearer abc''])) (0 :: nat)) = Inr ''u-1''"
  using validateToken_fails_open [of "\<lambda>k. [''Bearer abc'']" "''abc''" "[]" sample_jwt_env
      "sample_interceptor (\<lambda>c w. (RErr ''down'', w))" "0 :: nat" sample_claims "''u-1''"
      "\<lambda>c w. (RErr ''down'', w)"]
  by (simp add: sample_redis sample_parse sample_claims_valid)

theorem revocation_race_witness:
  "fst (isTokenRevoked (sample_interceptor set_redis) ''t-1''
      (snd (revoke_set (sample_interceptor set_redis) ''t-1'' Hour
        (cleanupExpiredTokens (sample_interceptor set_redis)
          (snd (revoke_add (sample_interceptor set_redis) ''t-1'' ([], []))))))) = ROk False"
  using revocation_race [OF set_redis_store, of "sample_interceptor set_redis" Hour "''t-1''" "([], [])"]
  by (simp add: sample_redis go_simps)

end
