(* ===== verification/Kafka.thy ===== *)
theory Kafka
  imports Prelude
begin

text \<open>
  The Kafka wrappers of \<open>shared/go/pkg/kafka\<close> and their copy in
  \<open>data-recorder-service/internal/pkg/kafka\<close>: the configuration handed to the Sarama client, the
  producer, and the claim loop that calls a message handler and marks offsets.  Sarama itself is
  a parameter.
\<close>

subsection \<open>Configuration\<close>

record sasl_config =
  sasl_enable :: bool
  sasl_mechanism :: string
  sasl_username :: string
  sasl_password :: string
  sasl_handshake :: bool

record 'tls producer_config =
  pc_brokers :: "string list"
  pc_client_id :: string
  pc_compression :: int
  pc_max_message_bytes :: int
  pc_required_acks :: int
  pc_timeout :: duration
  pc_retry_max :: int
  pc_retry_backoff :: duration
  pc_enable_idempotence :: bool
  pc_tls :: "'tls option"
  pc_sasl :: "sasl_config option"
  pc_metadata_refresh :: duration

record 'tls consumer_config =
  cc_brokers :: "string list"
  cc_group_id :: string
  cc_topics :: "string list"
  cc_client_id :: string
  cc_initial_offset :: int
  cc_session_timeout :: duration
  cc_rebalance_timeout :: duration
  cc_heartbeat_interval :: duration
  cc_max_processing_time :: duration
  cc_enable_auto_commit :: bool
  cc_auto_commit_interval :: duration
  cc_tls :: "'tls option"
  cc_sasl :: "sasl_config option"
  cc_metadata_refresh :: duration

text \<open>The fields of \<open>sarama.Config\<close> the code sets; \<open>sarama.NewConfig\<close> is a parameter.\<close>

record 'tls sarama_config =
  sc_client_id :: string
  sc_version :: string
  sc_metadata_refresh :: duration
  sc_tls :: "'tls option"
  sc_sasl :: "(string \<times> string \<times> string \<times> bool) option"
  sc_max_open_requests :: int
  sc_compression :: int
  sc_max_message_bytes :: int
  sc_required_acks :: int
  sc_producer_timeout :: duration
  sc_retry_max :: int
  sc_retry_backoff :: duration
  sc_idempotent :: bool
  sc_return_successes :: bool
  sc_producer_errors :: bool
  sc_session_timeout :: duration
  sc_rebalance_timeout :: duration
  sc_heartbeat_interval :: duration
  sc_max_processing_time :: duration
  sc_initial_offset :: int
  sc_consumer_errors :: bool
  sc_auto_commit :: bool
  sc_auto_commit_interval :: duration

datatype kafka_error =
    ErrProducerClosed | ErrConsumerClosed | ErrInvalidConfig | ErrMessageTooLarge
  | ErrSerializationFailed | ErrDeserializationFailed | ErrContext string

text \<open>\<open>sarama.WaitForAll\<close>, \<open>OffsetNewest\<close> and \<open>OffsetOldest\<close>; the codec number of Snappy is 2.\<close>

definition WaitForAll :: int where "WaitForAll = - 1"
definition OffsetNewest :: int where "OffsetNewest = - 1"
definition OffsetOldest :: int where "OffsetOldest = - 2"
definition CompressionSnappy :: int where "CompressionSnappy = 2"

definition DefaultProducerConfig :: "'tls producer_config" where
  "DefaultProducerConfig =
     \<lparr>pc_brokers = [], pc_client_id = ''aipx-producer'', pc_compression = CompressionSnappy,
      pc_max_message_bytes = 1000000, pc_required_acks = WaitForAll, pc_timeout = 10 * Second,
      pc_retry_max = 3, pc_retry_backoff = 100 * Millisecond, pc_enable_idempotence = True,
      pc_tls = None, pc_sasl = None, pc_metadata_refresh = 10 * Minute\<rparr>"

definition DefaultConsumerConfig :: "string \<Rightarrow> string list \<Rightarrow> 'tls consumer_config" where
  "DefaultConsumerConfig groupID topics =
     \<lparr>cc_brokers = [], cc_group_id = groupID, cc_topics = topics, cc_client_id = ''aipx-consumer'',
      cc_initial_offset = OffsetNewest, cc_session_timeout = 20 * Second,
      cc_rebalance_timeout = 60 * Second, cc_heartbeat_interval = 3 * Second,
      cc_max_processing_time = 30 * Second, cc_enable_auto_commit = False,
      cc_auto_commit_interval = 1 * Second, cc_tls = None, cc_sasl = None,
      cc_metadata_refresh = 10 * Minute\<rparr>"

text \<open>The TLS and SASL part, the same in both conversions.\<close>

definition set_security ::
  "'tls option \<Rightarrow> sasl_config option \<Rightarrow> 'tls sarama_config \<Rightarrow> 'tls sarama_config" where
  "set_security tls sasl sc =
     (let sc1 = (case tls of None \<Rightarrow> sc | Some t \<Rightarrow> sc\<lparr>sc_tls := Some t\<rparr>) in
      case sasl of
        None \<Rightarrow> sc1
      | Some s \<Rightarrow>
          if sasl_enable s then sc1\<lparr>sc_sasl := Some (sasl_mechanism s, sasl_username s,
               sasl_password s, sasl_handshake s)\<rparr>
          else sc1)"

definition ToSaramaProducerConfig ::
  "'tls sarama_config \<Rightarrow> 'tls producer_config \<Rightarrow> kafka_error + 'tls sarama_config" where
  "ToSaramaProducerConfig fresh c =
     (if pc_brokers c = [] then Inl ErrInvalidConfig
      else
        let sc = fresh\<lparr>sc_client_id := pc_client_id c, sc_compression := pc_compression c,
              sc_max_message_bytes := pc_max_message_bytes c, sc_required_acks := pc_required_acks c,
              sc_producer_timeout := pc_timeout c, sc_retry_max := pc_retry_max c,
              sc_retry_backoff := pc_retry_backoff c, sc_idempotent := pc_enable_idempotence c,
              sc_return_successes := True, sc_producer_errors := True,
              sc_metadata_refresh := pc_metadata_refresh c\<rparr>;
            sc1 = (if pc_enable_idempotence c
              then sc\<lparr>sc_required_acks := WaitForAll, sc_retry_max := 5, sc_max_open_requests := 1\<rparr>
              else sc) in
        Inr (set_security (pc_tls c) (pc_sasl c) sc1))"

definition ToSaramaConsumerConfig ::
  "'tls sarama_config \<Rightarrow> 'tls consumer_config \<Rightarrow> kafka_error + 'tls sarama_config" where
  "ToSaramaConsumerConfig fresh c =
     (if cc_brokers c = [] then Inl ErrInvalidConfig
      else if cc_group_id c = [] then Inl ErrInvalidConfig
      else if cc_topics c = [] then Inl ErrInvalidConfig
      else
        let sc = fresh\<lparr>sc_client_id := cc_client_id c, sc_session_timeout := cc_session_timeout c,
              sc_rebalance_timeout := cc_rebalance_timeout c,
              sc_heartbeat_interval := cc_heartbeat_interval c,
              sc_max_processing_time := cc_max_processing_time c,
              sc_initial_offset := cc_initial_offset c, sc_consumer_errors := True,
              sc_metadata_refresh := cc_metadata_refresh c\<rparr>;
            sc1 = (if cc_enable_auto_commit c
              then sc\<lparr>sc_auto_commit := True, sc_auto_commit_interval := cc_auto_commit_interval c\<rparr>
              else sc\<lparr>sc_auto_commit := False\<rparr>) in
        Inr (set_security (cc_tls c) (cc_sasl c) sc1))"

text \<open>
  The data recorder's copy has a configuration type of its own, with whole seconds, and its
  \<open>NewConsumer\<close> builds the Sarama configuration itself.
\<close>

record recorder_config =
  rc_brokers :: "string list"
  rc_group_id :: string
  rc_topics :: "string list"
  rc_enable_auto_commit :: bool
  rc_auto_commit_interval :: int
  rc_session_timeout :: int
  rc_heartbeat_interval :: int
  rc_offset_initial :: string

definition recorder_sarama_config :: "'tls sarama_config \<Rightarrow> recorder_config \<Rightarrow> 'tls sarama_config" where
  "recorder_sarama_config fresh c =
     fresh\<lparr>sc_version := ''3.0.0'', sc_consumer_errors := True, sc_auto_commit := rc_enable_auto_commit c,
       sc_initial_offset := (if rc_offset_initial c = ''oldest'' then OffsetOldest else OffsetNewest)\<rparr>"

subsection \<open>Producer\<close>

record kafka_message =
  km_topic :: string
  km_key :: string
  km_value :: string
  km_headers :: "string \<Rightarrow> string option"
  km_timestamp :: instant

text \<open>
  \<open>pr_input\<close> is what has been handed to the input channel of the asynchronous producer.  Which
  branch of the \<open>select\<close> runs when \<open>Send\<close> gets there is the parameter \<open>taken\<close>: the message
  is taken, or the context ended with the error given.
\<close>

record producer =
  pr_closed :: bool
  pr_max_message_bytes :: int
  pr_input :: "kafka_message list"

definition producer_Send ::
  "string option \<Rightarrow> kafka_message \<Rightarrow> producer \<Rightarrow> kafka_error option \<times> producer" where
  "producer_Send ctx_error msg p =
     (if pr_closed p then (Some ErrProducerClosed, p)
      else if pr_max_message_bytes p < int (length (km_value msg)) then (Some ErrMessageTooLarge, p)
      else case ctx_error of
        None \<Rightarrow> (None, p\<lparr>pr_input := pr_input p @ [msg]\<rparr>)
      | Some e \<Rightarrow> (Some (ErrContext e), p))"

definition producer_SendProto ::
  "('p \<Rightarrow> string option) \<Rightarrow> instant \<Rightarrow> string option \<Rightarrow> string \<Rightarrow> string \<Rightarrow> 'p \<Rightarrow>
     (string \<Rightarrow> string option) \<Rightarrow> producer \<Rightarrow> kafka_error option \<times> producer" where
  "producer_SendProto marshal now ctx_error topic key msg headers p =
     (case marshal msg of
        None \<Rightarrow> (Some ErrSerializationFailed, p)
      | Some data \<Rightarrow> producer_Send ctx_error
          \<lparr>km_topic = topic, km_key = key, km_value = data, km_headers = headers, km_timestamp = now\<rparr> p)"

definition producer_SendJSON ::
  "instant \<Rightarrow> string option \<Rightarrow> string \<Rightarrow> string \<Rightarrow> string \<Rightarrow> (string \<Rightarrow> string option) \<Rightarrow> producer \<Rightarrow>
     kafka_error option \<times> producer" where
  "producer_SendJSON now ctx_error topic key value headers p =
     producer_Send ctx_error
       \<lparr>km_topic = topic, km_key = key, km_value = value, km_headers = headers, km_timestamp = now\<rparr> p"

definition producer_Close :: "producer \<Rightarrow> producer" where
  "producer_Close p = (if pr_closed p then p else p\<lparr>pr_closed := True\<rparr>)"

definition producer_HealthCheck :: "producer \<Rightarrow> kafka_error option" where
  "producer_HealthCheck p = (if pr_closed p then Some ErrProducerClosed else None)"

subsection \<open>The claim loop\<close>

record sarama_message =
  sm_topic :: string
  sm_partition :: int
  sm_offset :: int
  sm_key :: string
  sm_value :: string
  sm_headers :: "(string \<times> string) list"
  sm_timestamp :: instant

record consumed_message =
  cm_topic :: string
  cm_partition :: int
  cm_offset :: int
  cm_key :: string
  cm_value :: string
  cm_headers :: "string \<Rightarrow> string option"
  cm_timestamp :: int

definition consumed_of :: "sarama_message \<Rightarrow> consumed_message" where
  "consumed_of m =
     \<lparr>cm_topic = sm_topic m, cm_partition = sm_partition m, cm_offset = sm_offset m,
      cm_key = sm_key m, cm_value = sm_value m,
      cm_headers = fold (\<lambda>(k, v) hs. hs(k \<mapsto> v)) (sm_headers m) Map.empty,
      cm_timestamp = sm_timestamp m div Second\<rparr>"

text \<open>
  The session is a parameter.  Its documented behaviour: \<open>MarkMessage\<close> moves the offset to resume
  at forward to the one after the message and never backward; \<open>Commit\<close> publishes that offset.
\<close>

record 's claim_session =
  cs_mark :: "sarama_message \<Rightarrow> 's \<Rightarrow> 's"
  cs_commit :: "'s \<Rightarrow> 's"

definition session_laws :: "'s claim_session \<Rightarrow> ('s \<Rightarrow> string \<times> int \<Rightarrow> int) \<Rightarrow> bool" where
  "session_laws cs nxt \<longleftrightarrow>
     (\<forall>m s k. nxt (cs_mark cs m s) k =
        (if k = (sm_topic m, sm_partition m) then max (nxt s k) (sm_offset m + 1) else nxt s k)) \<and>
     (\<forall>s. nxt (cs_commit cs s) = nxt s)"

text \<open>
  What happens at a claim: a message arrives, the claim's channel is closed, the session ends, or
  another goroutine changes the state the handler shares with it.
\<close>

datatype 'w claim_event =
    ClaimMessage sarama_message
  | ClaimClosed
  | SessionDone
  | OtherStep "'w \<Rightarrow> 'w"

type_synonym ('w, 'err) message_handler = "consumed_message \<Rightarrow> 'w \<Rightarrow> 'err option \<times> 'w"
type_synonym ('w, 'err) processed_hook = "string \<Rightarrow> int \<Rightarrow> int \<Rightarrow> 'err option \<Rightarrow> 'w \<Rightarrow> 'w"

definition process_message ::
  "('w, 'err) message_handler \<Rightarrow> ('w, 'err) processed_hook option \<Rightarrow> sarama_message \<Rightarrow> 'w \<Rightarrow>
     'err option \<times> 'w" where
  "process_message handler hook m w =
     (let (err, w1) = handler (consumed_of m) w in
      (err, case hook of None \<Rightarrow> w1
         | Some f \<Rightarrow> f (sm_topic m) (sm_partition m) (sm_offset m) err w1))"

fun ConsumeClaim ::
  "'s claim_session \<Rightarrow> bool \<Rightarrow> ('w, 'err) message_handler \<Rightarrow> ('w, 'err) processed_hook option \<Rightarrow>
     'w claim_event list \<Rightarrow> 'w \<times> 's \<Rightarrow> 'w \<times> 's" where
  "ConsumeClaim cs auto handler hook [] (w, s) = (w, s)"
| "ConsumeClaim cs auto handler hook (SessionDone # evs) (w, s) = (w, s)"
| "ConsumeClaim cs auto handler hook (ClaimClosed # evs) (w, s) = (w, s)"
| "ConsumeClaim cs auto handler hook (OtherStep f # evs) (w, s) =
     ConsumeClaim cs auto handler hook evs (f w, s)"
| "ConsumeClaim cs auto handler hook (ClaimMessage m # evs) (w, s) =
     (let (err, w1) = process_message handler hook m w;
          s1 = (if err = None then cs_mark cs m s else s);
          s2 = (if auto then s1 else cs_commit cs s1) in
      ConsumeClaim cs auto handler hook evs (w1, s2))"

text \<open>The data recorder's copy of the loop differs only in having no hook.\<close>

definition recorder_ConsumeClaim ::
  "'s claim_session \<Rightarrow> bool \<Rightarrow> ('w, 'err) message_handler \<Rightarrow> 'w claim_event list \<Rightarrow> 'w \<times> 's \<Rightarrow> 'w \<times> 's" where
  "recorder_ConsumeClaim cs auto handler evs ws = ConsumeClaim cs auto handler None evs ws"

subsection \<open>What the claim loop does\<close>

text \<open>The messages the loop takes, and those whose handler returned nil, in order.\<close>

fun delivered :: "'w claim_event list \<Rightarrow> sarama_message list" where
  "delivered (ClaimMessage m # evs) = m # delivered evs"
| "delivered (OtherStep f # evs) = delivered evs"
| "delivered _ = []"

fun acked ::
  "('w, 'err) message_handler \<Rightarrow> ('w, 'err) processed_hook option \<Rightarrow> 'w claim_event list \<Rightarrow> 'w \<Rightarrow>
     sarama_message list" where
  "acked handler hook (ClaimMessage m # evs) w =
     (let (err, w1) = process_message handler hook m w in
      (if err = None then [m] else []) @ acked handler hook evs w1)"
| "acked handler hook (OtherStep f # evs) w = acked handler hook evs (f w)"
| "acked handler hook _ w = []"

definition resume_after :: "sarama_message list \<Rightarrow> int \<Rightarrow> int" where
  "resume_after ms n = fold (\<lambda>m n. max n (sm_offset m + 1)) ms n"

lemma resume_after_simps [simp]:
  "resume_after [] n = n"
  "resume_after (m # ms) n = resume_after ms (max n (sm_offset m + 1))"
  by (simp_all add: resume_after_def)

lemma resume_after_ge: "n \<le> resume_after ms n"
proof (induction ms arbitrary: n)
  case (Cons m ms)
  have "n \<le> max n (sm_offset m + 1)" by simp
  also have "\<dots> \<le> resume_after ms (max n (sm_offset m + 1))" by (rule Cons.IH)
  finally show ?case by simp
qed simp

lemma resume_after_member: "m \<in> set ms \<Longrightarrow> sm_offset m < resume_after ms n"
proof (induction ms arbitrary: n)
  case (Cons a ms)
  then show ?case using resume_after_ge [of "max n (sm_offset a + 1)" ms] by auto
qed simp

lemma session_mark:
  "session_laws cs nxt \<Longrightarrow> nxt (cs_mark cs m s) k =
     (if k = (sm_topic m, sm_partition m) then max (nxt s k) (sm_offset m + 1) else nxt s k)"
  unfolding session_laws_def by (elim conjE) (drule spec, drule spec, erule spec)

lemma session_commit: "session_laws cs nxt \<Longrightarrow> nxt (cs_commit cs s) = nxt s"
  unfolding session_laws_def by (elim conjE) (erule spec)

lemma ConsumeClaim_offset:
  assumes "session_laws cs nxt"
  shows "nxt (snd (ConsumeClaim cs auto handler hook evs (w, s))) k =
     resume_after (filter (\<lambda>m. k = (sm_topic m, sm_partition m)) (acked handler hook evs w)) (nxt s k)"
proof (induction evs arbitrary: w s)
  case (Cons ev evs)
  show ?case
  proof (cases ev)
    case (ClaimMessage m)
    show ?thesis unfolding ClaimMessage
      by (simp add: Cons.IH session_mark [OF assms] session_commit [OF assms] case_prod_beta Let_def)
  qed (simp_all add: Cons.IH)
qed simp


text \<open>
  The contract a handler has with the loop's bookkeeping: one call is tallied once, whatever its
  result (the hook, if there is one, belongs to the call).
\<close>

locale message_handler =
  fixes handler :: "('w, 'err) message_handler"
    and hook :: "('w, 'err) processed_hook option"
    and tally :: "'w \<Rightarrow> int"
  assumes tallied_once: "tally (snd (process_message handler hook m w)) = tally w + 1"
begin

lemma tally_counts_deliveries:
  "(\<And>f v. OtherStep f \<in> set evs \<Longrightarrow> tally (f v) = tally v) \<Longrightarrow>
   tally (fst (ConsumeClaim cs auto handler hook evs (w, s))) = tally w + int (length (delivered evs))"
proof (induction evs arbitrary: w s)
  case (Cons ev evs)
  then show ?case
    using tallied_once by (cases ev) (auto simp: case_prod_beta Let_def)
qed simp

end

subsection \<open>What the configuration and the producer guarantee\<close>

text \<open>
  An idempotent producer gets the settings Sarama demands of one (all acknowledgements, retries, one
  request in flight), whatever the configuration says of them.
\<close>

lemma idempotent_producer_settings:
  "ToSaramaProducerConfig fresh c = Inr sc \<Longrightarrow>
     pc_brokers c \<noteq> [] \<and> sc_idempotent sc = pc_enable_idempotence c \<and>
     sc_required_acks sc = (if pc_enable_idempotence c then WaitForAll else pc_required_acks c) \<and>
     sc_retry_max sc = (if pc_enable_idempotence c then 5 else pc_retry_max c) \<and>
     sc_max_open_requests sc = (if pc_enable_idempotence c then 1 else sc_max_open_requests fresh)"
  by (auto simp: ToSaramaProducerConfig_def set_security_def Let_def split: option.splits if_splits)

text \<open>The life of a producer: sends and closes, in any order.\<close>

inductive producer_step :: "producer \<Rightarrow> producer \<Rightarrow> bool" where
  send: "producer_step p (snd (producer_Send ctx_error msg p))"
| close: "producer_step p (producer_Close p)"

lemma producer_step_facts:
  "producer_step p q \<Longrightarrow>
   pr_max_message_bytes q = pr_max_message_bytes p \<and> (pr_closed p \<longrightarrow> q = p) \<and>
   (\<exists>ms. pr_input q = pr_input p @ ms \<and> (\<forall>m \<in> set ms. int (length (km_value m)) \<le> pr_max_message_bytes p))"
  by (induction rule: producer_step.induct)
    (auto simp: producer_Send_def producer_Close_def split: option.splits)

text \<open>
  What reaches the brokers.  Along every sequence of sends and closes the input of the producer only
  grows, by messages within the size limit, and a closed producer takes nothing any more.
\<close>

theorem producer_takes_only_fitting_messages:
  assumes "producer_step\<^sup>*\<^sup>* p q"
  shows "(\<exists>ms. pr_input q = pr_input p @ ms \<and>
       (\<forall>m \<in> set ms. int (length (km_value m)) \<le> pr_max_message_bytes p)) \<and>
     (pr_closed p \<longrightarrow> q = p)"
proof -
  have "pr_max_message_bytes q = pr_max_message_bytes p \<and> (pr_closed p \<longrightarrow> q = p) \<and>
     (\<exists>ms. pr_input q = pr_input p @ ms \<and> (\<forall>m \<in> set ms. int (length (km_value m)) \<le> pr_max_message_bytes p))"
    using assms
  proof (induction rule: rtranclp_induct)
    case (step a b)
    from step.IH obtain ms where a: "pr_input a = pr_input p @ ms" "pr_closed p \<longrightarrow> a = p"
        "pr_max_message_bytes a = pr_max_message_bytes p"
        "\<forall>m \<in> set ms. int (length (km_value m)) \<le> pr_max_message_bytes p" by blast
    from producer_step_facts [OF step.hyps(2)] obtain ns where b: "pr_input b = pr_input a @ ns"
        "pr_closed a \<longrightarrow> b = a" "pr_max_message_bytes b = pr_max_message_bytes a"
        "\<forall>m \<in> set ns. int (length (km_value m)) \<le> pr_max_message_bytes a" by blast
    from a b show ?case by (intro conjI exI [of _ "ms @ ns"]) auto
  qed simp
  then show ?thesis by blast
qed

subsection \<open>Concrete runs\<close>

text \<open>A session that keeps its offsets in a function.\<close>

definition map_session :: "(string \<times> int \<Rightarrow> int) claim_session" where
  "map_session = \<lparr>cs_mark = (\<lambda>m s. s((sm_topic m, sm_partition m) :=
       max (s (sm_topic m, sm_partition m)) (sm_offset m + 1))), cs_commit = (\<lambda>s. s)\<rparr>"

lemma map_session_laws: "session_laws map_session (\<lambda>s. s)"
  by (simp add: session_laws_def map_session_def)

definition sample_sarama :: "int \<Rightarrow> string \<Rightarrow> sarama_message" where
  "sample_sarama n v = \<lparr>sm_topic = ''t'', sm_partition = 0, sm_offset = n, sm_key = [], sm_value = v,
     sm_headers = [], sm_timestamp = 0\<rparr>"


theorem producer_takes_only_fitting_messages_witness:
  "\<forall>m \<in> set (pr_input (snd (producer_SendJSON 0 None ''t'' [] ''abc'' Map.empty
       \<lparr>pr_closed = False, pr_max_message_bytes = 2, pr_input = []\<rparr>))). int (length (km_value m)) \<le> 2"
proof -
  let ?p = "\<lparr>pr_closed = False, pr_max_message_bytes = 2, pr_input = []\<rparr>"
  have "producer_step\<^sup>*\<^sup>* ?p (snd (producer_SendJSON 0 None ''t'' [] ''abc'' Map.empty ?p))"
    unfolding producer_SendJSON_def by (intro r_into_rtranclp producer_step.send)
  from producer_takes_only_fitting_messages [OF this] show ?thesis by auto
qed

end
