(* ===== verification/Batch_Buffer.thy ===== *)
theory Batch_Buffer
  imports Prelude
begin

text \<open>
  The batch buffer of \<open>data-recorder-service/internal/buffer/batch_buffer.go\<close>: producers append
  under a lock, one background goroutine flushes on a timer, on a size signal and at the end.
  The callback runs outside the lock, so producers run while a batch is in flight; the
  interleavings are the step relation below.  Messages are of any type \<open>'m\<close>.
\<close>

subsection \<open>State\<close>

record 'm batch_buffer =
  bb_max_size :: int
  bb_flush_timeout :: duration
  bb_buffer :: "'m list"
  bb_last_flow :: instant
  bb_flush_signal :: bool
  bb_running :: bool
  bb_total_messages :: int
  bb_total_flushes :: int
  bb_total_errors :: int
  bb_current_size :: int
  bb_dropped :: int

record buffer_metrics =
  bm_total_messages :: int
  bm_total_flushes :: int
  bm_total_errors :: int
  bm_current_size :: int
  bm_dropped_messages :: int

datatype buffer_error = ErrBufferFull | ErrBufferClosed

text \<open>The conversion \<open>int32(n)\<close>.\<close>

definition int32_of :: "int \<Rightarrow> int" where
  "int32_of n = (n + 2 ^ 31) mod 2 ^ 32 - 2 ^ 31"

lemma int32_of_id: "0 \<le> n \<Longrightarrow> n < 2 ^ 31 \<Longrightarrow> int32_of n = n"
  by (simp add: int32_of_def)

definition NewBatchBuffer :: "int \<Rightarrow> duration \<Rightarrow> instant \<Rightarrow> 'm batch_buffer" where
  "NewBatchBuffer maxSize flushTimeout now =
     \<lparr>bb_max_size = (if maxSize \<le> 0 then 1000 else maxSize),
      bb_flush_timeout = (if flushTimeout \<le> 0 then 5 * Second else flushTimeout),
      bb_buffer = [], bb_last_flow = now, bb_flush_signal = False, bb_running = True,
      bb_total_messages = 0, bb_total_flushes = 0, bb_total_errors = 0, bb_current_size = 0,
      bb_dropped = 0\<rparr>"

subsection \<open>Operations\<close>

text \<open>\<open>Add\<close> in its two parts: the unlocked test of \<open>running\<close>, and the section under the lock.\<close>

definition add_check :: "'m batch_buffer \<Rightarrow> buffer_error option \<times> 'm batch_buffer" where
  "add_check bb =
     (if \<not> bb_running bb then (Some ErrBufferClosed, bb\<lparr>bb_dropped := bb_dropped bb + 1\<rparr>)
      else (None, bb))"

definition add_locked :: "'m \<Rightarrow> 'm batch_buffer \<Rightarrow> buffer_error option \<times> 'm batch_buffer" where
  "add_locked msg bb =
     (if wrap64 (bb_max_size bb * 2) \<le> int (length (bb_buffer bb))
      then (Some ErrBufferFull, bb\<lparr>bb_dropped := bb_dropped bb + 1\<rparr>)
      else
        let buf = bb_buffer bb @ [msg] in
        (None, bb\<lparr>bb_buffer := buf, bb_total_messages := bb_total_messages bb + 1,
           bb_current_size := int32_of (int (length buf)),
           bb_flush_signal := (bb_flush_signal bb \<or> bb_max_size bb \<le> int (length buf))\<rparr>))"

definition buffer_add :: "'m \<Rightarrow> 'm batch_buffer \<Rightarrow> buffer_error option \<times> 'm batch_buffer" where
  "buffer_add msg bb = (case add_check bb of
     (Some err, bb') \<Rightarrow> (Some err, bb')
   | (None, bb') \<Rightarrow> add_locked msg bb')"

text \<open>The locked part of \<open>checkAndFlush\<close>: the messages to hand to the callback, if any.\<close>

definition check_and_flush :: "bool \<Rightarrow> instant \<Rightarrow> 'm batch_buffer \<Rightarrow> 'm list \<times> 'm batch_buffer" where
  "check_and_flush forced now bb =
     (if bb_buffer bb = [] then ([], bb)
      else
        let shouldFlush = forced \<or> bb_max_size bb \<le> int (length (bb_buffer bb)) \<or>
              bb_flush_timeout bb \<le> now - bb_last_flow bb in
        if \<not> shouldFlush then ([], bb)
        else (bb_buffer bb, bb\<lparr>bb_buffer := [], bb_last_flow := now, bb_current_size := 0\<rparr>))"

text \<open>\<open>flush\<close>: the counters before the callback, and its result after it.\<close>

definition flush_begin :: "'m list \<Rightarrow> 'm batch_buffer \<Rightarrow> 'm batch_buffer" where
  "flush_begin messages bb =
     (if messages = [] then bb else bb\<lparr>bb_total_flushes := bb_total_flushes bb + 1\<rparr>)"

definition flush_end :: "bool \<Rightarrow> 'm batch_buffer \<Rightarrow> 'm batch_buffer" where
  "flush_end okay bb = (if okay then bb else bb\<lparr>bb_total_errors := bb_total_errors bb + 1\<rparr>)"

definition final_take :: "'m batch_buffer \<Rightarrow> 'm list \<times> 'm batch_buffer" where
  "final_take bb =
     (if bb_buffer bb = [] then ([], bb)
      else (bb_buffer bb, bb\<lparr>bb_buffer := [], bb_current_size := 0\<rparr>))"

text \<open>The retries of \<open>finalFlush\<close>: at most three calls, a success ends them; no counter is touched.\<close>

fun final_retries ::
  "nat \<Rightarrow> ('m list \<Rightarrow> 'w \<Rightarrow> bool \<times> 'w) \<Rightarrow> (duration \<Rightarrow> 'w \<Rightarrow> 'w) \<Rightarrow> 'm list \<Rightarrow> 'w \<Rightarrow> bool \<times> 'w" where
  "final_retries 0 callback sleep messages w = (False, w)"
| "final_retries (Suc n) callback sleep messages w =
     (let (okay, w1) = callback messages w in
      if okay then (True, w1)
      else final_retries n callback sleep messages (sleep Second w1))"

definition final_flush ::
  "('m list \<Rightarrow> 'w \<Rightarrow> bool \<times> 'w) \<Rightarrow> (duration \<Rightarrow> 'w \<Rightarrow> 'w) \<Rightarrow> 'm batch_buffer \<Rightarrow> 'w \<Rightarrow>
     'm batch_buffer \<times> 'w" where
  "final_flush callback sleep bb w =
     (let (messages, bb') = final_take bb in
      if messages = [] then (bb', w)
      else (bb', snd (final_retries 3 callback sleep messages w)))"

definition buffer_stop :: "'m batch_buffer \<Rightarrow> 'm batch_buffer" where
  "buffer_stop bb = bb\<lparr>bb_running := False\<rparr>"

definition buffer_flush :: "'m batch_buffer \<Rightarrow> 'm batch_buffer" where
  "buffer_flush bb = bb\<lparr>bb_flush_signal := True\<rparr>"

definition buffer_Metrics :: "'m batch_buffer \<Rightarrow> buffer_metrics" where
  "buffer_Metrics bb =
     \<lparr>bm_total_messages = bb_total_messages bb, bm_total_flushes = bb_total_flushes bb,
      bm_total_errors = bb_total_errors bb, bm_current_size = bb_current_size bb,
      bm_dropped_messages = bb_dropped bb\<rparr>"

definition buffer_Size :: "'m batch_buffer \<Rightarrow> int" where
  "buffer_Size bb = bb_current_size bb"

definition IsFull :: "'m batch_buffer \<Rightarrow> bool" where
  "IsFull bb \<longleftrightarrow> bb_max_size bb \<le> buffer_Size bb"

subsection \<open>Interleavings\<close>

text \<open>
  The background goroutine waits, has a batch at the callback, has the last batch at the callback
  with some tries left, or has ended.
\<close>

datatype 'm loop_phase = Waiting | Flushing "'m list" | FinalFlushing "'m list" nat | Ended

text \<open>
  \<open>sy_adding\<close> are the messages of producers that have passed the test of \<open>running\<close> and have not yet
  got the lock.  The last three fields are ghost state: the messages \<open>Add\<close> accepted, the batches
  the callback stored, and the batches given up.
\<close>

record 'm buffer_system =
  sy_bb :: "'m batch_buffer"
  sy_phase :: "'m loop_phase"
  sy_adding :: "'m list"
  sy_accepted :: "'m list"
  sy_stored :: "'m list"
  sy_lost :: "'m list"

inductive buffer_step :: "'m buffer_system \<Rightarrow> 'm buffer_system \<Rightarrow> bool" where
  add_refused: "add_check (sy_bb s) = (Some err, bb) \<Longrightarrow> buffer_step s (s\<lparr>sy_bb := bb\<rparr>)"
| add_checked: "add_check (sy_bb s) = (None, bb) \<Longrightarrow>
    buffer_step s (s\<lparr>sy_bb := bb, sy_adding := sy_adding s @ [msg]\<rparr>)"
| add_done: "sy_adding s = pre @ msg # post \<Longrightarrow> add_locked msg (sy_bb s) = (None, bb) \<Longrightarrow>
    buffer_step s (s\<lparr>sy_bb := bb, sy_adding := pre @ post, sy_accepted := sy_accepted s @ [msg]\<rparr>)"
| add_full: "sy_adding s = pre @ msg # post \<Longrightarrow> add_locked msg (sy_bb s) = (Some err, bb) \<Longrightarrow>
    buffer_step s (s\<lparr>sy_bb := bb, sy_adding := pre @ post\<rparr>)"
| timer: "sy_phase s = Waiting \<Longrightarrow> check_and_flush False now (sy_bb s) = (ms, bb) \<Longrightarrow>
    buffer_step s (s\<lparr>sy_bb := flush_begin ms bb, sy_phase := (if ms = [] then Waiting else Flushing ms)\<rparr>)"
| signal: "sy_phase s = Waiting \<Longrightarrow> bb_flush_signal (sy_bb s) \<Longrightarrow>
    check_and_flush True now ((sy_bb s)\<lparr>bb_flush_signal := False\<rparr>) = (ms, bb) \<Longrightarrow>
    buffer_step s (s\<lparr>sy_bb := flush_begin ms bb, sy_phase := (if ms = [] then Waiting else Flushing ms)\<rparr>)"
| flush_ok: "sy_phase s = Flushing ms \<Longrightarrow>
    buffer_step s (s\<lparr>sy_phase := Waiting, sy_stored := sy_stored s @ ms\<rparr>)"
| flush_failed: "sy_phase s = Flushing ms \<Longrightarrow>
    buffer_step s (s\<lparr>sy_bb := flush_end False (sy_bb s), sy_phase := Waiting, sy_lost := sy_lost s @ ms\<rparr>)"
| stop: "buffer_step s (s\<lparr>sy_bb := buffer_stop (sy_bb s)\<rparr>)"
| final: "sy_phase s = Waiting \<Longrightarrow> final_take (sy_bb s) = (ms, bb) \<Longrightarrow>
    buffer_step s (s\<lparr>sy_bb := bb, sy_phase := (if ms = [] then Ended else FinalFlushing ms 3)\<rparr>)"
| final_ok: "sy_phase s = FinalFlushing ms (Suc n) \<Longrightarrow>
    buffer_step s (s\<lparr>sy_phase := Ended, sy_stored := sy_stored s @ ms\<rparr>)"
| final_failed: "sy_phase s = FinalFlushing ms (Suc n) \<Longrightarrow>
    buffer_step s (s\<lparr>sy_phase := FinalFlushing ms n\<rparr>)"
| final_given_up: "sy_phase s = FinalFlushing ms 0 \<Longrightarrow>
    buffer_step s (s\<lparr>sy_phase := Ended, sy_lost := sy_lost s @ ms\<rparr>)"
| flush_request: "buffer_step s (s\<lparr>sy_bb := buffer_flush (sy_bb s)\<rparr>)"

definition system_start :: "'m batch_buffer \<Rightarrow> 'm buffer_system" where
  "system_start bb = \<lparr>sy_bb = bb, sy_phase = Waiting, sy_adding = [], sy_accepted = [],
     sy_stored = [], sy_lost = []\<rparr>"

inductive buffer_reach :: "int \<Rightarrow> duration \<Rightarrow> instant \<Rightarrow> 'm buffer_system \<Rightarrow> bool" for maxSize timeout now where
  reach_start: "buffer_reach maxSize timeout now (system_start (NewBatchBuffer maxSize timeout now))"
| reach_more: "buffer_reach maxSize timeout now s \<Longrightarrow> buffer_step s s' \<Longrightarrow>
    buffer_reach maxSize timeout now s'"

fun in_flight :: "'m loop_phase \<Rightarrow> 'm list" where
  "in_flight (Flushing ms) = ms"
| "in_flight (FinalFlushing ms n) = ms"
| "in_flight _ = []"

subsection \<open>Invariants\<close>

definition buffer_inv :: "'m buffer_system \<Rightarrow> bool" where
  "buffer_inv s \<longleftrightarrow>
     0 < bb_max_size (sy_bb s) \<and>
     int (length (bb_buffer (sy_bb s))) \<le> bb_max_size (sy_bb s) * 2 \<and>
     bb_current_size (sy_bb s) = int (length (bb_buffer (sy_bb s))) \<and>
     bb_total_messages (sy_bb s) = int (length (sy_accepted s)) \<and>
     (\<exists>hist. hist \<in> shuffles (sy_stored s) (sy_lost s) \<and>
        sy_accepted s = hist @ in_flight (sy_phase s) @ bb_buffer (sy_bb s))"

lemma buffer_step_size: "buffer_step s s' \<Longrightarrow> bb_max_size (sy_bb s') = bb_max_size (sy_bb s)"
  by (induction rule: buffer_step.induct)
    (auto simp: add_check_def add_locked_def check_and_flush_def flush_begin_def flush_end_def
      final_take_def buffer_stop_def buffer_flush_def Let_def split: if_splits)

lemma buffer_inv_step:
  assumes "buffer_step s s'" "buffer_inv s" "bb_max_size (sy_bb s) < 2 ^ 30"
  shows "buffer_inv s'"
proof -
  have w: "wrap64 (bb_max_size (sy_bb s) * 2) = bb_max_size (sy_bb s) * 2"
    using assms(2,3) by (intro wrap64_id) (auto simp: buffer_inv_def)
  show ?thesis
    using assms w
    by (induction rule: buffer_step.induct)
      (auto simp: buffer_inv_def add_check_def add_locked_def check_and_flush_def flush_begin_def
        flush_end_def final_take_def buffer_stop_def buffer_flush_def int32_of_id Let_def
        shuffles_append_left shuffles_append_right split: if_splits)
qed

lemma buffer_reach_inv:
  "buffer_reach maxSize timeout now s \<Longrightarrow> maxSize < 2 ^ 30 \<Longrightarrow>
   buffer_inv s \<and> bb_max_size (sy_bb s) < 2 ^ 30"
proof (induction rule: buffer_reach.induct)
  case reach_start
  then show ?case by (auto simp: buffer_inv_def system_start_def NewBatchBuffer_def)
next
  case (reach_more s s')
  then show ?case using buffer_inv_step [of s s'] buffer_step_size [of s s'] by simp
qed


subsection \<open>Properties\<close>

text \<open>
  C4. No message is lost, doubled or reordered inside the buffer.  In every interleaving of producers,
  timer, signals and shutdown, the messages \<open>Add\<close> has accepted, in the order of acceptance, are
  first those already handed to the callback (an interleaving of the stored and the given-up
  ones, each in order), then the batch in flight, then the buffer; the buffer holds at most twice
  the configured size, and the two counters are exact.
\<close>

theorem buffer_conserves_messages:
  assumes "buffer_reach maxSize timeout now s" "maxSize < 2 ^ 30"
  shows "(\<exists>hist. hist \<in> shuffles (sy_stored s) (sy_lost s) \<and>
       sy_accepted s = hist @ in_flight (sy_phase s) @ bb_buffer (sy_bb s)) \<and>
     int (length (bb_buffer (sy_bb s))) \<le> bb_max_size (sy_bb s) * 2 \<and>
     bm_current_size (buffer_Metrics (sy_bb s)) = int (length (bb_buffer (sy_bb s))) \<and>
     bm_total_messages (buffer_Metrics (sy_bb s)) = int (length (sy_accepted s))"
  using buffer_reach_inv [OF assms] by (simp add: buffer_inv_def buffer_Metrics_def)

lemma ended_is_final:
  "buffer_step s s' \<Longrightarrow> sy_phase s = Ended \<Longrightarrow>
   sy_phase s' = Ended \<and> sy_stored s' = sy_stored s \<and>
   (\<exists>ys. bb_buffer (sy_bb s') = bb_buffer (sy_bb s) @ ys)"
  by (induction rule: buffer_step.induct)
    (auto simp: add_check_def add_locked_def buffer_stop_def buffer_flush_def Let_def split: if_splits)

text \<open>
  After the background goroutine has ended, nothing in the buffer is ever stored: whatever steps
  follow, the goroutine stays ended, the stored messages stay the same, and the buffer only grows
  (\<open>Add\<close> still accepts when the context was cancelled without \<open>Stop\<close>).
\<close>

theorem nothing_stored_after_end:
  "buffer_step\<^sup>*\<^sup>* s s' \<Longrightarrow> sy_phase s = Ended \<Longrightarrow>
   sy_phase s' = Ended \<and> sy_stored s' = sy_stored s \<and>
   (\<exists>ys. bb_buffer (sy_bb s') = bb_buffer (sy_bb s) @ ys)"
proof (induction rule: rtranclp_induct)
  case (step u v)
  then show ?case using ended_is_final [of u v] by auto
qed simp

text \<open>
  A stopping buffer can accept a message and lose it: a producer that has seen \<open>running\<close> before
  \<open>Stop\<close> gets the lock after the final flush, and its \<open>Add\<close> returns no error.  Every message can
  meet this fate in a buffer of any size.
\<close>

theorem stop_can_lose_accepted_message:
  assumes "maxSize < 2 ^ 30"
  shows "\<exists>s. buffer_reach maxSize timeout now s \<and> \<not> bb_running (sy_bb s) \<and> sy_phase s = Ended \<and>
     sy_accepted s = [msg] \<and> sy_stored s = [] \<and> sy_lost s = [] \<and> bb_buffer (sy_bb s) = [msg]"
proof -
  define bb :: "'a batch_buffer" where "bb = NewBatchBuffer maxSize timeout now"
  have bb: "bb_buffer bb = []" "bb_running bb" "0 < bb_max_size bb" "bb_max_size bb < 2 ^ 30"
    using assms by (auto simp: bb_def NewBatchBuffer_def)
  obtain bb' where b': "add_locked msg (buffer_stop bb) = (None, bb')" "bb_buffer bb' = [msg]"
      "\<not> bb_running bb'"
    using bb by (auto simp: add_locked_def buffer_stop_def wrap64_id Let_def)
  define s1 where "s1 = (system_start bb)\<lparr>sy_bb := bb, sy_adding := [msg]\<rparr>"
  define s2 where "s2 = s1\<lparr>sy_bb := buffer_stop bb\<rparr>"
  define s3 where "s3 = s2\<lparr>sy_bb := buffer_stop bb, sy_phase := Ended\<rparr>"
  define s4 where "s4 = s3\<lparr>sy_bb := bb', sy_adding := [], sy_accepted := [msg]\<rparr>"
  note defs = s1_def s2_def s3_def s4_def system_start_def
  have "buffer_step (system_start bb) s1"
    using add_checked [of "system_start bb" bb msg] bb by (simp add: defs add_check_def)
  moreover have "buffer_step s1 s2"
    using stop [of s1] by (simp add: defs)
  moreover have "buffer_step s2 s3"
    using final [of s2 "[]" "buffer_stop bb"] bb by (simp add: defs final_take_def buffer_stop_def)
  moreover have "buffer_step s3 s4"
    using add_done [of s3 "[]" msg "[]" bb'] b' by (simp add: defs)
  ultimately have "buffer_reach maxSize timeout now s4"
    unfolding bb_def by (meson reach_start reach_more)
  then show ?thesis using b' by (intro exI [of _ s4]) (simp add: defs)
qed

subsection \<open>Concrete runs\<close>

theorem buffer_conserves_messages_witness:
  "bm_total_messages (buffer_Metrics (NewBatchBuffer 100 Second 0 :: nat batch_buffer)) = 0"
proof -
  have "buffer_reach 100 Second 0 (system_start (NewBatchBuffer 100 Second 0 :: nat batch_buffer))"
    by (rule reach_start)
  from buffer_conserves_messages [OF this] show ?thesis by (simp add: system_start_def)
qed

theorem nothing_stored_after_end_witness:
  "\<exists>s :: nat buffer_system. sy_phase s = Ended \<and>
     sy_phase (s\<lparr>sy_bb := buffer_flush (sy_bb s)\<rparr>) = Ended \<and> sy_stored s = []"
proof -
  define s where "s = (system_start (NewBatchBuffer 1 1 0 :: nat batch_buffer))\<lparr>sy_phase := Ended\<rparr>"
  have e: "sy_phase s = Ended" "sy_stored s = []" by (simp_all add: s_def system_start_def)
  have "buffer_step\<^sup>*\<^sup>* s (s\<lparr>sy_bb := buffer_flush (sy_bb s)\<rparr>)"
    by (intro r_into_rtranclp flush_request)
  from nothing_stored_after_end [OF this e(1)]
  have "sy_phase (s\<lparr>sy_bb := buffer_flush (sy_bb s)\<rparr>) = Ended" by blast
  with e show ?thesis by blast
qed

theorem stop_can_lose_accepted_message_witness:
  "\<exists>s. buffer_reach 1000 Second 0 s \<and> sy_phase s = Ended \<and> bb_buffer (sy_bb s) = [7 :: nat]"
  using stop_can_lose_accepted_message [of 1000 Second 0 "7 :: nat"] by auto

end
