(* ===== verification/Market_Writers.thy ===== *)
theory Market_Writers
  imports Go_Float Batch_Buffer
begin

text \<open>
  Market data messages and the two writers of the data recorder:
  \<open>data-recorder-service/internal/writer/timescale_writer.go\<close> (one transaction per batch, with
  retries) and \<open>s3_writer.go\<close> (one Parquet object per batch and kind).
\<close>

subsection \<open>Messages\<close>

record tick_data =
  td_symbol :: string
  td_price :: f64
  td_volume :: int
  td_timestamp :: int
  td_change :: f64
  td_change_rate :: f64

record level =
  lv_price :: f64
  lv_quantity :: int

record order_book =
  ob_symbol :: string
  ob_bids :: "level list"
  ob_asks :: "level list"
  ob_timestamp :: int

datatype message_type = MessageTypeTick | MessageTypeOrderBook

record buffered_message =
  ms_type :: message_type
  ms_timestamp :: instant
  ms_tick :: "tick_data option"
  ms_book :: "order_book option"

subsection \<open>Separating a batch\<close>

fun batch_ticks :: "buffered_message list \<Rightarrow> tick_data list" where
  "batch_ticks [] = []"
| "batch_ticks (m # ms) =
     (case (ms_type m, ms_tick m) of
        (MessageTypeTick, Some t) \<Rightarrow> t # batch_ticks ms | _ \<Rightarrow> batch_ticks ms)"

fun batch_books :: "buffered_message list \<Rightarrow> order_book list" where
  "batch_books [] = []"
| "batch_books (m # ms) =
     (case (ms_type m, ms_book m) of
        (MessageTypeOrderBook, Some b) \<Rightarrow> b # batch_books ms | _ \<Rightarrow> batch_books ms)"

subsection \<open>TimescaleDB\<close>

record timescale_writer =
  tw_max_retries :: int
  tw_retry_backoff :: duration
  tw_closed :: bool
  tw_total_inserts :: int
  tw_total_errors :: int
  tw_last_insert_at :: int

definition DefaultTimescaleWriter :: timescale_writer where
  "DefaultTimescaleWriter = \<lparr>tw_max_retries = 3, tw_retry_backoff = Second, tw_closed = False,
     tw_total_inserts = 0, tw_total_errors = 0, tw_last_insert_at = 0\<rparr>"

type_synonym tick_row = "instant \<times> string \<times> f64 \<times> int \<times> f64 \<times> f64"
type_synonym book_row = "instant \<times> string \<times> string \<times> string"

record ts_world =
  tsw_step :: nat
  tsw_ticks :: "tick_row list"
  tsw_books :: "book_row list"
  tsw_slept :: "duration list"

text \<open>
  What the database decides at its n-th call: whether \<open>Begin\<close> works, what a \<open>COPY\<close> of so many rows
  answers (\<open>None\<close> is an error), and how a commit ends.  The JSON of an array of levels is the
  codec's, but it fails on numbers JSON cannot write.
\<close>

datatype commit_result = Committed | CommitFailed | CommitAnswerLost

record ts_env =
  te_begin :: "nat \<Rightarrow> bool"
  te_copy :: "nat \<Rightarrow> nat \<Rightarrow> nat option"
  te_commit :: "nat \<Rightarrow> commit_result"
  te_json :: "(f64 \<times> int) list \<Rightarrow> string"
  te_now :: "nat \<Rightarrow> instant"

definition next_call :: "ts_world \<Rightarrow> ts_world" where
  "next_call w = w\<lparr>tsw_step := Suc (tsw_step w)\<rparr>"

definition tick_row_of :: "tick_data \<Rightarrow> tick_row" where
  "tick_row_of t = (td_timestamp t, td_symbol t, td_price t, td_volume t, td_change t, td_change_rate t)"

definition orderbookLevelsToJSON :: "ts_env \<Rightarrow> level list \<Rightarrow> string option" where
  "orderbookLevelsToJSON env levels =
     (let jsonLevels = map (\<lambda>l. (lv_price l, lv_quantity l)) levels in
      if \<forall>(p, q) \<in> set jsonLevels. f_finite p then Some (te_json env jsonLevels) else None)"

definition book_row_of :: "ts_env \<Rightarrow> order_book \<Rightarrow> book_row option" where
  "book_row_of env ob =
     (case orderbookLevelsToJSON env (ob_bids ob) of
        None \<Rightarrow> None
      | Some bids \<Rightarrow>
          (case orderbookLevelsToJSON env (ob_asks ob) of
             None \<Rightarrow> None
           | Some asks \<Rightarrow> Some (ob_timestamp ob, ob_symbol ob, bids, asks)))"

fun book_rows :: "ts_env \<Rightarrow> order_book list \<Rightarrow> book_row list option" where
  "book_rows env [] = Some []"
| "book_rows env (b # bs) =
     (case book_row_of env b of
        None \<Rightarrow> None
      | Some r \<Rightarrow> (case book_rows env bs of None \<Rightarrow> None | Some rs \<Rightarrow> Some (r # rs)))"

text \<open>The \<open>COPY\<close> steps: the rows of the source, or an error.\<close>

definition writeTickData :: "ts_env \<Rightarrow> nat \<Rightarrow> tick_data list \<Rightarrow> tick_row list option" where
  "writeTickData env n ticks =
     (if te_copy env n (length ticks) = Some (length ticks) then Some (map tick_row_of ticks) else None)"

definition writeOrderBooks :: "ts_env \<Rightarrow> nat \<Rightarrow> order_book list \<Rightarrow> book_row list option" where
  "writeOrderBooks env n books =
     (case book_rows env books of
        None \<Rightarrow> None
      | Some rows \<Rightarrow>
          if te_copy env n (length books) = Some (length books) then Some rows else None)"

definition writeBatch ::
  "ts_env \<Rightarrow> tick_data list \<Rightarrow> order_book list \<Rightarrow> ts_world \<Rightarrow> bool \<times> ts_world" where
  "writeBatch env ticks books w =
     (let w1 = next_call w in
      if \<not> te_begin env (tsw_step w) then (False, w1)
      else
        let t = (if ticks \<noteq> [] then writeTickData env (tsw_step w1) ticks else Some []);
            w2 = (if ticks \<noteq> [] then next_call w1 else w1) in
        case t of
          None \<Rightarrow> (False, w2)
        | Some trows \<Rightarrow>
            let b = (if books \<noteq> [] then writeOrderBooks env (tsw_step w2) books else Some []);
                w3 = (if books \<noteq> [] then next_call w2 else w2) in
            case b of
              None \<Rightarrow> (False, w3)
            | Some brows \<Rightarrow>
                let w4 = next_call w3;
                    applied = w4\<lparr>tsw_ticks := tsw_ticks w4 @ trows, tsw_books := tsw_books w4 @ brows\<rparr> in
                (case te_commit env (tsw_step w3) of
                   Committed \<Rightarrow> (True, applied)
                 | CommitFailed \<Rightarrow> (False, w4)
                 | CommitAnswerLost \<Rightarrow> (False, applied)))"

text \<open>The retries: before attempt \<open>n > 0\<close> it sleeps \<open>RetryBackoff * n\<close>.\<close>

fun write_attempts ::
  "ts_env \<Rightarrow> timescale_writer \<Rightarrow> tick_data list \<Rightarrow> order_book list \<Rightarrow> nat \<Rightarrow> nat \<Rightarrow> ts_world \<Rightarrow>
     bool \<times> ts_world" where
  "write_attempts env tw ticks books attempt 0 w = (False, w)"
| "write_attempts env tw ticks books attempt (Suc left) w =
     (let w1 = (if 0 < attempt
            then w\<lparr>tsw_slept := tsw_slept w @ [wrap64 (tw_retry_backoff tw * int attempt)]\<rparr> else w);
          (okay, w2) = writeBatch env ticks books w1 in
      if okay then (True, w2) else write_attempts env tw ticks books (Suc attempt) left w2)"

datatype writer_error = ErrWriterClosed | FailedAfterRetries int

definition ts_WriteMessages ::
  "ts_env \<Rightarrow> buffered_message list \<Rightarrow> timescale_writer \<Rightarrow> ts_world \<Rightarrow>
     writer_error option \<times> timescale_writer \<times> ts_world" where
  "ts_WriteMessages env messages tw w =
     (if messages = [] then (None, tw, w)
      else if tw_closed tw then (Some ErrWriterClosed, tw, w)
      else
        let (okay, w') = write_attempts env tw (batch_ticks messages) (batch_books messages) 0
              (nat (tw_max_retries tw)) w in
        if okay
        then (None, tw\<lparr>tw_total_inserts := tw_total_inserts tw + int (length messages),
                tw_last_insert_at := te_now env (tsw_step w') div Second\<rparr>, w')
        else (Some (FailedAfterRetries (tw_max_retries tw)),
              tw\<lparr>tw_total_errors := tw_total_errors tw + 1\<rparr>, w'))"

definition ts_Close :: "timescale_writer \<Rightarrow> timescale_writer" where
  "ts_Close tw = (if tw_closed tw then tw else tw\<lparr>tw_closed := True\<rparr>)"

subsection \<open>S3\<close>

record s3_writer =
  sw_partition_prefix :: string
  sw_max_retries :: int
  sw_retry_backoff :: duration
  sw_closed :: bool
  sw_total_uploads :: int
  sw_total_errors :: int
  sw_total_bytes :: int
  sw_last_upload_at :: int

record s3_world =
  s3_step :: nat
  s3_objects :: "string \<Rightarrow> string option"

text \<open>The fields of a calendar instant, as Go's \<open>time\<close> computes them from the Unix second.\<close>

record civil =
  cv_year :: int
  cv_month :: int
  cv_day :: int
  cv_hour :: int
  cv_minute :: int
  cv_second :: int

record s3_env =
  se_upload :: "nat \<Rightarrow> bool"
  se_civil :: "int \<Rightarrow> civil"
  se_tick_parquet :: "tick_data list \<Rightarrow> string option"
  se_book_parquet :: "(int \<times> string \<times> string \<times> string) list \<Rightarrow> string option"
  se_json :: "(f64 \<times> int) list \<Rightarrow> string"

definition DefaultS3Writer :: s3_writer where
  "DefaultS3Writer = \<lparr>sw_partition_prefix = ''market-data'', sw_max_retries = 3,
     sw_retry_backoff = Second, sw_closed = False, sw_total_uploads = 0, sw_total_errors = 0,
     sw_total_bytes = 0, sw_last_upload_at = 0\<rparr>"

text \<open>\<open>%0nd\<close> of a number that is not negative.\<close>

definition pad0 :: "nat \<Rightarrow> int \<Rightarrow> string" where
  "pad0 n i = replicate (n - length (int_str i)) (CHR ''0'') @ int_str i"

definition generateS3Key :: "s3_env \<Rightarrow> s3_writer \<Rightarrow> string \<Rightarrow> instant \<Rightarrow> string" where
  "generateS3Key env sw dataType t =
     (let c = se_civil env (t div Second) in
      sw_partition_prefix sw @ ''/'' @ dataType @ ''/year='' @ pad0 4 (cv_year c) @
      ''/month='' @ pad0 2 (cv_month c) @ ''/day='' @ pad0 2 (cv_day c) @
      ''/hour='' @ pad0 2 (cv_hour c) @ ''/data_'' @
      pad0 4 (cv_year c) @ pad0 2 (cv_month c) @ pad0 2 (cv_day c) @
      pad0 2 (cv_hour c) @ pad0 2 (cv_minute c) @ pad0 2 (cv_second c) @ ''.parquet'')"

fun upload_attempts :: "s3_env \<Rightarrow> nat \<Rightarrow> string \<Rightarrow> string \<Rightarrow> s3_world \<Rightarrow> bool \<times> s3_world" where
  "upload_attempts env 0 key data w = (False, w)"
| "upload_attempts env (Suc left) key data w =
     (let w1 = w\<lparr>s3_step := Suc (s3_step w)\<rparr> in
      if se_upload env (s3_step w) then (True, w1\<lparr>s3_objects := (s3_objects w1)(key \<mapsto> data)\<rparr>)
      else upload_attempts env left key data w1)"

definition uploadToS3 :: "s3_env \<Rightarrow> s3_writer \<Rightarrow> string \<Rightarrow> string \<Rightarrow> s3_world \<Rightarrow> bool \<times> s3_world" where
  "uploadToS3 env sw key data w = upload_attempts env (nat (sw_max_retries sw)) key data w"

datatype s3_error = S3Closed | S3TicksFailed | S3BooksFailed

definition writeTicksToParquet ::
  "s3_env \<Rightarrow> tick_data list \<Rightarrow> instant \<Rightarrow> s3_writer \<Rightarrow> s3_world \<Rightarrow> bool \<times> s3_writer \<times> s3_world" where
  "writeTicksToParquet env ticks t sw w =
     (case se_tick_parquet env ticks of
        None \<Rightarrow> (False, sw, w)
      | Some data \<Rightarrow>
          (let (okay, w') = uploadToS3 env sw (generateS3Key env sw ''tick'' t) data w in
           if okay then (True, sw\<lparr>sw_total_bytes := sw_total_bytes sw + int (length data)\<rparr>, w')
           else (False, sw, w')))"

definition s3_levels_json :: "s3_env \<Rightarrow> level list \<Rightarrow> string option" where
  "s3_levels_json env levels =
     (let jsonLevels = map (\<lambda>l. (lv_price l, lv_quantity l)) levels in
      if \<forall>(p, q) \<in> set jsonLevels. f_finite p then Some (se_json env jsonLevels) else None)"

fun book_records :: "s3_env \<Rightarrow> order_book list \<Rightarrow> (int \<times> string \<times> string \<times> string) list option" where
  "book_records env [] = Some []"
| "book_records env (b # bs) =
     (case (s3_levels_json env (ob_bids b), s3_levels_json env (ob_asks b)) of
        (Some bids, Some asks) \<Rightarrow>
          (case book_records env bs of
             None \<Rightarrow> None | Some rs \<Rightarrow> Some ((ob_timestamp b, ob_symbol b, bids, asks) # rs))
      | _ \<Rightarrow> None)"

definition writeOrderBooksToParquet ::
  "s3_env \<Rightarrow> order_book list \<Rightarrow> instant \<Rightarrow> s3_writer \<Rightarrow> s3_world \<Rightarrow> bool \<times> s3_writer \<times> s3_world" where
  "writeOrderBooksToParquet env books t sw w =
     (case book_records env books of
        None \<Rightarrow> (False, sw, w)
      | Some recs \<Rightarrow>
          (case se_book_parquet env recs of
             None \<Rightarrow> (False, sw, w)
           | Some data \<Rightarrow>
               (let (okay, w') = uploadToS3 env sw (generateS3Key env sw ''orderbook'' t) data w in
                if okay then (True, sw\<lparr>sw_total_bytes := sw_total_bytes sw + int (length data)\<rparr>, w')
                else (False, sw, w'))))"

definition s3_WriteMessages ::
  "s3_env \<Rightarrow> buffered_message list \<Rightarrow> instant \<Rightarrow> s3_writer \<Rightarrow> s3_world \<Rightarrow>
     s3_error option \<times> s3_writer \<times> s3_world" where
  "s3_WriteMessages env messages now sw w =
     (if messages = [] then (None, sw, w)
      else if sw_closed sw then (Some S3Closed, sw, w)
      else
        let ticks = batch_ticks messages; books = batch_books messages;
            (okt, sw1, w1) = (if ticks \<noteq> [] then writeTicksToParquet env ticks now sw w else (True, sw, w)) in
        if \<not> okt then (Some S3TicksFailed, sw1\<lparr>sw_total_errors := sw_total_errors sw1 + 1\<rparr>, w1)
        else
          let (okb, sw2, w2) = (if books \<noteq> [] then writeOrderBooksToParquet env books now sw1 w1
                else (True, sw1, w1)) in
          if \<not> okb then (Some S3BooksFailed, sw2\<lparr>sw_total_errors := sw_total_errors sw2 + 1\<rparr>, w2)
          else (None, sw2\<lparr>sw_total_uploads := sw_total_uploads sw2 + 1,
                  sw_last_upload_at := now div Second\<rparr>, w2))"

definition s3_Close :: "s3_writer \<Rightarrow> s3_writer" where
  "s3_Close sw = (if sw_closed sw then sw else sw\<lparr>sw_closed := True\<rparr>)"

subsection \<open>Transactions\<close>

definition batch_applied ::
  "ts_env \<Rightarrow> tick_data list \<Rightarrow> order_book list \<Rightarrow> ts_world \<Rightarrow> ts_world \<Rightarrow> bool" where
  "batch_applied env ticks books w w' \<longleftrightarrow>
     (\<exists>brows. book_rows env books = Some brows \<and>
        tsw_ticks w' = tsw_ticks w @ map tick_row_of ticks \<and> tsw_books w' = tsw_books w @ brows)"

definition tables_kept :: "ts_world \<Rightarrow> ts_world \<Rightarrow> bool" where
  "tables_kept w w' \<longleftrightarrow> tsw_ticks w' = tsw_ticks w \<and> tsw_books w' = tsw_books w"

lemma next_call_tables [simp]:
  "tsw_ticks (next_call w) = tsw_ticks w" "tsw_books (next_call w) = tsw_books w"
  "tsw_step (next_call w) = Suc (tsw_step w)"
  by (simp_all add: next_call_def)

lemma writeBatch_cases:
  assumes "writeBatch env ticks books w = (okay, w')"
  shows "(tables_kept w w' \<and> \<not> okay) \<or>
    (batch_applied env ticks books w w' \<and> (okay \<or> (\<exists>n. te_commit env n = CommitAnswerLost)))"
proof -
  define w1 where "w1 = next_call w"
  define t where "t = (if ticks \<noteq> [] then writeTickData env (tsw_step w1) ticks else Some [])"
  define w2 where "w2 = (if ticks \<noteq> [] then next_call w1 else w1)"
  define b where "b = (if books \<noteq> [] then writeOrderBooks env (tsw_step w2) books else Some [])"
  define w3 where "w3 = (if books \<noteq> [] then next_call w2 else w2)"
  have eq: "writeBatch env ticks books w =
      (if \<not> te_begin env (tsw_step w) then (False, w1)
       else case t of None \<Rightarrow> (False, w2)
         | Some trows \<Rightarrow> (case b of None \<Rightarrow> (False, w3)
             | Some brows \<Rightarrow>
                 (case te_commit env (tsw_step w3) of
                    Committed \<Rightarrow> (True, (next_call w3)\<lparr>tsw_ticks := tsw_ticks (next_call w3) @ trows,
                      tsw_books := tsw_books (next_call w3) @ brows\<rparr>)
                  | CommitFailed \<Rightarrow> (False, next_call w3)
                  | CommitAnswerLost \<Rightarrow> (False, (next_call w3)\<lparr>tsw_ticks := tsw_ticks (next_call w3) @ trows,
                      tsw_books := tsw_books (next_call w3) @ brows\<rparr>))))"
    by (simp only: writeBatch_def Let_def w1_def t_def w2_def b_def w3_def)
  note res = assms [unfolded eq]
  have kept: "tables_kept w w1" "tables_kept w w2" "tables_kept w w3" "tables_kept w (next_call w3)"
    by (auto simp: tables_kept_def w1_def w2_def w3_def)
  show ?thesis
  proof (cases "te_begin env (tsw_step w)")
    case True
    show ?thesis
    proof (cases t)
      case None
      with res True kept show ?thesis by simp
    next
      case t: (Some trows)
      then have trows: "trows = map tick_row_of ticks"
        by (auto simp: t_def writeTickData_def split: if_splits)
      show ?thesis
      proof (cases b)
        case None
        with res True t kept show ?thesis by simp
      next
        case b: (Some brows)
        then have brows: "book_rows env books = Some brows"
          by (auto simp: b_def writeOrderBooks_def split: if_splits option.splits)
        with res True t b kept trows show ?thesis
          by (cases "te_commit env (tsw_step w3)")
            (auto simp: batch_applied_def tables_kept_def)
      qed
    qed
  qed (use res kept in auto)
qed

lemma batch_applied_cong:
  "tables_kept w v \<Longrightarrow> batch_applied env ticks books v w' \<Longrightarrow> batch_applied env ticks books w w'"
  by (auto simp: tables_kept_def batch_applied_def)

lemma write_attempts_atomic:
  assumes "\<forall>n. te_commit env n \<noteq> CommitAnswerLost"
  shows "write_attempts env tw ticks books n left w = (okay, w') \<Longrightarrow>
    (if okay then batch_applied env ticks books w w' else tables_kept w w')"
proof (induction left arbitrary: n w)
  case 0
  then show ?case by (simp add: tables_kept_def)
next
  case (Suc left)
  let ?w1 = "if 0 < n then w\<lparr>tsw_slept := tsw_slept w @ [wrap64 (tw_retry_backoff tw * int n)]\<rparr> else w"
  have k1: "tables_kept w ?w1" by (simp add: tables_kept_def)
  obtain o1 w2 where b: "writeBatch env ticks books ?w1 = (o1, w2)" by fastforce
  note c = writeBatch_cases [OF b]
  show ?case
  proof (cases o1)
    case True
    then have "okay" "w' = w2" using Suc.prems b by auto
    then show ?thesis using c True k1 batch_applied_cong by auto
  next
    case False
    then have "write_attempts env tw ticks books (Suc n) left w2 = (okay, w')"
      using Suc.prems b by auto
    from Suc.IH [OF this] have "if okay then batch_applied env ticks books w2 w' else tables_kept w2 w'" .
    moreover have "tables_kept w w2" using c False assms k1 by (auto simp: tables_kept_def)
    ultimately show ?thesis using batch_applied_cong by (auto simp: tables_kept_def)
  qed
qed


definition unwritable_book :: "order_book \<Rightarrow> bool" where
  "unwritable_book b \<longleftrightarrow> (\<exists>l \<in> set (ob_bids b) \<union> set (ob_asks b). \<not> f_finite (lv_price l))"

lemma book_rows_unwritable: "b \<in> set books \<Longrightarrow> unwritable_book b \<Longrightarrow> book_rows env books = None"
proof (induction books)
  case (Cons c books)
  have "book_row_of env b = None" if "unwritable_book b" for b
    using that by (auto simp: book_row_of_def orderbookLevelsToJSON_def unwritable_book_def Let_def
        split: option.splits)
  with Cons show ?case by (auto split: option.splits)
qed simp

lemma write_attempts_unwritable:
  assumes "b \<in> set books" "unwritable_book b"
  shows "write_attempts env tw ticks books n left w = (okay, w') \<Longrightarrow> \<not> okay \<and> tables_kept w w'"
proof (induction left arbitrary: n w)
  case 0
  then show ?case by (simp add: tables_kept_def)
next
  case (Suc left)
  let ?w1 = "if 0 < n then w\<lparr>tsw_slept := tsw_slept w @ [wrap64 (tw_retry_backoff tw * int n)]\<rparr> else w"
  obtain o1 w2 where b: "writeBatch env ticks books ?w1 = (o1, w2)" by fastforce
  have "tables_kept ?w1 w2 \<and> \<not> o1"
    using writeBatch_cases [OF b] book_rows_unwritable [OF assms, of env] by (auto simp: batch_applied_def)
  then have "tables_kept w w2" "\<not> o1" by (auto simp: tables_kept_def split: if_splits)
  with Suc.prems b Suc.IH show ?case by (auto simp: tables_kept_def)
qed

text \<open>
  One bad order book poisons its batch: when a level's price is NaN or infinite, JSON cannot write
  it, so every attempt of every retry fails, whatever the database does, and the whole batch with
  all its valid ticks and order books is given up.
\<close>

lemma unwritable_batch_fails:
  assumes "m \<in> set ms" "ms_type m = MessageTypeOrderBook" "ms_book m = Some b" "unwritable_book b"
  shows "\<exists>err tw' w'. ts_WriteMessages env ms tw w = (Some err, tw', w') \<and> tables_kept w w'"
proof -
  have ne: "ms \<noteq> []" using assms(1) by auto
  have b: "b \<in> set (batch_books ms)"
    using assms(1-3) by (induction ms) (auto split: message_type.splits option.splits)
  obtain okay w1 where a: "write_attempts env tw (batch_ticks ms) (batch_books ms) 0
      (nat (tw_max_retries tw)) w = (okay, w1)" by fastforce
  from write_attempts_unwritable [OF b assms(4) a] a ne show ?thesis
    by (auto simp: ts_WriteMessages_def tables_kept_def)
qed

text \<open>
  Two batches of one second share an object: the key of an upload is made from the second, so the
  object of a later upload in the same second replaces the earlier one, and only the later
  batch's ticks remain in the bucket although both calls succeeded.
\<close>

theorem s3_same_second_overwrites:
  assumes "s3_WriteMessages env ms1 t1 sw w = (None, sw1, w1)" "s3_WriteMessages env ms2 t2 sw1 w1 = (None, sw2, w2)"
    and "t1 div Second = t2 div Second"
    and "batch_ticks ms1 \<noteq> []" "batch_ticks ms2 \<noteq> []" "batch_books ms1 = []" "batch_books ms2 = []"
  shows "generateS3Key env sw ''tick'' t1 = generateS3Key env sw1 ''tick'' t2 \<and>
     s3_objects w2 = (s3_objects w)(generateS3Key env sw ''tick'' t1 \<mapsto>
       the (se_tick_parquet env (batch_ticks ms2)))"
proof -
  have up: "upload_attempts env n key data v = (True, v') \<Longrightarrow> s3_objects v' = (s3_objects v)(key \<mapsto> data)"
    for n key data v v'
    by (induction n arbitrary: v) (auto simp: Let_def split: if_splits)
  have one: "sw_partition_prefix sw' = sw_partition_prefix sw \<and>
      s3_objects w' = (s3_objects w)(generateS3Key env sw ''tick'' t \<mapsto> the (se_tick_parquet env (batch_ticks ms)))"
    if h: "s3_WriteMessages env ms t sw w = (None, sw', w')" "batch_ticks ms \<noteq> []" "batch_books ms = []"
    for ms t sw w sw' w'
  proof -
    have ne: "ms \<noteq> []" using h(2) by auto
    obtain data where data: "se_tick_parquet env (batch_ticks ms) = Some data"
      using h ne by (cases "se_tick_parquet env (batch_ticks ms)")
        (auto simp: s3_WriteMessages_def writeTicksToParquet_def Let_def split: if_splits)
    with h ne show ?thesis
      by (auto simp: s3_WriteMessages_def writeTicksToParquet_def uploadToS3_def Let_def case_prod_beta
          split: if_splits intro: up [OF prod_eqI])
  qed
  from one [OF assms(1,4,6)] one [OF assms(2,5,7)] assms(3) show ?thesis
    by (simp add: generateS3Key_def)
qed

subsection \<open>The last flush of a cancelled service\<close>

text \<open>
  The flush callback of the recorder's \<open>main\<close>: \<open>WriteMessages\<close> with the service's context.  Once the
  context is cancelled no transaction begins (\<open>pool.Begin(ctx)\<close> returns the context's error).
\<close>

definition flush_callback ::
  "ts_env \<Rightarrow> buffered_message list \<Rightarrow> timescale_writer \<times> ts_world \<Rightarrow> bool \<times> (timescale_writer \<times> ts_world)" where
  "flush_callback env ms w =
     (let (err, tw', w') = ts_WriteMessages env ms (fst w) (snd w) in (err = None, (tw', w')))"

lemma write_attempts_cancelled:
  assumes "\<forall>n. \<not> te_begin env n"
  shows "write_attempts env tw ticks books n left w = (okay, w') \<Longrightarrow> \<not> okay \<and> tables_kept w w'"
proof (induction left arbitrary: n w)
  case (Suc left)
  let ?w1 = "if 0 < n then w\<lparr>tsw_slept := tsw_slept w @ [wrap64 (tw_retry_backoff tw * int n)]\<rparr> else w"
  have "writeBatch env ticks books ?w1 = (False, next_call ?w1)"
    using assms by (simp add: writeBatch_def Let_def)
  then have "write_attempts env tw ticks books (Suc n) left (next_call ?w1) = (okay, w')"
    using Suc.prems by (simp split: if_splits)
  from Suc.IH [OF this] show ?case by (auto simp: tables_kept_def split: if_splits)
qed (simp add: tables_kept_def)

text \<open>
  A graceful shutdown loses what is buffered.  The service cancels its context before the buffers
  make their final flush, and the callback writes with that very context: with a cancelled
  context the final flush empties the buffer and stores nothing, whatever the batch.
\<close>

theorem shutdown_loses_buffer:
  assumes "\<forall>n. \<not> te_begin env n"
    and "final_flush (flush_callback env) (\<lambda>d w. w) bb (tw, w) = (bb', (tw', w'))"
  shows "bb_buffer bb' = [] \<and> tables_kept w w'"
proof -
  have step: "tables_kept w (snd (snd (flush_callback env ms (tw, w))))" for ms tw w
  proof (cases "ms = [] \<or> tw_closed tw")
    case True
    then show ?thesis by (auto simp: flush_callback_def ts_WriteMessages_def tables_kept_def)
  next
    case False
    obtain okay w1 where a: "write_attempts env tw (batch_ticks ms) (batch_books ms) 0
        (nat (tw_max_retries tw)) w = (okay, w1)" by fastforce
    from write_attempts_cancelled [OF assms(1) a] a False show ?thesis
      by (simp add: flush_callback_def ts_WriteMessages_def)
  qed
  have "tables_kept w (snd (snd (final_retries n (flush_callback env) (\<lambda>d w. w) ms (tw, w))))" for n ms tw w
  proof (induction n arbitrary: tw w)
    case (Suc n)
    obtain okay tw1 w1 where c: "flush_callback env ms (tw, w) = (okay, (tw1, w1))" by (metis prod_cases3)
    have "tables_kept w w1" using step [where ms = ms and tw = tw and w = w] by (simp add: c)
    with Suc.IH show ?case by (auto simp: c tables_kept_def)
  qed (simp add: tables_kept_def)
  then show ?thesis
    using assms(2)
    by (auto simp: final_flush_def final_take_def Let_def tables_kept_def split: if_splits)
      (metis snd_conv)+
qed


subsection \<open>Concrete runs\<close>

definition good_ts_env :: ts_env where
  "good_ts_env = \<lparr>te_begin = (\<lambda>n. True), te_copy = (\<lambda>n k. Some k), te_commit = (\<lambda>n. Committed),
     te_json = (\<lambda>ls. ''[]''), te_now = (\<lambda>n. 0)\<rparr>"

definition empty_ts :: ts_world where
  "empty_ts = \<lparr>tsw_step = 0, tsw_ticks = [], tsw_books = [], tsw_slept = []\<rparr>"

definition sample_tick :: "string \<Rightarrow> tick_data" where
  "sample_tick nm = \<lparr>td_symbol = nm, td_price = Fin False 70000, td_volume = 10, td_timestamp = 1,
     td_change = Fin False 0, td_change_rate = Fin False 0\<rparr>"

definition tick_msg :: "string \<Rightarrow> buffered_message" where
  "tick_msg nm = \<lparr>ms_type = MessageTypeTick, ms_timestamp = 0, ms_tick = Some (sample_tick nm), ms_book = None\<rparr>"

definition nan_book :: order_book where
  "nan_book = \<lparr>ob_symbol = ''005930'', ob_bids = [\<lparr>lv_price = NaN, lv_quantity = 1\<rparr>], ob_asks = [],
     ob_timestamp = 1\<rparr>"

definition nan_msg :: buffered_message where
  "nan_msg = \<lparr>ms_type = MessageTypeOrderBook, ms_timestamp = 0, ms_tick = None, ms_book = Some nan_book\<rparr>"

lemma good_write:
  "ts_WriteMessages good_ts_env [tick_msg ''A''] DefaultTimescaleWriter empty_ts =
     (None, fst (snd (ts_WriteMessages good_ts_env [tick_msg ''A''] DefaultTimescaleWriter empty_ts)),
      snd (snd (ts_WriteMessages good_ts_env [tick_msg ''A''] DefaultTimescaleWriter empty_ts)))"
  by (simp add: ts_WriteMessages_def DefaultTimescaleWriter_def numeral_eq_Suc writeBatch_def
      writeTickData_def good_ts_env_def tick_msg_def Let_def)


lemma nan_book_batch_fails:
  "\<exists>err tw' w'. ts_WriteMessages good_ts_env [tick_msg ''A'', nan_msg] DefaultTimescaleWriter empty_ts
     = (Some err, tw', w') \<and> tables_kept empty_ts w'"
  by (rule unwritable_batch_fails [of nan_msg _ nan_book])
    (simp_all add: nan_msg_def nan_book_def unwritable_book_def)

definition good_s3_env :: s3_env where
  "good_s3_env = \<lparr>se_upload = (\<lambda>n. True), se_civil = (\<lambda>s. \<lparr>cv_year = 2025, cv_month = 11, cv_day = 19,
       cv_hour = 16, cv_minute = 12, cv_second = s\<rparr>),
     se_tick_parquet = (\<lambda>ts. Some (concat (map td_symbol ts))), se_book_parquet = (\<lambda>bs. Some []),
     se_json = (\<lambda>ls. [])\<rparr>"

definition empty_s3 :: s3_world where
  "empty_s3 = \<lparr>s3_step = 0, s3_objects = Map.empty\<rparr>"

lemma good_s3_write:
  assumes "\<not> sw_closed sw" "sw_max_retries sw = 3"
  shows "\<exists>sw' w'. s3_WriteMessages good_s3_env [tick_msg nm] t sw w = (None, sw', w') \<and>
     \<not> sw_closed sw' \<and> sw_max_retries sw' = 3"
  using assms
  by (simp add: s3_WriteMessages_def numeral_eq_Suc writeTicksToParquet_def
      uploadToS3_def good_s3_env_def tick_msg_def sample_tick_def Let_def)

theorem s3_same_second_overwrites_witness:
  "\<exists>sw1 w1 sw2 w2.
     s3_WriteMessages good_s3_env [tick_msg ''A''] 100 DefaultS3Writer empty_s3 = (None, sw1, w1) \<and>
     s3_WriteMessages good_s3_env [tick_msg ''B''] 200 sw1 w1 = (None, sw2, w2) \<and>
     s3_objects w2 (generateS3Key good_s3_env DefaultS3Writer ''tick'' 100) = Some ''B''"
proof -
  have d: "\<not> sw_closed DefaultS3Writer" "sw_max_retries DefaultS3Writer = 3"
    by (simp_all add: DefaultS3Writer_def)
  obtain sw1 w1 where a: "s3_WriteMessages good_s3_env [tick_msg ''A''] 100 DefaultS3Writer empty_s3 = (None, sw1, w1)"
    and d1: "\<not> sw_closed sw1" "sw_max_retries sw1 = 3"
    using good_s3_write [OF d] by blast
  obtain sw2 w2 where b: "s3_WriteMessages good_s3_env [tick_msg ''B''] 200 sw1 w1 = (None, sw2, w2)"
    using good_s3_write [OF d1] by blast
  have "batch_ticks [tick_msg s] \<noteq> []" "batch_books [tick_msg s] = []"
    "the (se_tick_parquet good_s3_env (batch_ticks [tick_msg ''B''])) = ''B''" for s
    by (simp_all add: tick_msg_def good_s3_env_def sample_tick_def)
  with s3_same_second_overwrites [OF a b] a b show ?thesis
    by (auto simp: go_simps)
qed

theorem shutdown_loses_buffer_witness:
  "tables_kept empty_ts (snd (snd (final_flush (flush_callback (good_ts_env\<lparr>te_begin := \<lambda>n. False\<rparr>)) (\<lambda>d w. w)
     ((NewBatchBuffer 10 Second 0)\<lparr>bb_buffer := [tick_msg ''A'']\<rparr>) (DefaultTimescaleWriter, empty_ts))))"
  using shutdown_loses_buffer [of "good_ts_env\<lparr>te_begin := \<lambda>n. False\<rparr>"
      "(NewBatchBuffer 10 Second 0)\<lparr>bb_buffer := [tick_msg ''A'']\<rparr>" DefaultTimescaleWriter empty_ts]
  by (simp add: prod_eq_iff)

end
