(* ===== verification/Market_Consumer.thy ===== *)
theory Market_Consumer
  imports Kafka Market_Writers
begin

text \<open>
  The market data consumer of \<open>data-recorder-service/internal/consumer/market_consumer.go\<close>: it
  checks each Kafka message and adds it to the batch buffer of its kind.  The buffers are the
  ones of \<open>Batch_Buffer\<close>; the claim loop that calls \<open>handleMessage\<close> is the one of \<open>Kafka\<close>.
\<close>

subsection \<open>State\<close>

record mc_config =
  mc_brokers :: "string list"
  mc_group_id :: string
  mc_topics :: "string list"
  mc_offset_oldest :: bool
  mc_session_timeout :: duration
  mc_heartbeat_interval :: duration

record market_consumer =
  mc_tick_buffer :: "buffered_message batch_buffer"
  mc_orderbook_buffer :: "buffered_message batch_buffer"
  mc_total_messages :: int
  mc_total_errors :: int
  mc_tick_count :: int
  mc_orderbook_count :: int
  mc_last_message_at :: int
  mc_running :: bool

record consumer_metrics =
  cm_total_messages :: int
  cm_total_errors :: int
  cm_tick_count :: int
  cm_orderbook_count :: int
  cm_last_message_at :: instant

text \<open>Protobuf decoding is a parameter; \<open>None\<close> is an error.\<close>

record mc_env =
  me_tick :: "string \<Rightarrow> tick_data option"
  me_orderbook :: "string \<Rightarrow> order_book option"

datatype mc_error = MCConfigNil | MCBuffersNil | MCKafkaFailed | MCNotRunning | MCStale

text \<open>
  \<open>NewMarketConsumer\<close>; \<open>group_ok\<close> is whether Sarama could create the consumer group for the
  configuration it is given.
\<close>

definition whole_seconds :: "duration \<Rightarrow> int" where
  "whole_seconds d = (if d < 0 then - (- d div Second) else d div Second)"

definition recorder_config_of :: "mc_config \<Rightarrow> recorder_config" where
  "recorder_config_of cfg =
     \<lparr>rc_brokers = mc_brokers cfg, rc_group_id = mc_group_id cfg, rc_topics = mc_topics cfg,
      rc_enable_auto_commit = True, rc_auto_commit_interval = 5,
      rc_session_timeout = whole_seconds (mc_session_timeout cfg),
      rc_heartbeat_interval = whole_seconds (mc_heartbeat_interval cfg),
      rc_offset_initial = (if mc_offset_oldest cfg then ''oldest'' else ''latest'')\<rparr>"

definition NewMarketConsumer ::
  "(recorder_config \<Rightarrow> 'tls sarama_config \<Rightarrow> bool) \<Rightarrow> 'tls sarama_config \<Rightarrow> mc_config option \<Rightarrow>
     buffered_message batch_buffer option \<Rightarrow> buffered_message batch_buffer option \<Rightarrow>
     mc_error + market_consumer" where
  "NewMarketConsumer group_ok fresh cfg ticks books =
     (case cfg of
        None \<Rightarrow> Inl MCConfigNil
      | Some c \<Rightarrow>
        (case (ticks, books) of
           (Some tb, Some bb) \<Rightarrow>
             let rc = recorder_config_of c in
             if group_ok rc (recorder_sarama_config fresh rc)
             then Inr \<lparr>mc_tick_buffer = tb, mc_orderbook_buffer = bb, mc_total_messages = 0,
                    mc_total_errors = 0, mc_tick_count = 0, mc_orderbook_count = 0,
                    mc_last_message_at = 0, mc_running = True\<rparr>
             else Inl MCKafkaFailed
         | _ \<Rightarrow> Inl MCBuffersNil))"

subsection \<open>Validation\<close>

datatype invalid_data =
    SymbolEmpty | InvalidPrice f64 | InvalidVolume int | InvalidTimestamp int | BothSidesEmpty
  | InvalidBidPrice nat f64 | InvalidBidQuantity nat int
  | InvalidAskPrice nat f64 | InvalidAskQuantity nat int

definition validateTickData :: "tick_data \<Rightarrow> invalid_data option" where
  "validateTickData tick =
     (if td_symbol tick = [] then Some SymbolEmpty
      else if f_le (td_price tick) (Fin False 0) then Some (InvalidPrice (td_price tick))
      else if td_volume tick < 0 then Some (InvalidVolume (td_volume tick))
      else if td_timestamp tick \<le> 0 then Some (InvalidTimestamp (td_timestamp tick))
      else None)"

fun validate_levels ::
  "(nat \<Rightarrow> f64 \<Rightarrow> invalid_data) \<Rightarrow> (nat \<Rightarrow> int \<Rightarrow> invalid_data) \<Rightarrow> nat \<Rightarrow> level list \<Rightarrow>
     invalid_data option" where
  "validate_levels bad_price bad_quantity i [] = None"
| "validate_levels bad_price bad_quantity i (l # ls) =
     (if f_le (lv_price l) (Fin False 0) then Some (bad_price i (lv_price l))
      else if lv_quantity l < 0 then Some (bad_quantity i (lv_quantity l))
      else validate_levels bad_price bad_quantity (Suc i) ls)"

definition validateOrderBook :: "order_book \<Rightarrow> invalid_data option" where
  "validateOrderBook ob =
     (if ob_symbol ob = [] then Some SymbolEmpty
      else if ob_bids ob = [] \<and> ob_asks ob = [] then Some BothSidesEmpty
      else if ob_timestamp ob \<le> 0 then Some (InvalidTimestamp (ob_timestamp ob))
      else case validate_levels InvalidBidPrice InvalidBidQuantity 0 (ob_bids ob) of
        Some e \<Rightarrow> Some e
      | None \<Rightarrow> validate_levels InvalidAskPrice InvalidAskQuantity 0 (ob_asks ob))"

subsection \<open>Messages\<close>

text \<open>\<open>AddTick\<close> and \<open>AddOrderBook\<close> of the buffer.\<close>

definition AddTick :: "instant \<Rightarrow> tick_data \<Rightarrow> buffered_message batch_buffer \<Rightarrow>
    buffer_error option \<times> buffered_message batch_buffer" where
  "AddTick now tick bb =
     buffer_add \<lparr>ms_type = MessageTypeTick, ms_timestamp = now, ms_tick = Some tick, ms_book = None\<rparr> bb"

definition AddOrderBook :: "instant \<Rightarrow> order_book \<Rightarrow> buffered_message batch_buffer \<Rightarrow>
    buffer_error option \<times> buffered_message batch_buffer" where
  "AddOrderBook now ob bb =
     buffer_add \<lparr>ms_type = MessageTypeOrderBook, ms_timestamp = now, ms_tick = None, ms_book = Some ob\<rparr> bb"

definition count_error :: "market_consumer \<Rightarrow> market_consumer" where
  "count_error mc = mc\<lparr>mc_total_errors := mc_total_errors mc + 1\<rparr>"

definition handleTickMessage ::
  "mc_env \<Rightarrow> instant \<Rightarrow> consumed_message \<Rightarrow> market_consumer \<Rightarrow> buffer_error option \<times> market_consumer" where
  "handleTickMessage env now msg mc =
     (case me_tick env (cm_value msg) of
        None \<Rightarrow> (None, count_error mc)
      | Some tick \<Rightarrow>
        (case validateTickData tick of
           Some e \<Rightarrow> (None, count_error mc)
         | None \<Rightarrow>
           (case AddTick now tick (mc_tick_buffer mc) of
              (Some err, bb) \<Rightarrow> (Some err, count_error (mc\<lparr>mc_tick_buffer := bb\<rparr>))
            | (None, bb) \<Rightarrow>
                (None, mc\<lparr>mc_tick_buffer := bb, mc_tick_count := mc_tick_count mc + 1\<rparr>))))"

definition handleOrderBookMessage ::
  "mc_env \<Rightarrow> instant \<Rightarrow> consumed_message \<Rightarrow> market_consumer \<Rightarrow> buffer_error option \<times> market_consumer" where
  "handleOrderBookMessage env now msg mc =
     (case me_orderbook env (cm_value msg) of
        None \<Rightarrow> (None, count_error mc)
      | Some ob \<Rightarrow>
        (case validateOrderBook ob of
           Some e \<Rightarrow> (None, count_error mc)
         | None \<Rightarrow>
           (case AddOrderBook now ob (mc_orderbook_buffer mc) of
              (Some err, bb) \<Rightarrow> (Some err, count_error (mc\<lparr>mc_orderbook_buffer := bb\<rparr>))
            | (None, bb) \<Rightarrow>
                (None, mc\<lparr>mc_orderbook_buffer := bb, mc_orderbook_count := mc_orderbook_count mc + 1\<rparr>))))"

text \<open>The clock is read once for the counters and once more by the buffer's \<open>Add\<close>.\<close>

definition mc_handleMessage ::
  "mc_env \<Rightarrow> instant \<Rightarrow> instant \<Rightarrow> consumed_message \<Rightarrow> market_consumer \<Rightarrow>
     buffer_error option \<times> market_consumer" where
  "mc_handleMessage env now now' msg mc =
     (let mc1 = mc\<lparr>mc_total_messages := mc_total_messages mc + 1, mc_last_message_at := now div Second\<rparr> in
      if cm_topic msg = ''market.tick'' then handleTickMessage env now' msg mc1
      else if cm_topic msg = ''market.orderbook'' then handleOrderBookMessage env now' msg mc1
      else (None, mc1))"

definition mc_Start :: "market_consumer \<Rightarrow> mc_error option" where
  "mc_Start mc = (if \<not> mc_running mc then Some MCNotRunning else None)"

definition mc_Stop :: "market_consumer \<Rightarrow> market_consumer" where
  "mc_Stop mc = (if \<not> mc_running mc then mc else mc\<lparr>mc_running := False\<rparr>)"

definition mc_Metrics :: "market_consumer \<Rightarrow> consumer_metrics" where
  "mc_Metrics mc =
     \<lparr>cm_total_messages = mc_total_messages mc, cm_total_errors = mc_total_errors mc,
      cm_tick_count = mc_tick_count mc, cm_orderbook_count = mc_orderbook_count mc,
      cm_last_message_at = mc_last_message_at mc * Second\<rparr>"

text \<open>\<open>time.Unix(s, 0)\<close> is the zero time only for the second in which year 1 begins.\<close>

definition mc_HealthCheck :: "instant \<Rightarrow> market_consumer \<Rightarrow> mc_error option" where
  "mc_HealthCheck now mc =
     (if \<not> mc_running mc then Some MCNotRunning
      else
        let lastMsg = mc_last_message_at mc * Second in
        if lastMsg \<noteq> zero_time \<and> 5 * Minute < now - lastMsg then Some MCStale else None)"

subsection \<open>What is stored\<close>

lemma validate_levels_None:
  "validate_levels bp bq i ls = None \<longleftrightarrow>
     (\<forall>l \<in> set ls. \<not> f_le (lv_price l) (Fin False 0) \<and> 0 \<le> lv_quantity l)"
  by (induction ls arbitrary: i) auto

lemma validateOrderBook_None:
  "validateOrderBook ob = None \<longleftrightarrow>
     ob_symbol ob \<noteq> [] \<and> (ob_bids ob \<noteq> [] \<or> ob_asks ob \<noteq> []) \<and> 0 < ob_timestamp ob \<and>
     (\<forall>l \<in> set (ob_bids ob) \<union> set (ob_asks ob).
        \<not> f_le (lv_price l) (Fin False 0) \<and> 0 \<le> lv_quantity l)"
proof -
  have "validateOrderBook ob = None \<longleftrightarrow>
     ob_symbol ob \<noteq> [] \<and> (ob_bids ob \<noteq> [] \<or> ob_asks ob \<noteq> []) \<and> 0 < ob_timestamp ob \<and>
     validate_levels InvalidBidPrice InvalidBidQuantity 0 (ob_bids ob) = None \<and>
     validate_levels InvalidAskPrice InvalidAskQuantity 0 (ob_asks ob) = None"
    by (auto simp: validateOrderBook_def split: option.splits)
  then show ?thesis by (auto simp: validate_levels_None)
qed

lemma buffer_add_cases:
  "buffer_add m bb = (None, bb') \<Longrightarrow> bb_buffer bb' = bb_buffer bb @ [m] \<and> bb_running bb"
  "buffer_add m bb = (Some err, bb') \<Longrightarrow> bb_buffer bb' = bb_buffer bb \<and>
     (err = ErrBufferClosed \<longleftrightarrow> \<not> bb_running bb) \<and>
     (err = ErrBufferFull \<longrightarrow> wrap64 (bb_max_size bb * 2) \<le> int (length (bb_buffer bb)))"
  by (auto simp: buffer_add_def add_check_def add_locked_def Let_def split: if_splits)

lemma buffer_add_accepts:
  assumes "bb_running bb" "int (length (bb_buffer bb)) < wrap64 (bb_max_size bb * 2)"
  shows "\<exists>bb'. buffer_add m bb = (None, bb') \<and> bb_buffer bb' = bb_buffer bb @ [m]"
  using assms by (simp add: buffer_add_def add_check_def add_locked_def Let_def)

text \<open>What a message decodes to, when it is of a known topic and valid.\<close>

definition valid_data :: "mc_env \<Rightarrow> consumed_message \<Rightarrow> (tick_data + order_book) option" where
  "valid_data env msg =
     (if cm_topic msg = ''market.tick'' then
        (case me_tick env (cm_value msg) of
           Some t \<Rightarrow> if validateTickData t = None then Some (Inl t) else None | None \<Rightarrow> None)
      else if cm_topic msg = ''market.orderbook'' then
        (case me_orderbook env (cm_value msg) of
           Some b \<Rightarrow> if validateOrderBook b = None then Some (Inr b) else None | None \<Rightarrow> None)
      else None)"

definition buffered :: "instant \<Rightarrow> tick_data + order_book \<Rightarrow> buffered_message" where
  "buffered now d = (case d of
     Inl t \<Rightarrow> \<lparr>ms_type = MessageTypeTick, ms_timestamp = now, ms_tick = Some t, ms_book = None\<rparr>
   | Inr b \<Rightarrow> \<lparr>ms_type = MessageTypeOrderBook, ms_timestamp = now, ms_tick = None, ms_book = Some b\<rparr>)"

definition buffers :: "market_consumer \<Rightarrow> buffered_message list \<times> buffered_message list" where
  "buffers mc = (bb_buffer (mc_tick_buffer mc), bb_buffer (mc_orderbook_buffer mc))"

definition store_data :: "instant \<Rightarrow> (tick_data + order_book) option \<Rightarrow>
    buffered_message list \<times> buffered_message list \<Rightarrow> buffered_message list \<times> buffered_message list" where
  "store_data now d b = (case d of
     None \<Rightarrow> b
   | Some (Inl t) \<Rightarrow> (fst b @ [buffered now (Inl t)], snd b)
   | Some (Inr ob) \<Rightarrow> (fst b, snd b @ [buffered now (Inr ob)]))"

lemma handleMessage_effect:
  assumes "mc_handleMessage env now now' msg mc = (res, mc')"
  shows "(res = None \<longrightarrow> buffers mc' = store_data now' (valid_data env msg) (buffers mc)) \<and>
     (res \<noteq> None \<longrightarrow> buffers mc' = buffers mc \<and> valid_data env msg \<noteq> None \<and>
        mc_total_errors mc' = mc_total_errors mc + 1)"
  using assms
  by (auto dest: buffer_add_cases simp: mc_handleMessage_def handleTickMessage_def handleOrderBookMessage_def Let_def
      AddTick_def AddOrderBook_def count_error_def valid_data_def buffers_def store_data_def buffered_def
      split: if_splits option.splits prod.splits)

text \<open>
  What one message does.  When \<open>handleMessage\<close> answers nil, exactly the valid data of the message
  has been appended to the buffer of its kind, and nothing for an unknown topic, an undecodable
  or an invalid message; when it answers an error the message was valid, no buffer has changed,
  and the error is counted.
\<close>

theorem handleMessage_stores:
  assumes "mc_handleMessage env now now' msg mc = (res, mc')"
  shows "(res = None \<longrightarrow> buffers mc' = store_data now' (valid_data env msg) (buffers mc)) \<and>
     (res \<noteq> None \<longrightarrow> buffers mc' = buffers mc \<and> valid_data env msg \<noteq> None \<and>
        mc_total_errors mc' = mc_total_errors mc + 1)"
  by (rule handleMessage_effect [OF assms])

subsection \<open>Counters\<close>

definition counters :: "market_consumer \<Rightarrow> int \<times> int \<times> int \<times> int" where
  "counters mc = (mc_total_messages mc, mc_tick_count mc, mc_orderbook_count mc, mc_total_errors mc)"

definition mc_handler ::
  "mc_env \<Rightarrow> (consumed_message \<Rightarrow> instant \<times> instant) \<Rightarrow> (market_consumer, buffer_error) message_handler" where
  "mc_handler env clock msg = mc_handleMessage env (fst (clock msg)) (snd (clock msg)) msg"

definition known_topic :: "string \<Rightarrow> bool" where
  "known_topic t \<longleftrightarrow> t = ''market.tick'' \<or> t = ''market.orderbook''"

lemma mc_handler_counts:
  "let mc' = snd (mc_handler env clock msg mc) in
   mc_total_messages mc' = mc_total_messages mc + 1 \<and>
   mc_tick_count mc' + mc_orderbook_count mc' + mc_total_errors mc' =
     mc_tick_count mc + mc_orderbook_count mc + mc_total_errors mc + (if known_topic (cm_topic msg) then 1 else 0)"
  by (auto simp: mc_handler_def mc_handleMessage_def handleTickMessage_def handleOrderBookMessage_def
      Let_def count_error_def known_topic_def split: option.splits prod.splits)

interpretation market_handler: message_handler "mc_handler env clock" None mc_total_messages
  using mc_handler_counts
  by unfold_locales (simp add: process_message_def case_prod_beta Let_def)

lemma consumer_balance:
  "(\<And>f v. OtherStep f \<in> set evs \<Longrightarrow> counters (f v) = counters v) \<Longrightarrow>
   (let mc' = fst (ConsumeClaim cs auto (mc_handler env clock) None evs (mc, s)) in
    mc_tick_count mc' + mc_orderbook_count mc' + mc_total_errors mc' =
      mc_tick_count mc + mc_orderbook_count mc + mc_total_errors mc +
      int (length (filter (\<lambda>m. known_topic (sm_topic m)) (delivered evs))))"
proof (induction evs arbitrary: mc s)
  case (Cons ev evs)
  have IH: "\<And>mc s. let mc' = fst (ConsumeClaim cs auto (mc_handler env clock) None evs (mc, s)) in
      mc_tick_count mc' + mc_orderbook_count mc' + mc_total_errors mc' =
      mc_tick_count mc + mc_orderbook_count mc + mc_total_errors mc +
      int (length (filter (\<lambda>m. known_topic (sm_topic m)) (delivered evs)))"
    using Cons by simp
  show ?case
  proof (cases ev)
    case (ClaimMessage m)
    show ?thesis unfolding ClaimMessage
      using mc_handler_counts [of env clock "consumed_of m" mc]
      by (simp add: IH [unfolded Let_def] process_message_def case_prod_beta Let_def consumed_of_def)
  next
    case (OtherStep f)
    have "counters (f mc) = counters mc" using Cons.prems OtherStep by simp
    then show ?thesis unfolding OtherStep by (simp add: IH [unfolded Let_def] counters_def)
  qed (simp_all add: Let_def)
qed simp

text \<open>
  The consumer's counters are a balance.  Over any run of the claim loop, with any steps of the
  flushing goroutines in between, every delivered message is counted once in the total, and every
  one of a known topic exactly once among the ticks, the order books and the errors.
\<close>

theorem consumer_counters_balance:
  assumes "\<forall>f v. OtherStep f \<in> set evs \<longrightarrow> counters (f v) = counters v"
    and "recorder_ConsumeClaim cs auto (mc_handler env clock) evs (mc, s) = (mc', s')"
  shows "mc_total_messages mc' = mc_total_messages mc + int (length (delivered evs)) \<and>
     mc_tick_count mc' + mc_orderbook_count mc' + mc_total_errors mc' =
       mc_tick_count mc + mc_orderbook_count mc + mc_total_errors mc +
       int (length (filter (\<lambda>m. known_topic (sm_topic m)) (delivered evs)))"
proof -
  have t: "\<And>f v. OtherStep f \<in> set evs \<Longrightarrow> mc_total_messages (f v) = mc_total_messages v"
    using assms(1) by (auto simp: counters_def)
  have "mc_total_messages (fst (ConsumeClaim cs auto (mc_handler env clock) None evs (mc, s))) =
      mc_total_messages mc + int (length (delivered evs))"
    by (rule market_handler.tally_counts_deliveries) (rule t)
  moreover have "let mc' = fst (ConsumeClaim cs auto (mc_handler env clock) None evs (mc, s)) in
      mc_tick_count mc' + mc_orderbook_count mc' + mc_total_errors mc' =
      mc_tick_count mc + mc_orderbook_count mc + mc_total_errors mc +
      int (length (filter (\<lambda>m. known_topic (sm_topic m)) (delivered evs)))"
    by (rule consumer_balance) (use assms(1) in blast)
  ultimately show ?thesis using assms(2) by (simp add: recorder_ConsumeClaim_def Let_def)
qed

subsection \<open>Lost and poisonous messages\<close>

text \<open>
  An error does not bring a message back.  When the buffer refuses a message and a later message of
  the partition is accepted, the group resumes behind both: the refused message, which is in no
  buffer, is not delivered again.
\<close>

theorem refused_message_is_lost:
  assumes "session_laws cs nxt"
    and "mc_handler env clock (consumed_of m) mc = (Some err, mc1)"
    and "mc_handler env clock (consumed_of m2) (flush mc1) = (None, mc2)"
    and "sm_topic m2 = sm_topic m" "sm_partition m2 = sm_partition m" "sm_offset m < sm_offset m2"
    and "recorder_ConsumeClaim cs True (mc_handler env clock)
       [ClaimMessage m, OtherStep flush, ClaimMessage m2] (mc, s) = (mc', s')"
  shows "sm_offset m < nxt s' (sm_topic m, sm_partition m) \<and> buffers mc1 = buffers mc \<and>
     buffers mc' = store_data (snd (clock (consumed_of m2))) (valid_data env (consumed_of m2))
       (buffers (flush mc1))"
proof -
  have a: "acked (mc_handler env clock) None [ClaimMessage m, OtherStep flush, ClaimMessage m2] mc = [m2]"
    using assms(2,3) by (simp add: process_message_def)
  have n: "nxt s' (sm_topic m, sm_partition m) = resume_after [m2] (nxt s (sm_topic m, sm_partition m))"
    using ConsumeClaim_offset [OF assms(1), of True "mc_handler env clock" None
        "[ClaimMessage m, OtherStep flush, ClaimMessage m2]" mc s] assms(4,5,7) a
    by (simp add: recorder_ConsumeClaim_def)
  have "mc' = mc2" using assms(2,3,7) by (simp add: recorder_ConsumeClaim_def process_message_def)
  with n assms(6) assms(2,3) show ?thesis
    using handleMessage_effect [of env _ _ "consumed_of m" mc "Some err" mc1]
      handleMessage_effect [of env _ _ "consumed_of m2" "flush mc1" None mc2]
    by (auto simp: mc_handler_def)
qed

text \<open>
  C16. A poisonous order book is acknowledged.  The validation lets a price that is NaN or infinite
  through, so the message is added to the buffer and its offset acknowledged; and then every write
  of a batch that contains it fails, at every retry and whatever the database does, and the whole
  batch is dropped with it.
\<close>

theorem poison_book_is_acknowledged:
  assumes "cm_topic msg = ''market.orderbook''" "me_orderbook env (cm_value msg) = Some b"
    and "validateOrderBook b = None" "unwritable_book b"
    and "bb_running (mc_orderbook_buffer mc)"
    and "int (length (bb_buffer (mc_orderbook_buffer mc))) < wrap64 (bb_max_size (mc_orderbook_buffer mc) * 2)"
  shows "\<exists>mc' m. mc_handler env clock msg mc = (None, mc') \<and>
     bb_buffer (mc_orderbook_buffer mc') = bb_buffer (mc_orderbook_buffer mc) @ [m] \<and>
     (\<forall>tenv ms tw w. m \<in> set ms \<longrightarrow>
        (\<exists>err tw' w'. ts_WriteMessages tenv ms tw w = (Some err, tw', w') \<and> tables_kept w w'))"
proof -
  let ?m = "buffered (snd (clock msg)) (Inr b)"
  obtain bb' where "buffer_add ?m (mc_orderbook_buffer mc) = (None, bb')"
      "bb_buffer bb' = bb_buffer (mc_orderbook_buffer mc) @ [?m]"
    using buffer_add_accepts [OF assms(5,6)] by blast
  then have "\<exists>mc'. mc_handler env clock msg mc = (None, mc') \<and>
      bb_buffer (mc_orderbook_buffer mc') = bb_buffer (mc_orderbook_buffer mc) @ [?m]"
    using assms(1-3) by (auto simp: mc_handler_def mc_handleMessage_def handleOrderBookMessage_def
        AddOrderBook_def buffered_def Let_def)
  moreover have "\<forall>tenv ms tw w. ?m \<in> set ms \<longrightarrow>
      (\<exists>err tw' w'. ts_WriteMessages tenv ms tw w = (Some err, tw', w') \<and> tables_kept w w')"
    using unwritable_batch_fails [where b = b, OF _ _ _ assms(4)] by (simp add: buffered_def)
  ultimately show ?thesis by blast
qed

text \<open>
  The health check fails before the first message.  It is healthy exactly when the consumer runs
  and the last message is at most five minutes old, but the test for "no message yet" compares the
  Unix epoch with the zero time of year 1: a consumer that has just been created is reported stale.
\<close>

theorem new_consumer_reported_stale:
  assumes "NewMarketConsumer group_ok fresh cfg ticks books = Inr mc" "5 * Minute < now"
  shows "mc_running mc \<and> mc_total_messages mc = 0 \<and> mc_HealthCheck now mc = Some MCStale"
  using assms
  by (auto simp: NewMarketConsumer_def mc_HealthCheck_def zero_time_def go_simps Let_def
      split: option.splits if_splits)

subsection \<open>Concrete runs\<close>

definition sample_mc_env :: mc_env where
  "sample_mc_env = \<lparr>me_tick = (\<lambda>v. if v = [] then None else Some (sample_tick v)),
     me_orderbook = (\<lambda>v. Some nan_book)\<rparr>"

definition sample_mc :: "int \<Rightarrow> market_consumer" where
  "sample_mc n = \<lparr>mc_tick_buffer = NewBatchBuffer n Second 0, mc_orderbook_buffer = NewBatchBuffer n Second 0,
     mc_total_messages = 0, mc_total_errors = 0, mc_tick_count = 0, mc_orderbook_count = 0,
     mc_last_message_at = 0, mc_running = True\<rparr>"

definition market_msg :: "string \<Rightarrow> int \<Rightarrow> string \<Rightarrow> sarama_message" where
  "market_msg t n v = \<lparr>sm_topic = t, sm_partition = 0, sm_offset = n, sm_key = [], sm_value = v,
     sm_headers = [], sm_timestamp = 0\<rparr>"

theorem handleMessage_stores_witness:
  "buffers (snd (mc_handleMessage sample_mc_env 0 0 (consumed_of (market_msg ''market.tick'' 0 [])) (sample_mc 5)))
     = ([], [])"
proof -
  obtain mc' where r: "mc_handleMessage sample_mc_env 0 0 (consumed_of (market_msg ''market.tick'' 0 []))
      (sample_mc 5) = (None, mc')"
    by (simp add: mc_handleMessage_def handleTickMessage_def consumed_of_def market_msg_def
        sample_mc_env_def Let_def)
  from handleMessage_stores [OF r] r show ?thesis
    by (simp add: valid_data_def store_data_def consumed_of_def market_msg_def sample_mc_env_def
        buffers_def sample_mc_def NewBatchBuffer_def)
qed

theorem consumer_counters_balance_witness:
  "mc_total_messages (fst (recorder_ConsumeClaim map_session True (mc_handler sample_mc_env (\<lambda>m. (0, 0)))
     [ClaimMessage (market_msg ''market.tick'' 0 ''A''), OtherStep (\<lambda>mc. mc),
      ClaimMessage (market_msg ''other'' 1 ''B'')] (sample_mc 5, \<lambda>k. 0))) = 2"
proof -
  let ?evs = "[ClaimMessage (market_msg ''market.tick'' 0 ''A''), OtherStep (\<lambda>mc. mc),
      ClaimMessage (market_msg ''other'' 1 ''B'')]"
  obtain mc' s' where r: "recorder_ConsumeClaim map_session True (mc_handler sample_mc_env (\<lambda>m. (0, 0)))
      ?evs (sample_mc 5, \<lambda>k. 0) = (mc', s')" by (metis surj_pair)
  have "\<forall>f v. OtherStep f \<in> set ?evs \<longrightarrow> counters (f v) = counters v" by auto
  from consumer_counters_balance [OF this r] r show ?thesis by (simp add: sample_mc_def)
qed

definition full_mc :: market_consumer where
  "full_mc = (sample_mc 1)\<lparr>mc_tick_buffer := (NewBatchBuffer 1 Second 0)\<lparr>bb_buffer := [tick_msg ''A'', tick_msg ''B'']\<rparr>\<rparr>"

definition flush_ticks :: "market_consumer \<Rightarrow> market_consumer" where
  "flush_ticks mc = mc\<lparr>mc_tick_buffer := (mc_tick_buffer mc)\<lparr>bb_buffer := []\<rparr>\<rparr>"

theorem refused_message_is_lost_witness:
  "\<exists>s'. snd (recorder_ConsumeClaim map_session True (mc_handler sample_mc_env (\<lambda>m. (0, 0)))
     [ClaimMessage (market_msg ''market.tick'' 3 ''C''), OtherStep flush_ticks,
      ClaimMessage (market_msg ''market.tick'' 4 ''D'')] (full_mc, \<lambda>k. 3)) = s' \<and> 3 < s' (''market.tick'', 0)"
proof -
  let ?h = "mc_handler sample_mc_env (\<lambda>m. (0, 0))"
  let ?m = "market_msg ''market.tick'' 3 ''C''" and ?m2 = "market_msg ''market.tick'' 4 ''D''"
  have v: "validateTickData (sample_tick x) = None" if "x \<noteq> []" for x
    using that by (simp add: validateTickData_def sample_tick_def)
  note defs = mc_handler_def mc_handleMessage_def handleTickMessage_def AddTick_def buffer_add_def
    add_check_def add_locked_def full_mc_def sample_mc_def NewBatchBuffer_def flush_ticks_def
    consumed_of_def market_msg_def sample_mc_env_def Let_def count_error_def wrap64_def
  obtain mc1 where 1: "?h (consumed_of ?m) full_mc = (Some ErrBufferFull, mc1)"
      and b: "bb_running (mc_tick_buffer mc1)" "bb_max_size (mc_tick_buffer mc1) = 1"
    using v [of "''C''"] by (simp add: defs)
  obtain mc2 where 2: "?h (consumed_of ?m2) (flush_ticks mc1) = (None, mc2)"
    using v [of "''D''"] b by (simp add: defs)
  obtain mc' s' where r: "recorder_ConsumeClaim map_session True ?h
      [ClaimMessage ?m, OtherStep flush_ticks, ClaimMessage ?m2] (full_mc, \<lambda>k. 3) = (mc', s')"
    by (metis surj_pair)
  from refused_message_is_lost [OF map_session_laws 1 2 _ _ _ r] r show ?thesis
    by (simp add: market_msg_def)
qed

theorem poison_book_is_acknowledged_witness:
  "\<exists>mc'. mc_handler sample_mc_env (\<lambda>m. (0, 0)) (consumed_of (market_msg ''market.orderbook'' 0 ''x''))
     (sample_mc 5) = (None, mc')"
proof -
  have "validateOrderBook nan_book = None" "unwritable_book nan_book"
    by (simp_all add: validateOrderBook_None nan_book_def unwritable_book_def)
  from poison_book_is_acknowledged [OF _ _ this, of "consumed_of (market_msg ''market.orderbook'' 0 ''x'')"
      sample_mc_env "sample_mc 5" "\<lambda>m. (0, 0)"]
  show ?thesis
    by (auto simp: consumed_of_def market_msg_def sample_mc_env_def sample_mc_def NewBatchBuffer_def wrap64_id)
qed

theorem new_consumer_reported_stale_witness:
  "mc_HealthCheck (6 * Minute) (sample_mc 5) = Some MCStale"
  using new_consumer_reported_stale [of "\<lambda>rc sc. True" undefined
      "Some \<lparr>mc_brokers = [], mc_group_id = [], mc_topics = [], mc_offset_oldest = True,
         mc_session_timeout = 0, mc_heartbeat_interval = 0\<rparr>"
      "Some (NewBatchBuffer 5 Second 0)" "Some (NewBatchBuffer 5 Second 0)" "sample_mc 5" "6 * Minute"]
  by (simp add: NewMarketConsumer_def sample_mc_def go_simps)

end
