(* ===== verification/Go_Scan.thy ===== *)
theory Go_Scan
  imports Go_Strings
begin

text \<open>
  What the services use of \<open>fmt.Sscanf\<close> and \<open>strconv\<close>: literal text, and the verb \<open>%d\<close> into an unsigned or
  signed integer of a given width.  A scan yields the rest of the input, which \<open>Sscanf\<close> does not
  have to use up; \<open>None\<close> is its error.  White space before a number is skipped, also what is white
  space in UTF-8, but a line end is an error.
\<close>

definition wide_space2 :: "string \<Rightarrow> bool" where
  "wide_space2 s \<longleftrightarrow> take 2 s \<in> {[CHR 0xC2, CHR 0x85], [CHR 0xC2, CHR 0xA0]}"

definition wide_space3 :: "string \<Rightarrow> bool" where
  "wide_space3 s \<longleftrightarrow>
     take 3 s \<in> {[CHR 0xE1, CHR 0x9A, CHR 0x80], [CHR 0xE2, CHR 0x80, CHR 0xA8], [CHR 0xE2, CHR 0x80, CHR 0xA9],
       [CHR 0xE2, CHR 0x80, CHR 0xAF], [CHR 0xE2, CHR 0x81, CHR 0x9F], [CHR 0xE3, CHR 0x80, CHR 0x80]} \<or>
     (length s \<ge> 3 \<and> take 2 s = [CHR 0xE2, CHR 0x80] \<and> 0x80 \<le> (of_char (s ! 2) :: nat) \<and> of_char (s ! 2) \<le> (0x8A :: nat))"

function skip_space :: "string \<Rightarrow> string option" where
  "skip_space s =
     (if s = [] then Some []
      else if hd s = CHR 0x0A then None
      else if is_space (hd s) then skip_space (drop 1 s)
      else if wide_space2 s then skip_space (drop 2 s)
      else if wide_space3 s then skip_space (drop 3 s)
      else Some s)"
  by auto
termination by (relation "measure length") auto

declare skip_space.simps [simp del]

definition scan_literal :: "string \<Rightarrow> string \<Rightarrow> string option" where
  "scan_literal p s = (if has_prefix s p then Some (drop (length p) s) else None)"

definition dec_value :: "string \<Rightarrow> nat" where
  "dec_value s = foldl (\<lambda>n c. 10 * n + (of_char c - 48)) 0 s"

definition scan_digits :: "string \<Rightarrow> (nat \<times> string) option" where
  "scan_digits s = (case takeWhile is_digit s of [] \<Rightarrow> None | ds \<Rightarrow> Some (dec_value ds, dropWhile is_digit s))"

definition scan_uint :: "nat \<Rightarrow> string \<Rightarrow> (nat \<times> string) option" where
  "scan_uint bits s =
     (case skip_space s of None \<Rightarrow> None
      | Some r \<Rightarrow> (case scan_digits r of None \<Rightarrow> None
          | Some (n, t) \<Rightarrow> if n < 2 ^ bits then Some (n, t) else None))"

definition scan_int64 :: "string \<Rightarrow> (int \<times> string) option" where
  "scan_int64 s =
     (case skip_space s of None \<Rightarrow> None
      | Some r \<Rightarrow>
          (let neg = (r \<noteq> [] \<and> hd r = CHR ''-'');
               u = (if r \<noteq> [] \<and> hd r \<in> {CHR ''+'', CHR ''-''} then tl r else r) in
           case scan_digits u of None \<Rightarrow> None
           | Some (n, t) \<Rightarrow>
               let i = (if neg then - int n else int n) in
               if - (2 ^ 63) \<le> i \<and> i < 2 ^ 63 then Some (i, t) else None))"

subsection \<open>Reading what \<open>%d\<close> printed\<close>

lemma of_char_digit: "d < 10 \<Longrightarrow> (of_char (digit_char d) :: nat) = 48 + d"
  by (simp add: digit_char_def)

lemma is_digit_char: "d < 10 \<Longrightarrow> is_digit (digit_char d)"
  by (simp add: is_digit_def of_char_digit Let_def)

lemma nat_str_digits: "c \<in> set (nat_str n) \<Longrightarrow> is_digit c"
proof (induction n rule: less_induct)
  case (less n)
  show ?case
  proof (cases "n < 10")
    case True
    then show ?thesis using less.prems by (simp add: nat_str_small is_digit_char)
  next
    case False
    then show ?thesis using less.IH [of "n div 10"] less.prems by (auto simp: nat_str_big is_digit_char)
  qed
qed

lemma dec_value_nat_str [simp]: "dec_value (nat_str n) = n"
proof (induction n rule: less_induct)
  case (less n)
  show ?case
  proof (cases "n < 10")
    case True
    then show ?thesis by (simp add: nat_str_small dec_value_def of_char_digit)
  next
    case False
    then have "dec_value (nat_str (n div 10)) = n div 10" by (intro less) simp
    then show ?thesis using False by (simp add: nat_str_big dec_value_def of_char_digit)
  qed
qed

lemma digit_not_space: "is_digit c \<Longrightarrow> \<not> is_space c \<and> c \<noteq> CHR 0x0A"
  by (auto simp: is_digit_def is_space_def Let_def)

lemma skip_space_digit:
  assumes "is_digit c"
  shows "skip_space (c # s) = Some (c # s)"
proof -
  have "c \<noteq> CHR 0xC2" "c \<noteq> CHR 0xE1" "c \<noteq> CHR 0xE2" "c \<noteq> CHR 0xE3" using assms by (auto simp: is_digit_def)
  then have "\<not> wide_space2 (c # s)" "\<not> wide_space3 (c # s)"
    by (auto simp: wide_space2_def wide_space3_def take_Suc numeral_eq_Suc)
  then show ?thesis using digit_not_space [OF assms] by (subst skip_space.simps) simp
qed

lemma scan_digits_nat_str:
  assumes "rest = [] \<or> \<not> is_digit (hd rest)"
  shows "scan_digits (nat_str n @ rest) = Some (n, rest)"
proof -
  have d: "\<And>c. c \<in> set (nat_str n) \<Longrightarrow> is_digit c" by (rule nat_str_digits)
  have "takeWhile is_digit (nat_str n @ rest) = nat_str n @ takeWhile is_digit rest"
    "dropWhile is_digit (nat_str n @ rest) = dropWhile is_digit rest"
    using d by (simp_all add: takeWhile_append dropWhile_append)
  moreover have "takeWhile is_digit rest = []" "dropWhile is_digit rest = rest"
    using assms by (cases rest; auto)+
  ultimately have "scan_digits (nat_str n @ rest) = Some (dec_value (nat_str n), rest)"
    by (cases "nat_str n") (auto simp: scan_digits_def simp del: dec_value_nat_str)
  then show ?thesis by simp
qed

lemma skip_nat_str: "skip_space (nat_str n @ rest) = Some (nat_str n @ rest)"
  using nat_str_digits [of _ n] by (cases "nat_str n") (auto simp: skip_space_digit)

lemma scan_uint_nat_str:
  assumes "rest = [] \<or> \<not> is_digit (hd rest)" and "n < 2 ^ bits"
  shows "scan_uint bits (nat_str n @ rest) = Some (n, rest)"
  using assms by (simp add: scan_uint_def skip_nat_str scan_digits_nat_str)

lemma scan_int64_nat_str:
  assumes "rest = [] \<or> \<not> is_digit (hd rest)" and "n < 2 ^ 63"
  shows "scan_int64 (nat_str n @ rest) = Some (int n, rest)"
proof -
  have "is_digit (hd (nat_str n @ rest))" using nat_str_digits [of "hd (nat_str n)" n] by simp
  then have "hd (nat_str n @ rest) \<noteq> CHR ''-''" "hd (nat_str n @ rest) \<noteq> CHR ''+''" by (auto simp: is_digit_def)
  moreover have "int n < 2 ^ 63" using assms(2) by (metis of_nat_less_numeral_power_cancel_iff)
  ultimately show ?thesis
    using scan_digits_nat_str [OF assms(1), of n] by (simp add: scan_int64_def skip_nat_str Let_def)
qed

end
