(* ===== verification/Go_Time.thy ===== *)
theory Go_Time
  imports Go_Scan
begin

text \<open>
  What the services use of \<open>strconv.ParseInt\<close>, of \<open>fmt.Sscanf\<close> with a field width, and of Go's civil time:
  the day of an instant in a time zone and \<open>time.Date\<close>.  A zone is the lookup of Go's
  \<open>time.Location\<close>: the offset in seconds that holds at a second of Unix time, with the first second
  and the end of the period it holds in.
\<close>

definition parse_int10 :: "string \<Rightarrow> int option" where
  "parse_int10 s =
     (let neg = (s \<noteq> [] \<and> hd s = CHR ''-'');
          u = (if s \<noteq> [] \<and> hd s \<in> {CHR ''+'', CHR ''-''} then tl s else s);
          i = (if neg then - int (dec_value u) else int (dec_value u)) in
      if u \<noteq> [] \<and> list_all is_digit u \<and> - (2 ^ 63) \<le> i \<and> i < 2 ^ 63 then Some i else None)"

text \<open>The verb \<open>%02d\<close>: white space is skipped first and does not count, then at most \<open>w\<close> characters are used.\<close>

definition scan_int_width :: "nat \<Rightarrow> string \<Rightarrow> (int \<times> string) option" where
  "scan_int_width w s =
     (case skip_space s of
        None \<Rightarrow> None
      | Some r \<Rightarrow> (case scan_int64 (take w r) of None \<Rightarrow> None | Some (n, t) \<Rightarrow> Some (n, t @ drop w r)))"

fun scan_fields :: "nat list \<Rightarrow> string \<Rightarrow> int list option" where
  "scan_fields [] s = Some []"
| "scan_fields (w # ws) s =
     (case scan_int_width w s of None \<Rightarrow> None | Some (n, t) \<Rightarrow> map_option ((#) n) (scan_fields ws t))"

subsection \<open>Civil time\<close>

type_synonym zone = "int \<Rightarrow> int \<times> int \<times> int"

definition local_day :: "zone \<Rightarrow> instant \<Rightarrow> int" where
  "local_day z now = (let sec = now div Second in (sec + fst (z sec)) div 86400)"

definition unix_of_date :: "zone \<Rightarrow> int \<Rightarrow> int \<Rightarrow> int \<Rightarrow> int \<Rightarrow> int \<Rightarrow> instant" where
  "unix_of_date z day hour minute second nanos =
     (let unix = day * 86400 + hour * 3600 + minute * 60 + second + nanos div Second;
          (off, start, stop) = z unix;
          utc = unix - off;
          off' = (if off \<noteq> 0 \<and> (utc < start \<or> stop \<le> utc) then fst (z utc) else off) in
      (unix - off') * Second + nanos mod Second)"

text \<open>A zone whose offset never changes.\<close>

definition fixed_zone :: "int \<Rightarrow> zone" where
  "fixed_zone off = (\<lambda>sec. (off, - (2 ^ 63), 2 ^ 63 - 1))"

lemma unix_of_date_fixed:
  assumes "- (2 ^ 62) \<le> off" "off \<le> 2 ^ 62"
    and "\<bar>day * 86400 + hour * 3600 + minute * 60 + second + nanos div Second\<bar> < 2 ^ 62"
  shows "unix_of_date (fixed_zone off) day hour minute second nanos =
    (day * 86400 + hour * 3600 + minute * 60 + second - off) * Second + nanos"
proof -
  have "nanos = nanos div Second * Second + nanos mod Second" by simp
  then show ?thesis by (simp add: unix_of_date_def fixed_zone_def Let_def algebra_simps)
qed

subsection \<open>Two and three digits\<close>

definition pad2 :: "nat \<Rightarrow> string" where
  "pad2 n = [digit_char (n div 10), digit_char (n mod 10)]"

definition pad3 :: "nat \<Rightarrow> string" where
  "pad3 n = digit_char (n div 100) # pad2 (n mod 100)"

lemma digits_scan:
  assumes "ds \<noteq> []" "\<forall>c \<in> set ds. is_digit c" "int (dec_value ds) < 2 ^ 63"
  shows "scan_int_width (length ds) (ds @ rest) = Some (int (dec_value ds), rest)"
proof -
  obtain d ds' where d: "ds = d # ds'" using assms(1) by (cases ds) auto
  with assms(2) have dig: "is_digit d" by simp
  then have sgn: "d \<noteq> CHR ''-''" "d \<noteq> CHR ''+''" by (auto simp: is_digit_def)
  have "takeWhile is_digit ds = ds" "dropWhile is_digit ds = []"
    using assms(2) by (simp_all add: takeWhile_eq_all_conv)
  then have "scan_digits ds = Some (dec_value ds, [])" by (simp add: scan_digits_def d)
  moreover have "skip_space ds = Some ds" "skip_space (ds @ rest) = Some (ds @ rest)"
    using skip_space_digit [OF dig] by (simp_all add: d)
  ultimately have "scan_int64 ds = Some (int (dec_value ds), [])"
    using sgn assms(3) by (simp add: scan_int64_def Let_def d)
  then show ?thesis using \<open>skip_space (ds @ rest) = _\<close> by (simp add: scan_int_width_def)
qed

lemma pad2_facts:
  assumes "n < 100"
  shows "length (pad2 n) = 2" "\<forall>c \<in> set (pad2 n). is_digit c" "dec_value (pad2 n) = n"
proof -
  have "n div 10 < 10" "n mod 10 < 10" using assms by auto
  then show "length (pad2 n) = 2" "\<forall>c \<in> set (pad2 n). is_digit c" "dec_value (pad2 n) = n"
    by (simp_all add: pad2_def is_digit_char dec_value_def of_char_digit)
qed

lemma pad3_facts:
  assumes "n < 1000"
  shows "length (pad3 n) = 3" "\<forall>c \<in> set (pad3 n). is_digit c" "dec_value (pad3 n) = n"
proof -
  have d: "n div 100 < 10" "n mod 100 div 10 < 10" "n mod 100 mod 10 < 10" using assms by auto
  then show "length (pad3 n) = 3" "\<forall>c \<in> set (pad3 n). is_digit c"
    by (simp_all add: pad3_def pad2_def is_digit_char)
  have "dec_value (pad3 n) = 10 * (10 * (n div 100) + n mod 100 div 10) + n mod 100 mod 10"
    using d by (simp add: pad3_def pad2_def dec_value_def of_char_digit)
  moreover have "n mod 100 = 10 * (n mod 100 div 10) + n mod 100 mod 10" "n = 100 * (n div 100) + n mod 100"
    by (rule mult_div_mod_eq [symmetric])+
  moreover have "\<And>v a x y m. v = 10 * (10 * a + x) + y \<Longrightarrow> m = 10 * x + y \<Longrightarrow> n = 100 * a + m \<Longrightarrow> v = n"
    by simp
  ultimately show "dec_value (pad3 n) = n" by blast
qed

lemma scan_pad2 [simp]: "n < 100 \<Longrightarrow> scan_int_width 2 (pad2 n @ rest) = Some (int n, rest)"
proof -
  assume "n < 100"
  note f = pad2_facts [OF this]
  have "pad2 n \<noteq> []" by (simp add: pad2_def)
  moreover have "int (dec_value (pad2 n)) < 2 ^ 63" using f(3) \<open>n < 100\<close> by simp
  ultimately show ?thesis using digits_scan [OF _ f(2), of rest] f by simp
qed

lemma scan_pad3 [simp]: "n < 1000 \<Longrightarrow> scan_int_width 3 (pad3 n @ rest) = Some (int n, rest)"
proof -
  assume "n < 1000"
  note f = pad3_facts [OF this]
  have "pad3 n \<noteq> []" by (simp add: pad3_def)
  moreover have "int (dec_value (pad3 n)) < 2 ^ 63" using f(3) \<open>n < 1000\<close> by simp
  ultimately show ?thesis using digits_scan [OF _ f(2), of rest] f by simp
qed

end
