(* ===== verification/Kis_Parser.thy ===== *)
theory Kis_Parser
  imports Go_Time Market_Writers
begin

text \<open>
  The message parser of \<open>data-ingestion-service/internal/kis/message_parser.go\<close>: a frame of the
  broker's web socket becomes a tick, an order book, an error or nothing known, and the two
  validations the service makes before it publishes.  Decoding JSON and \<open>strconv.ParseFloat\<close> are
  parameters; \<open>ParseFloat\<close> yields a value together with whether it reports an error, because the
  parser also uses the value of a failed call.
\<close>

subsection \<open>Frames\<close>

record kis_header =
  kh_tr_id :: string
  kh_tr_key :: string
  kh_status :: string

record kis_frame =
  kf_header :: kis_header
  kf_body :: string

record kis_tick_body =
  kt_symbol :: string
  kt_price :: string
  kt_volume :: string
  kt_time :: string
  kt_change :: string
  kt_change_rate :: string

record kis_book_level =
  kl_price :: string
  kl_quantity :: string

record kis_book_body =
  kb_symbol :: string
  kb_time :: string
  kb_bids :: "kis_book_level list"
  kb_asks :: "kis_book_level list"

record kis_codec =
  kd_frame :: "string \<Rightarrow> string + kis_frame"
  kd_tick :: "string \<Rightarrow> string + kis_tick_body"
  kd_book :: "string \<Rightarrow> string + kis_book_body"
  kd_float :: "string \<Rightarrow> f64 \<times> bool"
  kd_zone :: zone

datatype kis_data_error = BodyUnreadable string | SymbolMissing | PriceInvalid | VolumeInvalid

datatype kis_parse_error =
    FrameUnreadable string | StatusError string | TickUnreadable kis_data_error | BookUnreadable kis_data_error

datatype kis_message_type = KisTick | KisOrderBook | KisError | KisUnknown

record parsed_message =
  pm_type :: kis_message_type
  pm_tick :: "tick_data option"
  pm_book :: "order_book option"
  pm_error :: "kis_parse_error option"

datatype time_error = TimeEmpty | TimeUnreadable | TimeFormat

subsection \<open>Fields\<close>

definition parseFloat :: "kis_codec \<Rightarrow> string \<Rightarrow> f64 \<times> bool" where
  "parseFloat c s = (if s = [] then (Fin False 0, False) else kd_float c s)"

definition parseInt :: "string \<Rightarrow> int option" where
  "parseInt s = (if s = [] then Some 0 else parse_int10 s)"

definition parseTime :: "kis_codec \<Rightarrow> instant \<Rightarrow> string \<Rightarrow> time_error + int" where
  "parseTime c now timeStr =
     (if timeStr = [] then Inl TimeEmpty
      else
        let stamp = (\<lambda>hour minute sec msec.
              wrap64 (unix_of_date (kd_zone c) (local_day (kd_zone c) now) hour minute sec (msec * 1000000))) in
        if length timeStr = 6 then
          (case scan_fields [2, 2, 2] timeStr of
             Some [hour, minute, sec] \<Rightarrow> Inr (stamp hour minute sec 0)
           | _ \<Rightarrow> Inl TimeUnreadable)
        else if length timeStr = 9 then
          (case scan_fields [2, 2, 2, 3] timeStr of
             Some [hour, minute, sec, msec] \<Rightarrow> Inr (stamp hour minute sec msec)
           | _ \<Rightarrow> Inl TimeUnreadable)
        else Inl TimeFormat)"

text \<open>An unreadable time is replaced by the clock, which is read again for it.\<close>

definition time_or_now :: "kis_codec \<Rightarrow> instant \<Rightarrow> instant \<Rightarrow> string \<Rightarrow> int" where
  "time_or_now c now later s = (case parseTime c now s of Inr t \<Rightarrow> t | Inl _ \<Rightarrow> wrap64 later)"

subsection \<open>Bodies\<close>

definition parseTickData :: "kis_codec \<Rightarrow> instant \<Rightarrow> instant \<Rightarrow> string \<Rightarrow> kis_data_error + tick_data" where
  "parseTickData c now later body =
     (case kd_tick c body of
        Inl e \<Rightarrow> Inl (BodyUnreadable e)
      | Inr b \<Rightarrow>
          if kt_symbol b = [] then Inl SymbolMissing
          else
            let (price, bad) = parseFloat c (kt_price b) in
            if bad then Inl PriceInvalid
            else
              (case parseInt (kt_volume b) of
                 None \<Rightarrow> Inl VolumeInvalid
               | Some volume \<Rightarrow>
                   Inr \<lparr>td_symbol = kt_symbol b, td_price = price, td_volume = volume,
                     td_timestamp = time_or_now c now later (kt_time b),
                     td_change = fst (parseFloat c (kt_change b)),
                     td_change_rate = fst (parseFloat c (kt_change_rate b))\<rparr>))"

fun parse_levels :: "kis_codec \<Rightarrow> kis_book_level list \<Rightarrow> level list" where
  "parse_levels c [] = []"
| "parse_levels c (l # ls) =
     (let (price, bad) = parseFloat c (kl_price l) in
      if bad then parse_levels c ls
      else
        (case parseInt (kl_quantity l) of
           None \<Rightarrow> parse_levels c ls
         | Some quantity \<Rightarrow> \<lparr>lv_price = price, lv_quantity = quantity\<rparr> # parse_levels c ls))"

definition parseOrderBook :: "kis_codec \<Rightarrow> instant \<Rightarrow> instant \<Rightarrow> string \<Rightarrow> kis_data_error + order_book" where
  "parseOrderBook c now later body =
     (case kd_book c body of
        Inl e \<Rightarrow> Inl (BodyUnreadable e)
      | Inr b \<Rightarrow>
          if kb_symbol b = [] then Inl SymbolMissing
          else
            let t = time_or_now c now later (kb_time b) in
            Inr \<lparr>ob_symbol = kb_symbol b, ob_bids = parse_levels c (kb_bids b),
              ob_asks = parse_levels c (kb_asks b), ob_timestamp = t\<rparr>)"

subsection \<open>The parser\<close>

definition parsed_error :: "kis_parse_error \<Rightarrow> parsed_message" where
  "parsed_error e = \<lparr>pm_type = KisError, pm_tick = None, pm_book = None, pm_error = Some e\<rparr>"

text \<open>\<open>None\<close> is the only error \<open>Parse\<close> returns, that of an empty frame.\<close>

definition Parse :: "kis_codec \<Rightarrow> instant \<Rightarrow> instant \<Rightarrow> string \<Rightarrow> parsed_message option" where
  "Parse c now later data =
     (if data = [] then None
      else case kd_frame c data of
        Inl e \<Rightarrow> Some (parsed_error (FrameUnreadable e))
      | Inr m \<Rightarrow>
          let st = kh_status (kf_header m); tr = kh_tr_id (kf_header m) in
          if st \<noteq> ''0'' \<and> st \<noteq> [] then Some (parsed_error (StatusError st))
          else if tr = ''H0STCNT0'' \<or> tr = ''H0STASP0'' then
            (case parseTickData c now later (kf_body m) of
               Inl e \<Rightarrow> Some (parsed_error (TickUnreadable e))
             | Inr t \<Rightarrow> Some \<lparr>pm_type = KisTick, pm_tick = Some t, pm_book = None, pm_error = None\<rparr>)
          else if tr = ''H0STASP1'' then
            (case parseOrderBook c now later (kf_body m) of
               Inl e \<Rightarrow> Some (parsed_error (BookUnreadable e))
             | Inr b \<Rightarrow> Some \<lparr>pm_type = KisOrderBook, pm_tick = None, pm_book = Some b, pm_error = None\<rparr>)
          else Some \<lparr>pm_type = KisUnknown, pm_tick = None, pm_book = None, pm_error = None\<rparr>)"

subsection \<open>Validation\<close>

datatype kis_invalid = NilData | EmptySymbol | BadPrice f64 | BadVolume int | BadTimestamp int | EmptyBook

definition ValidateTickData :: "tick_data option \<Rightarrow> kis_invalid option" where
  "ValidateTickData d =
     (case d of
        None \<Rightarrow> Some NilData
      | Some t \<Rightarrow>
          if td_symbol t = [] then Some EmptySymbol
          else if f_le (td_price t) (Fin False 0) then Some (BadPrice (td_price t))
          else if td_volume t < 0 then Some (BadVolume (td_volume t))
          else if td_timestamp t \<le> 0 then Some (BadTimestamp (td_timestamp t))
          else None)"

definition ValidateOrderBook :: "order_book option \<Rightarrow> kis_invalid option" where
  "ValidateOrderBook d =
     (case d of
        None \<Rightarrow> Some NilData
      | Some b \<Rightarrow>
          if ob_symbol b = [] then Some EmptySymbol
          else if ob_bids b = [] \<and> ob_asks b = [] then Some EmptyBook
          else if ob_timestamp b \<le> 0 then Some (BadTimestamp (ob_timestamp b))
          else None)"

subsection \<open>What a parsed message holds\<close>

text \<open>Each type of message carries exactly its own data, so the handler's checks for nil never fire.\<close>

definition well_typed :: "parsed_message \<Rightarrow> bool" where
  "well_typed m \<longleftrightarrow>
     (pm_type m = KisTick \<longleftrightarrow> pm_tick m \<noteq> None) \<and> (pm_type m = KisOrderBook \<longleftrightarrow> pm_book m \<noteq> None) \<and>
     (pm_type m = KisError \<longleftrightarrow> pm_error m \<noteq> None)"

lemma Parse_well_typed: "Parse c now later data = Some m \<Longrightarrow> well_typed m"
  by (auto simp: Parse_def parsed_error_def well_typed_def Let_def split: if_splits sum.splits)

lemma Parse_cases:
  assumes "Parse c now later data = Some m"
  obtains (tick) t f where "m = \<lparr>pm_type = KisTick, pm_tick = Some t, pm_book = None, pm_error = None\<rparr>"
      "kd_frame c data = Inr f" "parseTickData c now later (kf_body f) = Inr t"
  | (book) b f where "m = \<lparr>pm_type = KisOrderBook, pm_tick = None, pm_book = Some b, pm_error = None\<rparr>"
      "kd_frame c data = Inr f" "parseOrderBook c now later (kf_body f) = Inr b"
  | (error) e where "m = parsed_error e"
  | (unknown) "m = \<lparr>pm_type = KisUnknown, pm_tick = None, pm_book = None, pm_error = None\<rparr>"
  using assms by (auto simp: Parse_def Let_def split: if_splits sum.splits)

text \<open>The levels kept are those whose two fields can be read, in order.\<close>

definition level_of :: "kis_codec \<Rightarrow> kis_book_level \<Rightarrow> level option" where
  "level_of c l =
     (if snd (parseFloat c (kl_price l)) then None
      else map_option (\<lambda>q. \<lparr>lv_price = fst (parseFloat c (kl_price l)), lv_quantity = q\<rparr>) (parseInt (kl_quantity l)))"

lemma parse_levels_filter: "parse_levels c ls = List.map_filter (level_of c) ls"
  by (induction ls) (auto simp: List.map_filter_simps level_of_def split: prod.splits option.splits)

lemma parse_levels_member: "l \<in> set ls \<Longrightarrow> level_of c l = Some v \<Longrightarrow> v \<in> set (parse_levels c ls)"
proof (induction ls)
  case (Cons a ls)
  have "parse_levels c (a # ls) = (case level_of c a of None \<Rightarrow> [] | Some v \<Rightarrow> [v]) @ parse_levels c ls"
    by (auto simp: level_of_def split: prod.split option.split)
  with Cons show ?case by (auto split: option.split)
qed simp

subsection \<open>Times\<close>

definition clock_time :: "nat \<Rightarrow> nat \<Rightarrow> nat \<Rightarrow> nat \<Rightarrow> duration" where
  "clock_time h m s ms = (int h * 3600 + int m * 60 + int s) * Second + int ms * Millisecond"

text \<open>The first instant of the local day of \<open>now\<close>, in a zone of constant offset.\<close>

definition midnight :: "int \<Rightarrow> instant \<Rightarrow> instant" where
  "midnight off now = (local_day (fixed_zone off) now * 86400 - off) * Second"

lemma midnight_bounds:
  "midnight off now \<le> now \<and> now < midnight off now + 24 * Hour"
proof -
  define sec where "sec = now div Second"
  have now: "sec * Second \<le> now" "now < (sec + 1) * Second"
    using pos_mod_bound [of Second now] pos_mod_sign [of Second now] minus_mod_eq_div_mult [of now Second]
    by (simp_all add: sec_def go_simps algebra_simps)
  have day: "(sec + off) div 86400 * 86400 \<le> sec + off" "sec + off < (sec + off) div 86400 * 86400 + 86400"
    using pos_mod_bound [of 86400 "sec + off"] pos_mod_sign [of 86400 "sec + off"]
      minus_mod_eq_div_mult [of "sec + off" 86400] by simp_all
  have "midnight off now = ((sec + off) div 86400 * 86400 - off) * Second"
    by (simp add: midnight_def local_day_def fixed_zone_def sec_def Let_def)
  with now day show ?thesis by (simp add: go_simps) 
qed

definition civil_clock :: "int \<Rightarrow> instant \<Rightarrow> bool" where
  "civil_clock off now \<longleftrightarrow> \<bar>off\<bar> \<le> 86400 \<and> 0 \<le> now \<and> now < 2 ^ 62"

lemma date_of_clock:
  assumes "civil_clock off now" "h < 100" "m < 100" "s < 100" "ms < 1000"
  shows "wrap64 (unix_of_date (fixed_zone off) (local_day (fixed_zone off) now) (int h) (int m) (int s)
      (int ms * 1000000)) = midnight off now + clock_time h m s ms"
proof -
  let ?day = "local_day (fixed_zone off) now"
  have b: "midnight off now \<le> now" "now < midnight off now + 24 * Hour"
    using midnight_bounds [of off now] by auto
  have c: "\<bar>off\<bar> \<le> 86400" "0 \<le> now" "now < 2 ^ 62" using assms(1) by (auto simp: civil_clock_def)
  have ns: "int ms * 1000000 div Second = 0" using assms(5) by (simp add: go_simps)
  have day: "\<bar>?day * 86400\<bar> < 2 ^ 60" using b c by (simp add: midnight_def go_simps)
  have "unix_of_date (fixed_zone off) ?day (int h) (int m) (int s) (int ms * 1000000) =
      (?day * 86400 + int h * 3600 + int m * 60 + int s - off) * Second + int ms * 1000000"
  proof (rule unix_of_date_fixed)
    show "\<bar>?day * 86400 + int h * 3600 + int m * 60 + int s + int ms * 1000000 div Second\<bar> < 2 ^ 62"
      unfolding ns using day assms by simp
  qed (use c in simp_all)
  also have "\<dots> = midnight off now + clock_time h m s ms"
    by (simp add: midnight_def clock_time_def go_simps algebra_simps)
  finally have u: "unix_of_date (fixed_zone off) ?day (int h) (int m) (int s) (int ms * 1000000) =
      midnight off now + clock_time h m s ms" .
  have "wrap64 (midnight off now + clock_time h m s ms) = midnight off now + clock_time h m s ms"
    by (rule wrap64_id) (use b c assms in \<open>simp_all add: clock_time_def go_simps\<close>)
  then show ?thesis by (simp add: u)
qed

lemma parseTime_digits:
  assumes "kd_zone c = fixed_zone off" "civil_clock off now" "h < 100" "m < 100" "s < 100" "ms < 1000"
  shows "parseTime c now (pad2 h @ pad2 m @ pad2 s) = Inr (midnight off now + clock_time h m s 0)"
    and "parseTime c now (pad2 h @ pad2 m @ pad2 s @ pad3 ms) = Inr (midnight off now + clock_time h m s ms)"
proof -
  have scans: "scan_fields [2, 2, 2] (pad2 h @ pad2 m @ pad2 s) = Some [int h, int m, int s]"
    "scan_fields [2, 2, 2, 3] (pad2 h @ pad2 m @ pad2 s @ pad3 ms) = Some [int h, int m, int s, int ms]"
    using assms scan_pad2 [of s "[]"] scan_pad3 [of ms "[]"] by simp_all
  have lens: "length (pad2 h @ pad2 m @ pad2 s) = 6" "length (pad2 h @ pad2 m @ pad2 s @ pad3 ms) = 9"
    using assms pad2_facts(1) pad3_facts(1) by simp_all
  show "parseTime c now (pad2 h @ pad2 m @ pad2 s) = Inr (midnight off now + clock_time h m s 0)"
    using lens(1) scans(1) date_of_clock [OF assms(2-5), of 0]
    by (auto simp: parseTime_def Let_def assms(1))
  show "parseTime c now (pad2 h @ pad2 m @ pad2 s @ pad3 ms) = Inr (midnight off now + clock_time h m s ms)"
    using lens(2) scans(2) date_of_clock [OF assms(2-6)] by (auto simp: parseTime_def Let_def assms(1))
qed

text \<open>
  Which instant a time of day is read as.  A frame carries the time of day of its event only.  Read at
  \<open>now\<close>, it yields the event's own instant when both lie on the same local day of the server, and
  is off by a whole day for every midnight in between: an event of 23:59:59 that is handled after
  midnight is dated into the future.
\<close>

theorem parseTime_dates_today:
  assumes "kd_zone c = fixed_zone off" "civil_clock off now" "h < 100" "m < 100" "s < 100" "ms < 1000"
    and "event = midnight off event + clock_time h m s ms"
  shows "parseTime c now (pad2 h @ pad2 m @ pad2 s @ pad3 ms) =
    Inr (event + (local_day (fixed_zone off) now - local_day (fixed_zone off) event) * (24 * Hour))"
proof -
  have "midnight off now - midnight off event =
      (local_day (fixed_zone off) now - local_day (fixed_zone off) event) * (24 * Hour)"
    by (simp add: midnight_def go_simps algebra_simps)
  then show ?thesis using parseTime_digits(2) [OF assms(1-6)] assms(7) by simp
qed

definition sample_zone_codec :: kis_codec where
  "sample_zone_codec = \<lparr>kd_frame = (\<lambda>d. Inl d), kd_tick = (\<lambda>d. Inl d), kd_book = (\<lambda>d. Inl d),
     kd_float = (\<lambda>s. (Fin False 0, True)), kd_zone = fixed_zone 32400\<rparr>"

theorem parseTime_dates_today_witness:
  "parseTime sample_zone_codec (15 * Hour) ''235959999'' = Inr (15 * Hour - Millisecond + 24 * Hour)"
proof -
  have digits: "''235959999'' = pad2 23 @ pad2 59 @ pad2 59 @ pad3 999"
    by code_simp
  have "kd_zone sample_zone_codec = fixed_zone 32400" by (simp add: sample_zone_codec_def)
  from parseTime_dates_today [OF this, of "15 * Hour" 23 59 59 999 "15 * Hour - Millisecond"]
  show ?thesis unfolding digits
    by (simp add: civil_clock_def midnight_def local_day_def fixed_zone_def clock_time_def go_simps)
qed

end
