(* ===== verification/Market_Ingestion.thy ===== *)
theory Market_Ingestion
  imports Kis_Parser Market_Consumer
begin

text \<open>
  The producing half of the data ingestion service: \<open>internal/producer/market_producer.go\<close> and the
  message handler of \<open>cmd/server/main.go\<close>, which parses a frame of the broker, validates what it
  holds and publishes it.  The last section joins it to the consumer of the data recorder, which
  reads the topics this service writes.  Protobuf encoding is a parameter.
\<close>

subsection \<open>The producer\<close>

record market_producer =
  mp_producer :: producer
  mp_tick_count :: "64 word"
  mp_orderbook_count :: "64 word"
  mp_error_count :: "64 word"

record market_codec =
  mx_tick :: "tick_data \<Rightarrow> string option"
  mx_book :: "order_book \<Rightarrow> string option"

datatype ingest_error =
    NoData | PublishFailed kafka_error | EmptyMessage | InvalidData kis_invalid

definition TopicMarketTick :: string where "TopicMarketTick = ''market.tick''"
definition TopicMarketOrderBook :: string where "TopicMarketOrderBook = ''market.orderbook''"

text \<open>\<open>started\<close> is whether Sarama could start a producer with the configuration it is given.\<close>

definition NewMarketProducer ::
  "('tls producer_config \<Rightarrow> 'tls sarama_config \<Rightarrow> bool) \<Rightarrow> 'tls sarama_config \<Rightarrow> 'tls producer_config \<Rightarrow>
     market_producer option" where
  "NewMarketProducer started fresh cfg =
     (case ToSaramaProducerConfig fresh cfg of
        Inl e \<Rightarrow> None
      | Inr sc \<Rightarrow>
          if started cfg sc then
            Some \<lparr>mp_producer = \<lparr>pr_closed = False, pr_max_message_bytes = pc_max_message_bytes cfg, pr_input = []\<rparr>,
              mp_tick_count = 0, mp_orderbook_count = 0, mp_error_count = 0\<rparr>
          else None)"

definition market_headers :: "string \<Rightarrow> string \<Rightarrow> string \<Rightarrow> string option" where
  "market_headers symb data_type =
     [''symbol'' \<mapsto> symb, ''data_type'' \<mapsto> data_type, ''version'' \<mapsto> ''1.0'']"

definition after_send ::
  "kafka_error option \<times> producer \<Rightarrow> market_producer \<Rightarrow> ingest_error option \<times> market_producer" where
  "after_send r mp =
     (case r of
        (Some e, p) \<Rightarrow> (Some (PublishFailed e), mp\<lparr>mp_producer := p, mp_error_count := mp_error_count mp + 1\<rparr>)
      | (None, p) \<Rightarrow> (None, mp\<lparr>mp_producer := p\<rparr>))"

definition PublishTickData ::
  "market_codec \<Rightarrow> instant \<Rightarrow> string option \<Rightarrow> tick_data option \<Rightarrow> market_producer \<Rightarrow>
     ingest_error option \<times> market_producer" where
  "PublishTickData x now ctx_error data mp =
     (case data of
        None \<Rightarrow> (Some NoData, mp)
      | Some t \<Rightarrow>
          after_send (producer_SendProto (mx_tick x) now ctx_error TopicMarketTick (td_symbol t) t
            (market_headers (td_symbol t) ''tick'') (mp_producer mp)) mp)"

definition PublishOrderBook ::
  "market_codec \<Rightarrow> instant \<Rightarrow> string option \<Rightarrow> order_book option \<Rightarrow> market_producer \<Rightarrow>
     ingest_error option \<times> market_producer" where
  "PublishOrderBook x now ctx_error data mp =
     (case data of
        None \<Rightarrow> (Some NoData, mp)
      | Some b \<Rightarrow>
          after_send (producer_SendProto (mx_book x) now ctx_error TopicMarketOrderBook (ob_symbol b) b
            (market_headers (ob_symbol b) ''orderbook'') (mp_producer mp)) mp)"

text \<open>The callbacks the Kafka producer runs for each delivered and each failed message.\<close>

definition onSuccess :: "string \<Rightarrow> market_producer \<Rightarrow> market_producer" where
  "onSuccess topic mp =
     (if topic = TopicMarketTick then mp\<lparr>mp_tick_count := mp_tick_count mp + 1\<rparr>
      else if topic = TopicMarketOrderBook then mp\<lparr>mp_orderbook_count := mp_orderbook_count mp + 1\<rparr>
      else mp)"

definition onError :: "string \<Rightarrow> market_producer \<Rightarrow> market_producer" where
  "onError topic mp = mp\<lparr>mp_error_count := mp_error_count mp + 1\<rparr>"

text \<open>\<open>flushed\<close> is the result of closing the Sarama producer.\<close>

definition mp_Close :: "string option \<Rightarrow> market_producer \<Rightarrow> string option \<times> market_producer" where
  "mp_Close flushed mp =
     (if pr_closed (mp_producer mp) then (None, mp)
      else (flushed, mp\<lparr>mp_producer := producer_Close (mp_producer mp)\<rparr>))"

definition mp_GetMetrics :: "market_producer \<Rightarrow> string \<Rightarrow> 64 word option" where
  "mp_GetMetrics mp =
     [''tick_count'' \<mapsto> mp_tick_count mp, ''orderbook_count'' \<mapsto> mp_orderbook_count mp,
      ''error_count'' \<mapsto> mp_error_count mp]"

definition mp_HealthCheck :: "market_producer \<Rightarrow> kafka_error option" where
  "mp_HealthCheck mp = producer_HealthCheck (mp_producer mp)"

subsection \<open>The message handler of the service\<close>

text \<open>
  The readings of the clock, in order: by the time parser, by the parser when the time is
  unreadable, and by the Kafka producer.  The web socket client calls the handler with the type of
  a text message only.
\<close>

record clock_readings =
  ck_parse :: instant
  ck_fallback :: instant
  ck_send :: instant

definition TextMessage :: int where "TextMessage = 1"

definition ingest_message ::
  "kis_codec \<Rightarrow> market_codec \<Rightarrow> clock_readings \<Rightarrow> string option \<Rightarrow> int \<Rightarrow> string \<Rightarrow> market_producer \<Rightarrow>
     ingest_error option \<times> market_producer" where
  "ingest_message c x ck ctx_error msgType data mp =
     (if msgType \<noteq> TextMessage then (None, mp)
      else case Parse c (ck_parse ck) (ck_fallback ck) data of
        None \<Rightarrow> (Some EmptyMessage, mp)
      | Some parsed \<Rightarrow>
          (case pm_type parsed of
             KisTick \<Rightarrow>
               if pm_tick parsed = None then (Some NoData, mp)
               else
                 (case ValidateTickData (pm_tick parsed) of
                    Some e \<Rightarrow> (Some (InvalidData e), mp)
                  | None \<Rightarrow> PublishTickData x (ck_send ck) ctx_error (pm_tick parsed) mp)
           | KisOrderBook \<Rightarrow>
               if pm_book parsed = None then (Some NoData, mp)
               else
                 (case ValidateOrderBook (pm_book parsed) of
                    Some e \<Rightarrow> (Some (InvalidData e), mp)
                  | None \<Rightarrow> PublishOrderBook x (ck_send ck) ctx_error (pm_book parsed) mp)
           | KisError \<Rightarrow> (None, mp)
           | KisUnknown \<Rightarrow> (None, mp)))"

subsection \<open>What the handler publishes\<close>

text \<open>The data of a frame that the service accepts.\<close>

definition accepted_data :: "kis_codec \<Rightarrow> clock_readings \<Rightarrow> string \<Rightarrow> (tick_data + order_book) option" where
  "accepted_data c ck data =
     (case Parse c (ck_parse ck) (ck_fallback ck) data of
        None \<Rightarrow> None
      | Some m \<Rightarrow>
          (case (pm_tick m, pm_book m) of
             (Some t, _) \<Rightarrow> if ValidateTickData (Some t) = None then Some (Inl t) else None
           | (None, Some b) \<Rightarrow> if ValidateOrderBook (Some b) = None then Some (Inr b) else None
           | (None, None) \<Rightarrow> None))"

definition market_topic :: "tick_data + order_book \<Rightarrow> string" where
  "market_topic d = (case d of Inl _ \<Rightarrow> TopicMarketTick | Inr _ \<Rightarrow> TopicMarketOrderBook)"

definition market_key :: "tick_data + order_book \<Rightarrow> string" where
  "market_key d = (case d of Inl t \<Rightarrow> td_symbol t | Inr b \<Rightarrow> ob_symbol b)"

definition encoded :: "market_codec \<Rightarrow> tick_data + order_book \<Rightarrow> string option" where
  "encoded x d = (case d of Inl t \<Rightarrow> mx_tick x t | Inr b \<Rightarrow> mx_book x b)"

lemma producer_SendProto_cases:
  assumes "producer_SendProto marshal now ctx topic key msg hs p = (r, p')"
  shows "(r = None \<longrightarrow> (\<exists>v. marshal msg = Some v \<and> p' = p\<lparr>pr_input := pr_input p @
           [\<lparr>km_topic = topic, km_key = key, km_value = v, km_headers = hs, km_timestamp = now\<rparr>]\<rparr>)) \<and>
         (r \<noteq> None \<longrightarrow> p' = p)"
  using assms by (auto simp: producer_SendProto_def producer_Send_def split: option.splits if_splits)

lemma ingest_message_accepted:
  assumes "ingest_message c x ck ctx TextMessage data mp = (r, mp')"
  obtains (accepted) d where "accepted_data c ck data = Some d"
      "(r, mp') = (case d of Inl t \<Rightarrow> PublishTickData x (ck_send ck) ctx (Some t) mp
                   | Inr b \<Rightarrow> PublishOrderBook x (ck_send ck) ctx (Some b) mp)"
  | (rejected) "accepted_data c ck data = None" "mp' = mp"
      "r = None \<or> r = Some EmptyMessage \<or> (\<exists>e. r = Some (InvalidData e))"
proof (cases "Parse c (ck_parse ck) (ck_fallback ck) data")
  case None
  with assms show ?thesis by (intro rejected) (auto simp: ingest_message_def accepted_data_def)
next
  case (Some m)
  from Some show ?thesis
  proof (cases rule: Parse_cases)
    case (tick t f)
    show ?thesis
    proof (cases "ValidateTickData (Some t)")
      case None
      with Some tick(1) assms show ?thesis
        by (intro accepted [of "Inl t"]) (auto simp: ingest_message_def accepted_data_def)
    next
      case (Some e)
      with \<open>Parse c _ _ data = Some m\<close> tick(1) assms show ?thesis
        by (intro rejected) (auto simp: ingest_message_def accepted_data_def)
    qed
  next
    case (book b f)
    show ?thesis
    proof (cases "ValidateOrderBook (Some b)")
      case None
      with Some book(1) assms show ?thesis
        by (intro accepted [of "Inr b"]) (auto simp: ingest_message_def accepted_data_def)
    next
      case (Some e)
      with \<open>Parse c _ _ data = Some m\<close> book(1) assms show ?thesis
        by (intro rejected) (auto simp: ingest_message_def accepted_data_def)
    qed
  qed (use Some assms in \<open>auto intro!: rejected simp: ingest_message_def accepted_data_def parsed_error_def\<close>)
qed

definition published :: "clock_readings \<Rightarrow> tick_data + order_book \<Rightarrow> string \<Rightarrow> kafka_message" where
  "published ck d v =
     \<lparr>km_topic = market_topic d, km_key = market_key d, km_value = v,
      km_headers = market_headers (market_key d) (case d of Inl _ \<Rightarrow> ''tick'' | Inr _ \<Rightarrow> ''orderbook''),
      km_timestamp = ck_send ck\<rparr>"

lemma ingest_message_outcome:
  assumes "ingest_message c x ck ctx TextMessage data mp = (r, mp')"
  shows "(case accepted_data c ck data of
      None \<Rightarrow> mp' = mp \<and> (r = None \<or> r = Some EmptyMessage \<or> (\<exists>e. r = Some (InvalidData e)))
    | Some d \<Rightarrow>
        (r = None \<and> (\<exists>v. encoded x d = Some v \<and> length v \<le> nat (pr_max_message_bytes (mp_producer mp)) \<and>
           \<not> pr_closed (mp_producer mp) \<and>
           mp' = mp\<lparr>mp_producer := (mp_producer mp)\<lparr>pr_input := pr_input (mp_producer mp) @ [published ck d v]\<rparr>\<rparr>)) \<or>
        ((\<exists>e. r = Some (PublishFailed e)) \<and> mp' = mp\<lparr>mp_error_count := mp_error_count mp + 1\<rparr>))"
  using assms
proof (cases rule: ingest_message_accepted)
  case (accepted d)
  then show ?thesis
    by (cases d) (auto simp: PublishTickData_def PublishOrderBook_def after_send_def producer_SendProto_def
      producer_Send_def encoded_def published_def market_topic_def market_key_def split: option.splits if_splits)
next
  case rejected
  then show ?thesis by simp
qed

text \<open>
  What the handler of the ingestion service does with a frame: either the data of the frame is
  accepted and one message is handed to Kafka, on the topic of its kind, under the symbol as key and with
  the encoded data as value; or nothing is handed over and the reply says why, with the counter
  of errors raised exactly when publishing accepted data failed.
\<close>

theorem ingest_publishes_accepted:
  assumes "ingest_message c x ck ctx TextMessage data mp = (r, mp')"
  shows "(case accepted_data c ck data of
      None \<Rightarrow> mp' = mp \<and> (r = None \<or> r = Some EmptyMessage \<or> (\<exists>e. r = Some (InvalidData e)))
    | Some d \<Rightarrow>
        (r = None \<and> (\<exists>v. encoded x d = Some v \<and> length v \<le> nat (pr_max_message_bytes (mp_producer mp)) \<and>
           \<not> pr_closed (mp_producer mp) \<and>
           mp' = mp\<lparr>mp_producer := (mp_producer mp)\<lparr>pr_input := pr_input (mp_producer mp) @ [published ck d v]\<rparr>\<rparr>)) \<or>
        ((\<exists>e. r = Some (PublishFailed e)) \<and> mp' = mp\<lparr>mp_error_count := mp_error_count mp + 1\<rparr>))"
  by (rule ingest_message_outcome [OF assms])

subsection \<open>What the data recorder makes of it\<close>

text \<open>Protobuf decoding undoes protobuf encoding.\<close>

definition codecs_agree :: "mc_env \<Rightarrow> market_codec \<Rightarrow> bool" where
  "codecs_agree env x \<longleftrightarrow>
     (\<forall>t v. mx_tick x t = Some v \<longrightarrow> me_tick env v = Some t) \<and>
     (\<forall>b v. mx_book x b = Some v \<longrightarrow> me_orderbook env v = Some b)"

definition recordable :: "tick_data + order_book \<Rightarrow> bool" where
  "recordable d =
     (case d of
        Inl _ \<Rightarrow> True
      | Inr b \<Rightarrow> (\<forall>l \<in> set (ob_bids b) \<union> set (ob_asks b). \<not> f_le (lv_price l) (Fin False 0) \<and> 0 \<le> lv_quantity l))"

lemma tick_checks_agree: "ValidateTickData (Some t) = None \<longleftrightarrow> validateTickData t = None"
  by (simp add: ValidateTickData_def validateTickData_def)

lemma accepted_data_valid:
  assumes "accepted_data c ck data = Some d"
  shows "(case d of Inl t \<Rightarrow> validateTickData t = None | Inr b \<Rightarrow> validateOrderBook b = None \<longleftrightarrow> recordable d)"
  using assms
  by (auto simp: accepted_data_def tick_checks_agree validateOrderBook_None ValidateOrderBook_def recordable_def
      split: option.splits if_splits)

lemma published_valid_data:
  assumes "codecs_agree env x" "accepted_data c ck data = Some d" "encoded x d = Some v"
    and "cm_topic msg = market_topic d" "cm_value msg = v"
  shows "valid_data env msg = (if recordable d then Some d else None)"
  using assms accepted_data_valid [OF assms(2)]
  by (cases d) (auto simp: valid_data_def codecs_agree_def encoded_def market_topic_def TopicMarketTick_def
      TopicMarketOrderBook_def recordable_def)

lemma unreadable_counts_error:
  assumes "mc_handleMessage env now now' msg mc = (res, mc')" "valid_data env msg = None"
    and "known_topic (cm_topic msg)"
  shows "res = None \<and> buffers mc' = buffers mc \<and> mc_total_errors mc' = mc_total_errors mc + 1"
  using assms
  by (auto simp: mc_handleMessage_def handleTickMessage_def handleOrderBookMessage_def Let_def count_error_def
      valid_data_def buffers_def known_topic_def split: if_splits option.splits)

lemma market_topic_known: "known_topic (market_topic d)"
  by (cases d) (simp_all add: known_topic_def market_topic_def TopicMarketTick_def TopicMarketOrderBook_def)

text \<open>
  C35. From the broker to the recorder.  When the ingestion service has published the frame, a message
  with that topic and value reaches the recorder as the data the frame was accepted for: a tick
  is always stored (unless the buffer refuses it), and an order book exactly when every level has a
  positive price and no negative quantity; otherwise the recorder counts an error, acknowledges the
  message and stores nothing of it.
\<close>

theorem recorder_reads_published:
  assumes "codecs_agree env x"
    and "ingest_message c x ck ctx TextMessage data mp = (None, mp')"
    and "pr_input (mp_producer mp') = pr_input (mp_producer mp) @ [km]"
    and "cm_topic msg = km_topic km" "cm_value msg = km_value km"
    and "mc_handleMessage env now now' msg mc = (res, mc')"
  shows "\<exists>d. accepted_data c ck data = Some d \<and>
     (recordable d \<longrightarrow> buffers mc' = (if res = None then store_data now' (Some d) (buffers mc) else buffers mc)) \<and>
     (\<not> recordable d \<longrightarrow> res = None \<and> buffers mc' = buffers mc \<and> mc_total_errors mc' = mc_total_errors mc + 1)"
proof -
  have p: "(case accepted_data c ck data of None \<Rightarrow> mp' = mp
     | Some d \<Rightarrow> \<exists>v. encoded x d = Some v \<and> km = published ck d v)"
    using ingest_message_outcome [OF assms(2)] assms(3) by (auto split: option.splits)
  then obtain d v where d: "accepted_data c ck data = Some d" "encoded x d = Some v" "km = published ck d v"
    using assms(3) by (auto split: option.splits)
  then have m: "cm_topic msg = market_topic d" "cm_value msg = v" using assms(4,5) by (simp_all add: published_def)
  note vd = published_valid_data [OF assms(1) d(1,2) m]
  note h = handleMessage_effect [OF assms(6)]
  show ?thesis
  proof (cases "recordable d")
    case True
    with vd h d(1) show ?thesis by auto
  next
    case False
    then have "valid_data env msg = None" using vd by simp
    then show ?thesis
      using unreadable_counts_error [OF assms(6)] market_topic_known [of d] m(1) d(1) False by auto
  qed
qed

definition book_of :: "kis_codec \<Rightarrow> clock_readings \<Rightarrow> kis_book_body \<Rightarrow> order_book" where
  "book_of c ck b =
     \<lparr>ob_symbol = kb_symbol b, ob_bids = parse_levels c (kb_bids b), ob_asks = parse_levels c (kb_asks b),
      ob_timestamp = time_or_now c (ck_parse ck) (ck_fallback ck) (kb_time b)\<rparr>"

text \<open>
  A blank price loses the whole book.  A level whose price is the empty string is read as price zero and the
  order book is published with it; the recorder then rejects the book with all its levels.
\<close>

theorem blank_price_loses_book:
  assumes "codecs_agree env x"
    and "data \<noteq> []" "kd_frame c data = Inr f" "kh_status (kf_header f) = ''0''" "kh_tr_id (kf_header f) = ''H0STASP1''"
    and "kd_book c (kf_body f) = Inr b" "kb_symbol b \<noteq> []"
    and "l \<in> set (kb_bids b) \<union> set (kb_asks b)" "kl_price l = []" "parseInt (kl_quantity l) \<noteq> None"
    and "0 < time_or_now c (ck_parse ck) (ck_fallback ck) (kb_time b)"
    and "mx_book x (book_of c ck b) = Some v" "int (length v) \<le> pr_max_message_bytes (mp_producer mp)"
    and "\<not> pr_closed (mp_producer mp)"
  shows "\<exists>mp' km. ingest_message c x ck None TextMessage data mp = (None, mp') \<and>
     pr_input (mp_producer mp') = pr_input (mp_producer mp) @ [km] \<and> km_topic km = TopicMarketOrderBook \<and>
     (\<forall>msg mc now now'. cm_topic msg = km_topic km \<and> cm_value msg = km_value km \<longrightarrow>
        (\<exists>mc'. mc_handleMessage env now now' msg mc = (None, mc') \<and> buffers mc' = buffers mc \<and>
           mc_total_errors mc' = mc_total_errors mc + 1))"
proof -
  let ?b = "book_of c ck b"
  obtain q where "parseInt (kl_quantity l) = Some q" using assms(10) by auto
  then have lv: "level_of c l = Some \<lparr>lv_price = Fin False 0, lv_quantity = q\<rparr>"
    using assms(9) by (simp add: level_of_def parseFloat_def)
  then have mem: "\<lparr>lv_price = Fin False 0, lv_quantity = q\<rparr> \<in> set (ob_bids ?b) \<union> set (ob_asks ?b)"
    unfolding book_of_def using assms(8) parse_levels_member [OF _ lv] by auto
  then have nr: "\<not> recordable (Inr ?b)" by (force simp: recordable_def)
  have acc: "accepted_data c ck data = Some (Inr ?b)"
    using assms(2-7,11) mem
    by (auto simp: accepted_data_def Parse_def parseOrderBook_def ValidateOrderBook_def Let_def book_of_def)
  note v = assms(12,13)
  have "\<exists>mp'. ingest_message c x ck None TextMessage data mp = (None, mp') \<and>
      pr_input (mp_producer mp') = pr_input (mp_producer mp) @ [published ck (Inr ?b) v]"
  proof -
    obtain r mp' where i: "ingest_message c x ck None TextMessage data mp = (r, mp')" by (rule prod.exhaust)
    from i show ?thesis
    proof (cases rule: ingest_message_accepted)
      case (accepted d)
      with acc v assms(14) i show ?thesis
        by (auto simp: PublishOrderBook_def after_send_def producer_SendProto_def producer_Send_def published_def
            market_topic_def market_key_def)
    qed (use acc in simp)
  qed
  then obtain mp' where i: "ingest_message c x ck None TextMessage data mp = (None, mp')"
      "pr_input (mp_producer mp') = pr_input (mp_producer mp) @ [published ck (Inr ?b) v]" by blast
  have "\<exists>mc'. mc_handleMessage env now now' msg mc = (None, mc') \<and> buffers mc' = buffers mc \<and>
      mc_total_errors mc' = mc_total_errors mc + 1"
    if "cm_topic msg = km_topic (published ck (Inr ?b) v)" "cm_value msg = km_value (published ck (Inr ?b) v)"
    for msg mc now now'
  proof -
    have m: "cm_topic msg = market_topic (Inr ?b)" "cm_value msg = v" using that by (simp_all add: published_def)
    have "valid_data env msg = None"
      using published_valid_data [OF assms(1) acc _ m] v(1) nr by (simp add: encoded_def)
    moreover have "known_topic (cm_topic msg)" using market_topic_known m(1) by simp
    moreover obtain res mc' where r: "mc_handleMessage env now now' msg mc = (res, mc')" by (rule prod.exhaust)
    ultimately show ?thesis using unreadable_counts_error [OF r] r by auto
  qed
  then show ?thesis using i by (auto simp: published_def market_topic_def)
qed

subsection \<open>Concrete runs\<close>

definition sample_kis_codec :: kis_codec where
  "sample_kis_codec =
     \<lparr>kd_frame = (\<lambda>d. Inr \<lparr>kf_header = \<lparr>kh_tr_id = (if d = ''B'' then ''H0STASP1'' else ''H0STCNT0''),
        kh_tr_key = [], kh_status = ''0''\<rparr>, kf_body = d\<rparr>),
      kd_tick = (\<lambda>d. Inr \<lparr>kt_symbol = ''005930'', kt_price = ''70000'', kt_volume = [],
        kt_time = pad2 9 @ pad2 15 @ pad2 0, kt_change = [], kt_change_rate = []\<rparr>),
      kd_book = (\<lambda>d. Inr \<lparr>kb_symbol = ''005930'', kb_time = pad2 9 @ pad2 15 @ pad2 0,
        kb_bids = [\<lparr>kl_price = [], kl_quantity = []\<rparr>, \<lparr>kl_price = ''70000'', kl_quantity = []\<rparr>], kb_asks = []\<rparr>),
      kd_float = (\<lambda>s. (Fin False 70000, False)),
      kd_zone = fixed_zone 32400\<rparr>"

definition sample_readings :: clock_readings where
  "sample_readings = \<lparr>ck_parse = 0, ck_fallback = 0, ck_send = 0\<rparr>"

definition sample_market_tick :: tick_data where
  "sample_market_tick = \<lparr>td_symbol = ''005930'', td_price = Fin False 70000, td_volume = 0,
     td_timestamp = 900 * Second, td_change = Fin False 0, td_change_rate = Fin False 0\<rparr>"

definition sample_market_book :: order_book where
  "sample_market_book = \<lparr>ob_symbol = ''005930'',
     ob_bids = [\<lparr>lv_price = Fin False 0, lv_quantity = 0\<rparr>, \<lparr>lv_price = Fin False 70000, lv_quantity = 0\<rparr>],
     ob_asks = [], ob_timestamp = 900 * Second\<rparr>"

definition sample_market_codec :: market_codec where
  "sample_market_codec = \<lparr>mx_tick = (\<lambda>t. if t = sample_market_tick then Some ''t'' else None),
     mx_book = (\<lambda>b. if b = sample_market_book then Some ''b'' else None)\<rparr>"

definition sample_recorder_env :: mc_env where
  "sample_recorder_env = \<lparr>me_tick = (\<lambda>v. Some sample_market_tick), me_orderbook = (\<lambda>v. Some sample_market_book)\<rparr>"

definition sample_mp :: market_producer where
  "sample_mp = \<lparr>mp_producer = \<lparr>pr_closed = False, pr_max_message_bytes = 100, pr_input = []\<rparr>,
     mp_tick_count = 0, mp_orderbook_count = 0, mp_error_count = 0\<rparr>"

lemma sample_codecs_agree: "codecs_agree sample_recorder_env sample_market_codec"
  by (simp add: codecs_agree_def sample_recorder_env_def sample_market_codec_def)

lemma sample_time: "time_or_now sample_kis_codec 0 0 (pad2 9 @ pad2 15 @ pad2 0) = 900 * Second"
proof -
  have "kd_zone sample_kis_codec = fixed_zone 32400" "civil_clock 32400 0"
    by (simp_all add: sample_kis_codec_def civil_clock_def)
  from parseTime_digits(1) [OF this, of 9 15 0 0]
  show ?thesis
    by (simp add: time_or_now_def midnight_def local_day_def fixed_zone_def clock_time_def go_simps)
qed

lemma sample_tick_accepted:
  "accepted_data sample_kis_codec sample_readings ''T'' = Some (Inl sample_market_tick)"
proof -
  have "parseTickData sample_kis_codec 0 0 ''T'' = Inr sample_market_tick"
    using sample_time
    by (simp add: parseTickData_def parseFloat_def parseInt_def sample_market_tick_def sample_kis_codec_def)
  then show ?thesis
    by (simp add: accepted_data_def Parse_def sample_readings_def ValidateTickData_def sample_market_tick_def
        go_simps sample_kis_codec_def)
qed

lemma sample_tick_ingested:
  "ingest_message sample_kis_codec sample_market_codec sample_readings None TextMessage ''T'' sample_mp =
     (None, sample_mp\<lparr>mp_producer := (mp_producer sample_mp)\<lparr>pr_input :=
        [published sample_readings (Inl sample_market_tick) ''t'']\<rparr>\<rparr>)"
proof -
  obtain r mp' where i: "ingest_message sample_kis_codec sample_market_codec sample_readings None TextMessage ''T''
      sample_mp = (r, mp')" by (rule prod.exhaust)
  from i show ?thesis
  proof (cases rule: ingest_message_accepted)
    case (accepted d)
    with i sample_tick_accepted show ?thesis
      by (auto simp: PublishTickData_def after_send_def producer_SendProto_def producer_Send_def published_def
          market_topic_def market_key_def sample_market_codec_def sample_mp_def)
  qed (simp add: sample_tick_accepted)
qed

theorem ingest_publishes_accepted_witness:
  "\<exists>v. length v \<le> 100 \<and> encoded sample_market_codec (Inl sample_market_tick) = Some v"
  using ingest_publishes_accepted [OF sample_tick_ingested] sample_tick_accepted
  by (auto simp: sample_mp_def)

definition sample_published_msg :: "string \<Rightarrow> string \<Rightarrow> consumed_message" where
  "sample_published_msg topic v = consumed_of (market_msg topic 0 v)"

theorem recorder_reads_published_witness:
  "buffers (snd (mc_handleMessage sample_recorder_env 0 0 (sample_published_msg ''market.tick'' ''t'') (sample_mc 5))) =
     ([buffered 0 (Inl sample_market_tick)], [])"
proof -
  let ?msg = "sample_published_msg ''market.tick'' ''t''"
  obtain mc' where r: "mc_handleMessage sample_recorder_env 0 0 ?msg (sample_mc 5) = (None, mc')"
    by (simp add: mc_handleMessage_def handleTickMessage_def sample_published_msg_def consumed_of_def market_msg_def
        sample_recorder_env_def validateTickData_def sample_market_tick_def go_simps AddTick_def buffer_add_def
        add_check_def add_locked_def sample_mc_def NewBatchBuffer_def wrap64_id Let_def)
  let ?km = "published sample_readings (Inl sample_market_tick) ''t''"
  have "cm_topic ?msg = km_topic ?km" "cm_value ?msg = km_value ?km"
    by (simp_all add: published_def market_topic_def TopicMarketTick_def sample_published_msg_def
        consumed_of_def market_msg_def)
  from recorder_reads_published [OF sample_codecs_agree sample_tick_ingested _ this r]
  show ?thesis using sample_tick_accepted r
    by (simp add: sample_mp_def recordable_def store_data_def buffers_def sample_mc_def NewBatchBuffer_def)
qed

theorem blank_price_loses_book_witness:
  "\<exists>mp'. ingest_message sample_kis_codec sample_market_codec sample_readings None TextMessage ''B'' sample_mp =
     (None, mp')"
proof -
  let ?b = "\<lparr>kb_symbol = ''005930'', kb_time = pad2 9 @ pad2 15 @ pad2 0,
    kb_bids = [\<lparr>kl_price = [], kl_quantity = []\<rparr>, \<lparr>kl_price = ''70000'', kl_quantity = []\<rparr>], kb_asks = []\<rparr>"
  let ?f = "\<lparr>kf_header = \<lparr>kh_tr_id = ''H0STASP1'', kh_tr_key = [], kh_status = ''0''\<rparr>, kf_body = ''B''\<rparr>"
  have t: "time_or_now sample_kis_codec (ck_parse sample_readings) (ck_fallback sample_readings) (kb_time ?b) = 900 * Second"
    using sample_time by (simp add: sample_readings_def)
  have p: "parse_levels sample_kis_codec (kb_bids ?b) = ob_bids sample_market_book"
    by (simp add: parseFloat_def parseInt_def sample_kis_codec_def sample_market_book_def)
  have b: "book_of sample_kis_codec sample_readings ?b = sample_market_book"
    unfolding book_of_def t p by (simp add: sample_market_book_def)
  have "\<exists>mp' km. ingest_message sample_kis_codec sample_market_codec sample_readings None TextMessage ''B'' sample_mp =
      (None, mp') \<and> pr_input (mp_producer mp') = pr_input (mp_producer sample_mp) @ [km] \<and>
      km_topic km = TopicMarketOrderBook \<and>
      (\<forall>msg mc now now'. cm_topic msg = km_topic km \<and> cm_value msg = km_value km \<longrightarrow>
        (\<exists>mc'. mc_handleMessage sample_recorder_env now now' msg mc = (None, mc') \<and> buffers mc' = buffers mc \<and>
           mc_total_errors mc' = mc_total_errors mc + 1))"
  proof (rule blank_price_loses_book [OF sample_codecs_agree, where f = ?f and b = ?b and v = "''b''"
        and l = "\<lparr>kl_price = [], kl_quantity = []\<rparr>"])
    show "kd_frame sample_kis_codec ''B'' = Inr ?f" by (simp add: sample_kis_codec_def)
    show "kd_book sample_kis_codec (kf_body ?f) = Inr ?b" by (simp add: sample_kis_codec_def)
    show "0 < time_or_now sample_kis_codec (ck_parse sample_readings) (ck_fallback sample_readings) (kb_time ?b)"
      unfolding t by (simp add: go_simps)
    show "mx_book sample_market_codec (book_of sample_kis_codec sample_readings ?b) = Some ''b''"
      unfolding b by (simp add: sample_market_codec_def)
  qed (simp_all add: sample_mp_def parseInt_def)
  then show ?thesis by blast
qed

end
