(* ===== verification/Redis_Store.thy ===== *)
theory Redis_Store
  imports Redis_Api
begin

text \<open>
  The documented behaviour of Redis for keys with an expiry, as a hypothesis that properties of its
  users name: an ideal clock, a map of live entries, and for each command its reply and its effect.
  The number of seconds \<open>TTL\<close>
  answers and commands and arguments without an entry here are left open.  A fallible store may instead answer
  a command with an error, having done it or not.
\<close>

datatype kv_value = KStr string | KInt int

type_synonym kv_entry = "kv_value \<times> instant option"
type_synonym kv_map = "string \<Rightarrow> kv_entry option"

fun kv_text :: "kv_value \<Rightarrow> string" where
  "kv_text (KStr s) = s"
| "kv_text (KInt n) = int_str n"

definition kv_live :: "instant \<Rightarrow> kv_map \<Rightarrow> string \<Rightarrow> kv_entry option" where
  "kv_live now m k = (case m k of
     None \<Rightarrow> None
   | Some (v, None) \<Rightarrow> Some (v, None)
   | Some (v, Some t) \<Rightarrow> if now < t then Some (v, Some t) else None)"

fun kv_step :: "redis_cmd \<Rightarrow> instant \<Rightarrow> kv_map \<Rightarrow> (redis_reply \<times> kv_map) option" where
  "kv_step (GET k) now m =
     Some (case kv_live now m k of None \<Rightarrow> RNil | Some (v, _) \<Rightarrow> RStr (kv_text v), m)"
| "kv_step (EXISTS k) now m = Some (RInt (case kv_live now m k of None \<Rightarrow> 0 | Some _ \<Rightarrow> 1), m)"
| "kv_step (SETEX k v d) now m =
     (if d \<le> 0 then None else Some (RStatus, m(k \<mapsto> (KStr v, Some (now + d)))))"
| "kv_step (SETNX k v d) now m =
     (if d < 0 then None
      else case kv_live now m k of
        Some _ \<Rightarrow> Some (RInt 0, m)
      | None \<Rightarrow> Some (RInt 1, m(k \<mapsto> (KStr v, if d = 0 then None else Some (now + d)))))"
| "kv_step (INCR k) now m =
     (case kv_live now m k of
        None \<Rightarrow> Some (RInt 1, m(k \<mapsto> (KInt 1, None)))
      | Some (KInt n, t) \<Rightarrow> Some (RInt (n + 1), m(k \<mapsto> (KInt (n + 1), t)))
      | Some (KStr _, _) \<Rightarrow> None)"
| "kv_step (EXPIRE k d) now m =
     (if d \<le> 0 \<or> d mod Second \<noteq> 0 then None
      else case kv_live now m k of
        None \<Rightarrow> Some (RInt 0, m)
      | Some (v, _) \<Rightarrow> Some (RInt 1, m(k \<mapsto> (v, Some (now + d)))))"
| "kv_step (PEXPIRE k ms) now m =
     (case kv_live now m k of
        None \<Rightarrow> Some (RInt 0, m)
      | Some (v, _) \<Rightarrow>
          Some (RInt 1, m(k := (if ms \<le> 0 then None else Some (v, Some (now + ms * Millisecond))))))"
| "kv_step (DEL k) now m = Some (RInt (case kv_live now m k of None \<Rightarrow> 0 | Some _ \<Rightarrow> 1), m(k := None))"
| "kv_step _ now m = None"

definition kv_store :: "'w redis \<Rightarrow> ('w \<Rightarrow> instant) \<Rightarrow> ('w \<Rightarrow> kv_map) \<Rightarrow> bool" where
  "kv_store redis now view \<longleftrightarrow>
     (\<forall>c w r m. kv_step c (now w) (view w) = Some (r, m) \<longrightarrow>
        fst (redis c w) = r \<and> view (snd (redis c w)) = m \<and> now (snd (redis c w)) = now w) \<and>
     (\<forall>k w. (\<exists>n. fst (redis (TTL k) w) = RInt n) \<and>
        view (snd (redis (TTL k) w)) = view w \<and> now (snd (redis (TTL k) w)) = now w)"

definition kv_fallible :: "'w redis \<Rightarrow> ('w \<Rightarrow> instant) \<Rightarrow> ('w \<Rightarrow> kv_map) \<Rightarrow> bool" where
  "kv_fallible redis now view \<longleftrightarrow>
     (\<forall>c w r m. kv_step c (now w) (view w) = Some (r, m) \<longrightarrow>
        now (snd (redis c w)) = now w \<and>
        (fst (redis c w) = r \<and> view (snd (redis c w)) = m \<or>
         (\<exists>e. fst (redis c w) = RErr e) \<and> view (snd (redis c w)) \<in> {view w, m}))"

lemma kv_storeD:
  "kv_store redis now view \<Longrightarrow> kv_step c (now w) (view w) = Some (r, m) \<Longrightarrow>
   fst (redis c w) = r \<and> view (snd (redis c w)) = m \<and> now (snd (redis c w)) = now w"
  unfolding kv_store_def by blast

lemma kv_do:
  assumes "kv_store redis now view" "kv_step c (now w) (view w) = Some (r, m)"
  obtains w' where "redis c w = (r, w')" "view w' = m" "now w' = now w"
  using kv_storeD [OF assms] by (cases "redis c w") auto

lemma kv_INCR:
  assumes "kv_store redis now view" "kv_live (now w) (view w) k = (if n = 0 then None else Some (KInt n, t))"
  obtains w' where "redis (INCR k) w = (RInt (n + 1), w')"
    "view w' = (view w)(k \<mapsto> (KInt (n + 1), if n = 0 then None else t))" "now w' = now w"
proof -
  have "kv_step (INCR k) (now w) (view w) =
      Some (RInt (n + 1), (view w)(k \<mapsto> (KInt (n + 1), if n = 0 then None else t)))"
    using assms(2) by (cases "n = 0") simp_all
  from kv_do [OF assms(1) this] that show thesis by blast
qed

lemma kv_EXPIRE:
  assumes "kv_store redis now view" "kv_live (now w) (view w) k = Some (v, t)" "0 < d" "d mod Second = 0"
  obtains w' where "redis (EXPIRE k d) w = (RInt 1, w')"
    "view w' = (view w)(k \<mapsto> (v, Some (now w + d)))" "now w' = now w"
proof -
  have "kv_step (EXPIRE k d) (now w) (view w) = Some (RInt 1, (view w)(k \<mapsto> (v, Some (now w + d))))"
    using assms(2-4) by simp
  from kv_do [OF assms(1) this] that show thesis by blast
qed

lemma kv_fallibleD:
  "kv_fallible redis now view \<Longrightarrow> kv_step c (now w) (view w) = Some (r, m) \<Longrightarrow>
   now (snd (redis c w)) = now w \<and>
   (fst (redis c w) = r \<and> view (snd (redis c w)) = m \<or>
    (\<exists>e. fst (redis c w) = RErr e) \<and> view (snd (redis c w)) \<in> {view w, m})"
  unfolding kv_fallible_def by blast

lemma kv_store_TTL:
  "kv_store redis now view \<Longrightarrow> (\<exists>n. fst (redis (TTL k) w) = RInt n) \<and>
     view (snd (redis (TTL k) w)) = view w \<and> now (snd (redis (TTL k) w)) = now w"
  unfolding kv_store_def by blast

lemma kv_store_fallible: "kv_store redis now view \<Longrightarrow> kv_fallible redis now view"
  unfolding kv_store_def kv_fallible_def by blast

lemma kv_live_upd [simp]:
  "kv_live now (m(k \<mapsto> (v, t))) k' = (if k' = k then (case t of None \<Rightarrow> Some (v, None)
     | Some u \<Rightarrow> if now < u then Some (v, Some u) else None) else kv_live now m k')"
  "kv_live now (m(k := None)) k' = (if k' = k then None else kv_live now m k')"
  by (auto simp: kv_live_def split: option.splits)

lemma kv_live_later: "now \<le> now' \<Longrightarrow> kv_live now' m k \<noteq> None \<Longrightarrow> kv_live now' m k = kv_live now m k"
  by (auto simp: kv_live_def split: option.splits if_splits)

text \<open>A store that satisfies the hypothesis; commands it leaves open are answered with an error.\<close>

record kv_world =
  kw_now :: instant
  kw_map :: kv_map

definition kv_ttl :: "kv_world \<Rightarrow> string \<Rightarrow> int" where
  "kv_ttl w k = (case kv_live (kw_now w) (kw_map w) k of
     None \<Rightarrow> - 2 | Some (_, None) \<Rightarrow> - 1 | Some (_, Some t) \<Rightarrow> (t - kw_now w) div Second)"

definition kv_redis :: "kv_world redis" where
  "kv_redis c w = (case kv_step c (kw_now w) (kw_map w) of
     Some (r, m) \<Rightarrow> (r, w\<lparr>kw_map := m\<rparr>)
   | None \<Rightarrow> (case c of TTL k \<Rightarrow> RInt (kv_ttl w k) | _ \<Rightarrow> RErr ''unsupported'', w))"

lemma kv_redis_store: "kv_store kv_redis kw_now kw_map"
  by (simp add: kv_store_def kv_redis_def)

end
