(* ===== verification/Redis_Client.thy ===== *)
theory Redis_Client
  imports Redis_Store
begin

text \<open>
  The shared Redis client and cache: \<open>shared/go/pkg/redis/client.go\<close>, \<open>config.go\<close> and \<open>cache.go\<close>.  The
  go-redis client behind it is a parameter that answers the commands it is given; the wrapper's own
  state is its closed flag.
\<close>

subsection \<open>Configuration\<close>

record redis_config =
  rd_addr :: string
  rd_password :: string
  rd_db :: int
  rd_max_retries :: int
  rd_dial_timeout :: duration
  rd_read_timeout :: duration
  rd_write_timeout :: duration
  rd_pool_size :: int
  rd_min_idle_conns :: int
  rd_max_conn_age :: duration
  rd_pool_timeout :: duration

definition DefaultRedisConfig :: "string \<Rightarrow> redis_config" where
  "DefaultRedisConfig addr =
     \<lparr>rd_addr = addr, rd_password = [], rd_db = 0, rd_max_retries = 3, rd_dial_timeout = 5 * Second,
      rd_read_timeout = 3 * Second, rd_write_timeout = 3 * Second, rd_pool_size = 10, rd_min_idle_conns = 5,
      rd_max_conn_age = 30 * Minute, rd_pool_timeout = 4 * Second\<rparr>"

datatype redis_config_error = AddrRequired | DBOutOfRange | PoolSizeTooSmall | DialTimeoutNotPositive

definition redis_config_Validate :: "redis_config \<Rightarrow> redis_config_error option" where
  "redis_config_Validate c =
     (if rd_addr c = [] then Some AddrRequired
      else if rd_db c < 0 \<or> 15 < rd_db c then Some DBOutOfRange
      else if rd_pool_size c < 1 then Some PoolSizeTooSmall
      else if rd_dial_timeout c \<le> 0 then Some DialTimeoutNotPositive
      else None)"

subsection \<open>Commands and replies\<close>

datatype client_cmd =
    CPing | CClose
  | CSet string string duration | CGet string | CDel "string list" | CExists "string list"
  | CExpire string duration | CTTL string
  | CHSet string "string list" | CHGet string string | CHGetAll string | CHDel string "string list"
  | CLPush string "string list" | CRPush string "string list" | CLRange string int int
  | CSAdd string "string list" | CSMembers string
  | CZAdd string "(f64 \<times> string) list" | CZRange string int int
  | CIncr string | CIncrBy string int | CDecr string
  | CPublish string string | CScan string

datatype client_reply =
    CErr string | CNil | CDone | CInt int | CStr string | CStrs "string list" | CPairs "(string \<times> string) list"

type_synonym 'w go_redis = "client_cmd \<Rightarrow> 'w \<Rightarrow> client_reply \<times> 'w"

datatype client_error = ClientClosed | ConfigNil | ConnectFailed string | NilReply | RedisError string

text \<open>
  What \<open>Err()\<close> and \<open>Result()\<close> of a command hand to the caller.
\<close>

fun reply_err :: "client_reply \<Rightarrow> client_error option" where
  "reply_err (CErr e) = Some (RedisError e)"
| "reply_err CNil = Some NilReply"
| "reply_err _ = None"

definition result_as :: "(client_reply \<Rightarrow> 'a option) \<Rightarrow> client_reply \<Rightarrow> client_error + 'a" where
  "result_as read r =
     (case reply_err r of
        Some e \<Rightarrow> Inl e
      | None \<Rightarrow> (case read r of Some v \<Rightarrow> Inr v | None \<Rightarrow> Inl (RedisError ''unexpected reply'')))"

fun as_str :: "client_reply \<Rightarrow> string option" where
  "as_str (CStr s) = Some s" | "as_str _ = None"

fun as_int :: "client_reply \<Rightarrow> int option" where
  "as_int (CInt n) = Some n" | "as_int _ = None"

fun as_strs :: "client_reply \<Rightarrow> string list option" where
  "as_strs (CStrs ss) = Some ss" | "as_strs _ = None"

fun as_pairs :: "client_reply \<Rightarrow> (string \<times> string) list option" where
  "as_pairs (CPairs ps) = Some ps" | "as_pairs _ = None"

subsection \<open>The client\<close>

record redis_client =
  rl_config :: redis_config
  rl_closed :: bool

definition NewClient :: "'w go_redis \<Rightarrow> redis_config option \<Rightarrow> 'w \<Rightarrow> (client_error + redis_client) \<times> 'w" where
  "NewClient go cfg w =
     (case cfg of
        None \<Rightarrow> (Inl ConfigNil, w)
      | Some c \<Rightarrow>
          (case go CPing w of
             (CErr e, w1) \<Rightarrow> (Inl (ConnectFailed (rd_addr c)), w1)
           | (_, w1) \<Rightarrow> (Inr \<lparr>rl_config = c, rl_closed = False\<rparr>, w1)))"

text \<open>Every operation first looks at the flag, under the read lock.\<close>

definition guarded_err :: "'w go_redis \<Rightarrow> redis_client \<Rightarrow> client_cmd \<Rightarrow> 'w \<Rightarrow> client_error option \<times> 'w" where
  "guarded_err go c cmd w =
     (if rl_closed c then (Some ClientClosed, w) else (let (r, w1) = go cmd w in (reply_err r, w1)))"

definition guarded_result ::
  "'w go_redis \<Rightarrow> redis_client \<Rightarrow> (client_reply \<Rightarrow> 'a option) \<Rightarrow> client_cmd \<Rightarrow> 'w \<Rightarrow> (client_error + 'a) \<times> 'w" where
  "guarded_result go c read cmd w =
     (if rl_closed c then (Inl ClientClosed, w) else (let (r, w1) = go cmd w in (result_as read r, w1)))"

definition client_Set :: "'w go_redis \<Rightarrow> redis_client \<Rightarrow> string \<Rightarrow> string \<Rightarrow> duration \<Rightarrow> 'w \<Rightarrow> client_error option \<times> 'w" where
  "client_Set go c key value expiration = guarded_err go c (CSet key value expiration)"

definition client_Get :: "'w go_redis \<Rightarrow> redis_client \<Rightarrow> string \<Rightarrow> 'w \<Rightarrow> (client_error + string) \<times> 'w" where
  "client_Get go c key = guarded_result go c as_str (CGet key)"

definition client_Del :: "'w go_redis \<Rightarrow> redis_client \<Rightarrow> string list \<Rightarrow> 'w \<Rightarrow> client_error option \<times> 'w" where
  "client_Del go c keys = guarded_err go c (CDel keys)"

definition client_Exists :: "'w go_redis \<Rightarrow> redis_client \<Rightarrow> string list \<Rightarrow> 'w \<Rightarrow> (client_error + int) \<times> 'w" where
  "client_Exists go c keys = guarded_result go c as_int (CExists keys)"

definition client_Expire :: "'w go_redis \<Rightarrow> redis_client \<Rightarrow> string \<Rightarrow> duration \<Rightarrow> 'w \<Rightarrow> client_error option \<times> 'w" where
  "client_Expire go c key expiration = guarded_err go c (CExpire key expiration)"

definition client_TTL :: "'w go_redis \<Rightarrow> redis_client \<Rightarrow> string \<Rightarrow> 'w \<Rightarrow> (client_error + duration) \<times> 'w" where
  "client_TTL go c key = guarded_result go c as_int (CTTL key)"

definition client_HSet :: "'w go_redis \<Rightarrow> redis_client \<Rightarrow> string \<Rightarrow> string list \<Rightarrow> 'w \<Rightarrow> client_error option \<times> 'w" where
  "client_HSet go c key values = guarded_err go c (CHSet key values)"

definition client_HGet :: "'w go_redis \<Rightarrow> redis_client \<Rightarrow> string \<Rightarrow> string \<Rightarrow> 'w \<Rightarrow> (client_error + string) \<times> 'w" where
  "client_HGet go c key field = guarded_result go c as_str (CHGet key field)"

definition client_HGetAll ::
  "'w go_redis \<Rightarrow> redis_client \<Rightarrow> string \<Rightarrow> 'w \<Rightarrow> (client_error + (string \<Rightarrow> string option)) \<times> 'w" where
  "client_HGetAll go c key w =
     (let (r, w1) = guarded_result go c as_pairs (CHGetAll key) w in (map_sum id map_of r, w1))"

definition client_HDel :: "'w go_redis \<Rightarrow> redis_client \<Rightarrow> string \<Rightarrow> string list \<Rightarrow> 'w \<Rightarrow> client_error option \<times> 'w" where
  "client_HDel go c key names = guarded_err go c (CHDel key names)"

definition client_LPush :: "'w go_redis \<Rightarrow> redis_client \<Rightarrow> string \<Rightarrow> string list \<Rightarrow> 'w \<Rightarrow> client_error option \<times> 'w" where
  "client_LPush go c key values = guarded_err go c (CLPush key values)"

definition client_RPush :: "'w go_redis \<Rightarrow> redis_client \<Rightarrow> string \<Rightarrow> string list \<Rightarrow> 'w \<Rightarrow> client_error option \<times> 'w" where
  "client_RPush go c key values = guarded_err go c (CRPush key values)"

definition client_LRange ::
  "'w go_redis \<Rightarrow> redis_client \<Rightarrow> string \<Rightarrow> int \<Rightarrow> int \<Rightarrow> 'w \<Rightarrow> (client_error + string list) \<times> 'w" where
  "client_LRange go c key start stop = guarded_result go c as_strs (CLRange key start stop)"

definition client_SAdd :: "'w go_redis \<Rightarrow> redis_client \<Rightarrow> string \<Rightarrow> string list \<Rightarrow> 'w \<Rightarrow> client_error option \<times> 'w" where
  "client_SAdd go c key members = guarded_err go c (CSAdd key members)"

definition client_SMembers :: "'w go_redis \<Rightarrow> redis_client \<Rightarrow> string \<Rightarrow> 'w \<Rightarrow> (client_error + string list) \<times> 'w" where
  "client_SMembers go c key = guarded_result go c as_strs (CSMembers key)"

definition client_ZAdd ::
  "'w go_redis \<Rightarrow> redis_client \<Rightarrow> string \<Rightarrow> (f64 \<times> string) list \<Rightarrow> 'w \<Rightarrow> client_error option \<times> 'w" where
  "client_ZAdd go c key members = guarded_err go c (CZAdd key members)"

definition client_ZRange ::
  "'w go_redis \<Rightarrow> redis_client \<Rightarrow> string \<Rightarrow> int \<Rightarrow> int \<Rightarrow> 'w \<Rightarrow> (client_error + string list) \<times> 'w" where
  "client_ZRange go c key start stop = guarded_result go c as_strs (CZRange key start stop)"

definition client_Incr :: "'w go_redis \<Rightarrow> redis_client \<Rightarrow> string \<Rightarrow> 'w \<Rightarrow> (client_error + int) \<times> 'w" where
  "client_Incr go c key = guarded_result go c as_int (CIncr key)"

definition client_IncrBy :: "'w go_redis \<Rightarrow> redis_client \<Rightarrow> string \<Rightarrow> int \<Rightarrow> 'w \<Rightarrow> (client_error + int) \<times> 'w" where
  "client_IncrBy go c key value = guarded_result go c as_int (CIncrBy key value)"

definition client_Decr :: "'w go_redis \<Rightarrow> redis_client \<Rightarrow> string \<Rightarrow> 'w \<Rightarrow> (client_error + int) \<times> 'w" where
  "client_Decr go c key = guarded_result go c as_int (CDecr key)"

definition client_Publish :: "'w go_redis \<Rightarrow> redis_client \<Rightarrow> string \<Rightarrow> string \<Rightarrow> 'w \<Rightarrow> client_error option \<times> 'w" where
  "client_Publish go c channel message = guarded_err go c (CPublish channel message)"

definition client_HealthCheck :: "'w go_redis \<Rightarrow> redis_client \<Rightarrow> 'w \<Rightarrow> client_error option \<times> 'w" where
  "client_HealthCheck go c = guarded_err go c CPing"

definition client_Close :: "'w go_redis \<Rightarrow> redis_client \<Rightarrow> 'w \<Rightarrow> (client_error option \<times> redis_client) \<times> 'w" where
  "client_Close go c w =
     (if rl_closed c then ((None, c), w)
      else (let (r, w1) = go CClose w in ((reply_err r, c\<lparr>rl_closed := True\<rparr>), w1)))"

subsection \<open>The cache\<close>

text \<open>
  A codec is a pair of functions for JSON or Protobuf: the encoding of a value and the decoding of bytes; \<open>Inl\<close>
  and \<open>None\<close> are their errors.
\<close>

record 'a codec =
  co_marshal :: "'a \<Rightarrow> string option"
  co_unmarshal :: "string \<Rightarrow> 'a option"

datatype 'e cache_error = CacheClient client_error | Unmarshal | Marshal | Compute 'e

definition GetBytes :: "'w go_redis \<Rightarrow> redis_client \<Rightarrow> string \<Rightarrow> 'w \<Rightarrow> ('e cache_error + string) \<times> 'w" where
  "GetBytes go c key w = (let (r, w1) = client_Get go c key w in (map_sum CacheClient id r, w1))"

definition SetBytes ::
  "'w go_redis \<Rightarrow> redis_client \<Rightarrow> string \<Rightarrow> string \<Rightarrow> duration \<Rightarrow> 'w \<Rightarrow> 'e cache_error option \<times> 'w" where
  "SetBytes go c key value ttl w = (let (r, w1) = client_Set go c key value ttl w in (map_option CacheClient r, w1))"

text \<open>\<open>GetJSON\<close> and \<open>GetProto\<close> are the same code over their codec, and so are the two that store.\<close>

definition GetDecoded ::
  "'w go_redis \<Rightarrow> redis_client \<Rightarrow> 'a codec \<Rightarrow> string \<Rightarrow> 'w \<Rightarrow> ('e cache_error + 'a) \<times> 'w" where
  "GetDecoded go c co key w =
     (case GetBytes go c key w of
        (Inl e, w1) \<Rightarrow> (Inl e, w1)
      | (Inr data, w1) \<Rightarrow> (case co_unmarshal co data of None \<Rightarrow> Inl Unmarshal | Some v \<Rightarrow> Inr v, w1))"

definition SetEncoded ::
  "'w go_redis \<Rightarrow> redis_client \<Rightarrow> 'a codec \<Rightarrow> string \<Rightarrow> 'a \<Rightarrow> duration \<Rightarrow> 'w \<Rightarrow> 'e cache_error option \<times> 'w" where
  "SetEncoded go c co key value ttl w =
     (case co_marshal co value of
        None \<Rightarrow> (Some Marshal, w)
      | Some data \<Rightarrow> SetBytes go c key data ttl w)"

definition GetJSON :: "'w go_redis \<Rightarrow> redis_client \<Rightarrow> 'a codec \<Rightarrow> string \<Rightarrow> 'w \<Rightarrow> ('e cache_error + 'a) \<times> 'w" where
  "GetJSON = GetDecoded"

definition GetProto :: "'w go_redis \<Rightarrow> redis_client \<Rightarrow> 'a codec \<Rightarrow> string \<Rightarrow> 'w \<Rightarrow> ('e cache_error + 'a) \<times> 'w" where
  "GetProto = GetDecoded"

definition SetJSON ::
  "'w go_redis \<Rightarrow> redis_client \<Rightarrow> 'a codec \<Rightarrow> string \<Rightarrow> 'a \<Rightarrow> duration \<Rightarrow> 'w \<Rightarrow> 'e cache_error option \<times> 'w" where
  "SetJSON = SetEncoded"

definition SetProto ::
  "'w go_redis \<Rightarrow> redis_client \<Rightarrow> 'a codec \<Rightarrow> string \<Rightarrow> 'a \<Rightarrow> duration \<Rightarrow> 'w \<Rightarrow> 'e cache_error option \<times> 'w" where
  "SetProto = SetEncoded"

definition cache_Delete :: "'w go_redis \<Rightarrow> redis_client \<Rightarrow> string list \<Rightarrow> 'w \<Rightarrow> client_error option \<times> 'w" where
  "cache_Delete go c keys = client_Del go c keys"

definition cache_Exists :: "'w go_redis \<Rightarrow> redis_client \<Rightarrow> string list \<Rightarrow> 'w \<Rightarrow> (client_error + bool) \<times> 'w" where
  "cache_Exists go c keys w =
     (let (r, w1) = client_Exists go c keys w in (map_sum id (\<lambda>n. n = int (length keys)) r, w1))"

definition GetOrSet ::
  "'w go_redis \<Rightarrow> redis_client \<Rightarrow> string \<Rightarrow> duration \<Rightarrow> ('w \<Rightarrow> ('e + string) \<times> 'w) \<Rightarrow> 'w \<Rightarrow>
     ('e cache_error + string) \<times> 'w" where
  "GetOrSet go c key ttl fn w =
     (case GetBytes go c key w of
        (Inr data, w1) \<Rightarrow> (Inr data, w1)
      | (Inl (e0 :: 'e cache_error), w1) \<Rightarrow>
          (case fn w1 of
             (Inl e, w2) \<Rightarrow> (Inl (Compute e), w2)
           | (Inr data, w2) \<Rightarrow>
               (let (r :: 'e cache_error option, w3) = SetBytes go c key data ttl w2 in (Inr data, w3))))"

text \<open>
  The two variants that decode: what is computed is stored, and what the caller gets is the computed
  value encoded and decoded again.
\<close>

definition GetOrSetDecoded ::
  "'w go_redis \<Rightarrow> redis_client \<Rightarrow> 'a codec \<Rightarrow> string \<Rightarrow> duration \<Rightarrow> ('w \<Rightarrow> ('e + 'a) \<times> 'w) \<Rightarrow> 'w \<Rightarrow>
     ('e cache_error + 'a) \<times> 'w" where
  "GetOrSetDecoded go c co key ttl fn w =
     (case GetDecoded go c co key w of
        (Inr v, w1) \<Rightarrow> (Inr v, w1)
      | (Inl (e0 :: 'e cache_error), w1) \<Rightarrow>
          (case fn w1 of
             (Inl e, w2) \<Rightarrow> (Inl (Compute e), w2)
           | (Inr v, w2) \<Rightarrow>
               (let (r :: 'e cache_error option, w3) = SetEncoded go c co key v ttl w2 in
                (case co_marshal co v of
                   None \<Rightarrow> Inl Marshal
                 | Some data \<Rightarrow> (case co_unmarshal co data of None \<Rightarrow> Inl Unmarshal | Some v' \<Rightarrow> Inr v'), w3))))"

definition GetOrSetJSON ::
  "'w go_redis \<Rightarrow> redis_client \<Rightarrow> 'a codec \<Rightarrow> string \<Rightarrow> duration \<Rightarrow> ('w \<Rightarrow> ('e + 'a) \<times> 'w) \<Rightarrow> 'w \<Rightarrow>
     ('e cache_error + 'a) \<times> 'w" where
  "GetOrSetJSON = GetOrSetDecoded"

definition GetOrSetProto ::
  "'w go_redis \<Rightarrow> redis_client \<Rightarrow> 'a codec \<Rightarrow> string \<Rightarrow> duration \<Rightarrow> ('w \<Rightarrow> ('e + 'a) \<times> 'w) \<Rightarrow> 'w \<Rightarrow>
     ('e cache_error + 'a) \<times> 'w" where
  "GetOrSetProto = GetOrSetDecoded"

definition cache_TTL :: "'w go_redis \<Rightarrow> redis_client \<Rightarrow> string \<Rightarrow> 'w \<Rightarrow> (client_error + duration) \<times> 'w" where
  "cache_TTL go c key = client_TTL go c key"

definition cache_Refresh :: "'w go_redis \<Rightarrow> redis_client \<Rightarrow> string \<Rightarrow> duration \<Rightarrow> 'w \<Rightarrow> client_error option \<times> 'w" where
  "cache_Refresh go c key ttl = client_Expire go c key ttl"

text \<open>The scan runs on the go-redis client itself, past the closed flag.\<close>

definition DeletePattern :: "'w go_redis \<Rightarrow> redis_client \<Rightarrow> string \<Rightarrow> 'w \<Rightarrow> client_error option \<times> 'w" where
  "DeletePattern go c pattern w =
     (let (r, w1) = go (CScan pattern) w in
      case result_as as_strs r of
        Inl e \<Rightarrow> (Some e, w1)
      | Inr keys \<Rightarrow> if keys \<noteq> [] then client_Del go c keys w1 else (None, w1))"

subsection \<open>What the cache promises\<close>

text \<open>After \<open>Close\<close> the guarded operations answer that the client is closed and send nothing.\<close>

lemma closed_client_silent:
  assumes "client_Close go c w = ((r, c'), w1)"
  shows "guarded_err go c' cmd v = (Some ClientClosed, v) \<and> guarded_result go c' read cmd v = (Inl ClientClosed, v)"
  using assms by (auto simp: client_Close_def guarded_err_def guarded_result_def split: if_splits prod.splits)

text \<open>
  The documented behaviour of \<open>GET\<close> and \<open>SET\<close> with an expiry, on a store of keys as in \<open>Redis_Store\<close>.
\<close>

definition cache_laws :: "'w go_redis \<Rightarrow> ('w \<Rightarrow> instant) \<Rightarrow> ('w \<Rightarrow> kv_map) \<Rightarrow> bool" where
  "cache_laws go now view \<longleftrightarrow>
     (\<forall>k w. fst (go (CGet k) w) = (case kv_live (now w) (view w) k of None \<Rightarrow> CNil | Some (v, _) \<Rightarrow> CStr (kv_text v)) \<and>
        view (snd (go (CGet k) w)) = view w \<and> now (snd (go (CGet k) w)) = now w) \<and>
     (\<forall>k v d w. 0 \<le> d \<longrightarrow> fst (go (CSet k v d) w) = CDone \<and>
        view (snd (go (CSet k v d) w)) = (view w)(k \<mapsto> (KStr v, if d = 0 then None else Some (now w + d))) \<and>
        now (snd (go (CSet k v d) w)) = now w)"

lemma cache_get:
  assumes "cache_laws go now view" "\<not> rl_closed c"
  obtains w1 where "GetBytes go c k w =
      (case kv_live (now w) (view w) k of None \<Rightarrow> Inl (CacheClient NilReply) | Some (v, _) \<Rightarrow> Inr (kv_text v), w1)"
    "view w1 = view w" "now w1 = now w"
proof -
  obtain r w1 where g: "go (CGet k) w = (r, w1)" by (rule prod.exhaust)
  have "fst (go (CGet k) w) = (case kv_live (now w) (view w) k of None \<Rightarrow> CNil | Some (v, _) \<Rightarrow> CStr (kv_text v)) \<and>
      view (snd (go (CGet k) w)) = view w \<and> now (snd (go (CGet k) w)) = now w"
    using assms(1) unfolding cache_laws_def by blast
  with g have r: "r = (case kv_live (now w) (view w) k of None \<Rightarrow> CNil | Some (v, _) \<Rightarrow> CStr (kv_text v))"
    "view w1 = view w" "now w1 = now w" by simp_all
  show thesis
    by (rule that [OF _ r(2,3)])
      (use assms(2) g r(1) in \<open>auto simp: GetBytes_def client_Get_def guarded_result_def result_as_def split: option.split\<close>)
qed

lemma cache_set:
  assumes "cache_laws go now view" "\<not> rl_closed c" "0 \<le> d"
  obtains w1 where "SetBytes go c k v d w = (None, w1)"
    "view w1 = (view w)(k \<mapsto> (KStr v, if d = 0 then None else Some (now w + d)))" "now w1 = now w"
proof -
  obtain r w1 where g: "go (CSet k v d) w = (r, w1)" by (rule prod.exhaust)
  have "fst (go (CSet k v d) w) = CDone \<and>
      view (snd (go (CSet k v d) w)) = (view w)(k \<mapsto> (KStr v, if d = 0 then None else Some (now w + d))) \<and>
      now (snd (go (CSet k v d) w)) = now w"
    using assms(1,3) unfolding cache_laws_def by blast
  with g have r: "r = CDone"
    "view w1 = (view w)(k \<mapsto> (KStr v, if d = 0 then None else Some (now w + d)))" "now w1 = now w" by simp_all
  show thesis
    by (rule that [OF _ r(2,3)]) (use assms(2) g r(1) in \<open>auto simp: SetBytes_def client_Set_def guarded_err_def\<close>)
qed

text \<open>
  A failing store costs a computation and nothing else.  Whatever Redis answers, and also on a closed client,
  \<open>GetOrSet\<close> yields the bytes it read or else exactly what the function computes, and fails only
  with the function's own error.
\<close>

lemma GetOrSet_transparent:
  "fst (GetOrSet go c key ttl fn w) =
     (case client_Get go c key w of
        (Inr data, _) \<Rightarrow> Inr data
      | (Inl _, w1) \<Rightarrow> map_sum Compute id (fst (fn w1)))"
  by (auto simp: GetOrSet_def GetBytes_def split: prod.splits sum.splits)

text \<open>
  What \<open>GetOrSet\<close> computed is what it answers until the entry expires: the second call yields the bytes
  of the first without running its function, whatever other keys are written and the clock does in
  between, as long as nobody writes the key and it has not expired.
\<close>

theorem GetOrSet_remembers:
  assumes "cache_laws go now view" "\<not> rl_closed c" "0 \<le> ttl"
    and "kv_live (now w) (view w) key = None"
    and "\<And>v. view (snd (fn (v :: 'w) :: ('e + string) \<times> 'w)) = view v \<and> now (snd (fn v)) = now v"
    and "GetOrSet go c key ttl fn w = (Inr data, w1)"
    and "view w2 key = view w1 key" "now w1 \<le> now w2" "ttl = 0 \<or> now w2 < now w1 + ttl"
  shows "fst (GetOrSet go c key ttl (other :: 'w \<Rightarrow> ('f + string) \<times> 'w) w2) = Inr data \<and>
    view (snd (GetOrSet go c key ttl other w2)) = view w2"
proof -
  obtain v1 where g: "GetBytes go c key w = (Inl (CacheClient NilReply :: 'e cache_error), v1)"
      "view v1 = view w" "now v1 = now w"
    using cache_get [OF assms(1,2), of key w] assms(4) by auto
  obtain r v2 where f: "fn v1 = (r, v2)" by (rule prod.exhaust)
  with assms(5) [of v1] g have v2: "view v2 = view w" "now v2 = now w" by simp_all
  obtain v3 where s: "SetBytes go c key data ttl v2 = (None :: 'e cache_error option, v3)"
      "view v3 = (view v2)(key \<mapsto> (KStr data, if ttl = 0 then None else Some (now v2 + ttl)))" "now v3 = now v2"
    by (rule cache_set [OF assms(1-3)])
  have "r = Inr data" "w1 = v3" using assms(6) g(1) f s(1) by (auto simp: GetOrSet_def split: sum.splits prod.splits)
  then have live: "kv_live (now w2) (view w2) key = Some (KStr data, if ttl = 0 then None else Some (now v2 + ttl))"
    using s assms(7-9) by (auto simp: kv_live_def)
  obtain w3 where "GetBytes go c key w2 = (Inr data :: 'f cache_error + string, w3)" "view w3 = view w2"
    using cache_get [OF assms(1,2), of key w2] live by auto
  then show ?thesis by (simp add: GetOrSet_def)
qed

subsection \<open>A concrete store\<close>

definition kv_go :: "kv_world go_redis" where
  "kv_go cmd w =
     (case cmd of
        CGet k \<Rightarrow> (case kv_live (kw_now w) (kw_map w) k of None \<Rightarrow> CNil | Some (v, _) \<Rightarrow> CStr (kv_text v), w)
      | CSet k v d \<Rightarrow>
          (CDone, w\<lparr>kw_map := (kw_map w)(k \<mapsto> (KStr v, if d = 0 then None else Some (kw_now w + d)))\<rparr>)
      | CPing \<Rightarrow> (CDone, w)
      | CClose \<Rightarrow> (CDone, w)
      | _ \<Rightarrow> (CErr ''unsupported'', w))"

lemma kv_go_laws: "cache_laws kv_go kw_now kw_map"
  by (auto simp: cache_laws_def kv_go_def)

definition open_client :: redis_client where
  "open_client = \<lparr>rl_config = DefaultRedisConfig ''localhost:6379'', rl_closed = False\<rparr>"

definition empty_store :: kv_world where
  "empty_store = \<lparr>kw_now = 0, kw_map = Map.empty\<rparr>"

theorem GetOrSet_remembers_witness:
  "\<exists>w1. GetOrSet kv_go open_client ''k'' Second (\<lambda>w. (Inr ''v'' :: nat + string, w)) empty_store = (Inr ''v'', w1) \<and>
     fst (GetOrSet kv_go open_client ''k'' Second (\<lambda>w. (Inl 0 :: nat + string, w)) (w1\<lparr>kw_now := 10\<rparr>)) = Inr ''v''"
proof -
  let ?fn = "\<lambda>w. (Inr ''v'' :: nat + string, w)"
  obtain w1 where g: "GetOrSet kv_go open_client ''k'' Second ?fn empty_store = (Inr ''v'', w1)" and n: "kw_now w1 = 0"
    by (simp add: GetOrSet_def GetBytes_def SetBytes_def client_Get_def client_Set_def guarded_result_def
        guarded_err_def result_as_def kv_go_def open_client_def empty_store_def kv_live_def)
  have "fst (GetOrSet kv_go open_client ''k'' Second (\<lambda>w. (Inl 0 :: nat + string, w)) (w1\<lparr>kw_now := 10\<rparr>)) = Inr ''v'' \<and>
      kw_map (snd (GetOrSet kv_go open_client ''k'' Second (\<lambda>w. (Inl 0 :: nat + string, w)) (w1\<lparr>kw_now := 10\<rparr>))) =
        kw_map (w1\<lparr>kw_now := 10\<rparr>)"
    by (rule GetOrSet_remembers [OF kv_go_laws _ _ _ _ g])
      (simp_all add: open_client_def empty_store_def kv_live_def n go_simps)
  with g show ?thesis by blast
qed

end
