(* ===== verification/Kis_Auth.thy ===== *)
theory Kis_Auth
  imports Redis_Client Go_Http
begin

text \<open>
  The token manager of the data ingestion service, \<open>internal/kis/auth.go\<close>: it takes the broker's access
  token from the Redis cache or fetches a new one, and a background task renews it.  The broker is a
  parameter, every reading of the clock is a step of the world.
\<close>

subsection \<open>State\<close>

record kis_feed_config =
  ig_api_key :: string
  ig_api_secret :: string
  ig_websocket_url :: string
  ig_api_url :: string
  ig_reconnect_retries :: int
  ig_reconnect_delay :: duration
  ig_heartbeat_interval :: duration
  ig_message_buffer_size :: int
  ig_token_cache_ttl :: duration
  ig_token_refresh_before :: duration

record auth_manager =
  am_config :: kis_feed_config
  am_cache :: redis_client
  am_token :: string
  am_expires_at :: instant

record 'w token_env =
  tn_now :: "'w \<Rightarrow> instant \<times> 'w"
  tn_redis :: "'w go_redis"
  tn_post :: "http_request \<Rightarrow> 'w \<Rightarrow> http_reply \<times> 'w"
  tn_codec :: "(string \<times> instant) codec"
  tn_request :: "string \<Rightarrow> string \<Rightarrow> string"
  tn_url_ok :: "string \<Rightarrow> bool"
  tn_decode :: "string \<Rightarrow> (string \<times> int) option"

datatype token_error =
    NoToken | TokenHasExpired | RequestInvalid | RequestFailed | TokenStatus int string | ReplyUnreadable
  | EmptyAccessToken | CachedTokenInvalid | CacheReadFailed "unit cache_error" | InitialFetchFailed token_error

definition tokenCacheKey :: string where "tokenCacheKey = ''kis:access_token''"

definition NewAuthManager :: "kis_feed_config \<Rightarrow> redis_client \<Rightarrow> auth_manager" where
  "NewAuthManager cfg cache =
     \<lparr>am_config = cfg, am_cache = cache, am_token = [], am_expires_at = zero_time\<rparr>"

subsection \<open>Operations\<close>

definition GetToken :: "instant \<Rightarrow> auth_manager \<Rightarrow> token_error + string" where
  "GetToken now am =
     (if am_token am = [] then Inl NoToken
      else if am_expires_at am < now then Inl TokenHasExpired
      else Inr (am_token am))"

definition cacheToken :: "'w token_env \<Rightarrow> auth_manager \<Rightarrow> 'w \<Rightarrow> unit cache_error option \<times> 'w" where
  "cacheToken env am w =
     SetJSON (tn_redis env) (am_cache am) (tn_codec env) tokenCacheKey (am_token am, am_expires_at am)
       (ig_token_cache_ttl (am_config am)) w"

text \<open>A failure to store the new token in the cache is only logged.\<close>

definition token_request :: "'w token_env \<Rightarrow> auth_manager \<Rightarrow> http_request" where
  "token_request env am =
     \<lparr>hr_method = ''POST'', hr_url = ig_api_url (am_config am) @ ''/oauth2/tokenP'',
      hr_body = tn_request env (ig_api_key (am_config am)) (ig_api_secret (am_config am)),
      hr_headers = [(''Content-Type'', ''application/json'')]\<rparr>"

definition refreshToken :: "'w token_env \<Rightarrow> auth_manager \<Rightarrow> 'w \<Rightarrow> (token_error option \<times> auth_manager) \<times> 'w" where
  "refreshToken env am w =
     (let req = token_request env am in
      if \<not> tn_url_ok env (hr_url req) then ((Some RequestInvalid, am), w)
      else case tn_post env req w of
        (HttpFailed, w1) \<Rightarrow> ((Some RequestFailed, am), w1)
      | (HttpBodyFailed st, w1) \<Rightarrow>
          ((Some (if st \<noteq> 200 then TokenStatus st [] else ReplyUnreadable), am), w1)
      | (HttpReply st body, w1) \<Rightarrow>
          if st \<noteq> 200 then ((Some (TokenStatus st body), am), w1)
          else
            (case tn_decode env body of
               None \<Rightarrow> ((Some ReplyUnreadable, am), w1)
             | Some (token, expires_in) \<Rightarrow>
                 if token = [] then ((Some EmptyAccessToken, am), w1)
                 else
                   let (now, w2) = tn_now env w1;
                       am1 = am\<lparr>am_token := token, am_expires_at := now + wrap64 (expires_in * Second)\<rparr>;
                       (r, w3) = cacheToken env am1 w2 in
                   ((None, am1), w3)))"

definition loadTokenFromCache ::
  "'w token_env \<Rightarrow> auth_manager \<Rightarrow> 'w \<Rightarrow> (token_error option \<times> auth_manager) \<times> 'w" where
  "loadTokenFromCache env am w =
     (case GetJSON (tn_redis env) (am_cache am) (tn_codec env) tokenCacheKey w of
        (Inl e, w1) \<Rightarrow> ((Some (CacheReadFailed e), am), w1)
      | (Inr (token, expires), w1) \<Rightarrow>
          if token = [] then ((Some CachedTokenInvalid, am), w1)
          else
            let (now, w2) = tn_now env w1 in
            if expires < now then ((Some CachedTokenInvalid, am), w2)
            else ((None, am\<lparr>am_token := token, am_expires_at := expires\<rparr>), w2))"

text \<open>\<open>Start\<close>; the background task it starts is \<open>refresh_tick\<close> at every \<open>refresh_interval\<close>.\<close>

definition auth_Start :: "'w token_env \<Rightarrow> auth_manager \<Rightarrow> 'w \<Rightarrow> (token_error option \<times> auth_manager) \<times> 'w" where
  "auth_Start env am w =
     (let ((r, am1), w1) = loadTokenFromCache env am w;
          (stale, w2) = (if am_token am1 = [] then (True, w1)
             else let (now, w') = tn_now env w1 in (am_expires_at am1 < now, w')) in
      if stale then
        (case refreshToken env am1 w2 of
           ((Some e, am2), w3) \<Rightarrow> ((Some (InitialFetchFailed e), am2), w3)
         | ((None, am2), w3) \<Rightarrow> ((None, am2), w3))
      else ((None, am1), w2))"

text \<open>The period of the task; \<open>None\<close> is the panic of \<open>time.NewTicker\<close> on a negative one.\<close>

definition refresh_interval :: "kis_feed_config \<Rightarrow> duration option" where
  "refresh_interval cfg =
     (let d = ig_token_refresh_before cfg; d' = (if d = 0 then 10 * Minute else d) in
      if d' \<le> 0 then None else Some d')"

definition refresh_tick :: "'w token_env \<Rightarrow> auth_manager \<Rightarrow> 'w \<Rightarrow> (token_error option \<times> auth_manager) \<times> 'w" where
  "refresh_tick env am w =
     (let (now, w1) = tn_now env w in
      if am_expires_at am - now < ig_token_refresh_before (am_config am) then refreshToken env am w1
      else ((None, am), w1))"

subsection \<open>Where a token comes from\<close>

text \<open>
  A token with its expiry is genuine when the broker sent it and the expiry is the lifetime it came
  with counted from a reading of the clock after the reply.
\<close>

definition genuine :: "'w token_env \<Rightarrow> string \<times> instant \<Rightarrow> bool" where
  "genuine env te \<longleftrightarrow>
     fst te \<noteq> [] \<and>
     (\<exists>req w secs body w1. tn_post env req w = (HttpReply 200 body, w1) \<and>
        tn_decode env body = Some (fst te, secs) \<and> snd te = fst (tn_now env w1) + wrap64 (secs * Second))"

definition manager_ok :: "'w token_env \<Rightarrow> auth_manager \<Rightarrow> bool" where
  "manager_ok env am \<longleftrightarrow> am_token am = [] \<or> genuine env (am_token am, am_expires_at am)"

lemma refreshToken_cases:
  assumes "refreshToken env am w = ((r, am'), w')"
  shows "(r \<noteq> None \<and> am' = am) \<or>
    (r = None \<and> am_config am' = am_config am \<and> am_cache am' = am_cache am \<and>
     genuine env (am_token am', am_expires_at am') \<and>
     (\<exists>w1 body secs. tn_post env (token_request env am) w = (HttpReply 200 body, w1) \<and>
        tn_decode env body = Some (am_token am', secs) \<and>
        am_expires_at am' = fst (tn_now env w1) + wrap64 (secs * Second)))"
proof (cases "r = None")
  case True
  obtain reply w1 where q: "tn_post env (token_request env am) w = (reply, w1)" by (rule prod.exhaust)
  with True assms obtain body where b: "reply = HttpReply 200 body"
    by (auto simp: refreshToken_def Let_def split: if_splits http_reply.splits)
  with True assms q obtain te where t: "tn_decode env body = Some te"
    by (auto simp: refreshToken_def Let_def split: if_splits option.splits)
  obtain token secs where te: "te = (token, secs)" by (rule prod.exhaust)
  have p: "tn_post env (token_request env am) w = (HttpReply 200 body, w1)" "tn_decode env body = Some (token, secs)"
      "token \<noteq> []" "am' = am\<lparr>am_token := token, am_expires_at := fst (tn_now env w1) + wrap64 (secs * Second)\<rparr>"
    using True assms q b t te by (auto simp: refreshToken_def Let_def split: if_splits prod.splits)
  then have "genuine env (am_token am', am_expires_at am')"
    unfolding genuine_def by (intro conjI exI [of _ "token_request env am"] exI [of _ w] exI) auto
  with p True show ?thesis by auto
next
  case False
  with assms show ?thesis
    by (auto simp: refreshToken_def Let_def case_prod_beta split: if_splits http_reply.splits option.splits prod.splits)
qed

text \<open>
  The contract of an operation of the token manager: it keeps the configuration and the origin of the
  token.
\<close>

locale token_operation =
  fixes env :: "'w token_env"
    and step :: "auth_manager \<Rightarrow> 'w \<Rightarrow> (token_error option \<times> auth_manager) \<times> 'w"
    and cached_ok :: "auth_manager \<Rightarrow> 'w \<Rightarrow> bool"
  assumes keeps_config: "am_config (snd (fst (step am w))) = am_config am"
    and keeps_origin: "manager_ok env am \<Longrightarrow> cached_ok am w \<Longrightarrow> manager_ok env (snd (fst (step am w)))"
begin

lemma token_handed_out_is_genuine:
  assumes "manager_ok env am" "cached_ok am w" "step am w = ((r, am'), w')" "GetToken now am' = Inr t"
  shows "genuine env (t, am_expires_at am') \<and> now \<le> am_expires_at am'"
  using keeps_origin [OF assms(1,2)] assms(3,4) by (auto simp: GetToken_def manager_ok_def split: if_splits)

end

text \<open>What the cache holds under the manager's key decodes to a genuine token, if to anything.\<close>

definition cached_genuine :: "'w token_env \<Rightarrow> redis_client \<Rightarrow> 'w \<Rightarrow> bool" where
  "cached_genuine env c w \<longleftrightarrow>
     (\<forall>te w'. GetJSON (tn_redis env) c (tn_codec env) tokenCacheKey w = (Inr te :: unit cache_error + _, w') \<longrightarrow>
        fst te = [] \<or> genuine env te)"

lemma refresh_keeps:
  "am_config (snd (fst (refreshToken env am w))) = am_config am"
  "manager_ok env am \<Longrightarrow> manager_ok env (snd (fst (refreshToken env am w)))"
proof -
  obtain r am' w' where e: "refreshToken env am w = ((r, am'), w')" by (metis prod.exhaust)
  from refreshToken_cases [OF e] e show "am_config (snd (fst (refreshToken env am w))) = am_config am"
    "manager_ok env am \<Longrightarrow> manager_ok env (snd (fst (refreshToken env am w)))"
    by (auto simp: manager_ok_def)
qed

lemma load_keeps:
  "am_config (snd (fst (loadTokenFromCache env am w))) = am_config am"
  "manager_ok env am \<Longrightarrow> cached_genuine env (am_cache am) w \<Longrightarrow>
     manager_ok env (snd (fst (loadTokenFromCache env am w)))"
  by (auto simp: loadTokenFromCache_def manager_ok_def cached_genuine_def Let_def split: sum.split prod.split)

interpretation refreshing: token_operation env "refreshToken env" "\<lambda>am w. True" for env
  by unfold_locales (use refresh_keeps in auto)

interpretation ticking: token_operation env "refresh_tick env" "\<lambda>am w. True" for env
  by unfold_locales (auto simp: refresh_tick_def refresh_keeps Let_def split: prod.split)

lemma start_keeps:
  "am_config (snd (fst (auth_Start env am w))) = am_config am"
  "manager_ok env am \<Longrightarrow> cached_genuine env (am_cache am) w \<Longrightarrow> manager_ok env (snd (fst (auth_Start env am w)))"
proof -
  obtain r am1 w1 where l: "loadTokenFromCache env am w = ((r, am1), w1)" by (metis prod.exhaust)
  have c: "am_config am1 = am_config am" using load_keeps(1) [of env am w] l by simp
  have s: "snd (fst (auth_Start env am w)) = am1 \<or> (\<exists>v. snd (fst (auth_Start env am w)) = snd (fst (refreshToken env am1 v)))"
    by (auto simp: auth_Start_def l Let_def split: prod.split option.split) (metis fst_conv snd_conv)+
  from s c show "am_config (snd (fst (auth_Start env am w))) = am_config am" by (auto simp: refresh_keeps)
  assume "manager_ok env am" "cached_genuine env (am_cache am) w"
  then have "manager_ok env am1" using load_keeps(2) [of env am w] l by simp
  with s show "manager_ok env (snd (fst (auth_Start env am w)))" by (auto simp: refresh_keeps)
qed

interpretation starting: token_operation env "auth_Start env" "\<lambda>am. cached_genuine env (am_cache am)" for env
  by unfold_locales (rule start_keeps, erule (1) start_keeps(2))

subsection \<open>Histories of a manager and its cache\<close>

text \<open>
  The surroundings: the store behaves as \<open>cache_laws\<close> says, reading the clock and asking the broker leave it
  alone, and decoding undoes encoding.
\<close>

definition token_world :: "'w token_env \<Rightarrow> ('w \<Rightarrow> instant) \<Rightarrow> ('w \<Rightarrow> kv_map) \<Rightarrow> bool" where
  "token_world env now view \<longleftrightarrow>
     cache_laws (tn_redis env) now view \<and>
     (\<forall>w. view (snd (tn_now env w)) = view w) \<and> (\<forall>req w. view (snd (tn_post env req w)) = view w) \<and>
     (\<forall>te v. co_marshal (tn_codec env) te = Some v \<longrightarrow> co_unmarshal (tn_codec env) v = Some te)"

definition entry_ok :: "'w token_env \<Rightarrow> kv_entry option \<Rightarrow> bool" where
  "entry_ok env e \<longleftrightarrow>
     (\<forall>v t te. e = Some (v, t) \<longrightarrow> co_unmarshal (tn_codec env) (kv_text v) = Some te \<longrightarrow> fst te = [] \<or> genuine env te)"

lemma entry_ok_cached:
  assumes "token_world env now view" "entry_ok env (view w tokenCacheKey)"
  shows "cached_genuine env c w"
proof (cases "rl_closed c")
  case True
  then show ?thesis
    by (simp add: cached_genuine_def GetJSON_def GetDecoded_def GetBytes_def client_Get_def guarded_result_def)
next
  case False
  have "cache_laws (tn_redis env) now view" using assms(1) by (simp add: token_world_def)
  from cache_get [OF this False, of tokenCacheKey w] obtain w1 where
    "GetBytes (tn_redis env) c tokenCacheKey w = (case kv_live (now w) (view w) tokenCacheKey of
       None \<Rightarrow> Inl (CacheClient NilReply :: unit cache_error) | Some (v, _) \<Rightarrow> Inr (kv_text v), w1)" by blast
  then show ?thesis using assms(2)
    by (auto simp: cached_genuine_def GetJSON_def GetDecoded_def entry_ok_def kv_live_def
        split: option.splits if_splits)
qed

lemma GetJSON_view:
  assumes "token_world env now view"
  shows "view (snd (GetJSON (tn_redis env) c co k w :: (unit cache_error + _) \<times> _)) = view w"
proof (cases "rl_closed c")
  case True
  then show ?thesis
    by (simp add: GetJSON_def GetDecoded_def GetBytes_def client_Get_def guarded_result_def)
next
  case False
  have "cache_laws (tn_redis env) now view" using assms(1) by (simp add: token_world_def)
  from cache_get [OF this False, of k w] obtain w1 where
    "GetBytes (tn_redis env) c k w = (case kv_live (now w) (view w) k of
       None \<Rightarrow> Inl (CacheClient NilReply :: unit cache_error) | Some (v, _) \<Rightarrow> Inr (kv_text v), w1)" "view w1 = view w"
    by blast
  then show ?thesis by (auto simp: GetJSON_def GetDecoded_def split: option.split)
qed

lemma cacheToken_entry:
  assumes "token_world env now view" "genuine env (am_token am, am_expires_at am)"
    and "entry_ok env (view w tokenCacheKey)" "0 \<le> ig_token_cache_ttl (am_config am)"
  shows "entry_ok env (view (snd (cacheToken env am w)) tokenCacheKey)"
proof (cases "rl_closed (am_cache am)")
  case True
  then show ?thesis using assms(3)
    by (simp add: cacheToken_def SetJSON_def SetEncoded_def SetBytes_def client_Set_def guarded_err_def split: option.split)
next
  case False
  have l: "cache_laws (tn_redis env) now view" using assms(1) by (simp add: token_world_def)
  show ?thesis
  proof (cases "co_marshal (tn_codec env) (am_token am, am_expires_at am)")
    case None
    then show ?thesis using assms(3) by (simp add: cacheToken_def SetJSON_def SetEncoded_def)
  next
    case (Some v)
    then have u: "co_unmarshal (tn_codec env) v = Some (am_token am, am_expires_at am)"
      using assms(1) unfolding token_world_def by blast
    obtain w1 where "SetBytes (tn_redis env) (am_cache am) tokenCacheKey v (ig_token_cache_ttl (am_config am)) w =
        (None :: unit cache_error option, w1)"
      "view w1 = (view w)(tokenCacheKey \<mapsto> (KStr v, if ig_token_cache_ttl (am_config am) = 0 then None
         else Some (now w + ig_token_cache_ttl (am_config am))))"
      by (rule cache_set [OF l False assms(4)])
    then show ?thesis using Some u assms(2)
      by (simp add: cacheToken_def SetJSON_def SetEncoded_def entry_ok_def)
  qed
qed

lemma refreshToken_entry:
  assumes "token_world env now view" "entry_ok env (view w tokenCacheKey)" "0 \<le> ig_token_cache_ttl (am_config am)"
  shows "entry_ok env (view (snd (refreshToken env am w)) tokenCacheKey)"
proof -
  have v: "view (snd (tn_now env x)) = view x" "view (snd (tn_post env req x)) = view x" for x req
    using assms(1) by (simp_all add: token_world_def)
  obtain reply w1 where p: "tn_post env (token_request env am) w = (reply, w1)" by (rule prod.exhaust)
  with v(2) [of "token_request env am" w] have w1: "view w1 = view w" by simp
  obtain n w2 where n: "tn_now env w1 = (n, w2)" by (rule prod.exhaust)
  with v(1) [of w1] w1 have w2: "view w2 = view w" by simp
  have c: "entry_ok env (view (snd (cacheToken env (am\<lparr>am_token := token, am_expires_at := n + wrap64 (secs * Second)\<rparr>) w2))
      tokenCacheKey)"
    if "reply = HttpReply 200 body" "tn_decode env body = Some (token, secs)" "token \<noteq> []" for body token secs
  proof (rule cacheToken_entry [OF assms(1)])
    show "genuine env (am_token (am\<lparr>am_token := token, am_expires_at := n + wrap64 (secs * Second)\<rparr>),
        am_expires_at (am\<lparr>am_token := token, am_expires_at := n + wrap64 (secs * Second)\<rparr>))"
      unfolding genuine_def using that p n
      by (intro conjI exI [of _ "token_request env am"] exI [of _ w] exI) auto
  qed (use assms w2 in auto)
  show ?thesis
    using c assms(2) w1 p n
    by (auto simp: refreshToken_def Let_def case_prod_beta split: http_reply.split option.split)
qed

lemma load_entry:
  assumes "token_world env now view" "entry_ok env (view w tokenCacheKey)"
  shows "entry_ok env (view (snd (loadTokenFromCache env am w)) tokenCacheKey)"
proof -
  have v: "view (snd (tn_now env x)) = view x" for x using assms(1) by (simp add: token_world_def)
  obtain r w1 where g: "GetJSON (tn_redis env) (am_cache am) (tn_codec env) tokenCacheKey w =
      (r :: unit cache_error + (string \<times> instant), w1)" by (rule prod.exhaust)
  with GetJSON_view [OF assms(1), of "am_cache am" "tn_codec env" tokenCacheKey w] have w1: "view w1 = view w" by simp
  show ?thesis using v [of w1] w1 assms(2)
    by (cases "tn_now env w1") (auto simp: loadTokenFromCache_def g Let_def split: sum.split prod.split)
qed

lemma auth_Start_entry:
  assumes "token_world env now view" "entry_ok env (view w tokenCacheKey)" "0 \<le> ig_token_cache_ttl (am_config am)"
  shows "entry_ok env (view (snd (auth_Start env am w)) tokenCacheKey)"
proof -
  obtain r am1 w1 where l: "loadTokenFromCache env am w = ((r, am1), w1)" by (metis prod.exhaust)
  have w1: "entry_ok env (view w1 tokenCacheKey)" using load_entry [OF assms(1,2), of am] l by simp
  have c: "0 \<le> ig_token_cache_ttl (am_config am1)" using load_keeps(1) [of env am w] l assms(3) by simp
  obtain stale w2 where s: "(if am_token am1 = [] then (True, w1)
      else let (now, w') = tn_now env w1 in (am_expires_at am1 < now, w')) = (stale, w2)" by (rule prod.exhaust)
  have "view w2 = view w1"
    using s assms(1) by (auto simp: token_world_def Let_def split: if_splits prod.splits) (metis snd_conv)+
  with w1 have w2: "entry_ok env (view w2 tokenCacheKey)" by simp
  show ?thesis using refreshToken_entry [OF assms(1) w2 c] w2
    by (simp add: auth_Start_def l s Let_def split: prod.split option.split) (metis snd_conv)
qed

lemma refresh_tick_entry:
  assumes "token_world env now view" "entry_ok env (view w tokenCacheKey)" "0 \<le> ig_token_cache_ttl (am_config am)"
  shows "entry_ok env (view (snd (refresh_tick env am w)) tokenCacheKey)"
proof -
  obtain n w1 where n: "tn_now env w = (n, w1)" by (rule prod.exhaust)
  have "view (snd (tn_now env w)) = view w" using assms(1) by (simp add: token_world_def)
  with n assms(2) have w1: "entry_ok env (view w1 tokenCacheKey)" by simp
  then show ?thesis using refreshToken_entry [OF assms(1) w1 assms(3)] by (simp add: refresh_tick_def n)
qed

text \<open>
  The service starts, its task ticks, the process is restarted with nothing but the cache left, and
  meanwhile other clients may do anything to the store but write the manager's key.
\<close>

inductive auth_step ::
  "'w token_env \<Rightarrow> ('w \<Rightarrow> kv_map) \<Rightarrow> auth_manager \<times> 'w \<Rightarrow> auth_manager \<times> 'w \<Rightarrow> bool"
  for env view where
  start: "auth_Start env am w = ((r, am'), w') \<Longrightarrow> auth_step env view (am, w) (am', w')"
| tick: "refresh_tick env am w = ((r, am'), w') \<Longrightarrow> auth_step env view (am, w) (am', w')"
| restart: "auth_step env view (am, w) (NewAuthManager (am_config am) (am_cache am), w)"
| elsewhere: "view w' tokenCacheKey \<in> {view w tokenCacheKey, None} \<Longrightarrow> auth_step env view (am, w) (am, w')"

definition auth_inv :: "'w token_env \<Rightarrow> ('w \<Rightarrow> kv_map) \<Rightarrow> auth_manager \<times> 'w \<Rightarrow> bool" where
  "auth_inv env view s \<longleftrightarrow>
     manager_ok env (fst s) \<and> entry_ok env (view (snd s) tokenCacheKey) \<and>
     0 \<le> ig_token_cache_ttl (am_config (fst s))"

lemma auth_inv_step:
  assumes "token_world env now view" "auth_step env view s s'" "auth_inv env view s"
  shows "auth_inv env view s'"
  using assms(2,3)
proof (induction rule: auth_step.induct)
  case (start am w r am' w')
  then have i: "manager_ok env am" "entry_ok env (view w tokenCacheKey)" "0 \<le> ig_token_cache_ttl (am_config am)"
    by (simp_all add: auth_inv_def)
  from start_keeps(1) [of env am w] start_keeps(2) [OF i(1) entry_ok_cached [OF assms(1) i(2)]]
    auth_Start_entry [OF assms(1) i(2,3)] start.hyps i(3)
  show ?case by (simp add: auth_inv_def)
next
  case (tick am w r am' w')
  then have i: "manager_ok env am" "entry_ok env (view w tokenCacheKey)" "0 \<le> ig_token_cache_ttl (am_config am)"
    by (simp_all add: auth_inv_def)
  from ticking.keeps_config [of env am w] ticking.keeps_origin [OF i(1) TrueI, of w]
    refresh_tick_entry [OF assms(1) i(2,3)] tick.hyps i(3)
  show ?case by (simp add: auth_inv_def)
qed (auto simp: auth_inv_def manager_ok_def NewAuthManager_def entry_ok_def)

text \<open>
  C34. Every token handed out came from the broker and is within its lifetime.  In every history of starts,
  ticks, restarts and foreign use of the store, a token that \<open>GetToken\<close> yields is one the broker
  sent, its expiry is the lifetime that came with it counted from the reply, also when it was
  read back from the cache by a later process, and that expiry has not passed.
\<close>

theorem tokens_are_genuine:
  assumes "token_world env now view" "0 \<le> ig_token_cache_ttl cfg" "view w0 tokenCacheKey = None"
    and "(auth_step env view)\<^sup>*\<^sup>* (NewAuthManager cfg cache, w0) (am, w)"
    and "GetToken t am = Inr token"
  shows "genuine env (token, am_expires_at am) \<and> t \<le> am_expires_at am"
proof -
  have "auth_inv env view (am, w)"
    using assms(4)
  proof (induction rule: rtranclp_induct)
    case base
    then show ?case using assms(2,3) by (simp add: auth_inv_def manager_ok_def NewAuthManager_def entry_ok_def)
  next
    case (step s s')
    then show ?case using auth_inv_step [OF assms(1)] by blast
  qed
  then show ?thesis using assms(5) by (auto simp: auth_inv_def manager_ok_def GetToken_def split: if_splits)
qed

subsection \<open>Renewal in time\<close>

text \<open>
  Between two ticks the token does not expire.  When a tick ends without an error and the broker's tokens
  live at least one period, \<open>GetToken\<close> succeeds until the next tick is due.
\<close>

theorem no_expiry_between_ticks:
  assumes "refresh_tick env am w = ((None, am'), w')"
    and "0 < ig_token_refresh_before (am_config am)" "am_token am \<noteq> []"
    and "\<And>body token secs. tn_decode env body = Some (token, secs) \<Longrightarrow>
       ig_token_refresh_before (am_config am) \<le> wrap64 (secs * Second)"
    and "\<And>v. fst (tn_now env v) \<le> fst (tn_now env (snd (tn_post env (token_request env am) (snd (tn_now env v)))))"
    and "t \<le> fst (tn_now env w) + ig_token_refresh_before (am_config am)"
  shows "refresh_interval (am_config am) = Some (ig_token_refresh_before (am_config am)) \<and>
    GetToken t am' = Inr (am_token am')"
proof -
  have i: "refresh_interval (am_config am) = Some (ig_token_refresh_before (am_config am))"
    using assms(2) by (simp add: refresh_interval_def)
  obtain n w1 where n: "tn_now env w = (n, w1)" by (rule prod.exhaust)
  have "GetToken t am' = Inr (am_token am')"
  proof (cases "am_expires_at am - n < ig_token_refresh_before (am_config am)")
    case True
    then have r: "refreshToken env am w1 = ((None, am'), w')" using assms(1) n by (simp add: refresh_tick_def)
    from refreshToken_cases [OF r] obtain w2 body secs where
      g: "genuine env (am_token am', am_expires_at am')" "tn_post env (token_request env am) w1 = (HttpReply 200 body, w2)"
        "tn_decode env body = Some (am_token am', secs)" "am_expires_at am' = fst (tn_now env w2) + wrap64 (secs * Second)"
      by auto
    have "ig_token_refresh_before (am_config am) \<le> wrap64 (secs * Second)" by (rule assms(4) [OF g(3)])
    moreover have "n \<le> fst (tn_now env w2)" using assms(5) [of w] n g(2) by simp
    ultimately show ?thesis using g assms(6) n by (simp add: GetToken_def genuine_def)
  next
    case False
    then have "am' = am" using assms(1) n by (simp add: refresh_tick_def)
    then show ?thesis using False assms(3,6) n by (simp add: GetToken_def)
  qed
  with i show ?thesis by simp
qed

text \<open>
  With a refresh margin of zero, which the code gives a period of ten minutes, a tick lets a token
  pass that expires before the next one.
\<close>

theorem zero_margin_expires:
  assumes "ig_token_refresh_before (am_config am) = 0" "am_token am \<noteq> []"
    and "tn_now env w = (n, w1)" "n \<le> am_expires_at am" "am_expires_at am + 1 < n + 10 * Minute"
  shows "refresh_interval (am_config am) = Some (10 * Minute) \<and> refresh_tick env am w = ((None, am), w1) \<and>
    (\<exists>t. n < t \<and> t < n + 10 * Minute \<and> GetToken t am = Inl TokenHasExpired)"
proof -
  have "GetToken (am_expires_at am + 1) am = Inl TokenHasExpired" using assms(2) by (simp add: GetToken_def)
  then show ?thesis using assms by (auto simp: refresh_interval_def refresh_tick_def go_simps intro!: exI [of _ "am_expires_at am + 1"])
qed

subsection \<open>Concrete runs\<close>

definition sample_kis_config :: kis_feed_config where
  "sample_kis_config = \<lparr>ig_api_key = ''k'', ig_api_secret = ''s'', ig_websocket_url = ''ws://h'',
     ig_api_url = ''https://h'', ig_reconnect_retries = 5, ig_reconnect_delay = 5 * Second,
     ig_heartbeat_interval = 30 * Second, ig_message_buffer_size = 1000, ig_token_cache_ttl = 24 * Hour,
     ig_token_refresh_before = 10 * Minute\<rparr>"

definition sample_token_env :: "kv_world token_env" where
  "sample_token_env = \<lparr>tn_now = (\<lambda>w. (kw_now w, w)), tn_redis = kv_go,
     tn_post = (\<lambda>req w. (HttpReply 200 ''reply'', w)),
     tn_codec = \<lparr>co_marshal = (\<lambda>te. if te = (''T'', Hour) then Some ''x'' else None),
       co_unmarshal = (\<lambda>v. Some (''T'', Hour))\<rparr>,
     tn_request = (\<lambda>k s. ''{}''), tn_url_ok = (\<lambda>u. True), tn_decode = (\<lambda>b. Some (''T'', 3600))\<rparr>"

lemma sample_token_world: "token_world sample_token_env kw_now kw_map"
  by (simp add: token_world_def sample_token_env_def kv_go_laws)

lemma sample_refresh:
  "refreshToken sample_token_env (NewAuthManager sample_kis_config open_client) empty_store =
     ((None, \<lparr>am_config = sample_kis_config, am_cache = open_client, am_token = ''T'', am_expires_at = Hour\<rparr>),
      empty_store\<lparr>kw_map := [tokenCacheKey \<mapsto> (KStr ''x'', Some (24 * Hour))]\<rparr>)"
  by (simp add: refreshToken_def sample_token_env_def NewAuthManager_def cacheToken_def SetJSON_def SetEncoded_def
      SetBytes_def client_Set_def guarded_err_def kv_go_def open_client_def empty_store_def sample_kis_config_def
      wrap64_id go_simps Let_def)

lemma sample_auth_Start:
  "auth_Start sample_token_env (NewAuthManager sample_kis_config open_client) empty_store =
     ((None, \<lparr>am_config = sample_kis_config, am_cache = open_client, am_token = ''T'', am_expires_at = Hour\<rparr>),
      empty_store\<lparr>kw_map := [tokenCacheKey \<mapsto> (KStr ''x'', Some (24 * Hour))]\<rparr>)"
proof -
  have "\<exists>e. loadTokenFromCache sample_token_env (NewAuthManager sample_kis_config open_client) empty_store =
      ((Some e, NewAuthManager sample_kis_config open_client), empty_store)"
    by (simp add: loadTokenFromCache_def GetJSON_def GetDecoded_def GetBytes_def client_Get_def guarded_result_def
        result_as_def sample_token_env_def kv_go_def empty_store_def open_client_def NewAuthManager_def kv_live_def)
  moreover have "am_token (NewAuthManager sample_kis_config open_client) = []" by (simp add: NewAuthManager_def)
  ultimately show ?thesis using sample_refresh by (auto simp: auth_Start_def)
qed

theorem tokens_are_genuine_witness: "genuine sample_token_env (''T'', Hour)"
proof -
  let ?am = "\<lparr>am_config = sample_kis_config, am_cache = open_client, am_token = ''T'', am_expires_at = Hour\<rparr>"
  have "(auth_step sample_token_env kw_map)\<^sup>*\<^sup>* (NewAuthManager sample_kis_config open_client, empty_store)
      (?am, empty_store\<lparr>kw_map := [tokenCacheKey \<mapsto> (KStr ''x'', Some (24 * Hour))]\<rparr>)"
    by (intro r_into_rtranclp auth_step.start [OF sample_auth_Start])
  from tokens_are_genuine [OF sample_token_world _ _ this, of 0 "''T''"]
  show ?thesis by (simp add: GetToken_def empty_store_def sample_kis_config_def go_simps)
qed

theorem no_expiry_between_ticks_witness:
  "GetToken (10 * Minute) \<lparr>am_config = sample_kis_config, am_cache = open_client, am_token = ''T'', am_expires_at = Hour\<rparr>
     = Inr ''T''"
proof -
  let ?am = "\<lparr>am_config = sample_kis_config, am_cache = open_client, am_token = ''T'', am_expires_at = Hour\<rparr>"
  have "refresh_tick sample_token_env ?am empty_store = ((None, ?am), empty_store)"
    by (simp add: refresh_tick_def sample_token_env_def empty_store_def sample_kis_config_def go_simps)
  from no_expiry_between_ticks [OF this, of "10 * Minute"] show ?thesis
    by (simp add: sample_kis_config_def sample_token_env_def empty_store_def wrap64_id go_simps)
qed

theorem zero_margin_expires_witness:
  "\<exists>t. 0 < t \<and> t < 10 * Minute \<and> GetToken t \<lparr>am_config = sample_kis_config\<lparr>ig_token_refresh_before := 0\<rparr>,
     am_cache = open_client, am_token = ''T'', am_expires_at = Minute\<rparr> = Inl TokenHasExpired"
proof -
  let ?am = "\<lparr>am_config = sample_kis_config\<lparr>ig_token_refresh_before := 0\<rparr>, am_cache = open_client,
    am_token = ''T'', am_expires_at = Minute\<rparr>"
  have "tn_now sample_token_env empty_store = (0, empty_store)" by (simp add: sample_token_env_def empty_store_def)
  from zero_margin_expires [OF _ _ this, of ?am] show ?thesis by (simp add: go_simps)
qed

end
