(* ===== verification/Kis_Stream.thy ===== *)
theory Kis_Stream
  imports Kis_Auth
begin

text \<open>
  The web socket client of the data ingestion service, \<open>internal/kis/client.go\<close>: four goroutines (the
  reader, the processor, the heartbeat and the reconnecter) that share the connection under a mutex and
  two channels.  Each section that runs under the mutex, and each channel operation, is one event; a
  run is any sequence of events, so every interleaving is one.  The broker, the network and the
  scheduler are the choice of the events.
\<close>

subsection \<open>State\<close>

datatype connection_status = StatusDisconnected | StatusConnecting | StatusConnected | StatusReconnecting

text \<open>
  Where each goroutine is: the reader at the top of its loop or in \<open>ReadMessage\<close> on a connection; the
  heartbeat waiting for its ticker or writing a ping; the reconnecter waiting, holding a trigger it has
  taken, at the top of the retry loop, before the call of \<open>connect\<close>, or asleep.
\<close>

datatype reader_at = RLoop | RReading nat | RStopped
datatype processor_at = PIdle | PBusy | PStopped
datatype heart_at = HbIdle | HbPing nat | HbStopped
datatype reconnecter_at =
    HIdle | HTaken | HTrying int duration | HConnecting int duration | HSleeping int duration | HStopped

datatype sent_message = AuthMessage string | SubscribeMessage "string list" string

text \<open>
  Connections are numbered as they are dialled.  \<open>ws_closed\<close> are those the client has closed, \<open>ws_sent\<close>
  what it wrote on which connection; \<open>ws_read\<close>, \<open>ws_handled\<close> and \<open>ws_dropped\<close> record the messages read,
  passed to the handler, and thrown away.
\<close>

record stream_client =
  ws_status :: connection_status
  ws_conn :: "nat option"
  ws_slot :: bool
  ws_queue :: "string list"
  ws_cancelled :: bool
  ws_reader :: reader_at
  ws_processor :: processor_at
  ws_heart :: heart_at
  ws_reconnecter :: reconnecter_at
  ws_next :: nat
  ws_closed :: "nat set"
  ws_sent :: "(nat \<times> sent_message) list"
  ws_read :: "string list"
  ws_handled :: "string list"
  ws_dropped :: "string list"

datatype dial_outcome = DialFailed | HandshakeThenAuthFailed | Dialled

datatype stream_error = TokenUnavailable token_error | DialError | AuthWriteError | NotConnected | SubscribeWriteError

subsection \<open>The pieces of code that run under the mutex\<close>

text \<open>\<open>NewClient\<close>; \<open>None\<close> is the panic of making a channel of negative size.\<close>

definition NewStreamClient :: "kis_feed_config \<Rightarrow> stream_client option" where
  "NewStreamClient cfg =
     (if ig_message_buffer_size cfg < 0 then None
      else Some \<lparr>ws_status = StatusDisconnected, ws_conn = None, ws_slot = False, ws_queue = [], ws_cancelled = False,
        ws_reader = RStopped, ws_processor = PStopped, ws_heart = HbStopped, ws_reconnecter = HStopped,
        ws_next = 0, ws_closed = {}, ws_sent = [], ws_read = [], ws_handled = [], ws_dropped = []\<rparr>)"

definition sendAuth :: "nat \<Rightarrow> string \<Rightarrow> stream_client \<Rightarrow> stream_client" where
  "sendAuth conn token s = s\<lparr>ws_sent := ws_sent s @ [(conn, AuthMessage token)]\<rparr>"

definition connect :: "token_error + string \<Rightarrow> dial_outcome \<Rightarrow> stream_client \<Rightarrow> stream_error option \<times> stream_client" where
  "connect tok dial s =
     (let s1 = s\<lparr>ws_status := StatusConnecting\<rparr> in
      case tok of
        Inl e \<Rightarrow> (Some (TokenUnavailable e), s1)
      | Inr token \<Rightarrow>
          (case dial of
             DialFailed \<Rightarrow> (Some DialError, s1)
           | HandshakeThenAuthFailed \<Rightarrow>
               (Some AuthWriteError, s1\<lparr>ws_next := ws_next s + 1, ws_closed := insert (ws_next s) (ws_closed s)\<rparr>)
           | Dialled \<Rightarrow>
               (None, (sendAuth (ws_next s) token s1)\<lparr>ws_next := ws_next s + 1, ws_conn := Some (ws_next s),
                  ws_status := StatusConnected\<rparr>)))"

definition stream_Start ::
  "token_error + string \<Rightarrow> dial_outcome \<Rightarrow> stream_client \<Rightarrow> stream_error option \<times> stream_client" where
  "stream_Start tok dial s =
     (case connect tok dial s of
        (Some e, s1) \<Rightarrow> (Some e, s1)
      | (None, s1) \<Rightarrow>
          (None, s1\<lparr>ws_reader := RLoop, ws_processor := PIdle, ws_heart := HbIdle, ws_reconnecter := HIdle\<rparr>))"

definition triggerReconnect :: "stream_client \<Rightarrow> stream_client" where
  "triggerReconnect s = s\<lparr>ws_slot := True\<rparr>"

definition GetStatus :: "stream_client \<Rightarrow> connection_status" where
  "GetStatus s = ws_status s"

definition Subscribe :: "bool \<Rightarrow> string list \<Rightarrow> string \<Rightarrow> stream_client \<Rightarrow> stream_error option \<times> stream_client" where
  "Subscribe written symbols dataType s =
     (case ws_conn s of
        None \<Rightarrow> (Some NotConnected, s)
      | Some c \<Rightarrow>
          if written then (None, s\<lparr>ws_sent := ws_sent s @ [(c, SubscribeMessage symbols dataType)]\<rparr>)
          else (Some SubscribeWriteError, s))"

text \<open>The first locked section of \<open>reconnect\<close>, and its retry loop.\<close>

definition reconnect_begin :: "kis_feed_config \<Rightarrow> stream_client \<Rightarrow> stream_client" where
  "reconnect_begin cfg s =
     (if ws_status s = StatusReconnecting then s\<lparr>ws_reconnecter := HIdle\<rparr>
      else
        s\<lparr>ws_status := StatusReconnecting,
          ws_closed := (case ws_conn s of None \<Rightarrow> ws_closed s | Some c \<Rightarrow> insert c (ws_closed s)),
          ws_conn := None, ws_reconnecter := HTrying 1 (ig_reconnect_delay cfg)\<rparr>)"

definition next_delay :: "duration \<Rightarrow> duration" where
  "next_delay d = (let d2 = wrap64 (d * 2) in if 60 * Second < d2 then 60 * Second else d2)"

definition reconnect_check :: "kis_feed_config \<Rightarrow> int \<Rightarrow> duration \<Rightarrow> stream_client \<Rightarrow> stream_client" where
  "reconnect_check cfg attempt delay s =
     (if ig_reconnect_retries cfg < attempt then s\<lparr>ws_status := StatusDisconnected, ws_reconnecter := HIdle\<rparr>
      else if ws_cancelled s then s\<lparr>ws_reconnecter := HIdle\<rparr>
      else s\<lparr>ws_reconnecter := HConnecting attempt delay\<rparr>)"

definition reconnect_connect ::
  "kis_feed_config \<Rightarrow> token_error + string \<Rightarrow> dial_outcome \<Rightarrow> int \<Rightarrow> duration \<Rightarrow> stream_client \<Rightarrow> stream_client" where
  "reconnect_connect cfg tok dial attempt delay s =
     (case connect tok dial s of
        (None, s1) \<Rightarrow> s1\<lparr>ws_reconnecter := HIdle\<rparr>
      | (Some _, s1) \<Rightarrow>
          s1\<lparr>ws_reconnecter := (if attempt < ig_reconnect_retries cfg then HSleeping attempt delay
             else HTrying (attempt + 1) delay)\<rparr>)"

subsection \<open>Events\<close>

datatype client_event =
    ReaderLoop | ReadOk string | ReadQuit string | ReadFailed
  | TakeMessage | HandlerDone | ProcessorStop
  | Tick | PingOk | PingFailed | HeartStop
  | TakeTrigger | BeginReconnect | CheckAttempt | Connect "token_error + string" dial_outcome | Wake | ReconnecterStop
  | CallSubscribe bool "string list" string
  | CancelContext | CloseConn

text \<open>
  One pass of the reader.  A message goes into the channel if there is room (or, without a buffer, if
  the processor is waiting); when the context is done it may be thrown away instead and the reader
  ends; otherwise it is dropped.
\<close>

definition reader_loop :: "stream_client \<Rightarrow> stream_client" where
  "reader_loop s =
     (if ws_cancelled s then s\<lparr>ws_reader := RStopped\<rparr>
      else case ws_conn s of None \<Rightarrow> s | Some c \<Rightarrow> s\<lparr>ws_reader := RReading c\<rparr>)"

definition read_ok :: "kis_feed_config \<Rightarrow> string \<Rightarrow> stream_client \<Rightarrow> stream_client option" where
  "read_ok cfg m s =
     (let s1 = s\<lparr>ws_read := ws_read s @ [m], ws_reader := RLoop\<rparr> in
      if int (length (ws_queue s)) < ig_message_buffer_size cfg then Some (s1\<lparr>ws_queue := ws_queue s @ [m]\<rparr>)
      else if ig_message_buffer_size cfg = 0 \<and> ws_processor s = PIdle
      then Some (s1\<lparr>ws_handled := ws_handled s @ [m], ws_processor := PBusy\<rparr>)
      else if ws_cancelled s then None
      else Some (s1\<lparr>ws_dropped := ws_dropped s @ [m]\<rparr>))"

definition read_quit :: "string \<Rightarrow> stream_client \<Rightarrow> stream_client option" where
  "read_quit m s =
     (if ws_cancelled s then
        Some (s\<lparr>ws_read := ws_read s @ [m], ws_dropped := ws_dropped s @ [m], ws_reader := RStopped\<rparr>)
      else None)"

definition take_message :: "stream_client \<Rightarrow> stream_client option" where
  "take_message s =
     (case ws_queue s of
        [] \<Rightarrow> None
      | m # q \<Rightarrow> Some (s\<lparr>ws_queue := q, ws_handled := ws_handled s @ [m], ws_processor := PBusy\<rparr>))"

definition heart_tick :: "stream_client \<Rightarrow> stream_client" where
  "heart_tick s =
     (if ws_status s \<noteq> StatusConnected then s
      else case ws_conn s of None \<Rightarrow> s | Some c \<Rightarrow> s\<lparr>ws_heart := HbPing c\<rparr>)"

text \<open>\<open>Stop\<close>: the context is cancelled, and then the connection closed under the mutex.\<close>

definition close_conn :: "stream_client \<Rightarrow> stream_client" where
  "close_conn s = (case ws_conn s of None \<Rightarrow> s | Some c \<Rightarrow> s\<lparr>ws_closed := insert c (ws_closed s)\<rparr>)"

text \<open>The event is not possible in the state when the result is \<open>None\<close>.\<close>

fun client_do :: "kis_feed_config \<Rightarrow> client_event \<Rightarrow> stream_client \<Rightarrow> stream_client option" where
  "client_do cfg ReaderLoop s = (if ws_reader s = RLoop then Some (reader_loop s) else None)"
| "client_do cfg (ReadOk m) s = (case ws_reader s of RReading c \<Rightarrow> read_ok cfg m s | _ \<Rightarrow> None)"
| "client_do cfg (ReadQuit m) s = (case ws_reader s of RReading c \<Rightarrow> read_quit m s | _ \<Rightarrow> None)"
| "client_do cfg ReadFailed s =
     (case ws_reader s of RReading c \<Rightarrow> Some (triggerReconnect (s\<lparr>ws_reader := RLoop\<rparr>)) | _ \<Rightarrow> None)"
| "client_do cfg TakeMessage s = (if ws_processor s = PIdle then take_message s else None)"
| "client_do cfg HandlerDone s = (if ws_processor s = PBusy then Some (s\<lparr>ws_processor := PIdle\<rparr>) else None)"
| "client_do cfg ProcessorStop s =
     (if ws_processor s = PIdle \<and> ws_cancelled s then Some (s\<lparr>ws_processor := PStopped\<rparr>) else None)"
| "client_do cfg Tick s = (if ws_heart s = HbIdle then Some (heart_tick s) else None)"
| "client_do cfg PingOk s = (case ws_heart s of HbPing c \<Rightarrow> Some (s\<lparr>ws_heart := HbIdle\<rparr>) | _ \<Rightarrow> None)"
| "client_do cfg PingFailed s =
     (case ws_heart s of HbPing c \<Rightarrow> Some (triggerReconnect (s\<lparr>ws_heart := HbIdle\<rparr>)) | _ \<Rightarrow> None)"
| "client_do cfg HeartStop s =
     (if ws_heart s = HbIdle \<and> ws_cancelled s then Some (s\<lparr>ws_heart := HbStopped\<rparr>) else None)"
| "client_do cfg TakeTrigger s =
     (if ws_reconnecter s = HIdle \<and> ws_slot s then Some (s\<lparr>ws_slot := False, ws_reconnecter := HTaken\<rparr>) else None)"
| "client_do cfg BeginReconnect s = (if ws_reconnecter s = HTaken then Some (reconnect_begin cfg s) else None)"
| "client_do cfg CheckAttempt s =
     (case ws_reconnecter s of HTrying a d \<Rightarrow> Some (reconnect_check cfg a d s) | _ \<Rightarrow> None)"
| "client_do cfg (Connect tok dial) s =
     (case ws_reconnecter s of HConnecting a d \<Rightarrow> Some (reconnect_connect cfg tok dial a d s) | _ \<Rightarrow> None)"
| "client_do cfg Wake s =
     (case ws_reconnecter s of
        HSleeping a d \<Rightarrow> Some (s\<lparr>ws_reconnecter := HTrying (a + 1) (next_delay d)\<rparr>) | _ \<Rightarrow> None)"
| "client_do cfg ReconnecterStop s =
     (if ws_reconnecter s = HIdle \<and> ws_cancelled s then Some (s\<lparr>ws_reconnecter := HStopped\<rparr>) else None)"
| "client_do cfg (CallSubscribe written symbols dataType) s = Some (snd (Subscribe written symbols dataType s))"
| "client_do cfg CancelContext s = Some (s\<lparr>ws_cancelled := True\<rparr>)"
| "client_do cfg CloseConn s = (if ws_cancelled s then Some (close_conn s) else None)"

fun client_run :: "kis_feed_config \<Rightarrow> client_event list \<Rightarrow> stream_client \<Rightarrow> stream_client option" where
  "client_run cfg [] s = Some s"
| "client_run cfg (ev # evs) s = (case client_do cfg ev s of None \<Rightarrow> None | Some s1 \<Rightarrow> client_run cfg evs s1)"

text \<open>The states of a started client.\<close>

definition client_reaches :: "kis_feed_config \<Rightarrow> stream_client \<Rightarrow> bool" where
  "client_reaches cfg s \<longleftrightarrow>
     (\<exists>c tok s0 evs. NewStreamClient cfg = Some c \<and> stream_Start tok Dialled c = (None, s0) \<and> client_run cfg evs s0 = Some s)"

end
