(* ===== verification/Kis_Stream_Properties.thy ===== *)
theory Kis_Stream_Properties
  imports Kis_Stream
begin

text \<open>
  What holds of the web socket client in every interleaving: the invariant of its state, that no message
  is lost unseen or reordered, that a reconnection ends; and three ways in which reconnecting goes
  wrong.
\<close>

lemmas client_defs =
  reader_loop_def read_ok_def read_quit_def take_message_def heart_tick_def close_conn_def triggerReconnect_def
  reconnect_begin_def reconnect_check_def reconnect_connect_def connect_def sendAuth_def Subscribe_def Let_def

lemma client_run_append:
  "client_run cfg (es @ fs) s = (case client_run cfg es s of None \<Rightarrow> None | Some s1 \<Rightarrow> client_run cfg fs s1)"
  by (induction es arbitrary: s) (auto split: option.split)

lemma client_run_induct [consumes 1, case_names start event]:
  assumes "client_run cfg evs s = Some s'"
    and "P s"
    and "\<And>s ev s'. P s \<Longrightarrow> client_do cfg ev s = Some s' \<Longrightarrow> P s'"
  shows "P s'"
  using assms(1,2) by (induction evs arbitrary: s) (auto split: option.splits intro: assms(3))

subsection \<open>The invariant\<close>

fun retrying :: "reconnecter_at \<Rightarrow> bool" where
  "retrying (HTrying a d) = True"
| "retrying (HConnecting a d) = True"
| "retrying (HSleeping a d) = True"
| "retrying _ = False"

definition conn_inv :: "stream_client \<Rightarrow> bool" where
  "conn_inv s \<longleftrightarrow>
     (ws_status s = StatusConnected \<longleftrightarrow> ws_conn s \<noteq> None) \<and>
     (\<forall>c. ws_conn s = Some c \<longrightarrow> c < ws_next s) \<and> ws_closed s \<subseteq> {..<ws_next s} \<and>
     {..<ws_next s} \<subseteq> ws_closed s \<union> set_option (ws_conn s) \<and>
     (\<forall>c. ws_conn s = Some c \<longrightarrow> \<not> ws_cancelled s \<longrightarrow> c \<notin> ws_closed s) \<and>
     (retrying (ws_reconnecter s) \<longrightarrow> ws_conn s = None)"

definition phase_inv :: "kis_feed_config \<Rightarrow> stream_client \<Rightarrow> bool" where
  "phase_inv cfg s \<longleftrightarrow>
     (case ws_reconnecter s of
        HTrying a d \<Rightarrow> 1 \<le> a \<and> a \<le> max 0 (ig_reconnect_retries cfg) + 1
      | HConnecting a d \<Rightarrow> 1 \<le> a \<and> a \<le> ig_reconnect_retries cfg
      | HSleeping a d \<Rightarrow> 1 \<le> a \<and> a < ig_reconnect_retries cfg
      | HStopped \<Rightarrow> ws_cancelled s
      | _ \<Rightarrow> \<not> ws_cancelled s \<longrightarrow> ws_status s \<in> {StatusConnected, StatusDisconnected})"

definition message_inv :: "kis_feed_config \<Rightarrow> stream_client \<Rightarrow> bool" where
  "message_inv cfg s \<longleftrightarrow>
     ws_read s \<in> shuffles (ws_handled s @ ws_queue s) (ws_dropped s) \<and>
     int (length (ws_queue s)) \<le> ig_message_buffer_size cfg"

fun reconnecter_event :: "client_event \<Rightarrow> bool" where
  "reconnecter_event TakeTrigger = True"
| "reconnecter_event BeginReconnect = True"
| "reconnecter_event CheckAttempt = True"
| "reconnecter_event (Connect tok dial) = True"
| "reconnecter_event Wake = True"
| "reconnecter_event ReconnecterStop = True"
| "reconnecter_event _ = False"

fun message_event :: "client_event \<Rightarrow> bool" where
  "message_event (ReadOk m) = True"
| "message_event (ReadQuit m) = True"
| "message_event TakeMessage = True"
| "message_event _ = False"

lemma reconnecter_frame:
  "client_do cfg ev s = Some s' \<Longrightarrow> \<not> reconnecter_event ev \<Longrightarrow>
   ws_reconnecter s' = ws_reconnecter s \<and> ws_status s' = ws_status s \<and> ws_conn s' = ws_conn s \<and>
   ws_next s' = ws_next s \<and> (ws_cancelled s \<longrightarrow> ws_cancelled s') \<and>
   (ws_closed s' = ws_closed s \<or> ws_cancelled s \<and> ws_closed s' = ws_closed s \<union> set_option (ws_conn s))"
  by (cases ev) (auto simp: client_defs split: if_splits option.splits reader_at.splits heart_at.splits list.splits)

lemma message_frame:
  "client_do cfg ev s = Some s' \<Longrightarrow> \<not> message_event ev \<Longrightarrow>
   ws_read s' = ws_read s \<and> ws_handled s' = ws_handled s \<and> ws_queue s' = ws_queue s \<and> ws_dropped s' = ws_dropped s"
  by (cases ev) (auto simp: client_defs split: if_splits option.splits reader_at.splits heart_at.splits list.splits
    reconnecter_at.splits sum.splits dial_outcome.splits)

lemma reconnecter_cancelled:
  "client_do cfg ev s = Some s' \<Longrightarrow> reconnecter_event ev \<Longrightarrow> ws_cancelled s' = ws_cancelled s"
  by (cases ev) (auto simp: client_defs split: if_splits option.splits reconnecter_at.splits sum.splits dial_outcome.splits)

lemma connect_status:
  "connect tok dial s = (r, s') \<Longrightarrow> (r = None \<longleftrightarrow> ws_status s' = StatusConnected) \<and> ws_cancelled s' = ws_cancelled s"
  by (auto simp: connect_def sendAuth_def Let_def split: sum.splits dial_outcome.splits)

lemma connect_cases:
  assumes "connect tok dial s = (r, s')"
  obtains (early) e where "r = Some e" "s' = s\<lparr>ws_status := StatusConnecting\<rparr>"
  | (unauthenticated) e where "r = Some e"
      "s' = s\<lparr>ws_status := StatusConnecting, ws_next := ws_next s + 1, ws_closed := insert (ws_next s) (ws_closed s)\<rparr>"
  | (connected) token where "r = None" "tok = Inr token" "dial = Dialled"
      "s' = s\<lparr>ws_sent := ws_sent s @ [(ws_next s, AuthMessage token)], ws_next := ws_next s + 1,
         ws_conn := Some (ws_next s), ws_status := StatusConnected\<rparr>"
proof (cases tok)
  case (Inl e)
  with assms show thesis by (intro early [of "TokenUnavailable e"]) (simp_all add: connect_def Let_def)
next
  case (Inr token)
  note t = this
  show thesis
  proof (cases dial)
    case DialFailed
    with assms t show thesis by (intro early [of DialError]) (simp_all add: connect_def Let_def)
  next
    case HandshakeThenAuthFailed
    with assms t show thesis by (intro unauthenticated [of AuthWriteError]) (simp_all add: connect_def Let_def)
  next
    case Dialled
    with assms t show thesis by (intro connected [of token]) (simp_all add: connect_def sendAuth_def Let_def)
  qed
qed

lemma connect_conn_inv:
  assumes "connect tok dial s = (r, s')" "conn_inv s" "ws_conn s = None" "r = None \<Longrightarrow> \<not> retrying h"
  shows "conn_inv (s'\<lparr>ws_reconnecter := h\<rparr>)"
  using assms(1)
proof (cases rule: connect_cases)
  case early
  with assms(2,3) show ?thesis by (simp add: conn_inv_def)
next
  case unauthenticated
  with assms(2,3) show ?thesis by (simp add: conn_inv_def lessThan_Suc) blast
next
  case connected
  have "ws_next s \<notin> ws_closed s" using assms(2) by (auto simp: conn_inv_def)
  with connected assms show ?thesis by (simp add: conn_inv_def lessThan_Suc) blast
qed

lemma conn_inv_step:
  assumes "client_do cfg ev s = Some s'" "conn_inv s"
  shows "conn_inv s'"
proof (cases "reconnecter_event ev")
  case False
  note f = reconnecter_frame [OF assms(1) this]
  show ?thesis
  proof (cases "ws_closed s' = ws_closed s")
    case True
    have "ws_conn s = Some c \<Longrightarrow> \<not> ws_cancelled s' \<Longrightarrow> c \<notin> ws_closed s" for c
      using f assms(2) by (auto simp: conn_inv_def)
    with f True assms(2) show ?thesis by (simp add: conn_inv_def)
  next
    case False
    with f have g: "ws_cancelled s'" "ws_closed s' = ws_closed s \<union> set_option (ws_conn s)" by auto
    have "ws_closed s' \<subseteq> {..<ws_next s}" using assms(2) g(2) by (cases "ws_conn s") (auto simp: conn_inv_def)
    with f g assms(2) show ?thesis by (simp add: conn_inv_def)
  qed
next
  case True
  then show ?thesis
  proof (cases ev)
    case (Connect tok dial)
    then obtain a d where h: "ws_reconnecter s = HConnecting a d" "s' = reconnect_connect cfg tok dial a d s"
      using assms(1) by (auto split: reconnecter_at.splits)
    obtain r s1 where c: "connect tok dial s = (r, s1)" by (rule prod.exhaust)
    have "ws_conn s = None" using h(1) assms(2) by (simp add: conn_inv_def)
    from connect_conn_inv [OF c assms(2) this] h(2) c show ?thesis
      by (cases r) (simp_all add: reconnect_connect_def)
  next
    case BeginReconnect
    then have "s' = reconnect_begin cfg s" using assms(1) by (simp split: if_splits)
    with assms(2) show ?thesis
      by (cases "ws_conn s") (auto simp: conn_inv_def reconnect_begin_def)
  next
    case CheckAttempt
    then obtain a d where h: "ws_reconnecter s = HTrying a d" "s' = reconnect_check cfg a d s"
      using assms(1) by (auto split: reconnecter_at.splits)
    with assms(2) show ?thesis by (auto simp: conn_inv_def reconnect_check_def)
  next
    case Wake
    then obtain a d where h: "ws_reconnecter s = HSleeping a d" "s' = s\<lparr>ws_reconnecter := HTrying (a + 1) (next_delay d)\<rparr>"
      using assms(1) by (auto split: reconnecter_at.splits)
    with assms(2) show ?thesis by (auto simp: conn_inv_def)
  next
    case TakeTrigger
    with assms show ?thesis by (auto simp: conn_inv_def split: if_splits)
  next
    case ReconnecterStop
    with assms show ?thesis by (auto simp: conn_inv_def split: if_splits)
  qed simp_all
qed

lemma phase_inv_step:
  assumes "client_do cfg ev s = Some s'" "phase_inv cfg s"
  shows "phase_inv cfg s'"
proof (cases "reconnecter_event ev")
  case False
  from reconnecter_frame [OF assms(1) this] assms(2) show ?thesis
    by (auto simp: phase_inv_def split: reconnecter_at.splits)
next
  case True
  then show ?thesis
  proof (cases ev)
    case (Connect tok dial)
    then obtain a d where h: "ws_reconnecter s = HConnecting a d" "s' = reconnect_connect cfg tok dial a d s"
      using assms(1) by (auto split: reconnecter_at.splits)
    obtain r s1 where c: "connect tok dial s = (r, s1)" by (rule prod.exhaust)
    from h(1) assms(2) have "1 \<le> a" "a \<le> ig_reconnect_retries cfg" by (auto simp: phase_inv_def)
    with connect_status [OF c] h(2) c show ?thesis by (auto simp: phase_inv_def reconnect_connect_def split: option.split)
  qed (use assms in \<open>auto simp: phase_inv_def reconnect_begin_def reconnect_check_def split: if_splits reconnecter_at.splits\<close>)
qed

lemma message_inv_step:
  assumes "client_do cfg ev s = Some s'" "message_inv cfg s"
  shows "message_inv cfg s'"
proof (cases "message_event ev")
  case False
  from message_frame [OF assms(1) this] assms(2) show ?thesis by (simp add: message_inv_def)
next
  case True
  from assms(2) have i: "ws_read s \<in> shuffles (ws_handled s @ ws_queue s) (ws_dropped s)"
    "int (length (ws_queue s)) \<le> ig_message_buffer_size cfg" by (simp_all add: message_inv_def)
  from True show ?thesis
  proof (cases ev)
    case (ReadOk m)
    with assms(1) have r: "read_ok cfg m s = Some s'" by (auto split: reader_at.splits)
    note l = shuffles_append_left [OF i(1), of "[m]"] shuffles_append_right [OF i(1), of "[m]"]
    from r l i(2) show ?thesis by (auto simp: message_inv_def read_ok_def Let_def split: if_splits)
  next
    case (ReadQuit m)
    with assms(1) have "read_quit m s = Some s'" by (auto split: reader_at.splits)
    with shuffles_append_right [OF i(1), of "[m]"] i(2) show ?thesis
      by (auto simp: message_inv_def read_quit_def split: if_splits)
  next
    case TakeMessage
    with assms(1) have "take_message s = Some s'" by (auto split: if_splits)
    with i show ?thesis by (auto simp: message_inv_def take_message_def split: list.splits)
  qed simp_all
qed

lemma started_inv:
  assumes "NewStreamClient cfg = Some c" "stream_Start tok Dialled c = (None, s)"
  shows "conn_inv s \<and> phase_inv cfg s \<and> message_inv cfg s"
  using assms
  by (cases tok) (auto simp: NewStreamClient_def stream_Start_def connect_def sendAuth_def Let_def conn_inv_def
    phase_inv_def message_inv_def lessThan_Suc split: if_splits)

lemma reached_inv:
  assumes "client_reaches cfg s"
  shows "conn_inv s" "phase_inv cfg s" "message_inv cfg s"
proof -
  obtain c tok s0 evs where r: "NewStreamClient cfg = Some c" "stream_Start tok Dialled c = (None, s0)"
      "client_run cfg evs s0 = Some s"
    using assms unfolding client_reaches_def by blast
  from r(3) started_inv [OF r(1,2)] have "conn_inv s \<and> phase_inv cfg s \<and> message_inv cfg s"
    by (rule client_run_induct) (use conn_inv_step phase_inv_step message_inv_step in blast)
  then show "conn_inv s" "phase_inv cfg s" "message_inv cfg s" by simp_all
qed


subsection \<open>A reconnection ends\<close>

definition busy :: "stream_client \<Rightarrow> bool" where
  "busy s \<longleftrightarrow> ws_reconnecter s = HTaken \<or> retrying (ws_reconnecter s)"

text \<open>A run during which \<open>reconnect\<close> has not returned before its last event.\<close>

fun busy_run :: "kis_feed_config \<Rightarrow> client_event list \<Rightarrow> stream_client \<Rightarrow> stream_client option" where
  "busy_run cfg [] s = Some s"
| "busy_run cfg (ev # evs) s =
     (if busy s then case client_do cfg ev s of None \<Rightarrow> None | Some s1 \<Rightarrow> busy_run cfg evs s1 else None)"

fun is_connect :: "client_event \<Rightarrow> bool" where
  "is_connect (Connect tok dial) = True"
| "is_connect _ = False"

fun attempts_left :: "int \<Rightarrow> reconnecter_at \<Rightarrow> int" where
  "attempts_left r HTaken = max 0 r"
| "attempts_left r (HTrying a d) = max 0 (r + 1 - a)"
| "attempts_left r (HConnecting a d) = r + 1 - a"
| "attempts_left r (HSleeping a d) = r - a"
| "attempts_left r _ = 0"

fun reconnect_rank :: "int \<Rightarrow> reconnecter_at \<Rightarrow> int" where
  "reconnect_rank r HTaken = 3 * max 0 r + 2"
| "reconnect_rank r (HTrying a d) = 3 * max 0 (r + 1 - a) + 1"
| "reconnect_rank r (HConnecting a d) = 3 * (r + 1 - a)"
| "reconnect_rank r (HSleeping a d) = 3 * (r - a) + 2"
| "reconnect_rank r _ = 0"

lemma reconnecter_at_progress:
  assumes "client_do cfg ev s = Some s'" "busy s" "phase_inv cfg s" "reconnecter_event ev"
  shows "reconnect_rank (ig_reconnect_retries cfg) (ws_reconnecter s') + 1 \<le>
      reconnect_rank (ig_reconnect_retries cfg) (ws_reconnecter s) \<and>
    attempts_left (ig_reconnect_retries cfg) (ws_reconnecter s') + (if is_connect ev then 1 else 0) \<le>
      attempts_left (ig_reconnect_retries cfg) (ws_reconnecter s)"
proof (cases ev)
  case (Connect tok dial)
  then obtain a d where h: "ws_reconnecter s = HConnecting a d" "s' = reconnect_connect cfg tok dial a d s"
    using assms(1) by (auto split: reconnecter_at.splits)
  then have a: "a \<le> ig_reconnect_retries cfg" using assms(3) by (simp add: phase_inv_def)
  have "ws_reconnecter s' = HIdle \<or> ws_reconnecter s' = HSleeping a d \<and> a < ig_reconnect_retries cfg \<or>
      ws_reconnecter s' = HTrying (a + 1) d"
    using h(2) by (auto simp: reconnect_connect_def split: option.splits prod.splits if_splits)
  with h(1) a Connect show ?thesis by auto
qed (use assms in \<open>auto simp: busy_def phase_inv_def reconnect_begin_def reconnect_check_def split: if_splits
    reconnecter_at.splits\<close>)

lemma busy_run_bounds:
  "busy_run cfg evs s = Some s' \<Longrightarrow> phase_inv cfg s \<Longrightarrow>
   int (length (filter reconnecter_event evs)) + reconnect_rank (ig_reconnect_retries cfg) (ws_reconnecter s') \<le>
     reconnect_rank (ig_reconnect_retries cfg) (ws_reconnecter s) \<and>
   int (length (filter is_connect evs)) + attempts_left (ig_reconnect_retries cfg) (ws_reconnecter s') \<le>
     attempts_left (ig_reconnect_retries cfg) (ws_reconnecter s) \<and> phase_inv cfg s'"
proof (induction evs arbitrary: s)
  case (Cons ev evs)
  then obtain s1 where s1: "busy s" "client_do cfg ev s = Some s1" "busy_run cfg evs s1 = Some s'"
    by (auto split: if_splits option.splits)
  note p1 = phase_inv_step [OF s1(2) Cons.prems(2)]
  note IH = Cons.IH [OF s1(3) p1]
  show ?case
  proof (cases "reconnecter_event ev")
    case True
    with IH reconnecter_at_progress [OF s1(2,1) Cons.prems(2) True] show ?thesis by (auto split: if_splits)
  next
    case False
    then have "\<not> is_connect ev" by (cases ev) simp_all
    with IH reconnecter_frame [OF s1(2) False] False show ?thesis by simp
  qed
qed simp

lemma rank_nonneg: "phase_inv cfg s \<Longrightarrow> 0 \<le> reconnect_rank (ig_reconnect_retries cfg) (ws_reconnecter s) \<and>
    0 \<le> attempts_left (ig_reconnect_retries cfg) (ws_reconnecter s)"
  by (auto simp: phase_inv_def split: reconnecter_at.splits)

lemma busy_not_stuck: "busy s \<Longrightarrow> \<exists>ev s'. reconnecter_event ev \<and> client_do cfg ev s = Some s'"
proof (cases "ws_reconnecter s")
  case HTaken
  then show ?thesis by (intro exI [of _ BeginReconnect]) simp
next
  case (HTrying a d)
  then show ?thesis by (intro exI [of _ CheckAttempt]) simp
next
  case (HConnecting a d)
  then show ?thesis by (intro exI [of _ "Connect (Inr []) Dialled"]) simp
next
  case (HSleeping a d)
  then show ?thesis by (intro exI [of _ Wake]) simp
qed (simp_all add: busy_def)

text \<open>
  C32. A reconnection ends.  From the moment the reconnecter has taken a trigger, its goroutine takes at
  most three steps per permitted attempt and two more, and calls \<open>connect\<close> at most as often as the
  configuration permits, whatever the other goroutines and the network do; and until it has
  returned it can always take its next step.
\<close>

theorem reconnect_terminates:
  assumes "client_reaches cfg s" "ws_reconnecter s = HTaken" "busy_run cfg evs s = Some s'"
  shows "int (length (filter reconnecter_event evs)) \<le> 3 * max 0 (ig_reconnect_retries cfg) + 2 \<and>
    int (length (filter is_connect evs)) \<le> max 0 (ig_reconnect_retries cfg) \<and>
    (busy s' \<longrightarrow> (\<exists>ev s2. reconnecter_event ev \<and> client_do cfg ev s' = Some s2))"
  using busy_run_bounds [OF assms(3) reached_inv(2) [OF assms(1)]] rank_nonneg [of cfg s'] assms(2) busy_not_stuck
  by auto

text \<open>The sleep between two attempts: the configured delay first, and then never more than a minute.\<close>

lemma next_delay_bound: "next_delay d \<le> 60 * Second"
  by (simp add: next_delay_def Let_def)

lemma next_delay_doubles: "0 \<le> d \<Longrightarrow> d < 2 ^ 62 \<Longrightarrow> next_delay d = min (2 * d) (60 * Second)"
  by (simp add: next_delay_def wrap64_id Let_def min_def)

subsection \<open>Reconnecting for ever\<close>

definition healthy :: "nat \<Rightarrow> stream_client \<Rightarrow> bool" where
  "healthy c s \<longleftrightarrow>
     ws_conn s = Some c \<and> ws_status s = StatusConnected \<and> \<not> ws_cancelled s \<and> ws_reader s = RReading c \<and>
     ws_reconnecter s = HIdle"

text \<open>
  One round: the trigger is taken and the connection closed, the reader's pending read fails because of
  that, and the first attempt to connect succeeds; the reader goes back to reading.
\<close>

definition storm_round :: "string \<Rightarrow> client_event list" where
  "storm_round token =
     [TakeTrigger, BeginReconnect, ReadFailed, CheckAttempt, Connect (Inr token) Dialled, ReaderLoop]"

lemma storm_round_run:
  assumes "healthy c s" "ws_slot s" "1 \<le> ig_reconnect_retries cfg"
  shows "\<exists>s'. client_run cfg (storm_round token) s = Some s' \<and> healthy (ws_next s) s' \<and> ws_slot s' \<and>
    ws_next s' = ws_next s + 1 \<and> ws_closed s' = insert c (ws_closed s)"
  using assms by (simp add: storm_round_def healthy_def client_defs)

lemma storm_rounds:
  assumes "healthy c s" "ws_slot s" "1 \<le> ig_reconnect_retries cfg"
  shows "\<exists>s' c'. client_run cfg (concat (replicate n (storm_round token))) s = Some s' \<and> healthy c' s' \<and> ws_slot s' \<and>
    ws_next s' = ws_next s + n \<and>
    ws_closed s' = ws_closed s \<union> (if n = 0 then {} else insert c {ws_next s..<ws_next s + n - 1}) \<and>
    c' = (if n = 0 then c else ws_next s + n - 1)"
  using assms
proof (induction n arbitrary: c s)
  case (Suc n)
  obtain s1 where s1: "client_run cfg (storm_round token) s = Some s1" "healthy (ws_next s) s1" "ws_slot s1"
      "ws_next s1 = ws_next s + 1" "ws_closed s1 = insert c (ws_closed s)"
    using storm_round_run [OF Suc.prems] by blast
  obtain s' c' where s': "client_run cfg (concat (replicate n (storm_round token))) s1 = Some s'" "healthy c' s'"
      "ws_slot s'" "ws_next s' = ws_next s1 + n"
      "ws_closed s' = ws_closed s1 \<union> (if n = 0 then {} else insert (ws_next s) {ws_next s1..<ws_next s1 + n - 1})"
      "c' = (if n = 0 then ws_next s else ws_next s1 + n - 1)"
    using Suc.IH [OF s1(2,3) Suc.prems(3)] by blast
  have c': "c' = ws_next s + n" using s'(6) s1(4) by auto
  have "(if n = 0 then {} else insert (ws_next s) {ws_next s1..<ws_next s1 + n - 1}) = {ws_next s..<ws_next s + n}"
    using s1(4) by auto
  with s'(1-5) c' s1 show ?case by (auto simp: client_run_append)
qed simp

text \<open>
  C33. One failed ping can start an endless chain of reconnections.  The reader is waiting for data when the
  reconnecter closes the connection, so its read fails and triggers once more, after the trigger
  has been taken: when the new connection stands, the reconnecter closes it again, and so on.  For every number
  \<open>n\<close> there is a run with \<open>n\<close> reconnections in which the network fails only in the first ping: every
  attempt to connect succeeds, the only reads that fail are those on connections the client itself has just
  closed, and all but the last of the \<open>n\<close> new connections have been closed by the client.
\<close>

theorem reconnect_storm:
  assumes "healthy c s" "ws_heart s = HbPing c" "1 \<le> ig_reconnect_retries cfg"
  shows "\<exists>s'. client_run cfg (PingFailed # concat (replicate (Suc n) (storm_round token))) s = Some s' \<and>
    ws_next s' = ws_next s + Suc n \<and> healthy (ws_next s + n) s' \<and> ws_slot s' \<and>
    insert c {ws_next s..<ws_next s + n} \<subseteq> ws_closed s'"
proof -
  let ?s1 = "triggerReconnect (s\<lparr>ws_heart := HbIdle\<rparr>)"
  have "healthy c ?s1" "ws_slot ?s1" "ws_next ?s1 = ws_next s" "ws_closed ?s1 = ws_closed s"
    using assms(1) by (simp_all add: healthy_def triggerReconnect_def)
  with storm_rounds [of c ?s1 cfg "Suc n" token] assms(3) have
    "\<exists>s'. client_run cfg (concat (replicate (Suc n) (storm_round token))) ?s1 = Some s' \<and> healthy (ws_next s + n) s' \<and>
      ws_slot s' \<and> ws_next s' = ws_next s + Suc n \<and> insert c {ws_next s..<ws_next s + n} \<subseteq> ws_closed s'"
    by auto
  then show ?thesis using assms(2) by (auto simp del: replicate.simps)
qed

subsection \<open>Giving up for ever\<close>

definition given_up :: "stream_client \<Rightarrow> bool" where
  "given_up s \<longleftrightarrow>
     ws_conn s = None \<and> ws_status s = StatusDisconnected \<and> \<not> ws_slot s \<and> ws_reader s \<in> {RLoop, RStopped} \<and>
     ws_heart s \<in> {HbIdle, HbStopped} \<and> ws_reconnecter s \<in> {HIdle, HStopped}"

lemma given_up_step:
  "client_do cfg ev s = Some s' \<Longrightarrow> given_up s \<Longrightarrow>
   given_up s' \<and> ws_read s' = ws_read s \<and> ws_sent s' = ws_sent s \<and> ws_next s' = ws_next s"
  by (cases ev; simp add: given_up_def reader_loop_def take_message_def heart_tick_def close_conn_def Subscribe_def
    split: if_splits list.splits; fastforce)

text \<open>
  A client that has used up its attempts never comes back.  Nothing triggers a reconnection any more:
  in every continuation it stays without a connection, dials no new one, reads nothing and sends
  nothing, while its goroutines and the service go on running.
\<close>

theorem given_up_for_ever:
  assumes "given_up s" "client_run cfg evs s = Some s'"
  shows "given_up s' \<and> ws_read s' = ws_read s \<and> ws_sent s' = ws_sent s \<and> ws_next s' = ws_next s"
  using assms(2,1)
  by (induction evs arbitrary: s) (auto split: option.splits dest!: given_up_step)

subsection \<open>Subscriptions\<close>

fun subscribes :: "client_event \<Rightarrow> bool" where
  "subscribes (CallSubscribe written symbols dataType) = True"
| "subscribes _ = False"

lemma sent_step:
  assumes "client_do cfg ev s = Some s'" "\<not> subscribes ev"
  shows "(ws_sent s' = ws_sent s \<or> (\<exists>t. ws_sent s' = ws_sent s @ [(ws_next s, AuthMessage t)])) \<and> ws_next s \<le> ws_next s'"
proof (cases "is_connect ev")
  case True
  then obtain tok dial where "ev = Connect tok dial" by (cases ev) simp_all
  then obtain a d where h: "s' = reconnect_connect cfg tok dial a d s"
    using assms(1) by (auto split: reconnecter_at.splits)
  obtain r s1 where c: "connect tok dial s = (r, s1)" by (rule prod.exhaust)
  then have "(ws_sent s1 = ws_sent s \<or> (\<exists>t. ws_sent s1 = ws_sent s @ [(ws_next s, AuthMessage t)])) \<and> ws_next s \<le> ws_next s1"
    by (cases rule: connect_cases) simp_all
  then show ?thesis using h c by (cases r) (simp_all add: reconnect_connect_def)
next
  case False
  with assms show ?thesis
    by (cases ev) (auto simp: reader_loop_def read_ok_def read_quit_def take_message_def heart_tick_def close_conn_def
      triggerReconnect_def reconnect_begin_def reconnect_check_def Let_def split: if_splits option.splits
      reader_at.splits heart_at.splits reconnecter_at.splits list.splits)
qed

text \<open>
  A reconnection forgets the subscriptions.  The service subscribes once, after it has started; on every
  connection dialled after that the client sends its authentication and nothing else, so the symbols it
  subscribed to are not subscribed on it.
\<close>

theorem reconnect_forgets_subscriptions:
  assumes "client_run cfg evs s = Some s'" "\<forall>ev \<in> set evs. \<not> subscribes ev"
    and "(c, m) \<in> set (ws_sent s')" "(c, m) \<notin> set (ws_sent s)"
  shows "ws_next s \<le> c \<and> (\<exists>t. m = AuthMessage t)"
  using assms
proof (induction evs arbitrary: s)
  case (Cons ev evs)
  then obtain s1 where s1: "client_do cfg ev s = Some s1" "client_run cfg evs s1 = Some s'"
    by (auto split: option.splits)
  note st = sent_step [OF s1(1)]
  show ?case
  proof (cases "(c, m) \<in> set (ws_sent s1)")
    case True
    with st Cons.prems(2,4) show ?thesis by auto
  next
    case False
    with Cons.IH [OF s1(2)] Cons.prems(2,3) st show ?thesis by auto
  qed
qed simp

subsection \<open>Concrete runs\<close>

definition started_client :: stream_client where
  "started_client = \<lparr>ws_status = StatusConnected, ws_conn = Some 0, ws_slot = False, ws_queue = [], ws_cancelled = False,
     ws_reader = RLoop, ws_processor = PIdle, ws_heart = HbIdle, ws_reconnecter = HIdle, ws_next = 1, ws_closed = {},
     ws_sent = [(0, AuthMessage ''T'')], ws_read = [], ws_handled = [], ws_dropped = []\<rparr>"

lemma client_starts:
  "\<exists>c. NewStreamClient sample_kis_config = Some c \<and> stream_Start (Inr ''T'') Dialled c = (None, started_client)"
  by (simp add: NewStreamClient_def sample_kis_config_def stream_Start_def connect_def sendAuth_def Let_def
      started_client_def)

lemma runs_reach: "client_run sample_kis_config evs started_client = Some s \<Longrightarrow> client_reaches sample_kis_config s"
  unfolding client_reaches_def using client_starts by blast

lemmas run_defs = client_defs started_client_def sample_kis_config_def


theorem reconnect_terminates_witness:
  "\<exists>s s'. client_run sample_kis_config [ReaderLoop, ReadFailed, TakeTrigger] started_client = Some s \<and>
     busy_run sample_kis_config [BeginReconnect, CheckAttempt, Connect (Inr ''T'') DialFailed, Wake, CheckAttempt] s = Some s' \<and>
     busy s' \<and> (\<exists>ev s2. reconnecter_event ev \<and> client_do sample_kis_config ev s' = Some s2)"
proof -
  let ?evs = "[BeginReconnect, CheckAttempt, Connect (Inr ''T'') DialFailed, Wake, CheckAttempt]"
  obtain s where s: "client_run sample_kis_config [ReaderLoop, ReadFailed, TakeTrigger] started_client = Some s"
    and h: "ws_reconnecter s = HTaken"
    by (simp add: run_defs)
  obtain s' where b: "busy_run sample_kis_config ?evs s = Some s'" "busy s'"
    using s by (auto simp: run_defs busy_def)
  from reconnect_terminates [OF runs_reach [OF s] h b(1)] s b show ?thesis by blast
qed

theorem reconnect_storm_witness:
  "\<exists>s s'. client_run sample_kis_config [ReaderLoop, Tick] started_client = Some s \<and>
     client_run sample_kis_config (PingFailed # concat (replicate 3 (storm_round ''T''))) s = Some s' \<and> ws_next s' = 4 \<and>
     {0, 1, 2} \<subseteq> ws_closed s'"
proof -
  obtain s where s: "client_run sample_kis_config [ReaderLoop, Tick] started_client = Some s"
      "healthy 0 s" "ws_heart s = HbPing 0" "ws_next s = 1"
    by (simp add: run_defs healthy_def)
  have "1 \<le> ig_reconnect_retries sample_kis_config" by (simp add: sample_kis_config_def)
  from reconnect_storm [OF s(2,3) this, of 2 "''T''"] s(4) obtain s' where
    "client_run sample_kis_config (PingFailed # concat (replicate 3 (storm_round ''T''))) s = Some s'"
    "ws_next s' = 4" "insert 0 {1..<3} \<subseteq> ws_closed s'"
    by (auto simp: numeral_3_eq_3 numeral_2_eq_2)
  moreover have "insert 0 {1..<3::nat} = {0, 1, 2}" by auto
  ultimately show ?thesis using s(1) by auto
qed

definition one_retry :: kis_feed_config where
  "one_retry = sample_kis_config\<lparr>ig_reconnect_retries := 1\<rparr>"

theorem given_up_for_ever_witness:
  "\<exists>s s'. client_run one_retry [ReaderLoop, ReadFailed, TakeTrigger, BeginReconnect, CheckAttempt,
       Connect (Inr ''T'') DialFailed, CheckAttempt] started_client = Some s \<and>
     client_run one_retry [ReaderLoop, Tick, ReaderLoop] s = Some s' \<and> given_up s'"
proof -
  obtain s where s: "client_run one_retry [ReaderLoop, ReadFailed, TakeTrigger, BeginReconnect, CheckAttempt,
       Connect (Inr ''T'') DialFailed, CheckAttempt] started_client = Some s" "given_up s"
    by (simp add: run_defs one_retry_def given_up_def)
  obtain s' where r: "client_run one_retry [ReaderLoop, Tick, ReaderLoop] s = Some s'"
    using s(1) by (auto simp: run_defs one_retry_def)
  from given_up_for_ever [OF s(2) r] s r show ?thesis by blast
qed

theorem reconnect_forgets_subscriptions_witness:
  "\<exists>s s'. client_run sample_kis_config [CallSubscribe True [''005930''] ''H0STCNT0'', ReaderLoop, ReadFailed] started_client = Some s \<and>
     client_run sample_kis_config [TakeTrigger, BeginReconnect, CheckAttempt, Connect (Inr ''U'') Dialled] s = Some s' \<and>
     ws_conn s' = Some 1 \<and> (\<forall>m. (1, m) \<in> set (ws_sent s') \<longrightarrow> (\<exists>t. m = AuthMessage t))"
proof -
  let ?evs = "[TakeTrigger, BeginReconnect, CheckAttempt, Connect (Inr ''U'') Dialled]"
  obtain s where s: "client_run sample_kis_config [CallSubscribe True [''005930''] ''H0STCNT0'', ReaderLoop, ReadFailed]
      started_client = Some s" "\<forall>m. (1, m) \<notin> set (ws_sent s)"
    by (simp add: run_defs)
  obtain s' where r: "client_run sample_kis_config ?evs s = Some s'" "ws_conn s' = Some 1"
    using s(1) by (auto simp: run_defs)
  have "\<forall>ev \<in> set ?evs. \<not> subscribes ev" by simp
  from reconnect_forgets_subscriptions [OF r(1) this, of 1] s r show ?thesis by blast
qed

end
