(* ===== verification/Redis_Lock.thy ===== *)
theory Redis_Lock
  imports Redis_Store
begin

text \<open>
  The distributed lock of \<open>shared/go/pkg/redis/lock.go\<close>: a key set only if absent, with a random
  value and an expiry; release and refresh are Lua scripts that compare the value first.
\<close>

subsection \<open>Operations\<close>

record lock =
  lk_key :: string
  lk_value :: string
  lk_ttl :: duration

datatype lock_error =
    ErrLockNotObtained | ErrLockNotHeld | AcquireFailed | ReleaseFailed | RefreshFailed
  | LockCtxDone string

text \<open>\<open>hex.EncodeToString\<close>, on bytes as characters.\<close>

definition hex_digit :: "nat \<Rightarrow> char" where
  "hex_digit d = (if d < 10 then digit_char d else char_of (87 + d))"

fun hex_encode :: "string \<Rightarrow> string" where
  "hex_encode [] = []"
| "hex_encode (c # cs) =
     hex_digit (of_char c div 16) # hex_digit (of_char c mod 16) # hex_encode cs"

text \<open>The random source and the clock are parameters; \<open>None\<close> is a failure of the random source.\<close>

definition generateLockValue :: "string option \<Rightarrow> instant \<Rightarrow> string" where
  "generateLockValue random now = (case random of
     None \<Rightarrow> int_str now | Some b \<Rightarrow> hex_encode b)"

definition NewLock :: "string option \<Rightarrow> instant \<Rightarrow> string \<Rightarrow> duration \<Rightarrow> lock" where
  "NewLock random now key ttl =
     \<lparr>lk_key = key, lk_value = generateLockValue random now, lk_ttl = ttl\<rparr>"

definition lock_Acquire :: "'w redis \<Rightarrow> lock \<Rightarrow> 'w \<Rightarrow> lock_error option \<times> 'w" where
  "lock_Acquire redis l w =
     (let (reply, w1) = redis (SETNX (lk_key l) (lk_value l) (lk_ttl l)) w in
      case int_result reply of
        ROk n \<Rightarrow> (if n = 0 then Some ErrLockNotObtained else None, w1)
      | _ \<Rightarrow> (Some AcquireFailed, w1))"

text \<open>
  The wait between two attempts is a parameter: other clients run meanwhile, and it ends with the
  error of the context when that is done first.
\<close>

fun acquire_attempts ::
  "'w redis \<Rightarrow> ('w \<Rightarrow> string option \<times> 'w) \<Rightarrow> lock \<Rightarrow> nat \<Rightarrow> 'w \<Rightarrow> lock_error option \<times> 'w" where
  "acquire_attempts redis wait l 0 w = (Some ErrLockNotObtained, w)"
| "acquire_attempts redis wait l (Suc n) w =
     (case lock_Acquire redis l w of
        (None, w1) \<Rightarrow> (None, w1)
      | (Some e, w1) \<Rightarrow>
          (case wait w1 of
             (Some err, w2) \<Rightarrow> (Some (LockCtxDone err), w2)
           | (None, w2) \<Rightarrow> acquire_attempts redis wait l n w2))"

definition lock_TryAcquire ::
  "'w redis \<Rightarrow> ('w \<Rightarrow> string option \<times> 'w) \<Rightarrow> lock \<Rightarrow> int \<Rightarrow> 'w \<Rightarrow> lock_error option \<times> 'w" where
  "lock_TryAcquire redis wait l maxRetries w = acquire_attempts redis wait l (nat maxRetries) w"

text \<open>The two scripts; Redis runs a script as one step.\<close>

definition release_script :: "'w redis \<Rightarrow> string \<Rightarrow> string \<Rightarrow> 'w \<Rightarrow> redis_reply \<times> 'w" where
  "release_script redis key val w =
     (let (got, w1) = redis (GET key) w in
      case got of
        RErr e \<Rightarrow> (RErr e, w1)
      | _ \<Rightarrow> if got = RStr val then redis (DEL key) w1 else (RInt 0, w1))"

definition refresh_script :: "'w redis \<Rightarrow> string \<Rightarrow> string \<Rightarrow> int \<Rightarrow> 'w \<Rightarrow> redis_reply \<times> 'w" where
  "refresh_script redis key val ms w =
     (let (got, w1) = redis (GET key) w in
      case got of
        RErr e \<Rightarrow> (RErr e, w1)
      | _ \<Rightarrow> if got = RStr val then redis (PEXPIRE key ms) w1 else (RInt 0, w1))"

text \<open>\<open>Result()\<close> of \<open>Eval\<close> is an error for an error and for a nil reply.\<close>

definition eval_ok :: "redis_reply \<Rightarrow> bool" where
  "eval_ok r \<longleftrightarrow> (case r of RErr _ \<Rightarrow> False | RNil \<Rightarrow> False | _ \<Rightarrow> True)"

definition lock_Release :: "'w redis \<Rightarrow> lock \<Rightarrow> 'w \<Rightarrow> lock_error option \<times> 'w" where
  "lock_Release redis l w =
     (let (reply, w1) = release_script redis (lk_key l) (lk_value l) w in
      (if \<not> eval_ok reply then Some ReleaseFailed
       else if reply = RInt 0 then Some ErrLockNotHeld else None, w1))"

text \<open>\<open>Milliseconds()\<close> truncates.\<close>

definition milliseconds :: "duration \<Rightarrow> int" where
  "milliseconds d = (if d < 0 then - (- d div Millisecond) else d div Millisecond)"

definition lock_Refresh :: "'w redis \<Rightarrow> lock \<Rightarrow> 'w \<Rightarrow> lock_error option \<times> 'w" where
  "lock_Refresh redis l w =
     (let (reply, w1) = refresh_script redis (lk_key l) (lk_value l) (milliseconds (lk_ttl l)) w in
      (if \<not> eval_ok reply then Some RefreshFailed
       else if reply = RInt 0 then Some ErrLockNotHeld else None, w1))"

text \<open>
  \<open>WithLock\<close> and \<open>WithLockRetry\<close>: the function's error is passed on, and the lock is released behind
  the function with the outcome of the release ignored.
\<close>

definition WithLock ::
  "'w redis \<Rightarrow> lock \<Rightarrow> ('w \<Rightarrow> 'e option \<times> 'w) \<Rightarrow> 'w \<Rightarrow> (lock_error + 'e) option \<times> 'w" where
  "WithLock redis l fn w =
     (case lock_Acquire redis l w of
        (Some e, w1) \<Rightarrow> (Some (Inl e), w1)
      | (None, w1) \<Rightarrow>
          let (res, w2) = fn w1 in (map_option Inr res, snd (lock_Release redis l w2)))"

definition WithLockRetry ::
  "'w redis \<Rightarrow> ('w \<Rightarrow> string option \<times> 'w) \<Rightarrow> lock \<Rightarrow> int \<Rightarrow> ('w \<Rightarrow> 'e option \<times> 'w) \<Rightarrow> 'w \<Rightarrow>
     (lock_error + 'e) option \<times> 'w" where
  "WithLockRetry redis wait l maxRetries fn w =
     (case lock_TryAcquire redis wait l maxRetries w of
        (Some e, w1) \<Rightarrow> (Some (Inl e), w1)
      | (None, w1) \<Rightarrow>
          let (res, w2) = fn w1 in (map_option Inr res, snd (lock_Release redis l w2)))"

definition Locker_Lock ::
  "'w redis \<Rightarrow> string option \<Rightarrow> instant \<Rightarrow> string \<Rightarrow> duration \<Rightarrow> 'w \<Rightarrow> (lock_error + lock) \<times> 'w" where
  "Locker_Lock redis random now key ttl w =
     (let l = NewLock random now key ttl in
      case lock_Acquire redis l w of (Some e, w1) \<Rightarrow> (Inl e, w1) | (None, w1) \<Rightarrow> (Inr l, w1))"

definition Locker_TryLock ::
  "'w redis \<Rightarrow> ('w \<Rightarrow> string option \<times> 'w) \<Rightarrow> string option \<Rightarrow> instant \<Rightarrow> string \<Rightarrow> duration \<Rightarrow> int \<Rightarrow> 'w \<Rightarrow>
     (lock_error + lock) \<times> 'w" where
  "Locker_TryLock redis wait random now key ttl maxRetries w =
     (let l = NewLock random now key ttl in
      case lock_TryAcquire redis wait l maxRetries w of
        (Some e, w1) \<Rightarrow> (Inl e, w1) | (None, w1) \<Rightarrow> (Inr l, w1))"

subsection \<open>What the operations do to the key\<close>

lemma lock_Acquire_effect:
  assumes "kv_fallible redis now view" "0 < lk_ttl l" "lock_Acquire redis l w = (r, w')"
  shows "now w' = now w \<and>
     (r = None \<longrightarrow> kv_live (now w) (view w') (lk_key l) = Some (KStr (lk_value l), Some (now w + lk_ttl l))) \<and>
     (kv_live (now w) (view w) (lk_key l) \<noteq> None \<longrightarrow> view w' = view w \<and> r \<noteq> None)"
proof (cases "kv_live (now w) (view w) (lk_key l)")
  case None
  then show ?thesis
    using assms kv_fallibleD [OF assms(1), of "SETNX (lk_key l) (lk_value l) (lk_ttl l)" w]
    by (auto simp: lock_Acquire_def Let_def case_prod_beta)
next
  case (Some e)
  then show ?thesis
    using assms kv_fallibleD [OF assms(1), of "SETNX (lk_key l) (lk_value l) (lk_ttl l)" w]
    by (auto simp: lock_Acquire_def Let_def case_prod_beta)
qed

lemma kv_GET:
  assumes "kv_fallible redis now view"
  shows "now (snd (redis (GET k) w)) = now w \<and> view (snd (redis (GET k) w)) = view w \<and>
     ((\<exists>e. fst (redis (GET k) w) = RErr e) \<or>
      fst (redis (GET k) w) =
        (case kv_live (now w) (view w) k of None \<Rightarrow> RNil | Some (v, _) \<Rightarrow> RStr (kv_text v)))"
  using kv_fallibleD [OF assms, of "GET k" w] by auto

text \<open>A script acts on the key only when its live entry carries the value.\<close>

definition held_by :: "string \<Rightarrow> kv_entry option \<Rightarrow> bool" where
  "held_by v e \<longleftrightarrow> (case e of None \<Rightarrow> False | Some (x, _) \<Rightarrow> kv_text x = v)"

lemma script_GET:
  assumes "kv_fallible redis now view" "redis (GET k) w = (got, w1)"
  shows "now w1 = now w \<and> view w1 = view w \<and>
     ((\<exists>e. got = RErr e) \<or> (\<forall>e. got \<noteq> RErr e) \<and> (got = RStr v \<longleftrightarrow> held_by v (kv_live (now w) (view w) k)))"
  using kv_GET [OF assms(1), of k w] assms(2)
  by (cases "kv_live (now w) (view w) k") (auto simp: held_by_def)

lemma release_script_effect:
  assumes "kv_fallible redis now view" "release_script redis k v w = (reply, w')"
  shows "now w' = now w \<and>
     (\<not> held_by v (kv_live (now w) (view w) k) \<longrightarrow> view w' = view w \<and> (reply = RInt 0 \<or> \<not> eval_ok reply)) \<and>
     (held_by v (kv_live (now w) (view w) k) \<longrightarrow>
        view w' \<in> {view w, (view w)(k := None)} \<and>
        (eval_ok reply \<longrightarrow> reply = RInt 1 \<and> view w' = (view w)(k := None)))"
proof -
  obtain got w1 where g: "redis (GET k) w = (got, w1)" by fastforce
  note G = script_GET [OF assms(1) g, of v]
  consider (err) e where "got = RErr e" | (held) "got = RStr v" | (free) "got \<noteq> RStr v" "\<forall>e. got \<noteq> RErr e"
    by auto
  then show ?thesis
  proof cases
    case err
    then show ?thesis using G g assms(2) by (auto simp: release_script_def eval_ok_def)
  next
    case free
    then have "release_script redis k v w = (RInt 0, w1)"
      using g by (cases got) (auto simp: release_script_def)
    then show ?thesis using G free assms(2) by auto
  next
    case held
    then have h: "held_by v (kv_live (now w) (view w) k)" and r: "redis (DEL k) w1 = (reply, w')"
      using G g assms(2) by (auto simp: release_script_def)
    have "kv_step (DEL k) (now w1) (view w1) = Some (RInt 1, (view w)(k := None))"
      using h G by (auto simp: held_by_def split: option.splits)
    from kv_fallibleD [OF assms(1) this] h r G show ?thesis by (auto simp: eval_ok_def)
  qed
qed

lemma refresh_script_effect:
  assumes "kv_fallible redis now view" "refresh_script redis k v ms w = (reply, w')"
  shows "now w' = now w \<and>
     (\<not> held_by v (kv_live (now w) (view w) k) \<longrightarrow> view w' = view w \<and> (reply = RInt 0 \<or> \<not> eval_ok reply)) \<and>
     (held_by v (kv_live (now w) (view w) k) \<longrightarrow>
        (\<exists>x m. kv_text x = v \<and>
          m = (view w)(k := if ms \<le> 0 then None else Some (x, Some (now w + ms * Millisecond))) \<and>
          view w' \<in> {view w, m} \<and> (eval_ok reply \<longrightarrow> reply = RInt 1 \<and> view w' = m)))"
proof -
  obtain got w1 where g: "redis (GET k) w = (got, w1)" by fastforce
  note G = script_GET [OF assms(1) g, of v]
  consider (err) e where "got = RErr e" | (held) "got = RStr v" | (free) "got \<noteq> RStr v" "\<forall>e. got \<noteq> RErr e"
    by auto
  then show ?thesis
  proof cases
    case err
    then show ?thesis using G g assms(2)
      by (auto simp: refresh_script_def eval_ok_def held_by_def split: option.splits)
  next
    case free
    then have "refresh_script redis k v ms w = (RInt 0, w1)"
      using g by (cases got) (auto simp: refresh_script_def)
    then show ?thesis using G free assms(2) by auto
  next
    case held
    then have h: "held_by v (kv_live (now w) (view w) k)" and r: "redis (PEXPIRE k ms) w1 = (reply, w')"
      using G g assms(2) by (auto simp: refresh_script_def)
    obtain x t where e: "kv_live (now w) (view w) k = Some (x, t)" "kv_text x = v"
      using h by (auto simp: held_by_def split: option.splits)
    define m where "m = (view w)(k := if ms \<le> 0 then None else Some (x, Some (now w + ms * Millisecond)))"
    have "kv_step (PEXPIRE k ms) (now w1) (view w1) = Some (RInt 1, m)"
      using e G held by (simp add: m_def)
    from kv_fallibleD [OF assms(1) this] r G held
    have "now w' = now w \<and> view w' \<in> {view w, m} \<and> (eval_ok reply \<longrightarrow> reply = RInt 1 \<and> view w' = m)"
      by (auto simp: eval_ok_def)
    with h e(2) m_def show ?thesis by blast
  qed
qed

subsection \<open>Clients competing for one key\<close>

text \<open>
  Client \<open>i\<close> has the value \<open>val i\<close> for the key.  After an operation that reports success it may rely on
  the lock for the lock's lifetime (\<open>ls_lease\<close>, in the time of an ideal clock); it stops relying on
  it when it starts to release.  Time passes and other keys change between the operations.
\<close>

record 'w lock_sys =
  ls_world :: 'w
  ls_lease :: "nat \<Rightarrow> instant option"

definition lock_of :: "string \<Rightarrow> duration \<Rightarrow> (nat \<Rightarrow> string) \<Rightarrow> nat \<Rightarrow> lock" where
  "lock_of key ttl val i = \<lparr>lk_key = key, lk_value = val i, lk_ttl = ttl\<rparr>"

inductive lock_step ::
  "'w redis \<Rightarrow> ('w \<Rightarrow> instant) \<Rightarrow> ('w \<Rightarrow> kv_map) \<Rightarrow> string \<Rightarrow> duration \<Rightarrow> (nat \<Rightarrow> string) \<Rightarrow>
     'w lock_sys \<Rightarrow> 'w lock_sys \<Rightarrow> bool"
  for redis now view key ttl val where
  acquire: "lock_Acquire redis (lock_of key ttl val i) (ls_world s) = (r, w') \<Longrightarrow>
     lock_step redis now view key ttl val s
       (s\<lparr>ls_world := w',
          ls_lease := (if r = None then (ls_lease s)(i \<mapsto> now (ls_world s) + ttl) else ls_lease s)\<rparr>)"
| refresh: "lock_Refresh redis (lock_of key ttl val i) (ls_world s) = (r, w') \<Longrightarrow>
     lock_step redis now view key ttl val s
       (s\<lparr>ls_world := w',
          ls_lease := (if r = None then (ls_lease s)(i \<mapsto> now (ls_world s) + ttl) else ls_lease s)\<rparr>)"
| release: "lock_Release redis (lock_of key ttl val i) (ls_world s) = (r, w') \<Longrightarrow>
     lock_step redis now view key ttl val s (s\<lparr>ls_world := w', ls_lease := (ls_lease s)(i := None)\<rparr>)"
| pass: "now (ls_world s) \<le> now w' \<Longrightarrow> view w' key = view (ls_world s) key \<Longrightarrow>
     lock_step redis now view key ttl val s (s\<lparr>ls_world := w'\<rparr>)"

definition lease_inv ::
  "('w \<Rightarrow> instant) \<Rightarrow> ('w \<Rightarrow> kv_map) \<Rightarrow> string \<Rightarrow> duration \<Rightarrow> (nat \<Rightarrow> string) \<Rightarrow> 'w lock_sys \<Rightarrow> bool" where
  "lease_inv now view key ttl val s \<longleftrightarrow>
     (\<forall>i t. ls_lease s i = Some t \<longrightarrow> t \<le> now (ls_world s) + ttl \<and>
        (now (ls_world s) < t \<longrightarrow>
           (\<exists>x u. view (ls_world s) key = Some (x, Some u) \<and> kv_text x = val i \<and> t \<le> u)))"

lemma kv_live_Some: "kv_live now m k = Some (x, Some u) \<longleftrightarrow> m k = Some (x, Some u) \<and> now < u"
  by (auto simp: kv_live_def split: option.splits if_splits)

lemma lock_Release_world:
  assumes "kv_fallible redis now view" "lock_Release redis l w = (r, w')"
  shows "now w' = now w \<and>
     (\<not> held_by (lk_value l) (kv_live (now w) (view w) (lk_key l)) \<longrightarrow> view w' = view w)"
proof -
  obtain reply w1 where e: "release_script redis (lk_key l) (lk_value l) w = (reply, w1)" by fastforce
  then have "w1 = w'" using assms(2) by (simp add: lock_Release_def)
  with release_script_effect [OF assms(1) e] show ?thesis by blast
qed

lemma lock_Refresh_world:
  assumes "kv_fallible redis now view" "lock_Refresh redis l w = (r, w')"
    and "0 < lk_ttl l" "lk_ttl l mod Millisecond = 0"
  shows "now w' = now w \<and>
     (\<not> held_by (lk_value l) (kv_live (now w) (view w) (lk_key l)) \<longrightarrow> view w' = view w \<and> r \<noteq> None) \<and>
     (held_by (lk_value l) (kv_live (now w) (view w) (lk_key l)) \<longrightarrow>
        (\<exists>x. kv_text x = lk_value l \<and>
          view w' \<in> {view w, (view w)(lk_key l \<mapsto> (x, Some (now w + lk_ttl l)))} \<and>
          (r = None \<longrightarrow> view w' = (view w)(lk_key l \<mapsto> (x, Some (now w + lk_ttl l))))))"
proof -
  have ms: "milliseconds (lk_ttl l) * Millisecond = lk_ttl l" "\<not> milliseconds (lk_ttl l) \<le> 0"
    using assms(3,4) by (auto simp: milliseconds_def go_simps)
  obtain reply w1 where e: "refresh_script redis (lk_key l) (lk_value l) (milliseconds (lk_ttl l)) w = (reply, w1)"
    by fastforce
  then have r: "w1 = w'" "r = (if \<not> eval_ok reply then Some RefreshFailed
       else if reply = RInt 0 then Some ErrLockNotHeld else None)"
    using assms(2) by (simp_all add: lock_Refresh_def)
  show ?thesis
    using refresh_script_effect [OF assms(1) e] r ms by (auto split: if_splits)
qed

lemma lease_inv_step:
  assumes "kv_fallible redis now view" "inj val" "0 < ttl" "ttl mod Millisecond = 0"
    and "lock_step redis now view key ttl val s s'" "lease_inv now view key ttl val s"
  shows "lease_inv now view key ttl val s'"
  using assms(5)
proof cases
  case (acquire i r w')
  let ?w = "ls_world s"
  have "lk_ttl (lock_of key ttl val i) = ttl" "lk_key (lock_of key ttl val i) = key"
      "lk_value (lock_of key ttl val i) = val i" by (simp_all add: lock_of_def)
  note A = lock_Acquire_effect [OF assms(1) _ acquire(2), unfolded this, OF assms(3)]
  show ?thesis
  proof (cases "kv_live (now ?w) (view ?w) key")
    case None
    have dead: "\<not> now ?w < t" if "ls_lease s j = Some t" for j t
      using assms(6) that None unfolding lease_inv_def by (fastforce simp: kv_live_def)
    then show ?thesis
      using A acquire(1) assms(6) unfolding lease_inv_def
      by (auto simp: kv_live_Some split: if_splits)
  next
    case (Some e)
    then show ?thesis using A acquire(1) assms(6) unfolding lease_inv_def by auto
  qed
next
  case (refresh i r w')
  let ?w = "ls_world s"
  have l: "lk_ttl (lock_of key ttl val i) = ttl" "lk_key (lock_of key ttl val i) = key"
      "lk_value (lock_of key ttl val i) = val i" by (simp_all add: lock_of_def)
  note R = lock_Refresh_world [OF assms(1) refresh(2), unfolded l, OF assms(3,4)]
  show ?thesis
  proof (cases "held_by (val i) (kv_live (now ?w) (view ?w) key)")
    case False
    then show ?thesis using R refresh(1) assms(6) unfolding lease_inv_def by auto
  next
    case True
    then obtain x where x: "kv_text x = val i"
        "view w' \<in> {view ?w, (view ?w)(key \<mapsto> (x, Some (now ?w + ttl)))}"
        "r = None \<longrightarrow> view w' = (view ?w)(key \<mapsto> (x, Some (now ?w + ttl)))" "now w' = now ?w"
      using R by blast
    have only: "j = i" if "ls_lease s j = Some t" "now ?w < t" for j t
      using assms(6) that True injD [OF assms(2), of j i] unfolding lease_inv_def
      by (fastforce simp: held_by_def kv_live_def split: option.splits if_splits)
    from x only show ?thesis
      using refresh(1) assms(6) unfolding lease_inv_def by (auto split: if_splits)
  qed
next
  case (release i r w')
  let ?w = "ls_world s"
  have l: "lk_key (lock_of key ttl val i) = key" "lk_value (lock_of key ttl val i) = val i"
    by (simp_all add: lock_of_def)
  note R = lock_Release_world [OF assms(1) release(2), unfolded l]
  show ?thesis
  proof (cases "held_by (val i) (kv_live (now ?w) (view ?w) key)")
    case False
    then show ?thesis using R release(1) assms(6) unfolding lease_inv_def by (auto split: if_splits)
  next
    case True
    have only: "j = i" if "ls_lease s j = Some t" "now ?w < t" for j t
      using assms(6) that True injD [OF assms(2), of j i] unfolding lease_inv_def
      by (fastforce simp: held_by_def kv_live_def split: option.splits if_splits)
    then show ?thesis
      using R release(1) assms(6) unfolding lease_inv_def by (fastforce split: if_splits)
  qed
next
  case (pass w')
  show ?thesis unfolding pass(1) lease_inv_def
  proof (intro allI impI conjI)
    fix i t assume "ls_lease (s\<lparr>ls_world := w'\<rparr>) i = Some t"
    then have i: "ls_lease s i = Some t" by simp
    from i assms(6) have "t \<le> now (ls_world s) + ttl" unfolding lease_inv_def by blast
    with pass(2) show "t \<le> now (ls_world (s\<lparr>ls_world := w'\<rparr>)) + ttl" by simp
    assume "now (ls_world (s\<lparr>ls_world := w'\<rparr>)) < t"
    with pass(2) have "now (ls_world s) < t" by simp
    with i assms(6) obtain x u where "view (ls_world s) key = Some (x, Some u)" "kv_text x = val i" "t \<le> u"
      unfolding lease_inv_def by blast
    with pass(3) show "\<exists>x u. view (ls_world (s\<lparr>ls_world := w'\<rparr>)) key = Some (x, Some u) \<and>
        kv_text x = val i \<and> t \<le> u" by simp
  qed
qed

text \<open>
  C18. Mutual exclusion.  Clients with different values use locks of one key with a lifetime of whole
  milliseconds, against a Redis that may lose replies.  From a state in which nobody relies on the
  lock, at no time do two clients rely on it, whatever the order of acquisitions, refreshes,
  releases and the passing of time.
\<close>

theorem lock_mutual_exclusion:
  assumes "kv_fallible redis now view" "inj val" "0 < ttl" "ttl mod Millisecond = 0"
    and "(lock_step redis now view key ttl val)\<^sup>*\<^sup>* s s'" "\<forall>i. ls_lease s i = None"
    and "ls_lease s' i = Some t" "now (ls_world s') < t" "ls_lease s' j = Some u" "now (ls_world s') < u"
  shows "i = j"
proof -
  have "lease_inv now view key ttl val s" using assms(6) by (simp add: lease_inv_def)
  with assms(5) have "lease_inv now view key ttl val s'"
    by (induction rule: rtranclp_induct) (auto intro: lease_inv_step [OF assms(1-4)])
  then have "\<exists>x y. view (ls_world s') key = Some (x, y) \<and> kv_text x = val k"
      if "ls_lease s' k = Some n" "now (ls_world s') < n" for k n
    using that unfolding lease_inv_def by blast
  from this [OF assms(7,8)] this [OF assms(9,10)] have "val i = val j" by auto
  with assms(2) show ?thesis by (simp add: inj_eq)
qed

text \<open>
  A refresh can drop the lock.  The lifetime is handed to \<open>PEXPIRE\<close> in whole milliseconds; with a
  lifetime below one millisecond, in particular with 0, which \<open>SETNX\<close> takes as "no expiry", this is
  zero, and \<open>Refresh\<close> deletes the key it holds and reports success.
\<close>

theorem short_refresh_drops_lock:
  assumes "kv_store redis now view" "0 \<le> lk_ttl l" "lk_ttl l < Millisecond"
    and "kv_live (now w) (view w) (lk_key l) = Some (KStr (lk_value l), t)"
    and "lock_Refresh redis l w = (r, w')"
  shows "r = None \<and> view w' (lk_key l) = None"
proof -
  have ms: "milliseconds (lk_ttl l) = 0" using assms(2,3) by (simp add: milliseconds_def)
  have g: "fst (redis (GET (lk_key l)) w) = RStr (lk_value l)"
      "view (snd (redis (GET (lk_key l)) w)) = view w" "now (snd (redis (GET (lk_key l)) w)) = now w"
    using kv_storeD [OF assms(1), of "GET (lk_key l)" w] assms(4) by auto
  obtain w1 where w1: "redis (GET (lk_key l)) w = (RStr (lk_value l), w1)" "view w1 = view w" "now w1 = now w"
    using g by (metis prod.collapse)
  have "fst (redis (PEXPIRE (lk_key l) 0) w1) = RInt 1"
      "view (snd (redis (PEXPIRE (lk_key l) 0) w1)) = (view w)(lk_key l := None)"
    using kv_storeD [OF assms(1), of "PEXPIRE (lk_key l) 0" w1] w1 assms(4) by auto
  with assms(5) w1 ms show ?thesis
    by (auto simp: lock_Refresh_def refresh_script_def eval_ok_def case_prod_beta Let_def)
qed

subsection \<open>Random values\<close>

lemma hex_digit_inj: "a < 16 \<Longrightarrow> b < 16 \<Longrightarrow> hex_digit a = hex_digit b \<Longrightarrow> a = b"
proof -
  assume a: "a < 16" "b < 16" and "hex_digit a = hex_digit b"
  then have "(of_char (hex_digit a) :: nat) = of_char (hex_digit b)" by simp
  with a show "a = b" by (auto simp: hex_digit_def digit_char_def split: if_splits)
qed

lemma hex_encode_inj: "hex_encode a = hex_encode b \<longleftrightarrow> a = b"
proof (induction a arbitrary: b)
  case Nil
  then show ?case by (cases b) auto
next
  case (Cons c cs)
  show ?case
  proof (cases b)
    case (Cons d ds)
    have b: "of_char e div 16 < (16::nat)" "of_char e mod 16 < (16::nat)" for e :: char
      by (simp_all add: less_mult_imp_div_less)
    have h: "c = d" if "hex_digit (of_char c div 16) = hex_digit (of_char d div 16)"
        "hex_digit (of_char c mod 16) = hex_digit (of_char d mod 16)"
    proof -
      have "of_char c div 16 = (of_char d div 16 :: nat)" "of_char c mod 16 = (of_char d mod 16 :: nat)"
        using that b by (blast intro: hex_digit_inj)+
      then have "(of_char c :: nat) = of_char d" by (metis div_mult_mod_eq)
      then show ?thesis by simp
    qed
    with Cons Cons.IH show ?thesis by auto
  qed simp
qed

subsection \<open>Concrete runs\<close>

definition sample_lock_sys :: "kv_world lock_sys" where
  "sample_lock_sys = \<lparr>ls_world = \<lparr>kw_now = 0, kw_map = Map.empty\<rparr>, ls_lease = Map.empty\<rparr>"

definition locked_sys :: "kv_world lock_sys" where
  "locked_sys = \<lparr>ls_world = \<lparr>kw_now = 0, kw_map = [''k'' \<mapsto> (KStr (nat_str 0), Some Second)]\<rparr>,
     ls_lease = [0 \<mapsto> Second]\<rparr>"

lemma sample_lock_acquired:
  "lock_step kv_redis kw_now kw_map ''k'' Second nat_str sample_lock_sys locked_sys"
proof -
  have a: "lock_Acquire kv_redis (lock_of ''k'' Second nat_str 0) (ls_world sample_lock_sys) =
      (None, ls_world locked_sys)"
    by (simp add: lock_Acquire_def lock_of_def kv_redis_def kv_live_def sample_lock_sys_def
        locked_sys_def go_simps)
  have "locked_sys = sample_lock_sys\<lparr>ls_world := ls_world locked_sys,
      ls_lease := (if (None :: lock_error option) = None
        then (ls_lease sample_lock_sys)(0 \<mapsto> kw_now (ls_world sample_lock_sys) + Second)
        else ls_lease sample_lock_sys)\<rparr>"
    by (simp add: sample_lock_sys_def locked_sys_def)
  with lock_step.acquire [OF a, of kw_now kw_map] show ?thesis by simp
qed

theorem lock_mutual_exclusion_witness:
  "(lock_step kv_redis kw_now kw_map ''k'' Second nat_str)\<^sup>*\<^sup>* sample_lock_sys locked_sys \<and>
   ls_lease locked_sys 0 = Some Second \<and> ls_lease locked_sys 1 \<noteq> Some Second"
proof -
  have r: "(lock_step kv_redis kw_now kw_map ''k'' Second nat_str)\<^sup>*\<^sup>* sample_lock_sys locked_sys"
    using sample_lock_acquired by (rule r_into_rtranclp)
  have i: "inj nat_str" by (rule injI) (rule nat_str_inj)
  have l: "ls_lease locked_sys 0 = Some Second" "kw_now (ls_world locked_sys) < Second"
      "0 < Second" "Second mod Millisecond = 0" "\<forall>i. ls_lease sample_lock_sys i = None"
    by (simp_all add: locked_sys_def sample_lock_sys_def go_simps)
  from lock_mutual_exclusion [OF kv_store_fallible [OF kv_redis_store] i l(3,4) r l(5,1,2), of 1 Second]
  show ?thesis using r l by auto
qed

theorem short_refresh_drops_lock_witness:
  "kw_map (snd (lock_Refresh kv_redis \<lparr>lk_key = ''k'', lk_value = ''v'', lk_ttl = 0\<rparr>
     \<lparr>kw_now = 0, kw_map = [''k'' \<mapsto> (KStr ''v'', None)]\<rparr>)) ''k'' = None"
proof -
  let ?l = "\<lparr>lk_key = ''k'', lk_value = ''v'', lk_ttl = 0\<rparr>"
  let ?w = "\<lparr>kw_now = 0, kw_map = [''k'' \<mapsto> (KStr ''v'', None)]\<rparr>"
  obtain r w' where e: "lock_Refresh kv_redis ?l ?w = (r, w')" by fastforce
  from short_refresh_drops_lock [OF kv_redis_store _ _ _ e] e show ?thesis
    by (simp add: kv_live_def go_simps)
qed

end
