(* ===== verification/Auth_Limiter.thy ===== *)
theory Auth_Limiter
  imports Redis_Store Go_Strings Go_Http
begin

text \<open>
  The HTTP rate limiters of \<open>user-service/internal/middleware/rate_limiter.go\<close>: a general one that
  counts per client address, and one for the authentication endpoints with a lockout after failed
  attempts.  Both work in Redis and have a fallback in memory.
\<close>

subsection \<open>Requests\<close>

definition getClientIP :: "http_req \<Rightarrow> string" where
  "getClientIP r =
     (let cf = hq_header r ''CF-Connecting-IP''; xff = hq_header r ''X-Forwarded-For'';
          first = trim_space (hd (split_on CHR '','' xff)); xri = hq_header r ''X-Real-IP'' in
      if cf \<noteq> [] then cf
      else if xff \<noteq> [] \<and> first \<noteq> [] then first
      else if xri \<noteq> [] then xri
      else case split_host_port (hq_remote_addr r) of
        None \<Rightarrow> hq_remote_addr r
      | Some (ip, _) \<Rightarrow> ip)"

definition getIdentifier :: "http_req \<Rightarrow> string" where
  "getIdentifier r =
     (let ip = getClientIP r in
      if hq_method r = ''POST'' then
        (case hq_form r of
           None \<Rightarrow> ip
         | Some f \<Rightarrow>
             if f ''username'' \<noteq> [] then ip @ '':'' @ f ''username''
             else if f ''email'' \<noteq> [] then ip @ '':'' @ f ''email''
             else ip)
      else ip)"

definition isAuthEndpoint :: "string \<Rightarrow> bool" where
  "isAuthEndpoint path =
     (let p = to_lower (trim_space path) in
      \<exists>a \<in> set [''/auth/login'', ''/auth/signin'', ''/auth/register'', ''/auth/signup'', ''/auth/token'',
          ''/auth/refresh'', ''/api/auth/login'', ''/api/auth/register'', ''/api/v1/auth/login'',
          ''/api/v1/auth/register'', ''/login'', ''/signin'', ''/register'', ''/signup''].
        p = a \<or> has_suffix p a)"

subsection \<open>The general limiter\<close>

text \<open>
  \<open>ul_local\<close> is \<open>Allow\<close> of the client's limiter in \<open>golang.org/x/time/rate\<close>, created with the interval
  and burst given if it is new, and the tokens it then has.  The clock readings behind a check are
  taken as one.
\<close>

record 'w ul_env =
  ul_redis :: "'w redis"
  ul_now :: "'w \<Rightarrow> instant"
  ul_local :: "string \<Rightarrow> duration \<Rightarrow> int \<Rightarrow> 'w \<Rightarrow> bool \<times> int \<times> 'w"

record rate_limiter =
  rl_limit :: int
  rl_window :: duration
  rl_key_prefix :: string

definition NewRateLimiter :: "int \<Rightarrow> duration \<Rightarrow> rate_limiter" where
  "NewRateLimiter limit window =
     \<lparr>rl_limit = limit, rl_window = window, rl_key_prefix = ''rate_limit:''\<rparr>"

text \<open>A pipeline fails when one of its commands does.  A TTL comes back in seconds.\<close>

definition checkRateLimit ::
  "'w ul_env \<Rightarrow> rate_limiter \<Rightarrow> string \<Rightarrow> 'w \<Rightarrow> (bool \<times> int \<times> instant) option \<times> 'w" where
  "checkRateLimit env rl key w =
     (let (incr, w1) = ul_redis env (INCR key) w;
          (expire, w2) = ul_redis env (EXPIRE key (rl_window rl)) w1;
          (ttl, w3) = ul_redis env (TTL key) w2 in
      if \<not> reply_ok incr \<or> \<not> reply_ok expire \<or> \<not> reply_ok ttl then (None, w3)
      else case int_result incr of
        ROk count \<Rightarrow>
          let ttlDuration = (case int_result ttl of ROk n \<Rightarrow> n * Second | _ \<Rightarrow> rl_window rl);
              remaining = max 0 (rl_limit rl - count) in
          (Some (count \<le> rl_limit rl, remaining, ul_now env w3 + ttlDuration), w3)
      | _ \<Rightarrow> (None, w3))"

text \<open>\<open>None\<close> is the panic of dividing by a limit of zero.\<close>

definition checkLocalRateLimit ::
  "'w ul_env \<Rightarrow> rate_limiter \<Rightarrow> string \<Rightarrow> 'w \<Rightarrow> (bool \<times> int \<times> instant) option \<times> 'w" where
  "checkLocalRateLimit env rl clientIP w =
     (if rl_limit rl = 0 then (None, w)
      else
        let every = (if (0 \<le> rl_window rl) = (0 < rl_limit rl) then \<bar>rl_window rl\<bar> div \<bar>rl_limit rl\<bar>
                     else - (\<bar>rl_window rl\<bar> div \<bar>rl_limit rl\<bar>));
            (allowed, tokens, w1) = ul_local env clientIP every (rl_limit rl) w in
        (Some (allowed, tokens, ul_now env w1 + rl_window rl), w1))"

definition trunc_seconds :: "duration \<Rightarrow> int" where
  "trunc_seconds d = (if d < 0 then - (- d div Second) else d div Second)"

datatype http_outcome =
    PassedOn
  | Refused int string
  | Panicked

definition rl_Middleware ::
  "'w ul_env \<Rightarrow> rate_limiter \<Rightarrow> http_req \<Rightarrow> 'w \<Rightarrow> http_outcome \<times> (string \<times> string) list \<times> 'w" where
  "rl_Middleware env rl r w =
     (let clientIP = getClientIP r;
          (res, w1) = checkRateLimit env rl (rl_key_prefix rl @ clientIP) w;
          (final, w2) = (case res of Some x \<Rightarrow> (Some x, w1) | None \<Rightarrow> checkLocalRateLimit env rl clientIP w1) in
      case final of
        None \<Rightarrow> (Panicked, [], w2)
      | Some (allowed, remaining, resetTime) \<Rightarrow>
          let after = int_str (trunc_seconds (resetTime - ul_now env w2));
              hs = [(''X-RateLimit-Limit'', int_str (rl_limit rl)),
                    (''X-RateLimit-Remaining'', int_str remaining),
                    (''X-RateLimit-Reset'', int_str (resetTime div Second)),
                    (''X-RateLimit-Reset-After'', after)] in
          if allowed then (PassedOn, hs, w2)
          else (Refused 429 ''Too Many Requests'', hs @ [(''Retry-After'', after)], w2))"

subsection \<open>The limiter of the authentication endpoints\<close>

record auth_state =
  as_attempts :: int
  as_failed_count :: int
  as_last_attempt :: instant
  as_locked_until :: instant

record auth_limiter =
  al_has_redis :: bool
  al_login_limit :: int
  al_window :: duration
  al_lockout_limit :: int
  al_lockout_time :: duration
  al_local_state :: "string \<Rightarrow> auth_state option"

definition NewAuthRateLimiter :: "bool \<Rightarrow> auth_limiter" where
  "NewAuthRateLimiter has_redis =
     \<lparr>al_has_redis = has_redis, al_login_limit = 5, al_window = Minute, al_lockout_limit = 10,
      al_lockout_time = 15 * Minute, al_local_state = Map.empty\<rparr>"

datatype auth_refusal = AccountLocked duration | RateExceeded int int

definition lockout_key :: "string \<Rightarrow> string" where
  "lockout_key identifier = ''lockout:'' @ identifier"

definition auth_rate_key :: "string \<Rightarrow> string" where
  "auth_rate_key identifier = ''auth_rate:'' @ identifier"

definition failed_auth_key :: "string \<Rightarrow> string" where
  "failed_auth_key identifier = ''failed_auth:'' @ identifier"

definition auth_rate_script :: "'w redis \<Rightarrow> string \<Rightarrow> int \<Rightarrow> 'w \<Rightarrow> redis_reply \<times> 'w" where
  "auth_rate_script redis key window w =
     (let (current, w1) = redis (INCR key) w in
      case current of
        RInt n \<Rightarrow>
          if n = 1 then
            let (set_reply, w2) = redis (EXPIRE key (window * Second)) w1 in
            if reply_ok set_reply then (RInt n, w2) else (set_reply, w2)
          else (RInt n, w1)
      | other \<Rightarrow> (other, w1))"

definition check_rate ::
  "'w redis \<Rightarrow> auth_limiter \<Rightarrow> string \<Rightarrow> 'w \<Rightarrow> auth_refusal option \<times> 'w" where
  "check_rate redis al identifier w =
     (let (reply, w1) = auth_rate_script redis (auth_rate_key identifier) (trunc_seconds (al_window al)) w in
      case int_result reply of
        ROk count \<Rightarrow>
          (if al_login_limit al < count then Some (RateExceeded count (al_login_limit al)) else None, w1)
      | _ \<Rightarrow> (None, w1))"

definition checkRedis ::
  "'w redis \<Rightarrow> auth_limiter \<Rightarrow> string \<Rightarrow> 'w \<Rightarrow> auth_refusal option \<times> 'w" where
  "checkRedis redis al identifier w =
     (let (locked, w1) = redis (EXISTS (lockout_key identifier)) w in
      case int_result locked of
        ROk n \<Rightarrow>
          if 0 < n then
            let (ttl, w2) = redis (TTL (lockout_key identifier)) w1 in
            (Some (AccountLocked (case int_result ttl of ROk s \<Rightarrow> s * Second | _ \<Rightarrow> 0)), w2)
          else check_rate redis al identifier w1
      | _ \<Rightarrow> check_rate redis al identifier w1)"

definition checkLocal ::
  "instant \<Rightarrow> auth_limiter \<Rightarrow> string \<Rightarrow> auth_refusal option \<times> auth_limiter" where
  "checkLocal now al identifier =
     (case al_local_state al identifier of
        None \<Rightarrow> (None, al\<lparr>al_local_state := (al_local_state al)(identifier \<mapsto>
           \<lparr>as_attempts = 1, as_failed_count = 0, as_last_attempt = now, as_locked_until = zero_time\<rparr>)\<rparr>)
      | Some st \<Rightarrow>
          if now < as_locked_until st then (Some (AccountLocked (as_locked_until st - now)), al)
          else if al_window al < now - as_last_attempt st
          then (None, al\<lparr>al_local_state := (al_local_state al)(identifier \<mapsto>
                 st\<lparr>as_attempts := 1, as_last_attempt := now\<rparr>)\<rparr>)
          else
            let st' = st\<lparr>as_attempts := as_attempts st + 1, as_last_attempt := now\<rparr> in
            (if al_login_limit al < as_attempts st'
             then Some (RateExceeded (as_attempts st') (al_login_limit al)) else None,
             al\<lparr>al_local_state := (al_local_state al)(identifier \<mapsto> st')\<rparr>))"

definition CheckAndIncrement ::
  "'w ul_env \<Rightarrow> string \<Rightarrow> auth_limiter \<times> 'w \<Rightarrow> auth_refusal option \<times> auth_limiter \<times> 'w" where
  "CheckAndIncrement env identifier = (\<lambda>(al, w).
     if al_has_redis al then
       let (res, w1) = checkRedis (ul_redis env) al identifier w in (res, al, w1)
     else
       let (res, al1) = checkLocal (ul_now env w) al identifier in (res, al1, w))"

definition recordFailedRedis :: "'w redis \<Rightarrow> auth_limiter \<Rightarrow> string \<Rightarrow> 'w \<Rightarrow> 'w" where
  "recordFailedRedis redis al identifier w =
     (let (reply, w1) = redis (INCR (failed_auth_key identifier)) w in
      case int_result reply of
        ROk count \<Rightarrow>
          let w2 = (if count = 1
                then snd (redis (EXPIRE (failed_auth_key identifier) (al_lockout_time al)) w1) else w1) in
          if al_lockout_limit al \<le> count
          then snd (redis (SETEX (lockout_key identifier) ''1'' (al_lockout_time al)) w2) else w2
      | _ \<Rightarrow> w1)"

definition recordFailedLocal :: "instant \<Rightarrow> string \<Rightarrow> auth_limiter \<Rightarrow> auth_limiter" where
  "recordFailedLocal now identifier al =
     (let st = (case al_local_state al identifier of
            Some st \<Rightarrow> st
          | None \<Rightarrow> \<lparr>as_attempts = 0, as_failed_count = 0, as_last_attempt = zero_time,
                      as_locked_until = zero_time\<rparr>);
          st1 = st\<lparr>as_failed_count := as_failed_count st + 1\<rparr>;
          st2 = (if al_lockout_limit al \<le> as_failed_count st1
                 then st1\<lparr>as_locked_until := now + al_lockout_time al, as_failed_count := 0\<rparr> else st1) in
      al\<lparr>al_local_state := (al_local_state al)(identifier \<mapsto> st2)\<rparr>)"

definition RecordFailedAttempt ::
  "'w ul_env \<Rightarrow> string \<Rightarrow> auth_limiter \<times> 'w \<Rightarrow> auth_limiter \<times> 'w" where
  "RecordFailedAttempt env identifier = (\<lambda>(al, w).
     if al_has_redis al then (al, recordFailedRedis (ul_redis env) al identifier w)
     else (recordFailedLocal (ul_now env w) identifier al, w))"

definition ClearFailedAttempts ::
  "'w ul_env \<Rightarrow> string \<Rightarrow> auth_limiter \<times> 'w \<Rightarrow> auth_limiter \<times> 'w" where
  "ClearFailedAttempts env identifier = (\<lambda>(al, w).
     if al_has_redis al then (al, snd (ul_redis env (DEL (failed_auth_key identifier)) w))
     else (case al_local_state al identifier of
        None \<Rightarrow> (al, w)
      | Some st \<Rightarrow> (al\<lparr>al_local_state := (al_local_state al)(identifier \<mapsto> st\<lparr>as_failed_count := 0\<rparr>)\<rparr>, w)))"

definition CleanupExpired :: "instant \<Rightarrow> auth_limiter \<Rightarrow> auth_limiter" where
  "CleanupExpired now al = al\<lparr>al_local_state := (\<lambda>id. case al_local_state al id of
     None \<Rightarrow> None
   | Some st \<Rightarrow>
       if 24 * Hour < now - as_last_attempt st \<and> as_locked_until st < now then None else Some st)\<rparr>"

text \<open>The status the wrapped writer records: the first one written, 200 if none is.\<close>

definition recorded_status :: "int list \<Rightarrow> int" where
  "recorded_status writes = (case writes of [] \<Rightarrow> 200 | s # _ \<Rightarrow> s)"

text \<open>
  The next handler yields the statuses it writes, and runs in the world; a refusal does not reach it.
\<close>

definition al_Middleware ::
  "'w ul_env \<Rightarrow> (http_req \<Rightarrow> 'w \<Rightarrow> int list \<times> 'w) \<Rightarrow> http_req \<Rightarrow> auth_limiter \<times> 'w \<Rightarrow>
     http_outcome \<times> auth_limiter \<times> 'w" where
  "al_Middleware env handler r = (\<lambda>(al, w).
     if \<not> isAuthEndpoint (hq_path r) then (PassedOn, al, snd (handler r w))
     else
       let identifier = getIdentifier r in
       case CheckAndIncrement env identifier (al, w) of
         (Some (AccountLocked d), al1, w1) \<Rightarrow>
           (Refused 429 ''Account temporarily locked due to too many failed attempts'', al1, w1)
       | (Some (RateExceeded c l), al1, w1) \<Rightarrow>
           (Refused 429 ''Too many login attempts. Please try again later.'', al1, w1)
       | (None, al1, w1) \<Rightarrow>
           let (writes, w2) = handler r w1; code = recorded_status writes in
           if code = 401 \<or> code = 403 then
             let (al3, w3) = RecordFailedAttempt env identifier (al1, w2) in (PassedOn, al3, w3)
           else if code = 200 \<or> code = 201 then
             let (al3, w3) = ClearFailedAttempts env identifier (al1, w2) in (PassedOn, al3, w3)
           else (PassedOn, al1, w2))"

subsection \<open>Steps on a store\<close>

lemma limiter_keys_distinct [simp]:
  "lockout_key a \<noteq> auth_rate_key b" "auth_rate_key b \<noteq> lockout_key a"
  "lockout_key a \<noteq> failed_auth_key b" "failed_auth_key b \<noteq> lockout_key a"
  "auth_rate_key a \<noteq> failed_auth_key b" "failed_auth_key b \<noteq> auth_rate_key a"
  by (simp_all add: lockout_key_def auth_rate_key_def failed_auth_key_def)

lemma limiter_keys_inj [simp]:
  "lockout_key a = lockout_key b \<longleftrightarrow> a = b" "auth_rate_key a = auth_rate_key b \<longleftrightarrow> a = b"
  "failed_auth_key a = failed_auth_key b \<longleftrightarrow> a = b"
  by (simp_all add: lockout_key_def auth_rate_key_def failed_auth_key_def)

definition whole_seconds_pos :: "duration \<Rightarrow> bool" where
  "whole_seconds_pos d \<longleftrightarrow> 0 < d \<and> d mod Second = 0"

lemma trunc_whole: "whole_seconds_pos d \<Longrightarrow> trunc_seconds d * Second = d"
  by (auto simp: whole_seconds_pos_def trunc_seconds_def go_simps)

text \<open>The abstract counter of a fixed window: how many requests, and when the window ends.\<close>

type_synonym window_state = "(int \<times> instant) option"

definition fw_take :: "int \<Rightarrow> duration \<Rightarrow> instant \<Rightarrow> window_state \<Rightarrow> bool \<times> window_state" where
  "fw_take limit window t s = (case s of
     None \<Rightarrow> (1 \<le> limit, Some (1, t + window))
   | Some (n, d) \<Rightarrow>
       if t < d then (n + 1 \<le> limit, Some (n + 1, d)) else (1 \<le> limit, Some (1, t + window)))"

fun fw_rep :: "window_state \<Rightarrow> kv_entry option" where
  "fw_rep None = None"
| "fw_rep (Some (n, d)) = Some (KInt n, Some d)"

definition fw_ok :: "window_state \<Rightarrow> bool" where
  "fw_ok s \<longleftrightarrow> (case s of None \<Rightarrow> True | Some (n, d) \<Rightarrow> 1 \<le> n)"

lemma fw_take_ok: "fw_ok s \<Longrightarrow> fw_ok (snd (fw_take limit window t s))"
  by (auto simp: fw_ok_def fw_take_def split: option.splits)

lemma auth_rate_script_step:
  assumes "kv_store redis now view" "whole_seconds_pos (secs * Second)" "view w key = fw_rep s" "fw_ok s"
    and "auth_rate_script redis key secs w = (reply, w')"
  shows "now w' = now w \<and>
     (\<exists>n d. snd (fw_take limit (secs * Second) (now w) s) = Some (n, d) \<and> reply = RInt n \<and>
        view w' = (view w)(key \<mapsto> (KInt n, Some d)) \<and>
        (fst (fw_take limit (secs * Second) (now w) s) \<longleftrightarrow> n \<le> limit))"
proof (cases "kv_live (now w) (view w) key")
  case None
  obtain w1 where w1: "redis (INCR key) w = (RInt 1, w1)" "view w1 = (view w)(key \<mapsto> (KInt 1, None))"
      "now w1 = now w"
    using kv_storeD [OF assms(1), of "INCR key" w] None by (cases "redis (INCR key) w") auto
  have "kv_step (EXPIRE key (secs * Second)) (now w1) (view w1) =
      Some (RInt 1, (view w1)(key \<mapsto> (KInt 1, Some (now w + secs * Second))))"
    using w1 assms(2) by (simp add: whole_seconds_pos_def)
  from kv_storeD [OF assms(1) this] obtain w2 where w2: "redis (EXPIRE key (secs * Second)) w1 = (RInt 1, w2)"
      "view w2 = (view w)(key \<mapsto> (KInt 1, Some (now w + secs * Second)))" "now w2 = now w"
    using w1 by (cases "redis (EXPIRE key (secs * Second)) w1") (auto simp: fun_eq_iff)
  have "snd (fw_take limit (secs * Second) (now w) s) = Some (1, now w + secs * Second)"
      "fst (fw_take limit (secs * Second) (now w) s) \<longleftrightarrow> 1 \<le> limit"
    using None assms(3) by (auto simp: fw_take_def kv_live_def split: option.splits if_splits)
  with w1 w2 assms(5) show ?thesis by (simp add: auth_rate_script_def)
next
  case (Some e)
  then obtain n d where s: "s = Some (n, d)" "now w < d"
    using assms(3) by (cases s) (auto simp: kv_live_def split: if_splits)
  have "kv_step (INCR key) (now w) (view w) = Some (RInt (n + 1), (view w)(key \<mapsto> (KInt (n + 1), Some d)))"
    using s assms(3) by (simp add: kv_live_def)
  from kv_storeD [OF assms(1) this] obtain w1 where w1: "redis (INCR key) w = (RInt (n + 1), w1)"
      "view w1 = (view w)(key \<mapsto> (KInt (n + 1), Some d))" "now w1 = now w"
    by (cases "redis (INCR key) w") (auto simp: fun_eq_iff)
  have "1 \<le> n" using assms(4) s by (simp add: fw_ok_def)
  with w1 assms(5) s show ?thesis by (auto simp: auth_rate_script_def fw_take_def)
qed

text \<open>One check, when the key is not locked out: the answer and the new entry are the counter's.\<close>

lemma checkRedis_step:
  assumes "kv_store redis now view" "whole_seconds_pos (al_window al)"
    and "view w (auth_rate_key i) = fw_rep s" "fw_ok s"
    and "checkRedis redis al i w = (res, w')"
  shows "now w' = now w \<and>
     (if kv_live (now w) (view w) (lockout_key i) = None
      then (res = None \<longleftrightarrow> fst (fw_take (al_login_limit al) (al_window al) (now w) s)) \<and>
        view w' = (view w)(auth_rate_key i := fw_rep (snd (fw_take (al_login_limit al) (al_window al) (now w) s)))
      else (\<exists>d. res = Some (AccountLocked d)) \<and> view w' = view w)"
proof -
  let ?L = "kv_live (now w) (view w) (lockout_key i)"
  obtain w1 where w1: "redis (EXISTS (lockout_key i)) w =
      (RInt (case ?L of None \<Rightarrow> 0 | Some _ \<Rightarrow> 1), w1)" "view w1 = view w" "now w1 = now w"
    using kv_storeD [OF assms(1), of "EXISTS (lockout_key i)" w]
    by (cases "redis (EXISTS (lockout_key i)) w") auto
  show ?thesis
  proof (cases ?L)
    case None
    obtain reply w2 where r: "auth_rate_script redis (auth_rate_key i) (trunc_seconds (al_window al)) w1 = (reply, w2)"
      by fastforce
    have win: "trunc_seconds (al_window al) * Second = al_window al" using trunc_whole [OF assms(2)] .
    have p: "whole_seconds_pos (trunc_seconds (al_window al) * Second)" using assms(2) win by simp
    have v: "view w1 (auth_rate_key i) = fw_rep s" using assms(3) w1 by simp
    note S = auth_rate_script_step [OF assms(1) p v assms(4) r, of "al_login_limit al", unfolded win w1(2,3)]
    from S w1 None r assms(5) show ?thesis
      by (auto simp: checkRedis_def check_rate_def)
  next
    case (Some e)
    with w1 assms(5) kv_store_TTL [OF assms(1), of "lockout_key i" w1] show ?thesis
      by (auto simp: checkRedis_def Let_def case_prod_beta)
  qed
qed

text \<open>
  C19. The login limiter is a fixed-window counter.  On a Redis that behaves as documented, a check of an
  identifier that is not locked out is granted exactly when the abstract counter grants it, leaves
  that counter's state behind and changes no other key; a locked-out identifier is refused without
  being counted.
\<close>

theorem login_check_refines_window:
  assumes "kv_store redis now view" "whole_seconds_pos (al_window al)" "al_has_redis al"
    and "view w (auth_rate_key i) = fw_rep s" "fw_ok s" "ul_redis env = redis"
    and "CheckAndIncrement env i (al, w) = (res, al', w')"
  shows "al' = al \<and> now w' = now w \<and>
     (if kv_live (now w) (view w) (lockout_key i) = None
      then (res = None \<longleftrightarrow> fst (fw_take (al_login_limit al) (al_window al) (now w) s)) \<and>
        view w' = (view w)(auth_rate_key i := fw_rep (snd (fw_take (al_login_limit al) (al_window al) (now w) s)))
      else (\<exists>d. res = Some (AccountLocked d)) \<and> view w' = view w)"
proof -
  have "checkRedis redis al i w = (res, w')" "al' = al"
    using assms(3,6,7) by (auto simp: CheckAndIncrement_def split: prod.splits)
  with checkRedis_step [OF assms(1,2,4,5)] show ?thesis by blast
qed

subsection \<open>How many attempts get through\<close>

text \<open>
  A run of checks of one identifier; between two checks the rest of the world moves on.  The result
  lists the time of each check and whether it was granted.
\<close>

fun login_run ::
  "'w redis \<Rightarrow> ('w \<Rightarrow> instant) \<Rightarrow> auth_limiter \<Rightarrow> string \<Rightarrow> ('w \<Rightarrow> 'w) list \<Rightarrow> 'w \<Rightarrow> (instant \<times> bool) list" where
  "login_run redis now al i [] w = []"
| "login_run redis now al i (f # fs) w =
     (let (res, w') = checkRedis redis al i (f w) in
      (now (f w), res = None) # login_run redis now al i fs w')"

definition moves_on :: "('w \<Rightarrow> instant) \<Rightarrow> ('w \<Rightarrow> kv_map) \<Rightarrow> string \<Rightarrow> ('w \<Rightarrow> 'w) \<Rightarrow> bool" where
  "moves_on now view k f \<longleftrightarrow> (\<forall>w. now w \<le> now (f w) \<and> view (f w) k = view w k)"

definition granted_within :: "instant \<Rightarrow> duration \<Rightarrow> (instant \<times> bool) list \<Rightarrow> int" where
  "granted_within T window run = int (length (filter (\<lambda>(t, okay). okay \<and> T \<le> t \<and> t < T + window) run))"

definition window_budget :: "int \<Rightarrow> duration \<Rightarrow> instant \<Rightarrow> instant \<Rightarrow> window_state \<Rightarrow> int" where
  "window_budget limit window T c s =
     (if T + window \<le> c then 0
      else case s of
        None \<Rightarrow> if T \<le> c then limit else 2 * limit
      | Some (n, d) \<Rightarrow>
          if c < d then
            (if T + window \<le> d then max 0 (limit - n)
             else if T < d then max 0 (limit - n) + limit else 2 * limit)
          else if T \<le> c then limit else 2 * limit)"

lemma window_budget_later:
  "c \<le> t \<Longrightarrow> 0 \<le> limit \<Longrightarrow> window_budget limit window T t s \<le> window_budget limit window T c s"
  by (auto simp: window_budget_def split: option.splits)

lemma window_budget_take:
  assumes "0 \<le> limit" "0 < window"
  shows "(if fst (fw_take limit window t s) \<and> T \<le> t \<and> t < T + window then 1 else 0) +
     window_budget limit window T t (snd (fw_take limit window t s)) \<le> window_budget limit window T t s"
  using assms by (auto simp: window_budget_def fw_take_def split: option.splits)

lemma window_budget_le:
  "fw_ok s \<Longrightarrow> 0 \<le> limit \<Longrightarrow> window_budget limit window T c s \<le> 2 * limit"
  by (auto simp: window_budget_def fw_ok_def split: option.splits)

lemma login_run_budget:
  assumes "kv_store redis now view" "whole_seconds_pos (al_window al)" "0 \<le> al_login_limit al"
    and "\<forall>f \<in> set fs. moves_on now view (auth_rate_key i) f"
  shows "view w (auth_rate_key i) = fw_rep s \<Longrightarrow> fw_ok s \<Longrightarrow>
     granted_within T (al_window al) (login_run redis now al i fs w)
       \<le> window_budget (al_login_limit al) (al_window al) T (now w) s"
  using assms(4)
proof (induction fs arbitrary: w s)
  case Nil
  then show ?case using assms(3)
    by (auto simp: granted_within_def window_budget_def split: option.splits)
next
  case (Cons f fs)
  let ?limit = "al_login_limit al" and ?window = "al_window al" and ?t = "now (f w)"
  have m: "now w \<le> ?t" "view (f w) (auth_rate_key i) = fw_rep s"
    using Cons.prems by (auto simp: moves_on_def)
  obtain res w' where c: "checkRedis redis al i (f w) = (res, w')" by fastforce
  note S = checkRedis_step [OF assms(1,2) m(2) Cons.prems(2) c]
  define s' where "s' = (if kv_live ?t (view (f w)) (lockout_key i) = None
      then snd (fw_take ?limit ?window ?t s) else s)"
  have s': "view w' (auth_rate_key i) = fw_rep s'" "fw_ok s'" "now w' = ?t"
    using S m(2) Cons.prems(2) fw_take_ok [of s] by (auto simp: s'_def split: if_splits)
  have IH: "granted_within T ?window (login_run redis now al i fs w') \<le> window_budget ?limit ?window T ?t s'"
    using Cons.IH [OF s'(1,2)] Cons.prems(3) s'(3) by simp
  have "(if res = None \<and> T \<le> ?t \<and> ?t < T + ?window then 1 else 0) + window_budget ?limit ?window T ?t s'
      \<le> window_budget ?limit ?window T ?t s"
    using S window_budget_take [OF assms(3), of ?window ?t s T] assms(2)
    by (auto simp: s'_def whole_seconds_pos_def split: if_splits)
  also have "\<dots> \<le> window_budget ?limit ?window T (now w) s"
    by (rule window_budget_later [OF m(1) assms(3)])
  finally show ?case using IH c by (auto simp: granted_within_def)
qed

text \<open>
  The rate of login attempts.  For an identifier without an entry, however the checks are timed and
  whatever else happens in the store, any period as long as the window contains at most twice the
  limit of granted checks; with the settings of the service, ten in any minute, not the five of
  the comment.
\<close>

theorem granted_logins_bounded:
  assumes "kv_store redis now view" "whole_seconds_pos (al_window al)" "0 \<le> al_login_limit al"
    and "\<forall>f \<in> set fs. moves_on now view (auth_rate_key i) f" "view w (auth_rate_key i) = None"
  shows "granted_within T (al_window al) (login_run redis now al i fs w) \<le> 2 * al_login_limit al"
proof -
  have "view w (auth_rate_key i) = fw_rep None" "fw_ok None" using assms(5) by (simp_all add: fw_ok_def)
  from order_trans [OF login_run_budget [OF assms(1-4) this] window_budget_le [OF this(2) assms(3)]]
  show ?thesis .
qed

subsection \<open>The general limiter never forgets a steady client\<close>

fun rl_run ::
  "'w ul_env \<Rightarrow> rate_limiter \<Rightarrow> string \<Rightarrow> ('w \<Rightarrow> 'w) list \<Rightarrow> 'w \<Rightarrow> bool option list" where
  "rl_run env rl key [] w = []"
| "rl_run env rl key (f # fs) w =
     (let (res, w') = checkRateLimit env rl key (f w) in
      map_option fst res # rl_run env rl key fs w')"

lemma checkRateLimit_step:
  assumes "kv_store (ul_redis env) now view" "whole_seconds_pos (rl_window rl)"
    and "kv_live (now w) (view w) key = (if n = 0 then None else Some (KInt n, t))"
  shows "\<exists>rem reset w'. checkRateLimit env rl key w = (Some (n + 1 \<le> rl_limit rl, rem, reset), w') \<and>
     now w' = now w \<and> view w' = (view w)(key \<mapsto> (KInt (n + 1), Some (now w + rl_window rl)))"
proof -
  let ?R = "ul_redis env"
  obtain w1 where w1: "?R (INCR key) w = (RInt (n + 1), w1)"
      "view w1 = (view w)(key \<mapsto> (KInt (n + 1), if n = 0 then None else t))" "now w1 = now w"
    using kv_INCR [OF assms(1,3)] by blast
  define u where "u = (if n = 0 then None else t)"
  have live: "kv_live (now w1) (view w1) key = Some (KInt (n + 1), u)"
    using w1 assms(3) by (auto simp: u_def kv_live_def split: option.splits if_splits)
  have p: "0 < rl_window rl" "rl_window rl mod Second = 0" using assms(2) by (auto simp: whole_seconds_pos_def)
  obtain w2 where w2: "?R (EXPIRE key (rl_window rl)) w1 = (RInt 1, w2)"
      "view w2 = (view w1)(key \<mapsto> (KInt (n + 1), Some (now w1 + rl_window rl)))" "now w2 = now w1"
    using kv_EXPIRE [OF assms(1) live p] by blast
  obtain m w3 where w3: "?R (TTL key) w2 = (RInt m, w3)" "view w3 = view w2" "now w3 = now w2"
    using kv_store_TTL [OF assms(1), of key w2] by (cases "?R (TTL key) w2") auto
  show ?thesis using w1 w2 w3 by (simp add: checkRateLimit_def Let_def)
qed

lemma rl_run_steady:
  assumes "kv_store (ul_redis env) now view" "whole_seconds_pos (rl_window rl)" "0 < n"
    and "\<forall>f \<in> set fs. \<forall>w. now w \<le> now (f w) \<and> now (f w) < now w + rl_window rl \<and>
       view (f w) key = view w key"
  shows "view w key = Some (KInt n, Some (now w + rl_window rl)) \<Longrightarrow>
     rl_run env rl key fs w = map (\<lambda>k. Some (n + int k \<le> rl_limit rl)) [1..<Suc (length fs)]"
  using assms(3,4)
proof (induction fs arbitrary: w n)
  case (Cons f fs)
  have "kv_live (now (f w)) (view (f w)) key = (if n = 0 then None else Some (KInt n, Some (now w + rl_window rl)))"
    using Cons.prems by (auto simp: kv_live_def)
  from checkRateLimit_step [OF assms(1,2) this] obtain rem reset w' where
    c: "checkRateLimit env rl key (f w) = (Some (n + 1 \<le> rl_limit rl, rem, reset), w')"
      "now w' = now (f w)" "view w' = (view (f w))(key \<mapsto> (KInt (n + 1), Some (now (f w) + rl_window rl)))" by blast
  have "rl_run env rl key fs w' = map (\<lambda>k. Some (n + 1 + int k \<le> rl_limit rl)) [1..<Suc (length fs)]"
    by (rule Cons.IH) (use Cons.prems c in auto)
  also have "\<dots> = map (\<lambda>k. Some (n + int k \<le> rl_limit rl)) [2..<Suc (Suc (length fs))]"
    by (rule nth_equalityI) (auto simp del: upt_Suc)
  finally show ?case using c(1) by (simp add: upt_conv_Cons numeral_2_eq_2 del: upt_Suc)
qed simp

text \<open>
  A steady client is locked out for good.  The general limiter extends the expiry of its counter at
  every request, so the counter of a client whose requests are less than a window apart is never
  reset: of its requests exactly the first \<open>limit\<close> are granted, however many follow and however
  long the run lasts.
\<close>

theorem steady_client_locked_out:
  assumes "kv_store (ul_redis env) now view" "whole_seconds_pos (rl_window rl)" "view w key = None"
    and "\<forall>f \<in> set fs. \<forall>w. now w \<le> now (f w) \<and> now (f w) < now w + rl_window rl \<and>
       view (f w) key = view w key"
  shows "rl_run env rl key fs w = map (\<lambda>k. Some (int k \<le> rl_limit rl)) [1..<Suc (length fs)]"
proof (cases fs)
  case (Cons f gs)
  have "kv_live (now (f w)) (view (f w)) key = (if (0::int) = 0 then None else Some (KInt 0, None))"
    using assms(3,4) Cons by (simp add: kv_live_def)
  from checkRateLimit_step [OF assms(1,2) this] obtain rem reset w' where
    c: "checkRateLimit env rl key (f w) = (Some (1 \<le> rl_limit rl, rem, reset), w')"
      "now w' = now (f w)" "view w' key = Some (KInt 1, Some (now w' + rl_window rl))" by auto
  have "rl_run env rl key gs w' = map (\<lambda>k. Some (1 + int k \<le> rl_limit rl)) [1..<Suc (length gs)]"
    by (rule rl_run_steady [OF assms(1,2) _ _ c(3)]) (use assms(4) Cons in auto)
  also have "\<dots> = map (\<lambda>k. Some (int k \<le> rl_limit rl)) [2..<Suc (Suc (length gs))]"
    by (rule nth_equalityI) (auto simp del: upt_Suc)
  finally show ?thesis using c(1) Cons by (simp add: upt_conv_Cons numeral_2_eq_2 del: upt_Suc)
qed simp

subsection \<open>Lockout\<close>

lemma recordFailedRedis_step:
  assumes "kv_store redis now view" "whole_seconds_pos (al_lockout_time al)"
    and "kv_live (now w) (view w) (failed_auth_key i) = (if n = 0 then None else Some (KInt n, Some e))" "0 \<le> n"
    and "recordFailedRedis redis al i w = w'"
  shows "now w' = now w \<and>
     view w' = (view w)
       (failed_auth_key i \<mapsto> (KInt (n + 1), Some (if n = 0 then now w + al_lockout_time al else e)),
        lockout_key i := (if al_lockout_limit al \<le> n + 1
          then Some (KStr ''1'', Some (now w + al_lockout_time al)) else view w (lockout_key i)))"
proof -
  let ?k = "failed_auth_key i"
  obtain w1 where w1: "redis (INCR ?k) w = (RInt (n + 1), w1)"
      "view w1 = (view w)(?k \<mapsto> (KInt (n + 1), if n = 0 then None else Some e))" "now w1 = now w"
    using kv_INCR [OF assms(1,3)] by blast
  define w2 where "w2 = (if n + 1 = 1 then snd (redis (EXPIRE ?k (al_lockout_time al)) w1) else w1)"
  have w2: "view w2 = (view w)(?k \<mapsto> (KInt (n + 1), Some (if n = 0 then now w + al_lockout_time al else e)))"
      "now w2 = now w"
  proof -
    have p: "0 < al_lockout_time al" "al_lockout_time al mod Second = 0"
      using assms(2) by (auto simp: whole_seconds_pos_def)
    have "view w2 = (view w)(?k \<mapsto> (KInt (n + 1), Some (if n = 0 then now w + al_lockout_time al else e))) \<and>
        now w2 = now w"
    proof (cases "n = 0")
      case True
      have l: "kv_live (now w1) (view w1) ?k = Some (KInt 1, None)" using w1 True by simp
      obtain v where "redis (EXPIRE ?k (al_lockout_time al)) w1 = (RInt 1, v)"
          "view v = (view w1)(?k \<mapsto> (KInt 1, Some (now w1 + al_lockout_time al)))" "now v = now w1"
        using kv_EXPIRE [OF assms(1) l p] by blast
      with w1 True show ?thesis by (simp add: w2_def)
    qed (use w1 in \<open>simp add: w2_def\<close>)
    then show "view w2 = (view w)(?k \<mapsto> (KInt (n + 1), Some (if n = 0 then now w + al_lockout_time al else e)))"
      "now w2 = now w" by blast+
  qed
  have r: "w' = (if al_lockout_limit al \<le> n + 1
      then snd (redis (SETEX (lockout_key i) ''1'' (al_lockout_time al)) w2) else w2)"
    unfolding assms(5) [symmetric] w2_def recordFailedRedis_def w1(1) by (simp add: Let_def)
  have "kv_step (SETEX (lockout_key i) ''1'' (al_lockout_time al)) (now w2) (view w2) =
      Some (RStatus, (view w2)(lockout_key i \<mapsto> (KStr ''1'', Some (now w2 + al_lockout_time al))))"
    using assms(2) by (simp add: whole_seconds_pos_def)
  from kv_storeD [OF assms(1) this] w2 r show ?thesis by auto
qed

text \<open>
  The lockout.  After the failure that reaches the limit, an authentication request of that identifier
  is refused for the whole lockout time: the handler is not called, whatever it would do, and no
  counter moves.  A failure below the limit leaves the lockout entry alone.
\<close>

theorem lockout_engages:
  assumes "kv_store (ul_redis env) now view" "whole_seconds_pos (al_lockout_time al)" "al_has_redis al"
    and "kv_live (now w) (view w) (failed_auth_key (getIdentifier r)) = (if n = 0 then None else Some (KInt n, Some e))"
    and "0 \<le> n" "RecordFailedAttempt env (getIdentifier r) (al, w) = (al', w1)"
  shows "al' = al \<and>
     (n + 1 < al_lockout_limit al \<longrightarrow>
        view w1 (lockout_key (getIdentifier r)) = view w (lockout_key (getIdentifier r))) \<and>
     (al_lockout_limit al \<le> n + 1 \<and> isAuthEndpoint (hq_path r) \<and>
      now w2 < now w + al_lockout_time al \<and>
      view w2 (lockout_key (getIdentifier r)) = view w1 (lockout_key (getIdentifier r)) \<longrightarrow>
        (\<exists>msg w3. \<forall>handler. al_Middleware env handler r (al, w2) = (Refused 429 msg, al, w3) \<and>
           view w3 = view w2))"
proof -
  let ?i = "getIdentifier r"
  have w1: "recordFailedRedis (ul_redis env) al ?i w = w1" "al' = al"
    using assms(3,6) by (auto simp: RecordFailedAttempt_def)
  note F = recordFailedRedis_step [OF assms(1,2,4,5) w1(1)]
  have locked: "\<exists>msg w3. \<forall>handler. al_Middleware env handler r (al, w2) = (Refused 429 msg, al, w3) \<and> view w3 = view w2"
    if p: "al_lockout_limit al \<le> n + 1" "isAuthEndpoint (hq_path r)" "now w2 < now w + al_lockout_time al"
      "view w2 (lockout_key ?i) = view w1 (lockout_key ?i)"
  proof -
    have live: "kv_live (now w2) (view w2) (lockout_key ?i) = Some (KStr ''1'', Some (now w + al_lockout_time al))"
      using F p by (simp add: kv_live_def)
    obtain v where v: "ul_redis env (EXISTS (lockout_key ?i)) w2 = (RInt 1, v)" "view v = view w2"
      using kv_storeD [OF assms(1), of "EXISTS (lockout_key ?i)" w2] live
      by (cases "ul_redis env (EXISTS (lockout_key ?i)) w2") auto
    show ?thesis
      using v kv_store_TTL [OF assms(1), of "lockout_key ?i" v] assms(3) p(2)
      by (auto simp: al_Middleware_def CheckAndIncrement_def checkRedis_def Let_def case_prod_beta)
  qed
  show ?thesis using F w1(2) locked by auto
qed

subsection \<open>Who is counted\<close>

text \<open>Login requests that all fail: each granted one is recorded as a failed attempt.\<close>

fun failing_logins ::
  "'w ul_env \<Rightarrow> http_req list \<Rightarrow> auth_limiter \<times> 'w \<Rightarrow> auth_refusal option list" where
  "failing_logins env [] s = []"
| "failing_logins env (r # rs) s =
     (let (res, s1) = CheckAndIncrement env (getIdentifier r) s in
      res # failing_logins env rs (if res = None then RecordFailedAttempt env (getIdentifier r) s1 else s1))"

definition claim_address :: "http_req \<Rightarrow> string \<Rightarrow> http_req" where
  "claim_address r x = r\<lparr>hq_header := (hq_header r)(''CF-Connecting-IP'' := x)\<rparr>"

lemma identifier_of_claim:
  "\<exists>suf. \<forall>x. x \<noteq> [] \<longrightarrow> getIdentifier (claim_address r x) = x @ suf"
proof -
  have "getClientIP (claim_address r x) = x" if "x \<noteq> []" for x
    using that by (simp add: getClientIP_def claim_address_def Let_def)
  moreover have "hq_method (claim_address r x) = hq_method r \<and> hq_form (claim_address r x) = hq_form r" for x
    by (simp add: claim_address_def)
  ultimately show ?thesis
    by (intro exI [of _ "if hq_method r = ''POST'' then (case hq_form r of None \<Rightarrow> []
        | Some f \<Rightarrow> if f ''username'' \<noteq> [] then '':'' @ f ''username''
            else if f ''email'' \<noteq> [] then '':'' @ f ''email'' else []) else []"])
      (auto simp: getIdentifier_def Let_def split: option.splits)
qed

definition unused_identifier :: "kv_map \<Rightarrow> string \<Rightarrow> bool" where
  "unused_identifier m i \<longleftrightarrow>
     m (lockout_key i) = None \<and> m (auth_rate_key i) = None \<and> m (failed_auth_key i) = None"

lemma failing_login_fresh:
  assumes "kv_store (ul_redis env) now view" "whole_seconds_pos (al_window al)"
    and "whole_seconds_pos (al_lockout_time al)" "al_has_redis al" "1 \<le> al_login_limit al"
    and "unused_identifier (view w) i"
  shows "\<exists>w1 w2. CheckAndIncrement env i (al, w) = (None, al, w1) \<and>
     RecordFailedAttempt env i (al, w1) = (al, w2) \<and>
     (\<forall>j. j \<noteq> i \<longrightarrow> unused_identifier (view w) j \<longrightarrow> unused_identifier (view w2) j)"
proof -
  have u: "view w (auth_rate_key i) = fw_rep None" "kv_live (now w) (view w) (lockout_key i) = None"
    using assms(6) by (simp_all add: unused_identifier_def kv_live_def)
  obtain res w1 where c: "checkRedis (ul_redis env) al i w = (res, w1)" by fastforce
  have "fw_ok None" by (simp add: fw_ok_def)
  note S = checkRedis_step [OF assms(1,2) u(1) this c]
  have 1: "res = None" "now w1 = now w"
      "view w1 = (view w)(auth_rate_key i \<mapsto> (KInt 1, Some (now w + al_window al)))"
    using S u(2) assms(5) by (auto simp: fw_take_def)
  have "kv_live (now w1) (view w1) (failed_auth_key i) = (if (0::int) = 0 then None else Some (KInt 0, Some 0))"
    using 1 assms(6) by (simp add: kv_live_def unused_identifier_def)
  from recordFailedRedis_step [OF assms(1,3) this _ refl] 1(3)
  have "\<forall>j. j \<noteq> i \<longrightarrow> unused_identifier (view w) j \<longrightarrow>
      unused_identifier (view (recordFailedRedis (ul_redis env) al i w1)) j"
    by (simp add: unused_identifier_def)
  with c 1(1) assms(4) show ?thesis by (auto simp: CheckAndIncrement_def RecordFailedAttempt_def)
qed

text \<open>
  Limit and lockout are evaded by naming a new address.  The identifier is built from a header the
  client sends, so failed logins that each claim another address are all let through, however
  many there are, for one and the same account.
\<close>

theorem claimed_addresses_evade_limits:
  assumes "kv_store (ul_redis env) now view" "whole_seconds_pos (al_window al)"
    and "whole_seconds_pos (al_lockout_time al)" "al_has_redis al" "1 \<le> al_login_limit al"
    and "distinct xs" "[] \<notin> set xs"
    and "\<forall>x \<in> set xs. unused_identifier (view w) (getIdentifier (claim_address r x))"
  shows "failing_logins env (map (claim_address r) xs) (al, w) = replicate (length xs) None"
  using assms(6-8)
proof (induction xs arbitrary: w)
  case (Cons x xs)
  obtain suf where suf: "\<And>y. y \<noteq> [] \<Longrightarrow> getIdentifier (claim_address r y) = y @ suf"
    using identifier_of_claim [of r] by blast
  have "unused_identifier (view w) (getIdentifier (claim_address r x))" using Cons.prems by simp
  from failing_login_fresh [OF assms(1-5) this] obtain w1 w2 where
    s: "CheckAndIncrement env (getIdentifier (claim_address r x)) (al, w) = (None, al, w1)"
       "RecordFailedAttempt env (getIdentifier (claim_address r x)) (al, w1) = (al, w2)"
       "\<forall>j. j \<noteq> getIdentifier (claim_address r x) \<longrightarrow> unused_identifier (view w) j \<longrightarrow> unused_identifier (view w2) j"
    by blast
  have "unused_identifier (view w2) (getIdentifier (claim_address r y))" if "y \<in> set xs" for y
  proof -
    have "getIdentifier (claim_address r y) \<noteq> getIdentifier (claim_address r x)"
      using that Cons.prems suf by (metis append_same_eq distinct.simps(2) list.set_intros(1) list.set_intros(2))
    with s(3) Cons.prems that show ?thesis by simp
  qed
  with Cons.IH [of w2] Cons.prems s show ?case by simp
qed simp

subsection \<open>Concrete runs\<close>

definition sample_ul_env :: "kv_world ul_env" where
  "sample_ul_env = \<lparr>ul_redis = kv_redis, ul_now = kw_now, ul_local = (\<lambda>k d b w. (True, b, w))\<rparr>"

definition empty_kv :: kv_world where
  "empty_kv = \<lparr>kw_now = 0, kw_map = Map.empty\<rparr>"

lemma sample_ul_store: "kv_store (ul_redis sample_ul_env) kw_now kw_map"
  by (simp add: sample_ul_env_def kv_redis_store)

lemma auth_defaults [simp]:
  "whole_seconds_pos (al_window (NewAuthRateLimiter b))"
  "whole_seconds_pos (al_lockout_time (NewAuthRateLimiter b))"
  "al_has_redis (NewAuthRateLimiter b) = b" "al_login_limit (NewAuthRateLimiter b) = 5"
  by (simp_all add: NewAuthRateLimiter_def whole_seconds_pos_def go_simps)

definition sample_login :: http_req where
  "sample_login = \<lparr>hq_method = ''POST'', hq_path = ''/api/v1/auth/login'', hq_header = (\<lambda>h. []),
     hq_remote_addr = ''10.0.0.1:5000'', hq_form = None\<rparr>"

definition after_seconds :: "int \<Rightarrow> kv_world \<Rightarrow> kv_world" where
  "after_seconds n w = w\<lparr>kw_now := kw_now w + n * Second\<rparr>"

theorem login_check_refines_window_witness:
  "fst (CheckAndIncrement sample_ul_env ''x'' (NewAuthRateLimiter True, empty_kv)) = None"
proof -
  obtain res al' w' where c: "CheckAndIncrement sample_ul_env ''x'' (NewAuthRateLimiter True, empty_kv) = (res, al', w')"
    by (metis surj_pair)
  have v: "kw_map empty_kv (auth_rate_key ''x'') = fw_rep None" "fw_ok None" "al_has_redis (NewAuthRateLimiter True)"
    by (simp_all add: empty_kv_def fw_ok_def)
  from login_check_refines_window [OF sample_ul_store _ v(3,1,2) refl c] c show ?thesis
    by (simp add: empty_kv_def kv_live_def fw_take_def)
qed

theorem granted_logins_bounded_witness:
  "granted_within 30 Minute (login_run kv_redis kw_now (NewAuthRateLimiter True) ''x''
     (replicate 40 (after_seconds 1)) empty_kv) \<le> 10"
proof -
  have m: "\<forall>f \<in> set (replicate 40 (after_seconds 1)). moves_on kw_now kw_map (auth_rate_key ''x'') f"
    by (auto simp: moves_on_def after_seconds_def go_simps)
  have "kw_map empty_kv (auth_rate_key ''x'') = None" "al_window (NewAuthRateLimiter True) = Minute"
    by (simp_all add: empty_kv_def NewAuthRateLimiter_def)
  with granted_logins_bounded [OF kv_redis_store _ _ m, where w = empty_kv and T = 30 and al = "NewAuthRateLimiter True"]
  show ?thesis by (simp add: whole_seconds_pos_def go_simps)
qed

theorem steady_client_locked_out_witness:
  "rl_run sample_ul_env (NewRateLimiter 2 Minute) ''k'' (replicate 4 (after_seconds 30)) empty_kv
     = [Some True, Some True, Some False, Some False]"
proof -
  have "\<forall>f \<in> set (replicate 4 (after_seconds 30)). \<forall>w. kw_now w \<le> kw_now (f w) \<and>
      kw_now (f w) < kw_now w + rl_window (NewRateLimiter 2 Minute) \<and> kw_map (f w) ''k'' = kw_map w ''k''"
    by (auto simp: after_seconds_def NewRateLimiter_def go_simps)
  from steady_client_locked_out [OF sample_ul_store _ _ this, where w = empty_kv]
  show ?thesis
    by (simp add: empty_kv_def NewRateLimiter_def whole_seconds_pos_def go_simps upt_rec)
qed

theorem lockout_engages_witness:
  "\<exists>msg al w. fst (al_Middleware sample_ul_env (\<lambda>r w. ([200], w)) sample_login (al, w)) = Refused 429 msg"
proof -
  let ?i = "getIdentifier sample_login"
  let ?w = "\<lparr>kw_now = 0, kw_map = [failed_auth_key ?i \<mapsto> (KInt 9, Some Hour)]\<rparr>"
  obtain al' w1 where r: "RecordFailedAttempt sample_ul_env ?i (NewAuthRateLimiter True, ?w) = (al', w1)"
    by fastforce
  have l: "kv_live (kw_now ?w) (kw_map ?w) (failed_auth_key ?i) = (if (9::int) = 0 then None else Some (KInt 9, Some Hour))"
    by (simp add: kv_live_def go_simps)
  have e: "isAuthEndpoint (hq_path sample_login)" by code_simp
  have "recordFailedRedis (ul_redis sample_ul_env) (NewAuthRateLimiter True) ?i ?w = w1"
    using r by (auto simp: RecordFailedAttempt_def)
  from recordFailedRedis_step [OF sample_ul_store _ l _ this]
  have n: "kw_now w1 = 0" by (simp only: auth_defaults) simp
  have "al_lockout_limit (NewAuthRateLimiter True) \<le> 9 + 1"
      "kw_now w1 < kw_now ?w + al_lockout_time (NewAuthRateLimiter True)"
    using n by (simp_all add: NewAuthRateLimiter_def go_simps)
  with lockout_engages [OF sample_ul_store _ _ l _ r, of w1] e obtain msg w3 where
    "al_Middleware sample_ul_env (\<lambda>r w. ([200], w)) sample_login (NewAuthRateLimiter True, w1) =
       (Refused 429 msg, NewAuthRateLimiter True, w3)" by auto
  then show ?thesis by (metis fst_conv)
qed

theorem claimed_addresses_evade_limits_witness:
  "failing_logins sample_ul_env (map (claim_address sample_login) [''a'', ''b'', ''c'']) (NewAuthRateLimiter True, empty_kv)
     = [None, None, None]"
  using claimed_addresses_evade_limits [OF sample_ul_store, of "NewAuthRateLimiter True"
      "[''a'', ''b'', ''c'']" empty_kv sample_login]
  by (simp add: unused_identifier_def empty_kv_def)

end
