(* ===== verification/URL_Validator.thy ===== *)
theory URL_Validator
  imports Go_Strings "HOL-Library.Word"
begin

unbundle bit_operations_syntax

text \<open>
  The guard against server-side request forgery of
  \<open>notification-service/internal/security/url_validator.go\<close>: scheme, host, allow-list, resolved
  addresses and port of a webhook URL.  URL and address parsing and the resolver are parameters.
\<close>

subsection \<open>Addresses\<close>

text \<open>
  A \<open>net.IP\<close> in its form of 16 bytes; \<open>To4\<close> recognises the IPv4 addresses among them, and the 4-byte
  form of an address behaves like its 16-byte form.
\<close>

type_synonym ip = "128 word"

definition v4_mapped :: "32 word \<Rightarrow> ip" where
  "v4_mapped a = 0xFFFF00000000 OR ucast a"

definition to4 :: "ip \<Rightarrow> 32 word option" where
  "to4 x = (if drop_bit 32 x = 0xFFFF then Some (ucast x) else None)"

datatype ipnet = Net4 "32 word" nat | Net6 "128 word" nat

text \<open>\<open>Contains\<close> of a network: equal lengths, and equal bytes under the mask.\<close>

definition prefix_mask :: "nat \<Rightarrow> nat \<Rightarrow> 'a::len word" where
  "prefix_mask bits l = push_bit (bits - l) (- 1)"

fun net_contains :: "ipnet \<Rightarrow> ip \<Rightarrow> bool" where
  "net_contains (Net4 n l) x = (case to4 x of
     None \<Rightarrow> False | Some a \<Rightarrow> n AND prefix_mask 32 l = a AND prefix_mask 32 l)"
| "net_contains (Net6 n l) x = (case to4 x of
     Some _ \<Rightarrow> False | None \<Rightarrow> n AND prefix_mask 128 l = x AND prefix_mask 128 l)"

definition byte4 :: "nat \<Rightarrow> 32 word \<Rightarrow> nat" where
  "byte4 i a = unat a div 256 ^ (3 - i) mod 256"

definition byte16 :: "nat \<Rightarrow> ip \<Rightarrow> nat" where
  "byte16 i x = unat x div 256 ^ (15 - i) mod 256"

definition IsLoopback :: "ip \<Rightarrow> bool" where
  "IsLoopback x = (case to4 x of Some a \<Rightarrow> byte4 0 a = 127 | None \<Rightarrow> x = 1)"

definition IsPrivate :: "ip \<Rightarrow> bool" where
  "IsPrivate x = (case to4 x of
     Some a \<Rightarrow> byte4 0 a = 10 \<or> (byte4 0 a = 172 \<and> byte4 1 a AND 0xF0 = 16) \<or>
       (byte4 0 a = 192 \<and> byte4 1 a = 168)
   | None \<Rightarrow> byte16 0 x AND 0xFE = 0xFC)"

definition IsLinkLocalUnicast :: "ip \<Rightarrow> bool" where
  "IsLinkLocalUnicast x = (case to4 x of
     Some a \<Rightarrow> byte4 0 a = 169 \<and> byte4 1 a = 254
   | None \<Rightarrow> byte16 0 x = 0xFE \<and> byte16 1 x AND 0xC0 = 0x80)"

definition IsLinkLocalMulticast :: "ip \<Rightarrow> bool" where
  "IsLinkLocalMulticast x = (case to4 x of
     Some a \<Rightarrow> byte4 0 a = 224 \<and> byte4 1 a = 0 \<and> byte4 2 a = 0
   | None \<Rightarrow> byte16 0 x = 0xFF \<and> byte16 1 x AND 0x0F = 0x02)"

subsection \<open>State\<close>

record url =
  url_scheme :: string
  url_hostname :: string
  url_port :: string

record 'w url_env =
  ue_parse :: "string \<Rightarrow> url option"
  ue_parse_ip :: "string \<Rightarrow> ip option"
  ue_lookup :: "string \<Rightarrow> 'w \<Rightarrow> ip list option \<times> 'w"
  ue_now :: "'w \<Rightarrow> instant"
  ue_sleep :: "duration \<Rightarrow> 'w \<Rightarrow> 'w"

text \<open>The cache entry of a host, and the keys of the allow-list (every value of that map is true).\<close>

record url_validator =
  uv_allowed :: "string list"
  uv_blocked :: "ipnet list"
  uv_allow_http :: bool
  uv_max_redirects :: int
  uv_cache :: "string \<Rightarrow> (ip list \<times> instant) option"
  uv_ttl :: duration

datatype url_error =
    EmptyURL | InvalidURL | InvalidScheme string | EmptyHostname | DangerousHost string
  | HostNotAllowed string | DNSFailed | NoAddresses string | NilAddress | BlockedAddress ip
  | SpecialAddress ip | BlockedPort string

definition ip4 :: "nat \<Rightarrow> nat \<Rightarrow> nat \<Rightarrow> nat \<Rightarrow> 32 word" where
  "ip4 a b c d = word_of_nat (((a * 256 + b) * 256 + c) * 256 + d)"

definition blocked_ranges :: "ipnet list" where
  "blocked_ranges =
     [Net4 (ip4 10 0 0 0) 8, Net4 (ip4 172 16 0 0) 12, Net4 (ip4 192 168 0 0) 16, Net4 (ip4 127 0 0 0) 8,
      Net4 (ip4 169 254 0 0) 16, Net4 (ip4 100 64 0 0) 10, Net4 (ip4 0 0 0 0) 8, Net4 (ip4 224 0 0 0) 4,
      Net4 (ip4 240 0 0 0) 4, Net4 (ip4 255 255 255 255) 32,
      Net6 1 128, Net6 0xFC000000000000000000000000000000 7, Net6 0xFE800000000000000000000000000000 10,
      Net6 0xFF000000000000000000000000000000 8, Net6 0 128, Net6 0x0064FF9B000000000000000000000000 96,
      Net6 0x01000000000000000000000000000000 64, Net6 0x20010000000000000000000000000000 32,
      Net6 0x20010DB8000000000000000000000000 32]"

definition default_hosts :: "string list" where
  "default_hosts =
     [''hooks.slack.com'', ''api.telegram.org'', ''discord.com'', ''discordapp.com'', ''api.discord.com'',
      ''api.pagerduty.com'', ''api.pushover.net'', ''api.twilio.com'', ''api.sendgrid.com'',
      ''api.mailgun.net'', ''api.postmarkapp.com'', ''api.smtp2go.com'', ''events.pagerduty.com'',
      ''ingest.signifyd.com'', ''app.datadoghq.com'', ''api.datadoghq.com'', ''api.opsgenie.com'',
      ''api.victorops.com'', ''api.statuspage.io'', ''webhooks.mongodb-realm.com'',
      ''hooks.zapier.com'', ''webhook.site'']"

definition NewURLValidator :: url_validator where
  "NewURLValidator =
     \<lparr>uv_allowed = default_hosts, uv_blocked = blocked_ranges, uv_allow_http = False,
      uv_max_redirects = 3, uv_cache = Map.empty, uv_ttl = 5 * Minute\<rparr>"

definition AddAllowedHost :: "string \<Rightarrow> url_validator \<Rightarrow> url_validator" where
  "AddAllowedHost host v = v\<lparr>uv_allowed := List.insert (to_lower host) (uv_allowed v)\<rparr>"

definition RemoveAllowedHost :: "string \<Rightarrow> url_validator \<Rightarrow> url_validator" where
  "RemoveAllowedHost host v = v\<lparr>uv_allowed := removeAll (to_lower host) (uv_allowed v)\<rparr>"

definition SetAllowHTTP :: "bool \<Rightarrow> url_validator \<Rightarrow> url_validator" where
  "SetAllowHTTP allow v = v\<lparr>uv_allow_http := allow\<rparr>"

subsection \<open>Checks\<close>

definition validateScheme :: "url_validator \<Rightarrow> url \<Rightarrow> url_error option" where
  "validateScheme v u =
     (let scheme = to_lower (url_scheme u) in
      if scheme \<noteq> ''https'' \<and> (\<not> uv_allow_http v \<or> scheme \<noteq> ''http'') then Some (InvalidScheme scheme)
      else None)"

definition validateIP :: "url_validator \<Rightarrow> ip option \<Rightarrow> url_error option" where
  "validateIP v address = (case address of
     None \<Rightarrow> Some NilAddress
   | Some x \<Rightarrow>
       if \<exists>n \<in> set (uv_blocked v). net_contains n x then Some (BlockedAddress x)
       else if IsLoopback x \<or> IsPrivate x \<or> IsLinkLocalUnicast x \<or> IsLinkLocalMulticast x
       then Some (SpecialAddress x)
       else None)"

definition dangerous_hosts :: "string list" where
  "dangerous_hosts =
     [''localhost'', ''127.0.0.1'', ''0.0.0.0'', ''::1'', ''[::]'', ''metadata.google.internal'',
      ''metadata.google.com'', ''metadata.goog'', ''169.254.169.254'', ''metadata.internal'',
      ''kubernetes.default'', ''kubernetes.default.svc'', ''kubernetes.default.svc.cluster.local'',
      ''kubernetes'']"

definition validateHost :: "'w url_env \<Rightarrow> url_validator \<Rightarrow> string \<Rightarrow> url_error option" where
  "validateHost env v host =
     (if host = [] then Some EmptyHostname
      else if \<exists>d \<in> set dangerous_hosts. host = d \<or> has_suffix host (''.'' @ d) then Some (DangerousHost host)
      else if ue_parse_ip env host \<noteq> None then validateIP v (ue_parse_ip env host)
      else None)"

definition checkAllowlist :: "url_validator \<Rightarrow> string \<Rightarrow> url_error option" where
  "checkAllowlist v host =
     (if uv_allowed v = [] then None
      else if host \<notin> set (uv_allowed v) then
        (if ''www.'' @ host \<notin> set (uv_allowed v) \<and> trim_prefix host ''www.'' \<notin> set (uv_allowed v)
         then Some (HostNotAllowed host) else None)
      else None)"

text \<open>\<open>None\<close> is Go's nil slice: no entry, or one that is too old.\<close>

definition cache_get :: "instant \<Rightarrow> string \<Rightarrow> url_validator \<Rightarrow> ip list option" where
  "cache_get now host v = (case uv_cache v host of
     None \<Rightarrow> None
   | Some (ips, t) \<Rightarrow> if uv_ttl v < now - t then None else Some ips)"

definition cache_set :: "instant \<Rightarrow> string \<Rightarrow> ip list \<Rightarrow> url_validator \<Rightarrow> url_validator" where
  "cache_set now host ips v = v\<lparr>uv_cache := (uv_cache v)(host \<mapsto> (ips, now))\<rparr>"

definition cache_delete :: "string \<Rightarrow> url_validator \<Rightarrow> url_validator" where
  "cache_delete host v = v\<lparr>uv_cache := (uv_cache v)(host := None)\<rparr>"

definition CleanupCache :: "instant \<Rightarrow> url_validator \<Rightarrow> url_validator" where
  "CleanupCache now v = v\<lparr>uv_cache := (\<lambda>h. case uv_cache v h of
     None \<Rightarrow> None | Some (ips, t) \<Rightarrow> if uv_ttl v < now - t then None else Some (ips, t))\<rparr>"

definition resolveDNS ::
  "'w url_env \<Rightarrow> string \<Rightarrow> url_validator \<times> 'w \<Rightarrow> (url_error + ip list) \<times> url_validator \<times> 'w" where
  "resolveDNS env host = (\<lambda>(v, w).
     case cache_get (ue_now env w) host v of
       Some cached \<Rightarrow> (Inr cached, v, w)
     | None \<Rightarrow>
         (case ue_lookup env host w of
            (None, w1) \<Rightarrow> (Inl DNSFailed, v, w1)
          | (Some ips, w1) \<Rightarrow>
              if ips = [] then (Inl (NoAddresses host), v, w1)
              else (Inr ips, cache_set (ue_now env w1) host ips v, w1)))"

definition blocked_ports :: "string list" where
  "blocked_ports =
     [''22'', ''23'', ''25'', ''110'', ''135'', ''139'', ''445'', ''1433'', ''3306'', ''3389'', ''5432'',
      ''5900'', ''6379'', ''8080'', ''8081'', ''9200'', ''11211'', ''27017'']"

definition validatePort :: "url \<Rightarrow> url_error option" where
  "validatePort u =
     (if url_port u = [] then None
      else if url_port u \<in> set blocked_ports then Some (BlockedPort (url_port u)) else None)"

text \<open>The loop over the resolved addresses: the first error ends it.\<close>

fun validate_ips :: "url_validator \<Rightarrow> ip list \<Rightarrow> url_error option" where
  "validate_ips v [] = None"
| "validate_ips v (x # xs) =
     (case validateIP v (Some x) of Some e \<Rightarrow> Some e | None \<Rightarrow> validate_ips v xs)"

definition url_Validate ::
  "'w url_env \<Rightarrow> string \<Rightarrow> url_validator \<times> 'w \<Rightarrow> url_error option \<times> url_validator \<times> 'w" where
  "url_Validate env raw = (\<lambda>(v, w).
     if trim_space raw = [] then (Some EmptyURL, v, w)
     else case ue_parse env raw of
       None \<Rightarrow> (Some InvalidURL, v, w)
     | Some u \<Rightarrow>
         let host = to_lower (url_hostname u) in
         case validateScheme v u of Some e \<Rightarrow> (Some e, v, w)
       | None \<Rightarrow>
         (case validateHost env v host of Some e \<Rightarrow> (Some e, v, w)
       | None \<Rightarrow>
         (case checkAllowlist v host of Some e \<Rightarrow> (Some e, v, w)
       | None \<Rightarrow>
         (case resolveDNS env host (v, w) of
            (Inl e, v1, w1) \<Rightarrow> (Some e, v1, w1)
          | (Inr ips, v1, w1) \<Rightarrow>
              (case validate_ips v1 ips of Some e \<Rightarrow> (Some e, v1, w1)
             | None \<Rightarrow> (validatePort u, v1, w1))))))"

definition ValidateWithDNSRebindingProtection ::
  "'w url_env \<Rightarrow> string \<Rightarrow> url_validator \<times> 'w \<Rightarrow> url_error option \<times> url_validator \<times> 'w" where
  "ValidateWithDNSRebindingProtection env raw s =
     (case url_Validate env raw s of
        (Some e, s1) \<Rightarrow> (Some e, s1)
      | (None, v1, w1) \<Rightarrow>
          let host = (case ue_parse env raw of Some u \<Rightarrow> to_lower (url_hostname u) | None \<Rightarrow> []);
              w2 = ue_sleep env (100 * Millisecond) w1 in
          url_Validate env raw (cache_delete host v1, w2))"

subsection \<open>Networks are intervals\<close>

lemma mask_eq_iff_drop:
  fixes a n :: "'a::len word"
  shows "n AND prefix_mask bits l = a AND prefix_mask bits l \<longleftrightarrow> drop_bit (bits - l) n = drop_bit (bits - l) a"
proof -
  have "n AND push_bit k (- 1) = a AND push_bit k (- 1) \<longleftrightarrow> drop_bit k n = drop_bit k a" for k
  proof
    assume eq: "n AND push_bit k (- 1) = a AND push_bit k (- 1)"
    show "drop_bit k n = drop_bit k a"
    proof (rule bit_word_eqI)
      fix i assume "i < LENGTH('a)"
      have "bit (n AND push_bit k (- 1)) (k + i) = bit (a AND push_bit k (- 1)) (k + i)" using eq by simp
      then show "bit (drop_bit k n) i = bit (drop_bit k a) i"
        by (auto simp: bit_simps dest: bit_imp_le_length)
    qed
  next
    assume a: "drop_bit k n = drop_bit k a"
    show "n AND push_bit k (- 1) = a AND push_bit k (- 1)"
    proof (rule bit_word_eqI)
      fix i assume "i < LENGTH('a)"
      have "bit (drop_bit k n) (i - k) = bit (drop_bit k a) (i - k)" using a by simp
      then show "bit (n AND push_bit k (- 1)) i = bit (a AND push_bit k (- 1)) i"
        by (auto simp: bit_simps)
    qed
  qed
  then show ?thesis by (simp add: prefix_mask_def)
qed

lemma unat_drop_bit_div: "unat (drop_bit k (x::'a::len word)) = unat x div 2 ^ k"
  by (simp add: unat_drop_bit_eq drop_bit_eq_div [of k "unat x"])

lemma drop_eq_iff_div:
  fixes a n :: "'a::len word"
  shows "drop_bit k n = drop_bit k a \<longleftrightarrow> unat n div 2 ^ k = unat a div 2 ^ k"
  by (simp add: word_unat_eq_iff unat_drop_bit_div del: unat_drop_bit_eq)

lemma to4_v4_mapped: "to4 (v4_mapped a) = Some a"
proof -
  have z: "drop_bit 32 (ucast a :: 128 word) = 0"
    by (rule bit_word_eqI) (auto simp: bit_simps dest: bit_imp_le_length)
  have "drop_bit 32 (v4_mapped a) = 0xFFFF"
    by (simp add: v4_mapped_def z) 
  moreover have "ucast (v4_mapped a) = a"
  proof (rule bit_word_eqI)
    fix i assume i: "i < LENGTH(32)"
    have "\<not> bit (0xFFFF00000000 :: 128 word) i"
    proof -
      have "(0xFFFF00000000 :: 128 word) = push_bit 32 0xFFFF" by simp
      then show ?thesis using i by (simp only: bit_push_bit_iff) simp
    qed
    then show "bit (ucast (v4_mapped a) :: 32 word) i = bit a i"
      using i by (simp add: v4_mapped_def bit_simps)
  qed
  ultimately show ?thesis by (simp add: to4_def)
qed

lemma to4_Some: "to4 x = Some a \<longleftrightarrow> x = v4_mapped a"
proof
  assume "to4 x = Some a"
  then have h: "drop_bit 32 x = 0xFFFF" "a = ucast x" by (auto simp: to4_def split: if_splits)
  show "x = v4_mapped a"
  proof (rule bit_word_eqI)
    fix i assume i: "i < LENGTH(128)"
    have d: "bit x (32 + j) = bit (0xFFFF :: 128 word) j" for j
      using h(1) by (metis bit_drop_bit_eq comp_apply)
    have e: "(0xFFFF00000000 :: 128 word) = push_bit 32 0xFFFF" by simp
    show "bit x i = bit (v4_mapped a) i"
    proof (cases "i < 32")
      case True
      then show ?thesis by (simp add: v4_mapped_def h(2) e bit_simps del: push_bit_numeral)
    next
      case False
      then have "i = 32 + (i - 32)" by simp
      with d [of "i - 32"] i False show ?thesis
        by (auto simp: v4_mapped_def h(2) e bit_simps simp del: push_bit_numeral dest: bit_imp_le_length)
    qed
  qed
qed (simp add: to4_v4_mapped)

lemma nat_div_eq_iff: "0 < (d::nat) \<Longrightarrow> n div d = q \<longleftrightarrow> q * d \<le> n \<and> n < (q + 1) * d"
  by (metis Suc_eq_plus1 div_le_mono div_mult_self_is_m div_nat_eqI dividend_less_times_div leD lessI
     less_mult_imp_div_less mult.commute mult_Suc times_div_less_eq_dividend)


lemma net4_contains: "net_contains (Net4 n l) (v4_mapped a) \<longleftrightarrow> unat n div 2 ^ (32 - l) = unat a div 2 ^ (32 - l)"
  by (simp add: to4_v4_mapped mask_eq_iff_drop drop_eq_iff_div del: drop_bit_eq_div)

lemma net6_contains4: "\<not> net_contains (Net6 n l) (v4_mapped a)"
  by (simp add: to4_v4_mapped)

lemma and_shifted_mask: "(n::nat) AND push_bit k (mask j) = n div 2 ^ k mod 2 ^ j * 2 ^ k"
proof -
  have "n AND push_bit k (mask j) = push_bit k (take_bit j (drop_bit k n))"
    by (rule bit_eqI) (auto simp: bit_simps)
  then show ?thesis by (simp add: push_bit_eq_mult take_bit_eq_mod drop_bit_eq_div)
qed

lemma and_F0_byte: "(n::nat) AND 0xF0 = 16 \<longleftrightarrow> n div 16 mod 16 = 1"
  using and_shifted_mask [of n 4 4] by (simp add: mask_eq_exp_minus_1 push_bit_eq_mult)

definition special4 :: "nat \<Rightarrow> bool" where
  "special4 n \<longleftrightarrow> n < 0x1000000 \<or> (0xA000000 \<le> n \<and> n < 0xB000000) \<or> (0x64400000 \<le> n \<and> n < 0x64800000) \<or>
     (0x7F000000 \<le> n \<and> n < 0x80000000) \<or> (0xA9FE0000 \<le> n \<and> n < 0xA9FF0000) \<or>
     (0xAC100000 \<le> n \<and> n < 0xAC200000) \<or> (0xC0A80000 \<le> n \<and> n < 0xC0A90000) \<or> 0xE0000000 \<le> n"

lemma div_eq_const: "0 < (d::nat) \<Longrightarrow> q = n div d \<longleftrightarrow> q * d \<le> n \<and> n < (q + 1) * d"
  by (metis nat_div_eq_iff)

lemma special4_blocked:
  "(\<exists>n \<in> set blocked_ranges. net_contains n (v4_mapped a)) \<longleftrightarrow> special4 (unat a)"
proof -
  have b: "unat a < 2 ^ 32" using unsigned_less [of a] by simp
  have t: "numeral q = n div numeral d \<longleftrightarrow> numeral q * numeral d \<le> n \<and> n < (numeral q + 1) * numeral d"
    for n :: nat and q d by (rule div_eq_const) simp
  have z: "0 = n div numeral d \<longleftrightarrow> n < numeral d" for n :: nat and d
    by (subst div_eq_const) auto
  show ?thesis
    using b unfolding blocked_ranges_def ip4_def special4_def
    by (simp add: net4_contains net6_contains4 t z del: net_contains.simps) linarith
qed

lemma bytes4:
  fixes n :: nat
  assumes "n < 2 ^ 32"
  shows "n div 256 ^ 3 mod 256 = n div 2 ^ 24" and "n div 2 ^ 24 = x \<Longrightarrow> n div 2 ^ 16 mod 256 = y \<Longrightarrow> n div 2 ^ 16 = x * 256 + y"
proof -
  have "n div 2 ^ 24 < 256" using assms by (simp add: less_mult_imp_div_less)
  then show "n div 256 ^ 3 mod 256 = n div 2 ^ 24" by simp
  show "n div 2 ^ 16 = x * 256 + y" if "n div 2 ^ 24 = x" "n div 2 ^ 16 mod 256 = y"
  proof -
    have "n div 2 ^ 16 div 256 = n div 2 ^ 24" by (simp add: div_mult2_eq [symmetric])
    then show ?thesis using that div_mult_mod_eq [of "n div 2 ^ 16" 256] by simp
  qed
qed

lemma special4_predicates:
  assumes "IsLoopback (v4_mapped a) \<or> IsPrivate (v4_mapped a) \<or> IsLinkLocalUnicast (v4_mapped a) \<or>
    IsLinkLocalMulticast (v4_mapped a)"
  shows "special4 (unat a)"
proof -
  let ?n = "unat a" let ?x = "?n div 2 ^ 24" let ?y = "?n div 2 ^ 16 mod 256"
  have b: "?n < 2 ^ 32" using unsigned_less [of a] by simp
  have b0: "byte4 0 a = ?x" using bytes4(1) [OF b] by (simp add: byte4_def)
  have b1: "byte4 1 a = ?y" by (simp add: byte4_def)
  have "?x = 127 \<or> ?x = 10 \<or> (?x = 172 \<and> ?y div 16 mod 16 = 1) \<or> (?x = 192 \<and> ?y = 168) \<or>
      (?x = 169 \<and> ?y = 254) \<or> ?x = 224"
    using assms unfolding IsLoopback_def IsPrivate_def IsLinkLocalUnicast_def IsLinkLocalMulticast_def
      to4_v4_mapped option.case and_F0_byte b0 b1 by blast
  then consider "?x = 127" | "?x = 10" | "?x = 172" "?y div 16 mod 16 = 1" | "?x = 192" "?y = 168"
    | "?x = 169" "?y = 254" | "?x = 224" by blast
  then show ?thesis
  proof cases
    case 3
    have "?n div 2 ^ 16 = 172 * 256 + ?y" by (rule bytes4(2) [OF b 3(1) refl])
    moreover have "16 \<le> ?y \<and> ?y < 32" using 3(2) by (simp, linarith)
    ultimately show ?thesis unfolding special4_def by simp linarith
  next
    case 4
    have "?n div 2 ^ 16 = 192 * 256 + 168" by (rule bytes4(2) [OF b 4])
    then show ?thesis unfolding special4_def by simp linarith
  next
    case 5
    have "?n div 2 ^ 16 = 169 * 256 + 254" by (rule bytes4(2) [OF b 5])
    then show ?thesis unfolding special4_def by simp linarith
  next
    case 1 then show ?thesis unfolding special4_def by simp linarith
  next
    case 2 then show ?thesis unfolding special4_def by simp linarith
  next
    case 6 then show ?thesis unfolding special4_def by simp linarith
  qed
qed

lemma validateIP_exact4:
  "validateIP NewURLValidator (Some (v4_mapped a)) = None \<longleftrightarrow> \<not> special4 (unat a)"
  using special4_blocked [of a] special4_predicates [of a]
  by (auto simp: validateIP_def NewURLValidator_def)


lemma net4_contains6: "to4 x = None \<Longrightarrow> \<not> net_contains (Net4 n l) x"
  by simp

lemma net6_contains: "to4 x = None \<Longrightarrow> net_contains (Net6 n l) x \<longleftrightarrow> unat n div 2 ^ (128 - l) = unat x div 2 ^ (128 - l)"
  by (simp add: mask_eq_iff_drop drop_eq_iff_div del: drop_bit_eq_div)

definition special6 :: "nat \<Rightarrow> bool" where
  "special6 n \<longleftrightarrow> n \<le> 1 \<or> n div 2 ^ 121 = 0x7E \<or> n div 2 ^ 118 = 0x3FA \<or> n div 2 ^ 120 = 0xFF \<or>
     n div 2 ^ 32 = 0x0064FF9B0000000000000000 \<or> n div 2 ^ 64 = 0x0100000000000000 \<or>
     n div 2 ^ 96 = 0x20010000 \<or> n div 2 ^ 96 = 0x20010DB8"

lemma special6_blocked:
  assumes "to4 x = None"
  shows "(\<exists>n \<in> set blocked_ranges. net_contains n x) \<longleftrightarrow> special6 (unat x)"
  unfolding blocked_ranges_def special6_def
  by (simp add: net4_contains6 [OF assms] net6_contains [OF assms] le_Suc_eq eq_commute [of _ "_ div _"] del: net_contains.simps) auto


lemma special6_predicates:
  assumes "to4 x = None" and "IsLoopback x \<or> IsPrivate x \<or> IsLinkLocalUnicast x \<or> IsLinkLocalMulticast x"
  shows "special6 (unat x)"
proof -
  let ?n = "unat x" let ?h = "?n div 2 ^ 120" let ?m = "?n div 2 ^ 112 mod 256"
  have "?n < 2 ^ 128" using unsigned_less [of x] by simp
  then have h: "?h < 256" by (simp add: less_mult_imp_div_less)
  have b0: "byte16 0 x = ?h" using h by (simp add: byte16_def)
  have b1: "byte16 (Suc 0) x = ?m" by (simp add: byte16_def)
  have fe: "?h AND 0xFE = ?h div 2 mod 128 * 2"
    using and_shifted_mask [of ?h 1 7] by (simp add: mask_eq_exp_minus_1 push_bit_eq_mult)
  have c0: "?m AND 0xC0 = ?m div 64 mod 4 * 64"
    using and_shifted_mask [of ?m 6 2] by (simp add: mask_eq_exp_minus_1 push_bit_eq_mult)
  consider "x = 1" | "?h AND 0xFE = 0xFC" | "?h = 0xFE" "?m AND 0xC0 = 0x80" | "?h = 0xFF"
    using assms by (auto simp: IsLoopback_def IsPrivate_def IsLinkLocalUnicast_def IsLinkLocalMulticast_def b0 b1)
  then show ?thesis
  proof cases
    case 1 then show ?thesis by (simp add: special6_def)
  next
    case 2
    then have "?h div 2 mod 128 = 0x7E" by (simp only: fe)
    then have "?h div 2 = 0x7E" using h by simp
    then have "?n div 2 ^ 121 = 0x7E" by (simp add: div_mult2_eq [symmetric])
    then show ?thesis by (simp only: special6_def simp_thms)
  next
    case 3
    have "?m div 64 mod 4 = 2" using 3(2) c0 by simp
    then have "?m div 64 = 2" by simp
    moreover have "?n div 2 ^ 112 = 0xFE * 256 + ?m"
    proof -
      have "?n div 2 ^ 112 div 256 = ?h" by (simp add: div_mult2_eq [symmetric])
      then show ?thesis using 3(1) div_mult_mod_eq [of "?n div 2 ^ 112" 256] by simp
    qed
    ultimately have "?n div 2 ^ 112 div 64 = 0x3FA" by simp
    then have "?n div 2 ^ 118 = 0x3FA" by (simp add: div_mult2_eq [symmetric])
    then show ?thesis by (simp only: special6_def simp_thms)
  next
    case 4 then show ?thesis by (simp only: special6_def simp_thms)
  qed
qed

lemma validateIP_exact6:
  "to4 x = None \<Longrightarrow> validateIP NewURLValidator (Some x) = None \<longleftrightarrow> \<not> special6 (unat x)"
  using special6_blocked [of x] special6_predicates [of x]
  by (auto simp: validateIP_def NewURLValidator_def)

text \<open>The addresses no webhook may reach.\<close>

definition special :: "ip \<Rightarrow> bool" where
  "special x = (case to4 x of Some a \<Rightarrow> special4 (unat a) | None \<Rightarrow> special6 (unat x))"

lemma validateIP_special: "validateIP NewURLValidator (Some x) = None \<longleftrightarrow> \<not> special x"
  using validateIP_exact6 [of x] validateIP_exact4
  by (auto simp: special_def to4_Some split: option.splits)

text \<open>
  C20. The address check of a new validator, for every 128-bit address: it passes exactly those outside
  the intervals of \<open>special4\<close> (for IPv4 and its mapped form) and \<open>special6\<close>, so the masks, the byte
  tests and their order add up to plain address ranges, and the last byte tests never add an address.
\<close>
theorem validateIP_exact:
  "validateIP NewURLValidator (Some x) = None \<longleftrightarrow> \<not> special x"
  by (rule validateIP_special)

text \<open>The 6to4 address of an IPv4 address is outside every blocked range.\<close>

definition sixtofour :: "32 word \<Rightarrow> ip" where
  "sixtofour a = word_of_nat (0x2002 * 2 ^ 112 + unat a * 2 ^ 80)"

lemma sixtofour_passes: "validateIP NewURLValidator (Some (sixtofour a)) = None"
proof -
  have b: "unat a < 2 ^ 32" using unsigned_less [of a] by simp
  have u: "unat (sixtofour a) = 0x2002 * 2 ^ 112 + unat a * 2 ^ 80"
    unfolding sixtofour_def unat_of_nat using b by simp
  have d: "(0x2002 * 2 ^ 112 + unat a * 2 ^ 80) div 2 ^ 32 = 0x2002 * 2 ^ 80 + unat a * 2 ^ 48"
    "(0x2002 * 2 ^ 112 + unat a * 2 ^ 80) div 2 ^ 64 = 0x2002 * 2 ^ 48 + unat a * 2 ^ 16" by simp_all
  have n: "to4 (sixtofour a) = None"
    using d(1) by (simp add: to4_def word_unat_eq_iff unat_drop_bit_div u del: unat_drop_bit_eq)
  have "\<not> special6 (unat (sixtofour a))"
    using b by (simp add: special6_def u div_eq_const  eq_commute [of "_ div _"])
  then show ?thesis using n by (simp add: validateIP_exact6)
qed

lemma validate_ips_sound: "validate_ips v xs = None \<Longrightarrow> x \<in> set xs \<Longrightarrow> validateIP v (Some x) = None"
  by (induction xs) (auto split: option.splits)


lemma zero_padded_port_passes:
  "list_all (\<lambda>p. validatePort (u\<lparr>url_port := ''0'' @ p\<rparr>) = None) blocked_ports"
  by (simp add: blocked_ports_def validatePort_def)

subsection \<open>Accepted URLs\<close>

text \<open>
  The validators a program can hold: a new one, after configuration calls, validations and clean-ups in
  any order.
\<close>

inductive validator_reachable :: "'w url_env \<Rightarrow> url_validator \<Rightarrow> bool" for env where
  fresh: "validator_reachable env NewURLValidator"
| add: "validator_reachable env v \<Longrightarrow> validator_reachable env (AddAllowedHost h v)"
| remove: "validator_reachable env v \<Longrightarrow> validator_reachable env (RemoveAllowedHost h v)"
| http: "validator_reachable env v \<Longrightarrow> validator_reachable env (SetAllowHTTP b v)"
| validated: "validator_reachable env v \<Longrightarrow> url_Validate env raw (v, w) = (r, v', w') \<Longrightarrow> validator_reachable env v'"
| forgotten: "validator_reachable env v \<Longrightarrow> validator_reachable env (cache_delete h v)"
| cleaned: "validator_reachable env v \<Longrightarrow> validator_reachable env (CleanupCache now v)"

definition validator_ok :: "url_validator \<Rightarrow> bool" where
  "validator_ok v \<longleftrightarrow> uv_blocked v = blocked_ranges \<and> (\<forall>h ips t. uv_cache v h = Some (ips, t) \<longrightarrow> ips \<noteq> [])"

lemma resolveDNS_cases:
  assumes "resolveDNS env host (v, w) = (r, v', w')"
  obtains (cached) t ips where "r = Inr ips" "v' = v" "w' = w" "uv_cache v host = Some (ips, t)"
      "ue_now env w - t \<le> uv_ttl v"
  | (failed) e where "r = Inl e" "v' = v"
  | (looked) ips where "r = Inr ips" "ips \<noteq> []" "ue_lookup env host w = (Some ips, w')"
      "v' = cache_set (ue_now env w') host ips v"
  using assms unfolding resolveDNS_def
  by (auto simp: cache_get_def split: option.splits prod.splits if_splits)

lemma url_Validate_state:
  assumes "url_Validate env raw (v, w) = (r, v', w')"
  obtains "v' = v" | host ips t where "v' = cache_set t host ips v" "ips \<noteq> []"
proof -
  have "v' = v \<or> (\<exists>host ips t. v' = cache_set t host ips v \<and> ips \<noteq> [])"
    using assms unfolding url_Validate_def
    by (auto simp: Let_def split: option.splits if_splits sum.splits prod.splits elim!: resolveDNS_cases)
  then show thesis using that by blast
qed

lemma validator_ok_reachable: "validator_reachable env v \<Longrightarrow> validator_ok v"
proof (induction rule: validator_reachable.induct)
  case (validated v raw w r v' w')
  from validated.hyps(2) show ?case
    by (rule url_Validate_state) (use validated.IH in \<open>auto simp: validator_ok_def cache_set_def\<close>)
next
  case (cleaned v now)
  then show ?case by (fastforce simp: validator_ok_def CleanupCache_def split: option.splits if_splits)
qed (auto simp: validator_ok_def NewURLValidator_def AddAllowedHost_def RemoveAllowedHost_def SetAllowHTTP_def
    cache_delete_def split: if_splits)

text \<open>
  C21. A URL that \<open>Validate\<close> accepts, on a validator in any reachable state, names a host on the
  allow-list (or one with its \<open>www.\<close> prefix added or removed; any host once the list is empty) that is
  none of the dangerous names, by https or, where it was enabled, http, on a port that is not blocked; it
  has at least one address, every one of its addresses lies outside the blocked ranges, and the
  addresses are the answer of a lookup made now or at most the cache's lifetime ago.
\<close>
theorem url_Validate_sound:
  assumes "validator_reachable env v" and "url_Validate env raw (v, w) = (None, v', w')"
  shows "\<exists>u host ips. ue_parse env raw = Some u \<and> host = to_lower (url_hostname u) \<and>
    (to_lower (url_scheme u) = ''https'' \<or> uv_allow_http v \<and> to_lower (url_scheme u) = ''http'') \<and>
    host \<noteq> [] \<and> host \<notin> set dangerous_hosts \<and>
    (uv_allowed v = [] \<or> host \<in> set (uv_allowed v) \<or> ''www.'' @ host \<in> set (uv_allowed v) \<or>
     trim_prefix host ''www.'' \<in> set (uv_allowed v)) \<and>
    ips \<noteq> [] \<and> list_all (\<lambda>x. \<not> special x) ips \<and> url_port u \<notin> set blocked_ports \<and>
    (ue_lookup env host w = (Some ips, w') \<or>
     (\<exists>t. uv_cache v host = Some (ips, t) \<and> ue_now env w - t \<le> uv_ttl v))"
proof -
  have ok: "validator_ok v" by (rule validator_ok_reachable [OF assms(1)])
  obtain u where u: "ue_parse env raw = Some u" and s: "validateScheme v u = None"
    and h: "validateHost env v (to_lower (url_hostname u)) = None"
    and a: "checkAllowlist v (to_lower (url_hostname u)) = None"
    and rest: "(case resolveDNS env (to_lower (url_hostname u)) (v, w) of
       (Inl e, v1, w1) \<Rightarrow> (Some e, v1, w1)
     | (Inr ips, v1, w1) \<Rightarrow> (case validate_ips v1 ips of Some e \<Rightarrow> (Some e, v1, w1)
         | None \<Rightarrow> (validatePort u, v1, w1))) = (None, v', w')"
    using assms(2) by (auto simp: url_Validate_def Let_def split: if_splits option.splits)
  obtain ips where r: "resolveDNS env (to_lower (url_hostname u)) (v, w) = (Inr ips, v', w')"
    and i: "validate_ips v' ips = None" and p: "validatePort u = None"
    using rest by (auto split: prod.splits sum.splits option.splits)
  have port: "url_port u \<notin> set blocked_ports"
    using p by (auto simp: validatePort_def blocked_ports_def split: if_splits)
  have b: "uv_blocked v' = blocked_ranges"
    using r ok by (auto simp: validator_ok_def cache_set_def elim!: resolveDNS_cases)
  have "\<not> special x" if "x \<in> set ips" for x
  proof -
    have "validateIP v' (Some x) = validateIP NewURLValidator (Some x)"
      by (simp add: validateIP_def b NewURLValidator_def)
    then show ?thesis
      using validate_ips_sound [OF i that] validateIP_special [of x] by simp
  qed
  moreover have "ips \<noteq> [] \<and> (ue_lookup env (to_lower (url_hostname u)) w = (Some ips, w') \<or>
     (\<exists>t. uv_cache v (to_lower (url_hostname u)) = Some (ips, t) \<and> ue_now env w - t \<le> uv_ttl v))"
    using r ok by (auto simp: validator_ok_def elim!: resolveDNS_cases)
  ultimately show ?thesis
    using u s h a port
    by (intro exI [of _ u] exI [of _ "to_lower (url_hostname u)"] exI [of _ ips])
      (auto simp: validateScheme_def validateHost_def checkAllowlist_def Let_def list_all_iff split: if_splits)
qed

definition sample_env :: "unit url_env" where
  "sample_env = \<lparr>ue_parse = (\<lambda>raw. Some \<lparr>url_scheme = ''https'', url_hostname = ''discord.com'', url_port = []\<rparr>),
     ue_parse_ip = (\<lambda>_. None), ue_lookup = (\<lambda>_ w. (Some [v4_mapped (ip4 162 159 128 233)], w)),
     ue_now = (\<lambda>_. 0), ue_sleep = (\<lambda>_ w. w)\<rparr>"

lemma sample_accepts:
  "\<exists>v'. url_Validate sample_env ''https://discord.com'' (NewURLValidator, ()) = (None, v', ())"
proof -
  let ?x = "v4_mapped (ip4 162 159 128 233)"
  have h: "to_lower ''discord.com'' = ''discord.com''" "to_lower ''https'' = ''https''" by code_simp+
  have n: "\<not> special ?x" by (simp add: special_def to4_v4_mapped special4_def ip4_def)
  have v: "validateHost sample_env NewURLValidator ''discord.com'' = None"
    unfolding validateHost_def by (simp add: sample_env_def dangerous_hosts_def has_suffix_def)
  have a: "checkAllowlist NewURLValidator ''discord.com'' = None"
    by (simp add: checkAllowlist_def NewURLValidator_def default_hosts_def)
  have s: "validateScheme NewURLValidator \<lparr>url_scheme = ''https'', url_hostname = ''discord.com'', url_port = []\<rparr> = None"
    by (simp add: validateScheme_def h)
  have r: "resolveDNS sample_env ''discord.com'' (NewURLValidator, ()) =
      (Inr [?x], cache_set 0 ''discord.com'' [?x] NewURLValidator, ())"
    by (simp add: resolveDNS_def cache_get_def sample_env_def) (simp add: NewURLValidator_def)
  have "validateIP (cache_set 0 ''discord.com'' [?x] NewURLValidator) (Some ?x) =
      validateIP NewURLValidator (Some ?x)" by (simp add: validateIP_def cache_set_def)
  then have i: "validate_ips (cache_set 0 ''discord.com'' [?x] NewURLValidator) [?x] = None"
    using n validateIP_special [of ?x] by simp
  have t: "trim_space ''https://discord.com'' \<noteq> []" by code_simp
  have u: "ue_parse sample_env raw = Some \<lparr>url_scheme = ''https'', url_hostname = ''discord.com'', url_port = []\<rparr>" for raw
    by (simp add: sample_env_def)
  show ?thesis
    unfolding url_Validate_def Let_def prod.case u option.case s url.select_convs h v a r sum.case i
    using t by (simp add: validatePort_def)
qed

theorem url_Validate_sound_witness:
  "\<exists>u ips. ue_parse sample_env ''https://discord.com'' = Some u \<and> ips \<noteq> [] \<and> list_all (\<lambda>x. \<not> special x) ips \<and>
     url_port u \<notin> set blocked_ports"
proof -
  obtain v' where "url_Validate sample_env ''https://discord.com'' (NewURLValidator, ()) = (None, v', ())"
    using sample_accepts by blast
  from url_Validate_sound [OF validator_reachable.fresh this] show ?thesis by blast
qed

end
