(* ===== verification/Go_Env.thy ===== *)
theory Go_Env
  imports Go_Time Go_Float "HOL-Library.Word"
begin

text \<open>
  The process environment and the typed readers every service has of it.  \<open>strconv.ParseFloat\<close> and
  \<open>time.ParseDuration\<close> are parameters; \<open>None\<close> is their error.
\<close>

type_synonym env_vars = "string \<Rightarrow> string option"

record env_parsers =
  ep_float :: "string \<Rightarrow> f64 option"
  ep_duration :: "string \<Rightarrow> duration option"

definition Getenv :: "env_vars \<Rightarrow> string \<Rightarrow> string" where
  "Getenv vars key = (case vars key of None \<Rightarrow> [] | Some v \<Rightarrow> v)"

text \<open>\<open>os.Setenv\<close> refuses an empty name, a name with an equals sign, and a zero byte.\<close>

definition setenv_ok :: "string \<Rightarrow> string \<Rightarrow> bool" where
  "setenv_ok key value \<longleftrightarrow> key \<noteq> [] \<and> CHR ''='' \<notin> set key \<and> CHR 0x00 \<notin> set key \<and> CHR 0x00 \<notin> set value"

definition parse_bool :: "string \<Rightarrow> bool option" where
  "parse_bool s =
     (if s \<in> {''1'', ''t'', ''T'', ''TRUE'', ''true'', ''True''} then Some True
      else if s \<in> {''0'', ''f'', ''F'', ''FALSE'', ''false'', ''False''} then Some False
      else None)"

definition getEnv :: "env_vars \<Rightarrow> string \<Rightarrow> string \<Rightarrow> string" where
  "getEnv vars key defaultValue = (let value = Getenv vars key in if value = [] then defaultValue else value)"

definition env_parsed :: "(string \<Rightarrow> 'a option) \<Rightarrow> env_vars \<Rightarrow> string \<Rightarrow> 'a \<Rightarrow> 'a" where
  "env_parsed parse vars key defaultValue =
     (let valueStr = Getenv vars key in
      if valueStr = [] then defaultValue
      else case parse valueStr of None \<Rightarrow> defaultValue | Some value \<Rightarrow> value)"

definition getEnvAsInt :: "env_vars \<Rightarrow> string \<Rightarrow> int \<Rightarrow> int" where
  "getEnvAsInt = env_parsed parse_int10"

definition getEnvAsFloat :: "env_parsers \<Rightarrow> env_vars \<Rightarrow> string \<Rightarrow> f64 \<Rightarrow> f64" where
  "getEnvAsFloat p = env_parsed (ep_float p)"

definition getEnvAsBool :: "env_vars \<Rightarrow> string \<Rightarrow> bool \<Rightarrow> bool" where
  "getEnvAsBool = env_parsed parse_bool"

definition getEnvAsDuration :: "env_parsers \<Rightarrow> env_vars \<Rightarrow> string \<Rightarrow> duration \<Rightarrow> duration" where
  "getEnvAsDuration p = env_parsed (ep_duration p)"

definition getEnvAsSlice :: "env_vars \<Rightarrow> string \<Rightarrow> string list \<Rightarrow> string list" where
  "getEnvAsSlice = env_parsed (\<lambda>s. Some (split_on CHR '','' s))"

lemma env_parsed_cases:
  "env_parsed parse vars key d = d \<or> (\<exists>v. parse (Getenv vars key) = Some v \<and> env_parsed parse vars key d = v)"
  by (auto simp: env_parsed_def Let_def split: option.split)

lemma env_parsed_unset: "vars key = None \<Longrightarrow> env_parsed parse vars key d = d"
  by (simp add: env_parsed_def Getenv_def)

lemma getEnv_unset: "vars key = None \<Longrightarrow> getEnv vars key d = d"
  by (simp add: getEnv_def Getenv_def)

lemmas env_unset = env_parsed_unset getEnv_unset

lemma getEnvAsSlice_ne: "d \<noteq> [] \<Longrightarrow> getEnvAsSlice vars key d \<noteq> []"
  by (simp add: getEnvAsSlice_def env_parsed_def Let_def)

lemma getEnv_ne: "d \<noteq> [] \<Longrightarrow> getEnv vars key d \<noteq> []"
  by (simp add: getEnv_def Let_def)

text \<open>The settings of a \<open>pgxpool\<close> the services write; the two sizes are 32-bit.\<close>

record pool_config =
  pool_dsn :: string
  pool_max_conns :: "32 word"
  pool_min_conns :: "32 word"
  pool_max_lifetime :: duration
  pool_max_idle_time :: duration

end
