(* ===== verification/Logger.thy ===== *)
theory Logger
  imports Go_Env
begin

text \<open>
  The shared logging library, \<open>shared/go/pkg/logger\<close>: the construction of a logger (\<open>logger.go\<close>), the
  values it keeps in a request context (\<open>context.go\<close>) and the gRPC interceptors (\<open>middleware.go\<close>).  The
  library below it, zerolog, is a parameter: which level names parse, and the logger it finds in a context
  that has none.  A logger is its level and the fields it adds to every line; a line is a level, its
  fields and a message.
\<close>

subsection \<open>Construction\<close>

record logger_config =
  lgc_level :: string
  lgc_format :: string
  lgc_output :: string
  lgc_time_format :: string
  lgc_service_name :: string
  lgc_environment :: string
  lgc_enable_caller :: bool
  lgc_caller_skip :: int

definition RFC3339 :: string where "RFC3339 = ''2006-01-02T15:04:05Z07:00''"

definition DefaultLoggerConfig :: logger_config where
  "DefaultLoggerConfig =
     \<lparr>lgc_level = ''info'', lgc_format = ''json'', lgc_output = ''stdout'', lgc_time_format = RFC3339,
      lgc_service_name = ''aipx'', lgc_environment = ''development'', lgc_enable_caller = True, lgc_caller_skip = 0\<rparr>"

definition ProductionLoggerConfig :: "string \<Rightarrow> logger_config" where
  "ProductionLoggerConfig serviceName =
     \<lparr>lgc_level = ''info'', lgc_format = ''json'', lgc_output = ''stdout'', lgc_time_format = RFC3339,
      lgc_service_name = serviceName, lgc_environment = ''production'', lgc_enable_caller = False, lgc_caller_skip = 0\<rparr>"

definition DevelopmentLoggerConfig :: "string \<Rightarrow> logger_config" where
  "DevelopmentLoggerConfig serviceName =
     \<lparr>lgc_level = ''debug'', lgc_format = ''console'', lgc_output = ''stdout'', lgc_time_format = RFC3339,
      lgc_service_name = serviceName, lgc_environment = ''development'', lgc_enable_caller = True, lgc_caller_skip = 0\<rparr>"

datatype log_sink = SinkStdout | SinkStderr | SinkFile string

type_synonym log_fields = "(string \<times> string) list"

text \<open>A level of zerolog is a number from \<open>-1\<close> (trace) to \<open>5\<close> (panic); \<open>7\<close> switches the logger off.\<close>

record zlogger =
  zl_level :: int
  zl_sink :: log_sink
  zl_console :: bool
  zl_fields :: log_fields
  zl_caller :: bool

record logging_lib =
  ll_parse_level :: "string \<Rightarrow> int option"
  ll_file_opens :: "string \<Rightarrow> bool"

text \<open>The package variables the constructor writes: the time format, and the logger of the package \<open>log\<close>.\<close>

record log_globals =
  lg_time_format :: string
  lg_logger :: zlogger

datatype logger_error = InvalidLogLevel string | LogFileFailed string

definition open_sink :: "logging_lib \<Rightarrow> string \<Rightarrow> logger_error + log_sink" where
  "open_sink lib path =
     (if path = ''stdout'' then Inr SinkStdout
      else if path = ''stderr'' then Inr SinkStderr
      else if ll_file_opens lib path then Inr (SinkFile path) else Inl (LogFileFailed path))"

definition field_of :: "string \<Rightarrow> string \<Rightarrow> log_fields" where
  "field_of key value = (if value = [] then [] else [(key, value)])"

definition NewLogger ::
  "logging_lib \<Rightarrow> logger_config option \<Rightarrow> log_globals \<Rightarrow> (logger_error + zlogger \<times> logger_config) \<times> log_globals" where
  "NewLogger lib config g =
     (let c = (case config of None \<Rightarrow> DefaultLoggerConfig | Some c \<Rightarrow> c) in
      case ll_parse_level lib (lgc_level c) of
        None \<Rightarrow> (Inl (InvalidLogLevel (lgc_level c)), g)
      | Some level \<Rightarrow>
          let g1 = g\<lparr>lg_time_format := (if lgc_time_format c \<noteq> [] then lgc_time_format c else RFC3339)\<rparr> in
          (case open_sink lib (lgc_output c) of
             Inl e \<Rightarrow> (Inl e, g1)
           | Inr sink \<Rightarrow>
               (Inr (\<lparr>zl_level = level, zl_sink = sink, zl_console = (lgc_format c = ''console''),
                  zl_fields = field_of ''service'' (lgc_service_name c) @ field_of ''env'' (lgc_environment c),
                  zl_caller = lgc_enable_caller c\<rparr>, c), g1)))"

text \<open>\<open>InitLogger\<close> reads its argument again after the call, so a nil configuration is a panic (\<open>None\<close>).\<close>

definition InitLogger ::
  "logging_lib \<Rightarrow> logger_config option \<Rightarrow> log_globals \<Rightarrow> (logger_error option \<times> log_globals) option" where
  "InitLogger lib config g =
     (case NewLogger lib config g of
        (Inl e, g1) \<Rightarrow> Some (Some e, g1)
      | (Inr (l, _), g1) \<Rightarrow>
          (case config of None \<Rightarrow> None | Some c \<Rightarrow> Some (None, g1\<lparr>lg_logger := l\<rparr>)))"

definition logger_Level :: "int \<Rightarrow> zlogger \<times> logger_config \<Rightarrow> zlogger \<times> logger_config" where
  "logger_Level level l = ((fst l)\<lparr>zl_level := level\<rparr>, snd l)"

definition with_field :: "string \<Rightarrow> string \<Rightarrow> zlogger \<Rightarrow> zlogger" where
  "with_field key value l = l\<lparr>zl_fields := zl_fields l @ [(key, value)]\<rparr>"

text \<open>Debug, info, warn and error are 0 to 3; a line below the level of its logger is not written.\<close>

type_synonym log_line = "int \<times> log_fields \<times> string"

definition emit_line :: "zlogger \<Rightarrow> int \<Rightarrow> log_fields \<Rightarrow> string \<Rightarrow> log_line list" where
  "emit_line l level extra message = (if zl_level l \<le> level then [(level, zl_fields l @ extra, message)] else [])"

subsection \<open>The context\<close>

record log_ctx =
  lx_logger :: "zlogger option"
  lx_values :: "string \<Rightarrow> string option"

text \<open>\<open>fallback\<close> is what \<open>zerolog.Ctx\<close> returns.\<close>

definition FromContext :: "zlogger \<Rightarrow> log_ctx \<Rightarrow> zlogger" where
  "FromContext fallback ctx = (case lx_logger ctx of Some l \<Rightarrow> l | None \<Rightarrow> fallback)"

definition log_WithContext :: "zlogger \<Rightarrow> log_ctx \<Rightarrow> log_ctx" where
  "log_WithContext l ctx = ctx\<lparr>lx_logger := Some l\<rparr>"

definition with_id :: "string \<Rightarrow> zlogger \<Rightarrow> string \<Rightarrow> log_ctx \<Rightarrow> log_ctx" where
  "with_id key fallback value ctx =
     (log_WithContext (with_field key value (FromContext fallback ctx)) ctx)
       \<lparr>lx_values := (lx_values ctx)(key \<mapsto> value)\<rparr>"

definition WithRequestID :: "zlogger \<Rightarrow> string \<Rightarrow> log_ctx \<Rightarrow> log_ctx" where "WithRequestID = with_id ''request_id''"
definition WithUserID :: "zlogger \<Rightarrow> string \<Rightarrow> log_ctx \<Rightarrow> log_ctx" where "WithUserID = with_id ''user_id''"
definition WithTraceID :: "zlogger \<Rightarrow> string \<Rightarrow> log_ctx \<Rightarrow> log_ctx" where "WithTraceID = with_id ''trace_id''"
definition WithSpanID :: "zlogger \<Rightarrow> string \<Rightarrow> log_ctx \<Rightarrow> log_ctx" where "WithSpanID = with_id ''span_id''"

text \<open>The fields come in the order in which the map is iterated over.\<close>

definition WithFields :: "zlogger \<Rightarrow> log_fields \<Rightarrow> log_ctx \<Rightarrow> log_ctx" where
  "WithFields fallback kvs ctx =
     log_WithContext (foldl (\<lambda>l (k, v). with_field k v l) (FromContext fallback ctx) kvs) ctx"

definition ctx_text :: "string \<Rightarrow> log_ctx \<Rightarrow> string" where
  "ctx_text key ctx = (case lx_values ctx key of Some v \<Rightarrow> v | None \<Rightarrow> [])"

definition log_GetRequestID :: "log_ctx \<Rightarrow> string" where "log_GetRequestID = ctx_text ''request_id''"
definition log_GetUserID :: "log_ctx \<Rightarrow> string" where "log_GetUserID = ctx_text ''user_id''"
definition GetTraceID :: "log_ctx \<Rightarrow> string" where "GetTraceID = ctx_text ''trace_id''"
definition GetSpanID :: "log_ctx \<Rightarrow> string" where "GetSpanID = ctx_text ''span_id''"

lemmas id_defs = WithRequestID_def WithUserID_def WithTraceID_def WithSpanID_def
  log_GetRequestID_def log_GetUserID_def GetTraceID_def GetSpanID_def

subsection \<open>Request identifiers\<close>

text \<open>Only the first value of a metadata key is read.\<close>

definition extractMetadata :: "(string \<Rightarrow> string list) \<Rightarrow> string \<Rightarrow> string" where
  "extractMetadata md key = (case md key of [] \<Rightarrow> [] | v # _ \<Rightarrow> v)"

definition id_charset :: string where "id_charset = ''abcdefghijklmnopqrstuvwxyz0123456789''"

text \<open>
  One reading of the clock, in nanoseconds since 1970, for every character.  A remainder of a negative
  reading is an index out of range in Go: \<open>None\<close>.
\<close>

definition randomString :: "instant list \<Rightarrow> string option" where
  "randomString ts =
     (if \<exists>t \<in> set ts. t < 0 \<and> t mod 36 \<noteq> 0 then None
      else Some (map (\<lambda>t. id_charset ! nat (t mod 36)) ts))"

text \<open>\<open>stamp\<close> formats an instant to the second in the local zone; \<open>ts\<close> are the eight readings after \<open>now\<close>.\<close>

definition generateRequestID :: "(instant \<Rightarrow> string) \<Rightarrow> instant \<Rightarrow> instant list \<Rightarrow> string option" where
  "generateRequestID stamp now ts = map_option (\<lambda>r. stamp now @ ''-'' @ r) (randomString ts)"

definition request_id_of :: "(string \<Rightarrow> string list) \<Rightarrow> string \<Rightarrow> string" where
  "request_id_of md fresh =
     (let requestID = extractMetadata md ''x-request-id'' in if requestID = [] then fresh else requestID)"

subsection \<open>The interceptors\<close>

text \<open>
  A handler takes the context and answers with the gRPC code of its error, if any; \<open>fresh\<close> is the
  identifier \<open>generateRequestID\<close> makes.  The lines are those written through the logger of the request.
\<close>

definition unary_logger :: "zlogger \<Rightarrow> string \<Rightarrow> (string \<Rightarrow> string list) \<Rightarrow> string \<Rightarrow> zlogger" where
  "unary_logger l full_method md requestID =
     l\<lparr>zl_fields := zl_fields l @ [(''method'', full_method), (''request_id'', requestID)] @
       field_of ''trace_id'' (extractMetadata md ''x-trace-id'') @
       field_of ''user_id'' (extractMetadata md ''x-user-id'')\<rparr>"

definition completion_level :: "string option \<Rightarrow> int" where
  "completion_level r =
     (case r of None \<Rightarrow> 1 | Some code \<Rightarrow> if code \<in> {''Internal'', ''Unknown'', ''DataLoss''} then 3 else 2)"

definition code_fields :: "string option \<Rightarrow> log_fields" where
  "code_fields r = (case r of None \<Rightarrow> [] | Some code \<Rightarrow> [(''error'', code), (''grpc_code'', code)])"

definition UnaryServerInterceptor ::
  "zlogger \<Rightarrow> string \<Rightarrow> string \<Rightarrow> (string \<Rightarrow> string list) \<Rightarrow> (log_ctx \<Rightarrow> string option) \<Rightarrow> log_ctx \<Rightarrow>
     string option \<times> log_line list" where
  "UnaryServerInterceptor l fresh full_method md handler ctx =
     (let requestID = request_id_of md fresh;
          cl = unary_logger l full_method md requestID;
          ctx1 = (log_WithContext cl ctx)\<lparr>lx_values := (lx_values ctx)(''request_id'' \<mapsto> requestID)\<rparr>;
          r = handler ctx1
      in (r, emit_line cl 1 [] ''gRPC request started'' @
             emit_line cl (completion_level r) (code_fields r) ''gRPC request completed''))"

definition bool_text :: "bool \<Rightarrow> string" where "bool_text b = (if b then ''true'' else ''false'')"

definition StreamServerInterceptor ::
  "zlogger \<Rightarrow> string \<Rightarrow> string \<Rightarrow> bool \<Rightarrow> bool \<Rightarrow> (string \<Rightarrow> string list) \<Rightarrow> (log_ctx \<Rightarrow> string option) \<Rightarrow>
     log_ctx \<Rightarrow> string option \<times> log_line list" where
  "StreamServerInterceptor l fresh full_method from_client from_server md handler ctx =
     (let requestID = request_id_of md fresh;
          cl = l\<lparr>zl_fields := zl_fields l @ [(''method'', full_method), (''request_id'', requestID),
            (''is_client_stream'', bool_text from_client), (''is_server_stream'', bool_text from_server)]\<rparr>;
          r = handler (log_WithContext cl ctx)
      in (r, emit_line cl 1 [] ''gRPC stream started'' @
             (case r of
                None \<Rightarrow> emit_line cl 1 [] ''gRPC stream completed''
              | Some code \<Rightarrow> emit_line cl 3 (code_fields r) ''gRPC stream completed with error'')))"

text \<open>The clients: the context and the outgoing metadata the call is made with.\<close>

definition client_context :: "string \<Rightarrow> log_ctx \<Rightarrow> (string \<times> string) list \<Rightarrow> string \<times> log_ctx \<times> (string \<times> string) list" where
  "client_context fresh ctx outgoing =
     (let known = log_GetRequestID ctx;
          requestID = (if known = [] then fresh else known);
          ctx1 = (if known = [] then ctx\<lparr>lx_values := (lx_values ctx)(''request_id'' \<mapsto> fresh)\<rparr> else ctx)
      in (requestID, ctx1, outgoing @ [(''x-request-id'', requestID)]))"

definition client_interceptor ::
  "string \<Rightarrow> string \<Rightarrow> string \<Rightarrow> zlogger \<Rightarrow> string \<Rightarrow> string \<Rightarrow>
     (log_ctx \<Rightarrow> (string \<times> string) list \<Rightarrow> string option) \<Rightarrow> log_ctx \<Rightarrow> (string \<times> string) list \<Rightarrow>
     string option \<times> log_line list" where
  "client_interceptor started failed completed l fresh meth invoker ctx outgoing =
     (let (requestID, ctx1, outgoing1) = client_context fresh ctx outgoing;
          cl = l\<lparr>zl_fields := zl_fields l @ [(''method'', meth), (''request_id'', requestID)]\<rparr>;
          r = invoker ctx1 outgoing1
      in (r, emit_line cl 0 [] started @
             (case r of
                Some code \<Rightarrow> emit_line cl 3 (code_fields r) failed
              | None \<Rightarrow> if completed = [] then [] else emit_line cl 0 [] completed)))"

definition UnaryClientInterceptor where
  "UnaryClientInterceptor =
     client_interceptor ''gRPC client request started'' ''gRPC client request failed'' ''gRPC client request completed''"

definition StreamClientInterceptor where
  "StreamClientInterceptor =
     client_interceptor ''gRPC client stream started'' ''gRPC client stream creation failed'' []"

subsection \<open>Properties\<close>

text \<open>A child logger keeps the level of its parent and only appends to its fields.\<close>

lemma with_id_keeps:
  "zl_level (FromContext f (with_id key f v ctx)) = zl_level (FromContext f ctx)"
  "zl_fields (FromContext f (with_id key f v ctx)) = zl_fields (FromContext f ctx) @ [(key, v)]"
  "ctx_text key (with_id key f v ctx) = v"
  "key' \<noteq> key \<Longrightarrow> ctx_text key' (with_id key f v ctx) = ctx_text key' ctx"
  by (simp_all add: with_id_def log_WithContext_def FromContext_def with_field_def ctx_text_def)

text \<open>
  A context without a logger gets a dead one.  Where \<open>zerolog.Ctx\<close> falls back to its disabled logger, the
  identifiers put into a context also put that logger there, and nothing is ever written through it,
  whatever the global logger is.
\<close>

theorem fallback_loses_lines:
  assumes "zl_level fallback = 7" "level \<le> 5" "lx_logger ctx = None"
  shows "emit_line (FromContext fallback (WithUserID fallback u (WithRequestID fallback r ctx))) level extra message = []"
  using assms by (simp add: id_defs emit_line_def with_id_keeps) (simp add: FromContext_def)

text \<open>
  The identifier of a request reaches unary handlers and not stream handlers: those find what the context
  held before.
\<close>

theorem stream_context_lacks_request_id:
  "\<exists>c. fst (UnaryServerInterceptor l fresh m md h ctx) = h c \<and> log_GetRequestID c = request_id_of md fresh"
  "\<exists>c. fst (StreamServerInterceptor l fresh m a b md h ctx) = h c \<and> log_GetRequestID c = log_GetRequestID ctx"
proof -
  let ?id = "request_id_of md fresh"
  let ?c = "(log_WithContext (unary_logger l m md ?id) ctx)\<lparr>lx_values := (lx_values ctx)(''request_id'' \<mapsto> ?id)\<rparr>"
  have "fst (UnaryServerInterceptor l fresh m md h ctx) = h ?c" "log_GetRequestID ?c = ?id"
    by (simp_all add: UnaryServerInterceptor_def Let_def id_defs ctx_text_def)
  then show "\<exists>c. fst (UnaryServerInterceptor l fresh m md h ctx) = h c \<and> log_GetRequestID c = ?id" by blast
next
  have "log_GetRequestID (log_WithContext cl ctx) = log_GetRequestID ctx" for cl
    by (simp add: id_defs ctx_text_def log_WithContext_def)
  moreover have "\<exists>cl. fst (StreamServerInterceptor l fresh m a b md h ctx) = h (log_WithContext cl ctx)"
    unfolding StreamServerInterceptor_def Let_def fst_conv by (rule exI, rule refl)
  ultimately show "\<exists>c. fst (StreamServerInterceptor l fresh m a b md h ctx) = h c \<and> log_GetRequestID c = log_GetRequestID ctx"
    by blast
qed

text \<open>
  Identifiers collide.  Two requests of the same second whose clock readings agree modulo 36 get the same
  one; with a clock that stands still during the eight readings there are at most 36 in a second.
\<close>

theorem request_ids_collide:
  assumes "stamp now = stamp now'" "map (\<lambda>t. t mod 36) ts = map (\<lambda>t. t mod 36) ts'"
    and "\<forall>t \<in> set ts \<union> set ts'. 0 \<le> t"
  shows "generateRequestID stamp now ts = generateRequestID stamp now' ts' \<and> generateRequestID stamp now ts \<noteq> None"
proof -
  have "map (\<lambda>t. id_charset ! nat (t mod 36)) ts = map (\<lambda>i. id_charset ! nat i) (map (\<lambda>t. t mod 36) ts)" for ts
    by simp
  then have "map (\<lambda>t. id_charset ! nat (t mod 36)) ts = map (\<lambda>t. id_charset ! nat (t mod 36)) ts'"
    using assms(2) by metis
  moreover have "\<forall>t \<in> set ts. \<not> t < 0" "\<forall>t \<in> set ts'. \<not> t < 0"
    using assms(3) by (auto simp: not_less)
  ultimately show ?thesis using assms(1) by (auto simp: generateRequestID_def randomString_def)
qed

lemma coarse_ids: "\<exists>c. randomString (replicate 8 t) = Some (replicate 8 c) \<or> randomString (replicate 8 t) = None"
  by (auto simp: randomString_def map_replicate_const)

theorem request_ids_collide_witness:
  "generateRequestID (\<lambda>t. ''20250101120000'') 0 [1, 2] = generateRequestID (\<lambda>t. ''20250101120000'') 5 [37, 74]"
  using request_ids_collide [of "\<lambda>t. ''20250101120000''" 0 5 "[1, 2]" "[37, 74]"] by simp

text \<open>The level of the closing line: only three codes are errors, every other failure is a warning.\<close>

lemma completion_levels:
  "completion_level r = 3 \<longleftrightarrow> r \<in> Some ` {''Internal'', ''Unknown'', ''DataLoss''}"
  "completion_level r = 1 \<longleftrightarrow> r = None"
  by (auto simp: completion_level_def split: option.split)

text \<open>A logger that could be built writes no line below the level of its configuration.\<close>

lemma NewLogger_level:
  "NewLogger lib (Some c) g = (Inr (l, c'), g') \<Longrightarrow> c' = c \<and> ll_parse_level lib (lgc_level c) = Some (zl_level l)"
  by (auto simp: NewLogger_def Let_def split: option.splits sum.splits)

text \<open>The two ways the construction fails.\<close>

definition logger_ok :: "logging_lib \<Rightarrow> logger_config \<Rightarrow> bool" where
  "logger_ok lib c \<longleftrightarrow> ll_parse_level lib (lgc_level c) \<noteq> None \<and>
     (lgc_output c \<in> {''stdout'', ''stderr''} \<or> ll_file_opens lib (lgc_output c))"

lemma InitLogger_exact:
  "if logger_ok lib c then \<exists>g'. InitLogger lib (Some c) g = Some (None, g')
   else \<exists>e g'. InitLogger lib (Some c) g = Some (Some e, g')"
  by (auto simp: logger_ok_def InitLogger_def NewLogger_def open_sink_def Let_def split: option.split)

theorem InitLogger_keeps_global_on_error:
  assumes "InitLogger lib config g = Some (Some e, g')"
  shows "lg_logger g' = lg_logger g"
  using assms by (auto simp: InitLogger_def NewLogger_def Let_def split: option.splits sum.splits prod.splits)

end
