(* ===== verification/Notification.thy ===== *)
theory Notification
  imports Go_Float Go_Http Go_Strings
begin

text \<open>
  What the notification channels share: the notification and the channel configuration of
  \<open>notification-service/internal/channels/channel.go\<close>, the retry loop that every channel and the
  consumer run, and the helpers the channels repeat.  Strings are UTF-8 byte lists.
\<close>

subsection \<open>Data\<close>

text \<open>
  The values of a \<open>map[string]interface{}\<close>: those JSON decodes to, and Go's \<open>[]string\<close>, which only a
  Go caller can put there.
\<close>

datatype any_value =
    VNull | VBool bool | VNumber f64 | VString string | VList "any_value list"
  | VObject "(string \<times> any_value) list" | VStrings "string list"

type_synonym any_map = "string \<Rightarrow> any_value option"

type_synonym priority = int

abbreviation (input) "PriorityLow \<equiv> 0 :: priority"
abbreviation (input) "PriorityNormal \<equiv> 1 :: priority"
abbreviation (input) "PriorityHigh \<equiv> 2 :: priority"
abbreviation (input) "PriorityCritical \<equiv> 3 :: priority"

definition priority_String :: "priority \<Rightarrow> string" where
  "priority_String p =
     (if p = PriorityLow then ''low'' else if p = PriorityNormal then ''normal''
      else if p = PriorityHigh then ''high'' else if p = PriorityCritical then ''critical''
      else ''unknown'')"

record notification =
  nt_user_id :: string
  nt_event_type :: string
  nt_title :: string
  nt_message :: string
  nt_data :: any_map
  nt_priority :: priority
  nt_timestamp :: instant
  nt_retry_count :: int
  nt_max_retries :: int
  nt_retry_interval :: duration

definition NewNotification :: "instant \<Rightarrow> string \<Rightarrow> string \<Rightarrow> string \<Rightarrow> string \<Rightarrow> notification" where
  "NewNotification now user event title message =
     \<lparr>nt_user_id = user, nt_event_type = event, nt_title = title, nt_message = message,
      nt_data = Map.empty, nt_priority = PriorityNormal, nt_timestamp = now, nt_retry_count = 0,
      nt_max_retries = 3, nt_retry_interval = 5 * Second\<rparr>"

record rate_limit_config =
  rl_enabled :: bool
  rl_max_per_minute :: int
  rl_max_per_hour :: int
  rl_burst_size :: int
  rl_cleanup_timeout :: duration

record channel_config =
  cc_enabled :: bool
  cc_timeout :: duration
  cc_retry_attempts :: int
  cc_retry_interval :: duration
  cc_rate_limit :: rate_limit_config

definition DefaultChannelConfig :: channel_config where
  "DefaultChannelConfig =
     \<lparr>cc_enabled = True, cc_timeout = 10 * Second, cc_retry_attempts = 3, cc_retry_interval = 5 * Second,
      cc_rate_limit = \<lparr>rl_enabled = True, rl_max_per_minute = 60, rl_max_per_hour = 1000,
        rl_burst_size = 10, rl_cleanup_timeout = Hour\<rparr>\<rparr>"

datatype smtp_command =
    TlsDial string | TlsClient string | PlainDial string | Hello string | StartTLS string
  | Auth string string string | MailFrom string | RcptTo string | DataStart | DataWrite string
  | DataClose | Quit

datatype channel_error =
    ErrChannelNotConfigured string | ErrInvalidConfig string | ErrSendFailed int string
  | MarshalFailed | RequestInvalid | RequestFailed | ReadFailed | ParseFailed
  | SmtpFailed smtp_command | ChannelDisabled | ContextDone
  | Exhausted int "channel_error option" | NoChatReached channel_error

text \<open>The interface \<open>NotificationChannel\<close>; cancellation of the context is part of the world.\<close>

record 'w channel =
  ch_Name :: string
  ch_Send :: "notification \<Rightarrow> 'w \<Rightarrow> channel_error option \<times> 'w"
  ch_HealthCheck :: "'w \<Rightarrow> channel_error option \<times> 'w"

subsection \<open>The retry loop\<close>

text \<open>
  \<open>for attempt := 0; attempt <= maxRetries; attempt++\<close>: before every attempt but the first the loop
  waits, and leaves with the context's error when that is cancelled meanwhile; the first success
  ends it.  \<open>left\<close> is the number of attempts to go.
\<close>

fun send_attempts ::
  "(duration \<Rightarrow> 'w \<Rightarrow> bool \<times> 'w) \<Rightarrow> (nat \<Rightarrow> duration) \<Rightarrow> ('w \<Rightarrow> channel_error option \<times> 'w) \<Rightarrow> int \<Rightarrow>
     nat \<Rightarrow> nat \<Rightarrow> channel_error option \<Rightarrow> 'w \<Rightarrow> channel_error option \<times> 'w" where
  "send_attempts wait pause post tries attempt 0 lastErr w = (Some (Exhausted tries lastErr), w)"
| "send_attempts wait pause post tries attempt (Suc left) lastErr w =
     (let (cancelled, w1) = (if 0 < attempt then wait (pause attempt) w else (False, w)) in
      if cancelled then (Some ContextDone, w1)
      else case post w1 of
        (None, w2) \<Rightarrow> (None, w2)
      | (Some err, w2) \<Rightarrow> send_attempts wait pause post tries (Suc attempt) left (Some err) w2)"

definition retry_send ::
  "(duration \<Rightarrow> 'w \<Rightarrow> bool \<times> 'w) \<Rightarrow> (nat \<Rightarrow> duration) \<Rightarrow> ('w \<Rightarrow> channel_error option \<times> 'w) \<Rightarrow> int \<Rightarrow>
     'w \<Rightarrow> channel_error option \<times> 'w" where
  "retry_send wait pause post maxRetries w =
     send_attempts wait pause post (maxRetries + 1) 0 (nat (maxRetries + 1)) None w"

text \<open>
  \<open>time.Duration(math.Pow(2, float64(attempt-1))) * time.Second\<close>: the power is exact, a power out of
  the range of the conversion becomes the least integer, and the product wraps around.
\<close>

definition exp_backoff :: "nat \<Rightarrow> duration" where
  "exp_backoff attempt = wrap64 ((if attempt - 1 < 63 then 2 ^ (attempt - 1) else - (2 ^ 63)) * Second)"

definition effective_retries :: "channel_config \<Rightarrow> notification \<Rightarrow> int" where
  "effective_retries c n = (if 0 < nt_max_retries n then nt_max_retries n else cc_retry_attempts c)"

text \<open>
  A sender posts messages of some kind: \<open>posted\<close> is the list of those that have left, a post adds at
  most \<open>most\<close> of them (at least one if it succeeds, and each of them \<open>right\<close>), and waiting adds none.
\<close>

locale message_sender =
  fixes post :: "'w \<Rightarrow> channel_error option \<times> 'w"
    and wait :: "duration \<Rightarrow> 'w \<Rightarrow> bool \<times> 'w"
    and posted :: "'w \<Rightarrow> 'm list"
    and most :: nat
    and right :: "'m \<Rightarrow> bool"
  assumes post_law: "post w = (r, w') \<Longrightarrow>
      \<exists>ms. posted w' = posted w @ ms \<and> length ms \<le> most \<and> list_all right ms \<and> (r = None \<longrightarrow> ms \<noteq> [])"
    and wait_law: "posted (snd (wait d w)) = posted w"
begin

lemma send_attempts_bounded:
  "send_attempts wait pause post tries n left le w = (r, w') \<Longrightarrow>
     \<exists>ms. posted w' = posted w @ ms \<and> length ms \<le> left * most \<and> list_all right ms \<and> (r = None \<longrightarrow> ms \<noteq> [])"
proof (induction left arbitrary: n le w)
  case (Suc left)
  obtain c w1 where c: "(if 0 < n then wait (pause n) w else (False, w)) = (c, w1)" by fastforce
  then have w1: "posted w1 = posted w" using wait_law [of "pause n" w] by (auto split: if_splits)
  obtain q w2 where q: "post w1 = (q, w2)" by fastforce
  from post_law [OF q] obtain ms where ms: "posted w2 = posted w1 @ ms" "length ms \<le> most"
    "list_all right ms" "q = None \<longrightarrow> ms \<noteq> []" by blast
  show ?case
  proof (cases "c \<or> q = None")
    case True
    then have "c \<and> r \<noteq> None \<and> w' = w1 \<or> \<not> c \<and> q = None \<and> r = None \<and> w' = w2"
      using Suc.prems q by (cases c) (auto simp: c Let_def)
    then show ?thesis using ms w1 by auto
  next
    case False
    then obtain err where "q = Some err" by auto
    then have "send_attempts wait pause post tries (Suc n) left (Some err) w2 = (r, w')"
      using Suc.prems q False by (simp add: c Let_def)
    from Suc.IH [OF this] obtain ms' where "posted w' = posted w2 @ ms'" "length ms' \<le> left * most"
      "list_all right ms'" "r = None \<longrightarrow> ms' \<noteq> []" by blast
    with ms w1 show ?thesis by (intro exI [of _ "ms @ ms'"]) auto
  qed
qed auto

lemma retry_send_bounded:
  "retry_send wait pause post maxRetries w = (r, w') \<Longrightarrow>
     \<exists>ms. posted w' = posted w @ ms \<and> length ms \<le> nat (maxRetries + 1) * most \<and> list_all right ms \<and>
       (r = None \<longrightarrow> ms \<noteq> [])"
  unfolding retry_send_def by (rule send_attempts_bounded)

end

text \<open>The pauses of the loop for the retry counts in use: 1 s, 2 s, 4 s, ...\<close>

lemma exp_backoff_exact: "1 \<le> n \<Longrightarrow> n \<le> 34 \<Longrightarrow> exp_backoff n = 2 ^ (n - 1) * Second"
proof -
  assume n: "1 \<le> n" "n \<le> 34"
  then have "(2::int) ^ (n - 1) \<le> 2 ^ 33" by (intro power_increasing) auto
  then have "(2::int) ^ (n - 1) * Second < 2 ^ 63" "0 \<le> (2::int) ^ (n - 1) * Second"
    by (simp_all add: go_simps)
  then show ?thesis using n unfolding exp_backoff_def by (subst wrap64_id) auto
qed

text \<open>With one more retry the product wraps around and the pause is negative.\<close>

lemma exp_backoff_overflow: "exp_backoff 35 < 0"
  by (simp add: exp_backoff_def wrap64_def go_simps)

subsection \<open>Helpers of the channels\<close>

text \<open>
  \<open>formatFieldName\<close>, over its runes; the byte of an ASCII name is its rune.  The branch that
  \<open>capitalize\<close> selects appends the rune as it is.
\<close>

fun format_name :: "bool \<Rightarrow> string \<Rightarrow> string" where
  "format_name capitalize [] = []"
| "format_name capitalize (r # rs) =
     (if r = CHR ''_'' then CHR '' '' # format_name True rs
      else if capitalize then r # format_name False rs
      else r # format_name capitalize rs)"

definition formatFieldName :: "string \<Rightarrow> string" where
  "formatFieldName s = (if s = [] then [] else format_name True s)"

lemma formatFieldName_spaces: "formatFieldName s = map (\<lambda>c. if c = CHR ''_'' then CHR '' '' else c) s"
proof -
  have "format_name b s = map (\<lambda>c. if c = CHR ''_'' then CHR '' '' else c) s" for b
    by (induction s arbitrary: b) auto
  then show ?thesis by (simp add: formatFieldName_def)
qed

definition important_keys :: "string list" where
  "important_keys = [''order_id'', ''symbol'', ''side'', ''quantity'', ''price'', ''reason'', ''status'',
     ''position_id'', ''profit_loss'']"

text \<open>The keys of \<open>extractImportantFields\<close>: the important ones that the data has.\<close>

definition extractImportantFields :: "any_map \<Rightarrow> string list" where
  "extractImportantFields data = filter (\<lambda>k. data k \<noteq> None) important_keys"

text \<open>
  \<open>getChatIDs\<close> and \<open>getRecipients\<close>: one string under the first key, else a list of strings under the
  second, else the strings among a list of values.
\<close>

fun strings_of :: "any_value list \<Rightarrow> string list" where
  "strings_of [] = []"
| "strings_of (VString s # vs) = s # strings_of vs"
| "strings_of (_ # vs) = strings_of vs"

definition addresses_of :: "string \<Rightarrow> string \<Rightarrow> any_map \<Rightarrow> string list" where
  "addresses_of single many data =
     (let from_many = (case data many of
          Some (VStrings ss) \<Rightarrow> ss
        | Some (VList vs) \<Rightarrow> strings_of vs
        | _ \<Rightarrow> []) in
      case data single of
        Some (VString s) \<Rightarrow> if s \<noteq> [] then [s] else from_many
      | _ \<Rightarrow> from_many)"

text \<open>UTF-8 of the symbols the messages use.\<close>

definition newline :: string where "newline = [CHR 0x0A]"
definition crlf :: string where "crlf = [CHR 0x0D, CHR 0x0A]"
definition bullet :: string where "bullet = [CHR 0xE2, CHR 0x80, CHR 0xA2]"

definition getEmojiForPriority :: "priority \<Rightarrow> string" where
  "getEmojiForPriority p =
     (if p = PriorityLow then [CHR 0xF0, CHR 0x9F, CHR 0x9F, CHR 0xA2]
      else if p = PriorityNormal then [CHR 0xF0, CHR 0x9F, CHR 0x94, CHR 0xB5]
      else if p = PriorityHigh then [CHR 0xE2, CHR 0x9A, CHR 0xA0, CHR 0xEF, CHR 0xB8, CHR 0x8F]
      else if p = PriorityCritical then [CHR 0xF0, CHR 0x9F, CHR 0x9A, CHR 0xA8]
      else [CHR 0xE2, CHR 0x84, CHR 0xB9, CHR 0xEF, CHR 0xB8, CHR 0x8F])"

end
