(* ===== verification/Notify_Manager.thy ===== *)
theory Notify_Manager
  imports Notification "HOL-Library.Multiset"
begin

text \<open>
  The channel manager of \<open>notification-service/internal/channels/manager.go\<close>: routing of events to
  channels, parallel delivery and the metrics.
\<close>

subsection \<open>State\<close>

text \<open>Go's maps of channels and rules, as association lists with distinct keys.\<close>

record 'w channel_manager =
  mg_channels :: "(string \<times> 'w channel) list"
  mg_rules :: "(string \<times> string list) list"
  mg_sent :: int
  mg_failed :: int
  mg_successes :: "string \<Rightarrow> int option"
  mg_failures :: "string \<Rightarrow> int option"

record 'w manager_config =
  mgc_channels :: "(string \<times> 'w channel) list"
  mgc_rules :: "(string \<times> string list) list"
  mgc_logger :: bool

datatype manager_error =
    AlreadyRegistered string | NoChannelsConfigured string | ChannelNotFound string
  | SendVia string channel_error | NoValidChannels | AllChannelsFailed "(string \<times> channel_error) list"
  | NoChannelsAttempted

definition default_rules :: "(string \<times> string list) list" where
  "default_rules =
     [(''order_filled'', [''slack'', ''email'']), (''order_rejected'', [''slack'', ''email'']),
      (''order_cancelled'', [''slack'', ''email'']),
      (''risk_alert'', [''slack'', ''telegram'', ''email'']),
      (''position_limit_alert'', [''slack'', ''telegram'', ''email'']),
      (''margin_call'', [''slack'', ''telegram'', ''email'']),
      (''position_opened'', [''slack'', ''email'']), (''position_closed'', [''slack'', ''email'']),
      (''system_alert'', [''slack'', ''telegram'']), (''maintenance_notice'', [''slack'', ''telegram'']),
      (''service_degradation'', [''slack'', ''telegram''])]"

text \<open>\<open>None\<close> is the panic without a logger, which a nil configuration never has.\<close>

definition NewChannelManager :: "'w manager_config option \<Rightarrow> 'w channel_manager option" where
  "NewChannelManager config = (case config of
     None \<Rightarrow> None
   | Some c \<Rightarrow>
       if \<not> mgc_logger c then None
       else Some
         \<lparr>mg_channels = mgc_channels c,
          mg_rules = (if mgc_rules c = [] then default_rules else mgc_rules c),
          mg_sent = 0, mg_failed = 0,
          mg_successes = (\<lambda>k. if k \<in> fst ` set (mgc_channels c) then Some 0 else None),
          mg_failures = (\<lambda>k. if k \<in> fst ` set (mgc_channels c) then Some 0 else None)\<rparr>)"

definition RegisterChannel ::
  "string \<Rightarrow> 'w channel \<Rightarrow> 'w channel_manager \<Rightarrow> manager_error option \<times> 'w channel_manager" where
  "RegisterChannel name ch m =
     (if map_of (mg_channels m) name \<noteq> None then (Some (AlreadyRegistered name), m)
      else (None, m\<lparr>mg_channels := mg_channels m @ [(name, ch)],
             mg_successes := (mg_successes m)(name \<mapsto> 0),
             mg_failures := (mg_failures m)(name \<mapsto> 0)\<rparr>))"

definition UnregisterChannel :: "string \<Rightarrow> 'w channel_manager \<Rightarrow> 'w channel_manager" where
  "UnregisterChannel name m = m\<lparr>mg_channels := filter (\<lambda>(k, _). k \<noteq> name) (mg_channels m)\<rparr>"

definition GetChannel :: "string \<Rightarrow> 'w channel_manager \<Rightarrow> 'w channel option" where
  "GetChannel name m = map_of (mg_channels m) name"

definition AddRoutingRule :: "string \<Rightarrow> string list \<Rightarrow> 'w channel_manager \<Rightarrow> 'w channel_manager" where
  "AddRoutingRule event names m =
     m\<lparr>mg_rules := (event, names) # filter (\<lambda>(k, _). k \<noteq> event) (mg_rules m)\<rparr>"

text \<open>\<open>order\<close> is the order in which \<open>range\<close> visits the keys of the map.\<close>

definition getTargetChannels ::
  "(string list \<Rightarrow> string list) \<Rightarrow> string \<Rightarrow> priority \<Rightarrow> 'w channel_manager \<Rightarrow> 'w channel list" where
  "getTargetChannels order event priority m =
     (let channelNames = (case map_of (mg_rules m) event of
            Some names \<Rightarrow> names
          | None \<Rightarrow> if priority = PriorityCritical then order (map fst (mg_channels m)) else [''slack'']) in
      List.map_filter (map_of (mg_channels m)) channelNames)"

definition recordSuccess :: "string \<Rightarrow> 'w channel_manager \<Rightarrow> 'w channel_manager" where
  "recordSuccess name m =
     m\<lparr>mg_sent := mg_sent m + 1,
       mg_successes := (case mg_successes m name of
          Some k \<Rightarrow> (mg_successes m)(name \<mapsto> k + 1) | None \<Rightarrow> mg_successes m)\<rparr>"

definition recordFailure :: "string \<Rightarrow> 'w channel_manager \<Rightarrow> 'w channel_manager" where
  "recordFailure name m =
     m\<lparr>mg_failed := mg_failed m + 1,
       mg_failures := (case mg_failures m name of
          Some k \<Rightarrow> (mg_failures m)(name \<mapsto> k + 1) | None \<Rightarrow> mg_failures m)\<rparr>"

subsection \<open>Delivery\<close>

text \<open>
  The goroutines of \<open>sendToChannels\<close>, in the order in which they complete: the errors they put into
  the channel, the success oks, and the state.
\<close>

fun deliver_all ::
  "notification \<Rightarrow> 'w channel list \<Rightarrow> 'w channel_manager \<times> 'w \<Rightarrow>
     (string \<times> channel_error) list \<times> nat \<times> 'w channel_manager \<times> 'w" where
  "deliver_all n [] (m, w) = ([], 0, m, w)"
| "deliver_all n (ch # chs) (m, w) =
     (case ch_Send ch n w of
        (Some err, w1) \<Rightarrow>
          let (errors, oks, s) = deliver_all n chs (recordFailure (ch_Name ch) m, w1) in
          ((ch_Name ch, err) # errors, oks, s)
      | (None, w1) \<Rightarrow>
          let (errors, oks, s) = deliver_all n chs (recordSuccess (ch_Name ch) m, w1) in
          (errors, Suc oks, s))"

text \<open>\<open>completion\<close> is the order of completion, a rearrangement of the channels.\<close>

definition sendToChannels ::
  "('w channel list \<Rightarrow> 'w channel list) \<Rightarrow> 'w channel list \<Rightarrow> notification \<Rightarrow> 'w channel_manager \<times> 'w \<Rightarrow>
     manager_error option \<times> 'w channel_manager \<times> 'w" where
  "sendToChannels completion channels n s =
     (let (errors, successCount, s') = deliver_all n (completion channels) s in
      if 0 < successCount then (None, s')
      else if errors \<noteq> [] then (Some (AllChannelsFailed errors), s')
      else (Some NoChannelsAttempted, s'))"

definition manager_Send ::
  "(string list \<Rightarrow> string list) \<Rightarrow> ('w channel list \<Rightarrow> 'w channel list) \<Rightarrow> notification \<Rightarrow>
     'w channel_manager \<times> 'w \<Rightarrow> manager_error option \<times> 'w channel_manager \<times> 'w" where
  "manager_Send order completion n s =
     (let targets = getTargetChannels order (nt_event_type n) (nt_priority n) (fst s) in
      if targets = [] then (Some (NoChannelsConfigured (nt_event_type n)), s)
      else sendToChannels completion targets n s)"

definition SendToChannel ::
  "string \<Rightarrow> notification \<Rightarrow> 'w channel_manager \<times> 'w \<Rightarrow> manager_error option \<times> 'w channel_manager \<times> 'w" where
  "SendToChannel name n = (\<lambda>(m, w). case GetChannel name m of
     None \<Rightarrow> (Some (ChannelNotFound name), m, w)
   | Some ch \<Rightarrow>
       (case ch_Send ch n w of
          (Some err, w1) \<Rightarrow> (Some (SendVia name err), recordFailure name m, w1)
        | (None, w1) \<Rightarrow> (None, recordSuccess name m, w1)))"

definition SendToChannels ::
  "('w channel list \<Rightarrow> 'w channel list) \<Rightarrow> string list \<Rightarrow> notification \<Rightarrow> 'w channel_manager \<times> 'w \<Rightarrow>
     manager_error option \<times> 'w channel_manager \<times> 'w" where
  "SendToChannels completion names n s =
     (let channels = List.map_filter (map_of (mg_channels (fst s))) names in
      if channels = [] then (Some NoValidChannels, s)
      else sendToChannels completion channels n s)"

text \<open>The health checks run in parallel too; each writes its own key.\<close>

fun manager_HealthCheck ::
  "(string \<times> 'w channel) list \<Rightarrow> 'w \<Rightarrow> (string \<times> channel_error option) list \<times> 'w" where
  "manager_HealthCheck [] w = ([], w)"
| "manager_HealthCheck ((name, ch) # chs) w =
     (let (r, w1) = ch_HealthCheck ch w; (rs, w2) = manager_HealthCheck chs w1 in ((name, r) # rs, w2))"

record manager_metrics =
  mm_sent :: int
  mm_failed :: int
  mm_channels :: "(string \<times> int \<times> int) list"

text \<open>\<open>None\<close> is the panic on a channel without counters.\<close>

definition GetMetrics :: "'w channel_manager \<Rightarrow> manager_metrics option" where
  "GetMetrics m =
     (if list_all (\<lambda>(k, _). mg_successes m k \<noteq> None \<and> mg_failures m k \<noteq> None) (mg_channels m) then
        Some \<lparr>mm_sent = mg_sent m, mm_failed = mg_failed m,
          mm_channels = map (\<lambda>(k, _). (k, the (mg_successes m k), the (mg_failures m k))) (mg_channels m)\<rparr>
      else None)"

definition ListChannels :: "'w channel_manager \<Rightarrow> string list" where
  "ListChannels m = map fst (mg_channels m)"

definition GetRoutingRules :: "'w channel_manager \<Rightarrow> (string \<times> string list) list" where
  "GetRoutingRules m = mg_rules m"

subsection \<open>What a delivery does\<close>

text \<open>The results of the channels in the order of completion.\<close>

fun delivery_results :: "notification \<Rightarrow> 'w channel list \<Rightarrow> 'w \<Rightarrow> channel_error option list" where
  "delivery_results n [] w = []"
| "delivery_results n (ch # chs) w = (let (r, w1) = ch_Send ch n w in r # delivery_results n chs w1)"

lemma delivery_results_length [simp]: "length (delivery_results n chs w) = length chs"
  by (induction chs arbitrary: w) (auto simp: case_prod_beta Let_def)

definition reached :: "channel_error option list \<Rightarrow> nat" where
  "reached rs = length (filter (\<lambda>r. r = None) rs)"

lemma deliver_all_counts:
  "deliver_all n chs (m, w) = (errors, oks, m', w') \<Longrightarrow>
     oks = reached (delivery_results n chs w) \<and> length errors + oks = length chs \<and>
     mg_sent m' = mg_sent m + int oks \<and> mg_failed m' = mg_failed m + int (length errors) \<and>
     mg_channels m' = mg_channels m \<and> mg_rules m' = mg_rules m"
proof (induction chs arbitrary: m w errors oks m' w')
  case (Cons ch chs)
  obtain r w1 where r: "ch_Send ch n w = (r, w1)" by (metis surj_pair)
  let ?m = "case r of None \<Rightarrow> recordSuccess (ch_Name ch) m | Some _ \<Rightarrow> recordFailure (ch_Name ch) m"
  obtain es k s where d: "deliver_all n chs (?m, w1) = (es, k, s)" by (metis surj_pair)
  obtain m2 w2 where s: "s = (m2, w2)" by (cases s)
  from Cons.IH [OF d [unfolded s]] Cons.prems show ?case
    using r d s by (cases r) (auto simp: recordSuccess_def recordFailure_def reached_def)
qed (auto simp: reached_def)


definition rearranges :: "('a list \<Rightarrow> 'a list) \<Rightarrow> bool" where
  "rearranges f \<longleftrightarrow> (\<forall>xs. mset (f xs) = mset xs)"

lemma rearranges_facts: "rearranges f \<Longrightarrow> length (f xs) = length xs \<and> set (f xs) = set xs \<and> (f xs = [] \<longleftrightarrow> xs = [])"
  unfolding rearranges_def by (metis mset_eq_setD mset_zero_iff size_mset)

lemma sendToChannels_spec:
  assumes "sendToChannels completion chs n (m, w) = (r, m', w')" and "chs \<noteq> []" and "rearranges completion"
  shows "let k = reached (delivery_results n (completion chs) w) in
     (r = None \<longleftrightarrow> 0 < k) \<and> mg_sent m' = mg_sent m + int k \<and>
     mg_failed m' = mg_failed m + int (length chs) - int k \<and> mg_channels m' = mg_channels m \<and> mg_rules m' = mg_rules m"
proof -
  obtain es k where d: "deliver_all n (completion chs) (m, w) = (es, k, m', w')"
    using assms(1) by (auto simp: sendToChannels_def Let_def split: prod.splits if_splits)
  have l: "length (completion chs) = length chs" using rearranges_facts [OF assms(3)] by blast
  have r: "r = None \<longleftrightarrow> 0 < k" using assms(1) d by (auto simp: sendToChannels_def Let_def split: if_splits)
  from deliver_all_counts [OF d] l r show ?thesis by (auto simp: Let_def)
qed

text \<open>
  What \<open>Send\<close> promises.  It fails without a trace when the routing yields no registered channel.
  Otherwise it sends to each of them once, in whatever order they complete, reports success exactly
  when at least one took the notification, and adds every result to one of the two totals.
\<close>

theorem manager_Send_any:
  assumes "manager_Send order completion n (m, w) = (r, m', w')" and "rearranges completion"
  shows "let targets = getTargetChannels order (nt_event_type n) (nt_priority n) m;
             k = reached (delivery_results n (completion targets) w) in
     (targets = [] \<longrightarrow> r = Some (NoChannelsConfigured (nt_event_type n)) \<and> m' = m \<and> w' = w) \<and>
     (targets \<noteq> [] \<longrightarrow> (r = None \<longleftrightarrow> 0 < k) \<and> mg_sent m' = mg_sent m + int k \<and>
        mg_failed m' = mg_failed m + int (length targets) - int k)"
proof (cases "getTargetChannels order (nt_event_type n) (nt_priority n) m = []")
  case True
  then show ?thesis using assms(1) by (auto simp: manager_Send_def)
next
  case False
  then have "sendToChannels completion (getTargetChannels order (nt_event_type n) (nt_priority n) m) n (m, w) = (r, m', w')"
    using assms(1) by (simp add: manager_Send_def)
  from sendToChannels_spec [OF this False assms(2)] show ?thesis using False by (simp add: Let_def)
qed

subsection \<open>Metrics\<close>

text \<open>A manager in use: every public operation that changes it, in any order.\<close>

inductive manager_reachable :: "'w channel_manager \<Rightarrow> bool" where
  made: "NewChannelManager c = Some m \<Longrightarrow> manager_reachable m"
| registered: "manager_reachable m \<Longrightarrow> manager_reachable (snd (RegisterChannel name ch m))"
| unregistered: "manager_reachable m \<Longrightarrow> manager_reachable (UnregisterChannel name m)"
| rule_added: "manager_reachable m \<Longrightarrow> manager_reachable (AddRoutingRule event names m)"
| sent_all: "manager_reachable m \<Longrightarrow> manager_reachable (fst (snd (manager_Send order completion n (m, w))))"
| sent_one: "manager_reachable m \<Longrightarrow> manager_reachable (fst (snd (SendToChannel name n (m, w))))"
| sent_some: "manager_reachable m \<Longrightarrow> manager_reachable (fst (snd (SendToChannels completion names n (m, w))))"

definition counter_sum :: "(string \<Rightarrow> int option) \<Rightarrow> int" where
  "counter_sum f = (\<Sum>k \<in> dom f. the (f k))"

definition counters_ok :: "(string \<Rightarrow> int option) \<Rightarrow> int \<Rightarrow> bool" where
  "counters_ok f bound \<longleftrightarrow> finite (dom f) \<and> (\<forall>k v. f k = Some v \<longrightarrow> 0 \<le> v) \<and> counter_sum f \<le> bound"

definition manager_ok :: "'w channel_manager \<Rightarrow> bool" where
  "manager_ok m \<longleftrightarrow> counters_ok (mg_successes m) (mg_sent m) \<and> counters_ok (mg_failures m) (mg_failed m) \<and>
     fst ` set (mg_channels m) \<subseteq> dom (mg_successes m) \<and> fst ` set (mg_channels m) \<subseteq> dom (mg_failures m)"

lemma counter_sum_upd:
  "finite (dom f) \<Longrightarrow> counter_sum (f(k \<mapsto> v)) = counter_sum f - (case f k of None \<Rightarrow> 0 | Some u \<Rightarrow> u) + v"
proof -
  assume fin: "finite (dom f)"
  have "counter_sum (f(k \<mapsto> v)) = v + (\<Sum>j \<in> dom f - {k}. the ((f(k \<mapsto> v)) j))"
    unfolding counter_sum_def using fin by (simp add: sum.insert_remove)
  also have "(\<Sum>j \<in> dom f - {k}. the ((f(k \<mapsto> v)) j)) = (\<Sum>j \<in> dom f - {k}. the (f j))"
    by (rule sum.cong) auto
  also have "\<dots> = counter_sum f - (case f k of None \<Rightarrow> 0 | Some u \<Rightarrow> u)"
    unfolding counter_sum_def using fin by (cases "f k") (auto simp: sum_diff1 domIff)
  finally show ?thesis by linarith
qed

lemma counters_ok_reset: "counters_ok f b \<Longrightarrow> counters_ok (f(k \<mapsto> 0)) b"
  by (auto simp: counters_ok_def counter_sum_upd split: option.splits if_splits)
    (metis diff_ge_0_iff_ge diff_left_mono diff_zero order_trans)

lemma counters_ok_add: "counters_ok f b \<Longrightarrow> f k = Some v \<Longrightarrow> counters_ok (f(k \<mapsto> v + 1)) (b + 1)"
  by (auto simp: counters_ok_def counter_sum_upd)

lemma counters_ok_mono: "counters_ok f b \<Longrightarrow> b \<le> b' \<Longrightarrow> counters_ok f b'"
  by (auto simp: counters_ok_def)

lemma record_ok:
  "manager_ok m \<Longrightarrow> manager_ok (recordSuccess name m)" "manager_ok m \<Longrightarrow> manager_ok (recordFailure name m)"
  by (auto simp: manager_ok_def recordSuccess_def recordFailure_def counters_ok_add split: option.splits
      intro: counters_ok_mono)

lemma deliver_all_ok:
  "manager_ok m \<Longrightarrow> deliver_all n chs (m, w) = (es, k, m', w') \<Longrightarrow> manager_ok m'"
proof (induction chs arbitrary: m w es k)
  case (Cons ch chs)
  obtain r w1 where r: "ch_Send ch n w = (r, w1)" by (metis surj_pair)
  let ?m = "case r of None \<Rightarrow> recordSuccess (ch_Name ch) m | Some _ \<Rightarrow> recordFailure (ch_Name ch) m"
  obtain es' k' s where d: "deliver_all n chs (?m, w1) = (es', k', s)" by (metis surj_pair)
  have "s = (m', w')" using Cons.prems(2) r d by (cases r) auto
  moreover have "manager_ok ?m" using Cons.prems(1) record_ok by (cases r) auto
  ultimately show ?case using Cons.IH d by blast
qed simp

lemma sendToChannels_ok: "manager_ok m \<Longrightarrow> manager_ok (fst (snd (sendToChannels completion chs n (m, w))))"
  using deliver_all_ok by (auto simp: sendToChannels_def Let_def split: prod.splits)

lemma manager_reachable_ok: "manager_reachable m \<Longrightarrow> manager_ok m"
proof (induction rule: manager_reachable.induct)
  case (made c m)
  then obtain g where c: "c = Some g" and "mgc_logger g"
    by (auto simp: NewChannelManager_def split: option.splits if_splits)
  have d: "dom (\<lambda>k. if k \<in> S then Some (0::int) else None) = S" for S :: "string set"
    by (auto split: if_splits)
  have ok: "counters_ok (\<lambda>k. if k \<in> fst ` set (mgc_channels g) then Some 0 else None) 0"
    unfolding counters_ok_def counter_sum_def d by (auto split: if_splits)
  have m: "mg_channels m = mgc_channels g" "mg_sent m = 0" "mg_failed m = 0"
    "mg_successes m = (\<lambda>k. if k \<in> fst ` set (mgc_channels g) then Some 0 else None)"
    "mg_failures m = (\<lambda>k. if k \<in> fst ` set (mgc_channels g) then Some 0 else None)"
    using made by (auto simp: NewChannelManager_def c split: if_splits)
  show ?case unfolding manager_ok_def m d using ok by blast
next
  case (sent_all m order completion n w)
  then show ?case by (auto simp: manager_Send_def Let_def sendToChannels_ok)
next
  case (sent_one m name n w)
  then show ?case by (auto simp: SendToChannel_def record_ok split: option.splits prod.splits)
next
  case (sent_some m completion names n w)
  then show ?case by (auto simp: SendToChannels_def Let_def sendToChannels_ok)
qed (auto simp: manager_ok_def RegisterChannel_def UnregisterChannel_def AddRoutingRule_def counters_ok_reset)

text \<open>
  The metrics of a manager in use.  However channels are registered and removed and notifications
  sent, \<open>GetMetrics\<close> finds the counters of every channel (a missing one would make it panic), no
  counter is negative, and together they do not exceed the totals.
\<close>

theorem manager_metrics_sound:
  assumes "manager_reachable m"
  shows "\<exists>mm. GetMetrics m = Some mm \<and> map fst (mm_channels mm) = ListChannels m \<and>
     list_all (\<lambda>(k, s, f). 0 \<le> s \<and> 0 \<le> f) (mm_channels mm) \<and>
     counter_sum (mg_successes m) \<le> mm_sent mm \<and> counter_sum (mg_failures m) \<le> mm_failed mm"
proof -
  have ok: "manager_ok m" by (rule manager_reachable_ok [OF assms])
  then have "list_all (\<lambda>(k, _). mg_successes m k \<noteq> None \<and> mg_failures m k \<noteq> None) (mg_channels m)"
    by (force simp: manager_ok_def list_all_iff)
  then show ?thesis using ok
    by (force simp: GetMetrics_def ListChannels_def manager_ok_def counters_ok_def list_all_iff split_beta)
qed

subsection \<open>Concrete runs\<close>

text \<open>Slack answers, e-mail does not.\<close>

definition sample_channel :: "string \<Rightarrow> bool \<Rightarrow> unit channel" where
  "sample_channel name up = \<lparr>ch_Name = name,
     ch_Send = (\<lambda>n w. (if up then None else Some RequestFailed, w)), ch_HealthCheck = (\<lambda>w. (None, w))\<rparr>"

definition sample_config :: "unit manager_config" where
  "sample_config = \<lparr>mgc_channels = [(''slack'', sample_channel ''slack'' True),
     (''email'', sample_channel ''email'' False)], mgc_rules = [], mgc_logger = True\<rparr>"

definition sample_manager :: "unit channel_manager" where
  "sample_manager = the (NewChannelManager (Some sample_config))"

lemma sample_made: "NewChannelManager (Some sample_config) = Some sample_manager"
  by (simp add: sample_manager_def NewChannelManager_def sample_config_def)

lemma sample_manager_parts:
  "mg_channels sample_manager = [(''slack'', sample_channel ''slack'' True), (''email'', sample_channel ''email'' False)]"
  "mg_rules sample_manager = default_rules" "mg_sent sample_manager = 0" "mg_failed sample_manager = 0"
  by (simp_all add: sample_manager_def NewChannelManager_def sample_config_def)

theorem manager_Send_any_witness:
  "\<exists>m'. manager_Send (\<lambda>ks. ks) rev (NewNotification 0 ''u'' ''order_filled'' [] []) (sample_manager, ()) = (None, m', ()) \<and>
     mg_sent m' = 1 \<and> mg_failed m' = 1"
proof -
  let ?n = "NewNotification 0 ''u'' ''order_filled'' [] []"
  obtain r m' u where s: "manager_Send (\<lambda>ks. ks) rev ?n (sample_manager, ()) = (r, m', u)"
    by (rule prod_cases3)
  have "nt_event_type ?n = ''order_filled''" "map_of default_rules ''order_filled'' = Some [''slack'', ''email'']"
    by (simp_all add: NewNotification_def default_rules_def)
  then have t: "getTargetChannels (\<lambda>ks. ks) (nt_event_type ?n) (nt_priority ?n) sample_manager =
      [sample_channel ''slack'' True, sample_channel ''email'' False]"
    by (simp add: getTargetChannels_def sample_manager_parts map_filter_simps)
  have k: "reached (delivery_results ?n (rev [sample_channel ''slack'' True, sample_channel ''email'' False]) ()) = 1"
    by (simp add: sample_channel_def reached_def)
  have "rearranges rev" by (simp add: rearranges_def)
  from manager_Send_any [OF s this] have "r = None \<and> mg_sent m' = 1 \<and> mg_failed m' = 1"
    unfolding t Let_def k by (simp add: sample_manager_parts)
  moreover have "u = ()" by simp
  ultimately show ?thesis using s by blast
qed

theorem manager_metrics_sound_witness:
  "\<exists>mm. GetMetrics sample_manager = Some mm \<and> map fst (mm_channels mm) = [''slack'', ''email'']"
proof -
  have "manager_reachable sample_manager" by (rule manager_reachable.made [OF sample_made])
  from manager_metrics_sound [OF this] show ?thesis by (auto simp: ListChannels_def sample_manager_parts)
qed

end
