(* ===== verification/Notify_Channels.thy ===== *)
theory Notify_Channels
  imports Notification
begin

text \<open>
  The three channels of \<open>notification-service/internal/channels\<close>: Slack (\<open>slack.go\<close>), Telegram
  (\<open>telegram.go\<close>) and e-mail (\<open>email.go\<close>): what they send, with which retries, and what they report.
\<close>

subsection \<open>The world of a channel\<close>

record slack_message =
  slm_text :: string
  slm_blocks :: "any_value list"
  slm_color :: "string option"

record tg_message =
  tgm_chat_id :: string
  tgm_text :: string
  tgm_parse_mode :: string
  tgm_no_preview :: bool
  tgm_silent :: bool

record tg_response =
  tgr_ok :: bool
  tgr_error_code :: int
  tgr_description :: string

text \<open>
  Waiting (true when the context is cancelled meanwhile), the HTTP and SMTP clients, the JSON codec,
  \<open>%v\<close>, the two date layouts, the order in which Go's \<open>range\<close> visits the keys of a map, and the
  mail package.
\<close>

record 'w notify_env =
  ne_wait :: "duration \<Rightarrow> 'w \<Rightarrow> bool \<times> 'w"
  ne_request_ok :: "string \<Rightarrow> bool"
  ne_http :: "http_request \<Rightarrow> 'w \<Rightarrow> http_reply \<times> 'w"
  ne_smtp :: "smtp_command \<Rightarrow> 'w \<Rightarrow> bool \<times> 'w"
  ne_dial_ok :: "string \<Rightarrow> 'w \<Rightarrow> bool"
  ne_slack_json :: "slack_message \<Rightarrow> string option"
  ne_tg_json :: "tg_message \<Rightarrow> string option"
  ne_tg_parse :: "string \<Rightarrow> tg_response option"
  ne_text :: "any_value \<Rightarrow> string"
  ne_rfc3339 :: "instant \<Rightarrow> string"
  ne_datetime :: "instant \<Rightarrow> string"
  ne_order :: "string list \<Rightarrow> string list"
  ne_address :: "string \<Rightarrow> string \<Rightarrow> string"
  ne_address_ok :: "string \<Rightarrow> bool"

definition field_text :: "'w notify_env \<Rightarrow> any_map \<Rightarrow> string \<Rightarrow> string" where
  "field_text env data key = (case data key of Some v \<Rightarrow> ne_text env v | None \<Rightarrow> [])"

subsection \<open>Slack\<close>

record slack_config =
  slc_channel :: channel_config
  slc_webhook :: string
  slc_bot_token :: string
  slc_signing_secret :: string

definition slack_Validate :: "slack_config \<Rightarrow> channel_error option" where
  "slack_Validate c =
     (if \<not> cc_enabled (slc_channel c) then None
      else if slc_webhook c = [] \<and> slc_bot_token c = []
      then Some (ErrInvalidConfig ''webhook URL or bot token required'') else None)"

definition NewSlackChannel :: "slack_config option \<Rightarrow> channel_error + slack_config" where
  "NewSlackChannel config =
     (let c = (case config of Some c \<Rightarrow> c | None \<Rightarrow> \<lparr>slc_channel = DefaultChannelConfig,
           slc_webhook = [], slc_bot_token = [], slc_signing_secret = []\<rparr>) in
      case slack_Validate c of Some e \<Rightarrow> Inl e | None \<Rightarrow> Inr c)"

definition slack_color :: "priority \<Rightarrow> string" where
  "slack_color p =
     (if p = PriorityLow then ''#36a64f'' else if p = PriorityNormal then ''#2196F3''
      else if p = PriorityHigh then ''#ff9800'' else if p = PriorityCritical then ''#f44336''
      else ''#757575'')"

definition slack_fields :: "'w notify_env \<Rightarrow> any_map \<Rightarrow> any_value list" where
  "slack_fields env data =
     map (\<lambda>k. VObject [(''type'', VString ''mrkdwn''),
         (''text'', VString (''*'' @ formatFieldName k @ '':*'' @ newline @ field_text env data k))])
       (extractImportantFields data)"

definition formatSlackMessage :: "'w notify_env \<Rightarrow> notification \<Rightarrow> slack_message" where
  "formatSlackMessage env n =
     (let fields = slack_fields env (nt_data n) in
      \<lparr>slm_text = nt_title n,
       slm_blocks =
         [VObject [(''type'', VString ''header''),
            (''text'', VObject [(''type'', VString ''plain_text''),
               (''text'', VString (getEmojiForPriority (nt_priority n) @ '' '' @ nt_title n))])],
          VObject [(''type'', VString ''divider'')],
          VObject [(''type'', VString ''section''),
            (''text'', VObject [(''type'', VString ''mrkdwn''), (''text'', VString (nt_message n))])]] @
         (if fields \<noteq> [] then [VObject [(''type'', VString ''section''), (''fields'', VList fields)]] else []) @
         [VObject [(''type'', VString ''context''),
            (''elements'', VList [VObject [(''type'', VString ''mrkdwn''),
               (''text'', VString (''*Event:* '' @ nt_event_type n @ '' | *Time:* <!date^'' @
                  int_str (nt_timestamp n div Second) @ ''^{date_short_pretty} {time}|'' @
                  ne_rfc3339 env (nt_timestamp n) @ ''>''))]])]],
       slm_color = Some (slack_color (nt_priority n))\<rparr>)"

definition getWebhookURL :: "slack_config \<Rightarrow> notification \<Rightarrow> string" where
  "getWebhookURL c n = (case nt_data n ''slack_webhook_url'' of
     Some (VString s) \<Rightarrow> if s \<noteq> [] then s else slc_webhook c
   | _ \<Rightarrow> slc_webhook c)"

definition json_post :: "string \<Rightarrow> string \<Rightarrow> http_request" where
  "json_post url body = \<lparr>hr_method = ''POST'', hr_url = url, hr_body = body,
     hr_headers = [(''Content-Type'', ''application/json'')]\<rparr>"

definition sendWebhook ::
  "'w notify_env \<Rightarrow> string \<Rightarrow> slack_message \<Rightarrow> 'w \<Rightarrow> channel_error option \<times> 'w" where
  "sendWebhook env url msg w =
     (case ne_slack_json env msg of
        None \<Rightarrow> (Some MarshalFailed, w)
      | Some payload \<Rightarrow>
          if \<not> ne_request_ok env url then (Some RequestInvalid, w)
          else
            let (reply, w') = ne_http env (json_post url payload) w in
            (case reply of
               HttpFailed \<Rightarrow> Some RequestFailed
             | HttpBodyFailed status \<Rightarrow> if status \<noteq> 200 then Some (ErrSendFailed status []) else None
             | HttpReply status body \<Rightarrow> if status \<noteq> 200 then Some (ErrSendFailed status body) else None, w'))"

definition slack_Send ::
  "'w notify_env \<Rightarrow> slack_config \<Rightarrow> notification \<Rightarrow> 'w \<Rightarrow> channel_error option \<times> 'w" where
  "slack_Send env c n w =
     (let url = getWebhookURL c n in
      if url = [] then (Some (ErrChannelNotConfigured ''webhook URL not configured''), w)
      else retry_send (ne_wait env) exp_backoff (sendWebhook env url (formatSlackMessage env n))
        (effective_retries (slc_channel c) n) w)"

definition slack_HealthCheck :: "'w notify_env \<Rightarrow> slack_config \<Rightarrow> 'w \<Rightarrow> channel_error option \<times> 'w" where
  "slack_HealthCheck env c w =
     (if \<not> cc_enabled (slc_channel c) then (Some ChannelDisabled, w)
      else if slc_webhook c = [] then (Some (ErrChannelNotConfigured ''no webhook URL configured''), w)
      else sendWebhook env (slc_webhook c)
        \<lparr>slm_text = ''Health check from AIPX Notification Service'', slm_blocks = [], slm_color = None\<rparr> w)"

subsection \<open>Telegram\<close>

record tg_config =
  tgc_channel :: channel_config
  tgc_bot_token :: string
  tgc_parse_mode :: string
  tgc_webhook_url :: string
  tgc_webhook_secret :: string

definition tg_Validate :: "tg_config \<Rightarrow> channel_error option" where
  "tg_Validate c =
     (if \<not> cc_enabled (tgc_channel c) then None
      else if tgc_bot_token c = [] then Some (ErrInvalidConfig ''bot token required'')
      else if tgc_parse_mode c \<noteq> [] \<and>
        tgc_parse_mode c \<notin> set [''Markdown'', ''MarkdownV2'', ''HTML'']
      then Some (ErrInvalidConfig ''invalid parse mode'') else None)"

definition NewTelegramChannel :: "tg_config option \<Rightarrow> channel_error + tg_config" where
  "NewTelegramChannel config =
     (let c = (case config of Some c \<Rightarrow> c | None \<Rightarrow> \<lparr>tgc_channel = DefaultChannelConfig,
           tgc_bot_token = [], tgc_parse_mode = ''Markdown'', tgc_webhook_url = [],
           tgc_webhook_secret = []\<rparr>) in
      case tg_Validate c of Some e \<Rightarrow> Inl e | None \<Rightarrow> Inr c)"

definition getChatIDs :: "notification \<Rightarrow> string list" where
  "getChatIDs n = addresses_of ''telegram_chat_id'' ''telegram_chat_ids'' (nt_data n)"

text \<open>A \<open>strings.Replacer\<close> whose patterns are single bytes.\<close>

definition replace_chars :: "(char \<Rightarrow> string option) \<Rightarrow> string \<Rightarrow> string" where
  "replace_chars f s = concat (map (\<lambda>c. case f c of Some r \<Rightarrow> r | None \<Rightarrow> [c]) s)"

definition backslashed :: "string \<Rightarrow> char \<Rightarrow> string option" where
  "backslashed cs c = (if c \<in> set cs then Some [CHR 0x5C, c] else None)"

definition html_entity :: "char \<Rightarrow> string option" where
  "html_entity c =
     (if c = CHR ''&'' then Some ''&amp;'' else if c = CHR ''<'' then Some ''&lt;''
      else if c = CHR ''>'' then Some ''&gt;'' else None)"

definition escapeTelegramMarkdown :: "tg_config \<Rightarrow> string \<Rightarrow> string" where
  "escapeTelegramMarkdown c text' =
     (if tgc_parse_mode c = ''Markdown'' then replace_chars (backslashed ''_*[`'') text'
      else if tgc_parse_mode c = ''MarkdownV2''
        then replace_chars (backslashed ''_*[]()~`>#+-=|{}.!'') text'
      else if tgc_parse_mode c = ''HTML'' then replace_chars html_entity text'
      else text')"

definition details_head :: string where
  "details_head = [CHR 0xF0, CHR 0x9F, CHR 0x93, CHR 0x8A] @ '' *Details:*'' @ newline"

definition tg_field :: "'w notify_env \<Rightarrow> any_map \<Rightarrow> string \<Rightarrow> string" where
  "tg_field env data k =
     bullet @ '' '' @ formatFieldName k @ '': `'' @ field_text env data k @ ''`'' @ newline"

definition tg_footer :: "'w notify_env \<Rightarrow> notification \<Rightarrow> string" where
  "tg_footer env n = ''_Event: '' @ nt_event_type n @ '' '' @ bullet @ '' Time: '' @
     ne_datetime env (nt_timestamp n) @ ''_''"

definition formatTelegramMessage :: "'w notify_env \<Rightarrow> tg_config \<Rightarrow> notification \<Rightarrow> string" where
  "formatTelegramMessage env c n =
     (let fields = ne_order env (extractImportantFields (nt_data n)) in
      getEmojiForPriority (nt_priority n) @ '' *'' @ escapeTelegramMarkdown c (nt_title n) @ ''*'' @
      newline @ newline @ escapeTelegramMarkdown c (nt_message n) @ newline @ newline @
      (if fields \<noteq> [] then details_head @ concat (map (tg_field env (nt_data n)) fields) @ newline else []) @
      tg_footer env n)"

definition tg_url :: "tg_config \<Rightarrow> string \<Rightarrow> string" where
  "tg_url c command = ''https://api.telegram.org/bot'' @ tgc_bot_token c @ ''/'' @ command"

text \<open>The status of the answer is not looked at, only the \<open>ok\<close> of its body.\<close>

definition tg_exchange ::
  "'w notify_env \<Rightarrow> http_request \<Rightarrow> 'w \<Rightarrow> channel_error option \<times> 'w" where
  "tg_exchange env req w =
     (if \<not> ne_request_ok env (hr_url req) then (Some RequestInvalid, w)
      else
        let (reply, w') = ne_http env req w in
        (case reply of
           HttpFailed \<Rightarrow> Some RequestFailed
         | HttpBodyFailed status \<Rightarrow> Some ReadFailed
         | HttpReply status body \<Rightarrow>
             (case ne_tg_parse env body of
                None \<Rightarrow> Some ParseFailed
              | Some resp \<Rightarrow> if tgr_ok resp then None
                  else Some (ErrSendFailed (tgr_error_code resp) (tgr_description resp))), w'))"

definition sendMessage ::
  "'w notify_env \<Rightarrow> tg_config \<Rightarrow> string \<Rightarrow> string \<Rightarrow> 'w \<Rightarrow> channel_error option \<times> 'w" where
  "sendMessage env c chat text' w =
     (case ne_tg_json env \<lparr>tgm_chat_id = chat, tgm_text = text', tgm_parse_mode = tgc_parse_mode c,
          tgm_no_preview = True, tgm_silent = False\<rparr> of
        None \<Rightarrow> (Some MarshalFailed, w)
      | Some payload \<Rightarrow> tg_exchange env (json_post (tg_url c ''sendMessage'') payload) w)"

definition tg_sendWithRetry ::
  "'w notify_env \<Rightarrow> tg_config \<Rightarrow> notification \<Rightarrow> string \<Rightarrow> string \<Rightarrow> 'w \<Rightarrow> channel_error option \<times> 'w" where
  "tg_sendWithRetry env c n text' chat w =
     retry_send (ne_wait env) exp_backoff (sendMessage env c chat text')
       (effective_retries (tgc_channel c) n) w"

text \<open>The loop over the chats: the last error and the number of successes.\<close>

fun tg_chats ::
  "(string \<Rightarrow> 'w \<Rightarrow> channel_error option \<times> 'w) \<Rightarrow> string list \<Rightarrow> channel_error option \<Rightarrow> int \<Rightarrow> 'w \<Rightarrow>
     (channel_error option \<times> int) \<times> 'w" where
  "tg_chats send [] lastErr count w = ((lastErr, count), w)"
| "tg_chats send (chat # chats) lastErr count w =
     (case send chat w of
        (Some err, w1) \<Rightarrow> tg_chats send chats (Some err) count w1
      | (None, w1) \<Rightarrow> tg_chats send chats lastErr (count + 1) w1)"

definition tg_Send ::
  "'w notify_env \<Rightarrow> tg_config \<Rightarrow> notification \<Rightarrow> 'w \<Rightarrow> channel_error option \<times> 'w" where
  "tg_Send env c n w =
     (let chats = getChatIDs n in
      if chats = [] then (Some (ErrChannelNotConfigured ''no chat IDs configured''), w)
      else
        let ((lastErr, count), w') =
              tg_chats (tg_sendWithRetry env c n (formatTelegramMessage env c n)) chats None 0 w in
        (case lastErr of
           Some err \<Rightarrow> if count = 0 then Some (NoChatReached err) else None
         | None \<Rightarrow> None, w'))"

definition tg_HealthCheck :: "'w notify_env \<Rightarrow> tg_config \<Rightarrow> 'w \<Rightarrow> channel_error option \<times> 'w" where
  "tg_HealthCheck env c w =
     (if \<not> cc_enabled (tgc_channel c) then (Some ChannelDisabled, w)
      else if tgc_bot_token c = [] then (Some (ErrChannelNotConfigured ''bot token not configured''), w)
      else tg_exchange env \<lparr>hr_method = ''GET'', hr_url = tg_url c ''getMe'', hr_body = [], hr_headers = []\<rparr> w)"


subsection \<open>What leaves the process\<close>

text \<open>The same world with a record of the calls that left it, and of how they ended.\<close>

datatype sent_call = HttpCall http_request http_reply | SmtpCall smtp_command bool

definition recording :: "'w notify_env \<Rightarrow> ('w \<times> sent_call list) notify_env" where
  "recording env =
     \<lparr>ne_wait = (\<lambda>d (w, l). let (b, w') = ne_wait env d w in (b, w', l)),
      ne_request_ok = ne_request_ok env,
      ne_http = (\<lambda>req (w, l). let (reply, w') = ne_http env req w in (reply, w', l @ [HttpCall req reply])),
      ne_smtp = (\<lambda>cmd (w, l). let (ok, w') = ne_smtp env cmd w in (ok, w', l @ [SmtpCall cmd ok])),
      ne_dial_ok = (\<lambda>addr (w, l). ne_dial_ok env addr w),
      ne_slack_json = ne_slack_json env, ne_tg_json = ne_tg_json env, ne_tg_parse = ne_tg_parse env,
      ne_text = ne_text env, ne_rfc3339 = ne_rfc3339 env, ne_datetime = ne_datetime env,
      ne_order = ne_order env, ne_address = ne_address env, ne_address_ok = ne_address_ok env\<rparr>"

lemma recording_simps [simp]:
  "ne_wait (recording env) d (w, l) = (fst (ne_wait env d w), snd (ne_wait env d w), l)"
  "ne_http (recording env) req (w, l) =
     (fst (ne_http env req w), snd (ne_http env req w), l @ [HttpCall req (fst (ne_http env req w))])"
  "ne_smtp (recording env) cmd (w, l) =
     (fst (ne_smtp env cmd w), snd (ne_smtp env cmd w), l @ [SmtpCall cmd (fst (ne_smtp env cmd w))])"
  "ne_request_ok (recording env) = ne_request_ok env"
  "ne_slack_json (recording env) = ne_slack_json env"
  "ne_tg_json (recording env) = ne_tg_json env"
  "ne_tg_parse (recording env) = ne_tg_parse env"
  "ne_text (recording env) = ne_text env"
  "ne_rfc3339 (recording env) = ne_rfc3339 env"
  "ne_datetime (recording env) = ne_datetime env"
  "ne_order (recording env) = ne_order env"
  "ne_address (recording env) = ne_address env"
  by (simp_all add: recording_def case_prod_beta Let_def)

definition slack_post :: "'w notify_env \<Rightarrow> string \<Rightarrow> slack_message \<Rightarrow> sent_call \<Rightarrow> bool" where
  "slack_post env url msg call = (case call of
     HttpCall req reply \<Rightarrow> (case ne_slack_json env msg of Some body \<Rightarrow> req = json_post url body | None \<Rightarrow> False)
   | SmtpCall _ _ \<Rightarrow> False)"

interpretation slack_sender: message_sender
  "sendWebhook (recording env) url msg" "ne_wait (recording env)" snd 1 "slack_post env url msg"
proof
  fix w r w'
  assume s: "sendWebhook (recording env) url msg w = (r, w')"
  obtain w0 l where w: "w = (w0, l)" by (cases w)
  show "\<exists>ms. snd w' = snd w @ ms \<and> length ms \<le> 1 \<and> list_all (slack_post env url msg) ms \<and> (r = None \<longrightarrow> ms \<noteq> [])"
  proof (cases "ne_slack_json env msg = None \<or> \<not> ne_request_ok env url")
    case True
    then show ?thesis using s unfolding w by (auto simp: sendWebhook_def split: option.splits)
  next
    case False
    then obtain body where b: "ne_slack_json env msg = Some body" by auto
    then have "snd w' = l @ [HttpCall (json_post url body) (fst (ne_http env (json_post url body) w0))]"
      using s False unfolding w by (auto simp: sendWebhook_def)
    then show ?thesis by (simp add: w slack_post_def b)
  qed
next
  show "snd (snd (ne_wait (recording env) d w)) = snd w" for d w by (cases w) simp
qed

definition tg_post :: "'w notify_env \<Rightarrow> tg_config \<Rightarrow> string \<Rightarrow> string \<Rightarrow> sent_call \<Rightarrow> bool" where
  "tg_post env c text' chat call = (case call of
     HttpCall req reply \<Rightarrow>
       (case ne_tg_json env \<lparr>tgm_chat_id = chat, tgm_text = text', tgm_parse_mode = tgc_parse_mode c,
            tgm_no_preview = True, tgm_silent = False\<rparr> of
          Some body \<Rightarrow> req = json_post (tg_url c ''sendMessage'') body | None \<Rightarrow> False)
   | SmtpCall _ _ \<Rightarrow> False)"

interpretation tg_sender: message_sender
  "sendMessage (recording env) c chat text'" "ne_wait (recording env)" snd 1 "tg_post env c text' chat"
proof
  fix w r w'
  assume s: "sendMessage (recording env) c chat text' w = (r, w')"
  obtain w0 l where w: "w = (w0, l)" by (cases w)
  show "\<exists>ms. snd w' = snd w @ ms \<and> length ms \<le> 1 \<and> list_all (tg_post env c text' chat) ms \<and> (r = None \<longrightarrow> ms \<noteq> [])"
  proof (cases "ne_tg_json env \<lparr>tgm_chat_id = chat, tgm_text = text', tgm_parse_mode = tgc_parse_mode c,
        tgm_no_preview = True, tgm_silent = False\<rparr> = None \<or> \<not> ne_request_ok env (tg_url c ''sendMessage'')")
    case True
    then show ?thesis using s unfolding w
      by (auto simp: sendMessage_def tg_exchange_def json_post_def split: option.splits)
  next
    case False
    then obtain body where b: "ne_tg_json env \<lparr>tgm_chat_id = chat, tgm_text = text',
        tgm_parse_mode = tgc_parse_mode c, tgm_no_preview = True, tgm_silent = False\<rparr> = Some body" by auto
    let ?req = "json_post (tg_url c ''sendMessage'') body"
    have "hr_url ?req = tg_url c ''sendMessage''" by (simp add: json_post_def)
    then have "snd w' = l @ [HttpCall ?req (fst (ne_http env ?req w0))]"
      using s False b unfolding w by (auto simp: sendMessage_def tg_exchange_def)
    then show ?thesis by (simp add: w tg_post_def b)
  qed
next
  show "snd (snd (ne_wait (recording env) d w)) = snd w" for d w by (cases w) simp
qed

lemma recording_field_text [simp]: "field_text (recording env) = field_text env"
  by (simp add: field_text_def fun_eq_iff split: option.splits)

lemma recording_format [simp]:
  "formatSlackMessage (recording env) n = formatSlackMessage env n"
  "formatTelegramMessage (recording env) c n = formatTelegramMessage env c n"
proof -
  have "tg_field (recording env) = tg_field env" by (simp add: tg_field_def fun_eq_iff)
  then show "formatTelegramMessage (recording env) c n = formatTelegramMessage env c n"
    by (simp add: formatTelegramMessage_def tg_footer_def Let_def)
qed (simp add: formatSlackMessage_def slack_fields_def Let_def)

lemma slack_Send_posts:
  assumes "slack_Send (recording env) c n w = (r, w')"
  shows "\<exists>ms. snd w' = snd w @ ms \<and> length ms \<le> nat (effective_retries (slc_channel c) n + 1) \<and>
     list_all (slack_post env (getWebhookURL c n) (formatSlackMessage env n)) ms \<and> (r = None \<longrightarrow> ms \<noteq> [])"
proof (cases "getWebhookURL c n = []")
  case True
  then show ?thesis using assms by (auto simp: slack_Send_def)
next
  case False
  then have "retry_send (ne_wait (recording env)) exp_backoff
      (sendWebhook (recording env) (getWebhookURL c n) (formatSlackMessage env n))
      (effective_retries (slc_channel c) n) w = (r, w')"
    using assms by (simp add: slack_Send_def)
  from slack_sender.retry_send_bounded [OF this] show ?thesis by simp
qed

subsection \<open>Telegram's Markdown\<close>

text \<open>
  The occurrences of \<open>c\<close> that no backslash precedes; the flag says whether a backslash comes before
  the text.
\<close>

fun bare :: "char \<Rightarrow> bool \<Rightarrow> string \<Rightarrow> nat" where
  "bare c esc [] = 0"
| "bare c esc (x # xs) = (if x = c \<and> \<not> esc then 1 else 0) + bare c (x = CHR 0x5C) xs"

lemma bare_append:
  "bare c esc (xs @ ys) = bare c esc xs + bare c (if xs = [] then esc else last xs = CHR 0x5C) ys"
  by (induction xs arbitrary: esc) auto

lemma bare_absent: "c \<notin> set xs \<Longrightarrow> bare c esc xs = 0"
  by (induction xs arbitrary: esc) auto

lemma bare_backslashed: "c \<in> set cs \<Longrightarrow> c \<noteq> CHR 0x5C \<Longrightarrow> bare c esc (replace_chars (backslashed cs) s) = 0"
proof (induction s arbitrary: esc)
  case (Cons x xs)
  then show ?case by (cases "x \<in> set cs") (auto simp: replace_chars_def backslashed_def)
qed (simp add: replace_chars_def)

lemma bare_concat: "(\<And>x. x \<in> set xs \<Longrightarrow> CHR ''_'' \<notin> set x) \<Longrightarrow> CHR ''_'' \<notin> set (concat xs)"
  by auto

lemma no_underscore [simp]:
  "CHR ''_'' \<notin> set (getEmojiForPriority p)" "CHR ''_'' \<notin> set newline" "CHR ''_'' \<notin> set bullet"
  "CHR ''_'' \<notin> set details_head" "CHR ''_'' \<notin> set (formatFieldName k)"
  by (simp_all add: getEmojiForPriority_def newline_def bullet_def details_head_def formatFieldName_spaces image_iff)

definition event_types :: "string list" where
  "event_types = [''order_filled'', ''order_rejected'', ''order_cancelled'', ''risk_alert'',
     ''position_opened'', ''position_closed'', ''system_alert'', ''maintenance_notice'']"

lemma event_bare: "event \<in> set event_types \<Longrightarrow> bare CHR ''_'' False event = 1 \<and> event \<noteq> [] \<and> last event \<noteq> CHR 0x5C"
  by (auto simp: event_types_def)

text \<open>
  Every Markdown message of the service is unbalanced.  For each event type of the service, in either
  Markdown mode, the formatted text has exactly three underscores without a backslash: the pair of
  the footer and the one in the event type, which is not escaped.  Telegram's documentation pairs
  them and refuses a text with one left over.
\<close>

theorem telegram_underscores_odd:
  assumes "tgc_parse_mode c = ''Markdown'' \<or> tgc_parse_mode c = ''MarkdownV2''"
    and "nt_event_type n \<in> set event_types"
    and "CHR ''_'' \<notin> set (ne_datetime env (nt_timestamp n))" "CHR 0x5C \<notin> set (ne_datetime env (nt_timestamp n))"
    and "\<And>ks. set (ne_order env ks) = set ks"
    and "\<And>k v. nt_data n k = Some v \<Longrightarrow> k \<in> set important_keys \<Longrightarrow> CHR ''_'' \<notin> set (ne_text env v)"
  shows "bare CHR ''_'' False (formatTelegramMessage env c n) = 3"
proof -
  let ?b = "bare CHR ''_''"
  have esc: "?b e (escapeTelegramMarkdown c s) = 0" for e s
    using assms(1) bare_backslashed [of "CHR ''_''"] by (auto simp: escapeTelegramMarkdown_def)
  define fields where "fields = ne_order env (extractImportantFields (nt_data n))"
  define mid where "mid = newline @ newline @ (if fields \<noteq> [] then details_head @
       concat (map (tg_field env (nt_data n)) fields) @ newline else [])"
  have "CHR ''_'' \<notin> set (tg_field env (nt_data n) k)" if "k \<in> set fields" for k
    using that assms(5,6) by (auto simp: fields_def extractImportantFields_def tg_field_def field_text_def split: option.splits)
  then have m: "CHR ''_'' \<notin> set mid" by (auto simp: mid_def)
  have ml: "mid \<noteq> [] \<and> last mid \<noteq> CHR 0x5C" by (auto simp: mid_def newline_def)
  have dl: "ne_datetime env (nt_timestamp n) \<noteq> [] \<Longrightarrow> last (ne_datetime env (nt_timestamp n)) \<noteq> CHR 0x5C"
    using assms(4) last_in_set by metis
  have f: "?b False (tg_footer env n) = 3"
    using event_bare [OF assms(2)] assms(3) dl
    by (auto simp: tg_footer_def bare_append bare_absent bullet_def)
  have "formatTelegramMessage env c n = getEmojiForPriority (nt_priority n) @ '' *'' @
      escapeTelegramMarkdown c (nt_title n) @ (''*'' @ newline @ newline) @
      escapeTelegramMarkdown c (nt_message n) @ mid @ tg_footer env n"
    by (simp add: formatTelegramMessage_def fields_def mid_def Let_def)
  moreover have "?b e (mid @ tg_footer env n) = 3" for e
    using m ml f by (simp add: bare_append bare_absent)
  moreover have "?b e (xs @ escapeTelegramMarkdown c s @ r) = k"
    if "CHR ''_'' \<notin> set xs" "\<And>e. ?b e r = k" for e xs s r k
    using that esc by (simp add: bare_append bare_absent)
  ultimately show ?thesis by (simp add: bare_append bare_absent esc newline_def)
qed


lemma tg_sendWithRetry_posts:
  assumes "tg_sendWithRetry (recording env) c n text' chat w = (r, w')"
  shows "\<exists>ms. snd w' = snd w @ ms \<and> length ms \<le> nat (effective_retries (tgc_channel c) n + 1) \<and>
     list_all (tg_post env c text' chat) ms \<and> (r = None \<longrightarrow> ms \<noteq> [])"
  using tg_sender.retry_send_bounded [OF assms [unfolded tg_sendWithRetry_def]] by simp

lemma tg_chats_reached:
  assumes "tg_chats send chats le k w = ((le', k'), w')"
  shows "k \<le> k' \<and> (k' = k \<longrightarrow> le' \<noteq> None \<or> chats = [] \<and> le' = le)"
  using assms
proof (induction chats arbitrary: le k w)
  case (Cons chat chats)
  obtain q w1 where q: "send chat w = (q, w1)" by fastforce
  show ?case
  proof (cases q)
    case None
    then have "tg_chats send chats le (k + 1) w1 = ((le', k'), w')" using Cons.prems q by simp
    from Cons.IH [OF this] show ?thesis by auto
  next
    case (Some err)
    then have "tg_chats send chats (Some err) k w1 = ((le', k'), w')" using Cons.prems q by simp
    from Cons.IH [OF this] show ?thesis by auto
  qed
qed simp

text \<open>The result of every chat, in the order they are tried.\<close>

fun chat_results ::
  "(string \<Rightarrow> 'w \<Rightarrow> channel_error option \<times> 'w) \<Rightarrow> string list \<Rightarrow> 'w \<Rightarrow> channel_error option list" where
  "chat_results send [] w = []"
| "chat_results send (chat # chats) w = (let (r, w1) = send chat w in r # chat_results send chats w1)"

lemma tg_chats_results:
  "tg_chats send chats le k w = ((le', k'), w') \<Longrightarrow>
     k' = k + int (length (filter (\<lambda>r. r = None) (chat_results send chats w)))"
proof (induction chats arbitrary: le k w)
  case (Cons chat chats)
  obtain q w1 where q: "send chat w = (q, w1)" by fastforce
  show ?case
  proof (cases q)
    case None
    then have "tg_chats send chats le (k + 1) w1 = ((le', k'), w')" using Cons.prems q by simp
    from Cons.IH [OF this] show ?thesis using q None by simp
  next
    case (Some err)
    then have "tg_chats send chats (Some err) k w1 = ((le', k'), w')" using Cons.prems q by simp
    from Cons.IH [OF this] show ?thesis using q Some by simp
  qed
qed simp

text \<open>
  When Telegram counts as done.  \<open>Send\<close> reports success exactly when at least one chat got the message,
  so a chat that was not reached is neither reported nor tried again once another one was.
\<close>

theorem tg_Send_any_chat:
  assumes "tg_Send env c n w = (r, w')"
  shows "r = None \<longleftrightarrow> None \<in> set (chat_results
     (tg_sendWithRetry env c n (formatTelegramMessage env c n)) (getChatIDs n) w)"
proof (cases "getChatIDs n = []")
  case True
  then show ?thesis using assms by (auto simp: tg_Send_def Let_def)
next
  case False
  let ?send = "tg_sendWithRetry env c n (formatTelegramMessage env c n)"
  obtain le k w1 where t: "tg_chats ?send (getChatIDs n) None 0 w = ((le, k), w1)" by (metis surj_pair)
  have k: "k = int (length (filter (\<lambda>r. r = None) (chat_results ?send (getChatIDs n) w)))"
    using tg_chats_results [OF t] by simp
  have none: "(\<forall>x\<in>S. \<not> (x = None)) \<longleftrightarrow> None \<notin> S" for S :: "channel_error option set" by metis
  have "k = 0 \<longleftrightarrow> None \<notin> set (chat_results ?send (getChatIDs n) w)"
    unfolding k of_nat_eq_0_iff length_0_conv filter_empty_conv by (rule none)
  moreover have "r = None \<longleftrightarrow> le = None \<or> k \<noteq> 0"
    using assms False t by (auto simp: tg_Send_def Let_def split: option.splits if_splits)
  ultimately show ?thesis using tg_chats_reached [OF t] False by auto
qed


subsection \<open>Concrete runs\<close>

text \<open>A world in which every call succeeds or every call fails.\<close>

definition sample_notify :: "bool \<Rightarrow> unit notify_env" where
  "sample_notify up = \<lparr>ne_wait = (\<lambda>d w. (False, w)), ne_request_ok = (\<lambda>u. True),
     ne_http = (\<lambda>req w. (HttpReply (if up then 200 else 500) [], w)), ne_smtp = (\<lambda>cmd w. (up, w)),
     ne_dial_ok = (\<lambda>a w. up), ne_slack_json = (\<lambda>m. Some (slm_text m)), ne_tg_json = (\<lambda>m. Some (tgm_text m)),
     ne_tg_parse = (\<lambda>b. Some \<lparr>tgr_ok = up, tgr_error_code = 400, tgr_description = []\<rparr>),
     ne_text = (\<lambda>v. case v of VString s \<Rightarrow> s | _ \<Rightarrow> []), ne_rfc3339 = (\<lambda>t. ''2025-01-01T00:00:00Z''),
     ne_datetime = (\<lambda>t. ''2025-01-01 00:00:00''), ne_order = (\<lambda>ks. ks), ne_address = (\<lambda>n a. a),
     ne_address_ok = (\<lambda>a. True)\<rparr>"

definition sample_notification :: notification where
  "sample_notification = (NewNotification 0 ''u1'' ''order_filled'' ''Order Filled'' ''Your order'')
     \<lparr>nt_data := [''symbol'' \<mapsto> VString ''<b>X</b>'', ''telegram_chat_id'' \<mapsto> VString ''7'',
       ''email'' \<mapsto> VString ''a@b.c'', ''slack_webhook_url'' \<mapsto> VString ''https://hooks'']\<rparr>"

definition sample_tg :: tg_config where
  "sample_tg = \<lparr>tgc_channel = DefaultChannelConfig, tgc_bot_token = ''t'', tgc_parse_mode = ''Markdown'',
     tgc_webhook_url = [], tgc_webhook_secret = []\<rparr>"

definition sample_slack :: slack_config where
  "sample_slack = \<lparr>slc_channel = DefaultChannelConfig, slc_webhook = [], slc_bot_token = ''t'', slc_signing_secret = []\<rparr>"

theorem telegram_underscores_odd_witness:
  "bare CHR ''_'' False (formatTelegramMessage (sample_notify True) sample_tg sample_notification) = 3"
  by (rule telegram_underscores_odd)
    (auto simp: sample_notify_def sample_notification_def NewNotification_def sample_tg_def event_types_def
      important_keys_def split: if_splits)

theorem tg_Send_any_chat_witness:
  "\<exists>r. fst (tg_Send (sample_notify True) sample_tg sample_notification ()) = r \<and>
     (r = None \<longleftrightarrow> None \<in> set (chat_results (tg_sendWithRetry (sample_notify True) sample_tg sample_notification
        (formatTelegramMessage (sample_notify True) sample_tg sample_notification))
        (getChatIDs sample_notification) ()))"
  using tg_Send_any_chat [OF surjective_pairing, of "sample_notify True" sample_tg sample_notification "()"] by simp

end
