(* ===== verification/Notify_Email.thy ===== *)
theory Notify_Email
  imports Notify_Channels
begin

text \<open>
  The e-mail channel of \<open>notification-service/internal/channels/email.go\<close>: recipients, the MIME text and
  the SMTP conversation under the retry loop.
\<close>

record email_config =
  emc_channel :: channel_config
  emc_host :: string
  emc_port :: int
  emc_username :: string
  emc_password :: string
  emc_from :: string
  emc_from_name :: string
  emc_tls :: bool
  emc_starttls :: bool

record email_message =
  em_to :: "string list"
  em_cc :: "string list"
  em_bcc :: "string list"
  em_subject :: string
  em_html :: string
  em_text :: string
  em_headers :: "(string \<times> string) list"

definition email_Validate :: "'w notify_env \<Rightarrow> email_config \<Rightarrow> channel_error option" where
  "email_Validate env c =
     (if \<not> cc_enabled (emc_channel c) then None
      else if emc_host c = [] then Some (ErrInvalidConfig ''SMTP host required'')
      else if emc_port c \<le> 0 \<or> 65535 < emc_port c then Some (ErrInvalidConfig ''invalid SMTP port'')
      else if emc_from c = [] then Some (ErrInvalidConfig ''from email required'')
      else if \<not> ne_address_ok env (emc_from c) then Some (ErrInvalidConfig ''invalid from email address'')
      else None)"

definition NewEmailChannel :: "'w notify_env \<Rightarrow> email_config option \<Rightarrow> channel_error + email_config" where
  "NewEmailChannel env config =
     (let c = (case config of Some c \<Rightarrow> c | None \<Rightarrow> \<lparr>emc_channel = DefaultChannelConfig,
           emc_host = [], emc_port = 587, emc_username = [], emc_password = [], emc_from = [],
           emc_from_name = [], emc_tls = False, emc_starttls = True\<rparr>) in
      case email_Validate env c of Some e \<Rightarrow> Inl e | None \<Rightarrow> Inr c)"

definition getRecipients :: "notification \<Rightarrow> string list" where
  "getRecipients n = addresses_of ''email'' ''emails'' (nt_data n)"

subsection \<open>The text\<close>

definition html_escape :: "string \<Rightarrow> string" where
  "html_escape = replace_chars (\<lambda>c.
     if c = CHR ''&'' then Some ''&amp;'' else if c = CHR 0x27 then Some ''&#39;''
     else if c = CHR ''<'' then Some ''&lt;'' else if c = CHR ''>'' then Some ''&gt;''
     else if c = CHR 0x22 then Some ''&#34;'' else None)"

definition email_color :: "priority \<Rightarrow> string" where
  "email_color p =
     (if p = PriorityLow then ''#4CAF50'' else if p = PriorityNormal then ''#2196F3''
      else if p = PriorityHigh then ''#FF9800'' else if p = PriorityCritical then ''#F44336''
      else ''#9E9E9E'')"

definition getPriorityHeader :: "priority \<Rightarrow> string" where
  "getPriorityHeader p =
     (if p = PriorityLow then ''5'' else if p = PriorityNormal then ''3''
      else if p = PriorityHigh then ''2'' else if p = PriorityCritical then ''1'' else ''3'')"

definition quoted :: "string \<Rightarrow> string" where
  "quoted s = CHR 0x22 # s @ [CHR 0x22]"

definition html_head :: "priority \<Rightarrow> string" where
  "html_head p =
     ''<!DOCTYPE html>'' @ newline @ ''<html>'' @ newline @ ''<head>'' @ newline @
     ''<meta charset='' @ quoted ''UTF-8'' @ ''>'' @ newline @ ''<style>'' @ newline @
     ''body { font-family: Arial, sans-serif; line-height: 1.6; color: #333; }'' @ newline @
     ''.container { max-width: 600px; margin: 0 auto; padding: 20px; }'' @ newline @
     ''.header { background-color: '' @ email_color p @
       ''; color: white; padding: 20px; border-radius: 5px 5px 0 0; }'' @ newline @
     ''.content { background-color: #f9f9f9; padding: 20px; border: 1px solid #ddd; }'' @ newline @
     ''.footer { background-color: #f1f1f1; padding: 10px; font-size: 12px; color: #666; border-radius: 0 0 5px 5px; }'' @ newline @
     ''.field { margin: 10px 0; }'' @ newline @
     ''.field-label { font-weight: bold; color: #555; }'' @ newline @
     ''.field-value { color: #333; }'' @ newline @
     ''</style>'' @ newline @ ''</head>'' @ newline @ ''<body>'' @ newline @
     ''<div class='' @ quoted ''container'' @ ''>'' @ newline"

definition html_field :: "'w notify_env \<Rightarrow> any_map \<Rightarrow> string \<Rightarrow> string" where
  "html_field env data k =
     ''<div class='' @ quoted ''field'' @ ''>'' @ newline @
     ''<span class='' @ quoted ''field-label'' @ ''>'' @ formatFieldName k @ '':</span> '' @
     ''<span class='' @ quoted ''field-value'' @ ''>'' @ field_text env data k @ ''</span>'' @ newline @
     ''</div>'' @ newline"

definition formatHTMLEmail :: "'w notify_env \<Rightarrow> notification \<Rightarrow> string" where
  "formatHTMLEmail env n =
     html_head (nt_priority n) @
     ''<div class='' @ quoted ''header'' @ ''>'' @ newline @
     ''<h2>'' @ getEmojiForPriority (nt_priority n) @ '' '' @ html_escape (nt_title n) @ ''</h2>'' @ newline @
     ''</div>'' @ newline @
     ''<div class='' @ quoted ''content'' @ ''>'' @ newline @
     ''<p>'' @ html_escape (nt_message n) @ ''</p>'' @ newline @
     (if nt_data n \<noteq> Map.empty then
        ''<hr>'' @ newline @ ''<h3>Details</h3>'' @ newline @
        concat (map (html_field env (nt_data n)) (ne_order env (extractImportantFields (nt_data n))))
      else []) @
     ''</div>'' @ newline @
     ''<div class='' @ quoted ''footer'' @ ''>'' @ newline @
     ''<p>Event: '' @ html_escape (nt_event_type n) @ '' | Time: '' @
       ne_datetime env (nt_timestamp n) @ ''</p>'' @ newline @
     ''<p>This is an automated notification from AIPX Trading Platform</p>'' @ newline @
     ''</div>'' @ newline @ ''</div>'' @ newline @ ''</body>'' @ newline @ ''</html>''"

definition formatPlainTextEmail :: "'w notify_env \<Rightarrow> notification \<Rightarrow> string" where
  "formatPlainTextEmail env n =
     getEmojiForPriority (nt_priority n) @ '' '' @ nt_title n @ newline @
     replicate 60 (CHR ''='') @ newline @ newline @ nt_message n @ newline @ newline @
     (if nt_data n \<noteq> Map.empty then
        ''Details:'' @ newline @ replicate 60 (CHR ''-'') @ newline @
        concat (map (\<lambda>k. formatFieldName k @ '': '' @ field_text env (nt_data n) k @ newline)
          (ne_order env (extractImportantFields (nt_data n)))) @ newline
      else []) @
     replicate 60 (CHR ''-'') @ newline @
     ''Event: '' @ nt_event_type n @ newline @
     ''Time: '' @ ne_datetime env (nt_timestamp n) @ newline @ newline @
     ''This is an automated notification from AIPX Trading Platform'' @ newline"

definition createEmailMessage :: "'w notify_env \<Rightarrow> notification \<Rightarrow> string list \<Rightarrow> email_message" where
  "createEmailMessage env n recipients =
     \<lparr>em_to = recipients, em_cc = [], em_bcc = [], em_subject = nt_title n,
      em_html = formatHTMLEmail env n, em_text = formatPlainTextEmail env n,
      em_headers = [(''X-Priority'', getPriorityHeader (nt_priority n)),
        (''X-Event-Type'', nt_event_type n), (''X-Notification'', ''AIPX-Trading-Platform'')]\<rparr>"

text \<open>The header lines, each without its line end; the custom headers come in map order.\<close>

definition header_lines :: "'w notify_env \<Rightarrow> email_config \<Rightarrow> email_message \<Rightarrow> string list" where
  "header_lines env c msg =
     [''From: '' @ ne_address env (emc_from_name c) (emc_from c)] @
     (if em_to msg \<noteq> [] then [''To: '' @ join_with '', '' (em_to msg)] else []) @
     (if em_cc msg \<noteq> [] then [''Cc: '' @ join_with '', '' (em_cc msg)] else []) @
     [''Subject: '' @ em_subject msg] @
     map (\<lambda>k. k @ '': '' @ (case map_of (em_headers msg) k of Some v \<Rightarrow> v | None \<Rightarrow> []))
       (ne_order env (map fst (em_headers msg))) @
     [''MIME-Version: 1.0'', ''Content-Type: multipart/alternative; boundary=boundary-aipx'']"

definition mime_part :: "string \<Rightarrow> string \<Rightarrow> string" where
  "mime_part kind body =
     ''--boundary-aipx'' @ crlf @ ''Content-Type: text/'' @ kind @ ''; charset=utf-8'' @ crlf @
     ''Content-Transfer-Encoding: 8bit'' @ crlf @ crlf @ body @ crlf @ crlf"

definition buildMIMEMessage :: "'w notify_env \<Rightarrow> email_config \<Rightarrow> email_message \<Rightarrow> string" where
  "buildMIMEMessage env c msg =
     concat (map (\<lambda>l. l @ crlf) (header_lines env c msg)) @ crlf @
     mime_part ''plain'' (em_text msg) @ mime_part ''html'' (em_html msg) @
     ''--boundary-aipx--'' @ crlf"

subsection \<open>The SMTP conversation\<close>

text \<open>Commands one after the other, up to the first that fails.\<close>

fun smtp_run :: "'w notify_env \<Rightarrow> smtp_command list \<Rightarrow> 'w \<Rightarrow> channel_error option \<times> 'w" where
  "smtp_run env [] w = (None, w)"
| "smtp_run env (cmd # cmds) w =
     (let (ok, w1) = ne_smtp env cmd w in
      if ok then smtp_run env cmds w1 else (Some (SmtpFailed cmd), w1))"

definition smtp_quit :: "'w notify_env \<Rightarrow> 'w \<Rightarrow> 'w" where
  "smtp_quit env w = snd (ne_smtp env Quit w)"

definition auth_commands :: "email_config \<Rightarrow> smtp_command list" where
  "auth_commands c = (if emc_username c \<noteq> [] \<and> emc_password c \<noteq> []
     then [Auth (emc_username c) (emc_password c) (emc_host c)] else [])"

definition mail_commands :: "email_config \<Rightarrow> string \<Rightarrow> string list \<Rightarrow> smtp_command list" where
  "mail_commands c emailData recipients =
     MailFrom (emc_from c) # map RcptTo recipients @ [DataStart, DataWrite emailData, DataClose]"

text \<open>Once there is a client, its \<open>Quit\<close> is deferred.\<close>

definition sendWithTLS ::
  "'w notify_env \<Rightarrow> email_config \<Rightarrow> string \<Rightarrow> string \<Rightarrow> string list \<Rightarrow> 'w \<Rightarrow> channel_error option \<times> 'w" where
  "sendWithTLS env c addr emailData recipients w =
     (case smtp_run env [TlsDial addr, TlsClient (emc_host c)] w of
        (Some e, w1) \<Rightarrow> (Some e, w1)
      | (None, w1) \<Rightarrow>
          let (r, w2) = smtp_run env (auth_commands c @ mail_commands c emailData recipients) w1 in
          (r, smtp_quit env w2))"

definition sendWithStartTLS ::
  "'w notify_env \<Rightarrow> email_config \<Rightarrow> string \<Rightarrow> string \<Rightarrow> string list \<Rightarrow> 'w \<Rightarrow> channel_error option \<times> 'w" where
  "sendWithStartTLS env c addr emailData recipients w =
     (case smtp_run env [PlainDial addr] w of
        (Some e, w1) \<Rightarrow> (Some e, w1)
      | (None, w1) \<Rightarrow>
          let (r, w2) = smtp_run env (Hello ''localhost'' #
                (if emc_starttls c then [StartTLS (emc_host c)] else []) @
                auth_commands c @ mail_commands c emailData recipients) w1 in
          (r, smtp_quit env w2))"

definition sendEmail ::
  "'w notify_env \<Rightarrow> email_config \<Rightarrow> email_message \<Rightarrow> 'w \<Rightarrow> channel_error option \<times> 'w" where
  "sendEmail env c msg w =
     (let addr = emc_host c @ '':'' @ int_str (emc_port c);
          emailData = buildMIMEMessage env c msg;
          allRecipients = em_to msg @ em_cc msg @ em_bcc msg in
      if emc_tls c then sendWithTLS env c addr emailData allRecipients w
      else sendWithStartTLS env c addr emailData allRecipients w)"

definition email_Send ::
  "'w notify_env \<Rightarrow> email_config \<Rightarrow> notification \<Rightarrow> 'w \<Rightarrow> channel_error option \<times> 'w" where
  "email_Send env c n w =
     (let recipients = getRecipients n in
      if recipients = [] then (Some (ErrChannelNotConfigured ''no recipients configured''), w)
      else retry_send (ne_wait env) exp_backoff (sendEmail env c (createEmailMessage env n recipients))
        (effective_retries (emc_channel c) n) w)"

definition email_HealthCheck :: "'w notify_env \<Rightarrow> email_config \<Rightarrow> 'w \<Rightarrow> channel_error option \<times> 'w" where
  "email_HealthCheck env c w =
     (if \<not> cc_enabled (emc_channel c) then (Some ChannelDisabled, w)
      else if \<not> ne_dial_ok env (emc_host c @ '':'' @ int_str (emc_port c)) w
      then (Some (SmtpFailed (PlainDial (emc_host c @ '':'' @ int_str (emc_port c)))), w)
      else (None, w))"

subsection \<open>What an attempt hands over\<close>

text \<open>
  Whether every command that gives away credentials, addresses or text comes after a successful
  start of TLS, given whether TLS is up.
\<close>

fun confidential :: "smtp_command \<Rightarrow> bool" where
  "confidential (Auth _ _ _) = True"
| "confidential (MailFrom _) = True"
| "confidential (RcptTo _) = True"
| "confidential (DataWrite _) = True"
| "confidential _ = False"

fun starts_tls :: "smtp_command \<Rightarrow> bool" where
  "starts_tls (TlsDial _) = True"
| "starts_tls (StartTLS _) = True"
| "starts_tls _ = False"

fun tls_first :: "bool \<Rightarrow> sent_call list \<Rightarrow> bool" where
  "tls_first up [] = True"
| "tls_first up (HttpCall _ _ # cs) = tls_first up cs"
| "tls_first up (SmtpCall cmd ok # cs) =
     ((confidential cmd \<longrightarrow> up) \<and> tls_first (up \<or> ok \<and> starts_tls cmd) cs)"

lemma tls_first_up: "tls_first True cs"
proof (induction cs)
  case (Cons c cs)
  then show ?case by (cases c) auto
qed simp

lemma tls_first_quit: "tls_first up (l @ [SmtpCall Quit b]) \<longleftrightarrow> tls_first up l"
  by (induction up l rule: tls_first.induct) auto

lemma tls_first_append:
  "tls_first up (map (\<lambda>c. SmtpCall c True) cmds @ l) \<longleftrightarrow>
     tls_first up (map (\<lambda>c. SmtpCall c True) cmds) \<and> tls_first (up \<or> list_ex starts_tls cmds) l"
  by (induction cmds arbitrary: up) (auto simp: disj_assoc)

text \<open>The same for a plan of commands.\<close>

fun tls_plan :: "bool \<Rightarrow> smtp_command list \<Rightarrow> bool" where
  "tls_plan up [] = True"
| "tls_plan up (c # cs) = ((confidential c \<longrightarrow> up) \<and> tls_plan (up \<or> starts_tls c) cs)"

lemma tls_plan_up: "tls_plan True cs"
  by (induction cs) auto

fun smtp_part :: "sent_call \<Rightarrow> smtp_command" where
  "smtp_part (SmtpCall c _) = c"
| "smtp_part (HttpCall _ _) = Quit"

fun writes_mail :: "smtp_command \<Rightarrow> bool" where
  "writes_mail (DataWrite _) = True"
| "writes_mail _ = False"

lemma smtp_run_log:
  assumes "smtp_run (recording env) cmds w = (r, w')"
  shows "\<exists>l. snd w' = snd w @ l \<and> prefix (map smtp_part l) cmds \<and> list_all (\<lambda>x. \<exists>c b. x = SmtpCall c b) l \<and>
     (r = None \<longrightarrow> l = map (\<lambda>c. SmtpCall c True) cmds) \<and> (tls_plan up cmds \<longrightarrow> tls_first up l)"
  using assms
proof (induction cmds arbitrary: w up)
  case (Cons c cs)
  obtain w0 l0 where w: "w = (w0, l0)" by (cases w)
  show ?case
  proof (cases "fst (ne_smtp env c w0)")
    case True
    then have "smtp_run (recording env) cs (snd (ne_smtp env c w0), l0 @ [SmtpCall c True]) = (r, w')"
      using Cons.prems by (simp add: w)
    from Cons.IH [OF this, of "up \<or> starts_tls c"] obtain l where
      "snd w' = l0 @ [SmtpCall c True] @ l" "prefix (map smtp_part l) cs" "list_all (\<lambda>x. \<exists>c b. x = SmtpCall c b) l"
      "r = None \<longrightarrow> l = map (\<lambda>c. SmtpCall c True) cs" "tls_plan (up \<or> starts_tls c) cs \<longrightarrow> tls_first (up \<or> starts_tls c) l" by auto
    then show ?thesis by (intro exI [of _ "SmtpCall c True # l"]) (auto simp: w)
  next
    case False
    then show ?thesis using Cons.prems by (intro exI [of _ "[SmtpCall c False]"]) (auto simp: w)
  qed
qed auto

lemma tls_plan_true_log: "tls_plan up cmds \<Longrightarrow> tls_first up (map (\<lambda>c. SmtpCall c True) cmds)"
  by (induction cmds arbitrary: up) auto

lemma filter_prefix_length: "prefix xs ys \<Longrightarrow> length (filter P xs) \<le> length (filter P ys)"
  by (auto simp: prefix_def)

text \<open>Both ways of sending are a first stage, a second stage and \<open>Quit\<close>.\<close>

lemma two_stages:
  assumes "(case smtp_run (recording env) cmds1 w of
        (Some e, w1) \<Rightarrow> (Some e, w1)
      | (None, w1) \<Rightarrow> let (r, w2) = smtp_run (recording env) cmds2 w1 in (r, smtp_quit (recording env) w2)) = (r, w')"
    and "filter writes_mail cmds1 = []"
  shows "\<exists>l. snd w' = snd w @ l \<and> (tls_plan False (cmds1 @ cmds2) \<longrightarrow> tls_first False l) \<and> length (filter (\<lambda>x. writes_mail (smtp_part x)) l) \<le> length (filter writes_mail cmds2) \<and>
     set (map smtp_part l) \<subseteq> set (cmds1 @ cmds2) \<union> {Quit} \<and>
     (r = None \<longrightarrow> (\<lambda>c. SmtpCall c True) ` set (cmds1 @ cmds2) \<subseteq> set l)"
proof -
  have plan: "tls_plan up (a @ b) \<longleftrightarrow> tls_plan up a \<and> tls_plan (up \<or> list_ex starts_tls a) b" for up a b
    by (induction a arbitrary: up) (auto simp: disj_assoc)
  have filter_part: "length (filter (\<lambda>x. writes_mail (smtp_part x)) l) = length (filter writes_mail (map smtp_part l))" for l
    by (induction l) auto
  obtain q w1 where q: "smtp_run (recording env) cmds1 w = (q, w1)" by (metis surj_pair)
  from smtp_run_log [OF q, of False] obtain l1 where l1: "snd w1 = snd w @ l1" "prefix (map smtp_part l1) cmds1"
    "q = None \<longrightarrow> l1 = map (\<lambda>c. SmtpCall c True) cmds1" "tls_plan False cmds1 \<longrightarrow> tls_first False l1" by auto
  have t1: "tls_plan False (cmds1 @ cmds2) \<Longrightarrow> tls_first False l1" using l1(4) by (simp add: plan)
  have f1: "filter writes_mail (map smtp_part l1) = []"
    using filter_prefix_length [OF l1(2), of writes_mail] assms(2) by (simp only: length_0_conv list.size(3) le_zero_eq)
  have s1: "set (map smtp_part l1) \<subseteq> set cmds1" by (rule set_mono_prefix [OF l1(2)])
  show ?thesis
  proof (cases q)
    case (Some e)
    then have "r = Some e" "w' = w1" using assms(1) q by auto
    then show ?thesis using l1(1) t1 f1 s1 by (intro exI [of _ l1]) (auto simp: filter_part)
  next
    case None
    obtain q2 w2 where q2: "smtp_run (recording env) cmds2 w1 = (q2, w2)" by (metis surj_pair)
    obtain v l where w2: "w2 = (v, l)" by (cases w2)
    have r: "r = q2" "w' = smtp_quit (recording env) w2" using assms(1) q q2 None by auto
    from smtp_run_log [OF q2, of "list_ex starts_tls cmds1"] obtain l2 where l2: "snd w2 = snd w1 @ l2"
      "prefix (map smtp_part l2) cmds2" "q2 = None \<longrightarrow> l2 = map (\<lambda>c. SmtpCall c True) cmds2"
      "tls_plan (list_ex starts_tls cmds1) cmds2 \<longrightarrow> tls_first (list_ex starts_tls cmds1) l2" by auto
    have e1: "l1 = map (\<lambda>c. SmtpCall c True) cmds1" using l1(3) None by simp
    have t2: "tls_first False (l1 @ l2)" if "tls_plan False (cmds1 @ cmds2)"
      using t1 [OF that] l2(4) that unfolding e1 by (simp add: tls_first_append plan)
    have s2: "set (map smtp_part l2) \<subseteq> set cmds2" by (rule set_mono_prefix [OF l2(2)])
    let ?b = "fst (ne_smtp env Quit v)"
    have w': "snd w' = snd w @ (l1 @ l2) @ [SmtpCall Quit ?b]"
      using r(2) l1(1) l2(1) by (simp add: smtp_quit_def w2)
    show ?thesis
    proof (intro exI [of _ "(l1 @ l2) @ [SmtpCall Quit ?b]"] conjI impI)
      show "tls_first False ((l1 @ l2) @ [SmtpCall Quit ?b])" if "tls_plan False (cmds1 @ cmds2)"
        using t2 [OF that] by (simp only: tls_first_quit)
      show "length (filter (\<lambda>x. writes_mail (smtp_part x)) ((l1 @ l2) @ [SmtpCall Quit ?b])) \<le> length (filter writes_mail cmds2)"
        using f1 filter_prefix_length [OF l2(2), of writes_mail] by (simp add: filter_part)
      show "set (map smtp_part ((l1 @ l2) @ [SmtpCall Quit ?b])) \<subseteq> set (cmds1 @ cmds2) \<union> {Quit}"
        using s1 s2 by auto
      assume "r = None"
      then have "l2 = map (\<lambda>c. SmtpCall c True) cmds2" using l2(3) r(1) by simp
      then show "(\<lambda>c. SmtpCall c True) ` set (cmds1 @ cmds2) \<subseteq> set ((l1 @ l2) @ [SmtpCall Quit ?b])"
        using e1 by auto
    qed (use w' in simp)
  qed
qed


lemma recording_mail [simp]:
  "createEmailMessage (recording env) n = createEmailMessage env n"
  "buildMIMEMessage (recording env) c = buildMIMEMessage env c"
proof -
  have h: "html_field (recording env) = html_field env"
    by (rule ext)+ (simp add: html_field_def)
  show "createEmailMessage (recording env) n = createEmailMessage env n"
    by (rule ext) (simp add: createEmailMessage_def formatHTMLEmail_def formatPlainTextEmail_def h)
  show "buildMIMEMessage (recording env) c = buildMIMEMessage env c"
    by (simp add: buildMIMEMessage_def header_lines_def fun_eq_iff)
qed

lemma mail_commands_write:
  "filter writes_mail (auth_commands c @ mail_commands c emailData to) = [DataWrite emailData]"
  by (simp add: auth_commands_def mail_commands_def filter_empty_conv)

lemma sendEmail_log:
  assumes "sendEmail (recording env) c msg w = (r, w')"
  shows "\<exists>l. snd w' = snd w @ l \<and> (emc_tls c \<or> emc_starttls c \<longrightarrow> tls_first False l) \<and>
     length (filter (\<lambda>x. writes_mail (smtp_part x)) l) \<le> 1 \<and>
     (\<forall>d. DataWrite d \<in> set (map smtp_part l) \<longrightarrow> d = buildMIMEMessage env c msg) \<and>
     (r = None \<longrightarrow> SmtpCall (DataWrite (buildMIMEMessage env c msg)) True \<in> set l \<and> SmtpCall DataClose True \<in> set l \<and>
        (\<forall>rcpt \<in> set (em_to msg @ em_cc msg @ em_bcc msg). SmtpCall (RcptTo rcpt) True \<in> set l))"
proof -
  let ?addr = "emc_host c @ CHR '':'' # int_str (emc_port c)"
  let ?d = "buildMIMEMessage env c msg" let ?to = "em_to msg @ em_cc msg @ em_bcc msg"
  define rest where "rest = auth_commands c @ mail_commands c ?d ?to"
  define cmds1 where "cmds1 = (if emc_tls c then [TlsDial ?addr, TlsClient (emc_host c)] else [PlainDial ?addr])"
  define cmds2 where "cmds2 = (if emc_tls c then rest
     else Hello ''localhost'' # (if emc_starttls c then [StartTLS (emc_host c)] else []) @ rest)"
  have run: "(case smtp_run (recording env) cmds1 w of
        (Some e, w1) \<Rightarrow> (Some e, w1)
      | (None, w1) \<Rightarrow> let (r, w2) = smtp_run (recording env) cmds2 w1 in (r, smtp_quit (recording env) w2)) = (r, w')"
  proof (cases "emc_tls c")
    case True
    then show ?thesis using assms unfolding cmds1_def cmds2_def rest_def
      by (simp add: sendEmail_def sendWithTLS_def Let_def del: smtp_run.simps)
  next
    case False
    then show ?thesis using assms unfolding cmds1_def cmds2_def rest_def
      by (simp add: sendEmail_def sendWithStartTLS_def Let_def del: smtp_run.simps)
  qed
  have f2: "filter writes_mail cmds2 = [DataWrite ?d]"
    using mail_commands_write [of c ?d ?to] by (simp add: cmds2_def rest_def)
  have f1: "filter writes_mail cmds1 = []" by (simp add: cmds1_def)
  have d: "DataWrite x \<in> set (cmds1 @ cmds2) \<Longrightarrow> x = ?d" for x
    by (auto simp: cmds1_def cmds2_def rest_def auth_commands_def mail_commands_def split: if_splits)
  have m: "{DataWrite ?d, DataClose} \<union> RcptTo ` set ?to \<subseteq> set (cmds1 @ cmds2)"
    by (auto simp: cmds1_def cmds2_def rest_def auth_commands_def mail_commands_def)
  have plan: "tls_plan False (cmds1 @ cmds2)" if "emc_tls c \<or> emc_starttls c"
    using that by (auto simp: cmds1_def cmds2_def tls_plan_up)
  from two_stages [OF run f1] obtain l where l: "snd w' = snd w @ l"
    "tls_plan False (cmds1 @ cmds2) \<longrightarrow> tls_first False l"
    "length (filter (\<lambda>x. writes_mail (smtp_part x)) l) \<le> length (filter writes_mail cmds2)"
    "set (map smtp_part l) \<subseteq> set (cmds1 @ cmds2) \<union> {Quit}"
    "r = None \<longrightarrow> (\<lambda>c. SmtpCall c True) ` set (cmds1 @ cmds2) \<subseteq> set l" by blast
  show ?thesis
  proof (intro exI [of _ l] conjI allI impI ballI)
    show "x = ?d" if "DataWrite x \<in> set (map smtp_part l)" for x
    proof -
      from that l(4) have "DataWrite x \<in> set (cmds1 @ cmds2)" by blast
      then show ?thesis by (rule d)
    qed
    fix rcpt assume "r = None" "rcpt \<in> set ?to"
    then show "SmtpCall (RcptTo rcpt) True \<in> set l" using l(5) m by blast
  next
    assume "r = None"
    then show "SmtpCall (DataWrite ?d) True \<in> set l" "SmtpCall DataClose True \<in> set l" using l(5) m by blast+
  qed (use l f2 plan in auto)
qed


text \<open>The mails an attempt has handed to the server, complete or not.\<close>

definition mails :: "sent_call list \<Rightarrow> string list" where
  "mails l = map (\<lambda>x. case smtp_part x of DataWrite d \<Rightarrow> d | _ \<Rightarrow> []) (filter (\<lambda>x. writes_mail (smtp_part x)) l)"

interpretation email_sender: message_sender
  "sendEmail (recording env) c msg" "ne_wait (recording env)" "\<lambda>w. mails (snd w)" 1
  "\<lambda>d. d = buildMIMEMessage env c msg"
proof
  fix w r w'
  assume s: "sendEmail (recording env) c msg w = (r, w')"
  from sendEmail_log [OF s] obtain l where l: "snd w' = snd w @ l"
    "length (filter (\<lambda>x. writes_mail (smtp_part x)) l) \<le> 1"
    "\<forall>d. DataWrite d \<in> set (map smtp_part l) \<longrightarrow> d = buildMIMEMessage env c msg"
    "r = None \<longrightarrow> SmtpCall (DataWrite (buildMIMEMessage env c msg)) True \<in> set l" by blast
  have "list_all (\<lambda>d. d = buildMIMEMessage env c msg) (mails l)"
    unfolding list_all_iff
  proof
    fix d assume "d \<in> set (mails l)"
    then obtain x where x: "x \<in> set l" "writes_mail (smtp_part x)" "d = (case smtp_part x of DataWrite d \<Rightarrow> d | _ \<Rightarrow> [])"
      by (auto simp: mails_def)
    then have "smtp_part x = DataWrite d" by (cases "smtp_part x") auto
    moreover have "smtp_part x \<in> set (map smtp_part l)" using x(1) by simp
    ultimately show "d = buildMIMEMessage env c msg" using l(3) by simp
  qed
  moreover have "mails l \<noteq> []" if "r = None"
    using l(4) that by (force simp: mails_def filter_empty_conv)
  ultimately show "\<exists>ms. mails (snd w') = mails (snd w) @ ms \<and> length ms \<le> 1 \<and>
      list_all (\<lambda>d. d = buildMIMEMessage env c msg) ms \<and> (r = None \<longrightarrow> ms \<noteq> [])"
    using l(1,2) by (intro exI [of _ "mails l"]) (auto simp: mails_def)
next
  show "mails (snd (snd (ne_wait (recording env) d w))) = mails (snd w)" for d w by (cases w) simp
qed

lemma email_Send_mails:
  assumes "email_Send (recording env) c n w = (r, w')"
  shows "\<exists>ms. mails (snd w') = mails (snd w) @ ms \<and> length ms \<le> nat (effective_retries (emc_channel c) n + 1) \<and>
     list_all (\<lambda>d. d = buildMIMEMessage env c (createEmailMessage env n (getRecipients n))) ms \<and> (r = None \<longrightarrow> ms \<noteq> [])"
proof (cases "getRecipients n = []")
  case True
  then show ?thesis using assms by (auto simp: email_Send_def)
next
  case False
  then have "retry_send (ne_wait (recording env)) exp_backoff
      (sendEmail (recording env) c (createEmailMessage env n (getRecipients n)))
      (effective_retries (emc_channel c) n) w = (r, w')"
    using assms by (simp add: email_Send_def)
  from email_sender.retry_send_bounded [OF this] show ?thesis by simp
qed

text \<open>
  C24. A mail and its credentials only travel over TLS.  When the channel is configured for TLS or for
  STARTTLS, every attempt, however it ends, gives credentials, addresses and text to the server only
  after a successful start of TLS; and an attempt that succeeds has handed over exactly the MIME
  text and had every recipient accepted.
\<close>

theorem sendEmail_over_tls:
  assumes "emc_tls c \<or> emc_starttls c" and "sendEmail (recording env) c msg w = (r, w')"
  shows "\<exists>l. snd w' = snd w @ l \<and> tls_first False l \<and>
     (r = None \<longrightarrow> SmtpCall (DataWrite (buildMIMEMessage env c msg)) True \<in> set l \<and> SmtpCall DataClose True \<in> set l \<and>
        list_all (\<lambda>rcpt. SmtpCall (RcptTo rcpt) True \<in> set l) (em_to msg @ em_cc msg @ em_bcc msg))"
  using sendEmail_log [OF assms(2)] assms(1) unfolding list_all_iff by blast

lemma replace_chars_not:
  assumes "f c \<noteq> None" and "\<And>x r. f x = Some r \<Longrightarrow> c \<notin> set r"
  shows "c \<notin> set (replace_chars f s)"
  using assms by (induction s) (auto simp: replace_chars_def split: option.splits)

lemma html_escape_no_tag: "CHR ''<'' \<notin> set (html_escape s)"
  unfolding html_escape_def by (rule replace_chars_not) (auto split: if_splits)

text \<open>
  What the HTML mail lets through.  The title, the message and the event type are escaped, so they
  contain no opening angle bracket; but the value of an important field of the data stands in the
  page as it came, whatever markup it holds.
\<close>

theorem email_field_value_unescaped:
  assumes "nt_data n k = Some v" and "k \<in> set important_keys"
    and "\<And>ks. set (ne_order env ks) = set ks"
  shows "CHR ''<'' \<notin> set (html_escape (nt_title n)) \<and> CHR ''<'' \<notin> set (html_escape (nt_message n)) \<and>
     (\<exists>before after. formatHTMLEmail env n = before @ ne_text env v @ after)"
proof -
  have "k \<in> set (ne_order env (extractImportantFields (nt_data n)))"
    using assms by (auto simp: extractImportantFields_def)
  then obtain xs ys where ks: "ne_order env (extractImportantFields (nt_data n)) = xs @ k # ys"
    by (meson split_list)
  have d: "nt_data n \<noteq> Map.empty" using assms(1) by auto
  obtain a b where f: "html_field env (nt_data n) k = a @ ne_text env v @ b"
    using assms(1) unfolding html_field_def field_text_def by (metis append.assoc option.simps(5))
  have "\<exists>before after. formatHTMLEmail env n = before @ html_field env (nt_data n) k @ after"
    using d unfolding formatHTMLEmail_def ks
    by (simp only: if_True not_False_eq_True map_append list.map concat_append concat.simps append.assoc refl)
      (metis append.assoc)
  then show ?thesis using f html_escape_no_tag by (metis append.assoc)
qed

subsection \<open>Concrete runs\<close>

definition sample_email :: email_config where
  "sample_email = \<lparr>emc_channel = DefaultChannelConfig, emc_host = ''smtp'', emc_port = 587, emc_username = ''u'',
     emc_password = ''p'', emc_from = ''f@x.y'', emc_from_name = ''AIPX'', emc_tls = False, emc_starttls = True\<rparr>"

theorem sendEmail_over_tls_witness:
  "\<exists>l. snd (snd (sendEmail (recording (sample_notify True)) sample_email
       (createEmailMessage (sample_notify True) sample_notification [''a@b.c'']) ((), []))) = l \<and>
     tls_first False l \<and> SmtpCall (RcptTo ''a@b.c'') True \<in> set l"
proof -
  let ?msg = "createEmailMessage (sample_notify True) sample_notification [''a@b.c'']"
  let ?s = "sendEmail (recording (sample_notify True)) sample_email ?msg ((), [])"
  have up: "fst (ne_smtp (sample_notify True) c w)" for c w by (simp add: sample_notify_def)
  have "fst ?s = None"
    by (simp add: sendEmail_def sendWithStartTLS_def up auth_commands_def mail_commands_def sample_email_def
        createEmailMessage_def Let_def)
  moreover have "?s = (fst ?s, snd ?s)" by simp
  moreover have "emc_tls sample_email \<or> emc_starttls sample_email" by (simp add: sample_email_def)
  ultimately obtain l where "snd (snd ?s) = l" "tls_first False l"
    "list_all (\<lambda>rcpt. SmtpCall (RcptTo rcpt) True \<in> set l) (em_to ?msg @ em_cc ?msg @ em_bcc ?msg)"
    using sendEmail_over_tls by (metis append_Nil snd_conv)
  then show ?thesis by (simp add: createEmailMessage_def)
qed

theorem email_field_value_unescaped_witness:
  "\<exists>before after. formatHTMLEmail (sample_notify True) sample_notification = before @ ''<b>X</b>'' @ after"
proof -
  have "nt_data sample_notification ''symbol'' = Some (VString ''<b>X</b>'')"
    by (simp add: sample_notification_def)
  moreover have "''symbol'' \<in> set important_keys" by (simp add: important_keys_def)
  moreover have "set (ne_order (sample_notify True) ks) = set ks" for ks by (simp add: sample_notify_def)
  moreover have "ne_text (sample_notify True) (VString ''<b>X</b>'') = ''<b>X</b>''" by (simp add: sample_notify_def)
  ultimately show ?thesis using email_field_value_unescaped [of sample_notification "''symbol''" _ "sample_notify True"] by metis
qed

end
