(* ===== verification/Notify_Repo.thy ===== *)
theory Notify_Repo
  imports Notification Order_Repo
begin

text \<open>
  The notification repository: the interface \<open>NotificationRepository\<close> and its PostgreSQL implementation
  (\<open>notification-service/internal/repository/notification_repo.go\<close>) on the two tables of
  \<open>migrations/001_notifications.sql\<close>.  As for the orders, a statement fails and changes nothing or
  applies as a whole, and \<open>pg_env\<close> holds what PostgreSQL and the network decide.
\<close>

subsection \<open>The tables\<close>

text \<open>The JSONB columns hold a text; a configuration read back is nil for \<open>null\<close>.\<close>

record pref_row =
  pw_id :: string
  pw_user :: string
  pw_channel :: string
  pw_enabled :: bool
  pw_config :: "string option"
  pw_created_at :: instant
  pw_updated_at :: instant

record hist_row =
  hw_id :: string
  hw_user :: string
  hw_channel :: string
  hw_event_type :: string
  hw_title :: string
  hw_message :: string
  hw_payload :: string
  hw_status :: string
  hw_error_message :: string
  hw_retry_count :: int
  hw_sent_at :: "instant option"
  hw_created_at :: instant

record notify_db =
  nd_tick :: nat
  nd_prefs :: "pref_row list"
  nd_history :: "hist_row list"

record preference =
  pf_id :: string
  pf_user :: string
  pf_channel :: string
  pf_enabled :: bool
  pf_config :: "any_map option"
  pf_created_at :: instant
  pf_updated_at :: instant

record history =
  hs_id :: string
  hs_user :: string
  hs_channel :: string
  hs_event_type :: string
  hs_title :: string
  hs_message :: string
  hs_payload :: "any_map option"
  hs_status :: string
  hs_error_message :: string
  hs_retry_count :: int
  hs_sent_at :: "instant option"
  hs_created_at :: instant

text \<open>The JSON codec, and the text a JSONB column gives back for the one it was given.\<close>

record json_codec =
  jc_marshal :: "any_map option \<Rightarrow> string option"
  jc_column :: "string \<Rightarrow> string option"
  jc_unmarshal :: "string \<Rightarrow> any_map option option"

datatype notify_repo_error = NotifyRepoFailed string | PreferenceNotFound | HistoryNotFound

definition channel_kinds :: "string list" where
  "channel_kinds = [''slack'', ''telegram'', ''email'']"

definition event_kinds :: "string list" where
  "event_kinds = [''order_filled'', ''order_rejected'', ''order_cancelled'', ''risk_alert'',
     ''position_opened'', ''position_closed'', ''system_alert'', ''maintenance_notice'']"

definition status_kinds :: "string list" where
  "status_kinds = [''sent'', ''failed'', ''pending'', ''retry'']"

definition nd_next :: "notify_db \<Rightarrow> notify_db" where
  "nd_next s = s\<lparr>nd_tick := Suc (nd_tick s)\<rparr>"

subsection \<open>Preferences\<close>

definition scanPreference :: "json_codec \<Rightarrow> pref_row \<Rightarrow> notify_repo_error + preference" where
  "scanPreference jc row =
     (let p = (\<lambda>config. \<lparr>pf_id = pw_id row, pf_user = pw_user row, pf_channel = pw_channel row,
            pf_enabled = pw_enabled row, pf_config = config, pf_created_at = pw_created_at row,
            pf_updated_at = pw_updated_at row\<rparr>) in
      case pw_config row of
        None \<Rightarrow> Inr (p None)
      | Some doc \<Rightarrow>
          if doc = [] then Inr (p None)
          else case jc_unmarshal jc doc of
            None \<Rightarrow> Inl (NotifyRepoFailed ''failed to unmarshal config'')
          | Some config \<Rightarrow> Inr (p config))"

fun scan_rows :: "('r \<Rightarrow> notify_repo_error + 'a) \<Rightarrow> 'r list \<Rightarrow> notify_repo_error + 'a list" where
  "scan_rows scan [] = Inr []"
| "scan_rows scan (row # rows) =
     (case scan row of Inl e \<Rightarrow> Inl e
      | Inr x \<Rightarrow> (case scan_rows scan rows of Inl e \<Rightarrow> Inl e | Inr xs \<Rightarrow> Inr (x # xs)))"

text \<open>\<open>ORDER BY channel\<close>: the check leaves three values, which every collation orders alike.\<close>

definition channel_rank :: "string \<Rightarrow> nat" where
  "channel_rank c = (if c = ''email'' then 0 else if c = ''slack'' then 1 else 2)"

definition GetUserPreferences ::
  "pg_env \<Rightarrow> json_codec \<Rightarrow> string \<Rightarrow> notify_db \<Rightarrow> (notify_repo_error + preference list) \<times> notify_db" where
  "GetUserPreferences env jc user s =
     (let n = nd_tick s; s' = nd_next s in
      if pe_fail env n then (Inl (NotifyRepoFailed ''failed to query preferences''), s')
      else case pe_uuid_of env user of
        None \<Rightarrow> (Inl (NotifyRepoFailed ''failed to query preferences''), s')
      | Some key \<Rightarrow>
          (case scan_rows (scanPreference jc)
              (sort_key (\<lambda>p. channel_rank (pw_channel p)) (filter (\<lambda>p. pw_user p = key) (nd_prefs s))) of
             Inl e \<Rightarrow> Inl e
           | Inr ps \<Rightarrow> if pe_rows_fail env n then Inl (NotifyRepoFailed ''rows error'') else Inr ps, s'))"

text \<open>The preference of a user for a channel; \<open>Inr None\<close> when there is none.\<close>

definition GetPreference ::
  "pg_env \<Rightarrow> json_codec \<Rightarrow> string \<Rightarrow> string \<Rightarrow> notify_db \<Rightarrow>
     (notify_repo_error + preference option) \<times> notify_db" where
  "GetPreference env jc user channel s =
     (let n = nd_tick s; s' = nd_next s in
      if pe_fail env n then (Inl (NotifyRepoFailed ''failed to get preference''), s')
      else case pe_uuid_of env user of
        None \<Rightarrow> (Inl (NotifyRepoFailed ''failed to get preference''), s')
      | Some key \<Rightarrow>
          (case find (\<lambda>p. pw_user p = key \<and> pw_channel p = channel) (nd_prefs s) of
             None \<Rightarrow> Inr None
           | Some row \<Rightarrow> (case scanPreference jc row of Inl e \<Rightarrow> Inl e | Inr p \<Rightarrow> Inr (Some p)), s'))"

text \<open>The text a configuration is stored as.\<close>

definition encode_map :: "json_codec \<Rightarrow> any_map option \<Rightarrow> string option" where
  "encode_map jc config = (case jc_marshal jc config of None \<Rightarrow> None | Some doc \<Rightarrow> jc_column jc doc)"

definition CreatePreference ::
  "pg_env \<Rightarrow> json_codec \<Rightarrow> preference \<Rightarrow> notify_db \<Rightarrow> (notify_repo_error + preference) \<times> notify_db" where
  "CreatePreference env jc pref s =
     (if jc_marshal jc (pf_config pref) = None then (Inl (NotifyRepoFailed ''failed to marshal config''), s)
      else
        let n = nd_tick s; s' = nd_next s; failed = (Inl (NotifyRepoFailed ''failed to create preference''), s') in
        if pe_fail env n then failed
        else case (pe_uuid_of env (pf_user pref), encode_map jc (pf_config pref)) of
          (Some user, Some doc) \<Rightarrow>
            if pf_channel pref \<in> set channel_kinds \<and>
               (\<forall>p \<in> set (nd_prefs s). \<not> (pw_user p = user \<and> pw_channel p = pf_channel pref)) \<and>
               pe_uuid env n \<notin> pw_id ` set (nd_prefs s)
            then (Inr (pref\<lparr>pf_id := pe_uuid env n, pf_created_at := pe_now env n, pf_updated_at := pe_now env n\<rparr>),
              s'\<lparr>nd_prefs := nd_prefs s @ [\<lparr>pw_id = pe_uuid env n, pw_user = user,
                 pw_channel = pf_channel pref, pw_enabled = pf_enabled pref, pw_config = Some doc,
                 pw_created_at = pe_now env n, pw_updated_at = pe_now env n\<rparr>]\<rparr>)
            else failed
        | _ \<Rightarrow> failed)"

definition UpdatePreference ::
  "pg_env \<Rightarrow> json_codec \<Rightarrow> preference \<Rightarrow> notify_db \<Rightarrow> (notify_repo_error + preference) \<times> notify_db" where
  "UpdatePreference env jc pref s =
     (if jc_marshal jc (pf_config pref) = None then (Inl (NotifyRepoFailed ''failed to marshal config''), s)
      else
        let n = nd_tick s; s' = nd_next s; failed = (Inl (NotifyRepoFailed ''failed to update preference''), s') in
        if pe_fail env n then failed
        else case (pe_uuid_of env (pf_user pref), encode_map jc (pf_config pref)) of
          (Some user, Some doc) \<Rightarrow>
            let wh = (\<lambda>p. pw_user p = user \<and> pw_channel p = pf_channel pref) in
            if \<forall>p \<in> set (nd_prefs s). \<not> wh p then failed
            else (Inr (pref\<lparr>pf_updated_at := pe_now env n\<rparr>),
              s'\<lparr>nd_prefs := map (\<lambda>p. if wh p then p\<lparr>pw_enabled := pf_enabled pref, pw_config := Some doc,
                   pw_updated_at := pe_now env n\<rparr> else p) (nd_prefs s)\<rparr>)
        | _ \<Rightarrow> failed)"

definition DeletePreference ::
  "pg_env \<Rightarrow> string \<Rightarrow> string \<Rightarrow> notify_db \<Rightarrow> notify_repo_error option \<times> notify_db" where
  "DeletePreference env user channel s =
     (let n = nd_tick s; s' = nd_next s in
      if pe_fail env n then (Some (NotifyRepoFailed ''failed to delete preference''), s')
      else case pe_uuid_of env user of
        None \<Rightarrow> (Some (NotifyRepoFailed ''failed to delete preference''), s')
      | Some key \<Rightarrow>
          let wh = (\<lambda>p. pw_user p = key \<and> pw_channel p = channel) in
          if \<forall>p \<in> set (nd_prefs s). \<not> wh p then (Some PreferenceNotFound, s')
          else (None, s'\<lparr>nd_prefs := filter (\<lambda>p. \<not> wh p) (nd_prefs s)\<rparr>))"

subsection \<open>History\<close>

definition SaveHistory ::
  "pg_env \<Rightarrow> json_codec \<Rightarrow> history \<Rightarrow> notify_db \<Rightarrow> notify_repo_error option \<times> notify_db" where
  "SaveHistory env jc h s =
     (if jc_marshal jc (hs_payload h) = None then (Some (NotifyRepoFailed ''failed to marshal payload''), s)
      else
        let n = nd_tick s; s' = nd_next s; failed = (Some (NotifyRepoFailed ''failed to save history''), s') in
        if pe_fail env n then failed
        else case (pe_uuid_of env (hs_user h), encode_map jc (hs_payload h)) of
          (Some user, Some doc) \<Rightarrow>
            if hs_channel h \<in> set channel_kinds \<and> hs_event_type h \<in> set event_kinds \<and>
               hs_status h \<in> set status_kinds \<and> pe_varchar env 255 (hs_title h) \<and> pe_text env (hs_message h) \<and>
               pe_text env (hs_error_message h) \<and> int4 (hs_retry_count h) \<and>
               pe_uuid env n \<notin> hw_id ` set (nd_history s)
            then (None, s'\<lparr>nd_history := nd_history s @ [\<lparr>hw_id = pe_uuid env n, hw_user = user,
                 hw_channel = hs_channel h, hw_event_type = hs_event_type h, hw_title = hs_title h,
                 hw_message = hs_message h, hw_payload = doc, hw_status = hs_status h,
                 hw_error_message = hs_error_message h, hw_retry_count = hs_retry_count h,
                 hw_sent_at = hs_sent_at h, hw_created_at = pe_now env n\<rparr>]\<rparr>)
            else failed
        | _ \<Rightarrow> failed)"

definition scanHistory :: "json_codec \<Rightarrow> hist_row \<Rightarrow> notify_repo_error + history" where
  "scanHistory jc row =
     (let h = (\<lambda>payload. \<lparr>hs_id = hw_id row, hs_user = hw_user row, hs_channel = hw_channel row,
            hs_event_type = hw_event_type row, hs_title = hw_title row, hs_message = hw_message row,
            hs_payload = payload, hs_status = hw_status row, hs_error_message = hw_error_message row,
            hs_retry_count = hw_retry_count row, hs_sent_at = hw_sent_at row,
            hs_created_at = hw_created_at row\<rparr>) in
      if hw_payload row = [] then Inr (h None)
      else case jc_unmarshal jc (hw_payload row) of
        None \<Rightarrow> Inl (NotifyRepoFailed ''failed to unmarshal payload'')
      | Some payload \<Rightarrow> Inr (h payload))"

definition query_history ::
  "pg_env \<Rightarrow> json_codec \<Rightarrow> string \<Rightarrow> bool \<Rightarrow> (hist_row \<Rightarrow> bool) \<Rightarrow> int \<Rightarrow> notify_db \<Rightarrow>
     (notify_repo_error + history list) \<times> notify_db" where
  "query_history env jc msg args_ok wh lmt s =
     (let n = nd_tick s; s' = nd_next s in
      if pe_fail env n \<or> \<not> args_ok \<or> lmt < 0 then (Inl (NotifyRepoFailed msg), s')
      else (case scan_rows (scanHistory jc)
              (take (nat lmt) (sort_key (\<lambda>h. - hw_created_at h) (filter wh (nd_history s)))) of
          Inl e \<Rightarrow> Inl e
        | Inr hs \<Rightarrow> if pe_rows_fail env n then Inl (NotifyRepoFailed ''rows error'') else Inr hs, s'))"

definition GetHistory ::
  "pg_env \<Rightarrow> json_codec \<Rightarrow> string \<Rightarrow> int \<Rightarrow> notify_db \<Rightarrow> (notify_repo_error + history list) \<times> notify_db" where
  "GetHistory env jc user lmt s =
     query_history env jc ''failed to query history'' (pe_uuid_of env user \<noteq> None)
       (\<lambda>h. pe_uuid_of env user = Some (hw_user h)) lmt s"

definition GetHistoryByStatus ::
  "pg_env \<Rightarrow> json_codec \<Rightarrow> string \<Rightarrow> int \<Rightarrow> notify_db \<Rightarrow> (notify_repo_error + history list) \<times> notify_db" where
  "GetHistoryByStatus env jc status lmt s =
     query_history env jc ''failed to query history by status'' (pe_text env status)
       (\<lambda>h. hw_status h = status) lmt s"

text \<open>\<open>sent_at\<close> becomes \<open>NOW()\<close> whatever the new status is.\<close>

definition UpdateHistoryStatus ::
  "pg_env \<Rightarrow> string \<Rightarrow> string \<Rightarrow> string \<Rightarrow> notify_db \<Rightarrow> notify_repo_error option \<times> notify_db" where
  "UpdateHistoryStatus env ident status errorMsg s =
     (let n = nd_tick s; s' = nd_next s; failed = (Some (NotifyRepoFailed ''failed to update history status''), s') in
      if pe_fail env n \<or> \<not> pe_text env errorMsg then failed
      else case pe_uuid_of env ident of
        None \<Rightarrow> failed
      | Some key \<Rightarrow>
          if key \<notin> hw_id ` set (nd_history s) then (Some HistoryNotFound, s')
          else if status \<notin> set status_kinds then failed
          else (None, s'\<lparr>nd_history := map (\<lambda>h. if hw_id h = key
                 then h\<lparr>hw_status := status, hw_error_message := errorMsg, hw_sent_at := Some (pe_now env n)\<rparr>
                 else h) (nd_history s)\<rparr>))"

subsection \<open>The interface\<close>

text \<open>What the consumer uses of \<open>NotificationRepository\<close>.\<close>

record 's notify_repository =
  nr_preferences :: "string \<Rightarrow> 's \<Rightarrow> (notify_repo_error + preference list) \<times> 's"
  nr_save :: "history \<Rightarrow> 's \<Rightarrow> notify_repo_error option \<times> 's"

definition NewPostgresRepository :: "pg_env \<Rightarrow> json_codec \<Rightarrow> notify_db notify_repository" where
  "NewPostgresRepository env jc =
     \<lparr>nr_preferences = GetUserPreferences env jc, nr_save = SaveHistory env jc\<rparr>"

subsection \<open>The invariant of the tables\<close>

definition notify_ok :: "notify_db \<Rightarrow> bool" where
  "notify_ok s \<longleftrightarrow>
     distinct (map (\<lambda>p. (pw_user p, pw_channel p)) (nd_prefs s)) \<and> distinct (map pw_id (nd_prefs s)) \<and>
     list_all (\<lambda>p. pw_channel p \<in> set channel_kinds) (nd_prefs s) \<and>
     distinct (map hw_id (nd_history s)) \<and>
     list_all (\<lambda>h. hw_channel h \<in> set channel_kinds \<and> hw_event_type h \<in> set event_kinds \<and>
       hw_status h \<in> set status_kinds) (nd_history s)"

text \<open>Every statement a service can run.\<close>

inductive notify_step :: "pg_env \<Rightarrow> json_codec \<Rightarrow> notify_db \<Rightarrow> notify_db \<Rightarrow> bool" for env jc where
  "notify_step env jc s (snd (GetUserPreferences env jc user s))"
| "notify_step env jc s (snd (GetPreference env jc user channel s))"
| "notify_step env jc s (snd (CreatePreference env jc pref s))"
| "notify_step env jc s (snd (UpdatePreference env jc pref s))"
| "notify_step env jc s (snd (DeletePreference env user channel s))"
| "notify_step env jc s (snd (SaveHistory env jc h s))"
| "notify_step env jc s (snd (GetHistory env jc user lmt s))"
| "notify_step env jc s (snd (GetHistoryByStatus env jc status lmt s))"
| "notify_step env jc s (snd (UpdateHistoryStatus env ident status msg s))"

lemma nd_next_simps [simp]:
  "nd_prefs (nd_next s) = nd_prefs s" "nd_history (nd_next s) = nd_history s" "notify_ok (nd_next s) = notify_ok s"
  by (simp_all add: nd_next_def notify_ok_def)

lemma reads_change_nothing:
  "nd_prefs (snd (GetUserPreferences env jc user s)) = nd_prefs s"
  "nd_history (snd (GetUserPreferences env jc user s)) = nd_history s"
  "nd_prefs (snd (GetPreference env jc user channel s)) = nd_prefs s"
  "nd_history (snd (GetPreference env jc user channel s)) = nd_history s"
  "nd_prefs (snd (query_history env jc msg ok wh lmt s)) = nd_prefs s"
  "nd_history (snd (query_history env jc msg ok wh lmt s)) = nd_history s"
  by (auto simp: GetUserPreferences_def GetPreference_def query_history_def Let_def split: option.splits)

lemma notify_ok_cong: "nd_prefs s' = nd_prefs s \<Longrightarrow> nd_history s' = nd_history s \<Longrightarrow> notify_ok s' = notify_ok s"
  by (simp add: notify_ok_def)

lemma SaveHistory_facts:
  assumes "SaveHistory env jc h s = (r, s')"
  shows "nd_prefs s' = nd_prefs s \<and>
     (r \<noteq> None \<longrightarrow> nd_history s' = nd_history s) \<and>
     (r = None \<longrightarrow> (\<exists>row. nd_history s' = nd_history s @ [row] \<and> hw_channel row = hs_channel h \<and>
        hw_status row = hs_status h \<and> encode_map jc (hs_payload h) = Some (hw_payload row))) \<and>
     (notify_ok s \<longrightarrow> notify_ok s')"
  using assms
  by (auto simp: SaveHistory_def Let_def notify_ok_def split: if_splits option.splits)

lemma CreatePreference_ok: "notify_ok s \<Longrightarrow> notify_ok (snd (CreatePreference env jc pref s))"
  by (auto simp: CreatePreference_def Let_def notify_ok_def split: if_splits option.splits)

text \<open>The invariant looks at the keys of the preferences only.\<close>

definition pref_key :: "pref_row \<Rightarrow> string \<times> string \<times> string" where
  "pref_key p = (pw_id p, pw_user p, pw_channel p)"

lemma notify_ok_keys:
  assumes "map pref_key (nd_prefs s') = map pref_key (nd_prefs s)" and "nd_history s' = nd_history s"
  shows "notify_ok s' = notify_ok s"
proof -
  have a: "map (\<lambda>p. (pw_user p, pw_channel p)) ps = map snd (map pref_key ps)"
    and b: "map pw_id ps = map fst (map pref_key ps)"
    and c: "list_all (\<lambda>p. pw_channel p \<in> A) ps = list_all (\<lambda>k. snd (snd k) \<in> A) (map pref_key ps)" for ps A
    by (simp_all add: pref_key_def o_def list_all_iff)
  show ?thesis unfolding notify_ok_def a b c assms by (rule refl)
qed

lemma UpdatePreference_ok: "notify_ok s \<Longrightarrow> notify_ok (snd (UpdatePreference env jc pref s))"
proof -
  have k: "map pref_key (map (\<lambda>p. if wh p then p\<lparr>pw_enabled := e, pw_config := c, pw_updated_at := t\<rparr> else p) ps) = map pref_key ps"
    for wh ps e c t by (induction ps) (auto simp: pref_key_def)
  have "notify_ok (nd_next s\<lparr>nd_prefs := map (\<lambda>p. if wh p then p\<lparr>pw_enabled := e, pw_config := c, pw_updated_at := t\<rparr> else p) (nd_prefs s)\<rparr>) =
      notify_ok s" for wh e c t by (rule notify_ok_keys) (simp_all add: pref_key_def)
  then show "notify_ok s \<Longrightarrow> notify_ok (snd (UpdatePreference env jc pref s))"
    by (auto simp: UpdatePreference_def Let_def split: option.splits)
qed

lemma DeletePreference_ok: "notify_ok s \<Longrightarrow> notify_ok (snd (DeletePreference env user channel s))"
  by (auto simp: DeletePreference_def Let_def notify_ok_def distinct_map_filter list_all_iff split: option.splits)

lemma UpdateHistoryStatus_ok: "notify_ok s \<Longrightarrow> notify_ok (snd (UpdateHistoryStatus env ident status msg s))"
proof -
  have k: "map hw_id (map (\<lambda>h. if hw_id h = key then h\<lparr>hw_status := st, hw_error_message := m, hw_sent_at := t\<rparr> else h) hs) = map hw_id hs"
    for key st m t hs by (induction hs) auto
  show "notify_ok s \<Longrightarrow> notify_ok (snd (UpdateHistoryStatus env ident status msg s))"
    by (auto simp: UpdateHistoryStatus_def Let_def notify_ok_def k [unfolded map_map o_def] list_all_iff o_def split: option.splits)
qed

text \<open>
  The tables stay well formed.  Along every sequence of statements each user has at most one
  preference per channel, keys are unique, and every row satisfies the checks of the schema.
\<close>

theorem notify_tables_ok:
  assumes "notify_ok s" and "(notify_step env jc)\<^sup>*\<^sup>* s s'"
  shows "notify_ok s'"
  using assms(2,1)
proof (induction rule: rtranclp_induct)
  case (step a b)
  from step.hyps(2) step.IH [OF step.prems] show ?case
  proof (induction rule: notify_step.induct)
    case (6 s h)
    then show ?case using SaveHistory_facts [OF surjective_pairing] by blast
  qed (simp_all add: CreatePreference_ok UpdatePreference_ok DeletePreference_ok UpdateHistoryStatus_ok
      notify_ok_cong [OF reads_change_nothing(1,2)] notify_ok_cong [OF reads_change_nothing(3,4)]
      notify_ok_cong [OF reads_change_nothing(5,6)] GetHistory_def GetHistoryByStatus_def)
qed

subsection \<open>The contract of the repository\<close>

text \<open>
  What the consumer relies on: reading the preferences of a user changes neither table and yields at most
  one per channel, and saving a history record adds at most that record.
\<close>

locale notification_store =
  fixes repo :: "'s notify_repository"
    and ok :: "'s \<Rightarrow> bool"
    and rows :: "'s \<Rightarrow> (string \<times> string) list"
  assumes preferences_law: "nr_preferences repo user s = (r, s') \<Longrightarrow> ok s \<Longrightarrow>
      ok s' \<and> rows s' = rows s \<and> (\<forall>ps. r = Inr ps \<longrightarrow> distinct (map pf_channel ps))"
    and save_law: "nr_save repo h s = (e, s') \<Longrightarrow> ok s \<Longrightarrow>
      ok s' \<and> rows s' = rows s @ (if e = None then [(hs_channel h, hs_status h)] else [])"

lemma scan_rows_channels:
  "scan_rows (scanPreference jc) rows = Inr ps \<Longrightarrow> map pf_channel ps = map pw_channel rows"
proof (induction rows arbitrary: ps)
  case (Cons row rows)
  from Cons.prems obtain p qs where p: "scanPreference jc row = Inr p" "scan_rows (scanPreference jc) rows = Inr qs" "ps = p # qs"
    by (auto split: sum.splits)
  have "pf_channel p = pw_channel row"
    using p(1) by (auto simp: scanPreference_def Let_def split: option.splits if_splits)
  then show ?case using p Cons.IH by simp
qed simp

lemma distinct_user_channels:
  "distinct (map (\<lambda>p. (pw_user p, pw_channel p)) ps) \<Longrightarrow> distinct (map pw_channel (filter (\<lambda>p. pw_user p = k) ps))"
  by (induction ps) (auto simp: image_iff)

lemma distinct_map_sort_key: "distinct (map f (sort_key g xs)) = distinct (map f xs)"
  by (simp add: distinct_map)

interpretation notify_postgres: notification_store "NewPostgresRepository env jc" notify_ok
  "\<lambda>s. map (\<lambda>h. (hw_channel h, hw_status h)) (nd_history s)"
proof
  fix user s r s'
  assume "nr_preferences (NewPostgresRepository env jc) user s = (r, s')" and ok: "notify_ok s"
  then have g: "GetUserPreferences env jc user s = (r, s')" by (simp add: NewPostgresRepository_def)
  then have s': "s' = snd (GetUserPreferences env jc user s)" by simp
  have "distinct (map pf_channel ps)" if r: "r = Inr ps" for ps
  proof -
    obtain key where k: "scan_rows (scanPreference jc)
        (sort_key (\<lambda>p. channel_rank (pw_channel p)) (filter (\<lambda>p. pw_user p = key) (nd_prefs s))) = Inr ps"
      using g r by (auto simp: GetUserPreferences_def Let_def split: option.splits if_splits sum.splits)
    show ?thesis
      using ok distinct_user_channels [of "nd_prefs s" key]
      unfolding scan_rows_channels [OF k] distinct_map_sort_key by (simp add: notify_ok_def)
  qed
  then show "notify_ok s' \<and> map (\<lambda>h. (hw_channel h, hw_status h)) (nd_history s') =
      map (\<lambda>h. (hw_channel h, hw_status h)) (nd_history s) \<and> (\<forall>ps. r = Inr ps \<longrightarrow> distinct (map pf_channel ps))"
    using ok unfolding s' by (simp add: reads_change_nothing notify_ok_cong [OF reads_change_nothing(1,2)])
next
  fix h s e s'
  assume "nr_save (NewPostgresRepository env jc) h s = (e, s')" and ok: "notify_ok s"
  then have "SaveHistory env jc h s = (e, s')" by (simp add: NewPostgresRepository_def)
  from SaveHistory_facts [OF this] ok show "notify_ok s' \<and>
      map (\<lambda>h. (hw_channel h, hw_status h)) (nd_history s') = map (\<lambda>h. (hw_channel h, hw_status h)) (nd_history s) @
        (if e = None then [(hs_channel h, hs_status h)] else [])"
    by (cases e) auto
qed

text \<open>
  JSON's round trip for the maps of a configuration: what is stored decodes to what was stored.
\<close>

definition codec_round_trips :: "json_codec \<Rightarrow> bool" where
  "codec_round_trips jc \<longleftrightarrow>
     (\<forall>c doc. encode_map jc c = Some doc \<longrightarrow> doc \<noteq> [] \<and> jc_unmarshal jc doc = Some c)"


subsection \<open>Concrete runs\<close>

text \<open>A codec for the nil configuration and for one key.\<close>

definition sample_codec :: json_codec where
  "sample_codec = \<lparr>jc_marshal = (\<lambda>c. case c of None \<Rightarrow> Some ''null'' | Some m \<Rightarrow> (case m ''k'' of
       Some (VString v) \<Rightarrow> if m = [''k'' \<mapsto> VString v] then Some (CHR ''{'' # v) else None | _ \<Rightarrow> None)),
     jc_column = Some,
     jc_unmarshal = (\<lambda>doc. if doc = ''null'' then Some None
       else case doc of c # v \<Rightarrow> if c = CHR ''{'' then Some (Some [''k'' \<mapsto> VString v]) else None | [] \<Rightarrow> None)\<rparr>"

lemma sample_codec_round_trips: "codec_round_trips sample_codec"
  by (auto simp: codec_round_trips_def encode_map_def sample_codec_def split: option.splits any_value.splits if_splits)

definition sample_preference :: preference where
  "sample_preference = \<lparr>pf_id = [], pf_user = ''u1'', pf_channel = ''slack'', pf_enabled = True,
     pf_config = Some [''k'' \<mapsto> VString ''v''], pf_created_at = 0, pf_updated_at = 0\<rparr>"

definition empty_notify_db :: notify_db where
  "empty_notify_db = \<lparr>nd_tick = 0, nd_prefs = [], nd_history = []\<rparr>"

lemma empty_notify_ok: "notify_ok empty_notify_db"
  by (simp add: notify_ok_def empty_notify_db_def)

lemma sample_created:
  "\<exists>pref' s'. CreatePreference sample_pg_env sample_codec sample_preference empty_notify_db = (Inr pref', s') \<and>
     length (nd_prefs s') = 1 \<and> pf_config pref' = Some [''k'' \<mapsto> VString ''v'']"
  by (simp add: CreatePreference_def encode_map_def sample_pg_env_def sample_codec_def sample_preference_def
      empty_notify_db_def channel_kinds_def nd_next_def Let_def)

theorem notify_tables_ok_witness:
  "notify_ok (snd (CreatePreference sample_pg_env sample_codec sample_preference empty_notify_db))"
  by (rule notify_tables_ok [OF empty_notify_ok r_into_rtranclp]) (rule notify_step.intros)


end
