(* ===== verification/Templates.thy ===== *)
theory Templates
  imports Notification
begin

text \<open>
  The template engine of \<open>notification-service/internal/templates/templates.go\<close>.  A parsed template of
  \<open>text/template\<close> is a function; parsing and the file system are parameters.
\<close>

subsection \<open>Templates\<close>

text \<open>A parsed template: its text for some data, or the error of \<open>Execute\<close>.\<close>

type_synonym template = "any_map \<Rightarrow> string option"

record template_engine =
  te_templates :: "string \<Rightarrow> template option"

datatype template_error = TemplateNotFound string | TemplateFailed string | TemplateReadFailed string
  | TemplateParseFailed string

text \<open>An entry of the embedded file system: a directory, or a file with what reading it yields.\<close>

record template_file =
  tf_name :: string
  tf_dir :: bool
  tf_content :: "string option"

fun loadEmbedded ::
  "(string \<Rightarrow> template option) \<Rightarrow> template_file list \<Rightarrow> template_engine \<Rightarrow> template_error option \<times> template_engine" where
  "loadEmbedded parse [] te = (None, te)"
| "loadEmbedded parse (f # fs) te =
     (if tf_dir f \<or> \<not> has_suffix (tf_name f) ''.tmpl'' then loadEmbedded parse fs te
      else case tf_content f of
        None \<Rightarrow> (Some (TemplateReadFailed (tf_name f)), te)
      | Some content \<Rightarrow>
          let name = trim_suffix (tf_name f) ''.tmpl'' in
          (case parse content of
             None \<Rightarrow> (Some (TemplateParseFailed name), te)
           | Some t \<Rightarrow> loadEmbedded parse fs (te\<lparr>te_templates := (te_templates te)(name \<mapsto> t)\<rparr>)))"

text \<open>
  \<open>template.New(name).ParseFiles(file)\<close> yields the template \<open>name\<close> of a set in which the file's contents
  stand under the file's base name; executing a template that was given no contents is an error.
\<close>

definition parsed_file :: "string \<Rightarrow> string \<Rightarrow> template \<Rightarrow> template" where
  "parsed_file name base t = (\<lambda>data. case [base \<mapsto> t] name of None \<Rightarrow> None | Some t' \<Rightarrow> t' data)"

text \<open>The loop over the files that match \<open>*.tmpl\<close>, by their base names.\<close>

fun load_files ::
  "(string \<Rightarrow> template option) \<Rightarrow> template_file list \<Rightarrow> template_engine \<Rightarrow> template_error option \<times> template_engine" where
  "load_files parse [] te = (None, te)"
| "load_files parse (f # fs) te =
     (let name = trim_suffix (tf_name f) ''.tmpl'' in
      case (case tf_content f of None \<Rightarrow> None | Some content \<Rightarrow> parse content) of
        None \<Rightarrow> (Some (TemplateParseFailed name), te)
      | Some t \<Rightarrow> load_files parse fs (te\<lparr>te_templates := (te_templates te)(name \<mapsto> parsed_file name (tf_name f) t)\<rparr>))"

definition loadFromDir ::
  "(string \<Rightarrow> template option) \<Rightarrow> template_file list \<Rightarrow> template_engine \<Rightarrow> template_error option \<times> template_engine" where
  "loadFromDir parse files te = load_files parse (filter (\<lambda>f. has_suffix (tf_name f) ''.tmpl'') files) te"

text \<open>Both constructors of the engine: from the given directory, or from the embedded files.\<close>

definition Reload ::
  "(string \<Rightarrow> template option) \<Rightarrow> template_file list \<Rightarrow> template_file list option \<Rightarrow> template_error option \<times> template_engine" where
  "Reload parse embedded dir = (case dir of
     Some files \<Rightarrow> loadFromDir parse files \<lparr>te_templates = Map.empty\<rparr>
   | None \<Rightarrow> loadEmbedded parse embedded \<lparr>te_templates = Map.empty\<rparr>)"

definition NewTemplateEngine ::
  "(string \<Rightarrow> template option) \<Rightarrow> template_file list \<Rightarrow> template_file list option \<Rightarrow> template_error + template_engine" where
  "NewTemplateEngine parse embedded dir = (case Reload parse embedded dir of
     (Some e, te) \<Rightarrow> Inl e
   | (None, te) \<Rightarrow> Inr te)"

definition Render :: "template_engine \<Rightarrow> string \<Rightarrow> any_map \<Rightarrow> template_error + string" where
  "Render te name data = (case te_templates te name of
     None \<Rightarrow> Inl (TemplateNotFound name)
   | Some t \<Rightarrow> (case t data of None \<Rightarrow> Inl (TemplateFailed name) | Some out \<Rightarrow> Inr out))"

definition RenderWithFallback ::
  "template_engine \<Rightarrow> string \<Rightarrow> string \<Rightarrow> any_map \<Rightarrow> template_error + string" where
  "RenderWithFallback te name fallback data = (case Render te name data of
     Inl e \<Rightarrow> Render te fallback data
   | Inr out \<Rightarrow> Inr out)"

definition HasTemplate :: "template_engine \<Rightarrow> string \<Rightarrow> bool" where
  "HasTemplate te name \<longleftrightarrow> te_templates te name \<noteq> None"

text \<open>The files of the embedded directory.\<close>

definition embedded_names :: "string list" where
  "embedded_names = [''order_filled.tmpl'', ''order_rejected.tmpl'', ''risk_alert.tmpl'', ''system_alert.tmpl'']"

subsection \<open>What is loaded\<close>

text \<open>The names the engine has after loading: those of the files that end in \<open>.tmpl\<close>.\<close>

lemma loadEmbedded_names:
  "loadEmbedded parse fs te = (None, te') \<Longrightarrow>
     dom (te_templates te') = dom (te_templates te) \<union>
       (\<lambda>f. trim_suffix (tf_name f) ''.tmpl'') ` {f \<in> set fs. \<not> tf_dir f \<and> has_suffix (tf_name f) ''.tmpl''}"
proof (induction fs arbitrary: te)
  case (Cons f fs)
  show ?case
  proof (cases "tf_dir f \<or> \<not> has_suffix (tf_name f) ''.tmpl''")
    case True
    then have "{g \<in> set (f # fs). \<not> tf_dir g \<and> has_suffix (tf_name g) ''.tmpl''} =
        {g \<in> set fs. \<not> tf_dir g \<and> has_suffix (tf_name g) ''.tmpl''}" by auto
    with True Cons show ?thesis by simp
  next
    case False
    then have s: "{g \<in> set (f # fs). \<not> tf_dir g \<and> has_suffix (tf_name g) ''.tmpl''} =
        insert f {g \<in> set fs. \<not> tf_dir g \<and> has_suffix (tf_name g) ''.tmpl''}" by auto
    from Cons.prems False obtain t where
      l: "loadEmbedded parse fs (te\<lparr>te_templates := (te_templates te)(trim_suffix (tf_name f) ''.tmpl'' \<mapsto> t)\<rparr>) = (None, te')"
      by (auto simp: Let_def split: option.splits)
    show ?thesis unfolding s Cons.IH [OF l] by auto
  qed
qed simp

lemma load_files_blank:
  "load_files parse fs te = (e, te') \<Longrightarrow> list_all (\<lambda>f. has_suffix (tf_name f) ''.tmpl'') fs \<Longrightarrow>
     (\<forall>name t. te_templates te name = Some t \<longrightarrow> t data = None) \<Longrightarrow>
     te_templates te' name = Some t \<Longrightarrow> t data = None"
proof (induction fs arbitrary: te)
  case (Cons f fs)
  let ?name = "trim_suffix (tf_name f) ''.tmpl''"
  obtain r where r: "tf_name f = r @ ''.tmpl''" using Cons.prems(2) by (auto simp: has_suffix_iff)
  then have "?name \<noteq> tf_name f" by simp
  then have blank: "parsed_file ?name (tf_name f) u data = None" for u by (simp add: parsed_file_def)
  show ?case
  proof (cases "case tf_content f of None \<Rightarrow> None | Some content \<Rightarrow> parse content")
    case None
    then show ?thesis using Cons.prems by (auto simp: Let_def)
  next
    case (Some u)
    then have "load_files parse fs (te\<lparr>te_templates := (te_templates te)(?name \<mapsto> parsed_file ?name (tf_name f) u)\<rparr>) = (e, te')"
      using Cons.prems(1) by (simp add: Let_def)
    from Cons.IH [OF this] Cons.prems(2-4) blank show ?thesis by (auto split: if_splits)
  qed
qed auto

text \<open>
  Templates from a directory never render.  An engine built from a directory has every template under a
  name that the parsed files do not have, so \<open>Render\<close> fails for every name and all data, and so does
  the fallback.
\<close>

theorem directory_templates_never_render:
  assumes "NewTemplateEngine parse embedded (Some files) = Inr te"
  shows "\<exists>e. Render te name data = Inl e \<and> (\<exists>e'. RenderWithFallback te name fallback data = Inl e')"
proof -
  have l: "load_files parse (filter (\<lambda>f. has_suffix (tf_name f) ''.tmpl'') files) \<lparr>te_templates = Map.empty\<rparr> = (None, te)"
    using assms by (auto simp: NewTemplateEngine_def Reload_def loadFromDir_def split: prod.splits option.splits)
  have "list_all (\<lambda>f. has_suffix (tf_name f) ''.tmpl'') (filter (\<lambda>f. has_suffix (tf_name f) ''.tmpl'') files)"
    by (simp add: list_all_iff)
  from load_files_blank [OF l this] have blank: "te_templates te k = Some t \<Longrightarrow> t data = None" for k t by simp
  have r: "\<exists>e. Render te k data = Inl e" for k
  proof (cases "te_templates te k")
    case (Some t)
    then show ?thesis using blank [OF Some] by (simp add: Render_def)
  qed (simp add: Render_def)
  obtain e e' where "Render te name data = Inl e" "Render te fallback data = Inl e'" using r by blast
  then show ?thesis by (simp add: RenderWithFallback_def)
qed

subsection \<open>Concrete runs\<close>

text \<open>Templates that render two lines.\<close>

definition sample_files :: "template_file list" where
  "sample_files = map (\<lambda>n. \<lparr>tf_name = n, tf_dir = False, tf_content = Some n\<rparr>) embedded_names"

definition two_lines :: template where
  "two_lines data = Some (''T'' @ CHR 0x0A # ''M'')"

definition sample_engine :: template_engine where
  "sample_engine = snd (loadEmbedded (\<lambda>c. Some two_lines) sample_files \<lparr>te_templates = Map.empty\<rparr>)"

lemma sample_loaded:
  "loadEmbedded (\<lambda>c. Some two_lines) sample_files \<lparr>te_templates = Map.empty\<rparr> = (None, sample_engine)"
  by (simp add: sample_engine_def sample_files_def embedded_names_def has_suffix_def)

theorem directory_templates_never_render_witness:
  "\<exists>te. NewTemplateEngine (\<lambda>c. Some two_lines) [] (Some sample_files) = Inr te \<and>
     (\<exists>e. Render te ''order_filled'' Map.empty = Inl e)"
proof -
  obtain te where te: "NewTemplateEngine (\<lambda>c. Some two_lines) [] (Some sample_files) = Inr te"
    by (simp add: NewTemplateEngine_def Reload_def loadFromDir_def sample_files_def embedded_names_def has_suffix_def Let_def)
  from directory_templates_never_render [OF te] te show ?thesis by blast
qed

end
