(* ===== verification/Notify_Consumer.thy ===== *)
theory Notify_Consumer
  imports Notify_Repo Notify_Channels Templates Kafka
begin

text \<open>
  The consumer of \<open>notification-service/internal/consumer/notification_consumer.go\<close>: an event becomes a rendered notification for every
  enabled preference of its user, sent with retries and recorded in the history.
\<close>

subsection \<open>The consumer\<close>

record 'w nc_env =
  nce_decode :: "string \<Rightarrow> any_map option"
  nce_now :: "'w \<Rightarrow> instant"
  nce_wait :: "duration \<Rightarrow> 'w \<Rightarrow> bool \<times> 'w"
  nce_error :: "channel_error \<Rightarrow> string"

record ('s, 'w) notification_consumer =
  nc_channels :: "string \<Rightarrow> 'w channel option"
  nc_repo :: "'s notify_repository"
  nc_templates :: template_engine
  nc_topics :: "string list"

text \<open>What the consumer changes: its two counters, the repository, and the world.\<close>

record ('s, 'w) nc_state =
  ncs_processed :: int
  ncs_failed :: int
  ncs_store :: 's
  ncs_world :: 'w

datatype nc_error =
    EventUnparsable | EventTypeMissing | UserMissing | PreferencesFailed notify_repo_error
  | RenderFailed template_error

text \<open>The first line is the title; without a line end the text is both title and message.\<close>

definition parseRenderedTemplate :: "string \<Rightarrow> string \<times> string" where
  "parseRenderedTemplate rendered = (case index_of (CHR 0x0A) rendered of
     Some i \<Rightarrow> (take i rendered, drop (i + 1) rendered)
   | None \<Rightarrow> (rendered, rendered))"

definition renderNotification ::
  "('s, 'w) notification_consumer \<Rightarrow> string \<Rightarrow> any_map \<Rightarrow> template_error + string \<times> string" where
  "renderNotification nc event data = (case Render (nc_templates nc) event data of
     Inl e \<Rightarrow> Inl e
   | Inr rendered \<Rightarrow> Inr (parseRenderedTemplate rendered))"

definition merge_config :: "any_map option \<Rightarrow> any_map \<Rightarrow> any_map" where
  "merge_config config data = (case config of None \<Rightarrow> data | Some c \<Rightarrow> data ++ c)"

text \<open>
  The notification's data is the event's map itself, so what an attempt merges into it stays there: the
  loop runs on the map and the world.
\<close>

definition send_attempt ::
  "'w channel \<Rightarrow> notification \<Rightarrow> preference \<Rightarrow> any_map \<times> 'w \<Rightarrow> channel_error option \<times> any_map \<times> 'w" where
  "send_attempt ch n pref = (\<lambda>(data, w).
     let data' = merge_config (pf_config pref) data;
         (r, w') = ch_Send ch (n\<lparr>nt_data := data'\<rparr>) w in (r, data', w'))"

definition wait_world :: "'w nc_env \<Rightarrow> duration \<Rightarrow> any_map \<times> 'w \<Rightarrow> bool \<times> any_map \<times> 'w" where
  "wait_world env d = (\<lambda>(data, w). let (c, w') = nce_wait env d w in (c, data, w'))"

definition sendWithRetry ::
  "'w nc_env \<Rightarrow> 'w channel \<Rightarrow> notification \<Rightarrow> preference \<Rightarrow> any_map \<times> 'w \<Rightarrow>
     channel_error option \<times> any_map \<times> 'w" where
  "sendWithRetry env ch n pref s =
     retry_send (wait_world env) (\<lambda>_. nt_retry_interval n) (send_attempt ch n pref) (nt_max_retries n) s"

definition saveHistory ::
  "('s, 'w) notification_consumer \<Rightarrow> instant \<Rightarrow> string \<Rightarrow> string \<Rightarrow> string \<Rightarrow> string \<Rightarrow> string \<Rightarrow>
     any_map \<Rightarrow> string \<Rightarrow> string \<Rightarrow> 's \<Rightarrow> 's" where
  "saveHistory nc now user channel event title message payload status errorMsg s =
     snd (nr_save (nc_repo nc)
       \<lparr>hs_id = [], hs_user = user, hs_channel = channel, hs_event_type = event, hs_title = title,
        hs_message = message, hs_payload = Some payload, hs_status = status, hs_error_message = errorMsg,
        hs_retry_count = 0, hs_sent_at = (if status = ''sent'' then Some now else None), hs_created_at = zero_time\<rparr> s)"

text \<open>The loop over the preferences.\<close>

fun notify_prefs ::
  "'w nc_env \<Rightarrow> ('s, 'w) notification_consumer \<Rightarrow> string \<Rightarrow> string \<Rightarrow> string \<Rightarrow> string \<Rightarrow> preference list \<Rightarrow>
     any_map \<times> 's \<times> 'w \<Rightarrow> any_map \<times> 's \<times> 'w" where
  "notify_prefs env nc user event title message [] st = st"
| "notify_prefs env nc user event title message (pref # prefs) (data, s, w) =
     (if \<not> pf_enabled pref then notify_prefs env nc user event title message prefs (data, s, w)
      else case nc_channels nc (pf_channel pref) of
        None \<Rightarrow> notify_prefs env nc user event title message prefs (data, s, w)
      | Some ch \<Rightarrow>
          let n = (NewNotification (nce_now env w) user event title message)\<lparr>nt_data := data\<rparr>;
              (r, data1, w1) = sendWithRetry env ch n pref (data, w);
              s1 = (case r of
                 Some err \<Rightarrow> saveHistory nc (nce_now env w1) user (pf_channel pref) event title message data1
                   ''failed'' (nce_error env err) s
               | None \<Rightarrow> saveHistory nc (nce_now env w1) user (pf_channel pref) event title message data1
                   ''sent'' [] s) in
          notify_prefs env nc user event title message prefs (data1, s1, w1))"

definition nc_handleMessage ::
  "'w nc_env \<Rightarrow> ('s, 'w) notification_consumer \<Rightarrow> (('s, 'w) nc_state, nc_error) message_handler" where
  "nc_handleMessage env nc msg st =
     (case nce_decode env (cm_value msg) of
        None \<Rightarrow> (Some EventUnparsable, st)
      | Some data \<Rightarrow>
     (case data ''event_type'' of
        Some (VString event) \<Rightarrow>
     (case data ''user_id'' of
        Some (VString user) \<Rightarrow>
          (case nr_preferences (nc_repo nc) user (ncs_store st) of
             (Inl e, s) \<Rightarrow> (Some (PreferencesFailed e), st\<lparr>ncs_store := s\<rparr>)
           | (Inr prefs, s) \<Rightarrow>
               if prefs = [] then (None, st\<lparr>ncs_store := s\<rparr>)
               else case renderNotification nc event data of
                 Inl e \<Rightarrow> (Some (RenderFailed e), st\<lparr>ncs_store := s\<rparr>)
               | Inr (title, message) \<Rightarrow>
                   let (_, s1, w1) = notify_prefs env nc user event title message prefs (data, s, ncs_world st) in
                   (None, st\<lparr>ncs_store := s1, ncs_world := w1\<rparr>))
      | _ \<Rightarrow> (Some UserMissing, st))
      | _ \<Rightarrow> (Some EventTypeMissing, st)))"

definition onMessageProcessed :: "(('s, 'w) nc_state, nc_error) processed_hook" where
  "onMessageProcessed topic part off err st =
     (if err \<noteq> None then st\<lparr>ncs_failed := ncs_failed st + 1\<rparr>
      else st\<lparr>ncs_processed := ncs_processed st + 1\<rparr>)"

definition nc_GetMetrics :: "('s, 'w) nc_state \<Rightarrow> int \<times> int" where
  "nc_GetMetrics st = (ncs_processed st, ncs_failed st)"

subsection \<open>Counters\<close>

lemma nc_handleMessage_counters:
  "ncs_processed (snd (nc_handleMessage env nc msg st)) = ncs_processed st \<and>
   ncs_failed (snd (nc_handleMessage env nc msg st)) = ncs_failed st"
  by (auto simp: nc_handleMessage_def Let_def split: option.splits any_value.splits sum.splits prod.splits)

interpretation notify_handler: message_handler "nc_handleMessage env nc" "Some onMessageProcessed"
  "\<lambda>st. ncs_processed st + ncs_failed st"
  by unfold_locales (auto simp: process_message_def onMessageProcessed_def case_prod_beta Let_def
      nc_handleMessage_counters)

text \<open>
  The consumer's two counters.  Over any run of the claim loop, whatever other goroutines do without
  touching the counters, every delivered message is counted exactly once, as processed or as failed.
\<close>

theorem notify_counters:
  assumes "\<And>f v. OtherStep f \<in> set evs \<Longrightarrow> ncs_processed (f v) + ncs_failed (f v) = ncs_processed v + ncs_failed v"
  shows "ncs_processed (fst (ConsumeClaim cs auto (nc_handleMessage env nc) (Some onMessageProcessed) evs (st, s))) +
      ncs_failed (fst (ConsumeClaim cs auto (nc_handleMessage env nc) (Some onMessageProcessed) evs (st, s))) =
    ncs_processed st + ncs_failed st + int (length (delivered evs))"
  using assms by (rule notify_handler.tally_counts_deliveries)

subsection \<open>The rendered text\<close>

lemma index_of_append: "c \<notin> set t \<Longrightarrow> index_of c (t @ c # m) = Some (length t)"
  by (induction t) auto

lemma index_of_None: "index_of c s = None \<longleftrightarrow> c \<notin> set s"
  by (induction s) auto

text \<open>
  Title and message.  A title of one line and any message survive the rendered form \<open>title LF message\<close>;
  the title that comes out never holds a line end unless the whole text has none, and the two parts
  with a line end between them are the rendered text again.
\<close>

theorem rendered_round_trip:
  "(CHR 0x0A \<notin> set title \<longrightarrow> parseRenderedTemplate (title @ CHR 0x0A # message) = (title, message)) \<and>
   (let (t, m) = parseRenderedTemplate rendered in
      CHR 0x0A \<notin> set t \<and> (if CHR 0x0A \<in> set rendered then rendered = t @ CHR 0x0A # m else t = rendered \<and> m = rendered))"
proof
  show "CHR 0x0A \<notin> set title \<longrightarrow> parseRenderedTemplate (title @ CHR 0x0A # message) = (title, message)"
    by (simp add: parseRenderedTemplate_def index_of_append)
  show "let (t, m) = parseRenderedTemplate rendered in
      CHR 0x0A \<notin> set t \<and> (if CHR 0x0A \<in> set rendered then rendered = t @ CHR 0x0A # m else t = rendered \<and> m = rendered)"
  proof (cases "CHR 0x0A \<in> set rendered")
    case True
    then obtain t m where r: "rendered = t @ CHR 0x0A # m" "CHR 0x0A \<notin> set t" by (meson split_list_first)
    then show ?thesis by (simp add: parseRenderedTemplate_def index_of_append)
  next
    case False
    then have "index_of (CHR 0x0A) rendered = None" by (simp add: index_of_None)
    then show ?thesis using False by (simp add: parseRenderedTemplate_def)
  qed
qed

definition unrendered_events :: "string list" where
  "unrendered_events = [''order_cancelled'', ''position_opened'', ''position_closed'', ''maintenance_notice'']"

text \<open>
  Half of the event types have no template.  With the templates the service embeds, a well-formed event
  of type \<open>order_cancelled\<close>, \<open>position_opened\<close>, \<open>position_closed\<close> or \<open>maintenance_notice\<close> fails for every user
  who has a preference: nothing is sent, nothing is recorded, and the message is not acknowledged.
\<close>

theorem unrendered_events_fail:
  assumes "loadEmbedded parse files \<lparr>te_templates = Map.empty\<rparr> = (None, nc_templates nc)"
    and "map tf_name files = embedded_names" and "event \<in> set unrendered_events"
    and "nce_decode env (cm_value msg) = Some data"
    and "data ''event_type'' = Some (VString event)" and "data ''user_id'' = Some (VString user)"
    and "nr_preferences (nc_repo nc) user (ncs_store st) = (Inr (p # ps), s)"
  shows "nc_handleMessage env nc msg st = (Some (RenderFailed (TemplateNotFound event)), st\<lparr>ncs_store := s\<rparr>)"
proof -
  have "dom (te_templates (nc_templates nc)) \<subseteq> (\<lambda>n. trim_suffix n ''.tmpl'') ` set (map tf_name files)"
    using loadEmbedded_names [OF assms(1)] by auto
  also have "\<dots> = set [''order_filled'', ''order_rejected'', ''risk_alert'', ''system_alert'']"
    unfolding assms(2) by (simp add: embedded_names_def trim_suffix_def has_suffix_def)
  finally have "te_templates (nc_templates nc) event = None"
    using assms(3) by (auto simp: unrendered_events_def)
  then show ?thesis
    using assms(4-7) by (simp add: nc_handleMessage_def renderNotification_def Render_def)
qed

subsection \<open>What the channels get\<close>

text \<open>The same consumer on a world that records every call of a channel and its result.\<close>

type_synonym send_record = "string \<times> notification \<times> channel_error option"

definition log_channel :: "string \<Rightarrow> 'w channel \<Rightarrow> ('w \<times> send_record list) channel" where
  "log_channel name ch = \<lparr>ch_Name = ch_Name ch,
     ch_Send = (\<lambda>n (w, l). let (r, w') = ch_Send ch n w in (r, w', l @ [(name, n, r)])),
     ch_HealthCheck = (\<lambda>(w, l). let (r, w') = ch_HealthCheck ch w in (r, w', l))\<rparr>"

definition log_consumer ::
  "('s, 'w) notification_consumer \<Rightarrow> ('s, 'w \<times> send_record list) notification_consumer" where
  "log_consumer nc = \<lparr>nc_channels = (\<lambda>k. map_option (log_channel k) (nc_channels nc k)),
     nc_repo = nc_repo nc, nc_templates = nc_templates nc, nc_topics = nc_topics nc\<rparr>"

definition with_log :: "'w nc_env \<Rightarrow> ('w \<times> 'l) nc_env" where
  "with_log env = \<lparr>nce_decode = nce_decode env, nce_now = (\<lambda>(w, l). nce_now env w),
     nce_wait = (\<lambda>d (w, l). let (c, w') = nce_wait env d w in (c, w', l)), nce_error = nce_error env\<rparr>"

definition log_env :: "'w nc_env \<Rightarrow> ('w \<times> send_record list) nc_env" where
  "log_env env = with_log env"

lemma log_Send: "ch_Send (log_channel name ch) n (w, l) =
    (fst (ch_Send ch n w), snd (ch_Send ch n w), l @ [(name, n, fst (ch_Send ch n w))])"
  by (simp add: log_channel_def case_prod_beta Let_def)

lemma with_log_wait: "wait_world (with_log env) d (data, w, l) = (fst (nce_wait env d w), data, snd (nce_wait env d w), l)"
  by (simp add: wait_world_def with_log_def case_prod_beta Let_def)

lemma log_wait: "wait_world (log_env env) d (data, w, l) = (fst (nce_wait env d w), data, snd (nce_wait env d w), l)"
  by (simp add: log_env_def with_log_wait)

lemma merge_config_idem: "merge_config c (merge_config c data) = merge_config c data"
  by (simp add: merge_config_def map_add_def fun_eq_iff split: option.splits)

text \<open>
  The record of one delivery: the calls of one channel with the same data, of which only the last can
  have succeeded.
\<close>

definition delivery :: "string \<Rightarrow> any_map \<Rightarrow> bool \<Rightarrow> send_record list \<Rightarrow> bool" where
  "delivery name data ok block \<longleftrightarrow>
     list_all (\<lambda>(k, n, r). k = name \<and> nt_data n = data) block \<and>
     list_all (\<lambda>(k, n, r). r \<noteq> None) (butlast block) \<and> (ok \<longleftrightarrow> block \<noteq> [] \<and> snd (snd (List.last block)) = None)"

lemma delivery_Cons:
  "delivery name data ok block \<Longrightarrow> nt_data n = data \<Longrightarrow> delivery name data ok ((name, n, Some e) # block)"
  by (cases block) (auto simp: delivery_def)

lemma send_attempts_log:
  assumes "send_attempts (wait_world (log_env env)) pause (send_attempt (log_channel name ch) n pref) tries k left le
      (data, w, l) = (r, data', w', l')"
  shows "\<exists>block. l' = l @ block \<and> length block \<le> left \<and> (k = 0 \<and> 0 < left \<longrightarrow> block \<noteq> []) \<and>
     delivery name (merge_config (pf_config pref) data) (r = None) block \<and>
     data' = (if block = [] then data else merge_config (pf_config pref) data)"
  using assms
proof (induction left arbitrary: k le data w l)
  case 0
  then show ?case by (auto simp: delivery_def)
next
  case (Suc left)
  let ?d = "merge_config (pf_config pref) data"
  define c where "c = (0 < k \<and> fst (nce_wait env (pause k) w))"
  define w1 where "w1 = (if 0 < k then snd (nce_wait env (pause k) w) else w)"
  have wait: "(if 0 < k then wait_world (log_env env) (pause k) (data, w, l) else (False, data, w, l)) = (c, data, w1, l)"
    by (simp add: log_wait c_def w1_def)
  define q where "q = fst (ch_Send ch (n\<lparr>nt_data := ?d\<rparr>) w1)"
  define w2 where "w2 = snd (ch_Send ch (n\<lparr>nt_data := ?d\<rparr>) w1)"
  have post: "send_attempt (log_channel name ch) n pref (data, w1, l) = (q, ?d, w2, l @ [(name, n\<lparr>nt_data := ?d\<rparr>, q)])"
    by (simp add: send_attempt_def log_Send q_def w2_def Let_def)
  note step = Suc.prems [unfolded send_attempts.simps wait Let_def prod.case post]
  show ?case
  proof (cases c)
    case True
    then show ?thesis using step by (intro exI [of _ "[]"]) (auto simp: c_def delivery_def)
  next
    case False
    show ?thesis
    proof (cases q)
      case None
      then show ?thesis using step False
        by (intro exI [of _ "[(name, n\<lparr>nt_data := ?d\<rparr>, q)]"]) (auto simp: delivery_def)
    next
      case (Some e)
      then have "send_attempts (wait_world (log_env env)) pause (send_attempt (log_channel name ch) n pref) tries (Suc k) left
          (Some e) (?d, w2, l @ [(name, n\<lparr>nt_data := ?d\<rparr>, q)]) = (r, data', w', l')"
        using step False by simp
      from Suc.IH [OF this] obtain block where b: "l' = (l @ [(name, n\<lparr>nt_data := ?d\<rparr>, q)]) @ block"
        "length block \<le> left" "delivery name ?d (r = None) block" "data' = ?d"
        by (auto simp: merge_config_idem split: if_splits)
      have "delivery name ?d (r = None) ((name, n\<lparr>nt_data := ?d\<rparr>, Some e) # block)"
        by (rule delivery_Cons [OF b(3)]) simp
      then show ?thesis using b Some by (intro exI [of _ "(name, n\<lparr>nt_data := ?d\<rparr>, q) # block"]) auto
    qed
  qed
qed

text \<open>The data each preference's notification carries, the configurations before it included.\<close>

fun merged_data :: "preference list \<Rightarrow> any_map \<Rightarrow> any_map list" where
  "merged_data [] data = []"
| "merged_data (p # ps) data =
     merge_config (pf_config p) data # merged_data ps (merge_config (pf_config p) data)"

definition attempted :: "('s, 'w) notification_consumer \<Rightarrow> preference list \<Rightarrow> preference list" where
  "attempted nc prefs = filter (\<lambda>p. pf_enabled p \<and> nc_channels nc (pf_channel p) \<noteq> None) prefs"

text \<open>One preference's share of a message: its calls, and whether they ended in success.\<close>

definition served :: "preference \<times> any_map \<Rightarrow> bool \<times> send_record list \<Rightarrow> bool" where
  "served = (\<lambda>(p, d) (ok, block). block \<noteq> [] \<and> length block \<le> 4 \<and> delivery (pf_channel p) d ok block)"

definition expected_record :: "preference \<Rightarrow> bool \<times> send_record list \<Rightarrow> string \<times> string" where
  "expected_record p x = (pf_channel p, if fst x then ''sent'' else ''failed'')"

lemma log_consumer_simps [simp]:
  "nc_channels (log_consumer nc) k = map_option (log_channel k) (nc_channels nc k)"
  "nc_repo (log_consumer nc) = nc_repo nc" "nc_templates (log_consumer nc) = nc_templates nc"
  by (simp_all add: log_consumer_def)

lemma sendWithRetry_log:
  assumes "sendWithRetry (log_env env) (log_channel (pf_channel p) ch) n p (data, w, l) = (r, data', w', l')"
    and "nt_max_retries n = 3"
  shows "\<exists>block. l' = l @ block \<and> served (p, merge_config (pf_config p) data) (r = None, block) \<and>
     data' = merge_config (pf_config p) data"
proof -
  from send_attempts_log [OF assms(1) [unfolded sendWithRetry_def retry_send_def assms(2)]]
  obtain block where "l' = l @ block" "length block \<le> 4" "block \<noteq> []"
    "delivery (pf_channel p) (merge_config (pf_config p) data) (r = None) block" "data' = merge_config (pf_config p) data"
    by (auto split: if_splits)
  then show ?thesis by (intro exI [of _ block]) (simp add: served_def)
qed

context notification_store
begin

lemma saveHistory_rows:
  assumes "nc_repo nc = repo" and "ok s"
  shows "ok (saveHistory nc now user channel event title message data status msg s) \<and>
     rows (saveHistory nc now user channel event title message data status msg s) \<in>
       {rows s, rows s @ [(channel, status)]}"
proof -
  define h where "h = \<lparr>hs_id = [], hs_user = user, hs_channel = channel, hs_event_type = event, hs_title = title,
        hs_message = message, hs_payload = Some data, hs_status = status, hs_error_message = msg,
        hs_retry_count = 0, hs_sent_at = (if status = ''sent'' then Some now else None), hs_created_at = zero_time\<rparr>"
  obtain e s' where e: "nr_save repo h s = (e, s')" by (metis surj_pair)
  have "saveHistory nc now user channel event title message data status msg s = s'"
    using e assms(1) by (simp add: saveHistory_def h_def)
  moreover have "hs_channel h = channel" "hs_status h = status" by (simp_all add: h_def)
  ultimately show ?thesis using save_law [OF e assms(2)] by (auto split: if_splits)
qed

lemma notify_prefs_log:
  assumes "nc_repo nc = repo" and "ok s"
    and "notify_prefs (log_env env) (log_consumer nc) user event title message prefs (data, s, w, l) = (data', s', w', l')"
  shows "\<exists>xs saved. l' = l @ concat (map snd xs) \<and>
     list_all2 served (zip (attempted nc prefs) (merged_data (attempted nc prefs) data)) xs \<and>
     ok s' \<and> rows s' = rows s @ saved \<and> subseq saved (map2 expected_record (attempted nc prefs) xs)"
  using assms(2,3)
proof (induction prefs arbitrary: data s w l)
  case Nil
  then show ?case by (intro exI [of _ "[]"]) (simp add: attempted_def)
next
  case (Cons p prefs)
  show ?case
  proof (cases "pf_enabled p \<and> nc_channels nc (pf_channel p) \<noteq> None")
    case False
    then have "notify_prefs (log_env env) (log_consumer nc) user event title message prefs (data, s, w, l) = (data', s', w', l')"
      using Cons.prems(2) by (auto split: if_splits option.splits)
    moreover have "attempted nc (p # prefs) = attempted nc prefs" using False by (auto simp: attempted_def)
    ultimately show ?thesis using Cons.IH [OF Cons.prems(1)] by simp
  next
    case True
    then obtain ch where ch: "nc_channels nc (pf_channel p) = Some ch" by auto
    let ?n = "(NewNotification (nce_now (log_env env) (w, l)) user event title message)\<lparr>nt_data := data\<rparr>"
    obtain r data1 w1 l1 where r: "sendWithRetry (log_env env) (log_channel (pf_channel p) ch) ?n p (data, w, l) = (r, data1, w1, l1)"
      by (metis surj_pair)
    from sendWithRetry_log [OF r] obtain block where b: "l1 = l @ block"
      "served (p, merge_config (pf_config p) data) (r = None, block)" "data1 = merge_config (pf_config p) data"
      by (auto simp: NewNotification_def)
    define s1 where "s1 = (case r of
                 Some err \<Rightarrow> saveHistory (log_consumer nc) (nce_now (log_env env) (w1, l1)) user (pf_channel p) event title message data1
                   ''failed'' (nce_error (log_env env) err) s
               | None \<Rightarrow> saveHistory (log_consumer nc) (nce_now (log_env env) (w1, l1)) user (pf_channel p) event title message data1
                   ''sent'' [] s)"
    have rest: "notify_prefs (log_env env) (log_consumer nc) user event title message prefs (data1, s1, w1, l1) = (data', s', w', l')"
      using Cons.prems(2) True ch r by (simp add: s1_def Let_def)
    have repo: "nc_repo (log_consumer nc) = repo" using assms(1) by simp
    have s1: "ok s1 \<and> rows s1 \<in> {rows s, rows s @ [expected_record p (r = None, block)]}"
      unfolding s1_def expected_record_def
      using saveHistory_rows [OF repo Cons.prems(1)] by (cases r) auto
    from Cons.IH [OF conjunct1 [OF s1] rest] obtain xs saved where xs: "l' = l1 @ concat (map snd xs)"
      "list_all2 served (zip (attempted nc prefs) (merged_data (attempted nc prefs) data1)) xs"
      "ok s'" "rows s' = rows s1 @ saved" "subseq saved (map2 expected_record (attempted nc prefs) xs)" by blast
    have a: "attempted nc (p # prefs) = p # attempted nc prefs" using True by (simp add: attempted_def)
    have "\<exists>saved'. rows s' = rows s @ saved' \<and>
        subseq saved' (map2 expected_record (p # attempted nc prefs) ((r = None, block) # xs))"
    proof (cases "rows s1 = rows s")
      case True
      then show ?thesis using xs(4,5) by (intro exI [of _ saved]) (simp add: list_emb_Cons)
    next
      case False
      then have "rows s1 = rows s @ [expected_record p (r = None, block)]" using s1 by blast
      then show ?thesis using xs(4,5)
        by (intro exI [of _ "expected_record p (r = None, block) # saved"]) simp
    qed
    then obtain saved' where sv: "rows s' = rows s @ saved'"
      "subseq saved' (map2 expected_record (p # attempted nc prefs) ((r = None, block) # xs))" by blast
    show ?thesis unfolding a
      using xs(1-3) b sv by (intro exI [of _ "(r = None, block) # xs"] exI [of _ saved']) simp
  qed
qed

end

lemma not_a_string:
  "\<nexists>e. x = Some (VString e) \<Longrightarrow>
     (case x of None \<Rightarrow> b | Some VNull \<Rightarrow> b | Some (VBool _) \<Rightarrow> b | Some (VNumber _) \<Rightarrow> b | Some (VString e) \<Rightarrow> a e
      | Some (VList _) \<Rightarrow> b | Some (VObject _) \<Rightarrow> b | Some (VStrings _) \<Rightarrow> b) = b"
  by (auto split: option.splits any_value.splits)

text \<open>The two ways a message goes: it stops before any preference is served, or it serves them all.\<close>

lemma handleMessage_cases:
  assumes h: "nc_handleMessage env nc msg st = (r, st')"
  obtains (stopped) s where "st' = st\<lparr>ncs_store := s\<rparr>"
      "s = ncs_store st \<or> (\<exists>user. s = snd (nr_preferences (nc_repo nc) user (ncs_store st)))"
  | (served) data event user p ps s title message data' s' w' where "r = None"
      "nce_decode env (cm_value msg) = Some data" "data ''event_type'' = Some (VString event)"
      "data ''user_id'' = Some (VString user)"
      "nr_preferences (nc_repo nc) user (ncs_store st) = (Inr (p # ps), s)"
      "renderNotification nc event data = Inr (title, message)"
      "notify_prefs env nc user event title message (p # ps) (data, s, ncs_world st) = (data', s', w')"
      "st' = st\<lparr>ncs_store := s', ncs_world := w'\<rparr>"
proof (cases "nce_decode env (cm_value msg)")
  case None
  with h show ?thesis by (intro stopped [of "ncs_store st"]) (auto simp: nc_handleMessage_def)
next
  case (Some data)
  note d = Some
  show ?thesis
  proof (cases "\<exists>e. data ''event_type'' = Some (VString e)")
    case False
    with h d show ?thesis by (intro stopped [of "ncs_store st"]) (auto simp: nc_handleMessage_def not_a_string)
  next
    case True
    then obtain event where e: "data ''event_type'' = Some (VString event)" ..
    show ?thesis
    proof (cases "\<exists>u. data ''user_id'' = Some (VString u)")
      case False
      with h d e show ?thesis by (intro stopped [of "ncs_store st"]) (auto simp: nc_handleMessage_def not_a_string)
    next
      case True
      then obtain user where u: "data ''user_id'' = Some (VString user)" ..
      obtain q s where q: "nr_preferences (nc_repo nc) user (ncs_store st) = (q, s)" by (metis surj_pair)
      then have s: "s = snd (nr_preferences (nc_repo nc) user (ncs_store st))" by simp
      show ?thesis
      proof (cases "\<exists>p ps title message. q = Inr (p # ps) \<and> renderNotification nc event data = Inr (title, message)")
        case False
        have "st' = st\<lparr>ncs_store := s\<rparr>"
        proof (cases q)
          case (Inl err) with h d e u q show ?thesis by (simp add: nc_handleMessage_def)
        next
          case (Inr prefs)
          with False h d e u q show ?thesis
            by (cases prefs; cases "renderNotification nc event data") (auto simp: nc_handleMessage_def)
        qed
        then show ?thesis using s by (intro stopped) auto
      next
        case True
        then obtain p ps title message where t: "q = Inr (p # ps)" "renderNotification nc event data = Inr (title, message)" by blast
        obtain data' s' w' where n: "notify_prefs env nc user event title message (p # ps) (data, s, ncs_world st) = (data', s', w')"
          by (rule prod_cases3)
        have "r = None" "st' = st\<lparr>ncs_store := s', ncs_world := w'\<rparr>"
          using h d e u q t n by (simp_all add: nc_handleMessage_def del: notify_prefs.simps)
        then show ?thesis using d e u q t n by (intro served) auto
      qed
    qed
  qed
qed

context notification_store
begin

lemma handleMessage_log:
  assumes "nc_repo nc = repo" and "ok (ncs_store st)"
    and "nc_handleMessage (log_env env) (log_consumer nc) msg st = (r, st')"
  shows "\<exists>ps data xs saved. snd (ncs_world st') = snd (ncs_world st) @ concat (map snd xs) \<and>
     list_all2 served (zip (attempted nc ps) (merged_data (attempted nc ps) data)) xs \<and>
     distinct (map pf_channel (attempted nc ps)) \<and> (r \<noteq> None \<longrightarrow> ps = []) \<and>
     (ps \<noteq> [] \<longrightarrow> nce_decode env (cm_value msg) = Some data \<and>
       (\<exists>user. data ''user_id'' = Some (VString user) \<and> fst (nr_preferences repo user (ncs_store st)) = Inr ps)) \<and>
     ok (ncs_store st') \<and> rows (ncs_store st') = rows (ncs_store st) @ saved \<and>
     subseq saved (map2 expected_record (attempted nc ps) xs)"
  using assms(3)
proof (cases rule: handleMessage_cases)
  case (stopped s)
  have "ok s \<and> rows s = rows (ncs_store st)"
    using stopped(2) preferences_law [OF surjective_pairing assms(2)] assms by auto
  then show ?thesis using stopped(1)
    by (intro exI [of _ "[]"]) (simp add: attempted_def)
next
  case (served data event user p ps s title message data' s' w')
  have g: "nr_preferences repo user (ncs_store st) = (Inr (p # ps), s)" using served(5) assms(1) by simp
  from preferences_law [OF g assms(2)] have s: "ok s" "rows s = rows (ncs_store st)"
    "distinct (map pf_channel (p # ps))" by auto
  obtain w l where w: "ncs_world st = (w, l)" by (cases "ncs_world st")
  obtain w1 l1 where w1: "w' = (w1, l1)" by (cases w')
  from notify_prefs_log [OF assms(1) s(1) served(7) [unfolded w w1]] obtain xs saved where xs:
    "l1 = l @ concat (map snd xs)"
    "list_all2 served (zip (attempted nc (p # ps)) (merged_data (attempted nc (p # ps)) data)) xs"
    "ok s'" "rows s' = rows s @ saved" "subseq saved (map2 expected_record (attempted nc (p # ps)) xs)" by blast
  have "distinct (map pf_channel (attempted nc (p # ps)))"
    using s(3) unfolding attempted_def by (rule distinct_map_filter)
  moreover have "nce_decode env (cm_value msg) = Some data" using served(2) by (simp add: log_env_def with_log_def)
  ultimately show ?thesis
    using xs s served(1,4,8) g w w1
    by (intro exI [of _ "p # ps"] exI [of _ data] exI [of _ xs] exI [of _ saved]) auto
qed

end


text \<open>
  Configurations leak between channels.  When a user has two enabled preferences, the notification for
  the second channel carries every entry of the first one's configuration (a webhook address, a
  token) that its own does not overwrite, because all of them share the event's map.
\<close>

theorem config_leaks_to_next_channel:
  assumes "notify_prefs (log_env env) (log_consumer nc) user event title message [p, q] (data, s, w, []) = (data', s', w', l')"
    and "pf_enabled p" "nc_channels nc (pf_channel p) \<noteq> None" "pf_enabled q" "nc_channels nc (pf_channel q) \<noteq> None"
    and "pf_config p = Some c" "c k = Some v" "pf_config q = Some d" "d k = None"
  shows "\<exists>n r. (pf_channel q, n, r) \<in> set l' \<and> nt_data n k = Some v"
proof -
  obtain ch1 ch2 where ch: "nc_channels nc (pf_channel p) = Some ch1" "nc_channels nc (pf_channel q) = Some ch2"
    using assms by auto
  let ?n1 = "(NewNotification (nce_now (log_env env) (w, [])) user event title message)\<lparr>nt_data := data\<rparr>"
  obtain r1 d1 w1 l1 where r1: "sendWithRetry (log_env env) (log_channel (pf_channel p) ch1) ?n1 p (data, w, []) = (r1, d1, w1, l1)"
    by (metis surj_pair)
  let ?n2 = "(NewNotification (nce_now (log_env env) (w1, l1)) user event title message)\<lparr>nt_data := d1\<rparr>"
  obtain r2 d2 w2 l2 where r2: "sendWithRetry (log_env env) (log_channel (pf_channel q) ch2) ?n2 q (d1, w1, l1) = (r2, d2, w2, l2)"
    by (metis surj_pair)
  have m: "nt_max_retries ?n1 = 3" "nt_max_retries ?n2 = 3" by (simp_all add: NewNotification_def)
  from sendWithRetry_log [OF r1 m(1)] have d1: "d1 = data ++ c" using assms(6) by (auto simp: merge_config_def)
  from sendWithRetry_log [OF r2 m(2)] obtain block where b: "l2 = l1 @ block"
    "served (q, merge_config (pf_config q) d1) (r2 = None, block)" by blast
  then obtain k' n r rest where blk: "block = (k', n, r) # rest" "k' = pf_channel q" "nt_data n = merge_config (pf_config q) d1"
    by (cases block) (auto simp: served_def delivery_def)
  have "l' = l2" using assms(1-5) ch r1 r2 by (simp add: Let_def)
  moreover have "nt_data n k = Some v" using blk(3) d1 assms(7-9) by (simp add: merge_config_def map_add_def)
  ultimately show ?thesis using b blk by auto
qed

subsection \<open>Retries of retries\<close>

definition slack_channel :: "'w notify_env \<Rightarrow> slack_config \<Rightarrow> 'w channel" where
  "slack_channel env c = \<lparr>ch_Name = ''slack'', ch_Send = slack_Send env c, ch_HealthCheck = slack_HealthCheck env c\<rparr>"

interpretation slack_delivery: message_sender
  "send_attempt (slack_channel (recording nenv) c) n pref" "wait_world (with_log env)" "\<lambda>(data, w, l). l"
  "nat (effective_retries (slc_channel c) n + 1)" "\<lambda>x. True"
proof
  fix s r s'
  assume a: "send_attempt (slack_channel (recording nenv) c) n pref s = (r, s')"
  obtain data w l where s: "s = (data, w, l)" by (metis surj_pair)
  let ?n = "n\<lparr>nt_data := merge_config (pf_config pref) data\<rparr>"
  obtain w' l' where p: "slack_Send (recording nenv) c ?n (w, l) = (r, w', l')" "s' = (merge_config (pf_config pref) data, w', l')"
    using a unfolding s by (auto simp: send_attempt_def slack_channel_def Let_def split: prod.splits)
  have "effective_retries (slc_channel c) ?n = effective_retries (slc_channel c) n" by (simp add: effective_retries_def)
  with slack_Send_posts [OF p(1)] p(2)
  show "\<exists>ms. (case s' of (data, w, l) \<Rightarrow> l) = (case s of (data, w, l) \<Rightarrow> l) @ ms \<and>
      length ms \<le> nat (effective_retries (slc_channel c) n + 1) \<and> list_all (\<lambda>x. True) ms \<and> (r = None \<longrightarrow> ms \<noteq> [])"
    unfolding s by (auto simp: list_all_iff)
next
  show "(case snd (wait_world (with_log env) d s) of (data, w, l) \<Rightarrow> l) = (case s of (data, w, l) \<Rightarrow> l)" for d s
    by (cases s) (simp add: with_log_wait)
qed

text \<open>
  The consumer retries what the channel already retries: for one preference a message makes at most
  sixteen posts to Slack, four times four, and the witness makes them all.
\<close>

theorem slack_posts_per_preference:
  assumes "sendWithRetry (with_log env) (slack_channel (recording nenv) c) n pref (data, w, l) = (r, data', w', l')"
    and "nt_max_retries n = 3"
  shows "\<exists>ms. l' = l @ ms \<and> length ms \<le> 16 \<and> (r = None \<longrightarrow> ms \<noteq> [])"
  using slack_delivery.retry_send_bounded [OF assms(1) [unfolded sendWithRetry_def]] assms(2)
  by (auto simp: effective_retries_def)

subsection \<open>Concrete runs\<close>

text \<open>
  A consumer with two channels that always take a notification, the embedded templates rendering two lines,
  and a user with a preference for each channel.
\<close>

lemma sample_engine_renders: "te_templates sample_engine ''order_filled'' = Some two_lines"
  by (simp add: sample_engine_def sample_files_def embedded_names_def has_suffix_def trim_suffix_def)

definition taking_channel :: "string \<Rightarrow> unit channel" where
  "taking_channel name = \<lparr>ch_Name = name, ch_Send = (\<lambda>n w. (None, w)), ch_HealthCheck = (\<lambda>w. (None, w))\<rparr>"

definition sample_consumer :: "(notify_db, unit) notification_consumer" where
  "sample_consumer = \<lparr>nc_channels = [''slack'' \<mapsto> taking_channel ''slack'', ''email'' \<mapsto> taking_channel ''email''],
     nc_repo = NewPostgresRepository sample_pg_env sample_codec, nc_templates = sample_engine, nc_topics = [''trade.orders'']\<rparr>"

definition sample_nc_env :: "unit nc_env" where
  "sample_nc_env = \<lparr>nce_decode = (\<lambda>v. if v = ''bad'' then None
       else Some [''event_type'' \<mapsto> VString v, ''user_id'' \<mapsto> VString ''u1'']),
     nce_now = (\<lambda>w. 0), nce_wait = (\<lambda>d w. (False, w)), nce_error = (\<lambda>e. [])\<rparr>"

definition sample_pref_row :: "string \<Rightarrow> string \<Rightarrow> pref_row" where
  "sample_pref_row channel doc = \<lparr>pw_id = channel, pw_user = ''u1'', pw_channel = channel, pw_enabled = True,
     pw_config = Some doc, pw_created_at = 0, pw_updated_at = 0\<rparr>"

definition sample_notify_db :: notify_db where
  "sample_notify_db = empty_notify_db\<lparr>nd_prefs := [sample_pref_row ''slack'' ''{secret'']\<rparr>"

lemma sample_notify_db_ok: "notify_ok sample_notify_db"
  by (simp add: notify_ok_def sample_notify_db_def empty_notify_db_def sample_pref_row_def channel_kinds_def)

definition sample_consumed :: "string \<Rightarrow> consumed_message" where
  "sample_consumed v = \<lparr>cm_topic = ''trade.orders'', cm_partition = 0, cm_offset = 0, cm_key = [], cm_value = v,
     cm_headers = Map.empty, cm_timestamp = 0\<rparr>"

definition sample_state :: "'w \<Rightarrow> (notify_db, 'w) nc_state" where
  "sample_state w = \<lparr>ncs_processed = 0, ncs_failed = 0, ncs_store = sample_notify_db, ncs_world = w\<rparr>"

lemma sample_preferences:
  "GetUserPreferences sample_pg_env sample_codec ''u1'' sample_notify_db =
     (Inr [\<lparr>pf_id = ''slack'', pf_user = ''u1'', pf_channel = ''slack'', pf_enabled = True,
        pf_config = Some [''k'' \<mapsto> VString ''secret''], pf_created_at = 0, pf_updated_at = 0\<rparr>], nd_next sample_notify_db)"
  by (simp add: GetUserPreferences_def sample_pg_env_def sample_notify_db_def empty_notify_db_def sample_pref_row_def
      scanPreference_def sample_codec_def Let_def)

theorem notify_counters_witness:
  "ncs_processed (fst (ConsumeClaim map_session True (nc_handleMessage sample_nc_env sample_consumer) (Some onMessageProcessed)
       [ClaimMessage (sample_sarama 1 ''bad''), ClaimMessage (sample_sarama 2 ''bad'')] (sample_state (), \<lambda>k. 0))) +
   ncs_failed (fst (ConsumeClaim map_session True (nc_handleMessage sample_nc_env sample_consumer) (Some onMessageProcessed)
       [ClaimMessage (sample_sarama 1 ''bad''), ClaimMessage (sample_sarama 2 ''bad'')] (sample_state (), \<lambda>k. 0))) = 2"
  by (subst notify_counters) (auto simp: sample_state_def)

theorem rendered_round_trip_witness:
  "parseRenderedTemplate (''T'' @ CHR 0x0A # ''M'') = (''T'', ''M'')"
  using rendered_round_trip [of "''T''" "''M''" "[]"] by simp

theorem unrendered_events_fail_witness:
  "fst (nc_handleMessage sample_nc_env sample_consumer (sample_consumed ''order_cancelled'') (sample_state ())) =
     Some (RenderFailed (TemplateNotFound ''order_cancelled''))"
proof -
  have "nc_handleMessage sample_nc_env sample_consumer (sample_consumed ''order_cancelled'') (sample_state ()) =
      (Some (RenderFailed (TemplateNotFound ''order_cancelled'')), sample_state ()\<lparr>ncs_store := nd_next sample_notify_db\<rparr>)"
  proof (rule unrendered_events_fail)
    show "loadEmbedded (\<lambda>c. Some two_lines) sample_files \<lparr>te_templates = Map.empty\<rparr> = (None, nc_templates sample_consumer)"
      using sample_loaded by (simp add: sample_consumer_def)
    show "map tf_name sample_files = embedded_names" by (simp add: sample_files_def embedded_names_def)
    show "''order_cancelled'' \<in> set unrendered_events" by (simp add: unrendered_events_def)
    show "nce_decode sample_nc_env (cm_value (sample_consumed ''order_cancelled'')) =
        Some [''event_type'' \<mapsto> VString ''order_cancelled'', ''user_id'' \<mapsto> VString ''u1'']"
      by (simp add: sample_nc_env_def sample_consumed_def)
    show "nr_preferences (nc_repo sample_consumer) ''u1'' (ncs_store (sample_state ())) =
        (Inr [\<lparr>pf_id = ''slack'', pf_user = ''u1'', pf_channel = ''slack'', pf_enabled = True,
        pf_config = Some [''k'' \<mapsto> VString ''secret''], pf_created_at = 0, pf_updated_at = 0\<rparr>], nd_next sample_notify_db)"
      by (simp add: sample_consumer_def NewPostgresRepository_def sample_state_def sample_preferences)
  qed simp_all
  then show ?thesis by simp
qed

definition sample_pref :: "string \<Rightarrow> any_map \<Rightarrow> preference" where
  "sample_pref channel c = \<lparr>pf_id = channel, pf_user = ''u1'', pf_channel = channel, pf_enabled = True,
     pf_config = Some c, pf_created_at = 0, pf_updated_at = 0\<rparr>"

theorem config_leaks_to_next_channel_witness:
  "\<exists>l' data' s' n r. notify_prefs (log_env sample_nc_env) (log_consumer sample_consumer) ''u1'' ''order_filled'' ''T'' ''M''
       [sample_pref ''email'' [''smtp_password'' \<mapsto> VString ''secret''], sample_pref ''slack'' [''a'' \<mapsto> VNull]]
       (Map.empty, sample_notify_db, (), []) = (data', s', (), l') \<and>
     (''slack'', n, r) \<in> set l' \<and> nt_data n ''smtp_password'' = Some (VString ''secret'')"
proof -
  let ?p = "sample_pref ''email'' [''smtp_password'' \<mapsto> VString ''secret'']"
  let ?q = "sample_pref ''slack'' [''a'' \<mapsto> VNull]"
  obtain data' s' v where r: "notify_prefs (log_env sample_nc_env) (log_consumer sample_consumer) ''u1'' ''order_filled'' ''T'' ''M''
       [?p, ?q] (Map.empty, sample_notify_db, (), []) = (data', s', v)" by (rule prod_cases3)
  obtain w' l' where v: "v = (w', l')" by (cases v)
  have "\<exists>n r. (pf_channel ?q, n, r) \<in> set l' \<and> nt_data n ''smtp_password'' = Some (VString ''secret'')"
    by (rule config_leaks_to_next_channel [OF r [unfolded v], where c = "[''smtp_password'' \<mapsto> VString ''secret'']" and d = "[''a'' \<mapsto> VNull]"])
      (simp_all add: sample_pref_def sample_consumer_def)
  then obtain n r where "(''slack'', n, r) \<in> set l'" "nt_data n ''smtp_password'' = Some (VString ''secret'')"
    by (auto simp: sample_pref_def)
  moreover have "w' = ()" by simp
  ultimately show ?thesis using r v by blast
qed


theorem slack_posts_per_preference_witness:
  "\<exists>ms. snd (snd (snd (sendWithRetry (with_log sample_nc_env) (slack_channel (recording (sample_notify False)) sample_slack)
       sample_notification (sample_pref ''slack'' Map.empty) (Map.empty, (), [])))) = ms \<and> length ms \<le> 16"
proof -
  let ?s = "sendWithRetry (with_log sample_nc_env) (slack_channel (recording (sample_notify False)) sample_slack)
       sample_notification (sample_pref ''slack'' Map.empty) (Map.empty, (), [])"
  obtain r d v where s: "?s = (r, d, v)" by (rule prod_cases3)
  obtain w' l' where v: "v = (w', l')" by (cases v)
  have "nt_max_retries sample_notification = 3" by (simp add: sample_notification_def NewNotification_def)
  from slack_posts_per_preference [OF s [unfolded v] this] show ?thesis unfolding s v by auto
qed

text \<open>The bound is reached when Slack does not answer.\<close>

lemma sixteen_posts:
  "length (snd (snd (snd (sendWithRetry (with_log sample_nc_env) (slack_channel (recording (sample_notify False)) sample_slack)
       sample_notification (sample_pref ''slack'' [''slack_webhook_url'' \<mapsto> VString ''https://hooks'']) (Map.empty, (), []))))) = 16"
proof -
  have fails: "sendWebhook (recording (sample_notify False)) url msg (w, l) =
      (Some (ErrSendFailed 500 []), w, l @ [HttpCall (json_post url (slm_text msg)) (HttpReply 500 [])])" for url msg w l
    by (simp add: sendWebhook_def sample_notify_def)
  have wait: "ne_wait (sample_notify False) d u = (False, u)" for d u by (simp add: sample_notify_def)
  have wait2: "nce_wait (with_log sample_nc_env) d (w, l) = (False, w, l)" for d w l by (simp add: with_log_def sample_nc_env_def)
  have send: "\<exists>e ms. slack_Send (recording (sample_notify False)) sample_slack n (w, l) = (Some e, w, l @ ms) \<and> length ms = 4"
    if "nt_max_retries n = 3" "nt_data n ''slack_webhook_url'' = Some (VString ''https://hooks'')" for n w l
    using that by (simp add: slack_Send_def getWebhookURL_def retry_send_def effective_retries_def numeral_eq_Suc Let_def fails wait)
  define cfg :: any_map where "cfg = [''slack_webhook_url'' \<mapsto> VString ''https://hooks'']"
  have att: "\<exists>e ms. send_attempt (slack_channel (recording (sample_notify False)) sample_slack) sample_notification (sample_pref ''slack'' cfg) (d, w, l) =
      (Some e, d ++ cfg, w, l @ ms) \<and> length ms = 4" for d w l
  proof -
    let ?n = "sample_notification\<lparr>nt_data := d ++ cfg\<rparr>"
    have "nt_max_retries ?n = 3" "nt_data ?n ''slack_webhook_url'' = Some (VString ''https://hooks'')"
      by (simp_all add: sample_notification_def NewNotification_def cfg_def)
    from send [OF this, of w l] obtain e ms where "slack_Send (recording (sample_notify False)) sample_slack ?n (w, l) = (Some e, w, l @ ms)" "length ms = 4"
      by blast
    then show ?thesis by (simp add: send_attempt_def slack_channel_def merge_config_def sample_pref_def Let_def)
  qed
  have step: "length (snd (snd (snd (send_attempts (wait_world (with_log sample_nc_env)) pause
       (send_attempt (slack_channel (recording (sample_notify False)) sample_slack) sample_notification (sample_pref ''slack'' cfg))
       tries k left le (d, w, l))))) = length l + 4 * left" for pause tries k left le d w l
  proof (induction left arbitrary: k le d w l)
    case (Suc left)
    from att [of d w l] obtain e ms where a: "send_attempt (slack_channel (recording (sample_notify False)) sample_slack) sample_notification
       (sample_pref ''slack'' cfg) (d, w, l) = (Some e, d ++ cfg, w, l @ ms)" "length ms = 4" by blast
    have "wait_world (with_log sample_nc_env) (pause k) (d, w, l) = (False, d, w, l)"
      by (simp add: wait_world_def wait2)
    then show ?case using a Suc.IH [of "Suc k" "Some e" "d ++ cfg" w "l @ ms"] by (cases k) simp_all
  qed simp
  show ?thesis unfolding sendWithRetry_def retry_send_def cfg_def [symmetric] step
    by (simp add: sample_notification_def NewNotification_def)
qed

end
