(* ===== verification/Notify_Startup.thy ===== *)
theory Notify_Startup
  imports Go_Env Logger Notify_Manager Notify_Email Notify_Consumer
begin

text \<open>
  The start of the notification service: \<open>internal/config/config.go\<close> and \<open>cmd/server/main.go\<close>, which builds
  the channels, the manager and the consumer from the configuration and serves four read-only
  endpoints.  Whether PostgreSQL answers and which configurations Sarama accepts are parameters.
\<close>

subsection \<open>The configuration\<close>

record ntf_kafka_config =
  ntk_brokers :: "string list"
  ntk_group_id :: string
  ntk_topic_trade_orders :: string
  ntk_topic_risk_alerts :: string
  ntk_topic_system_alerts :: string
  ntk_enable_auto_commit :: bool
  ntk_auto_commit_interval :: duration
  ntk_session_timeout :: duration
  ntk_heartbeat_interval :: duration
  ntk_max_processing_time :: duration
  ntk_initial_offset :: string

record ntf_database_config =
  ntd_host :: string
  ntd_port :: int
  ntd_user :: string
  ntd_password :: string
  ntd_database :: string
  ntd_max_connections :: int
  ntd_min_connections :: int
  ntd_max_conn_lifetime :: duration
  ntd_max_conn_idle_time :: duration
  ntd_ssl_mode :: string

record ntf_slack_config =
  nts_enabled :: bool
  nts_default_webhook_url :: string
  nts_bot_token :: string
  nts_signing_secret :: string
  nts_timeout :: duration
  nts_max_retries :: int
  nts_rate_limit_per_min :: int

record ntf_telegram_config =
  ntt_enabled :: bool
  ntt_bot_token :: string
  ntt_parse_mode :: string
  ntt_timeout :: duration
  ntt_max_retries :: int
  ntt_rate_limit_per_min :: int

record ntf_email_config =
  nte_enabled :: bool
  nte_smtp_host :: string
  nte_smtp_port :: int
  nte_smtp_username :: string
  nte_smtp_password :: string
  nte_from_email :: string
  nte_from_name :: string
  nte_use_tls :: bool
  nte_use_start_tls :: bool
  nte_timeout :: duration
  nte_max_retries :: int

record ntf_templates_config =
  ntp_directory :: string
  ntp_use_embedded :: bool
  ntp_reload_on_dev :: bool

record ntf_logger_config =
  ntl_level :: string
  ntl_format :: string
  ntl_output :: string
  ntl_service_name :: string
  ntl_environment :: string

record ntf_server_config =
  ntv_http_port :: string
  ntv_metrics_port :: string
  ntv_enable_metrics :: bool
  ntv_enable_health_check :: bool
  ntv_graceful_timeout :: duration

record ntf_config =
  ntf_environment :: string
  ntf_kafka :: ntf_kafka_config
  ntf_database :: ntf_database_config
  ntf_slack :: ntf_slack_config
  ntf_telegram :: ntf_telegram_config
  ntf_email :: ntf_email_config
  ntf_templates :: ntf_templates_config
  ntf_logger :: ntf_logger_config
  ntf_server :: ntf_server_config

definition load_ntf_kafka_config :: "env_parsers \<Rightarrow> env_vars \<Rightarrow> ntf_kafka_config" where
  "load_ntf_kafka_config p e =
     \<lparr>ntk_brokers = getEnvAsSlice e ''KAFKA_BROKERS'' [''localhost:9092''],
      ntk_group_id = getEnv e ''KAFKA_GROUP_ID'' ''notification-service'',
      ntk_topic_trade_orders = getEnv e ''KAFKA_TOPIC_TRADE_ORDERS'' ''trade.orders'',
      ntk_topic_risk_alerts = getEnv e ''KAFKA_TOPIC_RISK_ALERTS'' ''risk.alerts'',
      ntk_topic_system_alerts = getEnv e ''KAFKA_TOPIC_SYSTEM_ALERTS'' ''system.alerts'',
      ntk_enable_auto_commit = getEnvAsBool e ''KAFKA_ENABLE_AUTO_COMMIT'' True,
      ntk_auto_commit_interval = getEnvAsDuration p e ''KAFKA_AUTO_COMMIT_INTERVAL'' Second,
      ntk_session_timeout = getEnvAsDuration p e ''KAFKA_SESSION_TIMEOUT'' (30 * Second),
      ntk_heartbeat_interval = getEnvAsDuration p e ''KAFKA_HEARTBEAT_INTERVAL'' (3 * Second),
      ntk_max_processing_time = getEnvAsDuration p e ''KAFKA_MAX_PROCESSING_TIME'' (5 * Minute),
      ntk_initial_offset = getEnv e ''KAFKA_INITIAL_OFFSET'' ''newest''\<rparr>"

definition load_ntf_database_config :: "env_parsers \<Rightarrow> env_vars \<Rightarrow> ntf_database_config" where
  "load_ntf_database_config p e =
     \<lparr>ntd_host = getEnv e ''POSTGRES_HOST'' ''localhost'',
      ntd_port = getEnvAsInt e ''POSTGRES_PORT'' 5432,
      ntd_user = getEnv e ''POSTGRES_USER'' ''aipx'',
      ntd_password = getEnv e ''POSTGRES_PASSWORD'' ''aipx_dev_password'',
      ntd_database = getEnv e ''POSTGRES_DB'' ''aipx'',
      ntd_max_connections = getEnvAsInt e ''POSTGRES_MAX_CONNECTIONS'' 20,
      ntd_min_connections = getEnvAsInt e ''POSTGRES_MIN_CONNECTIONS'' 5,
      ntd_max_conn_lifetime = getEnvAsDuration p e ''POSTGRES_MAX_CONN_LIFETIME'' Hour,
      ntd_max_conn_idle_time = getEnvAsDuration p e ''POSTGRES_MAX_CONN_IDLE_TIME'' (30 * Minute),
      ntd_ssl_mode = getEnv e ''POSTGRES_SSL_MODE'' ''disable''\<rparr>"

definition load_ntf_slack_config :: "env_parsers \<Rightarrow> env_vars \<Rightarrow> ntf_slack_config" where
  "load_ntf_slack_config p e =
     \<lparr>nts_enabled = getEnvAsBool e ''SLACK_ENABLED'' True,
      nts_default_webhook_url = getEnv e ''SLACK_WEBHOOK_URL'' [],
      nts_bot_token = getEnv e ''SLACK_BOT_TOKEN'' [],
      nts_signing_secret = getEnv e ''SLACK_SIGNING_SECRET'' [],
      nts_timeout = getEnvAsDuration p e ''SLACK_TIMEOUT'' (10 * Second),
      nts_max_retries = getEnvAsInt e ''SLACK_MAX_RETRIES'' 3,
      nts_rate_limit_per_min = getEnvAsInt e ''SLACK_RATE_LIMIT_PER_MIN'' 60\<rparr>"

definition load_ntf_telegram_config :: "env_parsers \<Rightarrow> env_vars \<Rightarrow> ntf_telegram_config" where
  "load_ntf_telegram_config p e =
     \<lparr>ntt_enabled = getEnvAsBool e ''TELEGRAM_ENABLED'' True,
      ntt_bot_token = getEnv e ''TELEGRAM_BOT_TOKEN'' [],
      ntt_parse_mode = getEnv e ''TELEGRAM_PARSE_MODE'' ''Markdown'',
      ntt_timeout = getEnvAsDuration p e ''TELEGRAM_TIMEOUT'' (10 * Second),
      ntt_max_retries = getEnvAsInt e ''TELEGRAM_MAX_RETRIES'' 3,
      ntt_rate_limit_per_min = getEnvAsInt e ''TELEGRAM_RATE_LIMIT_PER_MIN'' 30\<rparr>"

definition load_ntf_email_config :: "env_parsers \<Rightarrow> env_vars \<Rightarrow> ntf_email_config" where
  "load_ntf_email_config p e =
     \<lparr>nte_enabled = getEnvAsBool e ''EMAIL_ENABLED'' True,
      nte_smtp_host = getEnv e ''SMTP_HOST'' ''localhost'',
      nte_smtp_port = getEnvAsInt e ''SMTP_PORT'' 587,
      nte_smtp_username = getEnv e ''SMTP_USERNAME'' [],
      nte_smtp_password = getEnv e ''SMTP_PASSWORD'' [],
      nte_from_email = getEnv e ''EMAIL_FROM_EMAIL'' ''noreply@aipx.io'',
      nte_from_name = getEnv e ''EMAIL_FROM_NAME'' ''AIPX Trading Platform'',
      nte_use_tls = getEnvAsBool e ''SMTP_USE_TLS'' False,
      nte_use_start_tls = getEnvAsBool e ''SMTP_USE_STARTTLS'' True,
      nte_timeout = getEnvAsDuration p e ''EMAIL_TIMEOUT'' (30 * Second),
      nte_max_retries = getEnvAsInt e ''EMAIL_MAX_RETRIES'' 3\<rparr>"

definition load_ntf_templates_config :: "env_parsers \<Rightarrow> env_vars \<Rightarrow> ntf_templates_config" where
  "load_ntf_templates_config p e =
     \<lparr>ntp_directory = getEnv e ''TEMPLATES_DIR'' [],
      ntp_use_embedded = getEnvAsBool e ''TEMPLATES_USE_EMBEDDED'' True,
      ntp_reload_on_dev = getEnvAsBool e ''TEMPLATES_RELOAD_ON_DEV'' True\<rparr>"

definition load_ntf_logger_config :: "env_parsers \<Rightarrow> env_vars \<Rightarrow> ntf_logger_config" where
  "load_ntf_logger_config p e =
     \<lparr>ntl_level = getEnv e ''LOG_LEVEL'' ''info'',
      ntl_format = getEnv e ''LOG_FORMAT'' ''json'',
      ntl_output = getEnv e ''LOG_OUTPUT'' ''stdout'',
      ntl_service_name = ''notification-service'',
      ntl_environment = getEnv e ''ENVIRONMENT'' ''development''\<rparr>"

definition load_ntf_server_config :: "env_parsers \<Rightarrow> env_vars \<Rightarrow> ntf_server_config" where
  "load_ntf_server_config p e =
     \<lparr>ntv_http_port = getEnv e ''HTTP_PORT'' ''8085'',
      ntv_metrics_port = getEnv e ''METRICS_PORT'' ''9095'',
      ntv_enable_metrics = getEnvAsBool e ''ENABLE_METRICS'' True,
      ntv_enable_health_check = getEnvAsBool e ''ENABLE_HEALTH_CHECK'' True,
      ntv_graceful_timeout = getEnvAsDuration p e ''GRACEFUL_TIMEOUT'' (30 * Second)\<rparr>"

definition read_ntf_config :: "env_parsers \<Rightarrow> env_vars \<Rightarrow> ntf_config" where
  "read_ntf_config p e =
     \<lparr>ntf_environment = getEnv e ''ENVIRONMENT'' ''development'',
      ntf_kafka = load_ntf_kafka_config p e,
      ntf_database = load_ntf_database_config p e,
      ntf_slack = load_ntf_slack_config p e,
      ntf_telegram = load_ntf_telegram_config p e,
      ntf_email = load_ntf_email_config p e,
      ntf_templates = load_ntf_templates_config p e,
      ntf_logger = load_ntf_logger_config p e,
      ntf_server = load_ntf_server_config p e\<rparr>"

datatype ntf_config_error = NtfBrokersEmpty | NtfHostEmpty | NtfPortInvalid int | NoChannelEnabled

definition ntf_Validate :: "ntf_config \<Rightarrow> ntf_config_error option" where
  "ntf_Validate c =
     (if ntk_brokers (ntf_kafka c) = [] then Some NtfBrokersEmpty
      else if ntd_host (ntf_database c) = [] then Some NtfHostEmpty
      else if ntd_port (ntf_database c) \<le> 0 \<or> 65535 < ntd_port (ntf_database c)
      then Some (NtfPortInvalid (ntd_port (ntf_database c)))
      else if \<not> nts_enabled (ntf_slack c) \<and> \<not> ntt_enabled (ntf_telegram c) \<and> \<not> nte_enabled (ntf_email c)
      then Some NoChannelEnabled else None)"

definition LoadNtfConfig :: "env_parsers \<Rightarrow> env_vars \<Rightarrow> ntf_config_error + ntf_config" where
  "LoadNtfConfig p e =
     (let config = read_ntf_config p e in
      case ntf_Validate config of Some err \<Rightarrow> Inl err | None \<Rightarrow> Inr config)"

definition GetDatabaseURL :: "ntf_config \<Rightarrow> string" where
  "GetDatabaseURL c =
     (let d = ntf_database c in
      ''postgres://'' @ ntd_user d @ '':'' @ ntd_password d @ ''@'' @ ntd_host d @ '':'' @ int_str (ntd_port d) @
      ''/'' @ ntd_database d @ ''?sslmode='' @ ntd_ssl_mode d)"

definition ntf_IsDevelopment :: "ntf_config \<Rightarrow> bool" where
  "ntf_IsDevelopment c \<longleftrightarrow> ntf_environment c = ''development'' \<or> ntf_environment c = ''dev''"

definition ntf_IsProduction :: "ntf_config \<Rightarrow> bool" where
  "ntf_IsProduction c \<longleftrightarrow> ntf_environment c = ''production'' \<or> ntf_environment c = ''prod''"

subsection \<open>The parts\<close>

definition ntf_pool :: "ntf_config \<Rightarrow> pool_config" where
  "ntf_pool c =
     (let d = ntf_database c in
      \<lparr>pool_dsn = GetDatabaseURL c, pool_max_conns = word_of_int (ntd_max_connections d),
       pool_min_conns = word_of_int (ntd_min_connections d), pool_max_lifetime = ntd_max_conn_lifetime d,
       pool_max_idle_time = ntd_max_conn_idle_time d\<rparr>)"

definition ntf_logger_of :: "ntf_config \<Rightarrow> logger_config" where
  "ntf_logger_of c =
     (let l = ntf_logger c in
      \<lparr>lgc_level = ntl_level l, lgc_format = ntl_format l, lgc_output = ntl_output l, lgc_time_format = [],
       lgc_service_name = ntl_service_name l, lgc_environment = ntl_environment l, lgc_enable_caller = True,
       lgc_caller_skip = 0\<rparr>)"

text \<open>A limit of zero values but for the two fields that are given, as Go leaves them.\<close>

definition minute_limit :: "int \<Rightarrow> rate_limit_config" where
  "minute_limit n = \<lparr>rl_enabled = True, rl_max_per_minute = n, rl_max_per_hour = 0, rl_burst_size = 0, rl_cleanup_timeout = 0\<rparr>"

definition no_limit :: rate_limit_config where
  "no_limit = \<lparr>rl_enabled = False, rl_max_per_minute = 0, rl_max_per_hour = 0, rl_burst_size = 0, rl_cleanup_timeout = 0\<rparr>"

definition slack_settings :: "ntf_config \<Rightarrow> slack_config" where
  "slack_settings cfg =
     (let c = ntf_slack cfg in
      \<lparr>slc_channel = \<lparr>cc_enabled = nts_enabled c, cc_timeout = nts_timeout c, cc_retry_attempts = nts_max_retries c,
         cc_retry_interval = 5 * Second, cc_rate_limit = minute_limit (nts_rate_limit_per_min c)\<rparr>,
       slc_webhook = nts_default_webhook_url c, slc_bot_token = nts_bot_token c, slc_signing_secret = nts_signing_secret c\<rparr>)"

definition telegram_settings :: "ntf_config \<Rightarrow> tg_config" where
  "telegram_settings cfg =
     (let c = ntf_telegram cfg in
      \<lparr>tgc_channel = \<lparr>cc_enabled = ntt_enabled c, cc_timeout = ntt_timeout c, cc_retry_attempts = ntt_max_retries c,
         cc_retry_interval = 5 * Second, cc_rate_limit = minute_limit (ntt_rate_limit_per_min c)\<rparr>,
       tgc_bot_token = ntt_bot_token c, tgc_parse_mode = ntt_parse_mode c, tgc_webhook_url = [], tgc_webhook_secret = []\<rparr>)"

definition email_settings :: "ntf_config \<Rightarrow> email_config" where
  "email_settings cfg =
     (let c = ntf_email cfg in
      \<lparr>emc_channel = \<lparr>cc_enabled = nte_enabled c, cc_timeout = nte_timeout c, cc_retry_attempts = nte_max_retries c,
         cc_retry_interval = 5 * Second, cc_rate_limit = no_limit\<rparr>,
       emc_host = nte_smtp_host c, emc_port = nte_smtp_port c, emc_username = nte_smtp_username c,
       emc_password = nte_smtp_password c, emc_from = nte_from_email c, emc_from_name = nte_from_name c,
       emc_tls = nte_use_tls c, emc_starttls = nte_use_start_tls c\<rparr>)"

definition telegram_channel :: "'w notify_env \<Rightarrow> tg_config \<Rightarrow> 'w channel" where
  "telegram_channel env c = \<lparr>ch_Name = ''telegram'', ch_Send = tg_Send env c, ch_HealthCheck = tg_HealthCheck env c\<rparr>"

definition email_channel :: "'w notify_env \<Rightarrow> email_config \<Rightarrow> 'w channel" where
  "email_channel env c = \<lparr>ch_Name = ''email'', ch_Send = email_Send env c, ch_HealthCheck = email_HealthCheck env c\<rparr>"

text \<open>The first channel that refuses its settings ends it.\<close>

definition initChannels ::
  "'w notify_env \<Rightarrow> ntf_config \<Rightarrow> (string \<times> channel_error) + (string \<times> 'w channel) list" where
  "initChannels env cfg =
     (case (if nts_enabled (ntf_slack cfg) then
              (case NewSlackChannel (Some (slack_settings cfg)) of
                 Inl err \<Rightarrow> Inl (''slack'', err) | Inr c \<Rightarrow> Inr [(''slack'', slack_channel env c)])
            else Inr []) of
        Inl err \<Rightarrow> Inl err
      | Inr chs \<Rightarrow>
          (case (if ntt_enabled (ntf_telegram cfg) then
                   (case NewTelegramChannel (Some (telegram_settings cfg)) of
                      Inl err \<Rightarrow> Inl (''telegram'', err) | Inr c \<Rightarrow> Inr (chs @ [(''telegram'', telegram_channel env c)]))
                 else Inr chs) of
             Inl err \<Rightarrow> Inl err
           | Inr chs \<Rightarrow>
               (if nte_enabled (ntf_email cfg) then
                  (case NewEmailChannel env (Some (email_settings cfg)) of
                     Inl err \<Rightarrow> Inl (''email'', err) | Inr c \<Rightarrow> Inr (chs @ [(''email'', email_channel env c)]))
                else Inr chs)))"

text \<open>The fields the literal does not name keep their zero values.\<close>

definition ntf_kafka_settings :: "ntf_config \<Rightarrow> 'tls consumer_config" where
  "ntf_kafka_settings cfg =
     (let k = ntf_kafka cfg in
      \<lparr>cc_brokers = ntk_brokers k, cc_group_id = ntk_group_id k,
       cc_topics = [ntk_topic_trade_orders k, ntk_topic_risk_alerts k, ntk_topic_system_alerts k],
       cc_client_id = [], cc_initial_offset = (if ntk_initial_offset k = ''oldest'' then - 2 else - 1),
       cc_session_timeout = ntk_session_timeout k, cc_rebalance_timeout = 0,
       cc_heartbeat_interval = ntk_heartbeat_interval k, cc_max_processing_time = 0,
       cc_enable_auto_commit = ntk_enable_auto_commit k, cc_auto_commit_interval = ntk_auto_commit_interval k,
       cc_tls = None, cc_sasl = None, cc_metadata_refresh = 0\<rparr>)"

text \<open>\<open>opens\<close> tells whether \<open>sarama.NewConsumerGroup\<close> takes the configuration.\<close>

definition NewNotificationConsumer ::
  "('tls sarama_config \<Rightarrow> bool) \<Rightarrow> 'tls sarama_config \<Rightarrow> 'tls consumer_config \<Rightarrow> (string \<times> 'w channel) list \<Rightarrow>
     's notify_repository \<Rightarrow> template_engine \<Rightarrow> ('s, 'w) notification_consumer option" where
  "NewNotificationConsumer opens fresh kafka chs repo te =
     (case ToSaramaConsumerConfig fresh kafka of
        Inl err \<Rightarrow> None
      | Inr sc \<Rightarrow>
          if opens sc then Some \<lparr>nc_channels = map_of chs, nc_repo = repo, nc_templates = te, nc_topics = cc_topics kafka\<rparr>
          else None)"

subsection \<open>The start\<close>

record ('tls, 's, 'w) ntf_platform =
  np_logging :: logging_lib
  np_dsn_parses :: "string \<Rightarrow> bool"
  np_pool_opens :: "pool_config \<Rightarrow> bool"
  np_db_answers :: bool
  np_template_parse :: "string \<Rightarrow> template option"
  np_embedded :: "template_file list"
  np_directory :: "string \<Rightarrow> template_file list"
  np_env :: "'w notify_env"
  np_repo :: "'s notify_repository"
  np_sarama :: "'tls sarama_config"
  np_group_opens :: "'tls sarama_config \<Rightarrow> bool"

datatype ntf_start_error =
    NtfConfigInvalid ntf_config_error | NtfLoggerFailed logger_error | NtfDsnInvalid | NtfPoolFailed | NtfPingFailed
  | NtfTemplatesFailed template_error | NtfChannelFailed string channel_error | NtfManagerFailed | NtfConsumerFailed

definition ntf_initDatabase :: "('tls, 's, 'w) ntf_platform \<Rightarrow> ntf_config \<Rightarrow> ntf_start_error option" where
  "ntf_initDatabase pl c =
     (if \<not> np_dsn_parses pl (GetDatabaseURL c) then Some NtfDsnInvalid
      else if \<not> np_pool_opens pl (ntf_pool c) then Some NtfPoolFailed
      else if \<not> np_db_answers pl then Some NtfPingFailed else None)"

text \<open>An empty name of a directory stands for the embedded files.\<close>

definition template_dir :: "('tls, 's, 'w) ntf_platform \<Rightarrow> ntf_config \<Rightarrow> template_file list option" where
  "template_dir pl cfg =
     (let dir = ntp_directory (ntf_templates cfg) in if dir = [] then None else Some (np_directory pl dir))"

text \<open>
  \<open>main\<close> up to the point where the service runs; the results of the first health check are only logged,
  and an error ends the process.
\<close>

definition ntf_start ::
  "('tls, 's, 'w) ntf_platform \<Rightarrow> env_parsers \<Rightarrow> env_vars \<Rightarrow> log_globals \<Rightarrow> 'w \<Rightarrow>
     (ntf_start_error + ntf_config \<times> 'w channel_manager \<times> ('s, 'w) notification_consumer) \<times> 'w" where
  "ntf_start pl p e g w =
     (case LoadNtfConfig p e of
        Inl err \<Rightarrow> (Inl (NtfConfigInvalid err), w)
      | Inr cfg \<Rightarrow>
     (case fst (NewLogger (np_logging pl) (Some (ntf_logger_of cfg)) g) of
        Inl err \<Rightarrow> (Inl (NtfLoggerFailed err), w)
      | Inr _ \<Rightarrow>
     (case ntf_initDatabase pl cfg of
        Some err \<Rightarrow> (Inl err, w)
      | None \<Rightarrow>
     (case NewTemplateEngine (np_template_parse pl) (np_embedded pl) (template_dir pl cfg) of
        Inl err \<Rightarrow> (Inl (NtfTemplatesFailed err), w)
      | Inr te \<Rightarrow>
     (case initChannels (np_env pl) cfg of
        Inl (name, err) \<Rightarrow> (Inl (NtfChannelFailed name err), w)
      | Inr chs \<Rightarrow>
     (case NewChannelManager (Some \<lparr>mgc_channels = chs, mgc_rules = [], mgc_logger = True\<rparr>) of
        None \<Rightarrow> (Inl NtfManagerFailed, w)
      | Some manager \<Rightarrow>
     (let (health, w1) = manager_HealthCheck (mg_channels manager) w in
      case NewNotificationConsumer (np_group_opens pl) (np_sarama pl) (ntf_kafka_settings cfg) chs (np_repo pl) te of
        None \<Rightarrow> (Inl NtfConsumerFailed, w1)
      | Some nc \<Rightarrow> (Inr (cfg, manager, nc), w1))))))))"

subsection \<open>The endpoints\<close>

definition getVersion :: "env_vars \<Rightarrow> string" where
  "getVersion e = getEnv e ''SERVICE_VERSION'' ''dev''"

datatype ops_body =
    OpsNoBody
  | OpsHealth string string "(string \<times> channel_error option) list"
  | OpsReady string nat
  | OpsMetrics manager_metrics "int \<times> int"
  | OpsInfo string string string "string list" "string list" "(string \<times> string list) list"

datatype ops_call = OpsHealthCall | OpsReadyCall | OpsMetricsCall | OpsInfoCall

text \<open>
  The handlers of \<open>startHTTPServer\<close>: the status and the reply.  \<open>None\<close> is the panic of the metrics of a
  channel without counters.
\<close>

definition ops_serve ::
  "env_vars \<Rightarrow> ntf_config \<Rightarrow> 'w channel_manager \<Rightarrow> ('s, 'w) notification_consumer \<Rightarrow> string \<Rightarrow> ops_call \<Rightarrow>
     ('s, 'v) nc_state \<Rightarrow> 'w \<Rightarrow> (int \<times> ops_body) option \<times> 'w" where
  "ops_serve e cfg manager nc meth call st w =
     (if meth \<noteq> ''GET'' then (Some (405, OpsNoBody), w)
      else case call of
        OpsHealthCall \<Rightarrow>
          (let (results, w1) = manager_HealthCheck (mg_channels manager) w;
               healthy = list_all (\<lambda>(k, r). r = None) results in
           (Some (if healthy then 200 else 503,
              OpsHealth (if healthy then ''healthy'' else ''degraded'') (getVersion e) results), w1))
      | OpsReadyCall \<Rightarrow> (Some (200, OpsReady ''ready'' (length (ListChannels manager))), w)
      | OpsMetricsCall \<Rightarrow>
          (case GetMetrics manager of
             None \<Rightarrow> (None, w)
           | Some m \<Rightarrow> (Some (200, OpsMetrics m (nc_GetMetrics st)), w))
      | OpsInfoCall \<Rightarrow>
          (Some (200, OpsInfo ''notification-service'' (getVersion e) (ntf_environment cfg) (ListChannels manager)
             (nc_topics nc) (GetRoutingRules manager)), w))"

subsection \<open>Which configurations start\<close>

text \<open>Which settings the channels take.\<close>

definition channels_acceptable :: "'w notify_env \<Rightarrow> ntf_config \<Rightarrow> bool" where
  "channels_acceptable env cfg \<longleftrightarrow>
     (nts_enabled (ntf_slack cfg) \<longrightarrow> nts_default_webhook_url (ntf_slack cfg) \<noteq> [] \<or> nts_bot_token (ntf_slack cfg) \<noteq> []) \<and>
     (ntt_enabled (ntf_telegram cfg) \<longrightarrow> ntt_bot_token (ntf_telegram cfg) \<noteq> [] \<and>
        ntt_parse_mode (ntf_telegram cfg) \<in> {[], ''Markdown'', ''MarkdownV2'', ''HTML''}) \<and>
     (nte_enabled (ntf_email cfg) \<longrightarrow> nte_smtp_host (ntf_email cfg) \<noteq> [] \<and>
        0 < nte_smtp_port (ntf_email cfg) \<and> nte_smtp_port (ntf_email cfg) \<le> 65535 \<and>
        nte_from_email (ntf_email cfg) \<noteq> [] \<and> ne_address_ok env (nte_from_email (ntf_email cfg)))"

lemma slack_taken: "(case NewSlackChannel (Some (slack_settings cfg)) of Inl e \<Rightarrow> False | Inr c \<Rightarrow> True) \<longleftrightarrow>
    (nts_enabled (ntf_slack cfg) \<longrightarrow> nts_default_webhook_url (ntf_slack cfg) \<noteq> [] \<or> nts_bot_token (ntf_slack cfg) \<noteq> [])"
  by (simp add: NewSlackChannel_def slack_Validate_def slack_settings_def Let_def)

lemma telegram_taken: "(case NewTelegramChannel (Some (telegram_settings cfg)) of Inl e \<Rightarrow> False | Inr c \<Rightarrow> True) \<longleftrightarrow>
    (ntt_enabled (ntf_telegram cfg) \<longrightarrow> ntt_bot_token (ntf_telegram cfg) \<noteq> [] \<and>
        ntt_parse_mode (ntf_telegram cfg) \<in> {[], ''Markdown'', ''MarkdownV2'', ''HTML''})"
  by (auto simp: NewTelegramChannel_def tg_Validate_def telegram_settings_def Let_def)

lemma email_taken: "(case NewEmailChannel env (Some (email_settings cfg)) of Inl e \<Rightarrow> False | Inr c \<Rightarrow> True) \<longleftrightarrow>
    (nte_enabled (ntf_email cfg) \<longrightarrow> nte_smtp_host (ntf_email cfg) \<noteq> [] \<and>
        0 < nte_smtp_port (ntf_email cfg) \<and> nte_smtp_port (ntf_email cfg) \<le> 65535 \<and>
        nte_from_email (ntf_email cfg) \<noteq> [] \<and> ne_address_ok env (nte_from_email (ntf_email cfg)))"
  by (auto simp: NewEmailChannel_def email_Validate_def email_settings_def Let_def)

lemma initChannels_exact: "(\<exists>chs. initChannels env cfg = Inr chs) \<longleftrightarrow> channels_acceptable env cfg"
  using slack_taken [of cfg] telegram_taken [of cfg] email_taken [of env cfg]
  by (auto simp: initChannels_def channels_acceptable_def split: sum.splits)

text \<open>The channels are those that are enabled, under their names.\<close>

lemma initChannels_names:
  "initChannels env cfg = Inr chs \<Longrightarrow>
     map fst chs = (if nts_enabled (ntf_slack cfg) then [''slack''] else []) @
       (if ntt_enabled (ntf_telegram cfg) then [''telegram''] else []) @
       (if nte_enabled (ntf_email cfg) then [''email''] else [])"
  by (auto simp: initChannels_def split: sum.splits if_splits)

text \<open>
  The configuration alone does not see it: with no variable set it is valid, all three channels are
  enabled, and the first of them has neither a webhook nor a token.
\<close>

lemma default_channels_refused:
  "\<not> channels_acceptable env (read_ntf_config p Map.empty)"
  by (simp add: channels_acceptable_def read_ntf_config_def load_ntf_slack_config_def getEnvAsBool_def env_unset)

lemma default_ntf_config_valid: "LoadNtfConfig p Map.empty = Inr (read_ntf_config p Map.empty)"
  by (simp add: LoadNtfConfig_def Let_def read_ntf_config_def load_ntf_kafka_config_def load_ntf_database_config_def
      load_ntf_slack_config_def ntf_Validate_def getEnvAsBool_def getEnvAsInt_def getEnvAsSlice_def env_unset)

theorem default_environment_refused: "\<exists>err. fst (ntf_start pl p Map.empty g w) = Inl err"
proof -
  have "\<nexists>chs. initChannels (np_env pl) (read_ntf_config p Map.empty) = Inr chs"
    unfolding initChannels_exact by (rule default_channels_refused)
  then show ?thesis
    unfolding ntf_start_def default_ntf_config_valid
    by (auto split: sum.splits option.splits prod.splits)
qed

subsection \<open>The service cannot start at all\<close>

text \<open>
  What Sarama documents of \<open>Config.Validate\<close>, which every constructor calls: a rebalance timeout below a
  millisecond and a processing time that is not positive are refused.
\<close>

definition sarama_validates :: "('tls sarama_config \<Rightarrow> bool) \<Rightarrow> bool" where
  "sarama_validates opens \<longleftrightarrow>
     (\<forall>sc. opens sc \<longrightarrow> Millisecond \<le> sc_rebalance_timeout sc \<and> 0 < sc_max_processing_time sc)"

lemma set_security_keeps [simp]:
  "sc_rebalance_timeout (set_security tls sasl sc) = sc_rebalance_timeout sc"
  "sc_max_processing_time (set_security tls sasl sc) = sc_max_processing_time sc"
  by (simp_all add: set_security_def Let_def split: option.split)

lemma kafka_settings_refused:
  assumes "sarama_validates opens"
  shows "NewNotificationConsumer opens fresh (ntf_kafka_settings cfg) chs repo te = None"
proof -
  have "\<not> opens sc" if "ToSaramaConsumerConfig fresh (ntf_kafka_settings cfg) = Inr sc" for sc
  proof -
    from that have "sc_rebalance_timeout sc = 0"
      by (auto simp: ToSaramaConsumerConfig_def ntf_kafka_settings_def Let_def split: if_splits)
    then show ?thesis using assms unfolding sarama_validates_def by (force simp: time_units)
  qed
  then show ?thesis by (simp add: NewNotificationConsumer_def split: sum.split)
qed

text \<open>
  C37. The service never starts.  \<open>main\<close> builds the configuration of its consumer field by field and leaves
  out the rebalance timeout and the processing time, which Sarama refuses when they are zero, so that
  whatever the environment, the stores and the channels, the start ends in an error.
\<close>

theorem notification_service_never_starts:
  assumes "sarama_validates (np_group_opens pl)"
  shows "\<exists>err. fst (ntf_start pl p e g w) = Inl err"
  by (auto simp: ntf_start_def kafka_settings_refused [OF assms] split: sum.splits option.splits prod.splits)

text \<open>The configuration the library itself offers as a default passes these checks.\<close>

lemma default_consumer_passes:
  assumes "bs \<noteq> []" "grp \<noteq> []" "ts \<noteq> []"
  shows "\<exists>sc. ToSaramaConsumerConfig fresh ((DefaultConsumerConfig grp ts)\<lparr>cc_brokers := bs\<rparr>) = Inr sc \<and>
    Millisecond \<le> sc_rebalance_timeout sc \<and> 0 < sc_max_processing_time sc"
  using assms by (simp add: ToSaramaConsumerConfig_def DefaultConsumerConfig_def Let_def time_units)

subsection \<open>The endpoints\<close>

text \<open>
  The counters of the manager stay at zero.  The consumer sends through the channels themselves, and nothing
  sends through the manager the start built, so its metrics report no notification whatever the
  consumer has delivered.
\<close>

theorem ops_metrics_see_nothing:
  assumes "fst (ntf_start pl p e g w) = Inr (cfg, manager, nc)"
  shows "\<exists>m. fst (ops_serve e' cfg manager nc ''GET'' OpsMetricsCall st w') = Some (200, OpsMetrics m (nc_GetMetrics st)) \<and>
    mm_sent m = 0 \<and> mm_failed m = 0 \<and> (\<forall>(k, good, bad) \<in> set (mm_channels m). good = 0 \<and> bad = 0)"
proof -
  obtain chs where "NewChannelManager (Some \<lparr>mgc_channels = chs, mgc_rules = [], mgc_logger = True\<rparr>) = Some manager"
    using assms by (auto simp: ntf_start_def split: sum.splits option.splits prod.splits)
  then have "manager = \<lparr>mg_channels = chs, mg_rules = default_rules, mg_sent = 0, mg_failed = 0,
      mg_successes = (\<lambda>k. if k \<in> fst ` set chs then Some 0 else None),
      mg_failures = (\<lambda>k. if k \<in> fst ` set chs then Some 0 else None)\<rparr>"
    by (simp add: NewChannelManager_def)
  then show ?thesis
    by (force simp: ops_serve_def GetMetrics_def list_all_iff case_prod_beta split: option.split)
qed

text \<open>No endpoint but the health check touches the channels, and only \<open>GET\<close> is answered.\<close>

theorem ops_serve_read_only:
  "meth \<noteq> ''GET'' \<or> call \<noteq> OpsHealthCall \<Longrightarrow> snd (ops_serve e cfg manager nc meth call st w) = w"
  by (cases call) (auto simp: ops_serve_def split: option.split)

text \<open>The health endpoint answers 200 exactly when every channel is healthy.\<close>

theorem ops_health_exact:
  assumes "manager_HealthCheck (mg_channels manager) w = (results, w')"
  shows "\<exists>body. ops_serve e cfg manager nc ''GET'' OpsHealthCall st w =
    (Some (if \<forall>(k, r) \<in> set results. r = None then 200 else 503, body), w')"
  using assms by (auto simp: ops_serve_def list_all_iff)

subsection \<open>Concrete runs\<close>

text \<open>
  A platform on which everything answers, with Sarama's two checks, and an environment that enables mail
  only: the start gets as far as the consumer.
\<close>

definition checking_group :: "unit sarama_config \<Rightarrow> bool" where
  "checking_group sc \<longleftrightarrow> Millisecond \<le> sc_rebalance_timeout sc \<and> 0 < sc_max_processing_time sc"

definition sample_ntf_platform :: "unit sarama_config \<Rightarrow> 's notify_repository \<Rightarrow> (unit, 's, unit) ntf_platform" where
  "sample_ntf_platform sc repo =
     \<lparr>np_logging = \<lparr>ll_parse_level = (\<lambda>s. Some 1), ll_file_opens = (\<lambda>s. True)\<rparr>, np_dsn_parses = (\<lambda>s. True),
      np_pool_opens = (\<lambda>c. True), np_db_answers = True, np_template_parse = (\<lambda>c. Some (\<lambda>d. Some c)), np_embedded = [],
      np_directory = (\<lambda>d. []), np_env = sample_notify True, np_repo = repo, np_sarama = sc,
      np_group_opens = checking_group\<rparr>"

theorem notification_service_never_starts_witness:
  "\<forall>sc repo p g. \<exists>err. fst (ntf_start (sample_ntf_platform sc repo) p [''SLACK_ENABLED'' \<mapsto> ''false'', ''TELEGRAM_ENABLED'' \<mapsto> ''false''] g ()) = Inl err"
  by (intro allI notification_service_never_starts)
    (simp add: sarama_validates_def sample_ntf_platform_def checking_group_def)

end
