(* ===== verification/Go_Base64.thy ===== *)
theory Go_Base64
  imports Go_Strings
begin

text \<open>
  Go's \<open>encoding/base64\<close> on byte strings: the encodings \<open>StdEncoding\<close>, \<open>RawStdEncoding\<close> and \<open>URLEncoding\<close>,
  which differ in two characters and in the padding.  The decoder is not the strict one: it skips
  line ends and does not look at the bits of a last character that no byte uses.
\<close>

record b64_encoding =
  b64_url :: bool
  b64_padded :: bool

definition StdEncoding :: b64_encoding where
  "StdEncoding = \<lparr>b64_url = False, b64_padded = True\<rparr>"

definition RawStdEncoding :: b64_encoding where
  "RawStdEncoding = \<lparr>b64_url = False, b64_padded = False\<rparr>"

definition URLEncoding :: b64_encoding where
  "URLEncoding = \<lparr>b64_url = True, b64_padded = True\<rparr>"

lemmas b64_encodings = StdEncoding_def RawStdEncoding_def URLEncoding_def

definition b64_char :: "b64_encoding \<Rightarrow> nat \<Rightarrow> char" where
  "b64_char e v =
     (if v < 26 then char_of (65 + v)
      else if v < 52 then char_of (71 + v)
      else if v < 62 then char_of (v - 4)
      else if v = 62 then (if b64_url e then CHR ''-'' else CHR ''+'')
      else (if b64_url e then CHR ''_'' else CHR ''/''))"

definition b64_value :: "b64_encoding \<Rightarrow> char \<Rightarrow> nat option" where
  "b64_value e c =
     (let n = of_char c in
      if 65 \<le> n \<and> n \<le> 90 then Some (n - 65)
      else if 97 \<le> n \<and> n \<le> 122 then Some (n - 71)
      else if 48 \<le> n \<and> n \<le> 57 then Some (n + 4)
      else if c = (if b64_url e then CHR ''-'' else CHR ''+'') then Some 62
      else if c = (if b64_url e then CHR ''_'' else CHR ''/'') then Some 63
      else None)"

definition byte :: "char \<Rightarrow> nat" where
  "byte c = of_char c"

fun EncodeToString :: "b64_encoding \<Rightarrow> string \<Rightarrow> string" where
  "EncodeToString e [] = []"
| "EncodeToString e [a] =
     [b64_char e (byte a div 4), b64_char e (byte a mod 4 * 16)] @ (if b64_padded e then ''=='' else [])"
| "EncodeToString e [a, b] =
     [b64_char e (byte a div 4), b64_char e (byte a mod 4 * 16 + byte b div 16),
      b64_char e (byte b mod 16 * 4)] @ (if b64_padded e then ''='' else [])"
| "EncodeToString e (a # b # c # rest) =
     [b64_char e (byte a div 4), b64_char e (byte a mod 4 * 16 + byte b div 16),
      b64_char e (byte b mod 16 * 4 + byte c div 64), b64_char e (byte c mod 64)] @ EncodeToString e rest"

definition first_byte :: "nat \<Rightarrow> nat \<Rightarrow> char" where
  "first_byte u v = char_of (u * 4 + v div 16)"

definition second_byte :: "nat \<Rightarrow> nat \<Rightarrow> char" where
  "second_byte v w = char_of (v mod 16 * 16 + w div 4)"

definition third_byte :: "nat \<Rightarrow> nat \<Rightarrow> char" where
  "third_byte w x = char_of (w mod 4 * 64 + x)"

definition decode2 :: "b64_encoding \<Rightarrow> char \<Rightarrow> char \<Rightarrow> string option" where
  "decode2 e a b = (case (b64_value e a, b64_value e b) of
     (Some u, Some v) \<Rightarrow> Some [first_byte u v] | _ \<Rightarrow> None)"

definition decode3 :: "b64_encoding \<Rightarrow> char \<Rightarrow> char \<Rightarrow> char \<Rightarrow> string option" where
  "decode3 e a b c = (case (b64_value e a, b64_value e b, b64_value e c) of
     (Some u, Some v, Some w) \<Rightarrow> Some [first_byte u v, second_byte v w] | _ \<Rightarrow> None)"

definition decode4 :: "b64_encoding \<Rightarrow> char \<Rightarrow> char \<Rightarrow> char \<Rightarrow> char \<Rightarrow> string option" where
  "decode4 e a b c d = (case (b64_value e a, b64_value e b, b64_value e c, b64_value e d) of
     (Some u, Some v, Some w, Some x) \<Rightarrow> Some [first_byte u v, second_byte v w, third_byte w x]
   | _ \<Rightarrow> None)"

text \<open>The groups of four, the last of which is padded or short, as the encoding says.\<close>

fun decode_groups :: "b64_encoding \<Rightarrow> string \<Rightarrow> string option" where
  "decode_groups e [] = Some []"
| "decode_groups e [a] = None"
| "decode_groups e [a, b] = (if b64_padded e then None else decode2 e a b)"
| "decode_groups e [a, b, c] = (if b64_padded e then None else decode3 e a b c)"
| "decode_groups e (a # b # c # d # rest) =
     (if b64_padded e \<and> d = CHR ''='' then
        (if rest \<noteq> [] then None else if c = CHR ''='' then decode2 e a b else decode3 e a b c)
      else case decode4 e a b c d of None \<Rightarrow> None | Some bs \<Rightarrow> map_option ((@) bs) (decode_groups e rest))"

definition DecodeString :: "b64_encoding \<Rightarrow> string \<Rightarrow> string option" where
  "DecodeString e s = decode_groups e (filter (\<lambda>c. c \<noteq> CHR 0x0A \<and> c \<noteq> CHR 0x0D) s)"

lemma byte_less [simp]: "byte c < 256"
  by (simp add: byte_def)

lemma char_of_byte [simp]: "char_of (byte c) = c"
  by (simp add: byte_def)

lemma of_char_b64: "of_char (b64_char e v) =
    (if v < 26 then 65 + v else if v < 52 then 71 + v else if v < 62 then v - 4
     else if v = 62 then (if b64_url e then 45 else 43) else if b64_url e then 95 else (47::nat))"
  by (auto simp: b64_char_def)

lemma b64_value_char [simp]: "v < 64 \<Longrightarrow> b64_value e (b64_char e v) = Some v"
proof -
  assume v: "v < 64"
  consider "v < 26" | "26 \<le> v" "v < 52" | "52 \<le> v" "v < 62" | "v = 62" | "v = 63" using v by linarith
  then show ?thesis
  proof cases
    case 4
    then show ?thesis by (simp add: b64_value_def b64_char_def)
  next
    case 5
    then show ?thesis by (simp add: b64_value_def b64_char_def)
  next
    case 3
    then have "48 \<le> v - 4 \<and> v - 4 \<le> 57 \<and> v - 4 + 4 = v" by linarith
    with 3 show ?thesis by (simp add: b64_value_def of_char_b64 Let_def)
  qed (simp_all add: b64_value_def of_char_b64 Let_def)
qed

text \<open>The four values a group of bytes is written as are below 64, and the bytes come back.\<close>

lemma six_bits:
  "byte a div 4 < 64" "byte a mod 4 * 16 + byte b div 16 < 64" "byte a mod 4 * 16 < 64"
  "byte b mod 16 * 4 + byte c div 64 < 64" "byte b mod 16 * 4 < 64" "byte c mod 64 < 64"
proof -
  have q: "x div 4 < 64" "x div 16 < 16" "x div 64 < 4" if "x < 256" for x :: nat
    using that by (simp_all add: less_mult_imp_div_less)
  have m: "x mod 4 < 4" "x mod 16 < 16" "x mod 64 < 64" for x :: nat by simp_all
  note q = q [OF byte_less]
  show "byte a div 4 < 64" "byte a mod 4 * 16 + byte b div 16 < 64" "byte a mod 4 * 16 < 64"
    "byte b mod 16 * 4 + byte c div 64 < 64" "byte b mod 16 * 4 < 64" "byte c mod 64 < 64"
    using q [of a] q [of b] q [of c] m [of "byte a"] m [of "byte b"] m [of "byte c"] by linarith+
qed

lemma bytes_back:
  "first_byte (byte a div 4) (byte a mod 4 * 16 + byte b div 16) = a"
  "first_byte (byte a div 4) (byte a mod 4 * 16) = a"
  "second_byte (byte a mod 4 * 16 + byte b div 16) (byte b mod 16 * 4 + byte c div 64) = b"
  "second_byte (byte a mod 4 * 16 + byte b div 16) (byte b mod 16 * 4) = b"
  "third_byte (byte b mod 16 * 4 + byte c div 64) (byte c mod 64) = c"
proof -
  have q: "x div 16 < 16" "x div 64 < 4" if "x < 256" for x :: nat
    using that by (simp_all add: less_mult_imp_div_less)
  have d: "(u * m + v) div m = u" "(u * m + v) mod m = v" if "v < m" for u v m :: nat
    using that by simp_all
  note q = q [OF byte_less]
  have "byte a div 4 * 4 + (byte a mod 4 * 16 + byte b div 16) div 16 = byte a"
    "byte a div 4 * 4 + (byte a mod 4 * 16) div 16 = byte a"
    "(byte a mod 4 * 16 + byte b div 16) mod 16 * 16 + (byte b mod 16 * 4 + byte c div 64) div 4 = byte b"
    "(byte a mod 4 * 16 + byte b div 16) mod 16 * 16 + (byte b mod 16 * 4) div 4 = byte b"
    "(byte b mod 16 * 4 + byte c div 64) mod 4 * 64 + byte c mod 64 = byte c"
    by (simp_all add: d q div_mult_mod_eq)
  then show "first_byte (byte a div 4) (byte a mod 4 * 16 + byte b div 16) = a"
    "first_byte (byte a div 4) (byte a mod 4 * 16) = a"
    "second_byte (byte a mod 4 * 16 + byte b div 16) (byte b mod 16 * 4 + byte c div 64) = b"
    "second_byte (byte a mod 4 * 16 + byte b div 16) (byte b mod 16 * 4) = b"
    "third_byte (byte b mod 16 * 4 + byte c div 64) (byte c mod 64) = c"
    by (simp_all add: first_byte_def second_byte_def third_byte_def)
qed

lemma b64_char_not: "b64_value e c = None \<Longrightarrow> v < 64 \<Longrightarrow> b64_char e v \<noteq> c"
  using b64_value_char by (metis option.distinct(1))

lemma pad_no_value [simp]: "b64_value e CHR ''='' = None"
  by (simp add: b64_value_def)

lemma group_not_pad [simp]: "b64_char e (byte c mod 64) \<noteq> CHR ''=''"
    "b64_char e (byte b mod 16 * 4) \<noteq> CHR ''=''"
  by (rule b64_char_not; simp add: six_bits)+

text \<open>An encoded text consists of characters of the alphabet and of padding.\<close>

lemma encoded_chars:
  assumes "b64_value e c = None" "c \<noteq> CHR ''=''"
  shows "c \<notin> set (EncodeToString e s)"
  using assms
proof (induction e s rule: EncodeToString.induct)
  case (2 e a)
  note n = b64_char_not [OF 2(1) six_bits(1), of a] b64_char_not [OF 2(1) six_bits(3), of a]
  show ?case using n 2(2) by auto
next
  case (3 e a b)
  note n = b64_char_not [OF 3(1) six_bits(1), of a] b64_char_not [OF 3(1) six_bits(2), of a b]
    b64_char_not [OF 3(1) six_bits(5), of b]
  show ?case using n 3(2) by auto
next
  case (4 e a b d rest)
  note n = b64_char_not [OF 4(2) six_bits(1), of a] b64_char_not [OF 4(2) six_bits(2), of a b]
    b64_char_not [OF 4(2) six_bits(4), of b d] b64_char_not [OF 4(2) six_bits(6), of d]
  show ?case using n 4 by auto
qed simp

lemma b64_values [simp]:
  "b64_value e (b64_char e (byte a div 4)) = Some (byte a div 4)"
  "b64_value e (b64_char e (byte a mod 4 * 16 + byte b div 16)) = Some (byte a mod 4 * 16 + byte b div 16)"
  "b64_value e (b64_char e (byte a mod 4 * 16)) = Some (byte a mod 4 * 16)"
  "b64_value e (b64_char e (byte b mod 16 * 4 + byte c div 64)) = Some (byte b mod 16 * 4 + byte c div 64)"
  "b64_value e (b64_char e (byte b mod 16 * 4)) = Some (byte b mod 16 * 4)"
  "b64_value e (b64_char e (byte c mod 64)) = Some (byte c mod 64)"
  by (simp_all only: b64_value_char six_bits)

lemma decode_groups_encoded: "decode_groups e (EncodeToString e s) = Some s"
proof (induction e s rule: EncodeToString.induct)
  case (4 e a b c rest)
  have "decode4 e (b64_char e (byte a div 4)) (b64_char e (byte a mod 4 * 16 + byte b div 16))
      (b64_char e (byte b mod 16 * 4 + byte c div 64)) (b64_char e (byte c mod 64)) = Some [a, b, c]"
    by (simp only: decode4_def b64_values prod.case option.case bytes_back)
  with 4 show ?case by (simp only: EncodeToString.simps decode_groups.simps append.simps group_not_pad) simp
next
  case (3 e a b)
  have "decode3 e (b64_char e (byte a div 4)) (b64_char e (byte a mod 4 * 16 + byte b div 16))
      (b64_char e (byte b mod 16 * 4)) = Some [a, b]"
    by (simp only: decode3_def b64_values prod.case option.case bytes_back)
  then show ?case by (cases "b64_padded e")
      (simp_all only: EncodeToString.simps decode_groups.simps append.simps group_not_pad if_True if_False simp_thms)
next
  case (2 e a)
  have "decode2 e (b64_char e (byte a div 4)) (b64_char e (byte a mod 4 * 16)) = Some [a]"
    by (simp only: decode2_def b64_values prod.case option.case bytes_back)
  then show ?case by (cases "b64_padded e")
      (simp_all only: EncodeToString.simps decode_groups.simps append.simps if_True if_False simp_thms)
qed simp

theorem decode_encoded: "DecodeString e (EncodeToString e s) = Some s"
proof -
  have "CHR 0x0A \<notin> set (EncodeToString e s)" "CHR 0x0D \<notin> set (EncodeToString e s)"
    by (rule encoded_chars; simp add: b64_value_def)+
  then have "filter (\<lambda>c. c \<noteq> CHR 0x0A \<and> c \<noteq> CHR 0x0D) (EncodeToString e s) = EncodeToString e s"
    by (auto intro!: filter_True)
  then show ?thesis by (simp add: DecodeString_def decode_groups_encoded)
qed

lemma EncodeToString_inj: "EncodeToString e s = EncodeToString e t \<longleftrightarrow> s = t"
  using decode_encoded by (metis option.inject)

lemma EncodeToString_eq_Nil [simp]: "EncodeToString e s = [] \<longleftrightarrow> s = []"
  by (cases "(e, s)" rule: EncodeToString.cases) auto

end
