(* ===== verification/User_Crypto.thy ===== *)
theory User_Crypto
  imports Go_Base64
begin

text \<open>
  The encryption of broker credentials in \<open>user-service/internal/crypto/aes.go\<close>: AES-256-GCM with a random
  nonce in front, written in base64, and the encryptor that knows a previous key during a rotation.
  The block cipher in GCM mode and the random source are parameters.
\<close>

record 'w crypto_env =
  cr_rand :: "nat \<Rightarrow> 'w \<Rightarrow> string option \<times> 'w"
  gcm_seal :: "string \<Rightarrow> string \<Rightarrow> string \<Rightarrow> string"
  gcm_open :: "string \<Rightarrow> string \<Rightarrow> string \<Rightarrow> string option"

datatype crypto_error =
    InvalidKey | InvalidCiphertext | DecryptionFailed | PlaintextEmpty | CiphertextEmpty
  | CipherFailed | NonceFailed | KeyFailed | InvalidCurrentKey crypto_error | InvalidPreviousKey crypto_error
  | BothKeysFailed | ReDecryptFailed crypto_error | ReEncryptFailed crypto_error

record encryptor =
  enc_key :: string

definition NewAESGCMEncryptor :: "string \<Rightarrow> crypto_error + encryptor" where
  "NewAESGCMEncryptor key = (if length key \<noteq> 32 then Inl InvalidKey else Inr \<lparr>enc_key = key\<rparr>)"

definition NewAESGCMEncryptorFromString :: "string \<Rightarrow> crypto_error + encryptor" where
  "NewAESGCMEncryptorFromString encoded =
     (case DecodeString StdEncoding encoded of None \<Rightarrow> Inl InvalidKey | Some key \<Rightarrow> NewAESGCMEncryptor key)"

text \<open>\<open>aes.NewCipher\<close> takes keys of three lengths; the nonce of \<open>cipher.NewGCM\<close> has twelve bytes.\<close>

definition aes_key_ok :: "string \<Rightarrow> bool" where
  "aes_key_ok key \<longleftrightarrow> length key \<in> {16, 24, 32}"

definition nonce_size :: nat where
  "nonce_size = 12"

definition Encrypt :: "'w crypto_env \<Rightarrow> encryptor \<Rightarrow> string \<Rightarrow> 'w \<Rightarrow> (crypto_error + string) \<times> 'w" where
  "Encrypt env e plaintext w =
     (if plaintext = [] then (Inl PlaintextEmpty, w)
      else if \<not> aes_key_ok (enc_key e) then (Inl CipherFailed, w)
      else case cr_rand env nonce_size w of
        (None, w') \<Rightarrow> (Inl NonceFailed, w')
      | (Some nonce, w') \<Rightarrow>
          (Inr (EncodeToString StdEncoding (nonce @ gcm_seal env (enc_key e) nonce plaintext)), w'))"

definition Decrypt :: "'w crypto_env \<Rightarrow> encryptor \<Rightarrow> string \<Rightarrow> crypto_error + string" where
  "Decrypt env e encoded =
     (if encoded = [] then Inl CiphertextEmpty
      else case DecodeString StdEncoding encoded of
        None \<Rightarrow> Inl InvalidCiphertext
      | Some ciphertext \<Rightarrow>
          if \<not> aes_key_ok (enc_key e) then Inl CipherFailed
          else if length ciphertext < nonce_size then Inl InvalidCiphertext
          else case gcm_open env (enc_key e) (take nonce_size ciphertext) (drop nonce_size ciphertext) of
            None \<Rightarrow> Inl DecryptionFailed
          | Some plaintext \<Rightarrow> Inr plaintext)"

definition GenerateKey :: "'w crypto_env \<Rightarrow> 'w \<Rightarrow> (crypto_error + string) \<times> 'w" where
  "GenerateKey env w = (case cr_rand env 32 w of (None, w') \<Rightarrow> (Inl KeyFailed, w') | (Some key, w') \<Rightarrow> (Inr key, w'))"

definition GenerateKeyString :: "'w crypto_env \<Rightarrow> 'w \<Rightarrow> (crypto_error + string) \<times> 'w" where
  "GenerateKeyString env w = (case GenerateKey env w of
     (Inl e, w') \<Rightarrow> (Inl e, w') | (Inr key, w') \<Rightarrow> (Inr (EncodeToString StdEncoding key), w'))"

subsection \<open>Key rotation\<close>

record rotatable =
  rot_current :: encryptor
  rot_previous :: "encryptor option"

definition NewRotatableEncryptor :: "string \<Rightarrow> string option \<Rightarrow> crypto_error + rotatable" where
  "NewRotatableEncryptor currentKey previousKey =
     (case NewAESGCMEncryptor currentKey of
        Inl e \<Rightarrow> Inl (InvalidCurrentKey e)
      | Inr current \<Rightarrow>
          (case previousKey of
             None \<Rightarrow> Inr \<lparr>rot_current = current, rot_previous = None\<rparr>
           | Some key \<Rightarrow>
               (case NewAESGCMEncryptor key of
                  Inl e \<Rightarrow> Inl (InvalidPreviousKey e)
                | Inr previous \<Rightarrow> Inr \<lparr>rot_current = current, rot_previous = Some previous\<rparr>)))"

definition rot_Encrypt :: "'w crypto_env \<Rightarrow> rotatable \<Rightarrow> string \<Rightarrow> 'w \<Rightarrow> (crypto_error + string) \<times> 'w" where
  "rot_Encrypt env r plaintext w = Encrypt env (rot_current r) plaintext w"

definition rot_Decrypt :: "'w crypto_env \<Rightarrow> rotatable \<Rightarrow> string \<Rightarrow> crypto_error + string" where
  "rot_Decrypt env r ciphertext =
     (case Decrypt env (rot_current r) ciphertext of
        Inr plaintext \<Rightarrow> Inr plaintext
      | Inl e \<Rightarrow>
          (case rot_previous r of
             None \<Rightarrow> Inl e
           | Some previous \<Rightarrow>
               (case Decrypt env previous ciphertext of
                  Inl _ \<Rightarrow> Inl BothKeysFailed
                | Inr plaintext \<Rightarrow> Inr plaintext)))"

definition ReEncrypt :: "'w crypto_env \<Rightarrow> rotatable \<Rightarrow> string \<Rightarrow> 'w \<Rightarrow> (crypto_error + string) \<times> 'w" where
  "ReEncrypt env r old w =
     (case rot_Decrypt env r old of
        Inl e \<Rightarrow> (Inl (ReDecryptFailed e), w)
      | Inr plaintext \<Rightarrow>
          (case Encrypt env (rot_current r) plaintext w of
             (Inl e, w') \<Rightarrow> (Inl (ReEncryptFailed e), w')
           | (Inr new, w') \<Rightarrow> (Inr new, w')))"

subsection \<open>What is relied on\<close>

text \<open>
  What the documentation of the packages says: the random source fills the whole buffer or fails; opening
  what was sealed under the same key and nonce gives the text back, and only such a text opens.
\<close>

definition crypto_laws :: "'w crypto_env \<Rightarrow> bool" where
  "crypto_laws env \<longleftrightarrow>
     (\<forall>n w b w'. cr_rand env n w = (Some b, w') \<longrightarrow> length b = n) \<and>
     (\<forall>k n p. length n = nonce_size \<longrightarrow> gcm_open env k n (gcm_seal env k n p) = Some p) \<and>
     (\<forall>k n c p. gcm_open env k n c = Some p \<longrightarrow> c = gcm_seal env k n p)"

lemma Encrypt_cases:
  assumes "crypto_laws env" "Encrypt env e p w = (Inr c, w')"
  obtains nonce where "length nonce = nonce_size" "p \<noteq> []" "aes_key_ok (enc_key e)"
    "c = EncodeToString StdEncoding (nonce @ gcm_seal env (enc_key e) nonce p)"
proof -
  obtain nonce where n: "cr_rand env nonce_size w = (Some nonce, w')" "p \<noteq> []" "aes_key_ok (enc_key e)"
    "c = EncodeToString StdEncoding (nonce @ gcm_seal env (enc_key e) nonce p)"
    using assms(2) by (auto simp: Encrypt_def split: if_splits prod.splits option.splits)
  moreover have "length nonce = nonce_size" using assms(1) n(1) unfolding crypto_laws_def by blast
  ultimately show thesis using that by blast
qed

lemma Decrypt_sealed:
  assumes "crypto_laws env" "length nonce = nonce_size" "aes_key_ok (enc_key e)"
  shows "Decrypt env e (EncodeToString StdEncoding (nonce @ gcm_seal env (enc_key e) nonce p)) = Inr p"
proof -
  have "nonce @ x \<noteq> []" for x using assms(2) by (auto simp: nonce_size_def)
  then show ?thesis using assms by (simp add: Decrypt_def decode_encoded crypto_laws_def)
qed

lemma Decrypt_Encrypt:
  assumes "crypto_laws env" "Encrypt env e p w = (Inr c, w')"
  shows "Decrypt env e c = Inr p"
proof -
  from assms(2) obtain nonce where "length nonce = nonce_size" "aes_key_ok (enc_key e)"
    "c = EncodeToString StdEncoding (nonce @ gcm_seal env (enc_key e) nonce p)"
    by (rule Encrypt_cases [OF assms(1)])
  then show ?thesis using Decrypt_sealed [OF assms(1)] by simp
qed

text \<open>
  Decryption inverts encryption, and nothing else decrypts.  What \<open>Encrypt\<close> wrote, \<open>Decrypt\<close> under the same key
  reads back; and whatever text \<open>Decrypt\<close> accepts holds a nonce and the sealed form, under this key and
  nonce, of the plaintext it returns.
\<close>

theorem encryption_round_trip:
  assumes "crypto_laws env"
  shows "(Encrypt env e p w = (Inr c, w') \<longrightarrow> Decrypt env e c = Inr p) \<and>
     (Decrypt env e s = Inr q \<longrightarrow>
        (\<exists>nonce. length nonce = nonce_size \<and>
           DecodeString StdEncoding s = Some (nonce @ gcm_seal env (enc_key e) nonce q)))"
proof (intro conjI impI)
  assume "Encrypt env e p w = (Inr c, w')"
  then show "Decrypt env e c = Inr p" by (rule Decrypt_Encrypt [OF assms])
next
  assume "Decrypt env e s = Inr q"
  then obtain t where t: "DecodeString StdEncoding s = Some t" "\<not> length t < nonce_size"
      "gcm_open env (enc_key e) (take nonce_size t) (drop nonce_size t) = Some q"
    by (auto simp: Decrypt_def split: if_splits option.splits)
  then have "drop nonce_size t = gcm_seal env (enc_key e) (take nonce_size t) q"
    using assms by (auto simp: crypto_laws_def)
  then have "take nonce_size t @ gcm_seal env (enc_key e) (take nonce_size t) q = t"
    by (metis append_take_drop_id)
  with t show "\<exists>nonce. length nonce = nonce_size \<and>
      DecodeString StdEncoding s = Some (nonce @ gcm_seal env (enc_key e) nonce q)"
    by (intro exI [of _ "take nonce_size t"]) (simp add: min_def)
qed

text \<open>
  C25. A rotation loses nothing.  A text encrypted under the previous key which the current key does not open
  decrypts to the original during the rotation; and once \<open>ReEncrypt\<close> has succeeded on it, the result
  decrypts to the original under the current key alone, so the previous key can be dropped.
  Texts written during the rotation are read by both.
\<close>

theorem rotation_preserves_plaintext:
  assumes "crypto_laws env" and "NewRotatableEncryptor new (Some old) = Inr r"
    and "Encrypt env \<lparr>enc_key = old\<rparr> p w = (Inr c, w1)" and "Decrypt env \<lparr>enc_key = new\<rparr> c = Inl err"
  shows "rot_Decrypt env r c = Inr p \<and>
     (ReEncrypt env r c w2 = (Inr c', w3) \<longrightarrow>
        Decrypt env \<lparr>enc_key = new\<rparr> c' = Inr p \<and> rot_Decrypt env r c' = Inr p) \<and>
     (rot_Encrypt env r q w4 = (Inr d, w5) \<longrightarrow> rot_Decrypt env r d = Inr q \<and> Decrypt env \<lparr>enc_key = new\<rparr> d = Inr q)"
proof -
  have r: "r = \<lparr>rot_current = \<lparr>enc_key = new\<rparr>, rot_previous = Some \<lparr>enc_key = old\<rparr>\<rparr>"
    using assms(2) by (auto simp: NewRotatableEncryptor_def NewAESGCMEncryptor_def split: if_splits)
  have d: "rot_Decrypt env r c = Inr p"
    using assms(4) Decrypt_Encrypt [OF assms(1,3)] by (simp add: rot_Decrypt_def r)
  have re: "rot_Decrypt env r x = Inr y" if "Decrypt env \<lparr>enc_key = new\<rparr> x = Inr y" for x y
    using that by (simp add: rot_Decrypt_def r)
  show ?thesis
    using d re Decrypt_Encrypt [OF assms(1), of "\<lparr>enc_key = new\<rparr>"]
    by (auto simp: ReEncrypt_def rot_Encrypt_def r split: sum.splits prod.splits)
qed

subsection \<open>Concrete runs\<close>

text \<open>A sealed text that carries its key, nonce and plaintext, and a random source of equal bytes.\<close>

definition sample_crypto :: "unit crypto_env" where
  "sample_crypto = \<lparr>cr_rand = (\<lambda>n w. (Some (replicate n CHR ''r''), w)),
     gcm_seal = (\<lambda>k n p. k @ CHR 0x00 # n @ CHR 0x00 # p),
     gcm_open = (\<lambda>k n c. let h = k @ CHR 0x00 # n @ [CHR 0x00] in if has_prefix c h then Some (drop (length h) c) else None)\<rparr>"

lemma sample_crypto_laws: "crypto_laws sample_crypto"
  by (auto simp: crypto_laws_def sample_crypto_def has_prefix_iff Let_def split: if_splits)

definition sample_key :: "char \<Rightarrow> string" where
  "sample_key c = replicate 32 c"

lemma length_sample_key [simp]: "length (sample_key c) = 32"
  by (simp add: sample_key_def)

lemma sample_encrypt:
  "p \<noteq> [] \<Longrightarrow> Encrypt sample_crypto \<lparr>enc_key = sample_key c\<rparr> p () =
     (Inr (EncodeToString StdEncoding (replicate 12 CHR ''r'' @ sample_key c @ CHR 0x00 # replicate 12 CHR ''r'' @ CHR 0x00 # p)), ())"
  by (simp add: Encrypt_def sample_crypto_def sample_key_def aes_key_ok_def nonce_size_def)

theorem encryption_round_trip_witness:
  "\<exists>c. fst (Encrypt sample_crypto \<lparr>enc_key = sample_key CHR ''a''\<rparr> ''secret'' ()) = Inr c \<and>
     Decrypt sample_crypto \<lparr>enc_key = sample_key CHR ''a''\<rparr> c = Inr ''secret''"
  using encryption_round_trip [OF sample_crypto_laws, of "\<lparr>enc_key = sample_key CHR ''a''\<rparr>" "''secret''" "()"]
    sample_encrypt [of "''secret''" "CHR ''a''"] by simp

theorem rotation_preserves_plaintext_witness:
  "\<exists>r c. NewRotatableEncryptor (sample_key CHR ''b'') (Some (sample_key CHR ''a'')) = Inr r \<and>
     fst (Encrypt sample_crypto \<lparr>enc_key = sample_key CHR ''a''\<rparr> ''secret'' ()) = Inr c \<and>
     rot_Decrypt sample_crypto r c = Inr ''secret''"
proof -
  let ?r = "\<lparr>rot_current = \<lparr>enc_key = sample_key CHR ''b''\<rparr>, rot_previous = Some \<lparr>enc_key = sample_key CHR ''a''\<rparr>\<rparr>"
  have r: "NewRotatableEncryptor (sample_key CHR ''b'') (Some (sample_key CHR ''a'')) = Inr ?r"
    by (simp add: NewRotatableEncryptor_def NewAESGCMEncryptor_def sample_key_def)
  define c where "c = EncodeToString StdEncoding (replicate 12 CHR ''r'' @ sample_key CHR ''a'' @ CHR 0x00 # replicate 12 CHR ''r'' @ CHR 0x00 # ''secret'')"
  have e: "Encrypt sample_crypto \<lparr>enc_key = sample_key CHR ''a''\<rparr> ''secret'' () = (Inr c, ())"
    unfolding c_def by (rule sample_encrypt) simp
  have k: "sample_key c = c # replicate 31 c" for c by (simp add: sample_key_def flip: replicate_Suc)
  have "gcm_open sample_crypto (sample_key CHR ''b'') nonce (sample_key CHR ''a'' @ rest) = None" for nonce rest
    by (simp add: sample_crypto_def k has_prefix_iff)
  then have "Decrypt sample_crypto \<lparr>enc_key = sample_key CHR ''b''\<rparr> c = Inl DecryptionFailed"
    by (simp add: Decrypt_def c_def decode_encoded nonce_size_def aes_key_ok_def)
  from rotation_preserves_plaintext [OF sample_crypto_laws r e this] show ?thesis using r e by auto
qed

end
