(* ===== verification/User_Password.thy ===== *)
theory User_Password
  imports Go_Base64 Go_Scan
begin

text \<open>
  Password hashing of \<open>user-service/internal/auth/password.go\<close>: the text form of an Argon2id hash, its
  parser, and the strength rules.  The key derivation \<open>argon2.IDKey\<close> and the random source are
  parameters; \<open>IDKey\<close> panics on parameters it does not support, which is \<open>None\<close> here.
\<close>

record argon2_params =
  ap_memory :: "32 word"
  ap_iterations :: "32 word"
  ap_parallelism :: "8 word"
  ap_salt_length :: "32 word"
  ap_key_length :: "32 word"

record 'w password_env =
  ph_rand :: "nat \<Rightarrow> 'w \<Rightarrow> string option \<times> 'w"
  ph_id_key :: "string \<Rightarrow> string \<Rightarrow> 32 word \<Rightarrow> 32 word \<Rightarrow> 8 word \<Rightarrow> 32 word \<Rightarrow> string option"

datatype password_error =
    PasswordEmpty | HashEmpty | SaltFailed | ErrInvalidHash | UnsupportedAlgorithm string
  | InvalidVersion | IncompatibleVersion int | InvalidParameters | InvalidSalt | InvalidHashEncoding
  | ErrMismatchedHashAndPassword | Argon2Panic

definition DefaultArgon2Params :: argon2_params where
  "DefaultArgon2Params = \<lparr>ap_memory = 64 * 1024, ap_iterations = 3, ap_parallelism = 2,
     ap_salt_length = 16, ap_key_length = 32\<rparr>"

definition NewArgon2Hasher :: "argon2_params option \<Rightarrow> argon2_params" where
  "NewArgon2Hasher params = (case params of None \<Rightarrow> DefaultArgon2Params | Some p \<Rightarrow> p)"

text \<open>\<open>argon2.Version\<close>\<close>

definition argon2_version :: nat where
  "argon2_version = 19"

definition encode_hash :: "argon2_params \<Rightarrow> string \<Rightarrow> string \<Rightarrow> string" where
  "encode_hash p salt hash =
     ''$argon2id$v='' @ nat_str argon2_version @ ''$m='' @ nat_str (unat (ap_memory p)) @
     '',t='' @ nat_str (unat (ap_iterations p)) @ '',p='' @ nat_str (unat (ap_parallelism p)) @
     ''$'' @ EncodeToString RawStdEncoding salt @ ''$'' @ EncodeToString RawStdEncoding hash"

definition Hash :: "'w password_env \<Rightarrow> argon2_params \<Rightarrow> string \<Rightarrow> 'w \<Rightarrow> (password_error + string) \<times> 'w" where
  "Hash env p password w =
     (if password = [] then (Inl PasswordEmpty, w)
      else case ph_rand env (unat (ap_salt_length p)) w of
        (None, w') \<Rightarrow> (Inl SaltFailed, w')
      | (Some salt, w') \<Rightarrow>
          (case ph_id_key env password salt (ap_iterations p) (ap_memory p) (ap_parallelism p) (ap_key_length p) of
             None \<Rightarrow> (Inl Argon2Panic, w')
           | Some hash \<Rightarrow> (Inr (encode_hash p salt hash), w')))"

text \<open>\<open>Sscanf(s, "v=%d", &version)\<close> and \<open>Sscanf(s, "m=%d,t=%d,p=%d", ...)\<close>\<close>

definition scan_version :: "string \<Rightarrow> int option" where
  "scan_version s = (case scan_literal ''v='' s of None \<Rightarrow> None | Some r \<Rightarrow> map_option fst (scan_int64 r))"

definition scan_field :: "string \<Rightarrow> nat \<Rightarrow> string \<Rightarrow> (nat \<times> string) option" where
  "scan_field name bits s = (case scan_literal name s of None \<Rightarrow> None | Some r \<Rightarrow> scan_uint bits r)"

definition scan_params :: "string \<Rightarrow> (nat \<times> nat \<times> nat) option" where
  "scan_params s =
     (case scan_field ''m='' 32 s of None \<Rightarrow> None
      | Some (m, r) \<Rightarrow> (case scan_field '',t='' 32 r of None \<Rightarrow> None
          | Some (t, r') \<Rightarrow> map_option (\<lambda>(p, _). (m, t, p)) (scan_field '',p='' 8 r')))"

definition decodeHash :: "string \<Rightarrow> password_error + argon2_params \<times> string \<times> string" where
  "decodeHash encoded =
     (let parts = split_on CHR ''$'' encoded in
      if length parts \<noteq> 6 then Inl ErrInvalidHash
      else if parts ! 1 \<noteq> ''argon2id'' then Inl (UnsupportedAlgorithm (parts ! 1))
      else case scan_version (parts ! 2) of
        None \<Rightarrow> Inl InvalidVersion
      | Some version \<Rightarrow>
          if version \<noteq> int argon2_version then Inl (IncompatibleVersion version)
          else case scan_params (parts ! 3) of
            None \<Rightarrow> Inl InvalidParameters
          | Some (m, t, p) \<Rightarrow>
              (case DecodeString RawStdEncoding (parts ! 4) of
                 None \<Rightarrow> Inl InvalidSalt
               | Some salt \<Rightarrow>
                   (case DecodeString RawStdEncoding (parts ! 5) of
                      None \<Rightarrow> Inl InvalidHashEncoding
                    | Some hash \<Rightarrow>
                        Inr (\<lparr>ap_memory = of_nat m, ap_iterations = of_nat t, ap_parallelism = of_nat p,
                              ap_salt_length = of_nat (length salt), ap_key_length = of_nat (length hash)\<rparr>,
                             salt, hash))))"

text \<open>The constant-time comparison of the two keys is equality.\<close>

definition Verify :: "'w password_env \<Rightarrow> string \<Rightarrow> string \<Rightarrow> password_error option" where
  "Verify env password encoded =
     (if password = [] then Some PasswordEmpty
      else if encoded = [] then Some HashEmpty
      else case decodeHash encoded of
        Inl e \<Rightarrow> Some e
      | Inr (p, salt, hash) \<Rightarrow>
          (case ph_id_key env password salt (ap_iterations p) (ap_memory p) (ap_parallelism p) (ap_key_length p) of
             None \<Rightarrow> Some Argon2Panic
           | Some other \<Rightarrow> if hash = other then None else Some ErrMismatchedHashAndPassword))"

subsection \<open>Strength\<close>

datatype strength_error = TooShort | TooLong | NoUpper | NoLower | NoDigit

definition is_upper :: "char \<Rightarrow> bool" where
  "is_upper c \<longleftrightarrow> (let n = of_char c :: nat in 65 \<le> n \<and> n \<le> 90)"

definition is_lower :: "char \<Rightarrow> bool" where
  "is_lower c \<longleftrightarrow> (let n = of_char c :: nat in 97 \<le> n \<and> n \<le> 122)"

text \<open>
  The loop over the characters with its three flags.  A character outside ASCII sets none of them, and
  neither do its bytes, so the loop is over the bytes here.
\<close>

fun strength_flags :: "string \<Rightarrow> bool \<times> bool \<times> bool \<Rightarrow> bool \<times> bool \<times> bool" where
  "strength_flags [] f = f"
| "strength_flags (c # cs) (upper, lower, digit) = strength_flags cs
     (if is_upper c then (True, lower, digit)
      else if is_lower c then (upper, True, digit)
      else if is_digit c then (upper, lower, True) else (upper, lower, digit))"

definition ValidatePasswordStrength :: "string \<Rightarrow> strength_error option" where
  "ValidatePasswordStrength password =
     (if length password < 8 then Some TooShort
      else if 128 < length password then Some TooLong
      else case strength_flags password (False, False, False) of
        (upper, lower, digit) \<Rightarrow>
          if \<not> upper then Some NoUpper else if \<not> lower then Some NoLower
          else if \<not> digit then Some NoDigit else None)"

lemma strength_flags_exists:
  "strength_flags s (u, l, d) = (u \<or> list_ex is_upper s, l \<or> list_ex is_lower s, d \<or> list_ex is_digit s)"
proof (induction s arbitrary: u l d)
  case (Cons c s)
  have "\<not> (is_upper c \<and> is_lower c)" "\<not> (is_upper c \<and> is_digit c)" "\<not> (is_lower c \<and> is_digit c)"
    by (auto simp: is_upper_def is_lower_def is_digit_def Let_def)
  with Cons show ?case by auto
qed simp

theorem strength_exact:
  "ValidatePasswordStrength s = None \<longleftrightarrow>
     8 \<le> length s \<and> length s \<le> 128 \<and> list_ex is_upper s \<and> list_ex is_lower s \<and> list_ex is_digit s"
  by (auto simp: ValidatePasswordStrength_def strength_flags_exists)

subsection \<open>The text form\<close>

lemma nat_str_no_dollar: "CHR ''$'' \<notin> set (nat_str n)"
  using nat_str_digits [of "CHR ''$''" n] by (auto simp: is_digit_def)

lemma raw_no_dollar: "CHR ''$'' \<notin> set (EncodeToString RawStdEncoding s)"
  by (rule encoded_chars) (simp_all add: b64_value_def RawStdEncoding_def)

definition params_text :: "argon2_params \<Rightarrow> string" where
  "params_text p = ''m='' @ nat_str (unat (ap_memory p)) @ '',t='' @ nat_str (unat (ap_iterations p)) @
     '',p='' @ nat_str (unat (ap_parallelism p))"

lemma encode_hash_fields:
  "split_on CHR ''$'' (encode_hash p salt hash) =
     [[], ''argon2id'', ''v='' @ nat_str argon2_version, params_text p,
      EncodeToString RawStdEncoding salt, EncodeToString RawStdEncoding hash]"
proof -
  let ?parts = "[[], ''argon2id'', ''v='' @ nat_str argon2_version, params_text p,
      EncodeToString RawStdEncoding salt, EncodeToString RawStdEncoding hash]"
  have "encode_hash p salt hash = join_with [CHR ''$''] ?parts"
    by (simp add: encode_hash_def params_text_def)
  moreover have "\<forall>w \<in> set ?parts. CHR ''$'' \<notin> set w"
    by (simp add: params_text_def nat_str_no_dollar raw_no_dollar)
  ultimately show ?thesis by (simp only: split_on_join list.simps simp_thms)
qed

lemma scan_version_text: "scan_version (''v='' @ nat_str argon2_version) = Some (int argon2_version)"
  using scan_int64_nat_str [of "[]" argon2_version]
  by (simp add: scan_version_def scan_literal_def has_prefix_def argon2_version_def)

lemma scan_field_text:
  assumes "rest = [] \<or> \<not> is_digit (hd rest)" and "n < 2 ^ bits"
  shows "scan_field name bits (name @ nat_str n @ rest) = Some (n, rest)"
  using scan_uint_nat_str [OF assms] by (simp add: scan_field_def scan_literal_def has_prefix_def)

lemma scan_params_text:
  "scan_params (params_text p) =
     Some (unat (ap_memory p), unat (ap_iterations p), unat (ap_parallelism p))"
proof -
  have b: "unat (x :: 32 word) < 2 ^ 32" "unat (y :: 8 word) < 2 ^ 8" for x y
    using unsigned_less [of x, where ?'a = nat] unsigned_less [of y, where ?'a = nat] by simp_all
  have p: "scan_field '',p='' 8 ('',p='' @ nat_str (unat (ap_parallelism p))) = Some (unat (ap_parallelism p), [])"
    using scan_field_text [of "[]" "unat (ap_parallelism p)" 8 "'',p=''"] b(2) by simp
  show ?thesis
    using p scan_field_text [of "'',p='' @ nat_str (unat (ap_parallelism p))" "unat (ap_iterations p)" 32 "'',t=''"]
      scan_field_text [of "'',t='' @ nat_str (unat (ap_iterations p)) @ '',p='' @ nat_str (unat (ap_parallelism p))"
        "unat (ap_memory p)" 32 "''m=''"] b(1)
    by (simp add: scan_params_def params_text_def is_digit_def)
qed

text \<open>The text form of a hash is read back, whatever the parameters, the salt and the key.\<close>

lemma decodeHash_encode:
  assumes "length salt = unat (ap_salt_length p)" "length hash = unat (ap_key_length p)"
  shows "decodeHash (encode_hash p salt hash) = Inr (p, salt, hash)"
  by (simp add: decodeHash_def encode_hash_fields scan_version_text [simplified] scan_params_text decode_encoded assms Let_def)

text \<open>The random source fills the buffer or fails, and \<open>IDKey\<close> yields a key of the length asked for.\<close>

definition password_laws :: "'w password_env \<Rightarrow> bool" where
  "password_laws env \<longleftrightarrow>
     (\<forall>n w b w'. ph_rand env n w = (Some b, w') \<longrightarrow> length b = n) \<and>
     (\<forall>pw salt t m p n key. ph_id_key env pw salt t m p n = Some key \<longrightarrow> length key = unat n)"

lemma Hash_cases:
  assumes "password_laws env" "Hash env p password w = (Inr encoded, w')"
  obtains salt key where "password \<noteq> []" "length salt = unat (ap_salt_length p)" "length key = unat (ap_key_length p)"
    "ph_id_key env password salt (ap_iterations p) (ap_memory p) (ap_parallelism p) (ap_key_length p) = Some key"
    "encoded = encode_hash p salt key"
proof -
  obtain salt key where h: "password \<noteq> []" "ph_rand env (unat (ap_salt_length p)) w = (Some salt, w')"
    "ph_id_key env password salt (ap_iterations p) (ap_memory p) (ap_parallelism p) (ap_key_length p) = Some key"
    "encoded = encode_hash p salt key"
    using assms(2) by (auto simp: Hash_def split: if_splits prod.splits option.splits)
  have "length salt = unat (ap_salt_length p)" "length key = unat (ap_key_length p)"
    using assms(1) h(2,3) unfolding password_laws_def by blast+
  with h show thesis using that by blast
qed

text \<open>
  What a stored hash verifies.  The text \<open>C26. Hash\<close> returns carries its own parameters, salt and key through the
  parser; \<open>Verify\<close> accepts the password it was made from, and of the other passwords exactly those
  that derive the same key under this salt and these parameters, whatever the hasher is
  configured with by then.
\<close>

theorem password_round_trip:
  assumes "password_laws env" and "Hash env p password w = (Inr encoded, w')"
  shows "\<exists>salt key. decodeHash encoded = Inr (p, salt, key) \<and> length salt = unat (ap_salt_length p) \<and>
     ph_id_key env password salt (ap_iterations p) (ap_memory p) (ap_parallelism p) (ap_key_length p) = Some key \<and>
     Verify env password encoded = None \<and>
     (\<forall>other. Verify env other encoded = None \<longleftrightarrow> other \<noteq> [] \<and>
        ph_id_key env other salt (ap_iterations p) (ap_memory p) (ap_parallelism p) (ap_key_length p) = Some key)"
proof -
  obtain salt key where h: "password \<noteq> []"
      "ph_id_key env password salt (ap_iterations p) (ap_memory p) (ap_parallelism p) (ap_key_length p) = Some key"
      "encoded = encode_hash p salt key"
    and l: "length salt = unat (ap_salt_length p)" "length key = unat (ap_key_length p)"
    using Hash_cases [OF assms] by metis
  have d: "decodeHash encoded = Inr (p, salt, key)" unfolding h(3) by (rule decodeHash_encode [OF l])
  have e: "encoded \<noteq> []" by (simp add: h(3) encode_hash_def)
  show ?thesis
    by (rule exI [of _ salt], rule exI [of _ key]) (auto simp: d e h(1,2) l Verify_def split: option.splits)
qed

text \<open>With the default parameters a hash takes 97 characters, so it fits the \<open>VARCHAR(255)\<close> column.\<close>

lemma length_raw: "length (EncodeToString RawStdEncoding s) = (4 * length s + 2) div 3"
  by (induction RawStdEncoding s rule: EncodeToString.induct) (simp_all add: RawStdEncoding_def)

lemma default_hash_length:
  assumes "password_laws env" "Hash env DefaultArgon2Params password w = (Inr encoded, w')"
  shows "length encoded = 97"
proof -
  obtain salt key where h: "length salt = 16" "length key = 32" "encoded = encode_hash DefaultArgon2Params salt key"
    by (rule Hash_cases [OF assms]) (simp add: DefaultArgon2Params_def)
  then show ?thesis
    by (simp add: encode_hash_def length_raw DefaultArgon2Params_def argon2_version_def nat_str.simps)
qed

subsection \<open>Concrete runs\<close>

definition sample_hasher :: "unit password_env" where
  "sample_hasher = \<lparr>ph_rand = (\<lambda>n w. (Some (replicate n CHR ''s''), w)),
     ph_id_key = (\<lambda>pw salt t m p n. Some (take (unat n) (pw @ replicate (unat n) CHR ''k'')))\<rparr>"

lemma sample_hasher_laws: "password_laws sample_hasher"
  by (auto simp: password_laws_def sample_hasher_def)

theorem password_round_trip_witness:
  "\<exists>encoded. fst (Hash sample_hasher DefaultArgon2Params ''Passw0rd'' ()) = Inr encoded \<and>
     Verify sample_hasher ''Passw0rd'' encoded = None"
proof -
  obtain encoded where "Hash sample_hasher DefaultArgon2Params ''Passw0rd'' () = (Inr encoded, ())"
    by (simp add: Hash_def sample_hasher_def)
  from password_round_trip [OF sample_hasher_laws this] this show ?thesis by auto
qed

end
