(* ===== verification/User_Jwt.thy ===== *)
theory User_Jwt
  imports Go_Base64 Go_Http
begin

text \<open>
  The tokens of the user service: \<open>user-service/internal/auth/jwt.go\<close>, which signs and checks access tokens and
  makes refresh tokens, and the middleware of \<open>internal/middleware/auth.go\<close> in front of the protected
  routes.  The JWT library, the hash SHA-256, the random source and the clock are parameters; every
  reading of the clock is a step of the world.
\<close>

record user_claims =
  uc_user_id :: string
  uc_email :: string
  uc_type :: string
  uc_issuer :: string
  uc_subject :: string
  uc_issued_at :: "instant option"
  uc_expires_at :: "instant option"
  uc_not_before :: "instant option"

text \<open>
  What the library finds in a token text before verification: whether its method is an HMAC, and its claims.
\<close>

record user_token =
  vt_hmac :: bool
  vt_claims :: user_claims

datatype claims_verdict = ClaimsValid | ClaimsExpired | ClaimsInvalid

record 'w token_env =
  tk_now :: "'w \<Rightarrow> instant \<times> 'w"
  tk_rand :: "nat \<Rightarrow> 'w \<Rightarrow> string option \<times> 'w"
  tk_sha256 :: "string \<Rightarrow> string"
  tk_sign :: "string \<Rightarrow> user_claims \<Rightarrow> string option"
  tk_decode :: "string \<Rightarrow> user_token option"
  tk_verify :: "string \<Rightarrow> string \<Rightarrow> bool"
  tk_check :: "user_claims \<Rightarrow> instant \<Rightarrow> claims_verdict"

record jwt_manager =
  jm_access_secret :: string
  jm_refresh_secret :: string
  jm_access_ttl :: duration
  jm_refresh_ttl :: duration
  jm_issuer :: string

datatype jwt_config_error = AccessSecretEmpty | RefreshSecretEmpty | AccessSecretShort | RefreshSecretShort

definition NewJWTManager ::
  "string \<Rightarrow> string \<Rightarrow> duration \<Rightarrow> duration \<Rightarrow> string \<Rightarrow> jwt_config_error + jwt_manager" where
  "NewJWTManager access refresh accessTTL refreshTTL issuer =
     (if access = [] then Inl AccessSecretEmpty
      else if refresh = [] then Inl RefreshSecretEmpty
      else if length access < 32 then Inl AccessSecretShort
      else if length refresh < 32 then Inl RefreshSecretShort
      else Inr \<lparr>jm_access_secret = access, jm_refresh_secret = refresh, jm_access_ttl = accessTTL,
             jm_refresh_ttl = refreshTTL, jm_issuer = issuer\<rparr>)"

text \<open>\<open>ErrInvalidToken\<close> itself, and errors that wrap it.\<close>

datatype token_error =
    SignFailed | RandomFailed | ErrTokenExpired | ErrInvalidToken | WrappedInvalidToken
  | InvalidTokenType | InvalidTokenIssuer

definition AccessToken :: string where
  "AccessToken = ''access''"

text \<open>\<open>jwt.NewNumericDate\<close> keeps whole seconds.\<close>

definition numeric_date :: "instant \<Rightarrow> instant" where
  "numeric_date t = t - t mod Second"

definition access_claims :: "jwt_manager \<Rightarrow> string \<Rightarrow> string \<Rightarrow> instant \<Rightarrow> user_claims" where
  "access_claims m userID email now =
     \<lparr>uc_user_id = userID, uc_email = email, uc_type = AccessToken, uc_issuer = jm_issuer m, uc_subject = userID,
      uc_issued_at = Some (numeric_date now), uc_expires_at = Some (numeric_date (now + jm_access_ttl m)),
      uc_not_before = Some (numeric_date now)\<rparr>"

definition GenerateAccessToken ::
  "'w token_env \<Rightarrow> jwt_manager \<Rightarrow> string \<Rightarrow> string \<Rightarrow> 'w \<Rightarrow> (token_error + string) \<times> 'w" where
  "GenerateAccessToken env m userID email w =
     (let (now, w') = tk_now env w in
      case tk_sign env (jm_access_secret m) (access_claims m userID email now) of
        None \<Rightarrow> (Inl SignFailed, w')
      | Some text \<Rightarrow> (Inr text, w'))"

definition HashRefreshToken :: "'w token_env \<Rightarrow> string \<Rightarrow> string" where
  "HashRefreshToken env text = EncodeToString URLEncoding (tk_sha256 env text)"

definition GenerateRefreshToken :: "'w token_env \<Rightarrow> 'w \<Rightarrow> (token_error + string \<times> string) \<times> 'w" where
  "GenerateRefreshToken env w =
     (case tk_rand env 32 w of
        (None, w') \<Rightarrow> (Inl RandomFailed, w')
      | (Some bytes, w') \<Rightarrow>
          (let text = EncodeToString URLEncoding bytes in
           (Inr (text, EncodeToString URLEncoding (tk_sha256 env text)), w')))"

text \<open>
  \<open>ParseWithClaims\<close> decodes, asks the key function for the key, verifies the signature and checks the
  claims; then the type and the issuer are compared.  A token the library passes is always valid and
  has these claims.
\<close>

definition ValidateAccessToken ::
  "'w token_env \<Rightarrow> jwt_manager \<Rightarrow> string \<Rightarrow> 'w \<Rightarrow> (token_error + user_claims) \<times> 'w" where
  "ValidateAccessToken env m text w =
     (case tk_decode env text of
        None \<Rightarrow> (Inl WrappedInvalidToken, w)
      | Some t \<Rightarrow>
          if \<not> vt_hmac t then (Inl WrappedInvalidToken, w)
          else if \<not> tk_verify env text (jm_access_secret m) then (Inl WrappedInvalidToken, w)
          else let (now, w') = tk_now env w in
            (case tk_check env (vt_claims t) now of
               ClaimsExpired \<Rightarrow> Inl ErrTokenExpired
             | ClaimsInvalid \<Rightarrow> Inl WrappedInvalidToken
             | ClaimsValid \<Rightarrow>
                 if uc_type (vt_claims t) \<noteq> AccessToken then Inl InvalidTokenType
                 else if uc_issuer (vt_claims t) \<noteq> jm_issuer m then Inl InvalidTokenIssuer
                 else Inr (vt_claims t), w'))"

text \<open>\<open>int64(ttl.Seconds())\<close>: a lifetime below 2^53 ns is exact as a float64, and it is truncated.\<close>

definition GetAccessTTLSeconds :: "jwt_manager \<Rightarrow> int" where
  "GetAccessTTLSeconds m =
     (if jm_access_ttl m < 0 then - (- jm_access_ttl m div Second) else jm_access_ttl m div Second)"

subsection \<open>The middleware\<close>

datatype auth_outcome = Unauthorized string | Authenticated user_claims

definition AuthMiddleware :: "'w token_env \<Rightarrow> jwt_manager \<Rightarrow> http_req \<Rightarrow> 'w \<Rightarrow> auth_outcome \<times> 'w" where
  "AuthMiddleware env m r w =
     (let authHeader = hq_header r ''Authorization'' in
      if authHeader = [] then (Unauthorized ''missing authorization header'', w)
      else case split_space authHeader of
        (scheme, None) \<Rightarrow> (Unauthorized ''invalid authorization header format'', w)
      | (scheme, Some text) \<Rightarrow>
          if scheme \<noteq> ''Bearer'' then (Unauthorized ''invalid authorization header format'', w)
          else if text = [] then (Unauthorized ''missing token'', w)
          else (case ValidateAccessToken env m text w of
             (Inl ErrTokenExpired, w') \<Rightarrow> (Unauthorized ''token expired'', w')
           | (Inl ErrInvalidToken, w') \<Rightarrow> (Unauthorized ''invalid token'', w')
           | (Inl _, w') \<Rightarrow> (Unauthorized ''token validation failed'', w')
           | (Inr claims, w') \<Rightarrow> (Authenticated claims, w')))"

subsection \<open>What is relied on\<close>

text \<open>
  The documentation of the library: a text signed with HS256 decodes to its claims and verifies under the key;
  the claims are valid from the not-before
  instant until the expiry, and expired from then on.
\<close>

definition token_laws :: "'w token_env \<Rightarrow> bool" where
  "token_laws env \<longleftrightarrow>
     (\<forall>key c text. tk_sign env key c = Some text \<longrightarrow>
        text \<noteq> [] \<and> tk_decode env text = Some \<lparr>vt_hmac = True, vt_claims = c\<rparr> \<and> tk_verify env text key) \<and>
     (\<forall>c now. tk_check env c now =
        (if (case uc_expires_at c of None \<Rightarrow> False | Some e \<Rightarrow> e \<le> now) then ClaimsExpired
         else if (case uc_not_before c of None \<Rightarrow> False | Some b \<Rightarrow> now < b) then ClaimsInvalid else ClaimsValid))"

lemma numeric_date_le: "numeric_date t \<le> t"
  by (simp add: numeric_date_def Second_def Millisecond_def)

lemma access_claims_fields [simp]:
  "uc_type (access_claims m user email t) = AccessToken" "uc_issuer (access_claims m user email t) = jm_issuer m"
  "uc_expires_at (access_claims m user email t) = Some (numeric_date (t + jm_access_ttl m))"
  "uc_not_before (access_claims m user email t) = Some (numeric_date t)"
  by (simp_all add: access_claims_def)

text \<open>
  An access token admits its user, and only while it lives.  A token made for a user at one instant is
  accepted by the middleware at a later instant exactly until its lifetime, counted in whole seconds,
  is over: the handler behind it gets that user and address, and after it the answer is
  \<open>token expired\<close>.
\<close>

theorem access_token_round_trip:
  assumes "token_laws env" and "GenerateAccessToken env m user email w = (Inr text, w1)"
    and "tk_now env w = (t, w1)" and "hq_header r ''Authorization'' = ''Bearer '' @ text"
    and "tk_now env w2 = (now, w3)" and "t \<le> now"
  shows "AuthMiddleware env m r w2 =
     (if now < numeric_date (t + jm_access_ttl m) then Authenticated (access_claims m user email t)
      else Unauthorized ''token expired'', w3)"
proof -
  let ?c = "access_claims m user email t"
  have s: "tk_sign env (jm_access_secret m) ?c = Some text"
    using assms(2,3) by (auto simp: GenerateAccessToken_def split: option.splits)
  have d: "text \<noteq> []" "tk_decode env text = Some \<lparr>vt_hmac = True, vt_claims = ?c\<rparr>"
    "tk_verify env text (jm_access_secret m)"
    using assms(1) s unfolding token_laws_def by blast+
  have "numeric_date t \<le> now" using numeric_date_le [of t] assms(6) by linarith
  then have k: "tk_check env ?c now =
      (if now < numeric_date (t + jm_access_ttl m) then ClaimsValid else ClaimsExpired)"
    using assms(1) by (auto simp: token_laws_def)
  have "ValidateAccessToken env m text w2 =
      (if now < numeric_date (t + jm_access_ttl m) then Inr ?c else Inl ErrTokenExpired, w3)"
    by (simp add: ValidateAccessToken_def d k assms(5))
  then show ?thesis by (simp add: AuthMiddleware_def assms(4) d(1))
qed

text \<open>
  Whoever passes the middleware presented a token of this service: its text verifies under the access
  secret, the claims handed on are those of this text, they name this issuer and the type of an access
  token, and the token is neither expired nor used too early.
\<close>

theorem AuthMiddleware_sound:
  assumes "token_laws env" and "AuthMiddleware env m r w = (Authenticated c, w')"
  shows "\<exists>text now w1. hq_header r ''Authorization'' = ''Bearer '' @ text \<and>
     tk_verify env text (jm_access_secret m) \<and> tk_decode env text = Some \<lparr>vt_hmac = True, vt_claims = c\<rparr> \<and>
     uc_type c = AccessToken \<and> uc_issuer c = jm_issuer m \<and> tk_now env w1 = (now, w') \<and>
     (case uc_expires_at c of None \<Rightarrow> True | Some e \<Rightarrow> now < e) \<and>
     (case uc_not_before c of None \<Rightarrow> True | Some b \<Rightarrow> b \<le> now)"
proof -
  obtain tok where sp: "split_space (hq_header r ''Authorization'') = (''Bearer'', Some tok)"
    and v: "ValidateAccessToken env m tok w = (Inr c, w')"
    using assms(2) by (auto simp: AuthMiddleware_def Let_def split: if_splits option.splits prod.splits sum.splits token_error.splits)
  obtain t now where t: "tk_decode env tok = Some t" "vt_hmac t" "tk_verify env tok (jm_access_secret m)"
      "tk_now env w = (now, w')" "tk_check env (vt_claims t) now = ClaimsValid"
      "uc_type c = AccessToken" "uc_issuer c = jm_issuer m" "c = vt_claims t"
    using v by (auto simp: ValidateAccessToken_def split: option.splits if_splits prod.splits claims_verdict.splits)
  have "(case uc_expires_at c of None \<Rightarrow> True | Some e \<Rightarrow> now < e)"
      "(case uc_not_before c of None \<Rightarrow> True | Some b \<Rightarrow> b \<le> now)"
    using assms(1) t(5,8) by (auto simp: token_laws_def split: if_splits option.splits)
  moreover have "tk_decode env tok = Some \<lparr>vt_hmac = True, vt_claims = c\<rparr>" using t by simp
  ultimately show ?thesis using t split_space_Some [OF sp] by auto
qed

text \<open>The branch for \<open>ErrInvalidToken\<close> is never taken: the comparison does not look through the wrapping.\<close>

lemma invalid_token_branch_dead:
  "fst (AuthMiddleware env m r w) \<noteq> Unauthorized ''invalid token''"
proof -
  have v: "fst (ValidateAccessToken env m tok w) \<noteq> Inl ErrInvalidToken" for tok
    by (auto simp: ValidateAccessToken_def split: option.splits prod.splits claims_verdict.splits)
  show ?thesis
    using v by (auto simp: AuthMiddleware_def Let_def split: option.splits prod.splits sum.splits token_error.splits)
      (metis fst_conv)
qed

subsection \<open>Concrete runs\<close>

text \<open>A library that writes the key and the user into the text, on a clock that counts seconds.\<close>

definition sample_manager :: jwt_manager where
  "sample_manager = \<lparr>jm_access_secret = replicate 32 CHR ''a'', jm_refresh_secret = replicate 32 CHR ''b'',
     jm_access_ttl = 15 * Minute, jm_refresh_ttl = 7 * (24 * Hour), jm_issuer = ''aipx''\<rparr>"

definition sample_claims :: user_claims where
  "sample_claims = access_claims sample_manager ''u1'' ''a@b.kr'' 0"

definition sample_tokens :: "int token_env" where
  "sample_tokens = \<lparr>tk_now = (\<lambda>w. (w * Second, w + 1)), tk_rand = (\<lambda>n w. (Some (replicate n CHR ''r''), w)),
     tk_sha256 = (\<lambda>s. take 32 (s @ replicate 32 CHR ''h'')),
     tk_sign = (\<lambda>key c. if c = sample_claims then Some (CHR ''t'' # key) else None),
     tk_decode = (\<lambda>text. if take 1 text = ''t'' then Some \<lparr>vt_hmac = True, vt_claims = sample_claims\<rparr> else None),
     tk_verify = (\<lambda>text key. text = CHR ''t'' # key),
     tk_check = (\<lambda>c now.
        if (case uc_expires_at c of None \<Rightarrow> False | Some e \<Rightarrow> e \<le> now) then ClaimsExpired
        else if (case uc_not_before c of None \<Rightarrow> False | Some b \<Rightarrow> now < b) then ClaimsInvalid else ClaimsValid)\<rparr>"

lemma sample_token_laws: "token_laws sample_tokens"
  by (simp add: token_laws_def sample_tokens_def)

definition sample_bearer :: http_req where
  "sample_bearer = \<lparr>hq_method = ''GET'', hq_path = ''/api/v1/users/me'',
     hq_header = (\<lambda>h. if h = ''Authorization'' then ''Bearer t'' @ replicate 32 CHR ''a'' else []),
     hq_remote_addr = ''10.0.0.1:4711'', hq_form = None\<rparr>"

theorem access_token_round_trip_witness:
  "AuthMiddleware sample_tokens sample_manager sample_bearer 899 = (Authenticated sample_claims, 900) \<and>
   AuthMiddleware sample_tokens sample_manager sample_bearer 900 = (Unauthorized ''token expired'', 901)"
proof -
  have g: "GenerateAccessToken sample_tokens sample_manager ''u1'' ''a@b.kr'' 0 = (Inr (CHR ''t'' # replicate 32 CHR ''a''), 1)"
    by (simp add: GenerateAccessToken_def sample_tokens_def sample_claims_def sample_manager_def)
  have n: "tk_now sample_tokens w = (w * Second, w + 1)" for w by (simp add: sample_tokens_def)
  have h: "hq_header sample_bearer ''Authorization'' = ''Bearer '' @ CHR ''t'' # replicate 32 CHR ''a''"
    by (simp add: sample_bearer_def)
  show ?thesis
    using access_token_round_trip [OF sample_token_laws g, of 0 sample_bearer 899 "899 * Second" 900]
      access_token_round_trip [OF sample_token_laws g, of 0 sample_bearer 900 "900 * Second" 901]
    by (simp add: n h numeric_date_def sample_manager_def sample_claims_def time_units)
qed

theorem AuthMiddleware_sound_witness:
  "\<exists>text. hq_header sample_bearer ''Authorization'' = ''Bearer '' @ text \<and>
     tk_verify sample_tokens text (jm_access_secret sample_manager)"
proof -
  have "AuthMiddleware sample_tokens sample_manager sample_bearer 1 = (Authenticated sample_claims, 2)"
    by (simp add: AuthMiddleware_def ValidateAccessToken_def sample_tokens_def sample_bearer_def sample_manager_def
        sample_claims_def access_claims_def numeric_date_def time_units)
  from AuthMiddleware_sound [OF sample_token_laws this] show ?thesis by auto
qed

end
