(* ===== verification/User_Models.thy ===== *)
theory User_Models
  imports Go_Strings
begin

text \<open>
  The data of the user service (\<open>user-service/internal/models\<close>): accounts, refresh tokens, broker
  credentials, audit entries, and what the API takes and returns.
\<close>

record user =
  us_id :: string
  us_email :: string
  us_password_hash :: string
  us_name :: string
  us_is_active :: bool
  us_email_verified :: bool
  us_created_at :: instant
  us_updated_at :: instant

record user_response =
  ux_id :: string
  ux_email :: string
  ux_name :: string
  ux_is_active :: bool
  ux_email_verified :: bool
  ux_created_at :: instant
  ux_updated_at :: instant

definition user_ToResponse :: "user \<Rightarrow> user_response" where
  "user_ToResponse u = \<lparr>ux_id = us_id u, ux_email = us_email u, ux_name = us_name u,
     ux_is_active = us_is_active u, ux_email_verified = us_email_verified u,
     ux_created_at = us_created_at u, ux_updated_at = us_updated_at u\<rparr>"

definition broker_IsValid :: "string \<Rightarrow> bool" where
  "broker_IsValid b \<longleftrightarrow> b \<in> {''KIS'', ''eBest'', ''NH'', ''KB''}"

record api_key =
  ak_id :: string
  ak_user :: string
  ak_broker :: string
  ak_key_encrypted :: string
  ak_secret_encrypted :: string
  ak_is_active :: bool
  ak_created_at :: instant
  ak_updated_at :: instant
  ak_last_used_at :: "instant option"

record api_key_response =
  ax_id :: string
  ax_broker :: string
  ax_is_active :: bool
  ax_created_at :: instant
  ax_last_used_at :: "instant option"

definition api_key_ToResponse :: "api_key \<Rightarrow> api_key_response" where
  "api_key_ToResponse a = \<lparr>ax_id = ak_id a, ax_broker = ak_broker a, ax_is_active = ak_is_active a,
     ax_created_at = ak_created_at a, ax_last_used_at = ak_last_used_at a\<rparr>"

record refresh_token =
  rt_id :: string
  rt_user :: string
  rt_hash :: string
  rt_expires_at :: instant
  rt_created_at :: instant
  rt_revoked_at :: "instant option"
  rt_ip_address :: string
  rt_user_agent :: string

definition IsExpired :: "instant \<Rightarrow> refresh_token \<Rightarrow> bool" where
  "IsExpired now t \<longleftrightarrow> rt_expires_at t < now"

definition IsRevoked :: "refresh_token \<Rightarrow> bool" where
  "IsRevoked t \<longleftrightarrow> rt_revoked_at t \<noteq> None"

definition token_IsValid :: "instant \<Rightarrow> refresh_token \<Rightarrow> bool" where
  "token_IsValid now t \<longleftrightarrow> \<not> IsExpired now t \<and> \<not> IsRevoked t"

definition audit_events :: "string list" where
  "audit_events = [''login'', ''logout'', ''register'', ''password_change'', ''password_reset'',
     ''api_key_created'', ''api_key_deleted'', ''email_verified'', ''account_locked'',
     ''account_unlocked'', ''failed_login'']"

subsection \<open>Requests\<close>

record signup_request =
  sr_email :: string
  sr_password :: string
  sr_name :: string

record login_request =
  lr_email :: string
  lr_password :: string

record refresh_request =
  rr_refresh_token :: string

record update_request =
  ur_name :: "string option"
  ur_email :: "string option"

subsection \<open>Responses\<close>

record auth_response =
  ar_access_token :: string
  ar_refresh_token :: string
  ar_token_type :: string
  ar_expires_in :: int
  ar_user :: user_response

record token_refresh_response =
  tr_access_token :: string
  tr_token_type :: string
  tr_expires_in :: int

datatype api_data =
    NoData | AuthData auth_response | TokenData token_refresh_response | UserData user_response

text \<open>\<open>APIResponse\<close> and \<open>ErrorResponse\<close>, each with its time of creation.\<close>

datatype api_body =
    APIResponse api_data string instant
  | ErrorResponse string "string list" instant

definition NewSuccessResponse :: "api_data \<Rightarrow> string \<Rightarrow> instant \<Rightarrow> api_body" where
  "NewSuccessResponse d message now = APIResponse d message now"

definition NewErrorResponse :: "string \<Rightarrow> string list \<Rightarrow> instant \<Rightarrow> api_body" where
  "NewErrorResponse message details now = ErrorResponse message details now"

record api_reply =
  ay_status :: int
  ay_body :: api_body

end
