(* ===== verification/User_Repo.thy ===== *)
theory User_Repo
  imports User_Models Notify_Repo
begin

text \<open>
  The repositories of the user service (\<open>user-service/internal/repository/\<close>) on the tables of
  \<open>migrations/001_users.sql\<close>.  As for the orders a statement fails and changes nothing or applies as a
  whole, and what PostgreSQL and the network decide is a record of functions of the statement's
  number.
\<close>

record audit_entry =
  ua_id :: string
  ua_user :: "string option"
  ua_event :: string
  ua_data :: "string option"
  ua_ip_address :: string
  ua_user_agent :: string
  ua_created_at :: instant

record user_db =
  ud_tick :: nat
  ud_users :: "user list"
  ud_tokens :: "refresh_token list"
  ud_keys :: "api_key list"
  ud_audit :: "audit_entry list"

text \<open>
  Beside \<open>pg_env\<close>: the text of a failure that is not an answer of the server, the canonical form of a text
  as an \<open>INET\<close> value, and what a column of that type gives to a Go string.
\<close>

record user_pg_env = pg_env +
  pe_failure_text :: "nat \<Rightarrow> string"
  pe_inet :: "string \<Rightarrow> string option"
  pe_inet_scan :: "string \<Rightarrow> string option"

datatype user_repo_error =
    UserRepoFailed string | ErrUserNotFound | ErrUserAlreadyExists
  | ErrRefreshTokenNotFound | ErrRefreshTokenExpired | ErrRefreshTokenRevoked
  | ErrAPIKeyNotFound | ErrAPIKeyAlreadyExists

definition ud_next :: "user_db \<Rightarrow> user_db" where
  "ud_next s = s\<lparr>ud_tick := Suc (ud_tick s)\<rparr>"

text \<open>\<open>TIMESTAMPTZ\<close> keeps microseconds.\<close>

definition to_micro :: "instant \<Rightarrow> instant" where
  "to_micro t = t - t mod 1000"

subsection \<open>Errors of the driver\<close>

text \<open>An answer of the server with its severity, message and code, or a failure on the way.\<close>

datatype pg_failure = PgError string string string | ConnFailed string

fun error_text :: "pg_failure \<Rightarrow> string" where
  "error_text (PgError severity message code) = severity @ '': '' @ message @ '' (SQLSTATE '' @ code @ '')''"
| "error_text (ConnFailed t) = t"

definition unique_violation :: "string \<Rightarrow> pg_failure" where
  "unique_violation constraint =
     PgError ''ERROR'' (''duplicate key value violates unique constraint '' @ constraint) ''23505''"

subsection \<open>Users\<close>

text \<open>The check \<open>email_format\<close>: a local part, a domain that ends in a dot and at least two letters.\<close>

definition is_letter :: "char \<Rightarrow> bool" where
  "is_letter c \<longleftrightarrow> (let n = of_char (ascii_lower c) :: nat in 97 \<le> n \<and> n \<le> 122)"

definition email_format :: "string \<Rightarrow> bool" where
  "email_format s \<longleftrightarrow>
     (case index_of CHR ''@'' s of
        None \<Rightarrow> False
      | Some i \<Rightarrow>
          let local = take i s; domain = drop (i + 1) s in
          local \<noteq> [] \<and> list_all (\<lambda>c. is_letter c \<or> is_digit c \<or> c \<in> set ''._%+-'') local \<and>
          (case last_index CHR ''.'' domain of
             None \<Rightarrow> False
           | Some j \<Rightarrow>
               0 < j \<and> list_all (\<lambda>c. is_letter c \<or> is_digit c \<or> c \<in> set ''.-'') (take j domain) \<and>
               2 \<le> length (drop (j + 1) domain) \<and> list_all is_letter (drop (j + 1) domain)))"

definition user_fits :: "user_pg_env \<Rightarrow> user \<Rightarrow> bool" where
  "user_fits env u \<longleftrightarrow> pe_varchar env 255 (us_email u) \<and> pe_varchar env 255 (us_password_hash u) \<and>
     pe_varchar env 100 (us_name u)"

text \<open>The new row, or the failure: the order is that of the server, the unique keys last.\<close>

definition insert_user :: "user_pg_env \<Rightarrow> user \<Rightarrow> user_db \<Rightarrow> (pg_failure + user) \<times> user_db" where
  "insert_user env u s =
     (let n = ud_tick s; s' = ud_next s;
          row = u\<lparr>us_id := pe_uuid env n, us_created_at := pe_now env n, us_updated_at := pe_now env n\<rparr> in
      if pe_fail env n then (Inl (ConnFailed (pe_failure_text env n)), s')
      else if \<not> user_fits env u then (Inl (PgError ''ERROR'' ''value too long'' ''22001''), s')
      else if \<not> email_format (us_email u) then (Inl (PgError ''ERROR'' ''check constraint email_format'' ''23514''), s')
      else if us_id row \<in> us_id ` set (ud_users s) then (Inl (unique_violation ''users_pkey''), s')
      else if us_email u \<in> us_email ` set (ud_users s) then (Inl (unique_violation ''users_email_key''), s')
      else (Inr row, s'\<lparr>ud_users := ud_users s @ [row]\<rparr>))"

definition CreateUser :: "user_pg_env \<Rightarrow> user \<Rightarrow> user_db \<Rightarrow> (user_repo_error + user) \<times> user_db" where
  "CreateUser env u s =
     (let (r, s') = insert_user env u s in
      (case r of
         Inl failure \<Rightarrow>
           if error_text failure = ''SQLSTATE 23505'' then Inl ErrUserAlreadyExists
           else Inl (UserRepoFailed ''failed to create user'')
       | Inr row \<Rightarrow> Inr row, s'))"

definition GetUserByID :: "user_pg_env \<Rightarrow> string \<Rightarrow> user_db \<Rightarrow> (user_repo_error + user) \<times> user_db" where
  "GetUserByID env ident s =
     (let n = ud_tick s; s' = ud_next s; failed = (Inl (UserRepoFailed ''failed to get user by id''), s') in
      if pe_fail env n then failed
      else case pe_uuid_of env ident of
        None \<Rightarrow> failed
      | Some key \<Rightarrow>
          (case find (\<lambda>u. us_id u = key \<and> us_is_active u) (ud_users s) of
             None \<Rightarrow> (Inl ErrUserNotFound, s')
           | Some u \<Rightarrow> (Inr u, s')))"

definition GetUserByEmail :: "user_pg_env \<Rightarrow> string \<Rightarrow> user_db \<Rightarrow> (user_repo_error + user) \<times> user_db" where
  "GetUserByEmail env email s =
     (let n = ud_tick s; s' = ud_next s in
      if pe_fail env n \<or> \<not> pe_text env email then (Inl (UserRepoFailed ''failed to get user by email''), s')
      else case find (\<lambda>u. us_email u = email) (ud_users s) of
        None \<Rightarrow> (Inl ErrUserNotFound, s')
      | Some u \<Rightarrow> (Inr u, s'))"

text \<open>
  \<open>UPDATE users SET ... WHERE id = $n AND is_active = true\<close> with the trigger on \<open>updated_at\<close>: the number of rows,
  or \<open>None\<close> when the statement fails, as it does when the new row breaks a constraint.
\<close>

definition users_ok :: "user_pg_env \<Rightarrow> user list \<Rightarrow> bool" where
  "users_ok env us \<longleftrightarrow> distinct (map us_id us) \<and> distinct (map us_email us) \<and>
     list_all (\<lambda>u. user_fits env u \<and> email_format (us_email u)) us"

definition update_users ::
  "user_pg_env \<Rightarrow> bool \<Rightarrow> string \<Rightarrow> (user \<Rightarrow> user) \<Rightarrow> user_db \<Rightarrow> nat option \<times> user_db" where
  "update_users env args_ok ident assign s =
     (let n = ud_tick s; s' = ud_next s in
      if pe_fail env n \<or> \<not> args_ok then (None, s')
      else case pe_uuid_of env ident of
        None \<Rightarrow> (None, s')
      | Some key \<Rightarrow>
          let hit = (\<lambda>u. us_id u = key \<and> us_is_active u);
              new = map (\<lambda>u. if hit u then (assign u)\<lparr>us_updated_at := pe_now env n\<rparr> else u) (ud_users s) in
          if \<not> list_ex hit (ud_users s) then (Some 0, s')
          else if \<not> users_ok env new then (None, s')
          else (Some (length (filter hit (ud_users s))), s'\<lparr>ud_users := new\<rparr>))"

definition rows_affected :: "string \<Rightarrow> user_repo_error \<Rightarrow> nat option \<Rightarrow> user_repo_error option" where
  "rows_affected msg missing r =
     (case r of None \<Rightarrow> Some (UserRepoFailed msg) | Some k \<Rightarrow> if k = 0 then Some missing else None)"

text \<open>\<open>UpdateUser\<close> sets the instant the database returned in the user it was given.\<close>

definition UpdateUser :: "user_pg_env \<Rightarrow> user \<Rightarrow> user_db \<Rightarrow> (user_repo_error + user) \<times> user_db" where
  "UpdateUser env u s =
     (let (r, s') = update_users env True (us_id u)
            (\<lambda>row. row\<lparr>us_email := us_email u, us_name := us_name u, us_email_verified := us_email_verified u\<rparr>) s in
      (case rows_affected ''failed to update user'' ErrUserNotFound r of
         Some e \<Rightarrow> Inl e
       | None \<Rightarrow> Inr (u\<lparr>us_updated_at := pe_now env (ud_tick s)\<rparr>), s'))"

definition DeleteUser :: "user_pg_env \<Rightarrow> string \<Rightarrow> user_db \<Rightarrow> user_repo_error option \<times> user_db" where
  "DeleteUser env ident s =
     (let (r, s') = update_users env True ident (\<lambda>row. row\<lparr>us_is_active := False\<rparr>) s in
      (rows_affected ''failed to delete user'' ErrUserNotFound r, s'))"

definition UpdateEmailVerified :: "user_pg_env \<Rightarrow> string \<Rightarrow> bool \<Rightarrow> user_db \<Rightarrow> user_repo_error option \<times> user_db" where
  "UpdateEmailVerified env ident verified s =
     (let (r, s') = update_users env True ident (\<lambda>row. row\<lparr>us_email_verified := verified\<rparr>) s in
      (rows_affected ''failed to update email verification'' ErrUserNotFound r, s'))"

definition UpdatePassword :: "user_pg_env \<Rightarrow> string \<Rightarrow> string \<Rightarrow> user_db \<Rightarrow> user_repo_error option \<times> user_db" where
  "UpdatePassword env ident hash s =
     (let (r, s') = update_users env True ident (\<lambda>row. row\<lparr>us_password_hash := hash\<rparr>) s in
      (rows_affected ''failed to update password'' ErrUserNotFound r, s'))"

subsection \<open>Refresh tokens\<close>

definition CreateRefreshToken ::
  "user_pg_env \<Rightarrow> refresh_token \<Rightarrow> user_db \<Rightarrow> (user_repo_error + refresh_token) \<times> user_db" where
  "CreateRefreshToken env t s =
     (let n = ud_tick s; s' = ud_next s; failed = (Inl (UserRepoFailed ''failed to create refresh token''), s') in
      if pe_fail env n \<or> \<not> pe_varchar env 255 (rt_hash t) \<or> \<not> pe_text env (rt_user_agent t) then failed
      else case (pe_uuid_of env (rt_user t), pe_inet env (rt_ip_address t)) of
        (Some user, Some ip) \<Rightarrow>
          let row = \<lparr>rt_id = pe_uuid env n, rt_user = user, rt_hash = rt_hash t,
                 rt_expires_at = to_micro (rt_expires_at t), rt_created_at = pe_now env n, rt_revoked_at = None,
                 rt_ip_address = ip, rt_user_agent = rt_user_agent t\<rparr> in
          if rt_expires_at row \<le> rt_created_at row \<or> user \<notin> us_id ` set (ud_users s) \<or>
             rt_id row \<in> rt_id ` set (ud_tokens s) \<or> rt_hash row \<in> rt_hash ` set (ud_tokens s) then failed
          else (Inr (t\<lparr>rt_id := rt_id row, rt_created_at := rt_created_at row\<rparr>),
                s'\<lparr>ud_tokens := ud_tokens s @ [row]\<rparr>)
      | _ \<Rightarrow> failed)"

definition scan_token :: "user_pg_env \<Rightarrow> refresh_token \<Rightarrow> refresh_token option" where
  "scan_token env t = map_option (\<lambda>ip. t\<lparr>rt_ip_address := ip\<rparr>) (pe_inet_scan env (rt_ip_address t))"

text \<open>
  The two reads of a token differ in the column they look in.  The clock of the service is read once the row
  is there.
\<close>

definition read_token ::
  "user_pg_env \<Rightarrow> ('w \<Rightarrow> instant \<times> 'w) \<Rightarrow> string \<Rightarrow> bool \<Rightarrow> (refresh_token \<Rightarrow> bool) \<Rightarrow> user_db \<times> 'w \<Rightarrow>
     (user_repo_error + refresh_token) \<times> user_db \<times> 'w" where
  "read_token env clock msg args_ok wh = (\<lambda>(s, w).
     let n = ud_tick s; s' = ud_next s in
     if pe_fail env n \<or> \<not> args_ok then (Inl (UserRepoFailed msg), s', w)
     else case find wh (ud_tokens s) of
       None \<Rightarrow> (Inl ErrRefreshTokenNotFound, s', w)
     | Some row \<Rightarrow>
         (case scan_token env row of
            None \<Rightarrow> (Inl (UserRepoFailed msg), s', w)
          | Some t \<Rightarrow>
              let (now, w') = clock w in
              (if IsExpired now t then Inl ErrRefreshTokenExpired
               else if IsRevoked t then Inl ErrRefreshTokenRevoked else Inr t, s', w')))"

definition GetRefreshToken ::
  "user_pg_env \<Rightarrow> ('w \<Rightarrow> instant \<times> 'w) \<Rightarrow> string \<Rightarrow> user_db \<times> 'w \<Rightarrow>
     (user_repo_error + refresh_token) \<times> user_db \<times> 'w" where
  "GetRefreshToken env clock ident =
     read_token env clock ''failed to get refresh token'' (pe_uuid_of env ident \<noteq> None)
       (\<lambda>t. pe_uuid_of env ident = Some (rt_id t))"

definition GetRefreshTokenByHash ::
  "user_pg_env \<Rightarrow> ('w \<Rightarrow> instant \<times> 'w) \<Rightarrow> string \<Rightarrow> user_db \<times> 'w \<Rightarrow>
     (user_repo_error + refresh_token) \<times> user_db \<times> 'w" where
  "GetRefreshTokenByHash env clock hash =
     read_token env clock ''failed to get refresh token by hash'' (pe_text env hash) (\<lambda>t. rt_hash t = hash)"

fun scan_all :: "('r \<Rightarrow> 'a option) \<Rightarrow> 'r list \<Rightarrow> 'a list option" where
  "scan_all f [] = Some []"
| "scan_all f (r # rs) = (case f r of None \<Rightarrow> None | Some x \<Rightarrow> map_option ((#) x) (scan_all f rs))"

definition read_rows :: "user_pg_env \<Rightarrow> nat \<Rightarrow> string \<Rightarrow> string \<Rightarrow> ('r \<Rightarrow> 'a option) \<Rightarrow> 'r list \<Rightarrow> user_repo_error + 'a list" where
  "read_rows env n scan_msg rows_msg f rs =
     (case scan_all f rs of
        None \<Rightarrow> Inl (UserRepoFailed scan_msg)
      | Some xs \<Rightarrow> if pe_rows_fail env n then Inl (UserRepoFailed rows_msg) else Inr xs)"

text \<open>\<open>ORDER BY created_at DESC\<close>; rows of the same instant keep their order here.\<close>

definition GetUserTokens ::
  "user_pg_env \<Rightarrow> string \<Rightarrow> user_db \<Rightarrow> (user_repo_error + refresh_token list) \<times> user_db" where
  "GetUserTokens env user s =
     (let n = ud_tick s; s' = ud_next s in
      if pe_fail env n then (Inl (UserRepoFailed ''failed to get user tokens''), s')
      else case pe_uuid_of env user of
        None \<Rightarrow> (Inl (UserRepoFailed ''failed to get user tokens''), s')
      | Some key \<Rightarrow>
          (read_rows env n ''failed to scan refresh token'' ''error iterating refresh tokens'' (scan_token env)
             (sort_key (\<lambda>t. - rt_created_at t)
                (filter (\<lambda>t. rt_user t = key \<and> rt_revoked_at t = None \<and> pe_now env n < rt_expires_at t) (ud_tokens s))), s'))"

definition revoke_where ::
  "user_pg_env \<Rightarrow> string \<Rightarrow> (string \<Rightarrow> refresh_token \<Rightarrow> bool) \<Rightarrow> user_db \<Rightarrow> nat option \<times> user_db" where
  "revoke_where env ident wh s =
     (let n = ud_tick s; s' = ud_next s in
      if pe_fail env n then (None, s')
      else case pe_uuid_of env ident of
        None \<Rightarrow> (None, s')
      | Some key \<Rightarrow>
          let hit = (\<lambda>t. wh key t \<and> rt_revoked_at t = None) in
          (Some (length (filter hit (ud_tokens s))),
           s'\<lparr>ud_tokens := map (\<lambda>t. if hit t then t\<lparr>rt_revoked_at := Some (pe_now env n)\<rparr> else t) (ud_tokens s)\<rparr>))"

definition user_RevokeToken :: "user_pg_env \<Rightarrow> string \<Rightarrow> user_db \<Rightarrow> user_repo_error option \<times> user_db" where
  "user_RevokeToken env ident s =
     (let (r, s') = revoke_where env ident (\<lambda>key t. rt_id t = key) s in
      (rows_affected ''failed to revoke refresh token'' ErrRefreshTokenNotFound r, s'))"

definition RevokeUserTokens :: "user_pg_env \<Rightarrow> string \<Rightarrow> user_db \<Rightarrow> user_repo_error option \<times> user_db" where
  "RevokeUserTokens env user s =
     (let (r, s') = revoke_where env user (\<lambda>key t. rt_user t = key) s in
      (if r = None then Some (UserRepoFailed ''failed to revoke user tokens'') else None, s'))"

definition DeleteExpiredTokens ::
  "user_pg_env \<Rightarrow> ('w \<Rightarrow> instant \<times> 'w) \<Rightarrow> duration \<Rightarrow> user_db \<times> 'w \<Rightarrow> user_repo_error option \<times> user_db \<times> 'w" where
  "DeleteExpiredTokens env clock olderThan = (\<lambda>(s, w).
     let n = ud_tick s; s' = ud_next s; (now, w') = clock w; cutoff = to_micro (now - olderThan) in
     if pe_fail env n then (Some (UserRepoFailed ''failed to delete expired tokens''), s', w')
     else (None, s'\<lparr>ud_tokens := filter (\<lambda>t. \<not> rt_expires_at t < cutoff) (ud_tokens s)\<rparr>, w'))"

end
