(* ===== verification/User_Keys.thy ===== *)
theory User_Keys
  imports User_Repo
begin

text \<open>
  The remaining repositories of the user service: the broker credentials of
  \<open>internal/repository/apikey_repo.go\<close> and the audit log of \<open>audit_repo.go\<close>, with the invariant of all four
  tables.
\<close>

subsection \<open>Broker credentials\<close>

text \<open>\<open>key_encrypted\<close> and \<open>secret_encrypted\<close> are \<open>TEXT\<close>, the broker is checked and has a \<open>VARCHAR(20)\<close>.\<close>

definition insert_key :: "user_pg_env \<Rightarrow> api_key \<Rightarrow> user_db \<Rightarrow> (pg_failure + api_key) \<times> user_db" where
  "insert_key env k s =
     (let n = ud_tick s; s' = ud_next s in
      if pe_fail env n then (Inl (ConnFailed (pe_failure_text env n)), s')
      else case pe_uuid_of env (ak_user k) of
        None \<Rightarrow> (Inl (PgError ''ERROR'' ''invalid input syntax for type uuid'' ''22P02''), s')
      | Some user \<Rightarrow>
          let row = k\<lparr>ak_id := pe_uuid env n, ak_user := user, ak_created_at := pe_now env n,
                 ak_updated_at := pe_now env n, ak_last_used_at := None\<rparr> in
          if \<not> pe_text env (ak_key_encrypted k) \<or> \<not> pe_text env (ak_secret_encrypted k) \<or> \<not> pe_varchar env 20 (ak_broker k)
          then (Inl (PgError ''ERROR'' ''value does not fit'' ''22001''), s')
          else if \<not> broker_IsValid (ak_broker k) then (Inl (PgError ''ERROR'' ''check constraint valid_broker'' ''23514''), s')
          else if ak_id row \<in> ak_id ` set (ud_keys s) then (Inl (unique_violation ''api_keys_pkey''), s')
          else if (user, ak_broker k) \<in> (\<lambda>r. (ak_user r, ak_broker r)) ` set (ud_keys s)
          then (Inl (unique_violation ''unique_user_broker''), s')
          else if user \<notin> us_id ` set (ud_users s)
          then (Inl (PgError ''ERROR'' ''foreign key constraint'' ''23503''), s')
          else (Inr row, s'\<lparr>ud_keys := ud_keys s @ [row]\<rparr>))"

definition CreateAPIKey :: "user_pg_env \<Rightarrow> api_key \<Rightarrow> user_db \<Rightarrow> (user_repo_error + api_key) \<times> user_db" where
  "CreateAPIKey env k s =
     (let (r, s') = insert_key env k s in
      (case r of
         Inl failure \<Rightarrow>
           if error_text failure = ''SQLSTATE 23505'' then Inl ErrAPIKeyAlreadyExists
           else Inl (UserRepoFailed ''failed to create api key'')
       | Inr row \<Rightarrow>
           Inr (k\<lparr>ak_id := ak_id row, ak_created_at := ak_created_at row, ak_updated_at := ak_updated_at row\<rparr>), s'))"

definition read_key ::
  "user_pg_env \<Rightarrow> string \<Rightarrow> bool \<Rightarrow> (api_key \<Rightarrow> bool) \<Rightarrow> user_db \<Rightarrow> (user_repo_error + api_key) \<times> user_db" where
  "read_key env msg args_ok wh s =
     (let n = ud_tick s; s' = ud_next s in
      if pe_fail env n \<or> \<not> args_ok then (Inl (UserRepoFailed msg), s')
      else case find wh (ud_keys s) of
        None \<Rightarrow> (Inl ErrAPIKeyNotFound, s')
      | Some k \<Rightarrow> (Inr k, s'))"

definition GetAPIKey :: "user_pg_env \<Rightarrow> string \<Rightarrow> user_db \<Rightarrow> (user_repo_error + api_key) \<times> user_db" where
  "GetAPIKey env ident =
     read_key env ''failed to get api key'' (pe_uuid_of env ident \<noteq> None)
       (\<lambda>k. pe_uuid_of env ident = Some (ak_id k))"

definition GetAPIKeysByUserID ::
  "user_pg_env \<Rightarrow> string \<Rightarrow> user_db \<Rightarrow> (user_repo_error + api_key list) \<times> user_db" where
  "GetAPIKeysByUserID env user s =
     (let n = ud_tick s; s' = ud_next s in
      if pe_fail env n then (Inl (UserRepoFailed ''failed to get api keys for user''), s')
      else case pe_uuid_of env user of
        None \<Rightarrow> (Inl (UserRepoFailed ''failed to get api keys for user''), s')
      | Some key \<Rightarrow>
          (read_rows env n ''failed to scan api key'' ''error iterating api keys'' Some
             (sort_key (\<lambda>k. - ak_created_at k) (filter (\<lambda>k. ak_user k = key) (ud_keys s))), s'))"

definition GetAPIKeyByUserAndBroker ::
  "user_pg_env \<Rightarrow> string \<Rightarrow> string \<Rightarrow> user_db \<Rightarrow> (user_repo_error + api_key) \<times> user_db" where
  "GetAPIKeyByUserAndBroker env user broker =
     read_key env ''failed to get api key by user and broker'' (pe_uuid_of env user \<noteq> None \<and> pe_text env broker)
       (\<lambda>k. pe_uuid_of env user = Some (ak_user k) \<and> ak_broker k = broker)"

definition update_keys ::
  "user_pg_env \<Rightarrow> bool \<Rightarrow> string \<Rightarrow> (api_key \<Rightarrow> api_key) \<Rightarrow> user_db \<Rightarrow> nat option \<times> user_db" where
  "update_keys env args_ok ident assign s =
     (let n = ud_tick s; s' = ud_next s in
      if pe_fail env n \<or> \<not> args_ok then (None, s')
      else case pe_uuid_of env ident of
        None \<Rightarrow> (None, s')
      | Some key \<Rightarrow>
          (Some (length (filter (\<lambda>k. ak_id k = key) (ud_keys s))),
           s'\<lparr>ud_keys := map (\<lambda>k. if ak_id k = key then (assign k)\<lparr>ak_updated_at := pe_now env n\<rparr> else k) (ud_keys s)\<rparr>))"

definition UpdateAPIKey :: "user_pg_env \<Rightarrow> api_key \<Rightarrow> user_db \<Rightarrow> (user_repo_error + api_key) \<times> user_db" where
  "UpdateAPIKey env k s =
     (let (r, s') = update_keys env (pe_text env (ak_key_encrypted k) \<and> pe_text env (ak_secret_encrypted k)) (ak_id k)
            (\<lambda>row. row\<lparr>ak_key_encrypted := ak_key_encrypted k, ak_secret_encrypted := ak_secret_encrypted k,
               ak_is_active := ak_is_active k\<rparr>) s in
      (case rows_affected ''failed to update api key'' ErrAPIKeyNotFound r of
         Some e \<Rightarrow> Inl e
       | None \<Rightarrow> Inr (k\<lparr>ak_updated_at := pe_now env (ud_tick s)\<rparr>), s'))"

definition DeleteAPIKey :: "user_pg_env \<Rightarrow> string \<Rightarrow> user_db \<Rightarrow> user_repo_error option \<times> user_db" where
  "DeleteAPIKey env ident s =
     (let n = ud_tick s; s' = ud_next s; failed = (Some (UserRepoFailed ''failed to delete api key''), s') in
      if pe_fail env n then failed
      else case pe_uuid_of env ident of
        None \<Rightarrow> failed
      | Some key \<Rightarrow>
          (if key \<in> ak_id ` set (ud_keys s) then None else Some ErrAPIKeyNotFound,
           s'\<lparr>ud_keys := filter (\<lambda>k. ak_id k \<noteq> key) (ud_keys s)\<rparr>))"

definition UpdateLastUsed ::
  "user_pg_env \<Rightarrow> ('w \<Rightarrow> instant \<times> 'w) \<Rightarrow> string \<Rightarrow> user_db \<times> 'w \<Rightarrow> user_repo_error option \<times> user_db \<times> 'w" where
  "UpdateLastUsed env clock ident = (\<lambda>(s, w).
     let (now, w') = clock w;
         (r, s') = update_keys env True ident (\<lambda>row. row\<lparr>ak_last_used_at := Some (to_micro now)\<rparr>) s in
     (rows_affected ''failed to update last used timestamp'' ErrAPIKeyNotFound r, s', w'))"

definition SetActive :: "user_pg_env \<Rightarrow> string \<Rightarrow> bool \<Rightarrow> user_db \<Rightarrow> user_repo_error option \<times> user_db" where
  "SetActive env ident active s =
     (let (r, s') = update_keys env True ident (\<lambda>row. row\<lparr>ak_is_active := active\<rparr>) s in
      (rows_affected ''failed to set api key active status'' ErrAPIKeyNotFound r, s'))"

subsection \<open>The audit log\<close>

record audit_log =
  lg_id :: string
  lg_user :: "string option"
  lg_event :: string
  lg_data :: "any_map option"
  lg_ip_address :: string
  lg_user_agent :: string
  lg_created_at :: instant

definition CreateAuditLog ::
  "user_pg_env \<Rightarrow> json_codec \<Rightarrow> audit_log \<Rightarrow> user_db \<Rightarrow> (user_repo_error + audit_log) \<times> user_db" where
  "CreateAuditLog env jc l s =
     (let n = ud_tick s; s' = ud_next s; failed = (Inl (UserRepoFailed ''failed to create audit log''), s');
          insert = (\<lambda>doc.
            if pe_fail env n then failed
            else case (null_or (pe_uuid_of env) (lg_user l), pe_inet env (lg_ip_address l), null_or (jc_column jc) doc) of
              (Some user, Some ip, Some column) \<Rightarrow>
                let row = \<lparr>ua_id = pe_uuid env n, ua_user = user, ua_event = lg_event l, ua_data = column,
                       ua_ip_address = ip, ua_user_agent = lg_user_agent l, ua_created_at = pe_now env n\<rparr> in
                if \<not> pe_varchar env 50 (lg_event l) \<or> lg_event l \<notin> set audit_events \<or> \<not> pe_text env (lg_user_agent l) \<or>
                   (case user of None \<Rightarrow> False | Some u \<Rightarrow> u \<notin> us_id ` set (ud_users s)) \<or>
                   ua_id row \<in> ua_id ` set (ud_audit s)
                then failed
                else (Inr (l\<lparr>lg_id := ua_id row, lg_created_at := ua_created_at row\<rparr>), s'\<lparr>ud_audit := ud_audit s @ [row]\<rparr>)
            | _ \<Rightarrow> failed) in
      case lg_data l of
        None \<Rightarrow> insert None
      | Some m \<Rightarrow>
          (case jc_marshal jc (Some m) of
             None \<Rightarrow> (Inl (UserRepoFailed ''failed to marshal event data''), s)
           | Some doc \<Rightarrow> insert (Some doc)))"

definition scan_audit :: "user_pg_env \<Rightarrow> audit_entry \<Rightarrow> audit_log option" where
  "scan_audit env row = map_option (\<lambda>ip.
     \<lparr>lg_id = ua_id row, lg_user = ua_user row, lg_event = ua_event row, lg_data = None, lg_ip_address = ip,
      lg_user_agent = ua_user_agent row, lg_created_at = ua_created_at row\<rparr>) (pe_inet_scan env (ua_ip_address row))"

text \<open>Each row is scanned and its document decoded before the next one is read.\<close>

fun audit_rows :: "user_pg_env \<Rightarrow> json_codec \<Rightarrow> audit_entry list \<Rightarrow> user_repo_error + audit_log list" where
  "audit_rows env jc [] = Inr []"
| "audit_rows env jc (row # rows) =
     (case scan_audit env row of
        None \<Rightarrow> Inl (UserRepoFailed ''failed to scan audit log'')
      | Some l \<Rightarrow>
          (case (case ua_data row of
               None \<Rightarrow> Some None
             | Some doc \<Rightarrow> if doc = [] then Some None else jc_unmarshal jc doc) of
             None \<Rightarrow> Inl (UserRepoFailed ''failed to unmarshal event data'')
           | Some d \<Rightarrow>
               (case audit_rows env jc rows of
                  Inl e \<Rightarrow> Inl e
                | Inr ls \<Rightarrow> Inr (l\<lparr>lg_data := d\<rparr> # ls))))"

definition query_audit ::
  "user_pg_env \<Rightarrow> json_codec \<Rightarrow> string \<Rightarrow> bool \<Rightarrow> (audit_entry \<Rightarrow> bool) \<Rightarrow> int \<Rightarrow> user_db \<Rightarrow>
     (user_repo_error + audit_log list) \<times> user_db" where
  "query_audit env jc msg args_ok wh lmt s =
     (let n = ud_tick s; s' = ud_next s in
      if pe_fail env n \<or> \<not> args_ok \<or> lmt < 0 then (Inl (UserRepoFailed msg), s')
      else case audit_rows env jc (take (nat lmt) (sort_key (\<lambda>a. - ua_created_at a) (filter wh (ud_audit s)))) of
        Inl e \<Rightarrow> (Inl e, s')
      | Inr ls \<Rightarrow>
          (if pe_rows_fail env n then Inl (UserRepoFailed ''error iterating audit logs'') else Inr ls, s'))"

definition GetUserAuditLogs ::
  "user_pg_env \<Rightarrow> json_codec \<Rightarrow> string \<Rightarrow> int \<Rightarrow> user_db \<Rightarrow> (user_repo_error + audit_log list) \<times> user_db" where
  "GetUserAuditLogs env jc user =
     query_audit env jc ''failed to get user audit logs'' (pe_uuid_of env user \<noteq> None)
       (\<lambda>a. ua_user a \<noteq> None \<and> ua_user a = pe_uuid_of env user)"

definition GetAuditLogsByEventType ::
  "user_pg_env \<Rightarrow> json_codec \<Rightarrow> string \<Rightarrow> int \<Rightarrow> user_db \<Rightarrow> (user_repo_error + audit_log list) \<times> user_db" where
  "GetAuditLogsByEventType env jc event =
     query_audit env jc ''failed to get audit logs by event type'' (pe_text env event) (\<lambda>a. ua_event a = event)"

end
