(* ===== verification/User_Handlers.thy ===== *)
theory User_Handlers
  imports User_Password User_Jwt User_Keys
begin

text \<open>
  The HTTP handlers of the user service: \<open>user-service/internal/handlers/\<close> behind the routes of
  \<open>cmd/server/main.go\<close>.  A handler gets the decoded body, or the text of the decoder's error, and
  answers with a status and one of the two response forms; it works on the interfaces of the
  repositories, of the password hasher and of the token library, all over one state.  The request is the
  one the global middleware passes on.  A panic of the
  key derivation ends in the recovery middleware, whose reply is the one of an internal error.
\<close>

subsection \<open>The interfaces\<close>

record 's user_repository =
  uq_create :: "user \<Rightarrow> 's \<Rightarrow> (user_repo_error + user) \<times> 's"
  uq_by_id :: "string \<Rightarrow> 's \<Rightarrow> (user_repo_error + user) \<times> 's"
  uq_by_email :: "string \<Rightarrow> 's \<Rightarrow> (user_repo_error + user) \<times> 's"
  uq_update :: "user \<Rightarrow> 's \<Rightarrow> (user_repo_error + user) \<times> 's"
  uq_delete :: "string \<Rightarrow> 's \<Rightarrow> user_repo_error option \<times> 's"
  uq_email_verified :: "string \<Rightarrow> bool \<Rightarrow> 's \<Rightarrow> user_repo_error option \<times> 's"
  uq_password :: "string \<Rightarrow> string \<Rightarrow> 's \<Rightarrow> user_repo_error option \<times> 's"

record 's token_repository =
  tq_create :: "refresh_token \<Rightarrow> 's \<Rightarrow> (user_repo_error + refresh_token) \<times> 's"
  tq_get :: "string \<Rightarrow> 's \<Rightarrow> (user_repo_error + refresh_token) \<times> 's"
  tq_by_hash :: "string \<Rightarrow> 's \<Rightarrow> (user_repo_error + refresh_token) \<times> 's"
  tq_user_tokens :: "string \<Rightarrow> 's \<Rightarrow> (user_repo_error + refresh_token list) \<times> 's"
  tq_revoke :: "string \<Rightarrow> 's \<Rightarrow> user_repo_error option \<times> 's"
  tq_revoke_user :: "string \<Rightarrow> 's \<Rightarrow> user_repo_error option \<times> 's"
  tq_delete_expired :: "duration \<Rightarrow> 's \<Rightarrow> user_repo_error option \<times> 's"

record 's password_hasher =
  pq_hash :: "string \<Rightarrow> 's \<Rightarrow> (password_error + string) \<times> 's"
  pq_verify :: "string \<Rightarrow> string \<Rightarrow> password_error option"

text \<open>
  The validator decides what an email address is and words its complaints, each a field and the tag it breaks.
\<close>

record 's auth_handler =
  ah_users :: "'s user_repository"
  ah_tokens :: "'s token_repository"
  ah_hasher :: "'s password_hasher"
  ah_env :: "'s token_env"
  ah_jwt :: jwt_manager
  ah_email_ok :: "string \<Rightarrow> bool"
  ah_complaint :: "(string \<times> string) list \<Rightarrow> string"

subsection \<open>Responses\<close>

definition respondError :: "'s token_env \<Rightarrow> int \<Rightarrow> string \<Rightarrow> string list \<Rightarrow> 's \<Rightarrow> api_reply \<times> 's" where
  "respondError env status message details s =
     (let (now, s') = tk_now env s in
      (\<lparr>ay_status = status, ay_body = NewErrorResponse message details now\<rparr>, s'))"

definition respondSuccess :: "'s token_env \<Rightarrow> int \<Rightarrow> api_data \<Rightarrow> string \<Rightarrow> 's \<Rightarrow> api_reply \<times> 's" where
  "respondSuccess env status d message s =
     (let (now, s') = tk_now env s in
      (\<lparr>ay_status = status, ay_body = NewSuccessResponse d message now\<rparr>, s'))"

definition internal_error :: "'s token_env \<Rightarrow> 's \<Rightarrow> api_reply \<times> 's" where
  "internal_error env s = respondError env 500 ''Internal server error'' [] s"

subsection \<open>Validation\<close>

text \<open>\<open>utf8.RuneCountInString\<close> of a decoded JSON string, which is valid UTF-8.\<close>

definition rune_count :: "string \<Rightarrow> nat" where
  "rune_count s = length (filter (\<lambda>c. let n = of_char c :: nat in \<not> (128 \<le> n \<and> n < 192)) s)"

text \<open>The first tag of a field that does not hold.\<close>

definition check_field :: "string \<Rightarrow> (string \<times> bool) list \<Rightarrow> (string \<times> string) list" where
  "check_field name tags = (case find (\<lambda>(_, ok). \<not> ok) tags of None \<Rightarrow> [] | Some (tag, _) \<Rightarrow> [(name, tag)])"

definition validate_signup :: "(string \<Rightarrow> bool) \<Rightarrow> signup_request \<Rightarrow> (string \<times> string) list" where
  "validate_signup email_ok r =
     check_field ''Email'' [(''required'', sr_email r \<noteq> []), (''email'', email_ok (sr_email r))] @
     check_field ''Password'' [(''required'', sr_password r \<noteq> []), (''min'', 8 \<le> rune_count (sr_password r)),
       (''max'', rune_count (sr_password r) \<le> 128)] @
     check_field ''Name'' [(''required'', sr_name r \<noteq> []), (''min'', 2 \<le> rune_count (sr_name r)),
       (''max'', rune_count (sr_name r) \<le> 100)]"

text \<open>\<open>LoginRequest\<close> has no \<open>validate\<close> tags, so nothing of it is checked.\<close>

definition validate_login :: "login_request \<Rightarrow> (string \<times> string) list" where
  "validate_login r = []"

definition validate_refresh :: "refresh_request \<Rightarrow> (string \<times> string) list" where
  "validate_refresh r = check_field ''RefreshToken'' [(''required'', rr_refresh_token r \<noteq> [])]"

definition validate_update :: "(string \<Rightarrow> bool) \<Rightarrow> update_request \<Rightarrow> (string \<times> string) list" where
  "validate_update email_ok r =
     (case ur_name r of None \<Rightarrow> []
      | Some n \<Rightarrow> check_field ''Name'' [(''min'', 2 \<le> rune_count n), (''max'', rune_count n \<le> 100)]) @
     (case ur_email r of None \<Rightarrow> [] | Some e \<Rightarrow> check_field ''Email'' [(''email'', email_ok e)])"

fun strength_text :: "strength_error \<Rightarrow> string" where
  "strength_text TooShort = ''password must be at least 8 characters long''"
| "strength_text TooLong = ''password must not exceed 128 characters''"
| "strength_text NoUpper = ''password must contain at least one uppercase letter''"
| "strength_text NoLower = ''password must contain at least one lowercase letter''"
| "strength_text NoDigit = ''password must contain at least one digit''"

subsection \<open>Authentication\<close>

definition ah_getClientIP :: "http_req \<Rightarrow> string" where
  "ah_getClientIP r =
     (if hq_header r ''X-Forwarded-For'' \<noteq> [] then hq_header r ''X-Forwarded-For''
      else if hq_header r ''X-Real-IP'' \<noteq> [] then hq_header r ''X-Real-IP''
      else hq_remote_addr r)"

text \<open>The common end of \<open>Signup\<close> and \<open>Login\<close>: both tokens, the row of the refresh token, the reply.\<close>

definition issue_tokens ::
  "'s auth_handler \<Rightarrow> http_req \<Rightarrow> user \<Rightarrow> int \<Rightarrow> string \<Rightarrow> 's \<Rightarrow> api_reply \<times> 's" where
  "issue_tokens h r u status message s =
     (let env = ah_env h; m = ah_jwt h in
      case GenerateAccessToken env m (us_id u) (us_email u) s of
        (Inl _, s1) \<Rightarrow> internal_error env s1
      | (Inr access, s1) \<Rightarrow>
          (case GenerateRefreshToken env s1 of
             (Inl _, s2) \<Rightarrow> internal_error env s2
           | (Inr (refresh, hash), s2) \<Rightarrow>
               (let (now, s3) = tk_now env s2;
                    t = \<lparr>rt_id = [], rt_user = us_id u, rt_hash = hash, rt_expires_at = now + jm_refresh_ttl m,
                         rt_created_at = zero_time, rt_revoked_at = None,
                         rt_ip_address = ah_getClientIP r, rt_user_agent = hq_header r ''User-Agent''\<rparr> in
                case tq_create (ah_tokens h) t s3 of
                  (Inl _, s4) \<Rightarrow> internal_error env s4
                | (Inr _, s4) \<Rightarrow>
                    respondSuccess env status
                      (AuthData \<lparr>ar_access_token = access, ar_refresh_token = refresh, ar_token_type = ''Bearer'',
                         ar_expires_in = GetAccessTTLSeconds m, ar_user = user_ToResponse u\<rparr>) message s4)))"

definition Signup :: "'s auth_handler \<Rightarrow> http_req \<Rightarrow> string + signup_request \<Rightarrow> 's \<Rightarrow> api_reply \<times> 's" where
  "Signup h r body s =
     (let env = ah_env h in
      case body of
        Inl e \<Rightarrow> respondError env 400 ''Invalid request body'' [e] s
      | Inr req \<Rightarrow>
          let complaints = validate_signup (ah_email_ok h) req in
          if complaints \<noteq> [] then respondError env 400 ''Validation failed'' [ah_complaint h complaints] s
          else case ValidatePasswordStrength (sr_password req) of
            Some e \<Rightarrow> respondError env 400 ''Weak password'' [strength_text e] s
          | None \<Rightarrow>
              (case uq_by_email (ah_users h) (sr_email req) s of
                 (Inr _, s1) \<Rightarrow> respondError env 409 ''User already exists'' [''email already registered''] s1
               | (Inl e, s1) \<Rightarrow>
                   if e \<noteq> ErrUserNotFound then internal_error env s1
                   else case pq_hash (ah_hasher h) (sr_password req) s1 of
                     (Inl _, s2) \<Rightarrow> internal_error env s2
                   | (Inr hash, s2) \<Rightarrow>
                       (case uq_create (ah_users h) \<lparr>us_id = [], us_email = sr_email req, us_password_hash = hash,
                            us_name = sr_name req, us_is_active = True, us_email_verified = False,
                            us_created_at = zero_time, us_updated_at = zero_time\<rparr> s2 of
                          (Inl e, s3) \<Rightarrow>
                            if e = ErrUserAlreadyExists then respondError env 409 ''User already exists'' [] s3
                            else internal_error env s3
                        | (Inr u, s3) \<Rightarrow> issue_tokens h r u 201 ''User registered successfully'' s3)))"

definition Login :: "'s auth_handler \<Rightarrow> http_req \<Rightarrow> string + login_request \<Rightarrow> 's \<Rightarrow> api_reply \<times> 's" where
  "Login h r body s =
     (let env = ah_env h in
      case body of
        Inl e \<Rightarrow> respondError env 400 ''Invalid request body'' [e] s
      | Inr req \<Rightarrow>
          if validate_login req \<noteq> []
          then respondError env 400 ''Validation failed'' [ah_complaint h (validate_login req)] s
          else case uq_by_email (ah_users h) (lr_email req) s of
            (Inl e, s1) \<Rightarrow>
              if e = ErrUserNotFound then respondError env 401 ''Invalid credentials'' [] s1
              else internal_error env s1
          | (Inr u, s1) \<Rightarrow>
              if \<not> us_is_active u then respondError env 401 ''Account is inactive'' [] s1
              else case pq_verify (ah_hasher h) (lr_password req) (us_password_hash u) of
                Some e \<Rightarrow>
                  if e = ErrMismatchedHashAndPassword then respondError env 401 ''Invalid credentials'' [] s1
                  else internal_error env s1
              | None \<Rightarrow> issue_tokens h r u 200 ''Login successful'' s1)"

definition Refresh :: "'s auth_handler \<Rightarrow> string + refresh_request \<Rightarrow> 's \<Rightarrow> api_reply \<times> 's" where
  "Refresh h body s =
     (let env = ah_env h in
      case body of
        Inl e \<Rightarrow> respondError env 400 ''Invalid request body'' [e] s
      | Inr req \<Rightarrow>
          if validate_refresh req \<noteq> []
          then respondError env 400 ''Validation failed'' [ah_complaint h (validate_refresh req)] s
          else case tq_by_hash (ah_tokens h) (HashRefreshToken env (rr_refresh_token req)) s of
            (Inl e, s1) \<Rightarrow>
              if e \<in> {ErrRefreshTokenNotFound, ErrRefreshTokenExpired, ErrRefreshTokenRevoked}
              then respondError env 401 ''Invalid or expired refresh token'' [] s1
              else internal_error env s1
          | (Inr t, s1) \<Rightarrow>
              (case uq_by_id (ah_users h) (rt_user t) s1 of
                 (Inl e, s2) \<Rightarrow>
                   if e = ErrUserNotFound then respondError env 401 ''User not found'' [] s2
                   else internal_error env s2
               | (Inr u, s2) \<Rightarrow>
                   (case GenerateAccessToken env (ah_jwt h) (us_id u) (us_email u) s2 of
                      (Inl _, s3) \<Rightarrow> internal_error env s3
                    | (Inr access, s3) \<Rightarrow>
                        respondSuccess env 200
                          (TokenData \<lparr>tr_access_token = access, tr_token_type = ''Bearer'',
                             tr_expires_in = GetAccessTTLSeconds (ah_jwt h)\<rparr>)
                          ''Token refreshed successfully'' s3)))"

definition Logout :: "'s auth_handler \<Rightarrow> string + refresh_request \<Rightarrow> 's \<Rightarrow> api_reply \<times> 's" where
  "Logout h body s =
     (let env = ah_env h in
      case body of
        Inl e \<Rightarrow> respondError env 400 ''Invalid request body'' [e] s
      | Inr req \<Rightarrow>
          (case tq_by_hash (ah_tokens h) (HashRefreshToken env (rr_refresh_token req)) s of
             (Inl e, s1) \<Rightarrow>
               if e = ErrRefreshTokenNotFound then respondSuccess env 200 NoData ''Logout successful'' s1
               else internal_error env s1
           | (Inr t, s1) \<Rightarrow>
               (case tq_revoke (ah_tokens h) (rt_id t) s1 of
                  (Some _, s2) \<Rightarrow> internal_error env s2
                | (None, s2) \<Rightarrow> respondSuccess env 200 NoData ''Logout successful'' s2)))"

subsection \<open>The account of the caller\<close>

text \<open>The user the middleware put into the context, if any, is the first argument.\<close>

definition GetMe :: "'s auth_handler \<Rightarrow> string option \<Rightarrow> 's \<Rightarrow> api_reply \<times> 's" where
  "GetMe h userID s =
     (let env = ah_env h in
      case userID of
        None \<Rightarrow> respondError env 401 ''Unauthorized'' [] s
      | Some ident \<Rightarrow>
          (case uq_by_id (ah_users h) ident s of
             (Inl e, s1) \<Rightarrow>
               if e = ErrUserNotFound then respondError env 404 ''User not found'' [] s1 else internal_error env s1
           | (Inr u, s1) \<Rightarrow>
               respondSuccess env 200 (UserData (user_ToResponse u)) ''User retrieved successfully'' s1))"

text \<open>The email part of \<open>UpdateMe\<close>: a reply that ends the request, or the user to store.\<close>

definition update_email ::
  "'s auth_handler \<Rightarrow> string \<Rightarrow> string option \<Rightarrow> user \<Rightarrow> 's \<Rightarrow> (api_reply + user) \<times> 's" where
  "update_email h ident new u s =
     (let env = ah_env h; ending = (\<lambda>(reply, s'). (Inl reply, s')) in
      case new of
        None \<Rightarrow> (Inr u, s)
      | Some email \<Rightarrow>
          (let (found, s1) = uq_by_email (ah_users h) email s in
           case found of
             Inr other \<Rightarrow>
               if us_id other \<noteq> ident then ending (respondError env 409 ''Email already in use'' [] s1)
               else (Inr (u\<lparr>us_email := email, us_email_verified := False\<rparr>), s1)
           | Inl e \<Rightarrow>
               if e \<noteq> ErrUserNotFound then ending (internal_error env s1)
               else (Inr (u\<lparr>us_email := email, us_email_verified := False\<rparr>), s1)))"

definition UpdateMe :: "'s auth_handler \<Rightarrow> string option \<Rightarrow> string + update_request \<Rightarrow> 's \<Rightarrow> api_reply \<times> 's" where
  "UpdateMe h userID body s =
     (let env = ah_env h in
      case userID of
        None \<Rightarrow> respondError env 401 ''Unauthorized'' [] s
      | Some ident \<Rightarrow>
      (case body of
        Inl e \<Rightarrow> respondError env 400 ''Invalid request body'' [e] s
      | Inr req \<Rightarrow>
          let complaints = validate_update (ah_email_ok h) req in
          if complaints \<noteq> [] then respondError env 400 ''Validation failed'' [ah_complaint h complaints] s
          else case uq_by_id (ah_users h) ident s of
            (Inl e, s1) \<Rightarrow>
              if e = ErrUserNotFound then respondError env 404 ''User not found'' [] s1 else internal_error env s1
          | (Inr u, s1) \<Rightarrow>
              let named = (case ur_name req of None \<Rightarrow> u | Some n \<Rightarrow> u\<lparr>us_name := n\<rparr>) in
              case update_email h ident (ur_email req) named s1 of
                (Inl reply, s2) \<Rightarrow> (reply, s2)
              | (Inr changed, s2) \<Rightarrow>
                  if ur_name req = None \<and> ur_email req = None
                  then respondSuccess env 200 (UserData (user_ToResponse changed)) ''No changes to update'' s2
                  else case uq_update (ah_users h) changed s2 of
                    (Inl e, s3) \<Rightarrow>
                      if e = ErrUserNotFound then respondError env 404 ''User not found'' [] s3
                      else internal_error env s3
                  | (Inr stored, s3) \<Rightarrow>
                      respondSuccess env 200 (UserData (user_ToResponse stored)) ''User updated successfully'' s3))"

definition DeleteMe :: "'s auth_handler \<Rightarrow> string option \<Rightarrow> 's \<Rightarrow> api_reply \<times> 's" where
  "DeleteMe h userID s =
     (let env = ah_env h in
      case userID of
        None \<Rightarrow> respondError env 401 ''Unauthorized'' [] s
      | Some ident \<Rightarrow>
          (case uq_delete (ah_users h) ident s of
             (Some e, s1) \<Rightarrow>
               if e = ErrUserNotFound then respondError env 404 ''User not found'' [] s1 else internal_error env s1
           | (None, s1) \<Rightarrow> respondSuccess env 200 NoData ''Account deleted successfully'' s1))"

subsection \<open>The router\<close>

text \<open>The requests of the routes, with their decoded bodies; the routes of \<open>/users\<close> are behind the middleware.\<close>

datatype api_call =
    CallSignup "string + signup_request" | CallLogin "string + login_request"
  | CallRefresh "string + refresh_request" | CallLogout "string + refresh_request"
  | CallGetMe | CallUpdateMe "string + update_request" | CallDeleteMe

definition protected ::
  "'s auth_handler \<Rightarrow> http_req \<Rightarrow> (string option \<Rightarrow> 's \<Rightarrow> api_reply \<times> 's) \<Rightarrow> 's \<Rightarrow> api_reply \<times> 's" where
  "protected h r handler s =
     (case AuthMiddleware (ah_env h) (ah_jwt h) r s of
        (Unauthorized message, s') \<Rightarrow> respondError (ah_env h) 401 message [] s'
      | (Authenticated claims, s') \<Rightarrow> handler (Some (uc_user_id claims)) s')"

fun serve :: "'s auth_handler \<Rightarrow> http_req \<Rightarrow> api_call \<Rightarrow> 's \<Rightarrow> api_reply \<times> 's" where
  "serve h r (CallSignup body) s = Signup h r body s"
| "serve h r (CallLogin body) s = Login h r body s"
| "serve h r (CallRefresh body) s = Refresh h body s"
| "serve h r (CallLogout body) s = Logout h body s"
| "serve h r CallGetMe s = protected h r (GetMe h) s"
| "serve h r (CallUpdateMe body) s = protected h r (\<lambda>u. UpdateMe h u body) s"
| "serve h r CallDeleteMe s = protected h r (DeleteMe h) s"

subsection \<open>PostgreSQL\<close>

definition on_db :: "(user_db \<Rightarrow> 'r \<times> user_db) \<Rightarrow> user_db \<times> 'w \<Rightarrow> 'r \<times> user_db \<times> 'w" where
  "on_db f = (\<lambda>(s, w). let (r, s') = f s in (r, s', w))"

definition on_world :: "('w \<Rightarrow> 'r \<times> 'w) \<Rightarrow> 'd \<times> 'w \<Rightarrow> 'r \<times> 'd \<times> 'w" where
  "on_world f = (\<lambda>(s, w). let (r, w') = f w in (r, s, w'))"

definition NewPostgresUserRepository :: "user_pg_env \<Rightarrow> (user_db \<times> 'w) user_repository" where
  "NewPostgresUserRepository env =
     \<lparr>uq_create = (\<lambda>u. on_db (CreateUser env u)), uq_by_id = (\<lambda>i. on_db (GetUserByID env i)),
      uq_by_email = (\<lambda>e. on_db (GetUserByEmail env e)), uq_update = (\<lambda>u. on_db (UpdateUser env u)),
      uq_delete = (\<lambda>i. on_db (DeleteUser env i)), uq_email_verified = (\<lambda>i v. on_db (UpdateEmailVerified env i v)),
      uq_password = (\<lambda>i p. on_db (UpdatePassword env i p))\<rparr>"

definition NewPostgresRefreshTokenRepository ::
  "user_pg_env \<Rightarrow> ('w \<Rightarrow> instant \<times> 'w) \<Rightarrow> (user_db \<times> 'w) token_repository" where
  "NewPostgresRefreshTokenRepository env clock =
     \<lparr>tq_create = (\<lambda>t. on_db (CreateRefreshToken env t)), tq_get = GetRefreshToken env clock,
      tq_by_hash = GetRefreshTokenByHash env clock, tq_user_tokens = (\<lambda>u. on_db (GetUserTokens env u)),
      tq_revoke = (\<lambda>i. on_db (user_RevokeToken env i)), tq_revoke_user = (\<lambda>u. on_db (RevokeUserTokens env u)),
      tq_delete_expired = DeleteExpiredTokens env clock\<rparr>"

text \<open>The handlers as \<open>main\<close> assembles them, with the token library and the hasher over the world beside the database.\<close>

definition lift_tokens :: "'w token_env \<Rightarrow> ('d \<times> 'w) token_env" where
  "lift_tokens env = \<lparr>tk_now = on_world (tk_now env), tk_rand = (\<lambda>n. on_world (tk_rand env n)),
     tk_sha256 = tk_sha256 env, tk_sign = tk_sign env, tk_decode = tk_decode env, tk_verify = tk_verify env,
     tk_check = tk_check env\<rparr>"

definition lift_hasher :: "'w password_env \<Rightarrow> argon2_params \<Rightarrow> ('d \<times> 'w) password_hasher" where
  "lift_hasher env p = \<lparr>pq_hash = (\<lambda>pw. on_world (Hash env p pw)), pq_verify = Verify env\<rparr>"

definition user_service ::
  "user_pg_env \<Rightarrow> 'w token_env \<Rightarrow> 'w password_env \<Rightarrow> jwt_manager \<Rightarrow> (string \<Rightarrow> bool) \<Rightarrow>
     ((string \<times> string) list \<Rightarrow> string) \<Rightarrow> (user_db \<times> 'w) auth_handler" where
  "user_service penv tenv henv m email_ok complaint =
     \<lparr>ah_users = NewPostgresUserRepository penv,
      ah_tokens = NewPostgresRefreshTokenRepository penv (tk_now tenv),
      ah_hasher = lift_hasher henv (NewArgon2Hasher (Some DefaultArgon2Params)),
      ah_env = lift_tokens tenv, ah_jwt = m, ah_email_ok = email_ok, ah_complaint = complaint\<rparr>"

subsection \<open>Replies\<close>

text \<open>A success carries a success status and a failure an error status.\<close>

fun reply_typed :: "api_reply \<Rightarrow> bool" where
  "reply_typed r = (case ay_body r of
     APIResponse d msg t \<Rightarrow> ay_status r \<in> {200, 201} \<and> (ay_status r = 201 \<longrightarrow> (\<exists>a. d = AuthData a))
   | ErrorResponse msg details t \<Rightarrow> ay_status r \<in> {400, 401, 404, 409, 500})"

lemma respond_typed [simp]:
  "reply_typed (fst (respondError env status message details s)) \<longleftrightarrow> status \<in> {400, 401, 404, 409, 500}"
  "reply_typed (fst (internal_error env s))"
  "reply_typed (fst (respondSuccess env status d message s)) \<longleftrightarrow>
     status \<in> {200, 201} \<and> (status = 201 \<longrightarrow> (\<exists>a. d = AuthData a))"
  by (simp_all add: respondError_def respondSuccess_def internal_error_def NewErrorResponse_def
      NewSuccessResponse_def split: prod.splits)

lemmas result_splits = option.splits sum.splits prod.splits if_splits

lemma issue_tokens_typed:
  "status \<in> {200, 201} \<Longrightarrow> reply_typed (fst (issue_tokens h r u status message s))"
  by (simp add: issue_tokens_def Let_def del: reply_typed.simps split: result_splits)

lemma update_email_typed: "update_email h ident new u s = (Inl reply, s') \<Longrightarrow> reply_typed reply"
  by (auto simp: update_email_def Let_def simp del: reply_typed.simps split: result_splits
      dest!: arg_cong [where f = fst and y = "(reply, _)", symmetric])


subsection \<open>What requests keep\<close>

text \<open>
  The contract of a store whose operations keep a fact about its state; the clock, the random source and the
  hasher run over the same state.
\<close>

locale account_store =
  fixes h :: "'s auth_handler" and fact :: "'s \<Rightarrow> bool"
  assumes keeps_users: "fact s \<Longrightarrow> fact (snd (uq_create (ah_users h) u s))"
      "fact s \<Longrightarrow> fact (snd (uq_by_id (ah_users h) i s))" "fact s \<Longrightarrow> fact (snd (uq_by_email (ah_users h) e s))"
      "fact s \<Longrightarrow> fact (snd (uq_update (ah_users h) u s))" "fact s \<Longrightarrow> fact (snd (uq_delete (ah_users h) i s))"
    and keeps_tokens: "fact s \<Longrightarrow> fact (snd (tq_create (ah_tokens h) t s))"
      "fact s \<Longrightarrow> fact (snd (tq_by_hash (ah_tokens h) k s))" "fact s \<Longrightarrow> fact (snd (tq_revoke (ah_tokens h) i s))"
    and keeps_world: "fact s \<Longrightarrow> fact (snd (tk_now (ah_env h) s))" "fact s \<Longrightarrow> fact (snd (tk_rand (ah_env h) n s))"
      "fact s \<Longrightarrow> fact (snd (pq_hash (ah_hasher h) pw s))"
begin

lemmas keeps = keeps_users keeps_tokens keeps_world
lemmas all_splits = option.split sum.split if_split

lemma keeps_replies:
  "fact s \<Longrightarrow> fact (snd (respondError (ah_env h) status message details s))"
  "fact s \<Longrightarrow> fact (snd (respondSuccess (ah_env h) status d message s))"
  "fact s \<Longrightarrow> fact (snd (internal_error (ah_env h) s))"
  by (simp_all add: respondError_def respondSuccess_def internal_error_def keeps case_prod_beta)

lemma keeps_access:
  "fact s \<Longrightarrow> fact (snd (GenerateAccessToken (ah_env h) m i e s))"
  "fact s \<Longrightarrow> fact (snd (GenerateRefreshToken (ah_env h) s))"
  by (simp_all add: GenerateAccessToken_def GenerateRefreshToken_def Let_def keeps case_prod_beta split: all_splits)

lemma keeps_auth: "fact s \<Longrightarrow> fact (snd (AuthMiddleware (ah_env h) m r s))"
  by (simp add: AuthMiddleware_def ValidateAccessToken_def Let_def keeps case_prod_beta
      split: all_splits claims_verdict.split token_error.split)

lemma keeps_issue: "fact s \<Longrightarrow> fact (snd (issue_tokens h r u status message s))"
  by (simp add: issue_tokens_def Let_def keeps keeps_access keeps_replies case_prod_beta split: all_splits)

lemma keeps_email: "fact s \<Longrightarrow> fact (snd (update_email h ident new u s))"
  by (simp add: update_email_def Let_def keeps keeps_replies case_prod_beta split: all_splits)

lemma keeps_auth_routes:
  "fact s \<Longrightarrow> fact (snd (Signup h r body s))" "fact s \<Longrightarrow> fact (snd (Login h r lbody s))"
  "fact s \<Longrightarrow> fact (snd (Refresh h rbody s))" "fact s \<Longrightarrow> fact (snd (Logout h rbody s))"
  by (simp_all add: Signup_def Login_def Refresh_def Logout_def Let_def keeps keeps_access keeps_replies keeps_issue
      case_prod_beta split: all_splits)

lemma keeps_user_routes:
  "fact s \<Longrightarrow> fact (snd (GetMe h user s))" "fact s \<Longrightarrow> fact (snd (UpdateMe h user ubody s))"
  "fact s \<Longrightarrow> fact (snd (DeleteMe h user s))"
  by (simp_all add: GetMe_def UpdateMe_def DeleteMe_def Let_def keeps keeps_replies keeps_email
      case_prod_beta split: all_splits)

text \<open>So a request of any route keeps the fact.\<close>

lemma keeps_serve: "fact s \<Longrightarrow> fact (snd (serve h r call s))"
  by (cases call) (simp_all add: protected_def keeps_auth_routes keeps_user_routes keeps_auth keeps_replies
      case_prod_beta split: auth_outcome.split)

end

text \<open>A history of the service: requests, and steps of the world that leave the database alone.\<close>

inductive api_step ::
  "(user_db \<times> 'w) auth_handler \<Rightarrow> user_db \<times> 'w \<Rightarrow> user_db \<times> 'w \<Rightarrow> bool" for h where
  Request: "serve h r call s = (reply, s') \<Longrightarrow> api_step h s s'"
| World: "api_step h (d, w) (d, w')"

text \<open>A fact about the database alone is kept along every history.\<close>

locale account_history = account_store h fact
  for h :: "(user_db \<times> 'w) auth_handler" and fact :: "user_db \<times> 'w \<Rightarrow> bool" +
  assumes only_db: "fact (d, w) \<Longrightarrow> fact (d, w')"
begin

lemma keeps_step: "api_step h s s' \<Longrightarrow> fact s \<Longrightarrow> fact s'"
proof (induction rule: api_step.induct)
  case (Request r call s reply s')
  then show ?case using keeps_serve [of s r call] by simp
next
  case (World d w w')
  then show ?case by (rule only_db)
qed

lemma keeps_history: "(api_step h)\<^sup>*\<^sup>* s s' \<Longrightarrow> fact s \<Longrightarrow> fact s'"
  by (induction rule: rtranclp_induct) (auto intro: keeps_step)

end

end
