(* ===== verification/User_Accounts.thy ===== *)
theory User_Accounts
  imports User_Handlers
begin

text \<open>
  The user service on its database: what the statements of the repositories keep, the invariant of the
  tables along every history of requests, and the properties of the accounts and their tokens.
\<close>

subsection \<open>Facts the statements keep\<close>

text \<open>
  The contract of a fact about the tables: reading a row, creating a user or a token, updating users without
  changing their keys, and revoking tokens keep it.  Then it is kept by the whole service.
\<close>

locale db_fact =
  fixes penv :: user_pg_env and tenv :: "'w token_env" and henv :: "'w password_env" and m :: jwt_manager
    and email_ok :: "string \<Rightarrow> bool" and complaint :: "(string \<times> string) list \<Rightarrow> string"
    and P :: "user_db \<Rightarrow> bool"
  assumes next_kept: "P s \<Longrightarrow> P (ud_next s)"
    and create_kept: "P s \<Longrightarrow> P (snd (insert_user penv u s))"
    and update_kept: "P s \<Longrightarrow> (\<And>u. us_id (assign u) = us_id u) \<Longrightarrow> P (snd (update_users penv args_ok ident assign s))"
    and token_kept: "P s \<Longrightarrow> P (snd (CreateRefreshToken penv t s))"
    and revoke_kept: "P s \<Longrightarrow> P (snd (revoke_where penv ident wh s))"
begin

lemma kept_users:
  "P s \<Longrightarrow> P (snd (CreateUser penv u s))" "P s \<Longrightarrow> P (snd (GetUserByID penv i s))"
  "P s \<Longrightarrow> P (snd (GetUserByEmail penv e s))" "P s \<Longrightarrow> P (snd (UpdateUser penv u s))"
  "P s \<Longrightarrow> P (snd (DeleteUser penv i s))"
  by (simp_all add: CreateUser_def GetUserByID_def GetUserByEmail_def UpdateUser_def DeleteUser_def Let_def
      case_prod_beta next_kept create_kept update_kept split: option.split)

lemma kept_tokens:
  "P s \<Longrightarrow> P (snd (user_RevokeToken penv i s))" "P s \<Longrightarrow> P (fst (snd (GetRefreshTokenByHash penv clock k (s, w))))"
  by (simp_all add: user_RevokeToken_def GetRefreshTokenByHash_def read_token_def Let_def case_prod_beta
      next_kept revoke_kept split: option.split)

end

lemma on_db_snd [simp]: "snd (on_db f sw) = (snd (f (fst sw)), snd sw)"
  by (simp add: on_db_def case_prod_beta Let_def)

lemma on_world_snd [simp]: "snd (on_world f sw) = (fst sw, snd (f (snd sw)))"
  by (simp add: on_world_def case_prod_beta Let_def)

lemma service_fields [simp]:
  "ah_users (user_service penv tenv henv m ok cp) = NewPostgresUserRepository penv"
  "ah_tokens (user_service penv tenv henv m ok cp) = NewPostgresRefreshTokenRepository penv (tk_now tenv)"
  "ah_hasher (user_service penv tenv henv m ok cp) = lift_hasher henv DefaultArgon2Params"
  "ah_env (user_service penv tenv henv m ok cp) = lift_tokens tenv"
  "ah_jwt (user_service penv tenv henv m ok cp) = m"
  "ah_email_ok (user_service penv tenv henv m ok cp) = ok"
  by (simp_all add: user_service_def NewArgon2Hasher_def)

sublocale db_fact \<subseteq> account_history "user_service penv tenv henv m email_ok complaint" "\<lambda>s. P (fst s)"
proof (unfold_locales, goal_cases)
  case (7 s k)
  then show ?case
    using kept_tokens(2) [of "fst s" "tk_now tenv" k "snd s"] by (simp add: NewPostgresRefreshTokenRepository_def)
qed (simp_all add: NewPostgresUserRepository_def NewPostgresRefreshTokenRepository_def lift_tokens_def lift_hasher_def
    kept_users kept_tokens token_kept)

subsection \<open>The invariant of the tables\<close>

text \<open>
  Keys and unique columns hold no value twice, every user passes the checks of its columns, every token belongs
  to a user, and identifiers are in the canonical form.
\<close>

definition canonical :: "user_pg_env \<Rightarrow> string \<Rightarrow> bool" where
  "canonical env i \<longleftrightarrow> pe_uuid_of env i = Some i"

definition user_tables_ok :: "user_pg_env \<Rightarrow> user_db \<Rightarrow> bool" where
  "user_tables_ok env s \<longleftrightarrow> users_ok env (ud_users s) \<and>
     distinct (map rt_id (ud_tokens s)) \<and> distinct (map rt_hash (ud_tokens s)) \<and>
     list_all (\<lambda>u. canonical env (us_id u)) (ud_users s) \<and>
     list_all (\<lambda>t. canonical env (rt_id t) \<and> rt_user t \<in> us_id ` set (ud_users s) \<and>
       rt_created_at t < rt_expires_at t) (ud_tokens s)"

text \<open>What \<open>gen_random_uuid()\<close> yields is in canonical form.\<close>

definition uuid_canonical :: "user_pg_env \<Rightarrow> bool" where
  "uuid_canonical env \<longleftrightarrow> (\<forall>n. canonical env (pe_uuid env n))"

lemma users_ok_distinct: "users_ok env us \<Longrightarrow> distinct (map us_id us)" "users_ok env us \<Longrightarrow> distinct (map us_email us)"
  by (simp_all add: users_ok_def)

lemma ud_next_tables [simp]:
  "ud_users (ud_next s) = ud_users s" "ud_tokens (ud_next s) = ud_tokens s"
  by (simp_all add: ud_next_def)

text \<open>An update changes no key and keeps the tokens; a revocation keeps everything but the revocation.\<close>

lemma update_users_cases:
  obtains (same) "ud_users (snd (update_users env ok ident assign s)) = ud_users s"
      "ud_tokens (snd (update_users env ok ident assign s)) = ud_tokens s"
    | (changed) key where "pe_uuid_of env ident = Some key" "fst (update_users env ok ident assign s) \<noteq> Some 0"
      "users_ok env (ud_users (snd (update_users env ok ident assign s)))"
      "ud_users (snd (update_users env ok ident assign s)) =
         map (\<lambda>u. if us_id u = key \<and> us_is_active u then (assign u)\<lparr>us_updated_at := pe_now env (ud_tick s)\<rparr> else u) (ud_users s)"
      "ud_tokens (snd (update_users env ok ident assign s)) = ud_tokens s"
      "(\<And>u. us_id (assign u) = us_id u) \<Longrightarrow>
         map us_id (ud_users (snd (update_users env ok ident assign s))) = map us_id (ud_users s)"
proof (cases "pe_uuid_of env ident")
  case None
  then show thesis by (intro same) (simp_all add: update_users_def Let_def)
next
  case (Some key)
  let ?hit = "\<lambda>u. us_id u = key \<and> us_is_active u"
  let ?new = "map (\<lambda>u. if ?hit u then (assign u)\<lparr>us_updated_at := pe_now env (ud_tick s)\<rparr> else u) (ud_users s)"
  show thesis
  proof (cases "\<not> pe_fail env (ud_tick s) \<and> ok \<and> list_ex ?hit (ud_users s) \<and> users_ok env ?new")
    case True
    then have u: "update_users env ok ident assign s =
        (Some (length (filter ?hit (ud_users s))), (ud_next s)\<lparr>ud_users := ?new\<rparr>)"
      using Some by (simp add: update_users_def Let_def)
    moreover have "filter ?hit (ud_users s) \<noteq> []" using True by (auto simp: filter_empty_conv list_ex_iff)
    ultimately show thesis using Some True by (intro changed [of key]) (auto simp: comp_def)
  next
    case False
    then show thesis using Some by (intro same) (auto simp: update_users_def Let_def)
  qed
qed

lemma insert_user_cases:
  obtains (same) "ud_users (snd (insert_user env u s)) = ud_users s" "ud_tokens (snd (insert_user env u s)) = ud_tokens s"
      "\<exists>e. fst (insert_user env u s) = Inl e"
    | (added) row where "fst (insert_user env u s) = Inr row" "us_id row = pe_uuid env (ud_tick s)"
      "us_email row = us_email u" "us_is_active row = us_is_active u" "us_password_hash row = us_password_hash u"
      "ud_users (snd (insert_user env u s)) = ud_users s @ [row]" "ud_tokens (snd (insert_user env u s)) = ud_tokens s"
      "user_fits env row" "email_format (us_email row)"
      "us_id row \<notin> us_id ` set (ud_users s)" "us_email row \<notin> us_email ` set (ud_users s)"
proof (cases "\<exists>e. fst (insert_user env u s) = Inl e")
  case True
  then show thesis by (intro same) (auto simp: insert_user_def Let_def split: if_splits)
next
  case False
  then show thesis
    by (intro added [of "List.last (ud_users (snd (insert_user env u s)))"])
      (auto simp: insert_user_def Let_def user_fits_def split: if_splits)
qed

lemma insert_token_cases:
  obtains (same) "ud_users (snd (CreateRefreshToken env t s)) = ud_users s"
      "ud_tokens (snd (CreateRefreshToken env t s)) = ud_tokens s" "\<exists>e. fst (CreateRefreshToken env t s) = Inl e"
    | (added) row ip where "\<exists>t'. fst (CreateRefreshToken env t s) = Inr t'" "rt_id row = pe_uuid env (ud_tick s)"
      "rt_hash row = rt_hash t" "rt_revoked_at row = None" "pe_uuid_of env (rt_user t) = Some (rt_user row)"
      "rt_expires_at row = to_micro (rt_expires_at t)" "pe_inet env (rt_ip_address t) = Some ip"
      "ud_tokens (snd (CreateRefreshToken env t s)) = ud_tokens s @ [row]"
      "ud_users (snd (CreateRefreshToken env t s)) = ud_users s"
      "rt_user row \<in> us_id ` set (ud_users s)" "rt_created_at row < rt_expires_at row"
      "rt_id row \<notin> rt_id ` set (ud_tokens s)" "rt_hash row \<notin> rt_hash ` set (ud_tokens s)"
proof (cases "\<exists>e. fst (CreateRefreshToken env t s) = Inl e")
  case True
  then show thesis by (intro same) (auto simp: CreateRefreshToken_def Let_def split: if_splits option.splits)
next
  case False
  then show thesis
    by (intro added [of "List.last (ud_tokens (snd (CreateRefreshToken env t s)))" "the (pe_inet env (rt_ip_address t))"])
      (auto simp: CreateRefreshToken_def Let_def split: if_splits option.splits)
qed

lemma revoke_where_tables:
  "ud_users (snd (revoke_where env ident wh s)) = ud_users s"
  "map rt_id (ud_tokens (snd (revoke_where env ident wh s))) = map rt_id (ud_tokens s)"
  "map rt_hash (ud_tokens (snd (revoke_where env ident wh s))) = map rt_hash (ud_tokens s)"
  by (auto simp: revoke_where_def Let_def split: option.splits)

lemma user_tables_next [simp]: "user_tables_ok env (ud_next s) = user_tables_ok env s"
  by (simp add: user_tables_ok_def)

lemma insert_user_ok:
  assumes "uuid_canonical env" "user_tables_ok env s"
  shows "user_tables_ok env (snd (insert_user env u s))"
proof (cases rule: insert_user_cases [of env u s])
  case same
  then show ?thesis using assms(2) by (simp add: user_tables_ok_def)
next
  case (added row)
  then show ?thesis
    using assms by (auto simp: user_tables_ok_def users_ok_def uuid_canonical_def list_all_iff)
qed

lemma update_users_ok:
  assumes "user_tables_ok env s" "\<And>u. us_id (assign u) = us_id u"
  shows "user_tables_ok env (snd (update_users env ok ident assign s))"
proof (cases rule: update_users_cases [of env ok ident assign s])
  case same
  then show ?thesis using assms(1) by (simp add: user_tables_ok_def)
next
  case (changed key)
  have ids: "us_id ` set (ud_users (snd (update_users env ok ident assign s))) = us_id ` set (ud_users s)"
    using changed(6) [OF assms(2)] by (metis list.set_map)
  have "canonical env (us_id u)" if "u \<in> set (ud_users (snd (update_users env ok ident assign s)))" for u
  proof -
    from that have "us_id u \<in> us_id ` set (ud_users s)" unfolding ids [symmetric] by (rule imageI)
    then show ?thesis using assms(1) by (auto simp: user_tables_ok_def list_all_iff)
  qed
  then have "list_all (\<lambda>u. canonical env (us_id u)) (ud_users (snd (update_users env ok ident assign s)))"
    by (simp add: list_all_iff)
  then show ?thesis using assms(1) changed(3,5) changed(6) [OF assms(2)] ids by (simp add: user_tables_ok_def)
qed

lemma insert_token_ok:
  assumes "uuid_canonical env" "user_tables_ok env s"
  shows "user_tables_ok env (snd (CreateRefreshToken env t s))"
proof (cases rule: insert_token_cases [of env t s])
  case same
  then show ?thesis using assms(2) by (simp add: user_tables_ok_def)
next
  case (added row ip)
  then show ?thesis
    using assms by (auto simp: user_tables_ok_def uuid_canonical_def)
qed

lemma revoke_where_ok:
  assumes "user_tables_ok env s"
  shows "user_tables_ok env (snd (revoke_where env ident wh s))"
proof -
  let ?ts = "ud_tokens (snd (revoke_where env ident wh s))"
  have "list_all (\<lambda>t. canonical env (rt_id t) \<and> rt_user t \<in> us_id ` set (ud_users s) \<and> rt_created_at t < rt_expires_at t) ?ts"
    using assms by (auto simp: user_tables_ok_def revoke_where_def Let_def list_all_iff split: option.splits)
  then show ?thesis using assms by (simp add: user_tables_ok_def revoke_where_tables)
qed

text \<open>The invariant, the revocation of a token, and the closing of an account are such facts.\<close>

definition token_revoked :: "string \<Rightarrow> user_db \<Rightarrow> bool" where
  "token_revoked hash s \<longleftrightarrow> distinct (map rt_hash (ud_tokens s)) \<and>
     (\<exists>t \<in> set (ud_tokens s). rt_hash t = hash \<and> rt_revoked_at t \<noteq> None)"

definition account_closed :: "string \<Rightarrow> string \<Rightarrow> user_db \<Rightarrow> bool" where
  "account_closed key email s \<longleftrightarrow> distinct (map us_id (ud_users s)) \<and> distinct (map us_email (ud_users s)) \<and>
     (\<exists>u \<in> set (ud_users s). us_id u = key \<and> us_email u = email \<and> \<not> us_is_active u)"

lemma revoke_where_keeps:
  "token_revoked hash s \<Longrightarrow> token_revoked hash (snd (revoke_where env ident wh s))"
proof -
  assume r: "token_revoked hash s"
  then obtain t where t: "t \<in> set (ud_tokens s)" "rt_hash t = hash" "rt_revoked_at t \<noteq> None"
    by (auto simp: token_revoked_def)
  then have "t \<in> set (ud_tokens (snd (revoke_where env ident wh s)))"
    by (auto simp: revoke_where_def Let_def image_iff split: option.splits)
  with t r show ?thesis by (auto simp: token_revoked_def revoke_where_tables)
qed

lemma closed_kept:
  assumes "account_closed key email s"
  shows "account_closed key email (snd (insert_user env u s))"
    and "(\<And>u. us_id (assign u) = us_id u) \<Longrightarrow> account_closed key email (snd (update_users env ok ident assign s))"
proof -
  show "account_closed key email (snd (insert_user env u s))"
    using assms by (cases rule: insert_user_cases [of env u s]) (auto simp: account_closed_def)
next
  assume a: "\<And>u. us_id (assign u) = us_id u"
  show "account_closed key email (snd (update_users env ok ident assign s))"
  proof (cases rule: update_users_cases [of env ok ident assign s])
    case (changed key')
    from assms obtain u where u: "u \<in> set (ud_users s)" "us_id u = key" "us_email u = email" "\<not> us_is_active u"
      by (auto simp: account_closed_def)
    then have "u \<in> set (ud_users (snd (update_users env ok ident assign s)))"
      unfolding changed(4) by (auto simp: image_iff)
    then show ?thesis using u users_ok_distinct [OF changed(3)] by (auto simp: account_closed_def)
  qed (use assms in \<open>simp add: account_closed_def\<close>)
qed

interpretation tables: db_fact penv tenv henv m email_ok complaint
    "\<lambda>s. uuid_canonical penv \<longrightarrow> user_tables_ok penv s"
  for penv :: user_pg_env and tenv :: "'w token_env" and henv :: "'w password_env" and m :: jwt_manager
    and email_ok :: "string \<Rightarrow> bool" and complaint :: "(string \<times> string) list \<Rightarrow> string"
  by unfold_locales (auto simp: insert_user_ok update_users_ok insert_token_ok revoke_where_ok)

interpretation revoked: db_fact penv tenv henv m email_ok complaint "token_revoked hash"
  for penv :: user_pg_env and tenv :: "'w token_env" and henv :: "'w password_env" and m :: jwt_manager
    and email_ok :: "string \<Rightarrow> bool" and complaint :: "(string \<times> string) list \<Rightarrow> string" and hash :: string
proof (unfold_locales, goal_cases)
  case (2 s u)
  then show ?case by (cases rule: insert_user_cases [of penv u s]) (auto simp: token_revoked_def)
next
  case (3 s assign args_ok ident)
  then show ?case by (cases rule: update_users_cases [of penv args_ok ident assign s]) (auto simp: token_revoked_def)
next
  case (4 s t)
  then show ?case by (cases rule: insert_token_cases [of penv t s]) (auto simp: token_revoked_def)
next
  case (5 s ident wh)
  then show ?case by (rule revoke_where_keeps)
qed (simp add: token_revoked_def)

interpretation closed: db_fact penv tenv henv m email_ok complaint "account_closed key email"
  for penv :: user_pg_env and tenv :: "'w token_env" and henv :: "'w password_env" and m :: jwt_manager
    and email_ok :: "string \<Rightarrow> bool" and complaint :: "(string \<times> string) list \<Rightarrow> string" and key email :: string
proof (unfold_locales, goal_cases)
  case (4 s t)
  then show ?case by (cases rule: insert_token_cases [of penv t s]) (auto simp: account_closed_def)
next
  case (5 s ident wh)
  then show ?case by (simp add: account_closed_def revoke_where_tables)
qed (simp_all add: closed_kept, simp add: account_closed_def)

subsection \<open>What the operations find\<close>

lemma find_unique:
  assumes "distinct (map f xs)" "x \<in> set xs" "\<And>y. wh y \<Longrightarrow> f y = f x" "wh x"
  shows "find wh xs = Some x"
proof -
  obtain y where y: "find wh xs = Some y" using assms(2,4) by (metis find_None_iff not_None_eq)
  then have "y \<in> set xs" "wh y" by (auto simp: find_Some_iff)
  then have "y = x" using assms(1,2,3) by (metis distinct_map inj_onD)
  with y show ?thesis by simp
qed

text \<open>A revoked token is never read.\<close>

lemma revoked_unreadable:
  assumes "token_revoked hash s" "GetRefreshTokenByHash env clock hash (s, w) = (r, sw)"
  shows "\<exists>e. r = Inl e"
proof -
  from assms(1) obtain t where t: "t \<in> set (ud_tokens s)" "rt_hash t = hash" "rt_revoked_at t \<noteq> None"
    and d: "distinct (map rt_hash (ud_tokens s))" by (auto simp: token_revoked_def)
  have f: "find (\<lambda>t. rt_hash t = hash) (ud_tokens s) = Some t"
    by (rule find_unique [OF d t(1)]) (simp_all add: t(2))
  have "IsRevoked t'" if "scan_token env t = Some t'" for t'
    using that t(3) by (auto simp: scan_token_def IsRevoked_def)
  then show ?thesis
    using assms(2) by (auto simp: GetRefreshTokenByHash_def read_token_def f Let_def split: if_splits option.splits prod.splits)
qed

text \<open>A read token is the live row of its hash, up to the form of its address.\<close>

lemma GetRefreshTokenByHash_Inr:
  assumes "GetRefreshTokenByHash env clock hash (s, w) = (Inr t, s', w')"
  shows "s' = ud_next s \<and> (\<exists>row \<in> set (ud_tokens s). scan_token env row = Some t \<and> rt_hash row = hash \<and>
     rt_revoked_at row = None \<and> (\<exists>now. clock w = (now, w') \<and> now \<le> rt_expires_at row))"
proof -
  obtain row where f: "find (\<lambda>t. rt_hash t = hash) (ud_tokens s) = Some row" "scan_token env row = Some t"
    and r: "\<not> IsExpired (fst (clock w)) t" "\<not> IsRevoked t" "s' = ud_next s" "snd (clock w) = w'"
    using assms by (auto simp: GetRefreshTokenByHash_def read_token_def Let_def split: if_splits option.splits prod.splits)
  have "row \<in> set (ud_tokens s)" "rt_hash row = hash" using f(1) by (auto simp: find_Some_iff)
  moreover have "rt_expires_at row = rt_expires_at t" "rt_revoked_at row = rt_revoked_at t"
    using f(2) by (auto simp: scan_token_def)
  ultimately show ?thesis using f(2) r
    by (auto simp: IsExpired_def IsRevoked_def intro!: bexI [of _ row] exI [of _ "fst (clock w)"])
qed

text \<open>Revoking the token that was read revokes its row.\<close>

lemma revoke_read_token:
  assumes "user_tables_ok env s" "row \<in> set (ud_tokens s)" "rt_revoked_at row = None"
    and "user_RevokeToken env (rt_id row) s = (None, s')"
  shows "token_revoked (rt_hash row) s'"
proof -
  have c: "pe_uuid_of env (rt_id row) = Some (rt_id row)" and d: "distinct (map rt_hash (ud_tokens s))"
    using assms(1,2) by (auto simp: user_tables_ok_def canonical_def list_all_iff)
  have "s' = snd (revoke_where env (rt_id row) (\<lambda>key t. rt_id t = key) s)"
    and live: "\<not> pe_fail env (ud_tick s)"
    using assms(4) by (auto simp: user_RevokeToken_def rows_affected_def revoke_where_def Let_def split: prod.splits if_splits)
  moreover from this have "row\<lparr>rt_revoked_at := Some (pe_now env (ud_tick s))\<rparr> \<in> set (ud_tokens s')"
    using assms(2,3) c by (auto simp: revoke_where_def image_iff)
  ultimately show ?thesis using d
    by (auto simp: token_revoked_def revoke_where_tables intro!: bexI [of _ "row\<lparr>rt_revoked_at := Some (pe_now env (ud_tick s))\<rparr>"])
qed

text \<open>A closed account is found by its address only, inactive, and never by its key.\<close>

lemma closed_lookups:
  assumes "account_closed key email s"
  shows "GetUserByEmail env email s = (r, s') \<Longrightarrow> (\<exists>e. r = Inl e \<and> e \<noteq> ErrUserNotFound) \<or> (\<exists>u. r = Inr u \<and> \<not> us_is_active u)"
    and "pe_uuid_of env ident = Some key \<Longrightarrow> GetUserByID env ident s = (r, s') \<Longrightarrow> \<exists>e. r = Inl e"
proof -
  from assms obtain u where u: "u \<in> set (ud_users s)" "us_id u = key" "us_email u = email" "\<not> us_is_active u"
    and d: "distinct (map us_id (ud_users s))" "distinct (map us_email (ud_users s))" by (auto simp: account_closed_def)
  have e: "find (\<lambda>u. us_email u = email) (ud_users s) = Some u"
    by (rule find_unique [OF d(2) u(1)]) (simp_all add: u(3))
  have "u' = u" if "u' \<in> set (ud_users s)" "us_id u' = key" for u'
    using that u(1,2) d(1) by (metis distinct_map inj_onD)
  then have i: "find (\<lambda>u. us_id u = key \<and> us_is_active u) (ud_users s) = None"
    using u(4) by (auto simp: find_None_iff)
  show "GetUserByEmail env email s = (r, s') \<Longrightarrow> (\<exists>e. r = Inl e \<and> e \<noteq> ErrUserNotFound) \<or> (\<exists>u. r = Inr u \<and> \<not> us_is_active u)"
    using u(4) by (auto simp: GetUserByEmail_def Let_def e split: if_splits)
  show "pe_uuid_of env ident = Some key \<Longrightarrow> GetUserByID env ident s = (r, s') \<Longrightarrow> \<exists>e. r = Inl e"
    by (auto simp: GetUserByID_def Let_def i split: if_splits)
qed

end
