(* ===== verification/User_Properties.thy ===== *)
theory User_Properties
  imports User_Accounts
begin

text \<open>
  The properties of the accounts of the user service: what a login does, that a logout and a deletion are
  final along every history of requests, and what goes wrong when the client's address cannot be
  stored.
\<close>

lemma respond_status [simp]:
  "ay_status (fst (respondError env status message details s)) = status"
  "ay_status (fst (respondSuccess env status d message s)) = status"
  "ay_status (fst (internal_error env s)) = 500"
  by (simp_all add: respondError_def respondSuccess_def internal_error_def case_prod_beta Let_def)

lemma HashRefreshToken_lift [simp]: "HashRefreshToken (lift_tokens env) tok = HashRefreshToken env tok"
  by (simp add: HashRefreshToken_def lift_tokens_def)

lemma respond_db [simp]:
  "fst (snd (respondError (lift_tokens env) status message details s)) = fst s"
  "fst (snd (respondSuccess (lift_tokens env) status d message s)) = fst s"
  "fst (snd (internal_error (lift_tokens env) s)) = fst s"
  by (simp_all add: respondError_def respondSuccess_def internal_error_def lift_tokens_def case_prod_beta Let_def)

lemmas postgres_repositories = NewPostgresUserRepository_def NewPostgresRefreshTokenRepository_def

text \<open>What the middleware, the hasher and the token library do not touch.\<close>

lemma validate_db: "fst (snd (ValidateAccessToken (lift_tokens env) m tok s)) = fst s"
  by (simp add: ValidateAccessToken_def lift_tokens_def Let_def case_prod_beta split: option.split)

lemma auth_db [simp]: "fst (snd (AuthMiddleware (lift_tokens env) m r s)) = fst s"
proof -
  obtain scheme opt where sp: "split_space (hq_header r ''Authorization'') = (scheme, opt)" by (rule prod.exhaust)
  show ?thesis
  proof (cases opt)
    case (Some tok)
    obtain v d w where v: "ValidateAccessToken (lift_tokens env) m tok s = (v, d, w)" by (rule prod_cases3)
    then have "d = fst s" using validate_db [of env m tok s] by simp
    then show ?thesis by (simp add: AuthMiddleware_def Let_def sp Some v split: sum.split token_error.split)
  qed (simp add: AuthMiddleware_def Let_def sp)
qed

subsection \<open>Logout\<close>

lemma Logout_revokes:
  assumes h: "h = user_service penv tenv henv m email_ok complaint"
    and ok: "user_tables_ok penv (fst s)" and row: "row \<in> set (ud_tokens (fst s))"
    and hash: "rt_hash row = HashRefreshToken tenv (rr_refresh_token req)"
    and out: "ay_status (fst (Logout h (Inr req) s)) = 200"
  shows "token_revoked (rt_hash row) (fst (snd (Logout h (Inr req) s)))"
proof -
  obtain d w where s: "s = (d, w)" by (cases s)
  obtain r d1 w1 where g: "GetRefreshTokenByHash penv (tk_now tenv) (rt_hash row) (d, w) = (r, d1, w1)"
    by (metis prod_cases3)
  have f: "find (\<lambda>t. rt_hash t = rt_hash row) (ud_tokens d) = Some row"
    using ok row by (intro find_unique [where f = rt_hash]) (auto simp: user_tables_ok_def s)
  have "r \<noteq> Inl ErrRefreshTokenNotFound"
    using g by (auto simp: GetRefreshTokenByHash_def read_token_def Let_def f split: if_splits option.splits prod.splits)
  with out g obtain t where r: "r = Inr t"
    by (cases r) (auto simp: Logout_def h s hash Let_def postgres_repositories split: if_splits)
  from GetRefreshTokenByHash_Inr [OF g [unfolded r]] obtain row' where
    t: "d1 = ud_next d" "row' \<in> set (ud_tokens d)" "scan_token penv row' = Some t" "rt_hash row' = rt_hash row"
      "rt_revoked_at row' = None" by blast
  have id: "rt_id t = rt_id row'" using t(3) by (auto simp: scan_token_def)
  obtain e d2 where v: "user_RevokeToken penv (rt_id row') d1 = (e, d2)" by (rule prod.exhaust)
  have e: "e = None" using out g r v id
    by (cases e) (simp_all add: Logout_def h s hash Let_def postgres_repositories on_db_def)
  have "token_revoked (rt_hash row') d2"
    using ok t v e by (intro revoke_read_token [where s = d1]) (simp_all add: s)
  then show ?thesis using g r v id e t(4)
    by (simp add: Logout_def h s hash Let_def postgres_repositories on_db_def)
qed

text \<open>
  C27. A logout is final.  Once a logout with a token of the database has succeeded, no refresh with that token
  succeeds again, after whatever requests of whatever clients, failures of the database and steps of
  the world.
\<close>

theorem logout_is_final:
  assumes "h = user_service penv tenv henv m email_ok complaint" and "user_tables_ok penv (fst s)"
    and "row \<in> set (ud_tokens (fst s))" "rt_hash row = HashRefreshToken tenv (rr_refresh_token req)"
    and "serve h r (CallLogout (Inr req)) s = (reply, s1)" and "ay_status reply = 200"
    and "(api_step h)\<^sup>*\<^sup>* s1 s2" and "serve h r' (CallRefresh (Inr req)) s2 = (reply', s3)"
  shows "ay_status reply' \<in> {400, 401, 500}"
proof -
  have "token_revoked (rt_hash row) (fst s1)"
    using Logout_revokes [OF assms(1-4)] assms(5,6) by simp
  then have rev: "token_revoked (rt_hash row) (fst s2)"
    using revoked.keeps_history [OF assms(7) [unfolded assms(1)]] by simp
  obtain d w where s2: "s2 = (d, w)" by (cases s2)
  obtain x sw where g: "GetRefreshTokenByHash penv (tk_now tenv) (rt_hash row) (d, w) = (x, sw)"
    by (rule prod.exhaust)
  from revoked_unreadable [OF _ g] rev s2 obtain e where "x = Inl e" by auto
  then have "ay_status (fst (Refresh h (Inr req) s2)) \<in> {400, 401, 500}"
    using g by (simp add: Refresh_def assms(1) s2 assms(4) Let_def postgres_repositories)
  then show ?thesis using assms(8) by simp
qed

subsection \<open>Deletion\<close>

lemma DeleteUser_closes:
  assumes "user_tables_ok env s" "DeleteUser env ident s = (None, s')"
  shows "\<exists>u \<in> set (ud_users s). us_is_active u \<and> pe_uuid_of env ident = Some (us_id u) \<and>
     account_closed (us_id u) (us_email u) s'"
proof -
  let ?f = "\<lambda>row. row\<lparr>us_is_active := False\<rparr>"
  have s': "s' = snd (update_users env True ident ?f s)"
    and r: "rows_affected ''failed to delete user'' ErrUserNotFound (fst (update_users env True ident ?f s)) = None"
    using assms(2) by (auto simp: DeleteUser_def Let_def split: prod.splits)
  obtain key where k: "pe_uuid_of env ident = Some key" "list_ex (\<lambda>u. us_id u = key \<and> us_is_active u) (ud_users s)"
      "users_ok env (ud_users s')"
      "ud_users s' = map (\<lambda>u. if us_id u = key \<and> us_is_active u then (?f u)\<lparr>us_updated_at := pe_now env (ud_tick s)\<rparr> else u) (ud_users s)"
    using r unfolding s' by (auto simp: update_users_def rows_affected_def Let_def split: if_splits option.splits)
  then obtain u where u: "u \<in> set (ud_users s)" "us_id u = key" "us_is_active u" by (auto simp: list_ex_iff)
  then have "(?f u)\<lparr>us_updated_at := pe_now env (ud_tick s)\<rparr> \<in> set (ud_users s')" unfolding k(4) by (auto simp: image_iff)
  then have "account_closed (us_id u) (us_email u) s'"
    using users_ok_distinct [OF k(3)] unfolding account_closed_def
    by (intro conjI bexI [of _ "(?f u)\<lparr>us_updated_at := pe_now env (ud_tick s)\<rparr>"]) auto
  with u k(1) show ?thesis by auto
qed

text \<open>
  What a closed account means for the handlers: no login under its address, no profile, and no access token
  for a refresh token of its owner.
\<close>

lemma closed_no_login:
  assumes "h = user_service penv tenv henv m email_ok complaint" and "account_closed key email (fst s)"
    and "lr_email login = email"
  shows "ay_status (fst (Login h r (Inr login) s)) \<in> {401, 500}"
proof -
  obtain x d where g: "GetUserByEmail penv email (fst s) = (x, d)" by (rule prod.exhaust)
  from closed_lookups(1) [OF assms(2) g] show ?thesis
    by (auto simp: Login_def assms(1,3) Let_def postgres_repositories on_db_def g validate_login_def case_prod_beta)
qed

lemma closed_not_found:
  assumes "account_closed key email d" and "pe_uuid_of penv ident = Some key"
  shows "\<exists>e d'. GetUserByID penv ident d = (Inl e, d')"
  using closed_lookups(2) [OF assms surjective_pairing] by (metis surjective_pairing)

lemma closed_no_profile:
  assumes "h = user_service penv tenv henv m email_ok complaint" and "account_closed key email (fst s)"
    and "pe_uuid_of penv ident = Some key"
  shows "ay_status (fst (GetMe h (Some ident) s)) \<in> {404, 500}"
  using closed_not_found [OF assms(2,3)]
  by (cases s) (auto simp: GetMe_def assms(1) Let_def postgres_repositories on_db_def split: if_splits)

lemma closed_no_refresh:
  assumes "h = user_service penv tenv henv m email_ok complaint" and "account_closed key email (fst s)"
    and "tq_by_hash (ah_tokens h) (HashRefreshToken (ah_env h) (rr_refresh_token req)) s = (Inr t, s3)"
    and "pe_uuid_of penv (rt_user t) = Some key"
  shows "ay_status (fst (Refresh h (Inr req) s)) \<in> {400, 401, 500}"
proof -
  have g: "GetRefreshTokenByHash penv (tk_now tenv) (HashRefreshToken tenv (rr_refresh_token req)) (fst s, snd s) =
      (Inr t, fst s3, snd s3)" using assms(3) by (simp add: assms(1) postgres_repositories)
  have "account_closed key email (fst s3)"
    using GetRefreshTokenByHash_Inr [OF g] assms(2) closed.next_kept by simp
  from closed_not_found [OF this assms(4)] assms(3) show ?thesis
    by (auto simp: Refresh_def assms(1) Let_def postgres_repositories on_db_def case_prod_beta split: if_splits)
qed

text \<open>
  A deletion that is answered with success: the caller was authenticated, and an active user with its identifier
  is now closed.
\<close>

lemma delete_me_closes:
  assumes "h = user_service penv tenv henv m email_ok complaint" and "user_tables_ok penv (fst s)"
    and "serve h r CallDeleteMe s = (reply, s1)" and "ay_status reply = 200"
  shows "\<exists>u claims. u \<in> set (ud_users (fst s)) \<and> us_is_active u \<and>
     fst (AuthMiddleware (ah_env h) m r s) = Authenticated claims \<and>
     pe_uuid_of penv (uc_user_id claims) = Some (us_id u) \<and> account_closed (us_id u) (us_email u) (fst s1)"
proof -
  obtain out d w where a: "AuthMiddleware (lift_tokens tenv) m r s = (out, d, w)" by (metis prod_cases3)
  then have d: "d = fst s" using auth_db [of tenv m r s] by simp
  have st: "ay_status (fst (serve h r CallDeleteMe s)) = 200" "fst s1 = fst (snd (serve h r CallDeleteMe s))"
    using assms(3,4) by simp_all
  obtain claims where c: "out = Authenticated claims"
  proof (cases out)
    case (Unauthorized message)
    then show ?thesis using st(1) by (simp add: protected_def assms(1) a)
  qed
  have sv: "serve h r CallDeleteMe s = DeleteMe h (Some (uc_user_id claims)) (d, w)"
    by (simp add: protected_def assms(1) a c)
  obtain e d' where e: "DeleteUser penv (uc_user_id claims) d = (e, d')" by (rule prod.exhaust)
  have e0: "e = None" using st(1) e unfolding sv
    by (cases e) (simp_all add: DeleteMe_def assms(1) Let_def postgres_repositories on_db_def split: if_splits)
  have del: "DeleteUser penv (uc_user_id claims) d = (None, fst s1)"
    using st(2) e e0 unfolding sv by (simp add: DeleteMe_def assms(1) Let_def postgres_repositories on_db_def)
  have "fst (AuthMiddleware (ah_env h) m r s) = Authenticated claims" using a c by (simp add: assms(1))
  with DeleteUser_closes [OF _ del] assms(2) d show ?thesis by auto
qed

text \<open>
  C28. A deleted account stays deleted.  When a caller's deletion has succeeded there was an active user with the
  caller's identifier, and after it, along every history, nobody logs in under its address, its owner's
  profile is not served to any token, and no refresh token of it yields an access token.
\<close>

theorem deletion_is_final:
  assumes "h = user_service penv tenv henv m email_ok complaint" and "user_tables_ok penv (fst s)"
    and "serve h r CallDeleteMe s = (reply, s1)" and "ay_status reply = 200"
  shows "\<exists>u claims. u \<in> set (ud_users (fst s)) \<and> us_is_active u \<and>
     fst (AuthMiddleware (ah_env h) m r s) = Authenticated claims \<and>
     pe_uuid_of penv (uc_user_id claims) = Some (us_id u) \<and>
     (\<forall>s2 r' login ident refresh t s3. (api_step h)\<^sup>*\<^sup>* s1 s2 \<longrightarrow>
        (lr_email login = us_email u \<longrightarrow> ay_status (fst (serve h r' (CallLogin (Inr login)) s2)) \<in> {401, 500}) \<and>
        (pe_uuid_of penv ident = Some (us_id u) \<longrightarrow> ay_status (fst (GetMe h (Some ident) s2)) \<in> {404, 500}) \<and>
        (tq_by_hash (ah_tokens h) (HashRefreshToken (ah_env h) (rr_refresh_token refresh)) s2 = (Inr t, s3) \<longrightarrow>
           pe_uuid_of penv (rt_user t) = Some (us_id u) \<longrightarrow>
           ay_status (fst (serve h r' (CallRefresh (Inr refresh)) s2)) \<in> {400, 401, 500}))"
proof -
  from delete_me_closes [OF assms] obtain u claims where u: "u \<in> set (ud_users (fst s))" "us_is_active u"
    "fst (AuthMiddleware (ah_env h) m r s) = Authenticated claims" "pe_uuid_of penv (uc_user_id claims) = Some (us_id u)"
    "account_closed (us_id u) (us_email u) (fst s1)" by blast
  have closed: "account_closed (us_id u) (us_email u) (fst s2)" if "(api_step h)\<^sup>*\<^sup>* s1 s2" for s2
    using closed.keeps_history [OF that [unfolded assms(1)]] u(5) by simp
  show ?thesis
    by (intro exI [of _ u] exI [of _ claims] conjI allI impI u(1-4), unfold serve.simps)
      (rule closed_no_login [OF assms(1) closed] closed_no_profile [OF assms(1) closed]
         closed_no_refresh [OF assms(1) closed], assumption+)+
qed

subsection \<open>Login\<close>

lemma GenerateRefreshToken_hash:
  "GenerateRefreshToken env s = (Inr (tok, hash), s') \<Longrightarrow> hash = HashRefreshToken env tok"
  by (auto simp: GenerateRefreshToken_def HashRefreshToken_def Let_def split: option.splits prod.splits)

text \<open>
  The end of a signup or login: either both tokens are issued and the row of the refresh token is there, or
  the reply is an internal error and no table has changed.
\<close>

lemma issue_tokens_effects:
  assumes h: "h = user_service penv tenv henv m email_ok complaint"
    and i: "issue_tokens h r u status message s = (reply, s')"
  shows "ud_users (fst s') = ud_users (fst s) \<and>
    ((\<exists>a msg t now row ip. reply = \<lparr>ay_status = status, ay_body = APIResponse (AuthData a) msg t\<rparr> \<and>
        ar_user a = user_ToResponse u \<and>
        tk_sign tenv (jm_access_secret m) (access_claims m (us_id u) (us_email u) now) = Some (ar_access_token a) \<and>
        ud_tokens (fst s') = ud_tokens (fst s) @ [row] \<and> rt_hash row = HashRefreshToken tenv (ar_refresh_token a) \<and>
        pe_uuid_of penv (us_id u) = Some (rt_user row) \<and> rt_revoked_at row = None \<and> pe_inet penv (ah_getClientIP r) = Some ip) \<or>
     ay_status reply = 500 \<and> ud_tokens (fst s') = ud_tokens (fst s))"
proof -
  let ?env = "lift_tokens tenv :: (user_db \<times> _) token_env"
  obtain now s1 where n: "tk_now ?env s = (now, s1)" by (rule prod.exhaust)
  then have d1: "fst s1 = fst s" by (auto simp: lift_tokens_def on_world_def Let_def split: prod.splits)
  have sign: "tk_sign ?env = tk_sign tenv" by (simp add: lift_tokens_def)
  show ?thesis
  proof (cases "tk_sign tenv (jm_access_secret m) (access_claims m (us_id u) (us_email u) now)")
    case None
    then show ?thesis using i d1
      by (auto simp: issue_tokens_def h GenerateAccessToken_def n sign Let_def dest!: arg_cong [where f = "\<lambda>x. (ay_status (fst x), fst (snd x))"])
  next
    case (Some access)
    obtain g s2 where g: "GenerateRefreshToken ?env s1 = (g, s2)" by (rule prod.exhaust)
    then have d2: "fst s2 = fst s" using d1
      by (auto simp: GenerateRefreshToken_def lift_tokens_def on_world_def Let_def split: prod.splits option.splits)
    show ?thesis
    proof (cases g)
      case (Inl e)
      then show ?thesis using i d2
        by (auto simp: issue_tokens_def h GenerateAccessToken_def n sign Some g Let_def dest!: arg_cong [where f = "\<lambda>x. (ay_status (fst x), fst (snd x))"])
    next
      case (Inr th)
      obtain tok hash where th: "th = (tok, hash)" by (rule prod.exhaust)
      obtain now' s3 where n': "tk_now ?env s2 = (now', s3)" by (rule prod.exhaust)
      then have d3: "fst s3 = fst s" using d2 by (auto simp: lift_tokens_def on_world_def Let_def split: prod.splits)
      define t where "t = \<lparr>rt_id = [], rt_user = us_id u, rt_hash = hash, rt_expires_at = now' + jm_refresh_ttl m,
         rt_created_at = zero_time, rt_revoked_at = None, rt_ip_address = ah_getClientIP r,
         rt_user_agent = hq_header r ''User-Agent''\<rparr>"
      have hash: "hash = HashRefreshToken tenv tok" using GenerateRefreshToken_hash [of ?env s1 tok hash s2] g Inr th by simp
      have run: "issue_tokens h r u status message s = (case tq_create (ah_tokens h) t s3 of
            (Inl _, s4) \<Rightarrow> internal_error ?env s4
          | (Inr _, s4) \<Rightarrow> respondSuccess ?env status (AuthData \<lparr>ar_access_token = access, ar_refresh_token = tok,
               ar_token_type = ''Bearer'', ar_expires_in = GetAccessTTLSeconds m, ar_user = user_ToResponse u\<rparr>) message s4)"
        by (simp add: issue_tokens_def h GenerateAccessToken_def n sign Some g Inr th n' Let_def t_def)
      have create: "tq_create (ah_tokens h) t s3 = (fst (CreateRefreshToken penv t (fst s)), snd (CreateRefreshToken penv t (fst s)), snd s3)"
        by (simp add: h postgres_repositories on_db_def case_prod_beta Let_def d3)
      show ?thesis
      proof (cases rule: insert_token_cases [of penv t "fst s"])
        case same
        then obtain e where e: "fst (CreateRefreshToken penv t (fst s)) = Inl e" by blast
        have "reply = fst (internal_error ?env (snd (CreateRefreshToken penv t (fst s)), snd s3))"
          "fst s' = snd (CreateRefreshToken penv t (fst s))"
          using i unfolding run create by (auto simp: e dest!: arg_cong [where f = "\<lambda>x. (fst x, fst (snd x))"])
        then show ?thesis using same by simp
      next
        case (added row ip)
        then obtain t' where e: "fst (CreateRefreshToken penv t (fst s)) = Inr t'" by blast
        define a where "a = \<lparr>ar_access_token = access, ar_refresh_token = tok,
               ar_token_type = ''Bearer'', ar_expires_in = GetAccessTTLSeconds m, ar_user = user_ToResponse u\<rparr>"
        have r: "respondSuccess ?env status (AuthData a) message (snd (CreateRefreshToken penv t (fst s)), snd s3) = (reply, s')"
          using i unfolding run create by (simp add: e a_def)
        then have "fst s' = snd (CreateRefreshToken penv t (fst s))" by (auto dest!: arg_cong [where f = "fst \<circ> snd"])
        moreover obtain time where "reply = \<lparr>ay_status = status, ay_body = APIResponse (AuthData a) message time\<rparr>"
          using r by (auto simp: respondSuccess_def NewSuccessResponse_def Let_def split: prod.splits)
        ultimately show ?thesis using added Some hash by (fastforce simp: a_def t_def)
      qed
    qed
  qed
qed


text \<open>
  Without an address PostgreSQL understands, signup strands the account.  \<open>X-Forwarded-For\<close> with a list, or no
  proxy header and a remote address with its port, is no \<open>INET\<close>: a signup that creates the account
  still answers 500, so the address is taken, and no login from there succeeds.
\<close>

theorem signup_strands_account:
  assumes "h = user_service penv tenv henv m email_ok complaint"
    and "pe_inet penv (ah_getClientIP r) = None"
    and "serve h r (CallSignup (Inr req)) s = (reply, s1)" and "ud_users (fst s1) \<noteq> ud_users (fst s)"
  shows "ay_status reply = 500 \<and> sr_email req \<in> us_email ` set (ud_users (fst s1)) \<and>
     (\<forall>login s2. ay_status (fst (serve h r (CallLogin (Inr login)) s2)) \<noteq> 200)"
proof -
  have no_tokens: "ay_status (fst (issue_tokens h r u status message s2)) = 500" for u status message s2
    using issue_tokens_effects [OF assms(1) surjective_pairing, of r u status message s2] assms(2) by auto
  have login: "ay_status (fst (Login h r (Inr login) s2)) \<noteq> 200" for login s2
    by (auto simp: Login_def Let_def no_tokens case_prod_beta split: sum.split option.split)
  have st: "ay_status (fst (Signup h r (Inr req) s)) = ay_status reply" "fst (snd (Signup h r (Inr req) s)) = fst s1"
    using assms(3) by simp_all
  obtain x d w where g: "uq_by_email (ah_users h) (sr_email req) s = (x, d, w)" by (rule prod_cases3)
  then have d: "ud_users d = ud_users (fst s)"
    by (auto simp: assms(1) postgres_repositories on_db_def GetUserByEmail_def Let_def split: prod.splits if_splits option.splits)
  obtain y d2 w2 where p: "pq_hash (ah_hasher h) (sr_password req) (d, w) = (y, d2, w2)" by (rule prod_cases3)
  then have d2: "d2 = d" by (auto simp: assms(1) lift_hasher_def on_world_def Let_def split: prod.splits)
  have same: "fst (snd (respondError (ah_env h) status message details s')) = fst s'"
      "fst (snd (internal_error (ah_env h) s')) = fst s'" for status message details s'
    by (simp_all add: assms(1))
  have x: "x = Inl ErrUserNotFound" and valid: "validate_signup (ah_email_ok h) req = []"
      "ValidatePasswordStrength (sr_password req) = None"
    using assms(4) unfolding st(2) [symmetric]
    by (auto simp: Signup_def Let_def g d same split: if_splits sum.splits option.splits)
  obtain hash where y: "y = Inr hash"
    using assms(4) unfolding st(2) [symmetric]
    by (cases y) (auto simp: Signup_def Let_def g x valid p d d2 same)
  define u where "u = \<lparr>us_id = [], us_email = sr_email req, us_password_hash = hash, us_name = sr_name req,
     us_is_active = True, us_email_verified = False, us_created_at = zero_time, us_updated_at = zero_time\<rparr>"
  have create: "uq_create (ah_users h) u (d, w2) = (fst (CreateUser penv u d), snd (insert_user penv u d), w2)"
    by (simp add: assms(1) postgres_repositories on_db_def CreateUser_def case_prod_beta Let_def)
  have run: "Signup h r (Inr req) s = (case uq_create (ah_users h) u (d, w2) of
       (Inl e, s3) \<Rightarrow> if e = ErrUserAlreadyExists then respondError (ah_env h) 409 ''User already exists'' [] s3
                        else internal_error (ah_env h) s3
     | (Inr u, s3) \<Rightarrow> issue_tokens h r u 201 ''User registered successfully'' s3)"
    by (simp add: Signup_def Let_def g x valid p y d2 u_def)
  have "ay_status reply = 500 \<and> sr_email req \<in> us_email ` set (ud_users (fst s1))"
  proof (cases rule: insert_user_cases [of penv u d])
    case same': same
    then have "\<exists>e. fst (CreateUser penv u d) = Inl e" by (auto simp: CreateUser_def Let_def case_prod_beta)
    then obtain e where "fst (CreateUser penv u d) = Inl e" ..
    then have "ud_users (fst (snd (Signup h r (Inr req) s))) = ud_users (fst s)"
      using same' by (simp add: run create same d)
    with assms(4) st(2) show ?thesis by simp
  next
    case (added row)
    then have "fst (CreateUser penv u d) = Inr row" by (simp add: CreateUser_def Let_def case_prod_beta)
    then have issued: "Signup h r (Inr req) s =
        issue_tokens h r row 201 ''User registered successfully'' (snd (insert_user penv u d), w2)"
      by (simp add: run create)
    then have "ud_users (fst s1) = ud_users d @ [row]"
      using issue_tokens_effects [OF assms(1) surjective_pairing, of r row 201 "''User registered successfully''"
          "(snd (insert_user penv u d), w2)"] added(6) st(2) by simp
    then show ?thesis using st(1) issued no_tokens added(3) by (simp add: u_def)
  qed
  then show ?thesis using login by simp
qed

subsection \<open>Concrete runs\<close>

text \<open>A database that never fails, with one user and one live token, and a clock that counts seconds.\<close>

definition sample_user_pg :: user_pg_env where
  "sample_user_pg = \<lparr>pe_fail = (\<lambda>n. False), pe_rows_fail = (\<lambda>n. False), pe_now = (\<lambda>n. int n * Second),
     pe_uuid = (\<lambda>n. CHR ''n'' # nat_str n), pe_audit_uuid = (\<lambda>n. CHR ''a'' # nat_str n), pe_uuid_of = Some,
     pe_numeric = Some, pe_varchar = (\<lambda>n s. True), pe_text = (\<lambda>s. True), pe_failure_text = (\<lambda>n. ''closed''),
     pe_inet = (\<lambda>s. if CHR '':'' \<in> set s then None else Some s), pe_inet_scan = Some\<rparr>"

definition open_hasher :: "'w password_env" where
  "open_hasher = \<lparr>ph_rand = (\<lambda>n w. (Some (replicate n CHR ''s''), w)), ph_id_key = (\<lambda>pw salt t m p n. Some pw)\<rparr>"

definition sample_user :: user where
  "sample_user = \<lparr>us_id = ''u1'', us_email = ''a@b.kr'', us_password_hash = encode_hash DefaultArgon2Params ''salt'' ''Passw0rd'',
     us_name = ''Kim'', us_is_active = True, us_email_verified = False, us_created_at = 0, us_updated_at = 0\<rparr>"

definition sample_token :: refresh_token where
  "sample_token = \<lparr>rt_id = ''t1'', rt_user = ''u1'', rt_hash = HashRefreshToken sample_tokens ''tok'',
     rt_expires_at = 1000 * Second, rt_created_at = 0, rt_revoked_at = None, rt_ip_address = ''10.0.0.1'',
     rt_user_agent = ''curl''\<rparr>"

definition sample_user_db :: user_db where
  "sample_user_db = \<lparr>ud_tick = 0, ud_users = [sample_user], ud_tokens = [sample_token], ud_keys = [], ud_audit = []\<rparr>"

definition sample_service :: "(user_db \<times> int) auth_handler" where
  "sample_service = user_service sample_user_pg sample_tokens open_hasher sample_manager (\<lambda>e. True) (\<lambda>cs. concat (map fst cs))"

lemma sample_db_ok: "user_tables_ok sample_user_pg sample_user_db"
  by (simp add: user_tables_ok_def users_ok_def user_fits_def sample_user_db_def sample_user_def sample_token_def
      canonical_def sample_user_pg_def email_format_def last_index_def is_letter_def is_digit_def ascii_lower_def Let_def
      time_units)

lemma sample_service_fields [simp]:
  "ah_users sample_service = NewPostgresUserRepository sample_user_pg"
  "ah_tokens sample_service = NewPostgresRefreshTokenRepository sample_user_pg (tk_now sample_tokens)"
  "ah_hasher sample_service = lift_hasher open_hasher DefaultArgon2Params"
  "ah_env sample_service = lift_tokens sample_tokens" "ah_jwt sample_service = sample_manager"
  by (simp_all add: sample_service_def)

definition sample_refresh :: refresh_request where
  "sample_refresh = \<lparr>rr_refresh_token = ''tok''\<rparr>"

lemma sample_now [simp]: "tk_now (lift_tokens sample_tokens) (d, w) = (w * Second, d, w + 1)"
  by (simp add: lift_tokens_def on_world_def sample_tokens_def)

lemma sample_clock [simp]: "tk_now sample_tokens w = (w * Second, w + 1)"
  by (simp add: sample_tokens_def)

lemma sample_logout: "ay_status (fst (serve sample_service sample_bearer (CallLogout (Inr sample_refresh)) (sample_user_db, 1))) = 200"
  by (simp add: Logout_def Let_def postgres_repositories GetRefreshTokenByHash_def read_token_def sample_user_db_def
      sample_token_def sample_refresh_def sample_user_pg_def scan_token_def IsExpired_def IsRevoked_def on_db_def
      user_RevokeToken_def revoke_where_def rows_affected_def ud_next_def time_units)

theorem logout_is_final_witness:
  "ay_status (fst (serve sample_service sample_bearer (CallRefresh (Inr sample_refresh))
     (snd (serve sample_service sample_bearer (CallLogout (Inr sample_refresh)) (sample_user_db, 1))))) \<in> {400, 401, 500}"
proof -
  have row: "sample_token \<in> set (ud_tokens (fst (sample_user_db, 1 :: int)))" by (simp add: sample_user_db_def)
  have hash: "rt_hash sample_token = HashRefreshToken sample_tokens (rr_refresh_token sample_refresh)"
    by (simp add: sample_token_def sample_refresh_def)
  show ?thesis
    by (rule logout_is_final [OF sample_service_def _ row hash surjective_pairing sample_logout rtranclp.rtrancl_refl
          surjective_pairing]) (simp add: sample_db_ok)
qed

lemma sample_auth:
  "AuthMiddleware (lift_tokens sample_tokens) sample_manager sample_bearer (d, 1) = (Authenticated sample_claims, d, 2)"
  by (simp add: AuthMiddleware_def ValidateAccessToken_def lift_tokens_def on_world_def sample_tokens_def sample_bearer_def
      sample_manager_def sample_claims_def access_claims_def numeric_date_def time_units)

lemma sample_delete: "ay_status (fst (serve sample_service sample_bearer CallDeleteMe (sample_user_db, 1))) = 200"
  by (simp add: protected_def sample_auth DeleteMe_def Let_def postgres_repositories on_db_def DeleteUser_def
      update_users_def sample_user_db_def sample_user_pg_def rows_affected_def sample_user_def sample_claims_def
      access_claims_def users_ok_def user_fits_def email_format_def last_index_def is_letter_def is_digit_def
      ascii_lower_def)

theorem deletion_is_final_witness:
  "ay_status (fst (GetMe sample_service (Some ''u1'')
     (snd (serve sample_service sample_bearer CallDeleteMe (sample_user_db, 1))))) \<in> {404, 500}"
proof -
  have "\<exists>u claims. u \<in> set (ud_users (fst (sample_user_db, 1 :: int))) \<and> us_is_active u \<and>
     fst (AuthMiddleware (ah_env sample_service) sample_manager sample_bearer (sample_user_db, 1)) = Authenticated claims \<and>
     pe_uuid_of sample_user_pg (uc_user_id claims) = Some (us_id u) \<and>
     (\<forall>s2 r' login ident refresh t s3.
        (api_step sample_service)\<^sup>*\<^sup>* (snd (serve sample_service sample_bearer CallDeleteMe (sample_user_db, 1))) s2 \<longrightarrow>
        (lr_email login = us_email u \<longrightarrow> ay_status (fst (serve sample_service r' (CallLogin (Inr login)) s2)) \<in> {401, 500}) \<and>
        (pe_uuid_of sample_user_pg ident = Some (us_id u) \<longrightarrow> ay_status (fst (GetMe sample_service (Some ident) s2)) \<in> {404, 500}) \<and>
        (tq_by_hash (ah_tokens sample_service) (HashRefreshToken (ah_env sample_service) (rr_refresh_token refresh)) s2 = (Inr t, s3) \<longrightarrow>
           pe_uuid_of sample_user_pg (rt_user t) = Some (us_id u) \<longrightarrow>
           ay_status (fst (serve sample_service r' (CallRefresh (Inr refresh)) s2)) \<in> {400, 401, 500}))"
    by (rule deletion_is_final [OF sample_service_def _ surjective_pairing sample_delete]) (simp add: sample_db_ok)
  then obtain u where "u \<in> set (ud_users sample_user_db)" and
    me: "\<And>s2 ident. (api_step sample_service)\<^sup>*\<^sup>* (snd (serve sample_service sample_bearer CallDeleteMe (sample_user_db, 1))) s2 \<Longrightarrow>
       pe_uuid_of sample_user_pg ident = Some (us_id u) \<Longrightarrow> ay_status (fst (GetMe sample_service (Some ident) s2)) \<in> {404, 500}"
    by fastforce
  then have "pe_uuid_of sample_user_pg ''u1'' = Some (us_id u)"
    by (simp add: sample_user_db_def sample_user_def sample_user_pg_def)
  with me show ?thesis by blast
qed

definition proxied_login :: http_req where
  "proxied_login = sample_bearer\<lparr>hq_header := (\<lambda>x. if x = ''X-Forwarded-For'' then ''10.0.0.1'' else [])\<rparr>"

definition good_login :: login_request where
  "good_login = \<lparr>lr_email = ''a@b.kr'', lr_password = ''Passw0rd''\<rparr>"

lemma sample_verify: "Verify open_hasher ''Passw0rd'' (us_password_hash sample_user) = None"
proof -
  let ?p = "DefaultArgon2Params\<lparr>ap_salt_length := 4, ap_key_length := 8\<rparr>"
  have "us_password_hash sample_user = encode_hash ?p ''salt'' ''Passw0rd''" by (simp add: sample_user_def encode_hash_def)
  moreover have "decodeHash (encode_hash ?p ''salt'' ''Passw0rd'') = Inr (?p, ''salt'', ''Passw0rd'')"
    by (rule decodeHash_encode) simp_all
  moreover have "encode_hash ?p ''salt'' ''Passw0rd'' \<noteq> []" by (simp add: encode_hash_def)
  ultimately show ?thesis by (simp add: Verify_def open_hasher_def)
qed

lemma sample_login: "ay_status (fst (serve sample_service proxied_login (CallLogin (Inr good_login)) (sample_user_db, 0))) = 200"
proof -
  have u: "find (\<lambda>u. us_email u = ''a@b.kr'') (ud_users sample_user_db) = Some sample_user" "us_is_active sample_user"
    by (simp_all add: sample_user_db_def sample_user_def)
  have "tk_sign (lift_tokens sample_tokens :: (user_db \<times> int) token_env) (jm_access_secret sample_manager) (access_claims sample_manager ''u1'' ''a@b.kr'' 0) =
      Some (CHR ''t'' # replicate 32 CHR ''a'')"
    by (simp add: lift_tokens_def sample_tokens_def sample_claims_def sample_manager_def)
  then have a: "GenerateAccessToken (lift_tokens sample_tokens) sample_manager (us_id sample_user) (us_email sample_user) (d, 0) =
      (Inr (CHR ''t'' # replicate 32 CHR ''a''), d, 1)" for d :: user_db
    by (simp add: GenerateAccessToken_def sample_user_def)
  define tok where "tok = EncodeToString URLEncoding (replicate 32 CHR ''r'')"
  define hash where "hash = HashRefreshToken sample_tokens tok"
  have g: "GenerateRefreshToken (lift_tokens sample_tokens) (d, 1) = (Inr (tok, hash), d, 1)" for d :: user_db
    by (simp add: GenerateRefreshToken_def lift_tokens_def on_world_def sample_tokens_def HashRefreshToken_def Let_def tok_def hash_def)
  have "replicate 32 CHR ''r'' = CHR ''r'' # CHR ''r'' # CHR ''r'' # replicate 29 CHR ''r''" by (simp add: numeral_eq_Suc)
  moreover have "char_of (of_char CHR ''c'' :: nat) = CHR ''c''" by (rule char_of_char)
  ultimately obtain rest where "tok = CHR ''c'' # rest" by (simp add: tok_def b64_char_def byte_def)
  then have "tk_sha256 sample_tokens tok \<noteq> tk_sha256 sample_tokens ''tok''"
    by (simp add: sample_tokens_def take_Cons')
  then have new: "hash \<noteq> rt_hash sample_token"
    by (simp add: hash_def sample_token_def HashRefreshToken_def EncodeToString_inj)
  have db: "us_id sample_user \<in> us_id ` set (ud_users sample_user_db)" "ud_tick (ud_next sample_user_db) = 1"
    "rt_id ` set (ud_tokens sample_user_db) = {''t1''}" "rt_hash ` set (ud_tokens sample_user_db) = {rt_hash sample_token}"
    by (simp_all add: sample_user_db_def sample_token_def ud_next_def)
  have late: "\<not> to_micro (Second + jm_refresh_ttl sample_manager) \<le> Second"
    by (simp add: to_micro_def sample_manager_def time_units)
  show ?thesis
    using u a g new
    by (simp add: db late ah_getClientIP_def sample_verify Login_def good_login_def Let_def postgres_repositories on_db_def GetUserByEmail_def sample_user_pg_def
        validate_login_def lift_hasher_def issue_tokens_def CreateRefreshToken_def proxied_login_def)
qed


definition second_signup :: signup_request where
  "second_signup = \<lparr>sr_email = ''b@b.kr'', sr_password = ''Passw0rd'', sr_name = ''Lee''\<rparr>"

lemma sample_signup_adds:
  "ud_users (fst (snd (serve sample_service sample_bearer (CallSignup (Inr second_signup)) (sample_user_db, 0)))) \<noteq> ud_users sample_user_db"
proof -
  have u: "GetUserByEmail sample_user_pg ''b@b.kr'' sample_user_db = (Inl ErrUserNotFound, ud_next sample_user_db)"
    by (simp add: GetUserByEmail_def sample_user_pg_def sample_user_db_def sample_user_def)
  obtain hash where p: "Hash open_hasher DefaultArgon2Params ''Passw0rd'' (0 :: int) = (Inr hash, 0)"
    by (simp add: Hash_def open_hasher_def)
  obtain row s2 where c: "CreateUser sample_user_pg \<lparr>us_id = [], us_email = ''b@b.kr'', us_password_hash = hash, us_name = ''Lee'',
        us_is_active = True, us_email_verified = False, us_created_at = zero_time, us_updated_at = zero_time\<rparr>
        (ud_next sample_user_db) = (Inr row, s2)" and s2: "ud_users s2 = [sample_user, row]"
    by (simp add: CreateUser_def insert_user_def sample_user_pg_def sample_user_db_def sample_user_def user_fits_def ud_next_def
        email_format_def last_index_def is_letter_def is_digit_def ascii_lower_def Let_def)
  have valid: "validate_signup (\<lambda>e. True) second_signup = []" "ValidatePasswordStrength ''Passw0rd'' = None"
    by (simp_all add: validate_signup_def second_signup_def check_field_def rune_count_def ValidatePasswordStrength_def
        is_upper_def is_lower_def is_digit_def)
  have "serve sample_service sample_bearer (CallSignup (Inr second_signup)) (sample_user_db, 0) =
      issue_tokens sample_service sample_bearer row 201 ''User registered successfully'' (s2, 0)"
    using valid by (simp add: Signup_def sample_service_def Let_def postgres_repositories on_db_def u lift_hasher_def on_world_def p c
        second_signup_def)
  then show ?thesis
    using issue_tokens_effects [OF sample_service_def surjective_pairing, of sample_bearer row 201 "''User registered successfully''" "(s2, 0)"]
    by (simp add: s2 sample_user_db_def)
qed

theorem signup_strands_account_witness:
  "ay_status (fst (serve sample_service sample_bearer (CallSignup (Inr second_signup)) (sample_user_db, 0))) = 500"
proof -
  have ip: "pe_inet sample_user_pg (ah_getClientIP sample_bearer) = None"
    by (simp add: sample_user_pg_def ah_getClientIP_def sample_bearer_def)
  show ?thesis
    using signup_strands_account [OF sample_service_def ip surjective_pairing] sample_signup_adds by simp
qed

end
