(* ===== verification/Shared_Config.thy ===== *)
theory Shared_Config
  imports Go_Env
begin

text \<open>
  The shared configuration library, \<open>shared/go/pkg/config\<close>: loading \<open>.env\<close> files into the process environment
  (\<open>env.go\<close>), reading the configuration from it (\<open>config.go\<close>) and validating it (\<open>validate.go\<close>).
\<close>

subsection \<open>Environment files\<close>

text \<open>
  A file that is missing, cannot be opened, or has the given text and perhaps a read error at its end.
\<close>

datatype env_file = FileMissing | FileUnreadable | FileText string bool

datatype env_file_error = EnvOpenFailed | EnvInvalidLine nat string | EnvSetFailed string | EnvReadFailed

fun split_first :: "char \<Rightarrow> string \<Rightarrow> string \<times> string option" where
  "split_first c [] = ([], None)"
| "split_first c (x # xs) = (if x = c then ([], Some xs) else (let (a, b) = split_first c xs in (x # a, b)))"

definition is_quote :: "char \<Rightarrow> bool" where
  "is_quote c \<longleftrightarrow> c = CHR 0x22 \<or> c = CHR 0x27"

definition trim_quotes :: "string \<Rightarrow> string" where
  "trim_quotes s = rev (dropWhile is_quote (rev (dropWhile is_quote s)))"

text \<open>\<open>bufio.Scanner\<close> with its default buffer: lines without their ends; a line of 64 KiB or more is an error.\<close>

definition scan_lines :: "string \<Rightarrow> string list" where
  "scan_lines s = (let ls = split_on CHR 0x0A s in if last ls = [] then butlast ls else ls)"

definition drop_cr :: "string \<Rightarrow> string" where
  "drop_cr s = (if s \<noteq> [] \<and> last s = CHR 0x0D then butlast s else s)"

fun env_lines :: "nat \<Rightarrow> string list \<Rightarrow> env_vars \<Rightarrow> env_file_error option \<times> env_vars" where
  "env_lines n [] vars = (None, vars)"
| "env_lines n (raw # rest) vars =
     (if 65536 \<le> length raw then (Some EnvReadFailed, vars)
      else
        let line = trim_space (drop_cr raw) in
        if line = [] \<or> has_prefix line ''#'' then env_lines (Suc n) rest vars
        else case split_first CHR ''='' line of
          (_, None) \<Rightarrow> (Some (EnvInvalidLine n line), vars)
        | (k, Some v) \<Rightarrow>
            let key = trim_space k; value = trim_quotes (trim_space v) in
            if Getenv vars key = [] then
              (if setenv_ok key value then env_lines (Suc n) rest (vars(key \<mapsto> value))
               else (Some (EnvSetFailed key), vars))
            else env_lines (Suc n) rest vars)"

definition LoadEnvFile :: "env_file \<Rightarrow> env_vars \<Rightarrow> env_file_error option \<times> env_vars" where
  "LoadEnvFile file vars =
     (case file of
        FileMissing \<Rightarrow> (None, vars)
      | FileUnreadable \<Rightarrow> (Some EnvOpenFailed, vars)
      | FileText s bad \<Rightarrow>
          (case env_lines 1 (scan_lines s) vars of
             (Some e, vars1) \<Rightarrow> (Some e, vars1)
           | (None, vars1) \<Rightarrow> (if bad then Some EnvReadFailed else None, vars1)))"

fun LoadEnvFiles :: "env_file list \<Rightarrow> env_vars \<Rightarrow> env_file_error option \<times> env_vars" where
  "LoadEnvFiles [] vars = (None, vars)"
| "LoadEnvFiles (f # fs) vars =
     (case LoadEnvFile f vars of (Some e, vars1) \<Rightarrow> (Some e, vars1) | (None, vars1) \<Rightarrow> LoadEnvFiles fs vars1)"

text \<open>A panic is \<open>None\<close>.\<close>

definition MustLoadEnvFile :: "env_file \<Rightarrow> env_vars \<Rightarrow> env_vars option" where
  "MustLoadEnvFile file vars = (case LoadEnvFile file vars of (Some _, _) \<Rightarrow> None | (None, vars1) \<Rightarrow> Some vars1)"

definition GetEnvOrPanic :: "env_vars \<Rightarrow> string \<Rightarrow> string option" where
  "GetEnvOrPanic vars key = (let value = Getenv vars key in if value = [] then None else Some value)"

definition RequireEnvVars :: "env_vars \<Rightarrow> string list \<Rightarrow> string list option" where
  "RequireEnvVars vars keys =
     (let missing = filter (\<lambda>key. Getenv vars key = []) keys in if missing \<noteq> [] then Some missing else None)"

record env_var_info =
  ei_key :: string
  ei_default :: string
  ei_required :: bool
  ei_description :: string

definition ValidateEnvVars :: "env_vars \<Rightarrow> env_var_info list \<Rightarrow> string list \<times> string list option" where
  "ValidateEnvVars vars infos =
     (let unset = filter (\<lambda>v. Getenv vars (ei_key v) = []) infos;
          missing = map (\<lambda>v. ei_key v @ '' (required): '' @ ei_description v) (filter ei_required unset);
          warnings = map (\<lambda>v. ei_key v @ '' (optional): '' @ ei_description v)
            (filter (\<lambda>v. \<not> ei_required v \<and> ei_default v = []) unset) in
      (warnings, if missing \<noteq> [] then Some missing else None))"

definition FilterEnvVars :: "env_vars \<Rightarrow> string \<Rightarrow> env_vars" where
  "FilterEnvVars vars pre = (\<lambda>k. if has_prefix k pre then vars k else None)"

subsection \<open>The configuration\<close>

record shared_config =
  sf_environment :: string
  sf_kafka_brokers :: "string list"
  sf_topic_market_data :: string
  sf_topic_trading_signals :: string
  sf_topic_order_events :: string
  sf_topic_executions :: string
  sf_consumer_group :: string
  sf_redis_host :: string
  sf_redis_port :: string
  sf_redis_password :: string
  sf_redis_db :: int
  sf_redis_max_connections :: int
  sf_postgres_host :: string
  sf_postgres_port :: string
  sf_postgres_user :: string
  sf_postgres_password :: string
  sf_postgres_db :: string
  sf_postgres_max_connections :: int
  sf_timescale_host :: string
  sf_timescale_port :: string
  sf_timescale_user :: string
  sf_timescale_password :: string
  sf_timescale_db :: string
  sf_aws_region :: string
  sf_aws_access_key_id :: string
  sf_aws_secret_access_key :: string
  sf_s3_bucket_name :: string
  sf_msk_bootstrap_servers :: string
  sf_elasticache_endpoint :: string
  sf_rds_endpoint :: string
  sf_data_ingestion_port :: string
  sf_data_ingestion_ws_port :: string
  sf_oms_grpc_port :: string
  sf_oms_http_port :: string
  sf_cognitive_api_port :: string
  sf_jwt_secret :: string
  sf_jwt_expiration :: int
  sf_jwt_refresh_expiration :: int
  sf_max_position_size :: f64
  sf_max_daily_loss_percent :: f64
  sf_max_loss_per_trade_percent :: f64
  sf_default_order_timeout :: int
  sf_enable_paper_trading :: bool
  sf_enable_live_trading :: bool
  sf_enable_backtesting :: bool
  sf_enable_prometheus_metrics :: bool
  sf_prometheus_port :: string
  sf_enable_jaeger_tracing :: bool
  sf_jaeger_agent_host :: string
  sf_jaeger_agent_port :: string
  sf_log_level :: string
  sf_log_format :: string
  sf_log_output :: string
  sf_enable_hot_reload :: bool
  sf_debug_mode :: bool
  sf_debug_port :: string

definition default_jwt_secret :: string where
  "default_jwt_secret = ''your-super-secret-jwt-key-change-this-in-production''"

definition LoadSharedConfig :: "env_parsers \<Rightarrow> env_vars \<Rightarrow> shared_config" where
  "LoadSharedConfig p e =
     \<lparr>sf_environment = getEnv e ''ENVIRONMENT'' ''dev'',
      sf_kafka_brokers = getEnvAsSlice e ''KAFKA_BROKERS'' [''localhost:9092''],
      sf_topic_market_data = getEnv e ''KAFKA_TOPIC_MARKET_DATA'' ''market-data-raw'',
      sf_topic_trading_signals = getEnv e ''KAFKA_TOPIC_TRADING_SIGNALS'' ''trading-signals'',
      sf_topic_order_events = getEnv e ''KAFKA_TOPIC_ORDER_EVENTS'' ''order-events'',
      sf_topic_executions = getEnv e ''KAFKA_TOPIC_EXECUTIONS'' ''executions'',
      sf_consumer_group = getEnv e ''KAFKA_CONSUMER_GROUP'' ''aipx-consumer-group'',
      sf_redis_host = getEnv e ''REDIS_HOST'' ''localhost'',
      sf_redis_port = getEnv e ''REDIS_PORT'' ''6379'',
      sf_redis_password = getEnv e ''REDIS_PASSWORD'' [],
      sf_redis_db = getEnvAsInt e ''REDIS_DB'' 0,
      sf_redis_max_connections = getEnvAsInt e ''REDIS_MAX_CONNECTIONS'' 10,
      sf_postgres_host = getEnv e ''POSTGRES_HOST'' ''localhost'',
      sf_postgres_port = getEnv e ''POSTGRES_PORT'' ''5432'',
      sf_postgres_user = getEnv e ''POSTGRES_USER'' ''aipx'',
      sf_postgres_password = getEnv e ''POSTGRES_PASSWORD'' ''aipx_dev_password'',
      sf_postgres_db = getEnv e ''POSTGRES_DB'' ''aipx'',
      sf_postgres_max_connections = getEnvAsInt e ''POSTGRES_MAX_CONNECTIONS'' 20,
      sf_timescale_host = getEnv e ''TIMESCALEDB_HOST'' ''localhost'',
      sf_timescale_port = getEnv e ''TIMESCALEDB_PORT'' ''5433'',
      sf_timescale_user = getEnv e ''TIMESCALEDB_USER'' ''aipx'',
      sf_timescale_password = getEnv e ''TIMESCALEDB_PASSWORD'' ''aipx_dev_password'',
      sf_timescale_db = getEnv e ''TIMESCALEDB_DB'' ''aipx_timeseries'',
      sf_aws_region = getEnv e ''AWS_REGION'' ''ap-northeast-2'',
      sf_aws_access_key_id = getEnv e ''AWS_ACCESS_KEY_ID'' [],
      sf_aws_secret_access_key = getEnv e ''AWS_SECRET_ACCESS_KEY'' [],
      sf_s3_bucket_name = getEnv e ''S3_BUCKET_NAME'' ''aipx-data-lake-dev'',
      sf_msk_bootstrap_servers = getEnv e ''MSK_BOOTSTRAP_SERVERS'' [],
      sf_elasticache_endpoint = getEnv e ''ELASTICACHE_ENDPOINT'' [],
      sf_rds_endpoint = getEnv e ''RDS_ENDPOINT'' [],
      sf_data_ingestion_port = getEnv e ''DATA_INGESTION_PORT'' ''8081'',
      sf_data_ingestion_ws_port = getEnv e ''DATA_INGESTION_WS_PORT'' ''8082'',
      sf_oms_grpc_port = getEnv e ''OMS_GRPC_PORT'' ''50051'',
      sf_oms_http_port = getEnv e ''OMS_HTTP_PORT'' ''8083'',
      sf_cognitive_api_port = getEnv e ''COGNITIVE_API_PORT'' ''8084'',
      sf_jwt_secret = getEnv e ''JWT_SECRET'' default_jwt_secret,
      sf_jwt_expiration = getEnvAsInt e ''JWT_EXPIRATION'' 3600,
      sf_jwt_refresh_expiration = getEnvAsInt e ''JWT_REFRESH_EXPIRATION'' 604800,
      sf_max_position_size = getEnvAsFloat p e ''MAX_POSITION_SIZE'' (Fin False 1000000),
      sf_max_daily_loss_percent = getEnvAsFloat p e ''MAX_DAILY_LOSS_PERCENT'' (Fin False 5),
      sf_max_loss_per_trade_percent = getEnvAsFloat p e ''MAX_LOSS_PER_TRADE_PERCENT'' (Fin False 2),
      sf_default_order_timeout = getEnvAsInt e ''DEFAULT_ORDER_TIMEOUT'' 30,
      sf_enable_paper_trading = getEnvAsBool e ''ENABLE_PAPER_TRADING'' True,
      sf_enable_live_trading = getEnvAsBool e ''ENABLE_LIVE_TRADING'' False,
      sf_enable_backtesting = getEnvAsBool e ''ENABLE_BACKTESTING'' True,
      sf_enable_prometheus_metrics = getEnvAsBool e ''ENABLE_PROMETHEUS_METRICS'' True,
      sf_prometheus_port = getEnv e ''PROMETHEUS_PORT'' ''9090'',
      sf_enable_jaeger_tracing = getEnvAsBool e ''ENABLE_JAEGER_TRACING'' False,
      sf_jaeger_agent_host = getEnv e ''JAEGER_AGENT_HOST'' ''localhost'',
      sf_jaeger_agent_port = getEnv e ''JAEGER_AGENT_PORT'' ''6831'',
      sf_log_level = getEnv e ''LOG_LEVEL'' ''info'',
      sf_log_format = getEnv e ''LOG_FORMAT'' ''json'',
      sf_log_output = getEnv e ''LOG_OUTPUT'' ''stdout'',
      sf_enable_hot_reload = getEnvAsBool e ''ENABLE_HOT_RELOAD'' True,
      sf_debug_mode = getEnvAsBool e ''DEBUG_MODE'' False,
      sf_debug_port = getEnv e ''DEBUG_PORT'' ''2345''\<rparr>"

subsection \<open>Validation\<close>

datatype endpoint_error = HostPortFormat | HostEmpty | PortEmpty | PortNotANumber | PortOutOfRange

datatype config_message = Text string | Endpoint endpoint_error

type_synonym validation_error = "string \<times> config_message"

definition validatePortText :: "string \<Rightarrow> endpoint_error option" where
  "validatePortText port =
     (case parse_int10 port of
        None \<Rightarrow> Some PortNotANumber
      | Some n \<Rightarrow> if n < 1 \<or> 65535 < n then Some PortOutOfRange else None)"

definition validateHostPort :: "string \<Rightarrow> endpoint_error option" where
  "validateHostPort hostPort =
     (case split_host_port hostPort of
        None \<Rightarrow> Some HostPortFormat
      | Some (host, port) \<Rightarrow>
          if host = [] then Some HostEmpty
          else if port = [] then Some PortEmpty
          else case parse_int10 port of
            None \<Rightarrow> Some PortNotANumber
          | Some n \<Rightarrow> if n < 1 \<or> 65535 < n then Some PortOutOfRange else None)"

definition endpoint_errors :: "string \<Rightarrow> endpoint_error option \<Rightarrow> validation_error list" where
  "endpoint_errors field r = (case r of None \<Rightarrow> [] | Some e \<Rightarrow> [(field, Endpoint e)])"

fun broker_errors :: "nat \<Rightarrow> string list \<Rightarrow> validation_error list" where
  "broker_errors i [] = []"
| "broker_errors i (b # bs) =
     endpoint_errors (''KafkaBrokers['' @ nat_str i @ '']'') (validateHostPort b) @ broker_errors (Suc i) bs"

definition check_that :: "bool \<Rightarrow> string \<Rightarrow> string \<Rightarrow> validation_error list" where
  "check_that bad field msg = (if bad then [(field, Text msg)] else [])"

definition valid_log_levels :: "string list" where
  "valid_log_levels = [''trace'', ''debug'', ''info'', ''warn'', ''error'', ''fatal'', ''panic'']"

definition valid_environments :: "string list" where
  "valid_environments = [''dev'', ''development'', ''staging'', ''stage'', ''prod'', ''production'']"

definition out_of_percent :: "f64 \<Rightarrow> bool" where
  "out_of_percent x \<longleftrightarrow> f_le x (Fin False 0) \<or> f_lt (Fin False 100) x"

definition shared_Validate :: "shared_config \<Rightarrow> validation_error list" where
  "shared_Validate c =
     (if sf_kafka_brokers c = [] then [(''KafkaBrokers'', Text ''at least one Kafka broker is required'')]
      else broker_errors 0 (sf_kafka_brokers c)) @
     endpoint_errors ''Redis'' (validateHostPort (sf_redis_host c @ '':'' @ sf_redis_port c)) @
     check_that (sf_redis_db c < 0 \<or> 15 < sf_redis_db c) ''RedisDB'' ''must be between 0 and 15'' @
     check_that (sf_postgres_host c = []) ''PostgresHost'' ''cannot be empty'' @
     check_that (sf_postgres_port c = []) ''PostgresPort'' ''cannot be empty'' @
     check_that (sf_postgres_db c = []) ''PostgresDB'' ''cannot be empty'' @
     endpoint_errors ''DataIngestionPort'' (validatePortText (sf_data_ingestion_port c)) @
     endpoint_errors ''OMSGRPCPort'' (validatePortText (sf_oms_grpc_port c)) @
     check_that ((sf_jwt_secret c = [] \<or> sf_jwt_secret c = default_jwt_secret) \<and>
           (sf_environment c = ''production'' \<or> sf_environment c = ''prod''))
       ''JWTSecret'' ''must be set to a secure value in production'' @
     check_that (sf_jwt_expiration c \<le> 0) ''JWTExpiration'' ''must be positive'' @
     check_that (f_le (sf_max_position_size c) (Fin False 0)) ''MaxPositionSize'' ''must be positive'' @
     check_that (out_of_percent (sf_max_daily_loss_percent c)) ''MaxDailyLossPercent'' ''must be between 0 and 100'' @
     check_that (out_of_percent (sf_max_loss_per_trade_percent c)) ''MaxLossPerTradePercent'' ''must be between 0 and 100'' @
     check_that (sf_enable_live_trading c \<and> sf_environment c = ''dev'')
       ''EnableLiveTrading'' ''live trading should not be enabled in development environment'' @
     check_that (to_lower (sf_log_level c) \<notin> set valid_log_levels) ''LogLevel'' (''invalid log level: '' @ sf_log_level c) @
     check_that (to_lower (sf_environment c) \<notin> set valid_environments)
       ''Environment'' (''invalid environment: '' @ sf_environment c)"

text \<open>\<open>MustValidate\<close>: \<open>False\<close> is the panic.\<close>

definition MustValidate :: "shared_config \<Rightarrow> bool" where
  "MustValidate c \<longleftrightarrow> shared_Validate c = []"

text \<open>\<open>ValidationErrors.Error\<close>; how a message of an endpoint reads is a parameter.\<close>

definition errors_text :: "(endpoint_error \<Rightarrow> string) \<Rightarrow> validation_error list \<Rightarrow> string" where
  "errors_text shown errs =
     (if errs = [] then []
      else ''configuration validation failed:'' @ [CHR 0x0A] @
        concat (map (\<lambda>(field, m). ''  - '' @ field @ '': '' @ (case m of Text t \<Rightarrow> t | Endpoint e \<Rightarrow> shown e) @ [CHR 0x0A]) errs))"

text \<open>
  The two checks nothing calls: a URL (\<open>url.Parse\<close> is a parameter) and an e-mail address, whose regular expression is
  written out.
\<close>

definition validateURL :: "(string \<Rightarrow> bool) \<Rightarrow> string \<Rightarrow> string option" where
  "validateURL parses urlStr =
     (if urlStr = [] then Some ''URL cannot be empty''
      else if \<not> parses urlStr then Some ''invalid URL'' else None)"

definition is_letter :: "char \<Rightarrow> bool" where
  "is_letter c \<longleftrightarrow> (let n = of_char c :: nat in 65 \<le> n \<and> n \<le> 90 \<or> 97 \<le> n \<and> n \<le> 122)"

definition domain_char :: "char \<Rightarrow> bool" where
  "domain_char c \<longleftrightarrow> is_letter c \<or> is_digit c \<or> c = CHR ''.'' \<or> c = CHR ''-''"

definition local_char :: "char \<Rightarrow> bool" where
  "local_char c \<longleftrightarrow> domain_char c \<or> c = CHR ''_'' \<or> c = CHR ''%'' \<or> c = CHR ''+''"

definition validateEmail :: "string \<Rightarrow> bool" where
  "validateEmail email \<longleftrightarrow>
     (case split_first CHR ''@'' email of
        (local, Some domain) \<Rightarrow>
          local \<noteq> [] \<and> list_all local_char local \<and>
          (case last_index CHR ''.'' domain of
             None \<Rightarrow> False
           | Some i \<Rightarrow> 0 < i \<and> list_all domain_char (take i domain) \<and>
               2 \<le> length (drop (i + 1) domain) \<and> list_all is_letter (drop (i + 1) domain))
      | _ \<Rightarrow> False)"

definition shared_IsDevelopment :: "shared_config \<Rightarrow> bool" where
  "shared_IsDevelopment c \<longleftrightarrow> to_lower (sf_environment c) = ''dev'' \<or> to_lower (sf_environment c) = ''development''"

definition shared_IsProduction :: "shared_config \<Rightarrow> bool" where
  "shared_IsProduction c \<longleftrightarrow> to_lower (sf_environment c) = ''prod'' \<or> to_lower (sf_environment c) = ''production''"

definition shared_IsStaging :: "shared_config \<Rightarrow> bool" where
  "shared_IsStaging c \<longleftrightarrow> to_lower (sf_environment c) = ''staging'' \<or> to_lower (sf_environment c) = ''stage''"

definition GetRedisAddr :: "shared_config \<Rightarrow> string" where
  "GetRedisAddr c = sf_redis_host c @ '':'' @ sf_redis_port c"

definition postgres_dsn :: "string \<Rightarrow> string \<Rightarrow> string \<Rightarrow> string \<Rightarrow> string \<Rightarrow> string \<Rightarrow> string" where
  "postgres_dsn host port user password dbname sslmode =
     ''host='' @ host @ '' port='' @ port @ '' user='' @ user @ '' password='' @ password @
     '' dbname='' @ dbname @ '' sslmode='' @ sslmode"

definition GetPostgresConnectionString :: "shared_config \<Rightarrow> string" where
  "GetPostgresConnectionString c =
     postgres_dsn (sf_postgres_host c) (sf_postgres_port c) (sf_postgres_user c) (sf_postgres_password c)
       (sf_postgres_db c) ''disable''"

definition GetTimescaleConnectionString :: "shared_config \<Rightarrow> string" where
  "GetTimescaleConnectionString c =
     postgres_dsn (sf_timescale_host c) (sf_timescale_port c) (sf_timescale_user c) (sf_timescale_password c)
       (sf_timescale_db c) ''disable''"

subsection \<open>What validation means\<close>

definition good_port :: "string \<Rightarrow> bool" where
  "good_port port \<longleftrightarrow> (\<exists>n. parse_int10 port = Some n \<and> 1 \<le> n \<and> n \<le> 65535)"

definition good_endpoint :: "string \<Rightarrow> bool" where
  "good_endpoint hp \<longleftrightarrow> (\<exists>host port. split_host_port hp = Some (host, port) \<and> host \<noteq> [] \<and> good_port port)"

lemma endpoint_errors_Nil [simp]: "endpoint_errors field r = [] \<longleftrightarrow> r = None"
  by (simp add: endpoint_errors_def split: option.split)

lemma check_that_Nil [simp]: "check_that bad field msg = [] \<longleftrightarrow> \<not> bad"
  by (simp add: check_that_def)

lemma validatePortText_None: "validatePortText port = None \<longleftrightarrow> good_port port"
  by (auto simp: validatePortText_def good_port_def split: option.split)

lemma parse_int10_Nil: "parse_int10 [] = None"
  by (simp add: parse_int10_def)

lemma validateHostPort_None: "validateHostPort hp = None \<longleftrightarrow> good_endpoint hp"
  by (auto simp: validateHostPort_def good_endpoint_def good_port_def parse_int10_Nil split: option.splits)

lemma broker_errors_Nil: "broker_errors i bs = [] \<longleftrightarrow> (\<forall>b \<in> set bs. good_endpoint b)"
  by (induction bs arbitrary: i) (auto simp: validateHostPort_None)

text \<open>
  What a valid configuration is.  \<open>Validate\<close> reports nothing exactly when every broker and the Redis
  address are a host with a port from 1 to 65535, the two service ports are such numbers, the
  database is named, the numbers are in their ranges (which a NaN is as well: no comparison with it is
  true), the log level and the environment are known ones in any case of letters, and neither the default
  secret is used in an environment spelt \<open>production\<close> or \<open>prod\<close> nor live trading in one spelt \<open>dev\<close>.
\<close>

theorem shared_Validate_exact:
  "shared_Validate c = [] \<longleftrightarrow>
     sf_kafka_brokers c \<noteq> [] \<and> (\<forall>b \<in> set (sf_kafka_brokers c). good_endpoint b) \<and>
     good_endpoint (GetRedisAddr c) \<and> 0 \<le> sf_redis_db c \<and> sf_redis_db c \<le> 15 \<and>
     sf_postgres_host c \<noteq> [] \<and> sf_postgres_port c \<noteq> [] \<and> sf_postgres_db c \<noteq> [] \<and>
     good_port (sf_data_ingestion_port c) \<and> good_port (sf_oms_grpc_port c) \<and>
     \<not> (sf_jwt_secret c \<in> {[], default_jwt_secret} \<and> sf_environment c \<in> {''production'', ''prod''}) \<and>
     0 < sf_jwt_expiration c \<and>
     (sf_max_position_size c = NaN \<or> f_lt (Fin False 0) (sf_max_position_size c)) \<and>
     (\<forall>x \<in> {sf_max_daily_loss_percent c, sf_max_loss_per_trade_percent c}.
        x = NaN \<or> f_lt (Fin False 0) x \<and> f_le x (Fin False 100)) \<and>
     \<not> (sf_enable_live_trading c \<and> sf_environment c = ''dev'') \<and>
     to_lower (sf_log_level c) \<in> set valid_log_levels \<and> to_lower (sf_environment c) \<in> set valid_environments"
proof -
  have le: "f_le x (Fin False n) \<longleftrightarrow> x \<noteq> NaN \<and> \<not> f_lt (Fin False n) x" for x n
    by (cases x) (auto simp: f_not_lt_iff_le)
  have pos: "\<not> f_le x (Fin False 0) \<longleftrightarrow> x = NaN \<or> f_lt (Fin False 0) x" for x
    by (auto simp: le)
  have pct: "\<not> out_of_percent x \<longleftrightarrow> x = NaN \<or> f_lt (Fin False 0) x \<and> f_le x (Fin False 100)" for x
    by (cases x) (auto simp: out_of_percent_def le)
  show ?thesis
    by (auto simp: shared_Validate_def broker_errors_Nil validateHostPort_None validatePortText_None pos pct
      GetRedisAddr_def)
qed

text \<open>
  The production check depends on the case of the letters.  Every valid configuration stays valid when
  its environment is renamed to production in another spelling, which the rest of the library takes for
  production, and its token secret replaced by the published default.
\<close>

theorem mixed_case_production_unprotected:
  assumes "shared_Validate c = []" "to_lower env \<in> {''production'', ''prod''}" "env \<notin> {''production'', ''prod''}"
  shows "shared_Validate (c\<lparr>sf_environment := env, sf_jwt_secret := default_jwt_secret\<rparr>) = [] \<and>
    shared_IsProduction (c\<lparr>sf_environment := env, sf_jwt_secret := default_jwt_secret\<rparr>)"
proof -
  have "env \<noteq> ''dev''" using assms(2) by (auto simp: to_lower_def ascii_lower_def)
  moreover have "to_lower env \<in> set valid_environments" using assms(2) by (auto simp: valid_environments_def)
  ultimately show ?thesis
    using assms unfolding shared_Validate_exact by (auto simp: shared_IsProduction_def GetRedisAddr_def)
qed

subsection \<open>Which file wins\<close>

lemma env_lines_Cons:
  assumes "env_lines n (raw # rest) vars = (r, vars')"
  shows "vars' = vars \<or>
    (\<exists>vars1. env_lines (Suc n) rest vars1 = (r, vars') \<and> (\<forall>k. Getenv vars k \<noteq> [] \<longrightarrow> vars1 k = vars k))"
proof (cases "env_lines (Suc n) rest vars = (r, vars')")
  case True
  then show ?thesis by blast
next
  case False
  obtain a b where sp: "split_first CHR ''='' (trim_space (drop_cr raw)) = (a, b)" by (rule prod.exhaust)
  show ?thesis
  proof (cases "vars' = vars")
    case no: False
    obtain v where v: "b = Some v" "Getenv vars (trim_space a) = []"
      "env_lines (Suc n) rest (vars(trim_space a \<mapsto> trim_quotes (trim_space v))) = (r, vars')"
      using assms False no sp by (auto simp: Let_def split: if_splits option.splits)
    then have "\<forall>k. Getenv vars k \<noteq> [] \<longrightarrow> (vars(trim_space a \<mapsto> trim_quotes (trim_space v))) k = vars k" by auto
    with v(3) show ?thesis by blast
  qed simp
qed

lemma env_lines_keeps:
  "env_lines n ls vars = (r, vars') \<Longrightarrow> Getenv vars k \<noteq> [] \<Longrightarrow> vars' k = vars k"
proof (induction ls arbitrary: n vars)
  case (Cons raw rest)
  from env_lines_Cons [OF Cons.prems(1)] show ?case
  proof (elim disjE exE conjE)
    fix vars1
    assume 1: "env_lines (Suc n) rest vars1 = (r, vars')" "\<forall>k. Getenv vars k \<noteq> [] \<longrightarrow> vars1 k = vars k"
    then have k: "vars1 k = vars k" using Cons.prems(2) by blast
    then have "Getenv vars1 k \<noteq> []" using Cons.prems(2) by (simp add: Getenv_def)
    with Cons.IH [OF 1(1)] k show ?thesis by simp
  qed simp
qed simp

lemma LoadEnvFile_keeps: "LoadEnvFile f vars = (r, vars') \<Longrightarrow> Getenv vars k \<noteq> [] \<Longrightarrow> vars' k = vars k"
  by (auto simp: LoadEnvFile_def split: env_file.splits option.splits prod.splits dest: env_lines_keeps)

lemma LoadEnvFiles_keeps: "LoadEnvFiles fs vars = (r, vars') \<Longrightarrow> Getenv vars k \<noteq> [] \<Longrightarrow> vars' k = vars k"
proof (induction fs arbitrary: vars)
  case (Cons f fs)
  obtain r1 vars1 where f: "LoadEnvFile f vars = (r1, vars1)" by (rule prod.exhaust)
  with Cons.prems(2) have k: "vars1 k = vars k" by (blast intro: LoadEnvFile_keeps)
  then have "Getenv vars1 k \<noteq> []" using Cons.prems(2) by (simp add: Getenv_def)
  with Cons f k show ?case by (auto split: option.splits)
qed simp

lemma LoadEnvFiles_append:
  "LoadEnvFiles (fs @ gs) vars =
     (case LoadEnvFiles fs vars of (Some e, vars1) \<Rightarrow> (Some e, vars1) | (None, vars1) \<Rightarrow> LoadEnvFiles gs vars1)"
  by (induction fs arbitrary: vars) (auto split: prod.splits option.splits)

text \<open>
  The first file wins.  What the environment or an earlier file has set to something is never changed by a
  later file, although the comment on \<open>LoadEnvFiles\<close> says that later files override earlier ones.
\<close>

theorem earlier_env_file_wins:
  assumes "LoadEnvFiles (fs @ gs) vars = (None, vars2)"
  shows "\<exists>vars1. LoadEnvFiles fs vars = (None, vars1) \<and> LoadEnvFiles gs vars1 = (None, vars2) \<and>
    (\<forall>k. Getenv vars1 k \<noteq> [] \<longrightarrow> Getenv vars2 k = Getenv vars1 k)"
proof -
  obtain r vars1 where f: "LoadEnvFiles fs vars = (r, vars1)" by (rule prod.exhaust)
  with assms have "r = None" "LoadEnvFiles gs vars1 = (None, vars2)"
    by (auto simp: LoadEnvFiles_append split: option.splits)
  moreover from this(2) have "Getenv vars1 k \<noteq> [] \<longrightarrow> Getenv vars2 k = Getenv vars1 k" for k
    using LoadEnvFiles_keeps [of gs vars1 None vars2 k] by (auto simp: Getenv_def)
  ultimately show ?thesis using f by blast
qed

subsection \<open>Concrete runs\<close>

definition default_config :: shared_config where
  "default_config = LoadSharedConfig \<lparr>ep_float = (\<lambda>s. None), ep_duration = (\<lambda>s. None)\<rparr> Map.empty"

lemma loaded_fields:
  "sf_kafka_brokers (LoadSharedConfig p e) = getEnvAsSlice e ''KAFKA_BROKERS'' [''localhost:9092'']"
  "sf_redis_host (LoadSharedConfig p e) = getEnv e ''REDIS_HOST'' ''localhost''"
  "sf_redis_port (LoadSharedConfig p e) = getEnv e ''REDIS_PORT'' ''6379''"
  "sf_redis_db (LoadSharedConfig p e) = getEnvAsInt e ''REDIS_DB'' 0"
  "sf_postgres_host (LoadSharedConfig p e) = getEnv e ''POSTGRES_HOST'' ''localhost''"
  "sf_postgres_port (LoadSharedConfig p e) = getEnv e ''POSTGRES_PORT'' ''5432''"
  "sf_postgres_db (LoadSharedConfig p e) = getEnv e ''POSTGRES_DB'' ''aipx''"
  "sf_data_ingestion_port (LoadSharedConfig p e) = getEnv e ''DATA_INGESTION_PORT'' ''8081''"
  "sf_oms_grpc_port (LoadSharedConfig p e) = getEnv e ''OMS_GRPC_PORT'' ''50051''"
  "sf_environment (LoadSharedConfig p e) = getEnv e ''ENVIRONMENT'' ''dev''"
  "sf_jwt_expiration (LoadSharedConfig p e) = getEnvAsInt e ''JWT_EXPIRATION'' 3600"
  "sf_max_position_size (LoadSharedConfig p e) = getEnvAsFloat p e ''MAX_POSITION_SIZE'' (Fin False 1000000)"
  "sf_max_daily_loss_percent (LoadSharedConfig p e) = getEnvAsFloat p e ''MAX_DAILY_LOSS_PERCENT'' (Fin False 5)"
  "sf_max_loss_per_trade_percent (LoadSharedConfig p e) = getEnvAsFloat p e ''MAX_LOSS_PER_TRADE_PERCENT'' (Fin False 2)"
  "sf_enable_live_trading (LoadSharedConfig p e) = getEnvAsBool e ''ENABLE_LIVE_TRADING'' False"
  "sf_log_level (LoadSharedConfig p e) = getEnv e ''LOG_LEVEL'' ''info''"
  unfolding LoadSharedConfig_def
  by (rule shared_config.select_convs(2), rule shared_config.select_convs(8), rule
    shared_config.select_convs(9), rule shared_config.select_convs(11), rule
    shared_config.select_convs(13), rule shared_config.select_convs(14), rule
    shared_config.select_convs(17), rule shared_config.select_convs(31), rule
    shared_config.select_convs(33), rule shared_config.select_convs(1), rule
    shared_config.select_convs(37), rule shared_config.select_convs(39), rule
    shared_config.select_convs(40), rule shared_config.select_convs(41), rule
    shared_config.select_convs(44), rule shared_config.select_convs(51))

lemma default_config_valid: "shared_Validate default_config = []"
proof -
  have b: "validateHostPort ''localhost:9092'' = None" "validateHostPort ''localhost:6379'' = None"
    "validatePortText ''8081'' = None" "validatePortText ''50051'' = None"
    by (simp_all add: validateHostPort_def validatePortText_def split_host_port_def last_index_def parse_int10_def
      is_digit_def dec_value_def)
  have l: "to_lower ''info'' \<in> set valid_log_levels" "to_lower ''dev'' \<in> set valid_environments" by code_simp+
  have a: "''localhost'' @ '':'' @ ''6379'' = ''localhost:6379''" by simp
  note e = env_unset [of Map.empty, OF refl]
  show ?thesis
    unfolding shared_Validate_exact default_config_def GetRedisAddr_def loaded_fields getEnvAsSlice_def getEnvAsInt_def
      getEnvAsFloat_def getEnvAsBool_def e a
  proof (intro conjI)
    show "\<forall>b \<in> set [''localhost:9092'']. good_endpoint b" "good_endpoint ''localhost:6379''"
        "good_port ''8081''" "good_port ''50051''"
      using b by (simp_all add: validateHostPort_None validatePortText_None)
    show "to_lower ''info'' \<in> set valid_log_levels" "to_lower ''dev'' \<in> set valid_environments" by (rule l)+
  qed simp_all
qed

theorem mixed_case_production_unprotected_witness:
  "shared_Validate (default_config\<lparr>sf_environment := ''Production'', sf_jwt_secret := default_jwt_secret\<rparr>) = []"
proof -
  have "to_lower ''Production'' \<in> {''production'', ''prod''}" "''Production'' \<notin> {''production'', ''prod''}" by code_simp+
  from mixed_case_production_unprotected [OF default_config_valid this] show ?thesis by blast
qed

theorem earlier_env_file_wins_witness:
  "\<exists>vars. LoadEnvFiles [FileText ''A=1'' False, FileText ''A=2'' False] Map.empty = (None, vars) \<and> Getenv vars ''A'' = ''1''"
proof -
  have l: "scan_lines ''A=1'' = [''A=1'']" "scan_lines ''A=2'' = [''A=2'']"
    "trim_space (drop_cr ''A=1'') = ''A=1''" "trim_space (drop_cr ''A=2'') = ''A=2''"
    "has_prefix ''A=1'' ''#'' = False" "has_prefix ''A=2'' ''#'' = False"
    "trim_space ''A'' = ''A''" "trim_quotes (trim_space ''1'') = ''1''" "trim_quotes (trim_space ''2'') = ''2''"
    "setenv_ok ''A'' ''1'' = True"
    by code_simp+
  have 1: "LoadEnvFiles [FileText ''A=1'' False] Map.empty = (None, [''A'' \<mapsto> ''1''])"
    by (simp add: LoadEnvFile_def l Getenv_def)
  have 2: "LoadEnvFile (FileText ''A=2'' False) [''A'' \<mapsto> ''1''] = (None, [''A'' \<mapsto> ''1''])"
    by (simp add: LoadEnvFile_def l Getenv_def)
  have v: "LoadEnvFiles ([FileText ''A=1'' False] @ [FileText ''A=2'' False]) Map.empty = (None, [''A'' \<mapsto> ''1''])"
    unfolding LoadEnvFiles_append 1 by (simp add: 2)
  from earlier_env_file_wins [OF v] 1 have "Getenv [''A'' \<mapsto> ''1''] ''A'' = ''1''" by (auto simp: Getenv_def)
  with v show ?thesis by auto
qed

end
