(* ===== verification/Order_Startup.thy ===== *)
theory Order_Startup
  imports Shared_Config Logger Order_Handler
begin

text \<open>
  The start of the order service: \<open>internal/config/config.go\<close>, which reads the environment twice, through the
  shared configuration and again with its values as defaults, and \<open>run\<close> of \<open>cmd/server/main.go\<close>, which
  opens the stores, builds the components modelled in the other theories from the configuration and
  releases what it opened.  Whether PostgreSQL, Redis, Kafka and the port answer are parameters.
\<close>

subsection \<open>The configuration\<close>

record oms_server_config =
  oms_grpc_port :: string
  oms_http_port :: string
  oms_shutdown_timeout :: duration
  oms_read_timeout :: duration
  oms_write_timeout :: duration
  oms_max_connections :: int
  oms_enable_reflection :: bool

record oms_database_config =
  oms_db_host :: string
  oms_db_port :: string
  oms_db_user :: string
  oms_db_password :: string
  oms_db_database :: string
  oms_db_max_connections :: int
  oms_db_min_connections :: int
  oms_db_max_conn_lifetime :: duration
  oms_db_max_conn_idle_time :: duration
  oms_db_ssl_mode :: string

record oms_redis_config =
  oms_rd_host :: string
  oms_rd_port :: string
  oms_rd_password :: string
  oms_rd_db :: int
  oms_rd_max_connections :: int
  oms_rd_connect_timeout :: duration
  oms_rd_read_timeout :: duration
  oms_rd_write_timeout :: duration
  oms_rd_pool_size :: int

record oms_kafka_config =
  oms_kf_brokers :: "string list"
  oms_kf_topic_order_events :: string
  oms_kf_topic_executions :: string
  oms_kf_topic_trading_signals :: string
  oms_kf_consumer_group :: string
  oms_kf_enable_auto_commit :: bool
  oms_kf_session_timeout :: duration
  oms_kf_heartbeat_interval :: duration
  oms_kf_rebalance_timeout :: duration
  oms_kf_max_processing_time :: duration

record oms_kis_config =
  oms_kis_base_url :: string
  oms_kis_app_key :: string
  oms_kis_app_secret :: string
  oms_kis_account_no :: string
  oms_kis_timeout :: duration
  oms_kis_max_retries :: int
  oms_kis_retry_delay :: duration
  oms_kis_rate_limit_rps :: int

record oms_risk_config =
  oms_risk_max_position_size :: f64
  oms_risk_max_daily_loss_percent :: f64
  oms_risk_max_loss_per_trade_percent :: f64
  oms_risk_max_orders_per_minute :: int
  oms_risk_max_orders_per_day :: int
  oms_risk_default_order_timeout :: duration
  oms_risk_enable_risk_checks :: bool
  oms_risk_max_order_value :: f64
  oms_risk_price_deviation :: f64
  oms_risk_daily_loss_limit :: f64
  oms_risk_allowed_symbols :: "string list"
  oms_risk_duplicate_window :: int

record oms_rate_config =
  oms_rate_rate :: int
  oms_rate_burst :: int

record oms_logger_config =
  oms_log_level :: string
  oms_log_format :: string
  oms_log_output :: string
  oms_log_enable_caller :: bool
  oms_log_service_name :: string
  oms_log_environment :: string

record oms_config =
  cfg_server :: oms_server_config
  cfg_database :: oms_database_config
  cfg_redis :: oms_redis_config
  cfg_kafka :: oms_kafka_config
  cfg_kis :: oms_kis_config
  cfg_risk :: oms_risk_config
  cfg_rate_limit :: oms_rate_config
  cfg_logger :: oms_logger_config

definition load_oms_server_config ::
  "env_parsers \<Rightarrow> env_vars \<Rightarrow> shared_config \<Rightarrow> oms_server_config" where
  "load_oms_server_config p e sh =
     \<lparr>oms_grpc_port = getEnv e ''OMS_GRPC_PORT'' (sf_oms_grpc_port sh),
      oms_http_port = getEnv e ''OMS_HTTP_PORT'' (sf_oms_http_port sh),
      oms_shutdown_timeout = getEnvAsDuration p e ''SERVER_SHUTDOWN_TIMEOUT'' (30 * Second),
      oms_read_timeout = getEnvAsDuration p e ''SERVER_READ_TIMEOUT'' (10 * Second),
      oms_write_timeout = getEnvAsDuration p e ''SERVER_WRITE_TIMEOUT'' (10 * Second),
      oms_max_connections = getEnvAsInt e ''SERVER_MAX_CONNECTIONS'' 1000,
      oms_enable_reflection = getEnvAsBool e ''SERVER_ENABLE_REFLECTION'' True\<rparr>"

definition load_oms_database_config ::
  "env_parsers \<Rightarrow> env_vars \<Rightarrow> shared_config \<Rightarrow> oms_database_config" where
  "load_oms_database_config p e sh =
     \<lparr>oms_db_host = getEnv e ''POSTGRES_HOST'' (sf_postgres_host sh),
      oms_db_port = getEnv e ''POSTGRES_PORT'' (sf_postgres_port sh),
      oms_db_user = getEnv e ''POSTGRES_USER'' (sf_postgres_user sh),
      oms_db_password = getEnv e ''POSTGRES_PASSWORD'' (sf_postgres_password sh),
      oms_db_database = getEnv e ''POSTGRES_DB'' (sf_postgres_db sh),
      oms_db_max_connections = getEnvAsInt e ''POSTGRES_MAX_CONNECTIONS'' (sf_postgres_max_connections sh),
      oms_db_min_connections = getEnvAsInt e ''POSTGRES_MIN_CONNECTIONS'' 5,
      oms_db_max_conn_lifetime = getEnvAsDuration p e ''POSTGRES_MAX_CONN_LIFETIME'' Hour,
      oms_db_max_conn_idle_time = getEnvAsDuration p e ''POSTGRES_MAX_CONN_IDLE_TIME'' (30 * Minute),
      oms_db_ssl_mode = getEnv e ''POSTGRES_SSL_MODE'' ''disable''\<rparr>"

definition load_oms_redis_config ::
  "env_parsers \<Rightarrow> env_vars \<Rightarrow> shared_config \<Rightarrow> oms_redis_config" where
  "load_oms_redis_config p e sh =
     \<lparr>oms_rd_host = getEnv e ''REDIS_HOST'' (sf_redis_host sh),
      oms_rd_port = getEnv e ''REDIS_PORT'' (sf_redis_port sh),
      oms_rd_password = getEnv e ''REDIS_PASSWORD'' (sf_redis_password sh),
      oms_rd_db = getEnvAsInt e ''REDIS_DB'' (sf_redis_db sh),
      oms_rd_max_connections = getEnvAsInt e ''REDIS_MAX_CONNECTIONS'' (sf_redis_max_connections sh),
      oms_rd_connect_timeout = getEnvAsDuration p e ''REDIS_CONNECT_TIMEOUT'' (5 * Second),
      oms_rd_read_timeout = getEnvAsDuration p e ''REDIS_READ_TIMEOUT'' (3 * Second),
      oms_rd_write_timeout = getEnvAsDuration p e ''REDIS_WRITE_TIMEOUT'' (3 * Second),
      oms_rd_pool_size = getEnvAsInt e ''REDIS_POOL_SIZE'' 10\<rparr>"

definition load_oms_kafka_config ::
  "env_parsers \<Rightarrow> env_vars \<Rightarrow> shared_config \<Rightarrow> oms_kafka_config" where
  "load_oms_kafka_config p e sh =
     \<lparr>oms_kf_brokers = getEnvAsSlice e ''KAFKA_BROKERS'' (sf_kafka_brokers sh),
      oms_kf_topic_order_events = getEnv e ''KAFKA_TOPIC_ORDER_EVENTS'' (sf_topic_order_events sh),
      oms_kf_topic_executions = getEnv e ''KAFKA_TOPIC_EXECUTIONS'' (sf_topic_executions sh),
      oms_kf_topic_trading_signals = getEnv e ''KAFKA_TOPIC_TRADING_SIGNALS'' (sf_topic_trading_signals sh),
      oms_kf_consumer_group = getEnv e ''KAFKA_CONSUMER_GROUP'' ''oms-consumer-group'',
      oms_kf_enable_auto_commit = getEnvAsBool e ''KAFKA_ENABLE_AUTO_COMMIT'' False,
      oms_kf_session_timeout = getEnvAsDuration p e ''KAFKA_SESSION_TIMEOUT'' (10 * Second),
      oms_kf_heartbeat_interval = getEnvAsDuration p e ''KAFKA_HEARTBEAT_INTERVAL'' (3 * Second),
      oms_kf_rebalance_timeout = getEnvAsDuration p e ''KAFKA_REBALANCE_TIMEOUT'' (60 * Second),
      oms_kf_max_processing_time = getEnvAsDuration p e ''KAFKA_MAX_PROCESSING_TIME'' (5 * Minute)\<rparr>"

definition load_oms_kis_config ::
  "env_parsers \<Rightarrow> env_vars \<Rightarrow> shared_config \<Rightarrow> oms_kis_config" where
  "load_oms_kis_config p e sh =
     \<lparr>oms_kis_base_url = getEnv e ''KIS_BASE_URL'' ''https://openapi.koreainvestment.com:9443'',
      oms_kis_app_key = getEnv e ''KIS_APP_KEY'' [],
      oms_kis_app_secret = getEnv e ''KIS_APP_SECRET'' [],
      oms_kis_account_no = getEnv e ''KIS_ACCOUNT_NO'' [],
      oms_kis_timeout = getEnvAsDuration p e ''KIS_TIMEOUT'' (30 * Second),
      oms_kis_max_retries = getEnvAsInt e ''KIS_MAX_RETRIES'' 3,
      oms_kis_retry_delay = getEnvAsDuration p e ''KIS_RETRY_DELAY'' Second,
      oms_kis_rate_limit_rps = getEnvAsInt e ''KIS_RATE_LIMIT_RPS'' 20\<rparr>"

definition load_oms_risk_config ::
  "env_parsers \<Rightarrow> env_vars \<Rightarrow> shared_config \<Rightarrow> oms_risk_config" where
  "load_oms_risk_config p e sh =
     \<lparr>oms_risk_max_position_size = getEnvAsFloat p e ''MAX_POSITION_SIZE'' (sf_max_position_size sh),
      oms_risk_max_daily_loss_percent = getEnvAsFloat p e ''MAX_DAILY_LOSS_PERCENT'' (sf_max_daily_loss_percent sh),
      oms_risk_max_loss_per_trade_percent = getEnvAsFloat p e ''MAX_LOSS_PER_TRADE_PERCENT'' (sf_max_loss_per_trade_percent sh),
      oms_risk_max_orders_per_minute = getEnvAsInt e ''MAX_ORDERS_PER_MINUTE'' 60,
      oms_risk_max_orders_per_day = getEnvAsInt e ''MAX_ORDERS_PER_DAY'' 500,
      oms_risk_default_order_timeout = getEnvAsDuration p e ''DEFAULT_ORDER_TIMEOUT'' (wrap64 ((sf_default_order_timeout sh) * Second)),
      oms_risk_enable_risk_checks = getEnvAsBool e ''ENABLE_RISK_CHECKS'' True,
      oms_risk_max_order_value = getEnvAsFloat p e ''RISK_MAX_ORDER_VALUE'' (Fin False 10000000),
      oms_risk_price_deviation = getEnvAsFloat p e ''RISK_PRICE_DEVIATION'' (f_of_rat (5 / 100)),
      oms_risk_daily_loss_limit = getEnvAsFloat p e ''RISK_DAILY_LOSS_LIMIT'' (Fin False 1000000),
      oms_risk_allowed_symbols = getEnvAsSlice e ''RISK_ALLOWED_SYMBOLS'' [],
      oms_risk_duplicate_window = getEnvAsInt e ''RISK_DUPLICATE_WINDOW'' 10\<rparr>"

definition load_oms_rate_config ::
  "env_parsers \<Rightarrow> env_vars \<Rightarrow> shared_config \<Rightarrow> oms_rate_config" where
  "load_oms_rate_config p e sh =
     \<lparr>oms_rate_rate = getEnvAsInt e ''RATE_LIMIT_RATE'' 5,
      oms_rate_burst = getEnvAsInt e ''RATE_LIMIT_BURST'' 10\<rparr>"

definition load_oms_logger_config ::
  "env_parsers \<Rightarrow> env_vars \<Rightarrow> shared_config \<Rightarrow> oms_logger_config" where
  "load_oms_logger_config p e sh =
     \<lparr>oms_log_level = getEnv e ''LOG_LEVEL'' (sf_log_level sh),
      oms_log_format = getEnv e ''LOG_FORMAT'' (sf_log_format sh),
      oms_log_output = getEnv e ''LOG_OUTPUT'' (sf_log_output sh),
      oms_log_enable_caller = getEnvAsBool e ''LOG_ENABLE_CALLER'' True,
      oms_log_service_name = ''order-management-service'',
      oms_log_environment = getEnv e ''ENVIRONMENT'' (sf_environment sh)\<rparr>"

definition read_oms_config :: "env_parsers \<Rightarrow> env_vars \<Rightarrow> oms_config" where
  "read_oms_config p e =
     (let sh = LoadSharedConfig p e in
      \<lparr>cfg_server = load_oms_server_config p e sh,
       cfg_database = load_oms_database_config p e sh,
       cfg_redis = load_oms_redis_config p e sh,
       cfg_kafka = load_oms_kafka_config p e sh,
       cfg_kis = load_oms_kis_config p e sh,
       cfg_risk = load_oms_risk_config p e sh,
       cfg_rate_limit = load_oms_rate_config p e sh,
       cfg_logger = load_oms_logger_config p e sh\<rparr>)"


datatype oms_config_error =
    GrpcPortRequired | DbHostRequired | DbUserRequired | DbNameRequired | BrokersRequired
  | AppKeyRequired | AppSecretRequired

definition oms_Validate :: "oms_config \<Rightarrow> oms_config_error option" where
  "oms_Validate c =
     (if oms_grpc_port (cfg_server c) = [] then Some GrpcPortRequired
      else if oms_db_host (cfg_database c) = [] then Some DbHostRequired
      else if oms_db_user (cfg_database c) = [] then Some DbUserRequired
      else if oms_db_database (cfg_database c) = [] then Some DbNameRequired
      else if oms_kf_brokers (cfg_kafka c) = [] then Some BrokersRequired
      else if oms_log_environment (cfg_logger c) = ''production'' then
        (if oms_kis_app_key (cfg_kis c) = [] then Some AppKeyRequired
         else if oms_kis_app_secret (cfg_kis c) = [] then Some AppSecretRequired
         else None)
      else None)"

definition LoadOmsConfig :: "env_parsers \<Rightarrow> env_vars \<Rightarrow> oms_config_error + oms_config" where
  "LoadOmsConfig p e =
     (let config = read_oms_config p e in
      case oms_Validate config of Some err \<Rightarrow> Inl err | None \<Rightarrow> Inr config)"

definition GetDatabaseDSN :: "oms_config \<Rightarrow> string" where
  "GetDatabaseDSN c =
     (let d = cfg_database c in
      postgres_dsn (oms_db_host d) (oms_db_port d) (oms_db_user d) (oms_db_password d) (oms_db_database d)
        (oms_db_ssl_mode d))"

subsection \<open>The start\<close>

record redis_options =
  ro_addr :: string
  ro_password :: string
  ro_db :: int
  ro_pool_size :: int
  ro_dial_timeout :: duration
  ro_read_timeout :: duration
  ro_write_timeout :: duration

text \<open>
  The answers of the outside world during the start, and the interfaces the components are built on.
\<close>

record ('w, 's, 'e) oms_platform =
  op_logging :: logging_lib
  op_dsn_parses :: "string \<Rightarrow> bool"
  op_pool_opens :: "pool_config \<Rightarrow> bool"
  op_db_answers :: bool
  op_redis_answers :: "redis_options \<Rightarrow> bool"
  op_kafka_connects :: "string list \<Rightarrow> bool"
  op_port_free :: "string \<Rightarrow> bool"
  op_redis :: "'w redis"
  op_risk_env :: "'w risk_env"
  op_now :: "'w \<Rightarrow> instant"
  op_repository :: "'s order_repository"
  op_exec_env :: "'e exec_env"
  op_risk_text :: "risk_error \<Rightarrow> string"
  op_exec_text :: "exec_error \<Rightarrow> string"

text \<open>The gRPC server (\<open>internal/grpc/server.go\<close>): it listens as soon as it is made.\<close>

record grpc_config =
  gsc_port :: string
  gsc_shutdown_timeout :: duration
  gsc_enable_reflection :: bool

datatype grpc_error = ServerConfigNil | ServerHandlerNil | ListenFailed | StopForced

record 'h grpc_server =
  gs_handler :: 'h
  gs_port :: string
  gs_reflection :: bool

definition NewServer :: "(string \<Rightarrow> bool) \<Rightarrow> grpc_config option \<Rightarrow> 'h option \<Rightarrow> grpc_error + 'h grpc_server" where
  "NewServer port_free config handler =
     (case config of
        None \<Rightarrow> Inl ServerConfigNil
      | Some c \<Rightarrow>
          (case handler of
             None \<Rightarrow> Inl ServerHandlerNil
           | Some h \<Rightarrow>
               if \<not> port_free (gsc_port c) then Inl ListenFailed
               else Inr \<lparr>gs_handler = h, gs_port = gsc_port c, gs_reflection = gsc_enable_reflection c\<rparr>))"

text \<open>
  \<open>Stop\<close> waits for the calls in progress, which for a stream means until its client ends it; \<open>settled\<close> is whether
  the last one ended before the deadline.  Otherwise every call is cut off.
\<close>

definition grpc_Stop :: "bool \<Rightarrow> grpc_error option" where
  "grpc_Stop settled = (if settled then None else Some StopForced)"

datatype oms_start_error =
    OmsConfigInvalid oms_config_error | OmsLoggerFailed logger_error
  | DsnInvalid | PoolFailed | DbPingFailed | RedisPingFailed | KafkaProducerFailed
  | RiskEngineFailed engine_error | RateLimiterFailed limiter_error | KisClientFailed kis_error
  | HandlerFailed handler_error | ServerFailed grpc_error

datatype oms_event =
    OpenDb pool_config | OpenRedis redis_options | OpenKafka "string list"
  | StopGrpc | CloseKafka | CloseRedis | CloseDb

definition oms_logger :: "oms_config \<Rightarrow> logger_config" where
  "oms_logger c =
     (let l = cfg_logger c in
      \<lparr>lgc_level = oms_log_level l, lgc_format = oms_log_format l, lgc_output = oms_log_output l,
       lgc_time_format = [], lgc_service_name = oms_log_service_name l, lgc_environment = oms_log_environment l,
       lgc_enable_caller = oms_log_enable_caller l, lgc_caller_skip = 0\<rparr>)"

text \<open>\<open>initDatabase\<close>; the settings of the pool are cut to 32 bits, and a pool that does not answer is closed.\<close>

definition oms_pool :: "oms_config \<Rightarrow> pool_config" where
  "oms_pool c =
     (let d = cfg_database c in
      \<lparr>pool_dsn = GetDatabaseDSN c, pool_max_conns = word_of_int (oms_db_max_connections d),
       pool_min_conns = word_of_int (oms_db_min_connections d), pool_max_lifetime = oms_db_max_conn_lifetime d,
       pool_max_idle_time = oms_db_max_conn_idle_time d\<rparr>)"

definition oms_initDatabase ::
  "('w, 's, 'e) oms_platform \<Rightarrow> oms_config \<Rightarrow> oms_start_error option \<times> oms_event list" where
  "oms_initDatabase pl c =
     (if \<not> op_dsn_parses pl (GetDatabaseDSN c) then (Some DsnInvalid, [])
      else if \<not> op_pool_opens pl (oms_pool c) then (Some PoolFailed, [])
      else if \<not> op_db_answers pl then (Some DbPingFailed, [OpenDb (oms_pool c), CloseDb])
      else (None, [OpenDb (oms_pool c)]))"

definition oms_redis_options :: "oms_config \<Rightarrow> redis_options" where
  "oms_redis_options c =
     (let r = cfg_redis c in
      \<lparr>ro_addr = oms_rd_host r @ '':'' @ oms_rd_port r, ro_password = oms_rd_password r, ro_db = oms_rd_db r,
       ro_pool_size = oms_rd_pool_size r, ro_dial_timeout = oms_rd_connect_timeout r,
       ro_read_timeout = oms_rd_read_timeout r, ro_write_timeout = oms_rd_write_timeout r\<rparr>)"

definition oms_risk :: "oms_config \<Rightarrow> risk_config" where
  "oms_risk c =
     (let r = cfg_risk c in
      \<lparr>MaxOrderValue = oms_risk_max_order_value r, PriceDeviation = oms_risk_price_deviation r,
       DailyLossLimit = oms_risk_daily_loss_limit r, AllowedSymbols = oms_risk_allowed_symbols r,
       DuplicateWindow = oms_risk_duplicate_window r, EnableRiskChecks = oms_risk_enable_risk_checks r\<rparr>)"

definition oms_kis :: "oms_config \<Rightarrow> kis_config" where
  "oms_kis c =
     (let k = cfg_kis c in
      \<lparr>kcf_base_url = oms_kis_base_url k, kcf_app_key = oms_kis_app_key k, kcf_app_secret = oms_kis_app_secret k,
       kcf_account_no = oms_kis_account_no k, kcf_timeout = oms_kis_timeout k,
       kcf_max_retries = oms_kis_max_retries k, kcf_retry_delay = oms_kis_retry_delay k\<rparr>)"

definition oms_grpc :: "oms_config \<Rightarrow> grpc_config" where
  "oms_grpc c =
     (let v = cfg_server c in
      \<lparr>gsc_port = oms_grpc_port v, gsc_shutdown_timeout = oms_shutdown_timeout v,
       gsc_enable_reflection = oms_enable_reflection v\<rparr>)"

text \<open>From the risk engine to the server: only the port is opened here, by the last step, and every constructor can refuse.\<close>

definition oms_components ::
  "('w, 's, 'e) oms_platform \<Rightarrow> oms_config \<Rightarrow> oms_start_error + ('w, 's, 'e) handler" where
  "oms_components pl c =
     (case NewEngine (Some (oms_risk c))
             (Some \<lparr>dep_repository = True, dep_redis = Some (op_redis pl), dep_env = op_risk_env pl\<rparr>) of
        Inl err \<Rightarrow> Inl (RiskEngineFailed err)
      | Inr riskEngine \<Rightarrow>
          (case NewLimiter True (Some \<lparr>lc_rate = oms_rate_rate (cfg_rate_limit c), lc_burst = oms_rate_burst (cfg_rate_limit c)\<rparr>) of
             Inl err \<Rightarrow> Inl (RateLimiterFailed err)
           | Inr (rateLimiter, _) \<Rightarrow>
               (case NewKISClient (Some (oms_kis c)) of
                  Inl err \<Rightarrow> Inl (KisClientFailed err)
                | Inr kisClient \<Rightarrow>
                    (let orderExecutor = NewOrderExecutor kisClient (op_repository pl) (oms_kf_topic_order_events (cfg_kafka c)) in
                     case NewOrderServiceHandler (Some (Some riskEngine, Some rateLimiter, Some orderExecutor, Some (op_repository pl))) of
                       Inl err \<Rightarrow> Inl (HandlerFailed err)
                     | Inr (eng, lmt, ex, repo) \<Rightarrow>
                         (case NewServer (op_port_free pl) (Some (oms_grpc c)) (Some \<lparr>h_engine = eng, h_limiter = lmt,
                             h_redis = op_redis pl, h_now = op_now pl, h_executor = ex, h_env = op_exec_env pl,
                             h_risk_text = op_risk_text pl, h_exec_text = op_exec_text pl\<rparr>) of
                            Inl err \<Rightarrow> Inl (ServerFailed err)
                          | Inr server \<Rightarrow> Inr (gs_handler server))))))"

text \<open>
  \<open>run\<close> up to the wait for a signal.  An error returns at once and runs the deferred calls of what has
  been opened so far, the last one first.
\<close>

definition oms_start ::
  "('w, 's, 'e) oms_platform \<Rightarrow> env_parsers \<Rightarrow> env_vars \<Rightarrow> log_globals \<Rightarrow>
     (oms_start_error + ('w, 's, 'e) handler) \<times> oms_event list" where
  "oms_start pl p e g =
     (case LoadOmsConfig p e of
        Inl err \<Rightarrow> (Inl (OmsConfigInvalid err), [])
      | Inr cfg \<Rightarrow>
          (case InitLogger (op_logging pl) (Some (oms_logger cfg)) g of
             Some (Some err, _) \<Rightarrow> (Inl (OmsLoggerFailed err), [])
           | _ \<Rightarrow>
               (case oms_initDatabase pl cfg of
                  (Some err, evs) \<Rightarrow> (Inl err, evs)
                | (None, evs) \<Rightarrow>
                    (let evs1 = evs @ [OpenRedis (oms_redis_options cfg)] in
                     if \<not> op_redis_answers pl (oms_redis_options cfg)
                     then (Inl RedisPingFailed, evs1 @ [CloseRedis, CloseDb])
                     else if \<not> op_kafka_connects pl (oms_kf_brokers (cfg_kafka cfg))
                     then (Inl KafkaProducerFailed, evs1 @ [CloseRedis, CloseDb])
                     else
                       let evs2 = evs1 @ [OpenKafka (oms_kf_brokers (cfg_kafka cfg))] in
                       (case oms_components pl cfg of
                          Inl err \<Rightarrow> (Inl err, evs2 @ [CloseKafka, CloseRedis, CloseDb])
                        | Inr h \<Rightarrow> (Inr h, evs2))))))"

text \<open>
  After the signal everything is closed in order, and then the deferred calls run as well.
\<close>

definition oms_stop :: "oms_event list" where
  "oms_stop = [StopGrpc, CloseKafka, CloseRedis, CloseDb] @ [CloseKafka, CloseRedis, CloseDb]"

subsection \<open>What the start guarantees\<close>

text \<open>The components are refused for two reasons only.\<close>

lemma oms_components_exact:
  "(\<exists>h. oms_components pl c = Inr h) \<longleftrightarrow>
     0 < oms_rate_rate (cfg_rate_limit c) \<and> op_port_free pl (oms_grpc_port (cfg_server c))"
  by (simp add: oms_components_def NewServer_def oms_grpc_def NewEngine_def NewLimiter_def NewKISClient_def NewOrderServiceHandler_def Let_def
    linorder_not_le)

lemma oms_components_client:
  assumes "oms_components pl c = Inr h"
  shows "ex_client (h_executor h) = \<lparr>kc_base_url = oms_kis_base_url (cfg_kis c), kc_app_key = oms_kis_app_key (cfg_kis c),
      kc_app_secret = oms_kis_app_secret (cfg_kis c), kc_account_no = oms_kis_account_no (cfg_kis c),
      kc_timeout = oms_kis_timeout (cfg_kis c), kc_max_retries = oms_kis_max_retries (cfg_kis c),
      kc_retry_delay = oms_kis_retry_delay (cfg_kis c)\<rparr>"
    and "ex_repo (h_executor h) = op_repository pl" and "h_env h = op_exec_env pl"
  using assms
  by (auto simp: oms_components_def NewServer_def oms_grpc_def NewEngine_def NewLimiter_def NewKISClient_def NewOrderServiceHandler_def
      NewOrderExecutor_def oms_kis_def Let_def split: if_splits)

lemma oms_start_cases:
  assumes "oms_start pl p e g = (Inr h, evs)"
  obtains cfg where "LoadOmsConfig p e = Inr cfg" "oms_components pl cfg = Inr h"
    "evs = [OpenDb (oms_pool cfg), OpenRedis (oms_redis_options cfg), OpenKafka (oms_kf_brokers (cfg_kafka cfg))]"
  using assms
  by (auto simp: oms_start_def oms_initDatabase_def Let_def split: sum.splits option.splits prod.splits if_splits)

lemma oms_start_ok:
  "(\<exists>evs. oms_start pl p e g = (Inr h, evs)) \<longleftrightarrow>
     (\<exists>cfg. LoadOmsConfig p e = Inr cfg \<and> logger_ok (op_logging pl) (oms_logger cfg) \<and>
        op_dsn_parses pl (GetDatabaseDSN cfg) \<and> op_pool_opens pl (oms_pool cfg) \<and> op_db_answers pl \<and>
        op_redis_answers pl (oms_redis_options cfg) \<and> op_kafka_connects pl (oms_kf_brokers (cfg_kafka cfg)) \<and>
        oms_components pl cfg = Inr h)"
proof (cases "LoadOmsConfig p e")
  case (Inr cfg)
  show ?thesis
  proof (cases "logger_ok (op_logging pl) (oms_logger cfg)")
    case True
    then obtain g' where "InitLogger (op_logging pl) (Some (oms_logger cfg)) g = Some (None, g')"
      using InitLogger_exact [of "op_logging pl" "oms_logger cfg" g] by auto
    with Inr True show ?thesis
      by (auto simp: oms_start_def oms_initDatabase_def Let_def split: sum.splits)
  next
    case False
    then obtain e' g' where "InitLogger (op_logging pl) (Some (oms_logger cfg)) g = Some (Some e', g')"
      using InitLogger_exact [of "op_logging pl" "oms_logger cfg" g] by auto
    with Inr False show ?thesis by (simp add: oms_start_def)
  qed
qed (simp add: oms_start_def)

lemma LoadOmsConfig_reads: "LoadOmsConfig p e = Inr cfg \<Longrightarrow> cfg = read_oms_config p e"
  by (auto simp: LoadOmsConfig_def Let_def split: option.splits)

lemma loaded_account: "oms_kis_account_no (cfg_kis (read_oms_config p e)) = Getenv e ''KIS_ACCOUNT_NO''"
  by (simp add: read_oms_config_def load_oms_kis_config_def getEnv_def Let_def)

text \<open>The stores opened and not yet closed, and those closed without being open.\<close>

fun still_open :: "oms_event list \<Rightarrow> oms_event list \<Rightarrow> oms_event list" where
  "still_open [] acc = acc"
| "still_open (OpenDb d # evs) acc = still_open evs (OpenDb d # acc)"
| "still_open (OpenRedis r # evs) acc = still_open evs (OpenRedis r # acc)"
| "still_open (OpenKafka b # evs) acc = still_open evs (OpenKafka b # acc)"
| "still_open (CloseDb # evs) acc = still_open evs (filter (\<lambda>x. \<forall>d. x \<noteq> OpenDb d) acc)"
| "still_open (CloseRedis # evs) acc = still_open evs (filter (\<lambda>x. \<forall>r. x \<noteq> OpenRedis r) acc)"
| "still_open (CloseKafka # evs) acc = still_open evs (filter (\<lambda>x. \<forall>b. x \<noteq> OpenKafka b) acc)"
| "still_open (StopGrpc # evs) acc = still_open evs acc"

text \<open>
  No start leaks: when \<open>run\<close> returns with an error during the start everything it opened has been closed,
  and after a start that succeeds the stop closes everything, the Kafka producer and the Redis client
  twice.
\<close>

theorem oms_start_releases:
  "oms_start pl p e g = (r, evs) \<Longrightarrow>
     still_open (evs @ (case r of Inl err \<Rightarrow> [] | Inr h \<Rightarrow> oms_stop)) [] = [] \<and>
     (\<forall>h. r = Inr h \<longrightarrow> count_list (evs @ oms_stop) CloseKafka = 2)"
  by (auto simp: oms_start_def oms_initDatabase_def Let_def oms_stop_def
      split: sum.splits option.splits prod.splits if_splits)

text \<open>What a valid configuration is.\<close>

theorem oms_Validate_exact:
  "oms_Validate c = None \<longleftrightarrow>
     oms_grpc_port (cfg_server c) \<noteq> [] \<and> oms_db_host (cfg_database c) \<noteq> [] \<and> oms_db_user (cfg_database c) \<noteq> [] \<and>
     oms_db_database (cfg_database c) \<noteq> [] \<and> oms_kf_brokers (cfg_kafka c) \<noteq> [] \<and>
     (oms_log_environment (cfg_logger c) \<noteq> ''production'' \<or>
      oms_kis_app_key (cfg_kis c) \<noteq> [] \<and> oms_kis_app_secret (cfg_kis c) \<noteq> [])"
  by (simp add: oms_Validate_def)

text \<open>
  The defaults make every required setting but the credentials present, so the configuration is refused
  exactly in the environment spelt \<open>production\<close> and without a credential.
\<close>

lemma oms_required_present:
  "oms_grpc_port (cfg_server (read_oms_config p e)) \<noteq> []" "oms_db_host (cfg_database (read_oms_config p e)) \<noteq> []"
  "oms_db_user (cfg_database (read_oms_config p e)) \<noteq> []" "oms_db_database (cfg_database (read_oms_config p e)) \<noteq> []"
  "oms_kf_brokers (cfg_kafka (read_oms_config p e)) \<noteq> []"
  by (simp_all add: read_oms_config_def load_oms_server_config_def load_oms_database_config_def
      load_oms_kafka_config_def Let_def LoadSharedConfig_def getEnv_ne getEnvAsSlice_ne)

theorem oms_config_refused_exactly:
  "(\<exists>err. LoadOmsConfig p e = Inl err) \<longleftrightarrow>
     Getenv e ''ENVIRONMENT'' = ''production'' \<and> (Getenv e ''KIS_APP_KEY'' = [] \<or> Getenv e ''KIS_APP_SECRET'' = [])"
proof -
  have "oms_log_environment (cfg_logger (read_oms_config p e)) = ''production'' \<longleftrightarrow> Getenv e ''ENVIRONMENT'' = ''production''"
    by (simp add: read_oms_config_def load_oms_logger_config_def Let_def LoadSharedConfig_def getEnv_def)
  moreover have "oms_kis_app_key (cfg_kis (read_oms_config p e)) = Getenv e ''KIS_APP_KEY''"
    "oms_kis_app_secret (cfg_kis (read_oms_config p e)) = Getenv e ''KIS_APP_SECRET''"
    by (simp_all add: read_oms_config_def load_oms_kis_config_def Let_def getEnv_def)
  moreover have "(\<exists>err. LoadOmsConfig p e = Inl err) \<longleftrightarrow> oms_Validate (read_oms_config p e) \<noteq> None"
    by (auto simp: LoadOmsConfig_def Let_def split: option.split)
  ultimately show ?thesis
    using oms_required_present [of p e] by (simp add: oms_Validate_exact)
qed

subsection \<open>A service without an account\<close>

lemma submit_without_account:
  assumes "kis_world_laws env sent" "length (kc_account_no c) < 8"
  shows "submit_attempts c env req n left le k = (r, k') \<Longrightarrow> sent k' = sent k \<and> (\<forall>resp. r \<noteq> KOk resp)"
proof (induction left arbitrary: n le k)
  case (Suc left)
  let ?k1 = "if 0 < n then ke_sleep env (retry_backoff c n) k else k"
  obtain res k2 where b: "ke_breaker env (submitOrderInternal c env req) ?k1 = (res, k2)" by (rule prod.exhaust)
  have i: "snd (submitOrderInternal c env req k0) = k0 \<and> (\<forall>resp. fst (submitOrderInternal c env req k0) \<noteq> KOk resp)" for k0
    using assms(2) by (simp add: submitOrderInternal_def)
  have "sent ?k1 = sent k" using assms(1) by (simp add: kis_world_laws_def)
  moreover have "sent k2 = sent ?k1 \<and> (\<forall>resp. res \<noteq> KOk resp)"
    using assms(1) b i unfolding kis_world_laws_def by (metis fst_conv snd_conv kis_outcome.distinct(1))
  ultimately show ?case
    using Suc.prems b Suc.IH by (cases res) (auto simp: Let_def)
qed auto

text \<open>Writing an event to Kafka is no request to the broker.\<close>

definition kafka_apart :: "'e exec_env \<Rightarrow> ('e \<Rightarrow> http_request list) \<Rightarrow> bool" where
  "kafka_apart env sent \<longleftrightarrow> (\<forall>topic key ev k. sent (snd (ex_kafka env topic key ev k)) = sent k)"


subsection \<open>Concrete runs\<close>

lemma silent_panic: "processOrder h req userID world = ((out, True), world') \<Longrightarrow> out = []"
  by (auto simp: processOrder_def split: option.splits prod.splits sum.splits bool.splits exec_error.splits)

definition sample_logging :: logging_lib where
  "sample_logging = \<lparr>ll_parse_level = (\<lambda>s. Some 1), ll_file_opens = (\<lambda>s. True)\<rparr>"

definition sample_platform :: "(hashes, pg, http_request list) oms_platform" where
  "sample_platform =
     \<lparr>op_logging = sample_logging, op_dsn_parses = (\<lambda>s. True), op_pool_opens = (\<lambda>s. True), op_db_answers = True,
      op_redis_answers = (\<lambda>s. True), op_kafka_connects = (\<lambda>s. True), op_port_free = (\<lambda>s. True),
      op_redis = hash_redis,
      op_risk_env = \<lparr>env_redis = hash_redis, env_parse_float = (\<lambda>s. (NaN, False)), env_today = (\<lambda>w. []), env_sha256_hex = id\<rparr>,
      op_now = (\<lambda>w. 1000), op_repository = NewPostgresOrderRepository sample_pg_env,
      op_exec_env = sample_exec_env, op_risk_text = (\<lambda>e. []), op_exec_text = (\<lambda>e. [])\<rparr>"

lemma sample_platform_sel [simp]:
  "op_logging sample_platform = sample_logging" "op_dsn_parses sample_platform x" "op_pool_opens sample_platform pc"
  "op_db_answers sample_platform" "op_redis_answers sample_platform ro" "op_kafka_connects sample_platform bs"
  "op_port_free sample_platform x" "op_redis sample_platform = hash_redis" "op_now sample_platform = (\<lambda>w. 1000)"
  "op_repository sample_platform = NewPostgresOrderRepository sample_pg_env"
  "op_exec_env sample_platform = sample_exec_env"
  by (simp_all add: sample_platform_def)

definition no_parsers :: env_parsers where
  "no_parsers = \<lparr>ep_float = (\<lambda>s. None), ep_duration = (\<lambda>s. None)\<rparr>"

definition sample_vars :: env_vars where
  "sample_vars = [''ENABLE_RISK_CHECKS'' \<mapsto> ''false'']"

definition market_msg :: order_msg where
  "market_msg = sample_msg\<lparr>rq_type := 1, rq_price := Fin False 0\<rparr>"

lemma sample_start:
  obtains h evs where "oms_start sample_platform no_parsers sample_vars g = (Inr h, evs)"
    "oms_components sample_platform (read_oms_config no_parsers sample_vars) = Inr h"
proof -
  let ?cfg = "read_oms_config no_parsers sample_vars"
  have "\<not> (\<exists>err. LoadOmsConfig no_parsers sample_vars = Inl err)"
    unfolding oms_config_refused_exactly by (simp add: sample_vars_def Getenv_def)
  then have l: "LoadOmsConfig no_parsers sample_vars = Inr ?cfg"
    using LoadOmsConfig_reads [of no_parsers sample_vars] by (cases "LoadOmsConfig no_parsers sample_vars") auto
  have "oms_rate_rate (cfg_rate_limit ?cfg) = 5"
    by (simp add: read_oms_config_def load_oms_rate_config_def Let_def getEnvAsInt_def env_parsed_def Getenv_def sample_vars_def)
  then obtain h where h: "oms_components sample_platform ?cfg = Inr h"
    using oms_components_exact [of sample_platform ?cfg] by auto
  have "logger_ok (op_logging sample_platform) (oms_logger ?cfg)"
    by (simp add: logger_ok_def sample_logging_def)
  then have "\<exists>evs. oms_start sample_platform no_parsers sample_vars g = (Inr h, evs)"
    unfolding oms_start_ok by (intro conjI exI [of _ ?cfg]) (simp_all add: l h)
  with h that show thesis by blast
qed


end
