(* ===== verification/User_Startup.thy ===== *)
theory User_Startup
  imports Go_Env User_Handlers
begin

text \<open>
  The start of the user service: \<open>internal/config/config.go\<close>, \<open>cmd/server/main.go\<close> with its router, and the
  middleware that only wraps the handlers (\<open>cors.go\<close>, \<open>logger.go\<close>, \<open>recovery.go\<close>).  The router library, the CORS
  library and the decoding of the bodies are parameters; the routes and their order of wrapping are
  the code's.
\<close>

subsection \<open>The configuration\<close>

record usr_server_config =
  usv_host :: string
  usv_port :: int
  usv_read_timeout :: duration
  usv_write_timeout :: duration
  usv_shutdown_timeout :: duration
  usv_environment :: string

record usr_database_config =
  usd_host :: string
  usd_port :: int
  usd_user :: string
  usd_password :: string
  usd_database :: string
  usd_ssl_mode :: string
  usd_max_conns :: int
  usd_min_conns :: int
  usd_max_conn_lifetime :: duration
  usd_max_conn_idle_time :: duration

record usr_jwt_config =
  usj_access_secret :: string
  usj_refresh_secret :: string
  usj_access_ttl :: duration
  usj_refresh_ttl :: duration
  usj_issuer :: string

record usr_encryption_config =
  usx_master_key :: string
  usx_previous_master_key :: string

record usr_logger_config =
  usl_level :: string
  usl_format :: string

record usr_config =
  usr_server :: usr_server_config
  usr_database :: usr_database_config
  usr_jwt :: usr_jwt_config
  usr_encryption :: usr_encryption_config
  usr_logger :: usr_logger_config

definition loadServerConfig :: "env_parsers \<Rightarrow> env_vars \<Rightarrow> usr_server_config" where
  "loadServerConfig p e =
     \<lparr>usv_host = getEnv e ''SERVER_HOST'' ''0.0.0.0'',
      usv_port = getEnvAsInt e ''SERVER_PORT'' 8080,
      usv_read_timeout = getEnvAsDuration p e ''SERVER_READ_TIMEOUT'' (10 * Second),
      usv_write_timeout = getEnvAsDuration p e ''SERVER_WRITE_TIMEOUT'' (10 * Second),
      usv_shutdown_timeout = getEnvAsDuration p e ''SERVER_SHUTDOWN_TIMEOUT'' (15 * Second),
      usv_environment = getEnv e ''ENVIRONMENT'' ''development''\<rparr>"

definition loadDatabaseConfig :: "env_parsers \<Rightarrow> env_vars \<Rightarrow> usr_database_config" where
  "loadDatabaseConfig p e =
     \<lparr>usd_host = getEnv e ''DB_HOST'' ''localhost'',
      usd_port = getEnvAsInt e ''DB_PORT'' 5432,
      usd_user = getEnv e ''DB_USER'' ''postgres'',
      usd_password = getEnv e ''DB_PASSWORD'' [],
      usd_database = getEnv e ''DB_NAME'' ''aipx_users'',
      usd_ssl_mode = getEnv e ''DB_SSL_MODE'' ''disable'',
      usd_max_conns = getEnvAsInt e ''DB_MAX_CONNS'' 25,
      usd_min_conns = getEnvAsInt e ''DB_MIN_CONNS'' 5,
      usd_max_conn_lifetime = getEnvAsDuration p e ''DB_MAX_CONN_LIFETIME'' Hour,
      usd_max_conn_idle_time = getEnvAsDuration p e ''DB_MAX_CONN_IDLE_TIME'' (10 * Minute)\<rparr>"

definition loadJWTConfig :: "env_parsers \<Rightarrow> env_vars \<Rightarrow> usr_jwt_config" where
  "loadJWTConfig p e =
     \<lparr>usj_access_secret = getEnv e ''JWT_ACCESS_SECRET'' [],
      usj_refresh_secret = getEnv e ''JWT_REFRESH_SECRET'' [],
      usj_access_ttl = getEnvAsDuration p e ''JWT_ACCESS_TTL'' (15 * Minute),
      usj_refresh_ttl = getEnvAsDuration p e ''JWT_REFRESH_TTL'' (7 * 24 * Hour),
      usj_issuer = getEnv e ''JWT_ISSUER'' ''aipx-user-service''\<rparr>"

definition loadEncryptionConfig :: "env_parsers \<Rightarrow> env_vars \<Rightarrow> usr_encryption_config" where
  "loadEncryptionConfig p e =
     \<lparr>usx_master_key = getEnv e ''ENCRYPTION_MASTER_KEY'' [],
      usx_previous_master_key = getEnv e ''ENCRYPTION_PREVIOUS_KEY'' []\<rparr>"

definition loadLoggerConfig :: "env_parsers \<Rightarrow> env_vars \<Rightarrow> usr_logger_config" where
  "loadLoggerConfig p e =
     \<lparr>usl_level = getEnv e ''LOG_LEVEL'' ''info'',
      usl_format = getEnv e ''LOG_FORMAT'' ''json''\<rparr>"

definition read_usr_config :: "env_parsers \<Rightarrow> env_vars \<Rightarrow> usr_config" where
  "read_usr_config p e =
     \<lparr>usr_server = loadServerConfig p e,
      usr_database = loadDatabaseConfig p e,
      usr_jwt = loadJWTConfig p e,
      usr_encryption = loadEncryptionConfig p e,
      usr_logger = loadLoggerConfig p e\<rparr>"

datatype usr_config_error =
    ServerPortInvalid int | UsrHostRequired | UsrUserRequired | UsrNameRequired
  | UsrAccessSecretRequired | UsrRefreshSecretRequired | UsrAccessSecretShort | UsrRefreshSecretShort
  | MasterKeyRequired | UsrLogLevelInvalid string | UsrLogFormatInvalid string

definition usr_Validate :: "usr_config \<Rightarrow> usr_config_error option" where
  "usr_Validate c =
     (if usv_port (usr_server c) < 1 \<or> 65535 < usv_port (usr_server c) then Some (ServerPortInvalid (usv_port (usr_server c)))
      else if usd_host (usr_database c) = [] then Some UsrHostRequired
      else if usd_user (usr_database c) = [] then Some UsrUserRequired
      else if usd_database (usr_database c) = [] then Some UsrNameRequired
      else if usj_access_secret (usr_jwt c) = [] then Some UsrAccessSecretRequired
      else if usj_refresh_secret (usr_jwt c) = [] then Some UsrRefreshSecretRequired
      else if length (usj_access_secret (usr_jwt c)) < 32 then Some UsrAccessSecretShort
      else if length (usj_refresh_secret (usr_jwt c)) < 32 then Some UsrRefreshSecretShort
      else if usx_master_key (usr_encryption c) = [] then Some MasterKeyRequired
      else if usl_level (usr_logger c) \<notin> {''debug'', ''info'', ''warn'', ''error''} then Some (UsrLogLevelInvalid (usl_level (usr_logger c)))
      else if usl_format (usr_logger c) \<notin> {''json'', ''text''} then Some (UsrLogFormatInvalid (usl_format (usr_logger c)))
      else None)"

definition LoadUsrConfig :: "env_parsers \<Rightarrow> env_vars \<Rightarrow> usr_config_error + usr_config" where
  "LoadUsrConfig p e =
     (let cfg = read_usr_config p e in case usr_Validate cfg of Some err \<Rightarrow> Inl err | None \<Rightarrow> Inr cfg)"

definition usr_GetDatabaseDSN :: "usr_database_config \<Rightarrow> string" where
  "usr_GetDatabaseDSN d =
     ''host='' @ usd_host d @ '' port='' @ int_str (usd_port d) @ '' user='' @ usd_user d @ '' password='' @ usd_password d @
     '' dbname='' @ usd_database d @ '' sslmode='' @ usd_ssl_mode d"

definition usr_IsProduction :: "usr_server_config \<Rightarrow> bool" where
  "usr_IsProduction c \<longleftrightarrow> usv_environment c = ''production''"

definition usr_IsDevelopment :: "usr_server_config \<Rightarrow> bool" where
  "usr_IsDevelopment c \<longleftrightarrow> usv_environment c = ''development''"

subsection \<open>Middleware\<close>

record cors_config =
  co_origins :: "string list"
  co_methods :: "string list"
  co_headers :: "string list"
  co_exposed :: "string list"
  co_credentials :: bool
  co_max_age :: int

definition DefaultCORSConfig :: cors_config where
  "DefaultCORSConfig =
     \<lparr>co_origins = [''*''], co_methods = [''GET'', ''POST'', ''PUT'', ''PATCH'', ''DELETE'', ''OPTIONS''],
      co_headers = [''Accept'', ''Authorization'', ''Content-Type'', ''X-CSRF-Token''], co_exposed = [''Link''],
      co_credentials = False, co_max_age = 300\<rparr>"

definition ProductionCORSConfig :: "string list \<Rightarrow> cors_config" where
  "ProductionCORSConfig allowedOrigins =
     \<lparr>co_origins = allowedOrigins, co_methods = [''GET'', ''POST'', ''PUT'', ''PATCH'', ''DELETE''],
      co_headers = [''Accept'', ''Authorization'', ''Content-Type''], co_exposed = [],
      co_credentials = True, co_max_age = 300\<rparr>"

definition getCORSConfig :: "usr_config \<Rightarrow> cors_config" where
  "getCORSConfig c =
     (if usr_IsProduction (usr_server c) then ProductionCORSConfig [''https://yourdomain.com''] else DefaultCORSConfig)"

text \<open>
  A reply of a handler of this service, the health check's, one of the libraries (a status), or the fixed
  text of the recovery.  An HTTP handler yields its reply, or nothing when it panics, and the lines it logs:
  method, path and status of a request, or its panic.
\<close>

datatype web_reply = ApiReply api_reply | HealthReply | LibraryReply int | RecoveredReply

definition web_status :: "web_reply \<Rightarrow> int" where
  "web_status r = (case r of ApiReply a \<Rightarrow> ay_status a | HealthReply \<Rightarrow> 200 | LibraryReply n \<Rightarrow> n | RecoveredReply \<Rightarrow> 500)"

datatype web_line = RequestLine string string int | PanicLine string string

type_synonym 's web_handler = "http_req \<Rightarrow> 's \<Rightarrow> (web_reply option \<times> web_line list) \<times> 's"

definition RecoveryMiddleware :: "'s web_handler \<Rightarrow> 's web_handler" where
  "RecoveryMiddleware handler r s =
     (case handler r s of
        ((Some reply, ls), s') \<Rightarrow> ((Some reply, ls), s')
      | ((None, ls), s') \<Rightarrow> ((Some RecoveredReply, ls @ [PanicLine (hq_method r) (hq_path r)]), s'))"

text \<open>The line is written after the handler has returned, so a panic skips it.\<close>

definition LoggerMiddleware :: "'s web_handler \<Rightarrow> 's web_handler" where
  "LoggerMiddleware handler r s =
     (case handler r s of
        ((Some reply, ls), s') \<Rightarrow> ((Some reply, ls @ [RequestLine (hq_method r) (hq_path r) (web_status reply)]), s')
      | ((None, ls), s') \<Rightarrow> ((None, ls), s'))"

text \<open>
  The libraries: whether the CORS handler answers a request itself, with which status, and the status of a
  request no route matches.
\<close>

record web_libs =
  wl_cors :: "cors_config \<Rightarrow> http_req \<Rightarrow> int option"
  wl_unmatched :: "http_req \<Rightarrow> int"

definition CORSMiddleware :: "web_libs \<Rightarrow> cors_config option \<Rightarrow> 's web_handler \<Rightarrow> 's web_handler" where
  "CORSMiddleware lib config handler r s =
     (let c = (case config of None \<Rightarrow> DefaultCORSConfig | Some c \<Rightarrow> c) in
      case wl_cors lib c r of Some status \<Rightarrow> ((Some (LibraryReply status), []), s) | None \<Rightarrow> handler r s)"

subsection \<open>The router\<close>

text \<open>The bodies, decoded for each of the routes that read one.\<close>

record body_decoders =
  bd_signup :: "http_req \<Rightarrow> string + signup_request"
  bd_login :: "http_req \<Rightarrow> string + login_request"
  bd_refresh :: "http_req \<Rightarrow> string + refresh_request"
  bd_update :: "http_req \<Rightarrow> string + update_request"

datatype user_route =
    HealthRoute | SignupRoute | LoginRoute | RefreshRoute | LogoutRoute | GetMeRoute | UpdateMeRoute | DeleteMeRoute

definition user_routes :: "(string \<times> string \<times> user_route) list" where
  "user_routes =
     [(''GET'', ''/health'', HealthRoute),
      (''POST'', ''/api/v1/auth/signup'', SignupRoute), (''POST'', ''/api/v1/auth/login'', LoginRoute),
      (''POST'', ''/api/v1/auth/refresh'', RefreshRoute), (''POST'', ''/api/v1/auth/logout'', LogoutRoute),
      (''GET'', ''/api/v1/users/me'', GetMeRoute), (''PATCH'', ''/api/v1/users/me'', UpdateMeRoute),
      (''DELETE'', ''/api/v1/users/me'', DeleteMeRoute)]"

fun find_route :: "(string \<times> string \<times> user_route) list \<Rightarrow> string \<Rightarrow> string \<Rightarrow> user_route option" where
  "find_route [] meth path = None"
| "find_route ((m, q, route) # rs) meth path = (if m = meth \<and> q = path then Some route else find_route rs meth path)"

text \<open>The call of a route; the health check is none.\<close>

fun call_of :: "body_decoders \<Rightarrow> http_req \<Rightarrow> user_route \<Rightarrow> api_call option" where
  "call_of bd r HealthRoute = None"
| "call_of bd r SignupRoute = Some (CallSignup (bd_signup bd r))"
| "call_of bd r LoginRoute = Some (CallLogin (bd_login bd r))"
| "call_of bd r RefreshRoute = Some (CallRefresh (bd_refresh bd r))"
| "call_of bd r LogoutRoute = Some (CallLogout (bd_refresh bd r))"
| "call_of bd r GetMeRoute = Some CallGetMe"
| "call_of bd r UpdateMeRoute = Some (CallUpdateMe (bd_update bd r))"
| "call_of bd r DeleteMeRoute = Some CallDeleteMe"

definition under_users :: "string \<Rightarrow> bool" where
  "under_users path \<longleftrightarrow> path = ''/api/v1/users'' \<or> has_prefix path ''/api/v1/users/''"

text \<open>
  The authentication of \<open>/users\<close> wraps that part of the router as a whole, so it also comes before the answer to
  an unknown path there; the routes of \<open>serve\<close> contain it already.
\<close>

definition route_request :: "web_libs \<Rightarrow> body_decoders \<Rightarrow> 's auth_handler \<Rightarrow> 's web_handler" where
  "route_request lib bd h r s =
     (case find_route user_routes (hq_method r) (hq_path r) of
        None \<Rightarrow>
          if under_users (hq_path r) then
            (case AuthMiddleware (ah_env h) (ah_jwt h) r s of
               (Unauthorized message, s1) \<Rightarrow>
                 (let (reply, s2) = respondError (ah_env h) 401 message [] s1 in ((Some (ApiReply reply), []), s2))
             | (Authenticated claims, s1) \<Rightarrow> ((Some (LibraryReply (wl_unmatched lib r)), []), s1))
          else ((Some (LibraryReply (wl_unmatched lib r)), []), s)
      | Some route \<Rightarrow>
          (case call_of bd r route of
             None \<Rightarrow> ((Some HealthReply, []), s)
           | Some call \<Rightarrow> (let (reply, s1) = serve h r call s in ((Some (ApiReply reply), []), s1))))"

definition setupRouter :: "web_libs \<Rightarrow> body_decoders \<Rightarrow> usr_config \<Rightarrow> 's auth_handler \<Rightarrow> 's web_handler" where
  "setupRouter lib bd cfg h =
     RecoveryMiddleware (LoggerMiddleware (CORSMiddleware lib (Some (getCORSConfig cfg)) (route_request lib bd h)))"

subsection \<open>The start\<close>

record usr_platform =
  us_dsn_parses :: "string \<Rightarrow> bool"
  us_pool_opens :: "pool_config \<Rightarrow> bool"
  us_db_answers :: bool

datatype usr_start_error =
    UsrConfigInvalid usr_config_error | UsrDsnInvalid | UsrPoolFailed | UsrPingFailed | UsrJwtFailed jwt_config_error

definition usr_pool :: "usr_database_config \<Rightarrow> pool_config" where
  "usr_pool d =
     \<lparr>pool_dsn = usr_GetDatabaseDSN d, pool_max_conns = word_of_int (usd_max_conns d),
      pool_min_conns = word_of_int (usd_min_conns d), pool_max_lifetime = usd_max_conn_lifetime d,
      pool_max_idle_time = usd_max_conn_idle_time d\<rparr>"

definition usr_initDatabase :: "usr_platform \<Rightarrow> usr_database_config \<Rightarrow> usr_start_error option" where
  "usr_initDatabase pl d =
     (if \<not> us_dsn_parses pl (usr_GetDatabaseDSN d) then Some UsrDsnInvalid
      else if \<not> us_pool_opens pl (usr_pool d) then Some UsrPoolFailed
      else if \<not> us_db_answers pl then Some UsrPingFailed else None)"

text \<open>\<open>main\<close> up to the server: the configuration and the manager of the tokens the handlers are built with.\<close>

definition usr_start :: "usr_platform \<Rightarrow> env_parsers \<Rightarrow> env_vars \<Rightarrow> usr_start_error + usr_config \<times> jwt_manager" where
  "usr_start pl p e =
     (case LoadUsrConfig p e of
        Inl err \<Rightarrow> Inl (UsrConfigInvalid err)
      | Inr cfg \<Rightarrow>
          (case usr_initDatabase pl (usr_database cfg) of
             Some err \<Rightarrow> Inl err
           | None \<Rightarrow>
               (let j = usr_jwt cfg in
                case NewJWTManager (usj_access_secret j) (usj_refresh_secret j) (usj_access_ttl j) (usj_refresh_ttl j) (usj_issuer j) of
                  Inl err \<Rightarrow> Inl (UsrJwtFailed err)
                | Inr m \<Rightarrow> Inr (cfg, m))))"

subsection \<open>Properties\<close>

text \<open>A valid configuration has everything the manager of the tokens asks for.\<close>

lemma usr_valid_secrets:
  "usr_Validate c = None \<Longrightarrow>
     32 \<le> length (usj_access_secret (usr_jwt c)) \<and> 32 \<le> length (usj_refresh_secret (usr_jwt c)) \<and>
     1 \<le> usv_port (usr_server c) \<and> usv_port (usr_server c) \<le> 65535 \<and> usx_master_key (usr_encryption c) \<noteq> []"
  by (auto simp: usr_Validate_def split: if_splits)

theorem usr_start_exact:
  "(\<exists>r. usr_start pl p e = Inr r) \<longleftrightarrow>
     usr_Validate (read_usr_config p e) = None \<and> usr_initDatabase pl (usr_database (read_usr_config p e)) = None"
proof (cases "usr_Validate (read_usr_config p e)")
  case None
  with usr_valid_secrets [OF None] show ?thesis
    by (force simp: usr_start_def LoadUsrConfig_def NewJWTManager_def Let_def split: option.split)
qed (simp add: usr_start_def LoadUsrConfig_def)

text \<open>The secrets have no default: without them no environment starts the service.\<close>

theorem usr_start_needs_secrets:
  assumes "usr_start pl p e = Inr r"
  shows "32 \<le> length (Getenv e ''JWT_ACCESS_SECRET'') \<and> 32 \<le> length (Getenv e ''JWT_REFRESH_SECRET'') \<and>
    Getenv e ''ENCRYPTION_MASTER_KEY'' \<noteq> []"
proof -
  have "usr_Validate (read_usr_config p e) = None" using assms usr_start_exact [of pl p e] by auto
  from usr_valid_secrets [OF this] show ?thesis
    by (simp add: read_usr_config_def loadJWTConfig_def loadEncryptionConfig_def getEnv_def Let_def split: if_splits)
qed

lemma find_route_mem: "find_route rs meth path = Some route \<Longrightarrow> (meth, path, route) \<in> set rs"
  by (induction rs meth path rule: find_route.induct) (auto split: if_splits)

lemma protected_routes:
  "\<forall>(m, q, route) \<in> set user_routes. under_users q \<longleftrightarrow> route \<in> {GetMeRoute, UpdateMeRoute, DeleteMeRoute}"
  by (simp add: user_routes_def under_users_def has_prefix_def)

lemma find_route_under_users:
  "find_route user_routes meth path = Some route \<Longrightarrow>
     under_users path \<longleftrightarrow> route \<in> {GetMeRoute, UpdateMeRoute, DeleteMeRoute}"
  using protected_routes find_route_mem by fast


text \<open>
  The attempts at a login are not limited.  The router has no limiter in front of any route: a login is
  answered by its handler from the state as it is, however many came before.
\<close>

theorem login_is_never_limited:
  assumes "wl_cors lib (getCORSConfig cfg) r = None" "hq_method r = ''POST''" "hq_path r = ''/api/v1/auth/login''"
  shows "fst (fst (setupRouter lib bd cfg h r s)) = Some (ApiReply (fst (Login h r (bd_login bd r) s)))"
  using assms
  by (auto simp: setupRouter_def RecoveryMiddleware_def LoggerMiddleware_def CORSMiddleware_def route_request_def
      user_routes_def Let_def split: prod.splits)

text \<open>A panic is answered with 500, and its request leaves the line of the panic only.\<close>

lemma recovered_panic:
  assumes "handler r s = ((None, []), s')"
  shows "RecoveryMiddleware (LoggerMiddleware handler) r s = ((Some RecoveredReply, [PanicLine (hq_method r) (hq_path r)]), s')"
  using assms by (simp add: RecoveryMiddleware_def LoggerMiddleware_def)

text \<open>Only the environment spelt \<open>production\<close> restricts the origins.\<close>

lemma cors_open_elsewhere:
  "''*'' \<in> set (co_origins (getCORSConfig c)) \<longleftrightarrow> usv_environment (usr_server c) \<noteq> ''production''"
  by (simp add: getCORSConfig_def usr_IsProduction_def ProductionCORSConfig_def DefaultCORSConfig_def)

subsection \<open>Concrete runs\<close>

definition plain_libs :: web_libs where
  "plain_libs = \<lparr>wl_cors = (\<lambda>c r. None), wl_unmatched = (\<lambda>r. 404)\<rparr>"

definition health_req :: http_req where
  "health_req = \<lparr>hq_method = ''GET'', hq_path = ''/health'', hq_header = (\<lambda>h. []), hq_remote_addr = [], hq_form = None\<rparr>"


end
