(* ===== verification/Recorder_Startup.thy ===== *)
theory Recorder_Startup
  imports Go_Env Logger Market_Consumer
begin

text \<open>
  The start of the data recorder and its wiring: \<open>internal/config/config.go\<close> and \<open>cmd/server/main.go\<close>, the
  constructors of the two writers, the service as its consumer, four buffers and two writers, its health
  and metrics endpoints, and its shutdown.  Whether TimescaleDB, AWS and Kafka answer are parameters.
\<close>

subsection \<open>The configuration\<close>

record recorder_settings =
  dr_service_name :: string
  dr_environment :: string
  dr_kafka_brokers :: "string list"
  dr_kafka_group_id :: string
  dr_kafka_topics :: "string list"
  dr_kafka_offset_old :: bool
  dr_timescale_host :: string
  dr_timescale_port :: string
  dr_timescale_user :: string
  dr_timescale_password :: string
  dr_timescale_db :: string
  dr_timescale_max_conns :: int
  dr_s3_bucket :: string
  dr_s3_region :: string
  dr_aws_access_key_id :: string
  dr_aws_secret_key :: string
  dr_s3_write_enabled :: bool
  dr_s3_partition_prefix :: string
  dr_batch_size :: int
  dr_batch_timeout :: duration
  dr_s3_batch_size :: int
  dr_s3_batch_timeout :: duration
  dr_max_buffer_size :: int
  dr_flush_workers :: int
  dr_num_consumers :: int
  dr_db_write_workers :: int
  dr_s3_write_workers :: int
  dr_max_retries :: int
  dr_retry_backoff :: duration
  dr_shutdown_timeout :: duration
  dr_health_check_enabled :: bool
  dr_health_check_port :: string
  dr_log_level :: string
  dr_log_format :: string

definition read_recorder_settings :: "env_vars \<Rightarrow> recorder_settings" where
  "read_recorder_settings e =
     \<lparr>dr_service_name = getEnv e ''SERVICE_NAME'' ''data-recorder-service'',
      dr_environment = getEnv e ''ENVIRONMENT'' ''development'',
      dr_kafka_brokers = getEnvAsSlice e ''KAFKA_BROKERS'' [''localhost:9092''],
      dr_kafka_group_id = getEnv e ''KAFKA_GROUP_ID'' ''data-recorder-group'',
      dr_kafka_topics = getEnvAsSlice e ''KAFKA_TOPICS'' [''market.tick'', ''market.orderbook''],
      dr_kafka_offset_old = getEnvAsBool e ''KAFKA_OFFSET_OLD'' False,
      dr_timescale_host = getEnv e ''TIMESCALEDB_HOST'' ''localhost'',
      dr_timescale_port = getEnv e ''TIMESCALEDB_PORT'' ''5433'',
      dr_timescale_user = getEnv e ''TIMESCALEDB_USER'' ''aipx'',
      dr_timescale_password = getEnv e ''TIMESCALEDB_PASSWORD'' ''aipx_dev_password'',
      dr_timescale_db = getEnv e ''TIMESCALEDB_DB'' ''aipx_timeseries'',
      dr_timescale_max_conns = getEnvAsInt e ''TIMESCALEDB_MAX_CONNS'' 20,
      dr_s3_bucket = getEnv e ''S3_BUCKET'' ''aipx-data-lake-dev'',
      dr_s3_region = getEnv e ''S3_REGION'' ''ap-northeast-2'',
      dr_aws_access_key_id = getEnv e ''AWS_ACCESS_KEY_ID'' [],
      dr_aws_secret_key = getEnv e ''AWS_SECRET_ACCESS_KEY'' [],
      dr_s3_write_enabled = getEnvAsBool e ''S3_WRITE_ENABLED'' True,
      dr_s3_partition_prefix = getEnv e ''S3_PARTITION_PREFIX'' ''market-data'',
      dr_batch_size = getEnvAsInt e ''BATCH_SIZE'' 1000,
      dr_batch_timeout = wrap64 (getEnvAsInt e ''BATCH_TIMEOUT_MS'' 5000 * Millisecond),
      dr_s3_batch_size = getEnvAsInt e ''S3_BATCH_SIZE'' 100000,
      dr_s3_batch_timeout = wrap64 (getEnvAsInt e ''S3_BATCH_TIMEOUT_SEC'' 3600 * Second),
      dr_max_buffer_size = getEnvAsInt e ''MAX_BUFFER_SIZE'' 100000,
      dr_flush_workers = getEnvAsInt e ''FLUSH_WORKERS'' 4,
      dr_num_consumers = getEnvAsInt e ''NUM_CONSUMERS'' 4,
      dr_db_write_workers = getEnvAsInt e ''DB_WRITE_WORKERS'' 4,
      dr_s3_write_workers = getEnvAsInt e ''S3_WRITE_WORKERS'' 2,
      dr_max_retries = getEnvAsInt e ''MAX_RETRIES'' 3,
      dr_retry_backoff = wrap64 (getEnvAsInt e ''RETRY_BACKOFF_MS'' 1000 * Millisecond),
      dr_shutdown_timeout = wrap64 (getEnvAsInt e ''SHUTDOWN_TIMEOUT_SEC'' 30 * Second),
      dr_health_check_enabled = getEnvAsBool e ''HEALTH_CHECK_ENABLED'' True,
      dr_health_check_port = getEnv e ''HEALTH_CHECK_PORT'' ''8080'',
      dr_log_level = getEnv e ''LOG_LEVEL'' ''info'',
      dr_log_format = getEnv e ''LOG_FORMAT'' ''json''\<rparr>"


datatype recorder_config_error =
    RecBrokersEmpty | RecTopicsEmpty | RecHostEmpty | RecBucketEmpty | RecBatchSizeNotPositive | RecBatchTimeoutNotPositive

definition recorder_Validate :: "recorder_settings \<Rightarrow> recorder_config_error option" where
  "recorder_Validate c =
     (if dr_kafka_brokers c = [] then Some RecBrokersEmpty
      else if dr_kafka_topics c = [] then Some RecTopicsEmpty
      else if dr_timescale_host c = [] then Some RecHostEmpty
      else if dr_s3_write_enabled c \<and> dr_s3_bucket c = [] then Some RecBucketEmpty
      else if dr_batch_size c \<le> 0 then Some RecBatchSizeNotPositive
      else if dr_batch_timeout c \<le> 0 then Some RecBatchTimeoutNotPositive
      else None)"

definition LoadRecorderConfig :: "env_vars \<Rightarrow> recorder_config_error + recorder_settings" where
  "LoadRecorderConfig e =
     (let cfg = read_recorder_settings e in case recorder_Validate cfg of Some err \<Rightarrow> Inl err | None \<Rightarrow> Inr cfg)"

definition TimescaleDSN :: "recorder_settings \<Rightarrow> string" where
  "TimescaleDSN c =
     ''postgres://'' @ dr_timescale_user c @ '':'' @ dr_timescale_password c @ ''@'' @ dr_timescale_host c @ '':'' @
     dr_timescale_port c @ ''/'' @ dr_timescale_db c @ ''?sslmode=disable''"

subsection \<open>The writers\<close>

record timescale_config =
  tsc_dsn :: string
  tsc_max_conns :: int
  tsc_min_conns :: int
  tsc_max_conn_lifetime :: duration
  tsc_max_conn_idle_time :: duration
  tsc_health_check_period :: duration
  tsc_max_retries :: int
  tsc_retry_backoff :: duration

definition DefaultTimescaleConfig :: "string \<Rightarrow> timescale_config" where
  "DefaultTimescaleConfig dsn =
     \<lparr>tsc_dsn = dsn, tsc_max_conns = 20, tsc_min_conns = 5, tsc_max_conn_lifetime = 30 * Minute,
      tsc_max_conn_idle_time = 5 * Minute, tsc_health_check_period = 30 * Second, tsc_max_retries = 3,
      tsc_retry_backoff = Second\<rparr>"

datatype schema_query = CreateTicks | HyperTicks | IndexTicks | CreateBooks | HyperBooks | IndexBooks

datatype recorder_start_error =
    RecConfigInvalid recorder_config_error | RecLoggerFailed logger_error
  | TsConfigNil | TsDsnInvalid | TsPoolFailed | TsPingFailed | TsSchemaFailed schema_query
  | S3ConfigNil | AwsConfigFailed | RecConsumerFailed mc_error

text \<open>The answers of TimescaleDB, AWS and Sarama; \<open>rp_health\<close> is the health period of the pool.\<close>

record 'tls recorder_platform =
  rp_logging :: logging_lib
  rp_dsn_parses :: "string \<Rightarrow> bool"
  rp_pool_opens :: "pool_config \<Rightarrow> duration \<Rightarrow> bool"
  rp_db_answers :: bool
  rp_query_ok :: "schema_query \<Rightarrow> bool"
  rp_aws_loads :: "string \<Rightarrow> (string \<times> string) option \<Rightarrow> bool"
  rp_sarama :: "'tls sarama_config"
  rp_group_ok :: "recorder_config \<Rightarrow> 'tls sarama_config \<Rightarrow> bool"

fun initSchema :: "'tls recorder_platform \<Rightarrow> schema_query list \<Rightarrow> recorder_start_error option" where
  "initSchema pl [] = None"
| "initSchema pl (q # qs) = (if rp_query_ok pl q then initSchema pl qs else Some (TsSchemaFailed q))"

definition schema_queries :: "schema_query list" where
  "schema_queries = [CreateTicks, HyperTicks, IndexTicks, CreateBooks, HyperBooks, IndexBooks]"

definition NewTimescaleWriter ::
  "'tls recorder_platform \<Rightarrow> timescale_config option \<Rightarrow> recorder_start_error + timescale_writer" where
  "NewTimescaleWriter pl config =
     (case config of
        None \<Rightarrow> Inl TsConfigNil
      | Some c \<Rightarrow>
          (let pool = \<lparr>pool_dsn = tsc_dsn c, pool_max_conns = word_of_int (tsc_max_conns c),
                 pool_min_conns = word_of_int (tsc_min_conns c), pool_max_lifetime = tsc_max_conn_lifetime c,
                 pool_max_idle_time = tsc_max_conn_idle_time c\<rparr> in
           if \<not> rp_dsn_parses pl (tsc_dsn c) then Inl TsDsnInvalid
           else if \<not> rp_pool_opens pl pool (tsc_health_check_period c) then Inl TsPoolFailed
           else if \<not> rp_db_answers pl then Inl TsPingFailed
           else case initSchema pl schema_queries of
             Some err \<Rightarrow> Inl err
           | None \<Rightarrow> Inr \<lparr>tw_max_retries = tsc_max_retries c, tw_retry_backoff = tsc_retry_backoff c, tw_closed = False,
               tw_total_inserts = 0, tw_total_errors = 0, tw_last_insert_at = 0\<rparr>))"

record s3_config =
  s3c_bucket :: string
  s3c_region :: string
  s3c_access_key :: string
  s3c_secret_key :: string
  s3c_prefix :: string
  s3c_max_retries :: int
  s3c_retry_backoff :: duration
  s3c_part_size :: int
  s3c_concurrency :: int

definition DefaultS3Config :: "string \<Rightarrow> string \<Rightarrow> s3_config" where
  "DefaultS3Config bucket region =
     \<lparr>s3c_bucket = bucket, s3c_region = region, s3c_access_key = [], s3c_secret_key = [], s3c_prefix = ''market-data'',
      s3c_max_retries = 3, s3c_retry_backoff = Second, s3c_part_size = 5 * 1024 * 1024, s3c_concurrency = 5\<rparr>"

text \<open>Explicit credentials are used when both halves are there.\<close>

definition NewS3Writer :: "'tls recorder_platform \<Rightarrow> s3_config option \<Rightarrow> recorder_start_error + s3_writer" where
  "NewS3Writer pl config =
     (case config of
        None \<Rightarrow> Inl S3ConfigNil
      | Some c \<Rightarrow>
          (let creds = (if s3c_access_key c \<noteq> [] \<and> s3c_secret_key c \<noteq> [] then Some (s3c_access_key c, s3c_secret_key c) else None) in
           if \<not> rp_aws_loads pl (s3c_region c) creds then Inl AwsConfigFailed
           else Inr \<lparr>sw_partition_prefix = s3c_prefix c, sw_max_retries = s3c_max_retries c,
             sw_retry_backoff = s3c_retry_backoff c, sw_closed = False, sw_total_uploads = 0, sw_total_errors = 0,
             sw_total_bytes = 0, sw_last_upload_at = 0\<rparr>))"

subsection \<open>The service\<close>

text \<open>The tick and order book buffers of TimescaleDB are those of the consumer.\<close>

record recorder_service =
  rsv_config :: recorder_settings
  rsv_timescale :: timescale_writer
  rsv_s3 :: "s3_writer option"
  rsv_consumer :: market_consumer
  rsv_s3_buffers :: "(buffered_message batch_buffer \<times> buffered_message batch_buffer) option"

definition recorder_ts_config :: "recorder_settings \<Rightarrow> timescale_config" where
  "recorder_ts_config cfg =
     (DefaultTimescaleConfig (TimescaleDSN cfg))
       \<lparr>tsc_max_conns := dr_timescale_max_conns cfg, tsc_max_retries := dr_max_retries cfg,
        tsc_retry_backoff := dr_retry_backoff cfg\<rparr>"

definition recorder_s3_config :: "recorder_settings \<Rightarrow> s3_config" where
  "recorder_s3_config cfg =
     (DefaultS3Config (dr_s3_bucket cfg) (dr_s3_region cfg))
       \<lparr>s3c_access_key := dr_aws_access_key_id cfg, s3c_secret_key := dr_aws_secret_key cfg,
        s3c_prefix := dr_s3_partition_prefix cfg, s3c_max_retries := dr_max_retries cfg,
        s3c_retry_backoff := dr_retry_backoff cfg\<rparr>"

definition recorder_consumer_config :: "recorder_settings \<Rightarrow> mc_config" where
  "recorder_consumer_config cfg =
     \<lparr>mc_brokers = dr_kafka_brokers cfg, mc_group_id = dr_kafka_group_id cfg, mc_topics = dr_kafka_topics cfg,
      mc_offset_oldest = dr_kafka_offset_old cfg, mc_session_timeout = 30 * Second, mc_heartbeat_interval = 3 * Second\<rparr>"

text \<open>\<open>now\<close> is the clock the buffers are created at.\<close>

definition NewRecorderService ::
  "'tls recorder_platform \<Rightarrow> recorder_settings \<Rightarrow> instant \<Rightarrow> recorder_start_error + recorder_service" where
  "NewRecorderService pl cfg now =
     (case NewTimescaleWriter pl (Some (recorder_ts_config cfg)) of
        Inl err \<Rightarrow> Inl err
      | Inr tw \<Rightarrow>
     (case (if dr_s3_write_enabled cfg then
              (case NewS3Writer pl (Some (recorder_s3_config cfg)) of Inl err \<Rightarrow> Inl err | Inr sw \<Rightarrow> Inr (Some sw))
            else Inr None) of
        Inl err \<Rightarrow> Inl err
      | Inr s3 \<Rightarrow>
     (let ticks = NewBatchBuffer (dr_batch_size cfg) (dr_batch_timeout cfg) now;
          books = NewBatchBuffer (dr_batch_size cfg) (dr_batch_timeout cfg) now;
          cold = (case s3 of None \<Rightarrow> None
            | Some sw \<Rightarrow> Some (NewBatchBuffer (dr_s3_batch_size cfg) (dr_s3_batch_timeout cfg) now,
                NewBatchBuffer (dr_s3_batch_size cfg) (dr_s3_batch_timeout cfg) now)) in
      case NewMarketConsumer (rp_group_ok pl) (rp_sarama pl) (Some (recorder_consumer_config cfg)) (Some ticks) (Some books) of
        Inl err \<Rightarrow> Inl (RecConsumerFailed err)
      | Inr consumer \<Rightarrow>
          Inr \<lparr>rsv_config = cfg, rsv_timescale = tw, rsv_s3 = s3, rsv_consumer = consumer, rsv_s3_buffers = cold\<rparr>)))"

definition recorder_logger :: "recorder_settings \<Rightarrow> logger_config" where
  "recorder_logger c =
     \<lparr>lgc_level = dr_log_level c, lgc_format = dr_log_format c, lgc_output = ''stdout'', lgc_time_format = [],
      lgc_service_name = dr_service_name c, lgc_environment = dr_environment c, lgc_enable_caller = True,
      lgc_caller_skip = 0\<rparr>"

definition recorder_start ::
  "'tls recorder_platform \<Rightarrow> env_vars \<Rightarrow> log_globals \<Rightarrow> instant \<Rightarrow> recorder_start_error + recorder_service" where
  "recorder_start pl e g now =
     (case LoadRecorderConfig e of
        Inl err \<Rightarrow> Inl (RecConfigInvalid err)
      | Inr cfg \<Rightarrow>
          (case InitLogger (rp_logging pl) (Some (recorder_logger cfg)) g of
             Some (Some err, _) \<Rightarrow> Inl (RecLoggerFailed err)
           | _ \<Rightarrow>
               (case NewRecorderService pl cfg now of
                  Inl err \<Rightarrow> Inl err
                | Inr svc \<Rightarrow>
                    (case mc_Start (rsv_consumer svc) of Some err \<Rightarrow> Inl (RecConsumerFailed err) | None \<Rightarrow> Inr svc))))"

subsection \<open>Running\<close>

text \<open>
  What happens in the running service, each at once: a message reaches the handler, and one of the four
  flush loops looks at its buffer and hands what is due to the writer behind it.  The interleaving of a
  flush with the handler is the subject of the buffer's own theory.
\<close>

record recorder_state =
  rcs_service :: recorder_service
  rcs_ts :: ts_world
  rcs_objects :: s3_world

record recorder_env =
  re_codec :: mc_env
  re_ts :: ts_env
  re_s3 :: s3_env

datatype recorder_event =
    RecMessage instant instant consumed_message
  | FlushTicks bool instant | FlushBooks bool instant
  | FlushColdTicks bool instant instant | FlushColdBooks bool instant instant

definition flush_round ::
  "('m list \<Rightarrow> 'w \<Rightarrow> bool \<times> 'w) \<Rightarrow> bool \<Rightarrow> instant \<Rightarrow> 'm batch_buffer \<Rightarrow> 'w \<Rightarrow> 'm batch_buffer \<times> 'w" where
  "flush_round callback forced now bb w =
     (let (ms, bb1) = check_and_flush forced now bb in
      if ms = [] then (bb1, w)
      else (let (okay, w1) = callback ms w in (flush_end okay (flush_begin ms bb1), w1)))"

definition cold_callback ::
  "s3_env \<Rightarrow> instant \<Rightarrow> buffered_message list \<Rightarrow> s3_writer \<times> s3_world \<Rightarrow> bool \<times> (s3_writer \<times> s3_world)" where
  "cold_callback env now ms w =
     (let (err, sw', w') = s3_WriteMessages env ms now (fst w) (snd w) in (err = None, (sw', w')))"

text \<open>A round of a hot buffer; \<open>get\<close> and \<open>put\<close> select it in the consumer.\<close>

definition hot_round ::
  "recorder_env \<Rightarrow> (market_consumer \<Rightarrow> buffered_message batch_buffer) \<Rightarrow>
     (buffered_message batch_buffer \<Rightarrow> market_consumer \<Rightarrow> market_consumer) \<Rightarrow> bool \<Rightarrow> instant \<Rightarrow> recorder_state \<Rightarrow> recorder_state" where
  "hot_round env get put forced now s =
     (let svc = rcs_service s;
          (bb, (tw, w)) = flush_round (flush_callback (re_ts env)) forced now (get (rsv_consumer svc)) (rsv_timescale svc, rcs_ts s) in
      s\<lparr>rcs_service := svc\<lparr>rsv_timescale := tw, rsv_consumer := put bb (rsv_consumer svc)\<rparr>, rcs_ts := w\<rparr>)"

definition cold_round ::
  "recorder_env \<Rightarrow> bool \<Rightarrow> bool \<Rightarrow> instant \<Rightarrow> instant \<Rightarrow> recorder_state \<Rightarrow> recorder_state" where
  "cold_round env for_ticks forced now at_write s =
     (let svc = rcs_service s in
      case (rsv_s3 svc, rsv_s3_buffers svc) of
        (Some sw, Some (ticks, books)) \<Rightarrow>
          (let (bb, (sw', w)) = flush_round (cold_callback (re_s3 env) at_write) forced now (if for_ticks then ticks else books) (sw, rcs_objects s) in
           s\<lparr>rcs_service := svc\<lparr>rsv_s3 := Some sw', rsv_s3_buffers := Some (if for_ticks then (bb, books) else (ticks, bb))\<rparr>,
             rcs_objects := w\<rparr>)
      | _ \<Rightarrow> s)"

fun recorder_do :: "recorder_env \<Rightarrow> recorder_event \<Rightarrow> recorder_state \<Rightarrow> recorder_state" where
  "recorder_do env (RecMessage now now' msg) s =
     s\<lparr>rcs_service := (rcs_service s)\<lparr>rsv_consumer := snd (mc_handleMessage (re_codec env) now now' msg (rsv_consumer (rcs_service s)))\<rparr>\<rparr>"
| "recorder_do env (FlushTicks forced now) s = hot_round env mc_tick_buffer (\<lambda>bb mc. mc\<lparr>mc_tick_buffer := bb\<rparr>) forced now s"
| "recorder_do env (FlushBooks forced now) s = hot_round env mc_orderbook_buffer (\<lambda>bb mc. mc\<lparr>mc_orderbook_buffer := bb\<rparr>) forced now s"
| "recorder_do env (FlushColdTicks forced now at_write) s = cold_round env True forced now at_write s"
| "recorder_do env (FlushColdBooks forced now at_write) s = cold_round env False forced now at_write s"

definition recorder_run :: "recorder_env \<Rightarrow> recorder_event list \<Rightarrow> recorder_state \<Rightarrow> recorder_state" where
  "recorder_run env evs s = foldl (\<lambda>s ev. recorder_do env ev s) s evs"

subsection \<open>The endpoints\<close>

text \<open>The components in the order they are checked; the map of the code is printed in any order.\<close>

datatype recorder_component = CompConsumer | CompTimescale | CompS3

definition recorder_health ::
  "instant \<Rightarrow> bool \<Rightarrow> bool \<Rightarrow> recorder_service \<Rightarrow> int \<times> (recorder_component \<times> bool) list" where
  "recorder_health now db_answers bucket_answers svc =
     (let status = [(CompConsumer, mc_HealthCheck now (rsv_consumer svc) = None),
              (CompTimescale, \<not> tw_closed (rsv_timescale svc) \<and> db_answers)] @
            (case rsv_s3 svc of None \<Rightarrow> [] | Some sw \<Rightarrow> [(CompS3, \<not> sw_closed sw \<and> bucket_answers)])
      in (if list_all snd status then 200 else 503, status))"

definition recorder_metrics :: "recorder_service \<Rightarrow> (string \<times> int) list" where
  "recorder_metrics svc =
     (let c = mc_Metrics (rsv_consumer svc); t = rsv_timescale svc in
      [(''total_messages'', cm_total_messages c), (''total_errors'', cm_total_errors c), (''tick_count'', cm_tick_count c),
       (''orderbook_count'', cm_orderbook_count c),
       (''tick_buffer_size'', bm_current_size (buffer_Metrics (mc_tick_buffer (rsv_consumer svc)))),
       (''orderbook_buffer_size'', bm_current_size (buffer_Metrics (mc_orderbook_buffer (rsv_consumer svc)))),
       (''timescale_inserts'', tw_total_inserts t), (''timescale_errors'', tw_total_errors t)] @
      (case rsv_s3 svc of None \<Rightarrow> []
       | Some sw \<Rightarrow> [(''s3_uploads'', sw_total_uploads sw), (''s3_errors'', sw_total_errors sw), (''s3_bytes'', sw_total_bytes sw)]))"

subsection \<open>The shutdown\<close>

text \<open>
  The consumer stops, the context is cancelled, the buffers are signalled, and the flush loops end with their
  final flush under the cancelled context, whose databases \<open>env\<close> describes; then the writers close.
\<close>

definition final_hot ::
  "recorder_env \<Rightarrow> buffered_message batch_buffer \<Rightarrow> timescale_writer \<times> ts_world \<Rightarrow>
     buffered_message batch_buffer \<times> timescale_writer \<times> ts_world" where
  "final_hot env bb w = final_flush (flush_callback (re_ts env)) (\<lambda>d w. w) (buffer_flush bb) w"

definition recorder_Shutdown :: "recorder_env \<Rightarrow> instant \<Rightarrow> recorder_state \<Rightarrow> recorder_state" where
  "recorder_Shutdown env now s =
     (let svc = rcs_service s;
          mc = mc_Stop (rsv_consumer svc);
          (ticks, tw1, w1) = final_hot env (mc_tick_buffer mc) (rsv_timescale svc, rcs_ts s);
          (books, tw2, w2) = final_hot env (mc_orderbook_buffer mc) (tw1, w1);
          (s3, cold, w3) = (case (rsv_s3 svc, rsv_s3_buffers svc) of
             (Some sw, Some (ct, cb)) \<Rightarrow>
               (let (ct', sw1, o1) = final_flush (cold_callback (re_s3 env) now) (\<lambda>d w. w) (buffer_flush ct) (sw, rcs_objects s);
                    (cb', sw2, o2) = final_flush (cold_callback (re_s3 env) now) (\<lambda>d w. w) (buffer_flush cb) (sw1, o1)
                in (Some (s3_Close sw2), Some (ct', cb'), o2))
           | (sw, cold) \<Rightarrow> (map_option s3_Close sw, cold, rcs_objects s))
      in \<lparr>rcs_service = svc\<lparr>rsv_timescale := ts_Close tw2, rsv_s3 := s3,
             rsv_consumer := mc\<lparr>mc_tick_buffer := ticks, mc_orderbook_buffer := books\<rparr>, rsv_s3_buffers := cold\<rparr>,
          rcs_ts = w2, rcs_objects = w3\<rparr>)"

subsection \<open>What a start gives\<close>

lemma initSchema_None: "initSchema pl qs = None \<longleftrightarrow> (\<forall>q \<in> set qs. rp_query_ok pl q)"
  by (induction qs) auto

lemma NewRecorderService_cases:
  assumes "NewRecorderService pl cfg now = Inr svc"
  shows "tw_max_retries (rsv_timescale svc) = dr_max_retries cfg" "rsv_config svc = cfg"
    and "rsv_s3 svc = None \<and> rsv_s3_buffers svc = None \<or>
      (\<exists>sw. rsv_s3 svc = Some sw \<and> sw_total_uploads sw = 0 \<and>
        rsv_s3_buffers svc = Some (NewBatchBuffer (dr_s3_batch_size cfg) (dr_s3_batch_timeout cfg) now,
          NewBatchBuffer (dr_s3_batch_size cfg) (dr_s3_batch_timeout cfg) now))"
  using assms
  by (auto simp: NewRecorderService_def NewTimescaleWriter_def NewS3Writer_def recorder_ts_config_def Let_def
      split: sum.splits option.splits if_splits)

lemma recorder_start_cases:
  assumes "recorder_start pl e g now = Inr svc"
  obtains "LoadRecorderConfig e = Inr (read_recorder_settings e)"
    "NewRecorderService pl (read_recorder_settings e) now = Inr svc"
  using assms
  by (auto simp: recorder_start_def LoadRecorderConfig_def Let_def split: sum.splits option.splits prod.splits)

text \<open>The batch timeout is what was asked for, unless its product with a million leaves 64 bits.\<close>

lemma recorder_batch_timeout:
  assumes "LoadRecorderConfig e = Inr cfg"
  shows "0 < dr_batch_timeout cfg \<and> dr_batch_timeout cfg = wrap64 (getEnvAsInt e ''BATCH_TIMEOUT_MS'' 5000 * Millisecond)"
  using assms
  by (auto simp: LoadRecorderConfig_def recorder_Validate_def read_recorder_settings_def Let_def split: option.splits if_splits)

subsection \<open>The cold path\<close>

definition cold_idle :: "recorder_state \<Rightarrow> bool" where
  "cold_idle s \<longleftrightarrow>
     (case rsv_s3_buffers (rcs_service s) of
        None \<Rightarrow> True | Some (ticks, books) \<Rightarrow> bb_buffer ticks = [] \<and> bb_buffer books = [])"

lemma cold_round_idle: "cold_idle s \<Longrightarrow> cold_round env for_ticks forced now at_write s = s"
  by (cases for_ticks)
    (auto simp: cold_idle_def cold_round_def flush_round_def check_and_flush_def Let_def split: option.splits)

lemma hot_round_cold:
  "rsv_s3_buffers (rcs_service (hot_round env get put forced now s)) = rsv_s3_buffers (rcs_service s)"
  "rsv_s3 (rcs_service (hot_round env get put forced now s)) = rsv_s3 (rcs_service s)"
  "rcs_objects (hot_round env get put forced now s) = rcs_objects s"
  by (auto simp: hot_round_def Let_def split: prod.splits)

lemma recorder_do_cold:
  assumes "cold_idle s"
  shows "rsv_s3_buffers (rcs_service (recorder_do env ev s)) = rsv_s3_buffers (rcs_service s) \<and>
    rsv_s3 (rcs_service (recorder_do env ev s)) = rsv_s3 (rcs_service s) \<and> rcs_objects (recorder_do env ev s) = rcs_objects s"
  using assms by (cases ev) (simp_all add: hot_round_cold cold_round_idle)

lemma recorder_run_cold:
  "cold_idle s \<Longrightarrow>
     rsv_s3_buffers (rcs_service (recorder_run env evs s)) = rsv_s3_buffers (rcs_service s) \<and>
     rsv_s3 (rcs_service (recorder_run env evs s)) = rsv_s3 (rcs_service s) \<and>
     rcs_objects (recorder_run env evs s) = rcs_objects s"
proof (induction evs arbitrary: s)
  case (Cons ev evs)
  have "cold_idle (recorder_do env ev s)" using recorder_do_cold [OF Cons.prems] Cons.prems by (simp add: cold_idle_def)
  from Cons.IH [OF this] recorder_do_cold [OF Cons.prems] show ?case by (simp add: recorder_run_def)
qed (simp add: recorder_run_def)

text \<open>
  C39. Nothing reaches S3.  The two buffers of the cold path are created, started, flushed and counted, but the
  consumer is given only the other two: in every run of a service that has started, whatever messages
  arrive, no object is ever written and no upload counted, and the shutdown adds none.
\<close>

theorem cold_path_never_written:
  assumes "recorder_start pl e g now = Inr svc" "rcs_service s = svc"
  shows "rcs_objects (recorder_run env evs s) = rcs_objects s \<and>
    (\<forall>sw. rsv_s3 (rcs_service (recorder_run env evs s)) = Some sw \<longrightarrow> sw_total_uploads sw = 0) \<and>
    rcs_objects (recorder_Shutdown env' now' (recorder_run env evs s)) = rcs_objects s"
proof -
  let ?cfg = "read_recorder_settings e"
  have n: "NewRecorderService pl ?cfg now = Inr svc" using assms(1) by (rule recorder_start_cases)
  note c = NewRecorderService_cases(3) [OF n]
  have i: "cold_idle s" using c assms(2) by (auto simp: cold_idle_def NewBatchBuffer_def)
  note r = recorder_run_cold [OF i, of env evs]
  have "rcs_objects (recorder_Shutdown env' now' (recorder_run env evs s)) = rcs_objects (recorder_run env evs s)"
    using r c assms(2)
    by (auto simp: recorder_Shutdown_def final_flush_def final_take_def buffer_flush_def NewBatchBuffer_def Let_def
        split: prod.splits)
  with r c assms(2) show ?thesis by auto
qed

subsection \<open>A service without retries\<close>

lemma ts_write_without_attempts:
  assumes "tw_max_retries tw \<le> 0" "ts_WriteMessages env ms tw w = (r, tw', w')"
  shows "w' = w \<and> tw_max_retries tw' = tw_max_retries tw"
  using assms by (auto simp: ts_WriteMessages_def split: if_splits)

lemma hot_round_without_attempts:
  assumes "tw_max_retries (rsv_timescale (rcs_service s)) \<le> 0"
  shows "rcs_ts (hot_round env get put forced now s) = rcs_ts s \<and>
    tw_max_retries (rsv_timescale (rcs_service (hot_round env get put forced now s))) = tw_max_retries (rsv_timescale (rcs_service s))"
  using assms
  by (auto simp: hot_round_def flush_round_def flush_callback_def Let_def split: prod.splits if_splits
      dest: ts_write_without_attempts)

lemma cold_round_hot:
  "rcs_ts (cold_round env for_ticks forced now at_write s) = rcs_ts s"
  "rsv_timescale (rcs_service (cold_round env for_ticks forced now at_write s)) = rsv_timescale (rcs_service s)"
  by (auto simp: cold_round_def Let_def split: option.splits prod.splits)

lemma recorder_do_without_attempts:
  assumes "tw_max_retries (rsv_timescale (rcs_service s)) \<le> 0"
  shows "rcs_ts (recorder_do env ev s) = rcs_ts s \<and>
    tw_max_retries (rsv_timescale (rcs_service (recorder_do env ev s))) = tw_max_retries (rsv_timescale (rcs_service s))"
  using hot_round_without_attempts [OF assms] by (cases ev) (simp_all add: cold_round_hot)

text \<open>
  The number of retries is the number of attempts.  With \<open>MAX_RETRIES\<close> at zero or below, which the validation
  accepts, no statement is ever sent: in every run the tables stay as they are and every batch is
  dropped.
\<close>

theorem no_retries_no_writes:
  assumes "recorder_start pl e g now = Inr svc" "getEnvAsInt e ''MAX_RETRIES'' 3 \<le> 0" "rcs_service s = svc"
  shows "rcs_ts (recorder_run env evs s) = rcs_ts s"
proof -
  have "NewRecorderService pl (read_recorder_settings e) now = Inr svc" using assms(1) by (rule recorder_start_cases)
  from NewRecorderService_cases(1) [OF this] have "tw_max_retries (rsv_timescale (rcs_service s)) \<le> 0"
    using assms(2,3) by (simp add: read_recorder_settings_def)
  then show ?thesis
  proof (induction evs arbitrary: s)
    case (Cons ev evs)
    note d = recorder_do_without_attempts [OF Cons.prems, of env ev]
    with Cons.prems Cons.IH [of "recorder_do env ev s"] show ?case by (simp add: recorder_run_def)
  qed (simp add: recorder_run_def)
qed

subsection \<open>Concrete runs\<close>

definition any_sarama :: "unit sarama_config" where
  "any_sarama =
     \<lparr>sc_client_id = [], sc_version = [], sc_metadata_refresh = 0, sc_tls = None, sc_sasl = None, sc_max_open_requests = 5,
      sc_compression = 0, sc_max_message_bytes = 1000000, sc_required_acks = 1, sc_producer_timeout = 10 * Second,
      sc_retry_max = 3, sc_retry_backoff = 0, sc_idempotent = False, sc_return_successes = False, sc_producer_errors = True,
      sc_session_timeout = 10 * Second, sc_rebalance_timeout = Minute, sc_heartbeat_interval = 3 * Second,
      sc_max_processing_time = Second, sc_initial_offset = - 1, sc_consumer_errors = False, sc_auto_commit = True,
      sc_auto_commit_interval = Second\<rparr>"

definition sample_rec_platform :: "unit recorder_platform" where
  "sample_rec_platform =
     \<lparr>rp_logging = \<lparr>ll_parse_level = (\<lambda>s. Some 1), ll_file_opens = (\<lambda>s. True)\<rparr>, rp_dsn_parses = (\<lambda>s. True),
      rp_pool_opens = (\<lambda>c d. True), rp_db_answers = True, rp_query_ok = (\<lambda>q. True), rp_aws_loads = (\<lambda>r c. True),
      rp_sarama = any_sarama, rp_group_ok = (\<lambda>c sc. True)\<rparr>"

lemma default_recorder_valid: "LoadRecorderConfig Map.empty = Inr (read_recorder_settings Map.empty)"
  by (simp add: LoadRecorderConfig_def Let_def read_recorder_settings_def recorder_Validate_def getEnvAsBool_def
      getEnvAsInt_def getEnvAsSlice_def env_unset time_units wrap64_def)

lemma sample_rec_sel [simp]:
  "rp_dsn_parses sample_rec_platform d" "rp_pool_opens sample_rec_platform pc hp" "rp_db_answers sample_rec_platform"
  "rp_query_ok sample_rec_platform q" "rp_aws_loads sample_rec_platform r k" "rp_group_ok sample_rec_platform rc sc"
  "rp_sarama sample_rec_platform = any_sarama" "ll_parse_level (rp_logging sample_rec_platform) s = Some 1"
  "ll_file_opens (rp_logging sample_rec_platform) s"
  by (simp_all add: sample_rec_platform_def)

lemma sample_recorder_start:
  obtains svc sw where "recorder_start sample_rec_platform Map.empty g 0 = Inr svc" "rsv_s3 svc = Some sw"
proof -
  let ?cfg = "read_recorder_settings Map.empty"
  have schema: "initSchema sample_rec_platform schema_queries = None" by (simp add: initSchema_None)
  have cold: "dr_s3_write_enabled ?cfg" by (simp add: read_recorder_settings_def getEnvAsBool_def env_unset)
  obtain g' where "InitLogger (rp_logging sample_rec_platform) (Some (recorder_logger ?cfg)) g = Some (None, g')"
    using InitLogger_exact [of "rp_logging sample_rec_platform" "recorder_logger ?cfg" g]
    by (auto simp: logger_ok_def recorder_logger_def)
  moreover obtain svc sw where n: "NewRecorderService sample_rec_platform ?cfg 0 = Inr svc" "rsv_s3 svc = Some sw" "mc_running (rsv_consumer svc)"
    using schema cold
    by (simp add: NewRecorderService_def NewTimescaleWriter_def NewS3Writer_def NewMarketConsumer_def Let_def)
  ultimately have "recorder_start sample_rec_platform Map.empty g 0 = Inr svc"
    by (simp add: recorder_start_def default_recorder_valid mc_Start_def)
  with n that show thesis by blast
qed

theorem cold_path_never_written_witness:
  "\<forall>g env evs w. \<exists>svc sw. recorder_start sample_rec_platform Map.empty g 0 = Inr svc \<and> rsv_s3 svc = Some sw \<and>
     rcs_objects (recorder_run env evs \<lparr>rcs_service = svc, rcs_ts = w, rcs_objects = \<lparr>s3_step = 0, s3_objects = Map.empty\<rparr>\<rparr>) =
       \<lparr>s3_step = 0, s3_objects = Map.empty\<rparr>"
proof (intro allI)
  fix g env evs w
  obtain svc sw where s: "recorder_start sample_rec_platform Map.empty g 0 = Inr svc" "rsv_s3 svc = Some sw"
    by (rule sample_recorder_start)
  with cold_path_never_written [OF s(1), of "\<lparr>rcs_service = svc, rcs_ts = w, rcs_objects = \<lparr>s3_step = 0, s3_objects = Map.empty\<rparr>\<rparr>"]
  show "\<exists>svc sw. recorder_start sample_rec_platform Map.empty g 0 = Inr svc \<and> rsv_s3 svc = Some sw \<and>
     rcs_objects (recorder_run env evs \<lparr>rcs_service = svc, rcs_ts = w, rcs_objects = \<lparr>s3_step = 0, s3_objects = Map.empty\<rparr>\<rparr>) =
       \<lparr>s3_step = 0, s3_objects = Map.empty\<rparr>" by auto
qed

end
