(* ===== verification/Ingestion_Startup.thy ===== *)
theory Ingestion_Startup
  imports Market_Ingestion Kis_Stream_Properties Logger
begin

text \<open>
  The start and the end of the data ingestion service: its configuration (\<open>internal/config/config.go\<close>) and the
  service that wires the token manager, the web socket client and the producer together
  (\<open>cmd/server/main.go\<close>).  The outside world is the record of the platform; the subscription the start
  makes is an event of the client's run, because the goroutines of the client already run by then.
\<close>

subsection \<open>The readers\<close>

text \<open>\<open>None\<close> is the panic.\<close>

definition getEnvRequired :: "env_vars \<Rightarrow> string \<Rightarrow> string option" where
  "getEnvRequired e key = (let value = Getenv e key in if value = [] then None else Some value)"

text \<open>This service reads numbers with \<open>Sscanf\<close> and has its own idea of a truth value.\<close>

definition ing_getEnvAsInt :: "env_vars \<Rightarrow> string \<Rightarrow> int \<Rightarrow> int" where
  "ing_getEnvAsInt = env_parsed (\<lambda>s. map_option fst (scan_int64 s))"

definition ing_getEnvAsBool :: "env_vars \<Rightarrow> string \<Rightarrow> bool \<Rightarrow> bool" where
  "ing_getEnvAsBool = env_parsed (\<lambda>s. Some (s = ''true'' \<or> s = ''1'' \<or> s = ''yes''))"

subsection \<open>The configuration\<close>

record 'tls ingestion_config =
  igc_service_name :: string
  igc_environment :: string
  igc_log_level :: string
  igc_kis :: kis_feed_config
  igc_kafka :: "'tls producer_config"
  igc_redis :: redis_config
  igc_logger :: logger_config

definition load_kis_feed :: "env_parsers \<Rightarrow> env_vars \<Rightarrow> kis_feed_config option" where
  "load_kis_feed p e =
     (case (getEnvRequired e ''KIS_API_KEY'', getEnvRequired e ''KIS_API_SECRET'') of
        (Some key, Some secret) \<Rightarrow>
          Some \<lparr>ig_api_key = key, ig_api_secret = secret,
            ig_websocket_url = getEnv e ''KIS_WEBSOCKET_URL'' ''ws://ops.koreainvestment.com:21000'',
            ig_api_url = getEnv e ''KIS_API_URL'' ''https://openapi.koreainvestment.com:9443'',
            ig_reconnect_retries = ing_getEnvAsInt e ''KIS_RECONNECT_RETRIES'' 5,
            ig_reconnect_delay = getEnvAsDuration p e ''KIS_RECONNECT_DELAY'' (5 * Second),
            ig_heartbeat_interval = getEnvAsDuration p e ''KIS_HEARTBEAT_INTERVAL'' (30 * Second),
            ig_message_buffer_size = ing_getEnvAsInt e ''KIS_MESSAGE_BUFFER_SIZE'' 1000,
            ig_token_cache_ttl = getEnvAsDuration p e ''KIS_TOKEN_CACHE_TTL'' (24 * Hour),
            ig_token_refresh_before = getEnvAsDuration p e ''KIS_TOKEN_REFRESH_BEFORE'' (10 * Minute)\<rparr>
      | _ \<Rightarrow> None)"

definition read_ingestion_config :: "env_parsers \<Rightarrow> env_vars \<Rightarrow> 'tls ingestion_config option" where
  "read_ingestion_config p e =
     (let name = getEnv e ''SERVICE_NAME'' ''data-ingestion-service'';
          environment = getEnv e ''ENVIRONMENT'' ''development'';
          level = getEnv e ''LOG_LEVEL'' ''info'' in
      case load_kis_feed p e of
        None \<Rightarrow> None
      | Some kis \<Rightarrow>
          Some \<lparr>igc_service_name = name, igc_environment = environment, igc_log_level = level, igc_kis = kis,
            igc_kafka = DefaultProducerConfig\<lparr>pc_brokers := split_on CHR '','' (getEnv e ''KAFKA_BROKERS'' ''localhost:9092''),
              pc_client_id := name\<rparr>,
            igc_redis = (DefaultRedisConfig (getEnv e ''REDIS_HOST'' ''localhost'' @ '':'' @ getEnv e ''REDIS_PORT'' ''6379''))
              \<lparr>rd_password := getEnv e ''REDIS_PASSWORD'' []\<rparr>,
            igc_logger = \<lparr>lgc_level = level, lgc_format = getEnv e ''LOG_FORMAT'' ''json'',
              lgc_output = getEnv e ''LOG_OUTPUT'' ''stdout'', lgc_time_format = [], lgc_service_name = name,
              lgc_environment = environment, lgc_enable_caller = ing_getEnvAsBool e ''LOG_ENABLE_CALLER'' True,
              lgc_caller_skip = 0\<rparr>\<rparr>)"

datatype ingestion_config_error =
    IngKeyRequired | IngSecretRequired | IngWebSocketRequired | IngUrlRequired | IngBrokersRequired
  | IngRedisInvalid redis_config_error

definition ingestion_Validate :: "'tls ingestion_config \<Rightarrow> ingestion_config_error option" where
  "ingestion_Validate c =
     (if ig_api_key (igc_kis c) = [] then Some IngKeyRequired
      else if ig_api_secret (igc_kis c) = [] then Some IngSecretRequired
      else if ig_websocket_url (igc_kis c) = [] then Some IngWebSocketRequired
      else if ig_api_url (igc_kis c) = [] then Some IngUrlRequired
      else if pc_brokers (igc_kafka c) = [] then Some IngBrokersRequired
      else map_option IngRedisInvalid (redis_config_Validate (igc_redis c)))"

definition LoadIngestionConfig ::
  "env_parsers \<Rightarrow> env_vars \<Rightarrow> ('tls ingestion_config \<times> ingestion_config_error option) option" where
  "LoadIngestionConfig p e = map_option (\<lambda>c. (c, ingestion_Validate c)) (read_ingestion_config p e)"

subsection \<open>The service\<close>

record 'tls ingestion_service =
  is_config :: "'tls ingestion_config"
  is_redis :: redis_client
  is_auth :: auth_manager
  is_client :: stream_client
  is_producer :: market_producer

record ('tls, 'w) ingestion_platform =
  ip_logging :: logging_lib
  ip_token_env :: "'w token_env"
  ip_sarama :: "'tls sarama_config"
  ip_producer_starts :: "'tls producer_config \<Rightarrow> 'tls sarama_config \<Rightarrow> bool"
  ip_dial :: "'w \<Rightarrow> dial_outcome \<times> 'w"

datatype ingestion_start_error =
    IngPanic | IngConfigInvalid ingestion_config_error | IngLoggerFailed logger_error
  | IngRedisFailed client_error | IngRedisUnreachable client_error | IngProducerFailed
  | IngAuthFailed token_error | IngStreamFailed stream_error

definition NewIngestionService ::
  "('tls, 'w) ingestion_platform \<Rightarrow> 'tls ingestion_config \<Rightarrow> 'w \<Rightarrow> (ingestion_start_error + 'tls ingestion_service) \<times> 'w" where
  "NewIngestionService pl cfg w =
     (case NewClient (tn_redis (ip_token_env pl)) (Some (igc_redis cfg)) w of
        (Inl err, w1) \<Rightarrow> (Inl (IngRedisFailed err), w1)
      | (Inr redisClient, w1) \<Rightarrow>
          (case client_HealthCheck (tn_redis (ip_token_env pl)) redisClient w1 of
             (Some err, w2) \<Rightarrow> (Inl (IngRedisUnreachable err), w2)
           | (None, w2) \<Rightarrow>
               (case NewMarketProducer (ip_producer_starts pl) (ip_sarama pl) (igc_kafka cfg) of
                  None \<Rightarrow> (Inl IngProducerFailed, w2)
                | Some kafkaProducer \<Rightarrow>
                    (case NewStreamClient (igc_kis cfg) of
                       None \<Rightarrow> (Inl IngPanic, w2)
                     | Some wsClient \<Rightarrow>
                         (Inr \<lparr>is_config = cfg, is_redis = redisClient, is_auth = NewAuthManager (igc_kis cfg) redisClient,
                            is_client = wsClient, is_producer = kafkaProducer\<rparr>, w2)))))"

text \<open>\<open>Start\<close> up to the subscription; the connection is only dialled with a token at hand.\<close>

definition ingestion_Start ::
  "('tls, 'w) ingestion_platform \<Rightarrow> 'tls ingestion_service \<Rightarrow> 'w \<Rightarrow>
     (ingestion_start_error option \<times> 'tls ingestion_service) \<times> 'w" where
  "ingestion_Start pl svc w =
     (case auth_Start (ip_token_env pl) (is_auth svc) w of
        ((Some err, am), w1) \<Rightarrow> ((Some (IngAuthFailed err), svc\<lparr>is_auth := am\<rparr>), w1)
      | ((None, am), w1) \<Rightarrow>
          (let (now, w2) = tn_now (ip_token_env pl) w1;
               tok = GetToken now am;
               (dial, w3) = (case tok of Inl err \<Rightarrow> (DialFailed, w2) | Inr token \<Rightarrow> ip_dial pl w2);
               (r, ws) = stream_Start tok dial (is_client svc)
           in ((map_option IngStreamFailed r, svc\<lparr>is_auth := am, is_client := ws\<rparr>), w3)))"

definition market_symbols :: "string list" where "market_symbols = [''005930'', ''000660'', ''035420'']"

definition main_subscribe :: "bool \<Rightarrow> client_event" where
  "main_subscribe written = CallSubscribe written market_symbols ''H0STCNT0''"

definition ingestion_start ::
  "('tls, 'w) ingestion_platform \<Rightarrow> env_parsers \<Rightarrow> env_vars \<Rightarrow> log_globals \<Rightarrow> 'w \<Rightarrow>
     (ingestion_start_error + 'tls ingestion_service) \<times> 'w" where
  "ingestion_start pl p e g w =
     (case LoadIngestionConfig p e of
        None \<Rightarrow> (Inl IngPanic, w)
      | Some (cfg, Some err) \<Rightarrow> (Inl (IngConfigInvalid err), w)
      | Some (cfg, None) \<Rightarrow>
          (case InitLogger (ip_logging pl) (Some (igc_logger cfg)) g of
             None \<Rightarrow> (Inl IngPanic, w)
           | Some (Some err, _) \<Rightarrow> (Inl (IngLoggerFailed err), w)
           | Some (None, _) \<Rightarrow>
               (case NewIngestionService pl cfg w of
                  (Inl err, w1) \<Rightarrow> (Inl err, w1)
                | (Inr svc, w1) \<Rightarrow>
                    (case ingestion_Start pl svc w1 of
                       ((Some err, _), w2) \<Rightarrow> (Inl err, w2)
                     | ((None, svc1), w2) \<Rightarrow> (Inr svc1, w2)))))"

text \<open>
  The tickers of the two background tasks: a period that is not positive is a panic outside every recovery,
  so it ends the process.
\<close>

definition background_survives :: "kis_feed_config \<Rightarrow> bool" where
  "background_survives cfg \<longleftrightarrow> refresh_interval cfg \<noteq> None \<and> 0 < ig_heartbeat_interval cfg"

text \<open>
  \<open>Stop\<close>.  The client is stopped first; \<open>settle\<close> are the events of its goroutines while they end, and
  \<open>flushed\<close> is the error of closing the producer.  Every error is logged and passed over.
\<close>

definition ingestion_Stop ::
  "('tls, 'w) ingestion_platform \<Rightarrow> string option \<Rightarrow> client_event list \<Rightarrow> 'tls ingestion_service \<Rightarrow> 'w \<Rightarrow>
     ('tls ingestion_service \<times> 'w) option" where
  "ingestion_Stop pl flushed settle svc w =
     (case client_run (igc_kis (is_config svc)) ([CancelContext, CloseConn] @ settle) (is_client svc) of
        None \<Rightarrow> None
      | Some ws \<Rightarrow>
          (let mp = snd (mp_Close flushed (is_producer svc));
               ((r, rc), w1) = client_Close (tn_redis (ip_token_env pl)) (is_redis svc) w
           in Some (svc\<lparr>is_redis := rc, is_client := ws, is_producer := mp\<rparr>, w1)))"

definition ingestion_GetMetrics :: "'tls ingestion_service \<Rightarrow> (string \<Rightarrow> 64 word option) \<times> connection_status" where
  "ingestion_GetMetrics svc = (mp_GetMetrics (is_producer svc), GetStatus (is_client svc))"

subsection \<open>The configuration is complete or the process crashes\<close>

lemma getEnvRequired_None [simp]: "getEnvRequired e key = None \<longleftrightarrow> Getenv e key = []"
  by (simp add: getEnvRequired_def Let_def)

lemma getEnvRequired_Some: "getEnvRequired e key = Some v \<Longrightarrow> v = Getenv e key \<and> v \<noteq> []"
  by (auto simp: getEnvRequired_def Let_def split: if_splits)

lemma load_kis_feed_None: "load_kis_feed p e = None \<longleftrightarrow> Getenv e ''KIS_API_KEY'' = [] \<or> Getenv e ''KIS_API_SECRET'' = []"
  by (auto simp: load_kis_feed_def split: option.splits dest: getEnvRequired_Some)

lemma load_kis_feed_filled:
  "load_kis_feed p e = Some k \<Longrightarrow> ig_api_key k \<noteq> [] \<and> ig_api_secret k \<noteq> [] \<and> ig_websocket_url k \<noteq> [] \<and> ig_api_url k \<noteq> []"
  by (auto simp: load_kis_feed_def getEnv_ne split: option.splits dest: getEnvRequired_Some)

lemma ingestion_Validate_reads:
  assumes "read_ingestion_config p e = Some c"
  shows "ingestion_Validate c = None"
proof -
  obtain k where k: "load_kis_feed p e = Some k" using assms by (cases "load_kis_feed p e") (auto simp: read_ingestion_config_def Let_def)
  note f = load_kis_feed_filled [OF k]
  have "igc_kis c = k" "pc_brokers (igc_kafka c) \<noteq> []" "redis_config_Validate (igc_redis c) = None"
    using assms k
    by (auto simp: read_ingestion_config_def redis_config_Validate_def DefaultRedisConfig_def go_simps Let_def)
  then show ?thesis using f by (simp add: ingestion_Validate_def)
qed

text \<open>
  A missing key or secret is a panic, which no recovery of \<open>main\<close> turns into the message of the validation;
  and the validation never refuses anything: every field it looks at has been filled by then.
\<close>

theorem ingestion_config_exact:
  "\<exists>c. LoadIngestionConfig p e =
     (if Getenv e ''KIS_API_KEY'' = [] \<or> Getenv e ''KIS_API_SECRET'' = [] then None else Some (c, None))"
proof (cases "read_ingestion_config p e :: 'a ingestion_config option")
  case None
  then have "load_kis_feed p e = None" by (cases "load_kis_feed p e") (auto simp: read_ingestion_config_def Let_def)
  with None show ?thesis by (simp add: LoadIngestionConfig_def load_kis_feed_None)
next
  case (Some c)
  then have "load_kis_feed p e \<noteq> None" by (cases "load_kis_feed p e") (auto simp: read_ingestion_config_def Let_def)
  with Some ingestion_Validate_reads [OF Some] show ?thesis by (auto simp: LoadIngestionConfig_def load_kis_feed_None)
qed

text \<open>\<open>Sscanf\<close> stops where the number ends: a unit, or anything else, behind it is ignored.\<close>

theorem units_are_ignored:
  assumes "Getenv e key = nat_str n @ rest" "n < 2 ^ 63" "rest = [] \<or> \<not> is_digit (hd rest)"
  shows "ing_getEnvAsInt e key d = int n"
proof -
  have "nat_str n @ rest \<noteq> []" using nat_str_digits [of _ n] by (cases "nat_str n @ rest") (auto simp: nat_str_ne)
  then show ?thesis using assms by (simp add: ing_getEnvAsInt_def env_parsed_def scan_int64_nat_str Let_def)
qed

subsection \<open>A started service\<close>

lemma stream_Start_cases:
  assumes "stream_Start tok dial c = (None, s)" "NewStreamClient cfg = Some c"
  obtains t where "tok = Inr t" "dial = Dialled" "ws_sent s = [(0, AuthMessage t)]" "ws_conn s = Some 0" "ws_next s = 1"
    "ws_status s = StatusConnected"
  using assms
  by (auto simp: stream_Start_def connect_def sendAuth_def NewStreamClient_def Let_def
      split: sum.splits dial_outcome.splits if_splits)

lemma ingestion_start_cases:
  assumes "ingestion_start pl p e g w = (Inr svc, w')"
  obtains c cfg now am t where "LoadIngestionConfig p e = Some (cfg, None)" "is_config svc = cfg"
    "NewStreamClient (igc_kis cfg) = Some c" "is_auth svc = am" "GetToken now am = Inr t"
    "stream_Start (Inr t) Dialled c = (None, is_client svc)"
proof -
  obtain cfg svc0 w1 where n: "LoadIngestionConfig p e = Some (cfg, None)" "NewIngestionService pl cfg w = (Inr svc0, w1)"
      "ingestion_Start pl svc0 w1 = ((None, svc), w')"
    using assms by (auto simp: ingestion_start_def split: option.splits prod.splits sum.splits)
  from n(2) obtain c where c: "NewStreamClient (igc_kis cfg) = Some c" "is_client svc0 = c" "is_config svc0 = cfg"
    by (auto simp: NewIngestionService_def split: option.splits prod.splits sum.splits)
  obtain r am w2 where a: "auth_Start (ip_token_env pl) (is_auth svc0) w1 = ((r, am), w2)" by (metis prod.exhaust)
  with n(3) have r: "r = None" by (cases r) (auto simp: ingestion_Start_def)
  obtain now w3 where t: "tn_now (ip_token_env pl) w2 = (now, w3)" by (rule prod.exhaust)
  obtain dial w4 where d: "(case GetToken now am of Inl err \<Rightarrow> (DialFailed, w3) | Inr token \<Rightarrow> ip_dial pl w3) = (dial, w4)"
    by (rule prod.exhaust)
  obtain q ws where s: "stream_Start (GetToken now am) dial (is_client svc0) = (q, ws)" by (rule prod.exhaust)
  from n(3) a r t d s have q: "q = None" "svc = svc0\<lparr>is_auth := am, is_client := ws\<rparr>"
    by (auto simp: ingestion_Start_def Let_def)
  from s q c(2) have st: "stream_Start (GetToken now am) dial c = (None, ws)" by simp
  from st c(1) obtain tk where "GetToken now am = Inr tk" "dial = Dialled" by (rule stream_Start_cases)
  with that [OF n(1) _ c(1)] st q c show thesis by auto
qed

subsection \<open>The one subscription\<close>

definition only_auth :: "(nat \<times> sent_message) list \<Rightarrow> bool" where
  "only_auth ms \<longleftrightarrow> (\<forall>(c, m) \<in> set ms. \<exists>t. m = AuthMessage t)"

lemma only_auth_append [simp]: "only_auth (xs @ ys) \<longleftrightarrow> only_auth xs \<and> only_auth ys"
  unfolding only_auth_def by (simp add: ball_Un)

lemma only_authD: "only_auth ms \<Longrightarrow> (c, SubscribeMessage ys d) \<notin> set ms"
  by (auto simp: only_auth_def)

lemma sent_run:
  assumes "client_run cfg evs s = Some s'" "\<forall>ev \<in> set evs. \<not> subscribes ev"
  shows "\<exists>ms. ws_sent s' = ws_sent s @ ms \<and> only_auth ms"
  using assms
proof (induction evs arbitrary: s)
  case (Cons ev evs)
  then obtain s1 where s1: "client_do cfg ev s = Some s1" "client_run cfg evs s1 = Some s'"
    by (auto split: option.splits)
  from Cons.IH [OF s1(2)] Cons.prems(2) obtain ms where ms: "ws_sent s' = ws_sent s1 @ ms" "only_auth ms" by auto
  from sent_step [OF s1(1)] Cons.prems(2)
  obtain ns where "ws_sent s1 = ws_sent s @ ns" "only_auth ns" by (auto simp: only_auth_def)
  with ms show ?case by (intro exI [of _ "ns @ ms"]) simp
qed (simp add: only_auth_def)

text \<open>
  C40. The symbols are subscribed once, on one connection.  In every run of a started service in which \<open>main\<close> makes its
  one subscription, the subscription goes to the connection the client has at that moment, if it has one
  and the write succeeds, and no other is ever sent: after a reconnection the client is connected and
  authenticated, and nothing is subscribed.
\<close>

theorem subscription_lost_on_reconnect:
  assumes "ingestion_start pl p e g w = (Inr svc, w')"
    and "client_run (igc_kis (is_config svc)) evs1 (is_client svc) = Some s1"
    and "client_run (igc_kis (is_config svc)) (main_subscribe written # evs2) s1 = Some s"
    and "\<forall>ev \<in> set evs1 \<union> set evs2. \<not> subscribes ev"
  shows "(\<forall>c ys d. (c, SubscribeMessage ys d) \<in> set (ws_sent s) \<longleftrightarrow>
       written \<and> ws_conn s1 = Some c \<and> ys = market_symbols \<and> d = ''H0STCNT0'') \<and>
     (ws_conn s \<noteq> ws_conn s1 \<longrightarrow> (\<forall>c ys d. ws_conn s = Some c \<longrightarrow> (c, SubscribeMessage ys d) \<notin> set (ws_sent s)))"
proof -
  let ?cfg = "igc_kis (is_config svc)"
  obtain t where t: "ws_sent (is_client svc) = [(0, AuthMessage t)]"
    using assms(1) by (rule ingestion_start_cases) (erule stream_Start_cases, assumption, auto)
  obtain ms where ms: "ws_sent s1 = ws_sent (is_client svc) @ ms" "only_auth ms"
    using sent_run [OF assms(2)] assms(4) by auto
  then have a: "only_auth (ws_sent s1)" by (simp add: t only_auth_def)
  obtain s2 where s2: "s2 = snd (Subscribe written market_symbols ''H0STCNT0'' s1)" "client_run ?cfg evs2 s2 = Some s"
    using assms(3) by (simp add: main_subscribe_def)
  obtain ns where ns: "ws_sent s = ws_sent s2 @ ns" "only_auth ns" using sent_run [OF s2(2)] assms(4) by auto
  have "(c, SubscribeMessage ys d) \<in> set (ws_sent s) \<longleftrightarrow>
      written \<and> ws_conn s1 = Some c \<and> ys = market_symbols \<and> d = ''H0STCNT0''" for c ys d
    using only_authD [OF a, of c ys d] only_authD [OF ns(2), of c ys d]
    by (auto simp: ns s2(1) Subscribe_def split: option.splits if_splits)
  then show ?thesis by auto
qed

subsection \<open>The end\<close>

lemma client_do_closes:
  assumes "client_do cfg ev s = Some s'"
  shows "ws_closed s \<subseteq> ws_closed s' \<and> (ws_cancelled s \<longrightarrow> ws_cancelled s')"
  using assms
  by (cases ev) (auto simp: client_defs Subscribe_def split: if_splits option.splits sum.splits dial_outcome.splits
      reader_at.splits heart_at.splits reconnecter_at.splits list.splits prod.splits)

lemma client_run_closes:
  "client_run cfg evs s = Some s' \<Longrightarrow> ws_closed s \<subseteq> ws_closed s' \<and> (ws_cancelled s \<longrightarrow> ws_cancelled s')"
proof (induction evs arbitrary: s)
  case (Cons ev evs)
  then obtain s1 where s1: "client_do cfg ev s = Some s1" "client_run cfg evs s1 = Some s'"
    by (auto split: option.splits)
  from client_do_closes [OF s1(1)] Cons.IH [OF s1(2)] show ?case by auto
qed simp

text \<open>After \<open>Stop\<close> the connection the client had is closed, its goroutines are told to end, and nothing is sent any more.\<close>

theorem stop_closes_everything:
  assumes "ingestion_Stop pl flushed settle svc w = Some (svc', w')"
  shows "ws_cancelled (is_client svc') \<and> (\<forall>c. ws_conn (is_client svc) = Some c \<longrightarrow> c \<in> ws_closed (is_client svc')) \<and>
    rl_closed (is_redis svc') \<and> pr_closed (mp_producer (is_producer svc'))"
proof -
  obtain ws where ws: "client_run (igc_kis (is_config svc)) ([CancelContext, CloseConn] @ settle) (is_client svc) = Some ws"
      "is_client svc' = ws" "is_redis svc' = snd (fst (client_Close (tn_redis (ip_token_env pl)) (is_redis svc) w))"
      "is_producer svc' = snd (mp_Close flushed (is_producer svc))"
    using assms by (auto simp: ingestion_Stop_def Let_def split: option.splits prod.splits)
  then have "client_run (igc_kis (is_config svc)) settle (close_conn ((is_client svc)\<lparr>ws_cancelled := True\<rparr>)) = Some ws" by simp
  from client_run_closes [OF this] show ?thesis
    by (auto simp: ws(2,3,4) close_conn_def client_Close_def mp_Close_def producer_Close_def Let_def split: option.splits prod.splits)
qed

subsection \<open>Concrete runs\<close>

definition ingestion_vars :: env_vars where
  "ingestion_vars =
     [''KIS_API_KEY'' \<mapsto> ''k'', ''KIS_API_SECRET'' \<mapsto> ''s'', ''KIS_WEBSOCKET_URL'' \<mapsto> ''ws://h'', ''KIS_API_URL'' \<mapsto> ''https://h'',
      ''KIS_RECONNECT_RETRIES'' \<mapsto> ''5x'']"

definition ingestion_parsers :: env_parsers where
  "ingestion_parsers = \<lparr>ep_float = (\<lambda>s. None), ep_duration = (\<lambda>s. None)\<rparr>"

definition ingestion_logging :: logging_lib where
  "ingestion_logging = \<lparr>ll_parse_level = (\<lambda>s. Some 1), ll_file_opens = (\<lambda>s. True)\<rparr>"

definition sample_ingestion :: "unit sarama_config \<Rightarrow> (unit, kv_world) ingestion_platform" where
  "sample_ingestion sc =
     \<lparr>ip_logging = ingestion_logging, ip_token_env = sample_token_env, ip_sarama = sc,
      ip_producer_starts = (\<lambda>c x. True), ip_dial = (\<lambda>w. (Dialled, w))\<rparr>"

theorem units_are_ignored_witness: "ing_getEnvAsInt ingestion_vars ''KIS_RECONNECT_RETRIES'' 9 = 5"
proof -
  have "nat_str 5 = ''5''" by code_simp
  then have "Getenv ingestion_vars ''KIS_RECONNECT_RETRIES'' = nat_str 5 @ ''x''" by (simp add: Getenv_def ingestion_vars_def)
  from units_are_ignored [OF this, of 9] show ?thesis by (simp add: is_digit_def)
qed

lemma sample_feed: "load_kis_feed ingestion_parsers ingestion_vars = Some sample_kis_config"
proof -
  have "nat_str 5 = ''5''" by code_simp
  then have s: "scan_int64 ''5x'' = Some (5, ''x'')" using scan_int64_nat_str [of "''x''" 5] by (simp add: is_digit_def)
  show ?thesis
    by (simp add: load_kis_feed_def getEnvRequired_def Getenv_def getEnv_def getEnvAsDuration_def ing_getEnvAsInt_def
        env_parsed_def ingestion_vars_def sample_kis_config_def s)
qed

lemma sample_ingestion_start:
  obtains svc w' where "ingestion_start (sample_ingestion sc) ingestion_parsers ingestion_vars g empty_store = (Inr svc, w')"
    "is_client svc = started_client" "igc_kis (is_config svc) = sample_kis_config"
proof -
  obtain cfg :: "unit ingestion_config" where cfg: "LoadIngestionConfig ingestion_parsers ingestion_vars = Some (cfg, None)"
      "igc_kis cfg = sample_kis_config" "igc_redis cfg = DefaultRedisConfig ''localhost:6379''" "pc_brokers (igc_kafka cfg) \<noteq> []"
      "lgc_output (igc_logger cfg) = ''stdout''"
  proof -
    have v: "getEnv ingestion_vars ''REDIS_HOST'' ''localhost'' = ''localhost''" "getEnv ingestion_vars ''REDIS_PORT'' ''6379'' = ''6379''"
      "getEnv ingestion_vars ''REDIS_PASSWORD'' [] = []" "getEnv ingestion_vars ''LOG_OUTPUT'' ''stdout'' = ''stdout''"
      by (simp_all add: getEnv_def Getenv_def ingestion_vars_def)
    obtain c :: "unit ingestion_config" where c: "read_ingestion_config ingestion_parsers ingestion_vars = Some c"
        "igc_kis c = sample_kis_config" "igc_redis c = DefaultRedisConfig ''localhost:6379''" "pc_brokers (igc_kafka c) \<noteq> []"
        "lgc_output (igc_logger c) = ''stdout''"
      using v by (simp add: read_ingestion_config_def sample_feed Let_def getEnv_ne) (simp add: DefaultRedisConfig_def)
    with ingestion_Validate_reads [OF c(1)] that show thesis by (simp add: LoadIngestionConfig_def)
  qed
  obtain g' where lg: "InitLogger ingestion_logging (Some (igc_logger cfg)) g = Some (None, g')"
    using InitLogger_exact [of ingestion_logging "igc_logger cfg" g] cfg(5) by (auto simp: logger_ok_def ingestion_logging_def)
  obtain c where c: "NewStreamClient sample_kis_config = Some c" "stream_Start (Inr ''T'') Dialled c = (None, started_client)"
    using client_starts by blast
  have logging: "ip_logging (sample_ingestion sc) = ingestion_logging" by (simp add: sample_ingestion_def)
  have env: "tn_redis sample_token_env = kv_go" "tn_now sample_token_env = (\<lambda>w. (kw_now w, w))"
    by (simp_all add: sample_token_env_def)
  have rc: "NewClient kv_go (Some (DefaultRedisConfig ''localhost:6379'')) empty_store = (Inr open_client, empty_store)"
    "client_HealthCheck kv_go open_client empty_store = (None, empty_store)"
    by (simp_all add: NewClient_def client_HealthCheck_def guarded_err_def kv_go_def open_client_def)
  obtain mp where mp: "NewMarketProducer (\<lambda>c x. True) sc (igc_kafka cfg) = Some mp"
    using cfg(4) by (simp add: NewMarketProducer_def ToSaramaProducerConfig_def Let_def)
  let ?svc = "\<lparr>is_config = cfg, is_redis = open_client, is_auth = NewAuthManager sample_kis_config open_client,
    is_client = c, is_producer = mp\<rparr>"
  have n: "NewIngestionService (sample_ingestion sc) cfg empty_store = (Inr ?svc, empty_store)"
    by (simp add: NewIngestionService_def sample_ingestion_def env cfg rc mp c(1))
  let ?am = "\<lparr>am_config = sample_kis_config, am_cache = open_client, am_token = ''T'', am_expires_at = Hour\<rparr>"
  have "GetToken 0 ?am = Inr ''T''" by (simp add: GetToken_def go_simps)
  moreover have "kw_now empty_store = 0" by (simp add: empty_store_def)
  ultimately obtain w' where "ingestion_Start (sample_ingestion sc) ?svc empty_store =
      ((None, ?svc\<lparr>is_auth := ?am, is_client := started_client\<rparr>), w')"
    by (simp add: ingestion_Start_def sample_ingestion_def sample_auth_Start env c(2))
  then have "ingestion_start (sample_ingestion sc) ingestion_parsers ingestion_vars g empty_store =
      (Inr (?svc\<lparr>is_auth := ?am, is_client := started_client\<rparr>), w')"
    using lg n by (simp add: ingestion_start_def cfg(1) logging)
  from that [OF this] cfg(2) show thesis by simp
qed

theorem subscription_lost_on_reconnect_witness:
  "\<forall>sc g. \<exists>svc w' s. ingestion_start (sample_ingestion sc) ingestion_parsers ingestion_vars g empty_store = (Inr svc, w') \<and>
     client_run (igc_kis (is_config svc)) [main_subscribe True, ReaderLoop, ReadFailed, TakeTrigger, BeginReconnect,
       CheckAttempt, Connect (Inr ''U'') Dialled] (is_client svc) = Some s \<and>
     ws_status s = StatusConnected \<and> ws_conn s = Some 1 \<and> (\<forall>ys d. (1, SubscribeMessage ys d) \<notin> set (ws_sent s))"
proof (intro allI)
  fix sc g
  let ?evs = "[ReaderLoop, ReadFailed, TakeTrigger, BeginReconnect, CheckAttempt, Connect (Inr ''U'') Dialled]"
  obtain svc w' where svc: "ingestion_start (sample_ingestion sc) ingestion_parsers ingestion_vars g empty_store = (Inr svc, w')"
      "is_client svc = started_client" "igc_kis (is_config svc) = sample_kis_config"
    by (rule sample_ingestion_start)
  obtain s where s: "client_run sample_kis_config (main_subscribe True # ?evs) started_client = Some s"
      "ws_status s = StatusConnected" "ws_conn s = Some 1"
    by (simp add: run_defs main_subscribe_def)
  have "client_run (igc_kis (is_config svc)) [] (is_client svc) = Some started_client" by (simp add: svc)
  from subscription_lost_on_reconnect [OF svc(1) this, of True ?evs s] s svc(2,3)
  have "\<forall>ys d. (1, SubscribeMessage ys d) \<notin> set (ws_sent s)" by (simp add: started_client_def)
  with svc s show "\<exists>svc w' s. ingestion_start (sample_ingestion sc) ingestion_parsers ingestion_vars g empty_store = (Inr svc, w') \<and>
     client_run (igc_kis (is_config svc)) [main_subscribe True, ReaderLoop, ReadFailed, TakeTrigger, BeginReconnect,
       CheckAttempt, Connect (Inr ''U'') Dialled] (is_client svc) = Some s \<and>
     ws_status s = StatusConnected \<and> ws_conn s = Some 1 \<and> (\<forall>ys d. (1, SubscribeMessage ys d) \<notin> set (ws_sent s))"
    by (simp del: client_run.simps)
qed

end
