(* ===== verification/Redis_Window.thy ===== *)
theory Redis_Window
  imports Redis_Store Go_Time
begin

text \<open>
  The sliding window of \<open>RateLimiter\<close> in \<open>shared/go/pkg/redis/lock.go\<close>: a sorted set of the instants of the
  requests, which one pipeline trims, counts, extends and prolongs.  Redis keeps the scores as doubles, so
  instants in nanoseconds are rounded to multiples of a few hundred.
\<close>

subsection \<open>Operations\<close>

record window_limiter =
  wl_limit :: int
  wl_window :: duration

definition NewWindowLimiter :: "int \<Rightarrow> duration \<Rightarrow> window_limiter" where
  "NewWindowLimiter limit window = \<lparr>wl_limit = limit, wl_window = window\<rparr>"

text \<open>
  \<open>Exec\<close> sends the four commands together and fails with the first error among the replies; nothing of
  another client comes between them here.
\<close>

definition window_Allow ::
  "'w redis \<Rightarrow> window_limiter \<Rightarrow> string \<Rightarrow> instant \<Rightarrow> 'w \<Rightarrow> (string + bool) \<times> 'w" where
  "window_Allow redis r key now w =
     (let windowStart = now - wl_window r;
          (r1, w1) = redis (ZREMRANGEBYSCORE key ''0'' (int_str windowStart)) w;
          (r2, w2) = redis (ZCARD key) w1;
          (r3, w3) = redis (ZADD key (f_of_int now) (int_str now)) w2;
          (r4, w4) = redis (EXPIRE key (wl_window r)) w3 in
      if \<not> (reply_ok r1 \<and> reply_ok r2 \<and> reply_ok r3 \<and> reply_ok r4) then (Inl ''pipeline'', w4)
      else case int_result r2 of
        ROk n \<Rightarrow> (Inr (n < wl_limit r), w4)
      | _ \<Rightarrow> (Inl ''count'', w4))"

definition window_Reset :: "'w redis \<Rightarrow> string \<Rightarrow> 'w \<Rightarrow> bool \<times> 'w" where
  "window_Reset redis key w = (let (r, w1) = redis (DEL key) w in (reply_ok r, w1))"

subsection \<open>Sorted sets in Redis\<close>

text \<open>
  The documented behaviour of the commands, as a hypothesis of the properties below: a clock, and for each
  key the scores of its members with an expiry.  A set without members is no key.  The bounds of a range
  are read as integers here, which is what the limiter sends.
\<close>

type_synonym zset = "string \<Rightarrow> f64 option"
type_synonym zmap = "string \<Rightarrow> (zset \<times> instant option) option"

definition z_live :: "instant \<Rightarrow> zmap \<Rightarrow> string \<Rightarrow> zset \<times> instant option" where
  "z_live now m k = (case m k of
     None \<Rightarrow> (Map.empty, None)
   | Some (s, None) \<Rightarrow> (s, None)
   | Some (s, Some t) \<Rightarrow> if now < t then (s, Some t) else (Map.empty, None))"

definition z_put :: "string \<Rightarrow> zset \<times> instant option \<Rightarrow> zmap \<Rightarrow> zmap" where
  "z_put k e m = m(k := (if fst e = Map.empty then None else Some e))"

definition z_trim :: "f64 \<Rightarrow> f64 \<Rightarrow> zset \<Rightarrow> zset" where
  "z_trim lo hi s = (\<lambda>x. case s x of None \<Rightarrow> None | Some v \<Rightarrow> if f_le lo v \<and> f_le v hi then None else Some v)"

fun z_step :: "redis_cmd \<Rightarrow> instant \<Rightarrow> zmap \<Rightarrow> (redis_reply \<times> zmap) option" where
  "z_step (ZREMRANGEBYSCORE k lo hi) now m =
     (case (parse_int10 lo, parse_int10 hi) of
        (Some a, Some b) \<Rightarrow>
          (let (s, t) = z_live now m k; s' = z_trim (f_of_int a) (f_of_int b) s in
           Some (RInt (int (card (dom s - dom s'))), z_put k (s', t) m))
      | _ \<Rightarrow> None)"
| "z_step (ZCARD k) now m = Some (RInt (int (card (dom (fst (z_live now m k))))), m)"
| "z_step (ZADD k score x) now m =
     (let (s, t) = z_live now m k in Some (RInt (if s x = None then 1 else 0), z_put k (s(x \<mapsto> score), t) m))"
| "z_step (EXPIRE k d) now m =
     (if d \<le> 0 \<or> d mod Second \<noteq> 0 then None
      else let (s, t) = z_live now m k in
        if s = Map.empty then Some (RInt 0, m) else Some (RInt 1, z_put k (s, Some (now + d)) m))"
| "z_step _ now m = None"

definition z_store :: "'w redis \<Rightarrow> ('w \<Rightarrow> instant) \<Rightarrow> ('w \<Rightarrow> zmap) \<Rightarrow> bool" where
  "z_store redis now view \<longleftrightarrow>
     (\<forall>c w r m. z_step c (now w) (view w) = Some (r, m) \<longrightarrow>
        fst (redis c w) = r \<and> view (snd (redis c w)) = m \<and> now (snd (redis c w)) = now w)"

lemma z_do:
  assumes "z_store redis now view" "z_step c (now w) (view w) = Some (r, m)"
  obtains w' where "redis c w = (r, w')" "view w' = m" "now w' = now w"
  using assms unfolding z_store_def by (cases "redis c w") force

subsection \<open>The window as a set of instants\<close>

definition in_window :: "duration \<Rightarrow> instant \<Rightarrow> instant \<Rightarrow> bool" where
  "in_window window now u \<longleftrightarrow> \<not> f_le (f_of_int u) (f_of_int (now - window))"

definition kept :: "duration \<Rightarrow> instant \<Rightarrow> instant set \<Rightarrow> instant set" where
  "kept window now L = {u \<in> L. in_window window now u}"

text \<open>
  What the limiter promises: a request is granted when fewer than \<open>limit\<close> earlier ones are in the window.  It
  is recorded in either case.
\<close>

definition slide :: "window_limiter \<Rightarrow> instant \<Rightarrow> instant set \<Rightarrow> bool \<times> instant set" where
  "slide r now L = (let K = kept (wl_window r) now L in (int (card K) < wl_limit r, insert now K))"

definition enc :: "instant set \<Rightarrow> zset" where
  "enc L = (\<lambda>x. case parse_int10 x of None \<Rightarrow> None | Some u \<Rightarrow> if u \<in> L \<and> x = int_str u then Some (f_of_int u) else None)"

definition stamps :: "instant set \<Rightarrow> bool" where
  "stamps L \<longleftrightarrow> finite L \<and> (\<forall>u \<in> L. 0 \<le> u \<and> u < 2 ^ 63)"

lemma parse_int_str:
  assumes "0 \<le> n" "n < 2 ^ 63"
  shows "parse_int10 (int_str n) = Some n"
proof -
  have s: "int_str n = nat_str (nat n)" using assms(1) by (simp add: int_str_def)
  have d: "\<And>c. c \<in> set (nat_str (nat n)) \<Longrightarrow> is_digit c" by (rule nat_str_digits)
  then have "is_digit (hd (nat_str (nat n)))" by (simp add: nat_str_ne)
  then have "hd (nat_str (nat n)) \<noteq> CHR ''-''" "hd (nat_str (nat n)) \<noteq> CHR ''+''" by (auto simp: is_digit_def)
  then show ?thesis using assms d by (simp add: s parse_int10_def list_all_iff Let_def)
qed

lemma enc_at: "stamps L \<Longrightarrow> u \<in> L \<Longrightarrow> enc L (int_str u) = Some (f_of_int u)"
  by (simp add: enc_def stamps_def parse_int_str)

lemma enc_dom: "stamps L \<Longrightarrow> dom (enc L) = int_str ` L"
  by (auto simp: enc_def stamps_def parse_int_str split: option.splits if_splits)

lemma card_enc: "stamps L \<Longrightarrow> card (dom (enc L)) = card L"
  by (simp add: enc_dom card_image inj_on_def int_str_inj)

lemma enc_empty [simp]: "enc {} = Map.empty"
  by (auto simp: enc_def split: option.split)

lemma enc_empty_iff: "stamps L \<Longrightarrow> enc L = Map.empty \<longleftrightarrow> L = {}"
  using enc_dom [of L] by (auto simp: dom_eq_empty_conv [symmetric])

lemma enc_insert: "0 \<le> t \<Longrightarrow> t < 2 ^ 63 \<Longrightarrow> (enc L)(int_str t \<mapsto> f_of_int t) = enc (insert t L)"
  by (rule ext) (auto simp: enc_def parse_int_str split: option.split dest: int_str_inj)

lemma f_of_nat: "0 \<le> n \<Longrightarrow> f_of_int n = mk_f64 False (of_int n)"
  by (simp add: f_of_int_def f_of_rat_def)

lemma f_zero_le: "0 \<le> n \<Longrightarrow> f_le (f_of_int 0) (f_of_int n)"
  by (simp add: f_of_nat mk_f64_def f_limit_def rnd_nonneg Let_def)

lemma f_of_int_mono: "0 \<le> m \<Longrightarrow> m \<le> n \<Longrightarrow> f_le (f_of_int m) (f_of_int n)"
  using rnd_mono [of "of_int m" "of_int n"] by (auto simp: f_of_nat mk_f64_def Let_def)

lemma trim_enc:
  assumes "stamps L"
  shows "z_trim (f_of_int 0) (f_of_int (t - window)) (enc L) = enc (kept window t L)"
  using assms
  by (intro ext) (auto simp: z_trim_def enc_def kept_def in_window_def stamps_def f_zero_le split: option.split)

lemma stamps_kept: "stamps L \<Longrightarrow> stamps (kept window t L)"
  by (auto simp: stamps_def kept_def)

subsection \<open>One request\<close>

definition not_over :: "instant \<Rightarrow> instant option \<Rightarrow> bool" where
  "not_over now d \<longleftrightarrow> (case d of None \<Rightarrow> True | Some t \<Rightarrow> now < t)"

lemma z_live_put:
  "z_live now (z_put k e m) k = (if fst e \<noteq> Map.empty \<and> not_over now (snd e) then e else (Map.empty, None))"
  by (cases e) (auto simp: z_live_def z_put_def not_over_def split: option.split)

lemma z_live_not_over: "z_live now m k = (s, d) \<Longrightarrow> not_over now d"
  by (auto simp: z_live_def not_over_def split: option.splits if_splits)

text \<open>The settings the limiter works with: a window of whole seconds.\<close>

definition window_ok :: "window_limiter \<Rightarrow> bool" where
  "window_ok r \<longleftrightarrow> 0 < wl_window r \<and> wl_window r mod Second = 0"

lemma window_effect:
  assumes "z_store redis now view" "window_ok r" "stamps L" "z_live (now w) (view w) k = (enc L, d)"
    and "wl_window r \<le> t" "t < 2 ^ 63"
  obtains w' where "window_Allow redis r k t w = (Inr (fst (slide r t L)), w')" "now w' = now w"
    "view w' k = Some (enc (snd (slide r t L)), Some (now w + wl_window r))"
proof -
  let ?K = "kept (wl_window r) t L" and ?v = "f_of_int t"
  have r: "0 < wl_window r" "wl_window r mod Second = 0" using assms(2) by (simp_all add: window_ok_def)
  have K: "stamps ?K" using assms(3) by (rule stamps_kept)
  have nd: "not_over (now w) d" using assms(4) by (rule z_live_not_over)
  have zero: "parse_int10 ''0'' = Some 0" by code_simp
  have ws: "parse_int10 (int_str (t - wl_window r)) = Some (t - wl_window r)" using assms(5,6) r by (intro parse_int_str) simp_all
  obtain n1 where "z_step (ZREMRANGEBYSCORE k ''0'' (int_str (t - wl_window r))) (now w) (view w) = Some (RInt n1, z_put k (enc ?K, d) (view w))"
    using assms(3) by (simp add: zero ws assms(4) trim_enc Let_def)
  from z_do [OF assms(1) this] obtain w1 where w1: "redis (ZREMRANGEBYSCORE k ''0'' (int_str (t - wl_window r))) w = (RInt n1, w1)"
      "view w1 = z_put k (enc ?K, d) (view w)" "now w1 = now w" .
  define d1 where "d1 = (if ?K = {} then None else d)"
  have l1: "z_live (now w1) (view w1) k = (enc ?K, d1)"
    using nd K by (auto simp: w1 z_live_put d1_def enc_empty_iff)
  have nd1: "not_over (now w1) d1" using l1 by (rule z_live_not_over)
  have "z_step (ZCARD k) (now w1) (view w1) = Some (RInt (int (card ?K)), view w1)"
    by (simp add: l1 card_enc [OF K])
  from z_do [OF assms(1) this] obtain w2 where w2: "redis (ZCARD k) w1 = (RInt (int (card ?K)), w2)"
      "view w2 = view w1" "now w2 = now w1" .
  obtain n3 where "z_step (ZADD k ?v (int_str t)) (now w2) (view w2) = Some (RInt n3, z_put k ((enc ?K)(int_str t \<mapsto> ?v), d1) (view w2))"
    by (simp add: w2 l1)
  from z_do [OF assms(1) this] obtain w3 where w3: "redis (ZADD k ?v (int_str t)) w2 = (RInt n3, w3)"
      "view w3 = z_put k ((enc ?K)(int_str t \<mapsto> ?v), d1) (view w2)" "now w3 = now w2" .
  have l3: "z_live (now w3) (view w3) k = ((enc ?K)(int_str t \<mapsto> ?v), d1)"
    using nd1 by (simp add: w3 w2 z_live_put)
  have "z_step (EXPIRE k (wl_window r)) (now w3) (view w3) =
      Some (RInt 1, z_put k ((enc ?K)(int_str t \<mapsto> ?v), Some (now w3 + wl_window r)) (view w3))"
    using r by (simp add: l3)
  from z_do [OF assms(1) this] obtain w4 where w4: "redis (EXPIRE k (wl_window r)) w3 = (RInt 1, w4)"
      "view w4 = z_put k ((enc ?K)(int_str t \<mapsto> ?v), Some (now w3 + wl_window r)) (view w3)" "now w4 = now w3" .
  have "window_Allow redis r k t w = (Inr (fst (slide r t L)), w4)"
    by (simp add: window_Allow_def w1(1) w2(1) w3(1) w4(1) slide_def Let_def)
  moreover have "view w4 k = Some (enc (insert t ?K), Some (now w + wl_window r))"
    using assms(5,6) r by (simp add: w4 w3 w2 w1 z_put_def enc_insert [symmetric])
  ultimately show thesis using that w1(3) w2(3) w3(3) w4(3) by (simp add: slide_def Let_def)
qed

subsection \<open>Refinement\<close>

text \<open>
  What the store holds for the recorded instants: all of them until the expiry, which comes after every one
  has left the window, and possibly nothing after that.
\<close>

definition holds_log :: "('w \<Rightarrow> instant) \<Rightarrow> ('w \<Rightarrow> zmap) \<Rightarrow> window_limiter \<Rightarrow> string \<Rightarrow> instant set \<Rightarrow> 'w \<Rightarrow> bool" where
  "holds_log now view r k L w \<longleftrightarrow> stamps L \<and> (\<forall>u \<in> L. u \<le> now w) \<and>
     (case view w k of
        None \<Rightarrow> L = {}
      | Some (s, None) \<Rightarrow> False
      | Some (s, Some d) \<Rightarrow> s = enc L \<and> (\<forall>u \<in> L. u + wl_window r \<le> d))"

lemma kept_expired:
  assumes "stamps L" "\<forall>u \<in> L. u + window \<le> d" "d \<le> t"
  shows "kept window t L = {}"
proof -
  have "f_le (f_of_int u) (f_of_int (t - window))" if "u \<in> L" for u
    using that assms by (intro f_of_int_mono) (auto simp: stamps_def)
  then show ?thesis by (auto simp: kept_def in_window_def)
qed

text \<open>
  The limiter implements the sliding window.  When the clock of the client is that of the server, the
  answer to a request is the one of the set of recorded instants, and the store holds the set that
  comes out of it, also when the key has expired meanwhile.
\<close>

theorem window_Allow_refines:
  assumes "z_store redis now view" "window_ok r" "holds_log now view r k L w" "now w = t"
    and "wl_window r \<le> t" "t < 2 ^ 63"
  shows "\<exists>w'. window_Allow redis r k t w = (Inr (fst (slide r t L)), w') \<and> now w' = t \<and>
     holds_log now view r k (snd (slide r t L)) w'"
proof -
  have L: "stamps L" "\<forall>u \<in> L. u \<le> t" using assms(3,4) by (simp_all add: holds_log_def)
  obtain M d where M: "stamps M" "z_live (now w) (view w) k = (enc M, d)" "kept (wl_window r) t M = kept (wl_window r) t L"
  proof (cases "view w k")
    case None
    then have "L = {}" using assms(3) by (simp add: holds_log_def)
    with None that [of "{}" None] show thesis by (simp add: z_live_def stamps_def)
  next
    case (Some e)
    then obtain d where d: "view w k = Some (enc L, Some d)" "\<forall>u \<in> L. u + wl_window r \<le> d"
      using assms(3) by (auto simp: holds_log_def split: option.splits prod.splits)
    show thesis
    proof (cases "t < d")
      case True
      with d L that [of L "Some d"] assms(4) show thesis by (simp add: z_live_def)
    next
      case False
      then have "kept (wl_window r) t L = {}" using L d by (intro kept_expired [where d = d]) auto
      with False d that [of "{}" None] assms(4) show thesis by (simp add: z_live_def stamps_def kept_def)
    qed
  qed
  have s: "slide r t M = slide r t L" using M(3) by (simp add: slide_def)
  obtain w' where w': "window_Allow redis r k t w = (Inr (fst (slide r t L)), w')" "now w' = now w"
      "view w' k = Some (enc (snd (slide r t L)), Some (now w + wl_window r))"
    using window_effect [OF assms(1,2) M(1,2) assms(5,6)] s by auto
  have "stamps (insert t (kept (wl_window r) t L))"
    using stamps_kept [OF L(1)] assms(2,5,6) by (auto simp: stamps_def window_ok_def)
  then have "holds_log now view r k (snd (slide r t L)) w'"
    using w' L(2) assms(4) by (auto simp: holds_log_def slide_def kept_def Let_def)
  with w' assms(4) show ?thesis by auto
qed

subsection \<open>A history of requests\<close>

text \<open>
  The requests on one key and their answers, in order.  Between two requests the clock goes on and other keys
  may change.
\<close>

inductive polled ::
  "'w redis \<Rightarrow> ('w \<Rightarrow> instant) \<Rightarrow> ('w \<Rightarrow> zmap) \<Rightarrow> window_limiter \<Rightarrow> string \<Rightarrow> (instant \<times> (string + bool)) list \<Rightarrow> 'w \<Rightarrow> bool"
  for redis now view r k
where
  fresh: "view w k = None \<Longrightarrow> polled redis now view r k [] w"
| ask: "polled redis now view r k rs w \<Longrightarrow> view w1 k = view w k \<Longrightarrow> now w \<le> now w1 \<Longrightarrow>
     window_Allow redis r k (now w1) w1 = (res, w2) \<Longrightarrow> polled redis now view r k (rs @ [(now w1, res)]) w2"

definition log_of :: "window_limiter \<Rightarrow> instant list \<Rightarrow> instant set" where
  "log_of r ts = foldl (\<lambda>L t. snd (slide r t L)) {} ts"

definition slide_answers :: "window_limiter \<Rightarrow> instant list \<Rightarrow> bool list" where
  "slide_answers r ts = map (\<lambda>i. fst (slide r (ts ! i) (log_of r (take i ts)))) [0..<length ts]"

lemma log_of_snoc: "log_of r (ts @ [t]) = snd (slide r t (log_of r ts))"
  by (simp add: log_of_def)

lemma slide_answers_snoc: "slide_answers r (ts @ [t]) = slide_answers r ts @ [fst (slide r t (log_of r ts))]"
  by (simp add: slide_answers_def nth_append)

lemma holds_log_later:
  "holds_log now view r k L w \<Longrightarrow> view w1 k = view w k \<Longrightarrow> now w \<le> now w1 \<Longrightarrow> holds_log now view r k L w1"
  by (force simp: holds_log_def)

text \<open>In every history the answers are those of the abstract window.\<close>

theorem window_answers:
  assumes "polled redis now view r k rs w" "z_store redis now view" "window_ok r"
    and "\<forall>(t, res) \<in> set rs. wl_window r \<le> t \<and> t < 2 ^ 63"
  shows "map snd rs = map Inr (slide_answers r (map fst rs)) \<and> holds_log now view r k (log_of r (map fst rs)) w"
  using assms
proof induction
  case (fresh w)
  then show ?case by (simp add: slide_answers_def log_of_def holds_log_def stamps_def)
next
  case (ask rs w w1 res w2)
  then have IH: "map snd rs = map Inr (slide_answers r (map fst rs))" "holds_log now view r k (log_of r (map fst rs)) w"
    by auto
  note h = holds_log_later [OF IH(2) ask.hyps(2,3)]
  have "wl_window r \<le> now w1" "now w1 < 2 ^ 63" using ask.prems(3) by auto
  from window_Allow_refines [OF ask.prems(1,2) h refl this] ask.hyps(4) IH(1) show ?case
    by (auto simp: log_of_snoc slide_answers_snoc)
qed

subsection \<open>A client that keeps asking\<close>

lemma ulp_stamp: "0 < x \<Longrightarrow> x < 2 ^ 63 \<Longrightarrow> ulp x \<le> 2 ^ 10"
proof -
  assume x: "0 < x" "x < 2 ^ 63"
  have "ilog2 x \<le> 62"
  proof (rule ccontr)
    assume "\<not> ilog2 x \<le> 62"
    then have "(2::rat) powi 63 \<le> 2 powi (ilog2 x)" by (intro two_powi_mono) simp
    with ilog2_bounds(1) [OF x(1)] x(2) show False by simp
  qed
  then have "ulp x \<le> 2 powi 10" unfolding ulp_def by (intro two_powi_mono) simp
  then show ?thesis by simp
qed

lemma rnd_stamp: "0 \<le> n \<Longrightarrow> n < 2 ^ 63 \<Longrightarrow> \<bar>rnd (of_int n) - of_int n\<bar> \<le> 2 ^ 9"
proof (cases "n = 0")
  case False
  assume n: "0 \<le> n" "n < 2 ^ 63"
  then have "(of_int n :: rat) < of_int (2 ^ 63)" by (simp only: of_int_less_iff)
  then have "ulp (of_int n) \<le> 2 ^ 10" using n False by (intro ulp_stamp) simp_all
  then show ?thesis using rnd_error [of "of_int n"] by simp
qed simp

text \<open>Rounding moves an instant by half a microsecond at most.\<close>

lemma in_window_far:
  assumes "window \<le> t" "t < 2 ^ 63" "0 < window" "t - window + 1024 < u" "u \<le> t"
  shows "in_window window t u"
proof -
  let ?v = "t - window"
  have "\<bar>rnd (of_int u) - of_int u\<bar> \<le> 2 ^ 9" "\<bar>rnd (of_int ?v) - of_int ?v\<bar> \<le> 2 ^ 9"
    using assms by (intro rnd_stamp; simp)+
  moreover have "(of_int (?v + 1024) :: rat) < of_int u" using assms(4) by (simp only: of_int_less_iff)
  ultimately have lt: "rnd (of_int ?v) < rnd (of_int u :: rat)" by simp
  have "(of_int u :: rat) < of_int (2 ^ 63)" using assms by (simp only: of_int_less_iff)
  then have "rnd (of_int u :: rat) < 2 ^ 64" using \<open>\<bar>rnd (of_int u) - of_int u\<bar> \<le> 2 ^ 9\<close> by simp
  moreover have "(2::rat) ^ 64 \<le> 2 ^ 1024" by (intro power_increasing) simp_all
  ultimately have "\<not> f_limit \<le> rnd (of_int u :: rat)" "\<not> f_limit \<le> rnd (of_int ?v :: rat)" using lt by (simp_all add: f_limit_def)
  then show ?thesis using lt assms by (simp add: in_window_def f_of_nat mk_f64_def Let_def del: of_int_diff)
qed

definition every :: "instant \<Rightarrow> duration \<Rightarrow> nat \<Rightarrow> instant list" where
  "every t g n = map (\<lambda>i. t + int i * g) [0..<n]"

lemma recent_in_window:
  assumes "0 < g" "int m * g + 1024 < wl_window r" "wl_window r \<le> t" "t + int n * g < 2 ^ 63" "j \<le> n" "n \<le> j + m"
  shows "in_window (wl_window r) (t + int n * g) (t + int j * g)"
proof -
  have "int (n - j) * g \<le> int m * g" using assms(1,6) by (intro mult_right_mono) simp_all
  then have d: "int n * g - int j * g \<le> int m * g" using assms(5) by (simp add: algebra_simps of_nat_diff)
  have "int j * g \<le> int n * g" "0 \<le> int n * g" "0 \<le> int m * g" using assms(1,5) by simp_all
  with d assms(2-4) show ?thesis by (intro in_window_far) linarith+
qed

lemma every_snoc: "every t g (Suc n) = every t g n @ [t + int n * g]"
  by (simp add: every_def)

lemma log_of_recent:
  assumes "0 < g" "int m * g + 1024 < wl_window r" "wl_window r \<le> t" "t + int n * g < 2 ^ 63"
  shows "\<forall>j. j < n \<and> n \<le> j + m \<longrightarrow> t + int j * g \<in> log_of r (every t g n)"
  using assms(4)
proof (induction n)
  case (Suc n)
  have n: "t + int n * g < 2 ^ 63" using Suc.prems assms(1) by (simp add: algebra_simps)
  have "t + int j * g \<in> snd (slide r (t + int n * g) (log_of r (every t g n)))" if j: "j < Suc n" "Suc n \<le> j + m" for j
  proof (cases "j = n")
    case False
    with j have j': "j < n" "n \<le> j + m" by simp_all
    then have "in_window (wl_window r) (t + int n * g) (t + int j * g)"
      using assms(1-3) n by (intro recent_in_window) simp_all
    with Suc.IH [OF n] j' show ?thesis by (simp add: slide_def kept_def Let_def)
  qed (simp add: slide_def Let_def)
  then show ?case by (simp add: log_of_snoc every_snoc)
qed simp

lemma log_of_subset: "log_of r ts \<subseteq> set ts"
  by (induction ts rule: rev_induct) (auto simp: log_of_snoc slide_def kept_def Let_def, simp add: log_of_def)

lemma steady_answer:
  assumes "0 < g" "wl_limit r * g + 1024 < wl_window r" "0 \<le> wl_limit r" "wl_window r \<le> t" "t + int i * g < 2 ^ 63"
  shows "fst (slide r (t + int i * g) (log_of r (every t g i))) \<longleftrightarrow> int i < wl_limit r"
proof -
  let ?K = "kept (wl_window r) (t + int i * g) (log_of r (every t g i))"
  have sub: "?K \<subseteq> set (every t g i)" using log_of_subset [of r "every t g i"] by (auto simp: kept_def)
  then have fin: "finite ?K" by (rule finite_subset) simp
  have up: "card ?K \<le> i"
    using card_mono [OF _ sub] card_length [of "every t g i"] by (simp add: every_def)
  have down: "wl_limit r \<le> int (card ?K)" if "wl_limit r \<le> int i"
  proof -
    let ?m = "nat (wl_limit r)"
    let ?J = "(\<lambda>j. t + int j * g) ` {i - ?m..<i}"
    have m: "int ?m * g + 1024 < wl_window r" using assms(2,3) by simp
    have "?J \<subseteq> ?K"
      using log_of_recent [OF assms(1) m assms(4,5)] recent_in_window [OF assms(1) m assms(4,5)]
      by (auto simp: kept_def)
    then have "card ?J \<le> card ?K" by (rule card_mono [OF fin])
    moreover have "inj_on (\<lambda>j. t + int j * g) {i - ?m..<i}" using assms(1) by (auto simp: inj_on_def)
    then have "card ?J = card {i - ?m..<i}" by (rule card_image)
    ultimately show ?thesis using that assms(3) by simp
  qed
  have "int (card ?K) < wl_limit r \<longleftrightarrow> int i < wl_limit r" using up down by linarith
  then show ?thesis by (simp add: slide_def Let_def)
qed

text \<open>
  Refused requests count.  A client that asks at a steady pace, more often than \<open>limit\<close> times a window, is granted its
  first \<open>limit\<close> requests and no other, however long it goes on: each refused request is recorded and keeps the
  window full.
\<close>

theorem steady_client_starves:
  assumes "polled redis now view r k rs w" "z_store redis now view" "window_ok r"
    and "map fst rs = every t g n" "0 < g" "wl_window r \<le> t" "t + int n * g < 2 ^ 63"
    and "0 \<le> wl_limit r" "wl_limit r * g + 1024 < wl_window r"
  shows "map snd rs = map (\<lambda>i. Inr (int i < wl_limit r)) [0..<n]"
proof -
  have late: "t + int j * g < 2 ^ 63" if "j < n" for j
  proof -
    have "int j * g \<le> int n * g" using that assms(5) by simp
    then show ?thesis using assms(7) by simp
  qed
  have "wl_window r \<le> u \<and> u < 2 ^ 63" if "(u, res) \<in> set rs" for u res
  proof -
    have "u \<in> set (map fst rs)" using that by force
    then have "\<exists>j < n. u = t + int j * g" by (auto simp: assms(4) every_def)
    then obtain j where "u = t + int j * g" "j < n" by blast
    moreover from this assms(5) have "0 \<le> int j * g" by simp
    ultimately show ?thesis using late assms(6) by simp
  qed
  then have "map snd rs = map Inr (slide_answers r (every t g n))"
    using window_answers [OF assms(1-3)] assms(4) by auto
  moreover have "slide_answers r (every t g n) = map (\<lambda>i. int i < wl_limit r) [0..<n]"
    unfolding slide_answers_def using steady_answer [OF assms(5,9,8,6) late]
    by (auto simp: every_def take_map intro!: map_cong)
  ultimately show ?thesis by simp
qed

subsection \<open>A concrete run\<close>

record z_world =
  zw_now :: instant
  zw_map :: zmap

definition z_redis :: "z_world redis" where
  "z_redis c w = (case z_step c (zw_now w) (zw_map w) of
     Some (r, m) \<Rightarrow> (r, w\<lparr>zw_map := m\<rparr>) | None \<Rightarrow> (RErr ''unsupported'', w))"

lemma z_redis_store: "z_store z_redis zw_now zw_map"
  by (simp add: z_store_def z_redis_def)

lemma z_redis_clock: "zw_now (snd (window_Allow z_redis r k t w)) = zw_now w"
proof -
  have "zw_now (snd (z_redis c v)) = zw_now v" for c v by (simp add: z_redis_def split: option.split prod.split)
  then have "\<And>c v p. z_redis c v = p \<Longrightarrow> zw_now (snd p) = zw_now v" by blast
  then show ?thesis
    by (auto simp: window_Allow_def Let_def split: prod.splits redis_result.splits) (metis snd_conv)+
qed

lemma z_history:
  assumes "sorted_wrt (\<le>) ts"
  shows "\<exists>rs w. polled z_redis zw_now zw_map r k rs w \<and> map fst rs = ts \<and> (ts \<noteq> [] \<longrightarrow> zw_now w = last ts)"
  using assms
proof (induction ts rule: rev_induct)
  case Nil
  have "polled z_redis zw_now zw_map r k [] \<lparr>zw_now = 0, zw_map = Map.empty\<rparr>" by (intro polled.fresh) simp
  then show ?case by (intro exI conjI) auto
next
  case (snoc t ts)
  then obtain rs w where h: "polled z_redis zw_now zw_map r k rs w" "map fst rs = ts" "ts \<noteq> [] \<longrightarrow> zw_now w = last ts"
    by (auto simp: sorted_wrt_append)
  let ?w = "(if ts = [] then \<lparr>zw_now = min (zw_now w) t, zw_map = zw_map w\<rparr> else w)"
  have p: "polled z_redis zw_now zw_map r k rs ?w"
  proof (cases "ts = []")
    case True
    with h have "rs = []" "zw_map w k = None" by (auto elim: polled.cases)
    with True show ?thesis by (simp add: polled.fresh)
  qed (use h in simp)
  let ?w1 = "\<lparr>zw_now = t, zw_map = zw_map w\<rparr>"
  obtain res w2 where a: "window_Allow z_redis r k (zw_now ?w1) ?w1 = (res, w2)" by (rule prod.exhaust)
  have "zw_now ?w \<le> zw_now ?w1" using h(3) snoc.prems by (auto simp: sorted_wrt_append)
  from polled.ask [OF p _ this a] have "polled z_redis zw_now zw_map r k (rs @ [(t, res)]) w2" by simp
  moreover have "zw_now w2 = t" using z_redis_clock [of r k "zw_now ?w1" ?w1] a by simp
  ultimately show ?case using h(2) by (intro exI conjI) auto
qed

theorem window_Allow_refines_witness:
  "\<exists>w'. window_Allow z_redis (NewWindowLimiter 1 Second) ''k'' Second \<lparr>zw_now = Second, zw_map = Map.empty\<rparr> = (Inr True, w') \<and>
     holds_log zw_now zw_map (NewWindowLimiter 1 Second) ''k'' {Second} w'"
proof -
  let ?r = "NewWindowLimiter 1 Second" and ?w = "\<lparr>zw_now = Second, zw_map = Map.empty\<rparr>"
  have s: "slide ?r Second {} = (True, {Second})" by (simp add: slide_def kept_def NewWindowLimiter_def)
  have "\<exists>w'. window_Allow z_redis ?r ''k'' Second ?w = (Inr (fst (slide ?r Second {})), w') \<and> zw_now w' = Second \<and>
      holds_log zw_now zw_map ?r ''k'' (snd (slide ?r Second {})) w'"
    by (rule window_Allow_refines [OF z_redis_store])
      (simp_all add: window_ok_def NewWindowLimiter_def holds_log_def stamps_def go_simps)
  then show ?thesis unfolding s by auto
qed

theorem steady_client_starves_witness:
  "\<exists>rs w. polled z_redis zw_now zw_map (NewWindowLimiter 1 (2 * Second)) ''k'' rs w \<and> map snd rs = [Inr True, Inr False, Inr False]"
proof -
  let ?r = "NewWindowLimiter 1 (2 * Second)"
  have s: "sorted_wrt (\<le>) (every (2 * Second) Second 3)" by (simp add: every_def numeral_3_eq_3 go_simps)
  then obtain rs w where h: "polled z_redis zw_now zw_map ?r ''k'' rs w" "map fst rs = every (2 * Second) Second 3"
    using z_history [OF s] by blast
  have "map snd rs = map (\<lambda>i. Inr (int i < wl_limit ?r)) [0..<3]"
    by (rule steady_client_starves [OF h(1) z_redis_store _ h(2)]) (simp_all add: window_ok_def NewWindowLimiter_def go_simps)
  with h(1) show ?thesis by (auto simp: NewWindowLimiter_def numeral_3_eq_3)
qed

end
