(* ===== verification/Kafka_Group.thy ===== *)
theory Kafka_Group
  imports Market_Consumer
begin

text \<open>
  The life of a consumer group and of a producer: \<open>NewConsumer\<close>, \<open>Start\<close>, \<open>Close\<close>, \<open>NewProducer\<close> and the delivery
  callbacks of \<open>shared/go/pkg/kafka\<close>, and the copy of the consumer in the data recorder.  The claim loop that runs
  inside a session is the one of \<open>Kafka\<close>.
\<close>

subsection \<open>Construction\<close>

datatype group_error = GroupConfigInvalid kafka_error | GroupFailed | GroupClosed | ConsumeError string

definition NewConsumer ::
  "('tls sarama_config \<Rightarrow> bool) \<Rightarrow> 'tls sarama_config \<Rightarrow> 'tls consumer_config \<Rightarrow> group_error option" where
  "NewConsumer opens fresh config =
     (case ToSaramaConsumerConfig fresh config of
        Inl err \<Rightarrow> Some (GroupConfigInvalid err)
      | Inr sc \<Rightarrow> if opens sc then None else Some GroupFailed)"

definition recorder_NewConsumer ::
  "(recorder_config \<Rightarrow> 'tls sarama_config \<Rightarrow> bool) \<Rightarrow> 'tls sarama_config \<Rightarrow> recorder_config \<Rightarrow> group_error option" where
  "recorder_NewConsumer opens fresh config =
     (if opens config (recorder_sarama_config fresh config) then None else Some GroupFailed)"

definition NewProducer ::
  "('tls producer_config \<Rightarrow> 'tls sarama_config \<Rightarrow> bool) \<Rightarrow> 'tls sarama_config \<Rightarrow> 'tls producer_config \<Rightarrow> group_error + producer" where
  "NewProducer opens fresh config =
     (case ToSaramaProducerConfig fresh config of
        Inl err \<Rightarrow> Inl (GroupConfigInvalid err)
      | Inr sc \<Rightarrow>
          if opens config sc
          then Inr \<lparr>pr_closed = False, pr_max_message_bytes = pc_max_message_bytes config, pr_input = []\<rparr>
          else Inl GroupFailed)"

subsection \<open>The loop around \<open>Consume\<close>\<close>

text \<open>
  What happens while \<open>Start\<close> runs: a claim of the session, the end of the session (\<open>Consume\<close> returns nil, which it
  also does after a rebalance), its error, and the calls of others that cancel the context or close the
  consumer.  The world is what the handler changes, with the session's offsets.
\<close>

datatype 'w group_event =
    RunClaim "'w claim_event list" | SessionOver | ConsumeFailed string | CancelGroup | CloseGroup

record ('w, 's) group_run =
  gr_closed :: bool
  gr_cancelled :: bool
  gr_world :: "'w \<times> 's"

datatype start_result = StillConsuming | StartReturned "group_error option"

type_synonym ('w, 's) claim_loop = "'w claim_event list \<Rightarrow> 'w \<times> 's \<Rightarrow> 'w \<times> 's"

definition consumer_Close :: "string option \<Rightarrow> ('w, 's) group_run \<Rightarrow> string option \<times> ('w, 's) group_run" where
  "consumer_Close err r = (if gr_closed r then (None, r) else (err, r\<lparr>gr_closed := True\<rparr>))"

fun consume_loop :: "('w, 's) claim_loop \<Rightarrow> 'w group_event list \<Rightarrow> ('w, 's) group_run \<Rightarrow> start_result \<times> ('w, 's) group_run" where
  "consume_loop claim [] r = (StillConsuming, r)"
| "consume_loop claim (RunClaim ces # evs) r = consume_loop claim evs (r\<lparr>gr_world := claim ces (gr_world r)\<rparr>)"
| "consume_loop claim (CancelGroup # evs) r = consume_loop claim evs (r\<lparr>gr_cancelled := True\<rparr>)"
| "consume_loop claim (CloseGroup # evs) r = consume_loop claim evs (snd (consumer_Close None r))"
| "consume_loop claim (SessionOver # evs) r =
     (if gr_cancelled r then (StartReturned None, r) else consume_loop claim evs r)"
| "consume_loop claim (ConsumeFailed e # evs) r =
     (StartReturned (if gr_closed r then None else Some (ConsumeError e)), r)"

definition consumer_Start :: "('w, 's) claim_loop \<Rightarrow> 'w group_event list \<Rightarrow> ('w, 's) group_run \<Rightarrow> start_result \<times> ('w, 's) group_run" where
  "consumer_Start claim evs r =
     (if gr_closed r then (StartReturned (Some GroupClosed), r)
      else if gr_cancelled r then (StartReturned None, r)
      else consume_loop claim evs r)"

subsection \<open>Deliveries\<close>

text \<open>What the two goroutines of the producer hand to the callbacks, if there are any.\<close>

datatype delivery = Delivered string int int | NotDelivered string string

fun handle_delivery ::
  "(string \<Rightarrow> int \<Rightarrow> int \<Rightarrow> 'w \<Rightarrow> 'w) option \<Rightarrow> (string \<Rightarrow> string \<Rightarrow> 'w \<Rightarrow> 'w) option \<Rightarrow> delivery \<Rightarrow> 'w \<Rightarrow> 'w" where
  "handle_delivery ok bad (Delivered topic part offset) w = (case ok of None \<Rightarrow> w | Some f \<Rightarrow> f topic part offset w)"
| "handle_delivery ok bad (NotDelivered topic err) w = (case bad of None \<Rightarrow> w | Some f \<Rightarrow> f topic err w)"

subsection \<open>How the loop ends\<close>

lemma consume_loop_append:
  "consume_loop claim (evs @ evs2) r =
     (case consume_loop claim evs r of
        (StillConsuming, r1) \<Rightarrow> consume_loop claim evs2 r1
      | (StartReturned e, r1) \<Rightarrow> (StartReturned e, r1))"
  by (induction claim evs r rule: consume_loop.induct) (auto simp: consumer_Close_def)

lemma consume_loop_flags:
  "consume_loop claim evs r = (res, r') \<Longrightarrow>
     (gr_closed r \<longrightarrow> gr_closed r') \<and> (gr_cancelled r \<longrightarrow> gr_cancelled r') \<and>
     (res = StartReturned (Some e) \<longrightarrow> \<not> gr_closed r')"
  by (induction claim evs r rule: consume_loop.induct) (auto simp: consumer_Close_def split: if_splits)

text \<open>
  The loop ends for three reasons only: the context is cancelled and the session is over; the consumer is closed
  and \<open>Consume\<close> fails; or \<open>Consume\<close> fails while the consumer is open, which is the only end with an error.
\<close>

theorem consumer_end_exact:
  assumes "consumer_Start claim evs r = (StartReturned e, r')" "\<not> gr_closed r"
  shows "(e = None \<longrightarrow> gr_cancelled r' \<or> gr_closed r') \<and>
    (\<forall>x. e = Some x \<longrightarrow> \<not> gr_closed r' \<and> (\<exists>m. x = ConsumeError m \<and> ConsumeFailed m \<in> set evs))"
proof -
  have "consume_loop claim evs r = (StartReturned e, r') \<Longrightarrow>
      (e = None \<longrightarrow> gr_cancelled r' \<or> gr_closed r') \<and>
      (\<forall>x. e = Some x \<longrightarrow> \<not> gr_closed r' \<and> (\<exists>m. x = ConsumeError m \<and> ConsumeFailed m \<in> set evs))"
    by (induction claim evs r rule: consume_loop.induct) (auto simp: consumer_Close_def split: if_splits)
  then show ?thesis using assms by (auto simp: consumer_Start_def split: if_splits)
qed

text \<open>A cancelled consumer returns at the end of its session.\<close>

lemma cancelled_returns:
  "gr_cancelled r \<Longrightarrow> SessionOver \<in> set evs \<Longrightarrow> fst (consume_loop claim evs r) \<noteq> StillConsuming"
  by (induction claim evs r rule: consume_loop.induct) (auto simp: consumer_Close_def)

subsection \<open>Offsets across sessions\<close>

fun group_acked ::
  "'s claim_session \<Rightarrow> bool \<Rightarrow> ('w, 'err) message_handler \<Rightarrow> ('w, 'err) processed_hook option \<Rightarrow> 'w group_event list \<Rightarrow>
     ('w, 's) group_run \<Rightarrow> sarama_message list" where
  "group_acked cs auto handler hook [] r = []"
| "group_acked cs auto handler hook (RunClaim ces # evs) r =
     acked handler hook ces (fst (gr_world r)) @
     group_acked cs auto handler hook evs (r\<lparr>gr_world := ConsumeClaim cs auto handler hook ces (gr_world r)\<rparr>)"
| "group_acked cs auto handler hook (CancelGroup # evs) r = group_acked cs auto handler hook evs (r\<lparr>gr_cancelled := True\<rparr>)"
| "group_acked cs auto handler hook (CloseGroup # evs) r = group_acked cs auto handler hook evs (snd (consumer_Close None r))"
| "group_acked cs auto handler hook (SessionOver # evs) r =
     (if gr_cancelled r then [] else group_acked cs auto handler hook evs r)"
| "group_acked cs auto handler hook (ConsumeFailed e # evs) r = []"

lemma resume_after_append: "resume_after (xs @ ys) n = resume_after ys (resume_after xs n)"
  by (simp add: resume_after_def)

text \<open>
  Over the whole life of a consumer, through every rebalance, the offset of a partition is the largest
  acknowledged one plus one, and never moves back.
\<close>

theorem group_offsets:
  assumes "session_laws cs nxt"
    and "consume_loop (ConsumeClaim cs auto handler hook) evs r = (res, r')"
  shows "nxt (snd (gr_world r')) k =
      resume_after (filter (\<lambda>m. k = (sm_topic m, sm_partition m)) (group_acked cs auto handler hook evs r)) (nxt (snd (gr_world r)) k) \<and>
    nxt (snd (gr_world r)) k \<le> nxt (snd (gr_world r')) k"
proof -
  have "nxt (snd (gr_world r')) k =
      resume_after (filter (\<lambda>m. k = (sm_topic m, sm_partition m)) (group_acked cs auto handler hook evs r)) (nxt (snd (gr_world r)) k)"
    using assms(2)
  proof (induction evs arbitrary: r)
    case (Cons ev evs)
    show ?case
    proof (cases ev)
      case (RunClaim ces)
      with Cons.prems Cons.IH [of "r\<lparr>gr_world := ConsumeClaim cs auto handler hook ces (gr_world r)\<rparr>"]
        ConsumeClaim_offset [OF assms(1), of auto handler hook ces "fst (gr_world r)" "snd (gr_world r)" k]
      show ?thesis by (simp add: resume_after_append)
    next
      case SessionOver
      with Cons.prems Cons.IH [of r] show ?thesis by (auto split: if_splits)
    next
      case (ConsumeFailed m)
      with Cons.prems show ?thesis by auto
    next
      case CancelGroup
      with Cons.prems Cons.IH [of "r\<lparr>gr_cancelled := True\<rparr>"] show ?thesis by simp
    next
      case CloseGroup
      with Cons.prems Cons.IH [of "snd (consumer_Close None r)"] show ?thesis by (simp add: consumer_Close_def split: if_splits)
    qed
  qed auto
  then show ?thesis using resume_after_ge by simp
qed

subsection \<open>The recorder after an error of its consumer\<close>

text \<open>\<open>MarketConsumer.Start\<close> runs the loop in a goroutine that logs the error and ends.\<close>

definition recorder_claim ::
  "'s claim_session \<Rightarrow> mc_env \<Rightarrow> (consumed_message \<Rightarrow> instant \<times> instant) \<Rightarrow> (market_consumer, 's) claim_loop" where
  "recorder_claim cs env clock = recorder_ConsumeClaim cs True (mc_handler env clock)"

definition recorder_Start ::
  "'s claim_session \<Rightarrow> mc_env \<Rightarrow> (consumed_message \<Rightarrow> instant \<times> instant) \<Rightarrow> market_consumer group_event list \<Rightarrow>
     (market_consumer, 's) group_run \<Rightarrow> start_result \<times> (market_consumer, 's) group_run" where
  "recorder_Start cs env clock evs r = consumer_Start (recorder_claim cs env clock) evs r"

definition keeps_running :: "market_consumer claim_event \<Rightarrow> bool" where
  "keeps_running ev \<longleftrightarrow> (case ev of OtherStep f \<Rightarrow> \<forall>mc. mc_running (f mc) = mc_running mc | _ \<Rightarrow> True)"

lemma mc_handler_running: "mc_running (snd (mc_handler env clock msg mc)) = mc_running mc"
  by (auto simp: mc_handler_def mc_handleMessage_def handleTickMessage_def handleOrderBookMessage_def count_error_def
      Let_def split: option.splits prod.splits)

lemma mc_handler_time: "mc_last_message_at (snd (mc_handler env clock msg mc)) = fst (clock msg) div Second"
  by (auto simp: mc_handler_def mc_handleMessage_def handleTickMessage_def handleOrderBookMessage_def count_error_def
      Let_def split: option.splits prod.splits)

lemma recorder_claim_running:
  "\<forall>ev \<in> set ces. keeps_running ev \<Longrightarrow> mc_running (fst (recorder_claim cs env clock ces (mc, s))) = mc_running mc"
proof (induction ces arbitrary: mc s)
  case (Cons ev ces)
  have "mc_running (fst (ConsumeClaim cs True (mc_handler env clock) None ces (mc', s'))) = mc_running mc'" for mc' s'
    using Cons by (simp add: recorder_claim_def recorder_ConsumeClaim_def)
  then show ?case
    using Cons.prems mc_handler_running
    by (cases ev) (auto simp: recorder_claim_def recorder_ConsumeClaim_def keeps_running_def process_message_def case_prod_beta Let_def)
qed (simp add: recorder_claim_def recorder_ConsumeClaim_def)

text \<open>
  One error of \<open>Consume\<close> deafens the recorder.  The loop is not started again: whatever happens afterwards, no
  message reaches the handler and no offset moves.  Nothing else learns of it: the consumer still counts as
  running, and the health check says so until five minutes after the last message.
\<close>

theorem recorder_deaf_after_error:
  assumes "recorder_Start cs env clock evs r = (StartReturned (Some (ConsumeError e)), r')"
    and "\<forall>ces. RunClaim ces \<in> set evs \<longrightarrow> (\<forall>ev \<in> set ces. keeps_running ev)"
    and "mc_running (fst (gr_world r))"
  shows "recorder_Start cs env clock (evs @ evs2) r = (StartReturned (Some (ConsumeError e)), r') \<and>
    mc_running (fst (gr_world r')) \<and>
    (now \<le> mc_last_message_at (fst (gr_world r')) * Second + 5 * Minute \<longrightarrow> mc_HealthCheck now (fst (gr_world r')) = None)"
proof -
  have c: "consume_loop (recorder_claim cs env clock) evs r = (StartReturned (Some (ConsumeError e)), r')"
    and o: "\<not> gr_closed r" "\<not> gr_cancelled r"
    using assms(1) by (auto simp: recorder_Start_def consumer_Start_def split: if_splits)
  have "mc_running (fst (gr_world r'))"
    using c assms(2,3)
  proof (induction evs arbitrary: r)
    case (Cons ev evs)
    show ?case
    proof (cases ev)
      case (RunClaim ces)
      have k: "mc_running (fst (recorder_claim cs env clock ces (gr_world r)))"
        using recorder_claim_running [of ces cs env clock "fst (gr_world r)" "snd (gr_world r)"] Cons.prems(2,3) RunClaim by simp
      show ?thesis
        by (rule Cons.IH [of "r\<lparr>gr_world := recorder_claim cs env clock ces (gr_world r)\<rparr>"]) (use Cons.prems RunClaim k in simp_all)
    next
      case CloseGroup
      show ?thesis
        by (rule Cons.IH [of "snd (consumer_Close None r)"]) (use Cons.prems CloseGroup in \<open>simp_all add: consumer_Close_def\<close>)
    qed (use Cons in \<open>auto split: if_splits\<close>)
  qed simp
  then show ?thesis using c o by (simp add: recorder_Start_def consumer_Start_def consume_loop_append mc_HealthCheck_def Let_def)
qed

text \<open>An empty session, and then the connection to the brokers is lost.\<close>

theorem recorder_deaf_after_error_witness:
  "\<exists>r'. recorder_Start map_session sample_mc_env (\<lambda>m. (0, 0))
       [RunClaim [ClaimMessage (market_msg ''market.tick'' 0 ''A'')], ConsumeFailed ''EOF'', RunClaim [ClaimMessage (market_msg ''market.tick'' 1 ''A'')]]
       \<lparr>gr_closed = False, gr_cancelled = False, gr_world = (sample_mc 5, \<lambda>k. 0)\<rparr> = (StartReturned (Some (ConsumeError ''EOF'')), r') \<and>
     mc_HealthCheck Minute (fst (gr_world r')) = None"
proof -
  let ?c = "recorder_claim map_session sample_mc_env (\<lambda>m. (0, 0))" and ?evs = "[RunClaim [ClaimMessage (market_msg ''market.tick'' 0 ''A'')], ConsumeFailed ''EOF'']"
  let ?r = "\<lparr>gr_closed = False, gr_cancelled = False, gr_world = (sample_mc 5, \<lambda>k. 0)\<rparr>"
  let ?evs2 = "[RunClaim [ClaimMessage (market_msg ''market.tick'' 1 ''A'')]]"
  obtain r' where r: "recorder_Start map_session sample_mc_env (\<lambda>m. (0, 0)) ?evs ?r = (StartReturned (Some (ConsumeError ''EOF'')), r')"
      "r' = ?r\<lparr>gr_world := ?c [ClaimMessage (market_msg ''market.tick'' 0 ''A'')] (sample_mc 5, \<lambda>k. 0)\<rparr>"
    by (simp add: recorder_Start_def consumer_Start_def)
  have "mc_last_message_at (fst (gr_world r')) = 0"
    unfolding r(2)
    by (simp add: recorder_claim_def recorder_ConsumeClaim_def process_message_def mc_handler_time case_prod_beta Let_def)
  moreover have "mc_running (fst (gr_world ?r))" by (simp add: sample_mc_def)
  moreover have "\<forall>ces. RunClaim ces \<in> set ?evs \<longrightarrow> (\<forall>ev \<in> set ces. keeps_running ev)" by (auto simp: keeps_running_def)
  ultimately show ?thesis
    using recorder_deaf_after_error [OF r(1), of ?evs2 Minute] by (auto simp: go_simps)
qed

end
