(* ===== verification/Spec2Isabelle.thy ===== *)
theory Spec2Isabelle
  imports Order_Handler Jwt_Interceptor Market_Consumer Market_Ingestion Kis_Stream_Properties Redis_Lock Auth_Limiter URL_Validator
    Notify_Startup User_Crypto User_Properties Order_Startup User_Startup Recorder_Startup
    Ingestion_Startup Redis_Window Kafka_Group
begin

text \<open>
  Verification library for the Go services of AIPX, an automated trading platform.

  \<^bold>\<open>The program and this library.\<close>  Five Go services under \<open>src/services\<close> and the shared packages under
  \<open>src/shared/go/pkg\<close> are modelled as HOL functions and step relations; names in parentheses are theories.
  The data ingestion service reads market data from the broker's web socket and publishes it to Kafka; the data
  recorder consumes it, buffers it and writes it to TimescaleDB and S3; the order management service takes a
  stream of orders over gRPC, checks and limits them, places them at the broker, stores them and publishes order
  events; the notification service consumes events and sends them by Slack, Telegram and e-mail; the user service
  keeps accounts, tokens and broker credentials behind an HTTP interface.

  \<^bold>\<open>Conventions.\<close>  A Go function that returns \<open>(T, error)\<close> is a function into \<open>'e + 'a\<close>, one that returns only an
  error a function into an option, and every panic is a value of its own.  Go strings are byte lists
  (\<open>string\<close>).  Prices are doubles, modelled bit-exactly and executably (\<open>Go_Float\<close>: NaN, infinities, signed
  zeros, rounding to nearest even); 64-bit integers are \<open>int\<close> with the wrap-around written out wherever a
  product or sum can leave the range, pool sizes and addresses are words (32 and 128 bits).  State is a record
  that an operation returns updated; the world outside (network, database, clock) is a parameter \<open>'w\<close> that is
  threaded through every call, so that the order of the calls is part of the model.

  \<^bold>\<open>Boundaries.\<close>  Go's standard library as far as the sources use it is defined: \<open>Go_Strings\<close>, \<open>Go_Scan\<close>
  (\<open>Sscanf\<close>), \<open>Go_Time\<close> (\<open>ParseInt\<close>, civil time), \<open>Go_Base64\<close>, \<open>Go_Env\<close> (the process environment), \<open>Go_Http\<close>
  (requests, answers, statuses).  Third-party code is a parameter: Redis (\<open>Redis_Api\<close>, with the documented
  behaviour of its commands as the hypotheses \<open>kv_store\<close> in \<open>Redis_Store\<close> and \<open>z_store\<close> in \<open>Redis_Window\<close>, each
  instantiated by a concrete store in the witnesses), PostgreSQL's failures and canonical forms (the tables,
  constraints and triggers of the migrations are modelled), Sarama, gRPC, zerolog, the JWT library, Argon2, AES,
  JSON and the circuit breaker.

  \<^bold>\<open>Order management service\<close> (\<open>services/order-management-service\<close>).
  \<open>Orders\<close>: the domain types of \<open>repository/order_repo.go\<close>.  \<open>Risk_Rules\<close>, \<open>Risk_Engine\<close>: \<open>risk/rules.go\<close>,
  \<open>engine.go\<close>; what an accepted order satisfies, and the exact window of the duplicate rule.  \<open>Rate_Limiter\<close>:
  \<open>ratelimit/limiter.go\<close> with its Lua scripts; refinement of an abstract integer token bucket, the rate bound,
  and starvation of frequent pollers.  \<open>Order_Repo\<close>: the repository over tables with constraints and audit
  trigger; the audit log follows the status along every history.  \<open>Kis_Client\<close>, \<open>Order_Executor\<close>: \<open>broker/\<close>;
  what every outcome means at the broker and in the table.  \<open>Order_Handler\<close>: \<open>grpc/handler.go\<close> and the
  interceptors; one reply for each order in every interleaving.  \<open>Jwt_Interceptor\<close>:
  \<open>grpc/interceptors/auth.go\<close>.  \<open>Order_Startup\<close>: \<open>config/config.go\<close>, \<open>cmd/server/main.go\<close>, \<open>grpc/server.go\<close>.

  \<^bold>\<open>Data ingestion service\<close> (\<open>services/data-ingestion-service\<close>).
  \<open>Kis_Auth\<close>: \<open>kis/auth.go\<close>, the access token and its background refresh; tokens handed out are genuine.
  \<open>Kis_Stream\<close>, \<open>Kis_Stream_Properties\<close>: \<open>kis/client.go\<close>, four goroutines as sequences of events over the shared
  state; the invariant of every interleaving, termination of a reconnection by a measure, and the ways in which
  it goes wrong.  \<open>Kis_Parser\<close>: \<open>kis/message_parser.go\<close>.  \<open>Market_Ingestion\<close>: \<open>producer/market_producer.go\<close>, the
  handler that feeds it, and what the recorder reads of what it publishes.  \<open>Ingestion_Startup\<close>:
  \<open>config/config.go\<close>, \<open>cmd/server/main.go\<close>; no reconnection subscribes the symbols again.

  \<^bold>\<open>Data recorder\<close> (\<open>services/data-recorder-service\<close>).
  \<open>Batch_Buffer\<close>: \<open>buffer/batch_buffer.go\<close>, producers, flush loop, ticker and callback as a step relation; messages
  are conserved in order.  \<open>Market_Writers\<close>: \<open>writer/\<close>, atomicity of a batch over tables with transactions.
  \<open>Market_Consumer\<close>: \<open>consumer/market_consumer.go\<close>.  \<open>Kafka\<close>, \<open>Kafka_Group\<close>: the shared Kafka library and the
  recorder's copy: configuration, claim loop, delivery callbacks, the loop around \<open>Consume\<close>; the offset at which
  a group resumes.  \<open>Recorder_Startup\<close>: \<open>config/config.go\<close>, \<open>cmd/server/main.go\<close>; runs of the wired service.

  \<^bold>\<open>Notification service\<close> (\<open>services/notification-service\<close>).
  \<open>Notification\<close>, \<open>Notify_Channels\<close>, \<open>Notify_Email\<close>: \<open>channels/\<close>, the retry loop, the three channels and the SMTP
  session.  \<open>Notify_Manager\<close>: \<open>channels/manager.go\<close>.  \<open>Templates\<close>: \<open>templates/templates.go\<close>.  \<open>Notify_Repo\<close>: the
  repository; preferences read back as stored.  \<open>Notify_Consumer\<close>: \<open>consumer/notification_consumer.go\<close>; which
  channels are called, how often, and what the history holds.  \<open>URL_Validator\<close>: \<open>security/url_validator.go\<close>; the
  address check equals a table of intervals on 128-bit words.  \<open>Notify_Startup\<close>: \<open>config/config.go\<close>,
  \<open>cmd/server/main.go\<close>; why the service does not start.

  \<^bold>\<open>User service\<close> (\<open>services/user-service\<close>).
  \<open>User_Models\<close>: \<open>models/\<close>.  \<open>User_Password\<close>, \<open>User_Jwt\<close>: \<open>auth/\<close> and \<open>middleware/auth.go\<close>.  \<open>User_Crypto\<close>:
  \<open>crypto/aes.go\<close>.  \<open>User_Repo\<close>, \<open>User_Keys\<close>: the four repositories of \<open>repository/\<close> over the migration's
  tables.  \<open>User_Handlers\<close>: \<open>handlers/\<close> behind the routes; every reply is typed.  \<open>User_Accounts\<close>,
  \<open>User_Properties\<close>: facts kept along every history of requests; login, logout and deletion.  \<open>Auth_Limiter\<close>:
  \<open>middleware/rate_limiter.go\<close>, refinement of a fixed window.  \<open>User_Startup\<close>: \<open>config/config.go\<close>,
  \<open>cmd/server/main.go\<close> and the middleware around the router.

  \<^bold>\<open>Shared packages\<close> (\<open>shared/go/pkg\<close>).
  \<open>Shared_Config\<close>: \<open>config\<close>.  \<open>Logger\<close>: \<open>logger\<close> (the recorder's \<open>logger.go\<close> is the same file).  \<open>Redis_Client\<close>:
  \<open>redis/client.go\<close> and \<open>cache.go\<close>.  \<open>Redis_Lock\<close>: the lock of \<open>redis/lock.go\<close>; mutual exclusion also when
  replies are lost.  \<open>Redis_Window\<close>: its sliding window, refined by a set of instants.

  \<^bold>\<open>How the parts meet.\<close>  Interfaces of the code are locales, and each is interpreted on the model's own definitions:
  \<open>message_handler\<close> (the claim loop and its handlers: \<open>market_handler\<close>, \<open>notify_handler\<close>), \<open>message_sender\<close> (the
  retry loop and its senders: Slack, Telegram, e-mail, and the consumer's delivery), \<open>order_store\<close> and
  \<open>notification_store\<close> (repositories and their PostgreSQL implementations), \<open>stateless_rule\<close> (risk rules),
  \<open>token_operation\<close> (start, refresh and tick of the token manager), \<open>account_store\<close> with \<open>account_history\<close> and
  \<open>db_fact\<close>, joined by a \<open>sublocale\<close> (facts of the user database along every history, interpreted for the table
  invariant, for revoked tokens and for closed accounts).  Concurrent parts are step relations with invariants by
  rule induction: \<open>buffer_step\<close>, \<open>producer_step\<close>, \<open>stream_step\<close>, \<open>lock_step\<close>, \<open>auth_step\<close>, \<open>notify_step\<close>,
  \<open>api_step\<close>, \<open>db_reachable\<close>, \<open>manager_reachable\<close>, \<open>validator_reachable\<close>, \<open>polled\<close>; the web socket client is run
  by \<open>client_run\<close> on lists of events.  \<open>Prelude\<close> holds the shared collections and lemmas.  This theory adds what
  crosses services: order events against the notification consumer, and webhooks against the URL validator.

  \<^bold>\<open>Bounds.\<close>  No definition needs fuel.  Retry loops recurse on the number of attempts, which the code bounds; the
  loops that run until a channel is closed or a claim ends recurse on the list of events that reach them, and the
  properties quantify over all such lists.  The reconnection loop is one step per event, and its end is proved
  by a measure with an explicit bound on the steps.  Clocks are instants in nanoseconds; properties that need time
  to pass name it.

  \<^bold>\<open>Not modelled.\<close>  Generated protobuf code (its messages are data here); the mocks under \<open>testutil\<close>, which only tests
  use; listeners, \<open>Serve\<close>, keep-alive and the wait for a signal, which are calls of libraries without logic of the
  program; the log lines of the metrics reporters; \<open>Pause\<close> and \<open>Resume\<close>, which only forward to Sarama, and the
  Pub/Sub handle that \<open>Subscribe\<close> of the Redis client returns; the duration in the closing log line of a call.  The
  scheduling inside a Redis pipeline, between its commands and other clients, is that of the parameter.  The
  services in other languages (Python strategies and backtesting, the web front end) and the deployment files are
  outside: this library is about the Go services.
\<close>

subsection \<open>From the order service to the notification service\<close>

text \<open>
  The JSON object of an order event, by the tags of \<open>OrderEvent\<close>: the broker's identifier and the message are
  left out when empty.
\<close>

definition event_json :: "order_event \<Rightarrow> any_map" where
  "event_json ev =
     [''order_id'' \<mapsto> VString (oe_order_id ev), ''user_id'' \<mapsto> VString (oe_user_id ev),
      ''symbol'' \<mapsto> VString (oe_symbol ev), ''side'' \<mapsto> VString (oe_side ev), ''type'' \<mapsto> VString (oe_type ev),
      ''price'' \<mapsto> VNumber (oe_price ev), ''quantity'' \<mapsto> VNumber (f_of_int (oe_quantity ev)),
      ''status'' \<mapsto> VString (oe_status ev), ''timestamp'' \<mapsto> VNumber (f_of_int (oe_timestamp ev))] ++
     (if oe_broker_id ev \<noteq> [] then [''broker_id'' \<mapsto> VString (oe_broker_id ev)] else Map.empty) ++
     (if oe_message ev \<noteq> [] then [''message'' \<mapsto> VString (oe_message ev)] else Map.empty)"

text \<open>
  Order events never become notifications.  Whatever happens to an order, the event the executor publishes
  has no \<open>event_type\<close>, so a notification consumer that reads it answers with an error at once: no
  preference is read, nothing is sent or recorded.
\<close>

theorem order_events_never_notify:
  assumes "nce_decode env (cm_value msg) = Some (event_json (order_event_of ord status message))"
  shows "nc_handleMessage env nc msg st = (Some EventTypeMissing, st)"
  using assms by (simp add: nc_handleMessage_def event_json_def map_add_def)

theorem order_events_never_notify_witness:
  "nc_handleMessage (sample_nc_env\<lparr>nce_decode := \<lambda>v. Some (event_json (order_event_of sample_row OrderStatusFilled ''filled''))\<rparr>)
     sample_consumer (sample_consumed ''x'') (sample_state ()) = (Some EventTypeMissing, sample_state ())"
  by (rule order_events_never_notify [where ord = sample_row and status = OrderStatusFilled and message = "''filled''"]) simp

subsection \<open>Webhooks and the URL validator\<close>

text \<open>
  Nothing guards the webhooks.  The Slack channel posts to whatever address the notification's data names, on
  its first attempt and without a check, also to one that the URL validator of the same service rejects.
\<close>

theorem webhook_posted_unvalidated:
  assumes "nt_data n ''slack_webhook_url'' = Some (VString url)" and "url \<noteq> []"
    and "ne_slack_json env (formatSlackMessage env n) = Some body" and "ne_request_ok env url"
    and "0 \<le> effective_retries (slc_channel c) n"
    and "slack_Send (recording env) c n (w, l) = (r, w', l')"
  shows "\<exists>reply ms. l' = l @ HttpCall (json_post url body) reply # ms"
proof -
  have u: "getWebhookURL c n = url" using assms(1,2) by (simp add: getWebhookURL_def)
  obtain k where k: "nat (effective_retries (slc_channel c) n + 1) = Suc k"
    using assms(5) by (cases "nat (effective_retries (slc_channel c) n + 1)") auto
  let ?l = "l @ [HttpCall (json_post url body) (fst (ne_http env (json_post url body) w))]"
  obtain q where q: "sendWebhook (recording env) url (formatSlackMessage env n) (w, l) =
      (q, snd (ne_http env (json_post url body) w), ?l)"
    using assms(3,4) by (simp add: sendWebhook_def Let_def)
  show ?thesis
  proof (cases q)
    case None
    then show ?thesis using assms(2,6) q
      by (auto simp: slack_Send_def u retry_send_def k)
  next
    case (Some e)
    then have "send_attempts (ne_wait (recording env)) exp_backoff (sendWebhook (recording env) url (formatSlackMessage env n))
        (effective_retries (slc_channel c) n + 1) (Suc 0) k (Some e) (snd (ne_http env (json_post url body) w), ?l) = (r, w', l')"
      using assms(2,6) q by (simp add: slack_Send_def u retry_send_def k)
    from slack_sender.send_attempts_bounded [OF this] show ?thesis by auto
  qed
qed

theorem webhook_posted_unvalidated_witness:
  "\<exists>l' reply ms. snd (snd (slack_Send (recording (sample_notify True)) sample_slack
       (sample_notification\<lparr>nt_data := [''slack_webhook_url'' \<mapsto> VString ''http://169.254.169.254/'']\<rparr>) ((), []))) = l' \<and>
     l' = HttpCall (json_post ''http://169.254.169.254/'' ''Order Filled'') reply # ms"
proof -
  let ?n = "sample_notification\<lparr>nt_data := [''slack_webhook_url'' \<mapsto> VString ''http://169.254.169.254/'']\<rparr>"
  obtain r w' l' where s: "slack_Send (recording (sample_notify True)) sample_slack ?n ((), []) = (r, w', l')"
    by (rule prod_cases3)
  have t: "slm_text (formatSlackMessage env m) = nt_title m" for env :: "unit notify_env" and m
    by (simp add: formatSlackMessage_def Let_def)
  have "\<exists>reply ms. l' = [] @ HttpCall (json_post ''http://169.254.169.254/'' ''Order Filled'') reply # ms"
    by (rule webhook_posted_unvalidated [OF _ _ _ _ _ s])
      (simp_all add: sample_notify_def t sample_notification_def NewNotification_def effective_retries_def)
  then show ?thesis using s by simp
qed

end
